(* ===== verification/Prelude.thy ===== *)
theory Prelude
  imports Complex_Main "HOL-Library.AList"
begin

text \<open>
  Shared ground of the development: the fact collections, the Python exceptions as values,
  insertion-ordered dictionaries as association lists, and the generic list lemmas the
  components use.

  A Python \<open>dict\<close> keeps insertion order, and several loops of the program depend on it
  (the order of block reasons, the first donor venue). A dictionary is therefore an
  association list: \<open>map_of\<close> looks up, \<open>AList.update\<close> overwrites in place or appends
  (as \<open>d[k] = v\<close> does) and \<open>AList.delete\<close> removes (as \<open>d.pop(k, None)\<close> does).
\<close>

named_theorems guard_simps "unfolding rules of the guards and of their block reasons"
named_theorems state_simps "how the operations of a component act on the fields of its state"

subsection \<open>Exceptions as values\<close>

datatype py_error =
    ValueError
  | TypeError
  | KeyError
  | IndexError
  | ZeroDivision
  | InvalidOperation
  | VenueError

type_synonym 'a result = "py_error + 'a"

definition bind_result :: "'a result \<Rightarrow> ('a \<Rightarrow> 'b result) \<Rightarrow> 'b result" where
  "bind_result r f = (case r of Inl e \<Rightarrow> Inl e | Inr x \<Rightarrow> f x)"

lemma bind_result_simps [simp]:
  "bind_result (Inl e) f = Inl e"
  "bind_result (Inr x) f = f x"
  by (simp_all add: bind_result_def)

lemma bind_result_Inr_iff:
  "bind_result r f = Inr y \<longleftrightarrow> (\<exists>x. r = Inr x \<and> f x = Inr y)"
  by (cases r) simp_all

subsection \<open>Insertion-ordered dictionaries\<close>

type_synonym ('k, 'v) dict = "('k \<times> 'v) list"

definition dget :: "('k, 'v) dict \<Rightarrow> 'k \<Rightarrow> 'v \<Rightarrow> 'v" where
  \<comment> \<open>\<open>d.get(k, default)\<close>\<close>
  "dget d k v = (case map_of d k of None \<Rightarrow> v | Some x \<Rightarrow> x)"

definition keys :: "('k, 'v) dict \<Rightarrow> 'k list" where
  "keys d = map fst d"

definition vals :: "('k, 'v) dict \<Rightarrow> 'v list" where
  "vals d = map snd d"

definition wf_dict :: "('k, 'v) dict \<Rightarrow> bool" where
  "wf_dict d \<longleftrightarrow> distinct (map fst d)"

lemma map_of_update_same [simp]: "map_of (AList.update k v d) k = Some v"
  by (simp add: update_conv')

lemma map_of_update_other [simp]: "k' \<noteq> k \<Longrightarrow> map_of (AList.update k v d) k' = map_of d k'"
  by (simp add: update_conv')

lemma wf_dict_update [simp]: "wf_dict d \<Longrightarrow> wf_dict (AList.update k v d)"
  by (simp add: wf_dict_def distinct_update)

lemma wf_dict_delete [simp]: "wf_dict d \<Longrightarrow> wf_dict (AList.delete k d)"
  by (simp add: wf_dict_def distinct_delete)

lemma wf_dict_Nil [simp]: "wf_dict []"
  by (simp add: wf_dict_def)

lemma map_of_delete_same [simp]: "map_of (AList.delete k d) k = None"
  by (simp add: delete_conv')

lemma map_of_delete_other [simp]: "k' \<noteq> k \<Longrightarrow> map_of (AList.delete k d) k' = map_of d k'"
  by (simp add: delete_conv')

lemma dget_update [simp]:
  "dget (AList.update k v d) k' w = (if k' = k then v else dget d k' w)"
  by (simp add: dget_def)

lemma wf_dict_in_iff: "wf_dict d \<Longrightarrow> (k, v) \<in> set d \<longleftrightarrow> map_of d k = Some v"
  by (simp add: wf_dict_def)

subsection \<open>Deduplication that keeps the first occurrence\<close>

fun dedup_from :: "'a list \<Rightarrow> 'a list \<Rightarrow> 'a list" where
  "dedup_from seen [] = []"
| "dedup_from seen (x # xs) =
     (if x \<in> set seen then dedup_from seen xs else x # dedup_from (x # seen) xs)"

definition dedup :: "'a list \<Rightarrow> 'a list" where
  \<comment> \<open>\<open>list(dict.fromkeys(xs))\<close>\<close>
  "dedup xs = dedup_from [] xs"

lemma set_dedup_from: "set (dedup_from seen xs) = set xs - set seen"
  by (induction xs arbitrary: seen) auto

lemma set_dedup [simp]: "set (dedup xs) = set xs"
  by (simp add: dedup_def set_dedup_from)

lemma dedup_Nil_iff [simp]: "dedup xs = [] \<longleftrightarrow> xs = []"
  by (metis set_dedup set_empty)

lemma distinct_dedup_from: "distinct (dedup_from seen xs)"
  by (induction xs arbitrary: seen) (auto simp: set_dedup_from)

lemma distinct_dedup: "distinct (dedup xs)"
  by (simp add: dedup_def distinct_dedup_from)

subsection \<open>First maximum and minimum by a key\<close>

fun max_from :: "('a \<Rightarrow> 'b::linorder) \<Rightarrow> 'a \<Rightarrow> 'a list \<Rightarrow> 'a" where
  "max_from key b [] = b"
| "max_from key b (x # xs) = max_from key (if key b < key x then x else b) xs"

definition max_by :: "('a \<Rightarrow> 'b::linorder) \<Rightarrow> 'a list \<Rightarrow> 'a option" where
  \<comment> \<open>\<open>max(xs, key=...)\<close>: the first of the largest; None where the call raises\<close>
  "max_by key xs = (case xs of [] \<Rightarrow> None | x # ys \<Rightarrow> Some (max_from key x ys))"

fun min_from :: "('a \<Rightarrow> 'b::linorder) \<Rightarrow> 'a \<Rightarrow> 'a list \<Rightarrow> 'a" where
  "min_from key b [] = b"
| "min_from key b (x # xs) = min_from key (if key x < key b then x else b) xs"

definition min_by :: "('a \<Rightarrow> 'b::linorder) \<Rightarrow> 'a list \<Rightarrow> 'a option" where
  "min_by key xs = (case xs of [] \<Rightarrow> None | x # ys \<Rightarrow> Some (min_from key x ys))"

lemma max_from_in: "max_from key b xs \<in> insert b (set xs)"
  by (induction xs arbitrary: b) auto

lemma max_from_ge: "x \<in> insert b (set xs) \<Longrightarrow> key x \<le> key (max_from key b xs)"
proof (induction xs arbitrary: b x)
  case (Cons y ys)
  show ?case
    using Cons.prems Cons.IH [of x "if key b < key y then y else b"]
      Cons.IH [of "if key b < key y then y else b" "if key b < key y then y else b"]
    by (auto split: if_splits)
qed simp

lemma min_from_in: "min_from key b xs \<in> insert b (set xs)"
  by (induction xs arbitrary: b) auto

lemma max_by_SomeD: "max_by key xs = Some m \<Longrightarrow> m \<in> set xs \<and> (\<forall>x \<in> set xs. key x \<le> key m)"
  using max_from_in [of key "hd xs" "tl xs"] max_from_ge [of _ "hd xs" "tl xs" key]
  by (cases xs) (auto simp: max_by_def)

lemma max_by_None [simp]: "max_by key xs = None \<longleftrightarrow> xs = []"
  by (cases xs) (simp_all add: max_by_def)

lemma min_by_SomeD: "min_by key xs = Some m \<Longrightarrow> m \<in> set xs"
  using min_from_in [of key "hd xs" "tl xs"] by (cases xs) (auto simp: min_by_def)

subsection \<open>Conditional reasons\<close>

definition reason_if :: "bool \<Rightarrow> 'a \<Rightarrow> 'a list" where
  \<comment> \<open>\<open>if cond: reasons.append(msg)\<close>\<close>
  "reason_if c r = (if c then [r] else [])"

lemma reason_if_Nil_iff [simp]: "reason_if c r = [] \<longleftrightarrow> \<not> c"
  by (simp add: reason_if_def)

lemma set_reason_if [simp]: "set (reason_if c r) = (if c then {r} else {})"
  by (simp add: reason_if_def)

lemma reason_if_simps [simp]: "reason_if True r = [r]" "reason_if False r = []"
  by (simp_all add: reason_if_def)

end
