(* ===== verification/Rounding.thy ===== *)
theory Rounding
  imports Prelude
begin

text \<open>
  Correctly rounded arithmetic. Python's \<^verbatim>\<open>decimal\<close> rounds the exact result of every
  \<open>+ - * /\<close> to the precision of the context (half to even); a binary float does the same in
  base 2. A finite number of either kind is a rational, so a value is modelled as a \<open>rat\<close> and
  an operation as the exact rational result followed by \<open>round_sig b p\<close>, rounding to \<open>p\<close>
  significant digits of base \<open>b\<close>. Special values (NaN, infinities, signed zero) and exponent
  overflow are not modelled.

  The locale \<open>rounded\<close> is the interface the components rely on (monotone, exact on
  representable numbers); \<open>round_sig\<close> is shown to provide it, and the two instances used by the
  program are interpreted: decimals with 34 digits and binary floats with 53 bits.
\<close>

subsection \<open>Rounding to an integer, half to even\<close>

definition round_half_even :: "rat \<Rightarrow> int" where
  "round_half_even x =
     (let f = \<lfloor>x\<rfloor>; d = x - of_int f in
      if d < 1/2 then f else if 1/2 < d then f + 1 else if even f then f else f + 1)"

lemma round_half_even_of_int [simp]: "round_half_even (of_int n) = n"
  by (simp add: round_half_even_def Let_def)

lemma round_half_even_error: "\<bar>of_int (round_half_even x) - x\<bar> \<le> 1/2"
proof -
  have "of_int \<lfloor>x\<rfloor> \<le> x" and "x < of_int \<lfloor>x\<rfloor> + 1"
    by (rule of_int_floor_le, rule floor_correct [THEN conjunct2, simplified])
  then show ?thesis by (simp add: round_half_even_def Let_def abs_if) linarith
qed

lemma round_half_even_mono:
  assumes "x \<le> y"
  shows "round_half_even x \<le> round_half_even y"
proof (cases "\<lfloor>x\<rfloor> = \<lfloor>y\<rfloor>")
  case True
  with assms show ?thesis by (auto simp: round_half_even_def Let_def)
next
  case False
  with floor_mono [OF assms] have "\<lfloor>x\<rfloor> + 1 \<le> \<lfloor>y\<rfloor>" by linarith
  moreover have "round_half_even x \<le> \<lfloor>x\<rfloor> + 1" and "\<lfloor>y\<rfloor> \<le> round_half_even y"
    by (auto simp: round_half_even_def Let_def)
  ultimately show ?thesis by linarith
qed

subsection \<open>The magnitude of a number\<close>

fun ilog :: "nat \<Rightarrow> nat \<Rightarrow> nat" where
  "ilog b n = (if b < 2 \<or> n < b then 0 else Suc (ilog b (n div b)))"

declare ilog.simps [simp del]

lemma ilog_bounds:
  assumes "2 \<le> b" and "0 < n"
  shows "b ^ ilog b n \<le> n \<and> n < b ^ Suc (ilog b n)"
  using assms
proof (induction b n rule: ilog.induct)
  case (1 b n)
  show ?case
  proof (cases "n < b")
    case True
    with "1.prems" show ?thesis by (simp add: ilog.simps [of b n])
  next
    case False
    then have "0 < n div b" using "1.prems" by (simp add: div_greater_zero_iff)
    with "1.IH" "1.prems" False
    have IH: "b ^ ilog b (n div b) \<le> n div b" "n div b < b ^ Suc (ilog b (n div b))"
      by auto
    have "b * b ^ ilog b (n div b) \<le> b * (n div b)" using IH(1) by simp
    also have "\<dots> \<le> n" by simp
    finally have lo: "b ^ Suc (ilog b (n div b)) \<le> n" by simp
    from IH(2) have "Suc (n div b) \<le> b ^ Suc (ilog b (n div b))" by simp
    then have "b * Suc (n div b) \<le> b * b ^ Suc (ilog b (n div b))" by (rule mult_le_mono2)
    moreover have "n < b * Suc (n div b)"
      using "1.prems"(1) by (simp add: dividend_less_times_div)
    ultimately have "n < b ^ Suc (Suc (ilog b (n div b)))" by simp
    with lo False "1.prems" show ?thesis by (simp add: ilog.simps [of b n])
  qed
qed

definition mag :: "nat \<Rightarrow> rat \<Rightarrow> int" where
  \<comment> \<open>the exponent of the leading digit: \<open>b ^ mag b x \<le> \<bar>x\<bar> < b ^ (mag b x + 1)\<close>\<close>
  "mag b x =
     (case quotient_of \<bar>x\<bar> of (n, d) \<Rightarrow>
        let e = int (ilog b (nat n)) - int (ilog b (nat d))
        in if of_nat b powi e \<le> \<bar>x\<bar> then e else e - 1)"

lemma mag_bounds:
  assumes b: "2 \<le> b" and x: "x \<noteq> 0"
  shows "of_nat b powi mag b x \<le> \<bar>x\<bar> \<and> \<bar>x\<bar> < of_nat b powi (mag b x + 1)"
proof -
  obtain n d where q: "quotient_of \<bar>x\<bar> = (n, d)" by (cases "quotient_of \<bar>x\<bar>")
  have d: "0 < d" using quotient_of_denom_pos [OF q] .
  have xe: "\<bar>x\<bar> = of_int n / of_int d" using quotient_of_div [OF q] .
  with x d have n: "0 < n" by (metis abs_le_zero_iff divide_le_0_iff not_less of_int_0_le_iff of_int_le_0_iff order_less_imp_le)
  define i j where "i = ilog b (nat n)" and "j = ilog b (nat d)"
  define e where "e = int i - int j"
  have "b ^ i \<le> nat n" "nat n < b ^ Suc i" "b ^ j \<le> nat d" "nat d < b ^ Suc j"
    using ilog_bounds [OF b] n d by (simp_all add: i_def j_def)
  then have "int (b ^ i) \<le> n" "n < int (b ^ Suc i)" "int (b ^ j) \<le> d" "d < int (b ^ Suc j)"
    using n d by linarith+
  then have bn: "(of_nat b :: rat) ^ i \<le> of_int n" "(of_int n :: rat) < of_nat b ^ Suc i"
    and bd: "(of_nat b :: rat) ^ j \<le> of_int d" "(of_int d :: rat) < of_nat b ^ Suc j"
    by (metis of_int_le_iff of_int_less_iff of_int_of_nat_eq of_nat_power)+
  have b0: "(0 :: rat) < of_nat b" using b by simp
  have pe: "of_nat b powi e = (of_nat b :: rat) ^ i / of_nat b ^ j"
    using b0 by (simp add: e_def power_int_diff)
  have "\<bar>x\<bar> < of_nat b ^ Suc i / of_nat b ^ j"
    unfolding xe using bn bd b0 d by (intro frac_less) (use n in auto)
  also have "\<dots> = of_nat b powi (e + 1)"
    using b0 by (simp add: e_def power_int_diff power_int_add)
  finally have hi: "\<bar>x\<bar> < of_nat b powi (e + 1)" .
  have "of_nat b powi (e - 1) = (of_nat b :: rat) ^ i / of_nat b ^ Suc j"
    using b0 by (simp add: e_def power_int_diff)
  also have "\<dots> \<le> \<bar>x\<bar>"
    unfolding xe using bn bd b0 d by (intro frac_le) (use n in auto)
  finally have lo: "of_nat b powi (e - 1) \<le> \<bar>x\<bar>" .
  have "mag b x = (if of_nat b powi e \<le> \<bar>x\<bar> then e else e - 1)"
    by (simp add: mag_def q e_def i_def j_def Let_def)
  with lo hi show ?thesis by auto
qed

lemma powi_less_iff:
  "1 < (a :: rat) \<Longrightarrow> a powi m < a powi n \<longleftrightarrow> m < n"
  by (metis not_less_iff_gr_or_eq order_less_asym power_int_strict_increasing)

lemma powi_le_iff:
  "1 < (a :: rat) \<Longrightarrow> a powi m \<le> a powi n \<longleftrightarrow> m \<le> n"
  by (metis linorder_not_le powi_less_iff)

lemma mag_unique:
  assumes b: "2 \<le> b" and x: "x \<noteq> 0"
    and "of_nat b powi e \<le> \<bar>x\<bar>" and "\<bar>x\<bar> < of_nat b powi (e + 1)"
  shows "mag b x = e"
proof -
  have b1: "(1 :: rat) < of_nat b" using b by simp
  have "of_nat b powi e < (of_nat b :: rat) powi (mag b x + 1)"
    and "of_nat b powi mag b x < (of_nat b :: rat) powi (e + 1)"
    using mag_bounds [OF b x] assms(3,4) by linarith+
  then have "e < mag b x + 1" "mag b x < e + 1"
    using b1 by (simp_all only: powi_less_iff)
  then show ?thesis by linarith
qed

lemma mag_mono:
  assumes b: "2 \<le> b" and x: "x \<noteq> 0" and le: "\<bar>x\<bar> \<le> \<bar>y\<bar>"
  shows "mag b x \<le> mag b y"
proof -
  have b1: "(1 :: rat) < of_nat b" using b by simp
  have "y \<noteq> 0" using x le by auto
  from mag_bounds [OF b x] mag_bounds [OF b this] le
  have "of_nat b powi mag b x < (of_nat b :: rat) powi (mag b y + 1)" by linarith
  with b1 have "mag b x < mag b y + 1" by (simp only: powi_less_iff)
  then show ?thesis by simp
qed

lemma mag_uminus [simp]: "mag b (- x) = mag b x"
  by (simp add: mag_def)

subsection \<open>Rounding to significant digits\<close>

definition ulp :: "nat \<Rightarrow> nat \<Rightarrow> rat \<Rightarrow> rat" where
  \<comment> \<open>the weight of the last kept digit\<close>
  "ulp b p x = of_nat b powi (mag b x - (int p - 1))"

definition round_sig :: "nat \<Rightarrow> nat \<Rightarrow> rat \<Rightarrow> rat" where
  "round_sig b p x = (if x = 0 then 0 else of_int (round_half_even (x / ulp b p x)) * ulp b p x)"

definition fits :: "nat \<Rightarrow> nat \<Rightarrow> rat \<Rightarrow> bool" where
  \<comment> \<open>\<open>x\<close> has at most \<open>p\<close> significant digits in base \<open>b\<close>\<close>
  "fits b p x \<longleftrightarrow> (\<exists>n e. x = of_int n * of_nat b powi e \<and> \<bar>n\<bar> < int b ^ p)"

lemma ulp_pos: "2 \<le> b \<Longrightarrow> 0 < ulp b p x"
  by (simp add: ulp_def)

lemma ulp_uminus [simp]: "ulp b p (- x) = ulp b p x"
  by (simp add: ulp_def)

lemma powi_mag_ulp:
  assumes "2 \<le> b" and "1 \<le> p"
  shows "of_nat b powi mag b x = of_int (int b ^ (p - 1)) * ulp b p x"
    and "of_nat b powi (mag b x + 1) = of_int (int b ^ p) * ulp b p x"
proof -
  have b0: "(of_nat b :: rat) \<noteq> 0" using assms by simp
  have "(of_nat b :: rat) ^ k * of_nat b powi m = of_nat b powi (int k + m)" for k m
    using b0 by (simp add: power_int_add)
  from this [of "p - 1" "mag b x - (int p - 1)"] this [of p "mag b x - (int p - 1)"]
  show "of_nat b powi mag b x = of_int (int b ^ (p - 1)) * ulp b p x"
    and "of_nat b powi (mag b x + 1) = of_int (int b ^ p) * ulp b p x"
    using assms by (simp_all add: ulp_def of_nat_diff add.commute)
qed

lemma round_half_even_uminus: "round_half_even (- x) = - round_half_even x"
proof (cases "x \<in> \<int>")
  case True
  then obtain n where "x = of_int n" by (auto elim: Ints_cases)
  then show ?thesis using round_half_even_of_int [of "- n"] by simp
next
  case False
  then have "\<lfloor>- x\<rfloor> = - \<lfloor>x\<rfloor> - 1"
    by (metis Ints_of_int add_uminus_conv_diff ceiling_altdef floor_minus minus_add_distrib)
  then show ?thesis by (auto simp: round_half_even_def Let_def)
qed

lemma round_sig_uminus: "round_sig b p (- x) = - round_sig b p x"
  by (simp add: round_sig_def round_half_even_uminus)

lemma round_sig_0 [simp]: "round_sig b p 0 = 0"
  by (simp add: round_sig_def)

lemma round_sig_pos_bounds:
  assumes b: "2 \<le> b" and p: "1 \<le> p" and x: "0 < x"
  shows "of_nat b powi mag b x \<le> round_sig b p x"
    and "round_sig b p x \<le> of_nat b powi (mag b x + 1)"
proof -
  have u: "0 < ulp b p x" using b by (rule ulp_pos)
  have "of_nat b powi mag b x \<le> x" "x \<le> of_nat b powi (mag b x + 1)"
    using mag_bounds [OF b, of x] x by auto
  then have "of_int (int b ^ (p - 1)) \<le> x / ulp b p x" "x / ulp b p x \<le> of_int (int b ^ p)"
    using u powi_mag_ulp [OF b p, of x] by (simp_all add: field_simps)
  from this [THEN round_half_even_mono]
  have "int b ^ (p - 1) \<le> round_half_even (x / ulp b p x)"
    and "round_half_even (x / ulp b p x) \<le> int b ^ p"
    by (simp_all only: round_half_even_of_int)
  then show "of_nat b powi mag b x \<le> round_sig b p x"
    and "round_sig b p x \<le> of_nat b powi (mag b x + 1)"
    using u x unfolding powi_mag_ulp [OF b p, of x] round_sig_def
    by (simp_all only: of_int_le_iff mult_le_cancel_right_pos if_False less_imp_neq [THEN not_sym])
qed

lemma round_sig_pos: "2 \<le> b \<Longrightarrow> 1 \<le> p \<Longrightarrow> 0 < x \<Longrightarrow> 0 < round_sig b p x"
  by (rule less_le_trans [OF _ round_sig_pos_bounds(1)]) simp_all

lemma round_sig_mono_pos:
  assumes b: "2 \<le> b" and p: "1 \<le> p" and x: "0 < x" and le: "x \<le> y"
  shows "round_sig b p x \<le> round_sig b p y"
proof (cases "mag b x = mag b y")
  case True
  then have u: "ulp b p x = ulp b p y" by (simp add: ulp_def)
  have "0 < ulp b p y" using b by (rule ulp_pos)
  moreover from this le have "x / ulp b p y \<le> y / ulp b p y" by (simp add: divide_right_mono)
  then have "round_half_even (x / ulp b p y) \<le> round_half_even (y / ulp b p y)"
    by (rule round_half_even_mono)
  ultimately show ?thesis using x le by (simp add: round_sig_def u)
next
  case False
  have y: "0 < y" using x le by simp
  have "mag b x \<le> mag b y" using x le by (intro mag_mono [OF b]) auto
  with False have "mag b x + 1 \<le> mag b y" by simp
  moreover have "(1 :: rat) < of_nat b" using b by simp
  ultimately have "(of_nat b :: rat) powi (mag b x + 1) \<le> of_nat b powi mag b y"
    by (simp only: powi_le_iff)
  with round_sig_pos_bounds(2) [OF b p x] round_sig_pos_bounds(1) [OF b p y]
  show ?thesis by linarith
qed

lemma round_sig_mono:
  assumes b: "2 \<le> b" and p: "1 \<le> p" and le: "x \<le> y"
  shows "round_sig b p x \<le> round_sig b p y"
proof -
  consider "0 < x" | "y < 0" | "x \<le> 0" "0 \<le> y" by linarith
  then show ?thesis
  proof cases
    case 1
    then show ?thesis using le by (rule round_sig_mono_pos [OF b p])
  next
    case 2
    then have "round_sig b p (- y) \<le> round_sig b p (- x)"
      using le by (intro round_sig_mono_pos [OF b p]) simp_all
    then show ?thesis by (simp add: round_sig_uminus)
  next
    case 3
    have "0 \<le> round_sig b p (- x)" and "0 \<le> round_sig b p y"
      using 3 round_sig_pos [OF b p, of "- x"] round_sig_pos [OF b p, of y]
      by (cases "x = 0"; cases "y = 0"; auto)+
    then show ?thesis by (simp add: round_sig_uminus)
  qed
qed

lemma round_sig_exact:
  assumes b: "2 \<le> b" and fit: "fits b p x"
  shows "round_sig b p x = x"
proof (cases "x = 0")
  case False
  from fit obtain n e where x: "x = of_int n * of_nat b powi e" and n: "\<bar>n\<bar> < int b ^ p"
    unfolding fits_def by blast
  have b1: "(1 :: rat) < of_nat b" using b by simp
  have "\<bar>x\<bar> = of_int \<bar>n\<bar> * of_nat b powi e" using b by (simp add: x abs_mult)
  also have "\<dots> < of_int (int b ^ p) * of_nat b powi e"
    using n b1 by (intro mult_strict_right_mono) (simp_all only: of_int_less_iff, simp)
  also have "\<dots> = of_nat b powi (int p + e)" using b by (simp add: power_int_add)
  finally have "of_nat b powi mag b x < (of_nat b :: rat) powi (int p + e)"
    using mag_bounds [OF b False] by linarith
  with b1 have "mag b x < int p + e" by (simp only: powi_less_iff)
  then have k: "0 \<le> e - (mag b x - (int p - 1))" (is "0 \<le> ?k") by simp
  have "x / ulp b p x = of_int n * of_nat b powi ?k"
    using b by (simp add: x ulp_def power_int_diff)
  also have "\<dots> = of_int (n * int b ^ nat ?k)" using k by (simp add: power_int_def)
  finally have q: "x / ulp b p x = of_int (n * int b ^ nat ?k)" .
  then have "round_half_even (x / ulp b p x) = n * int b ^ nat ?k"
    by (simp only: round_half_even_of_int)
  then have "of_int (round_half_even (x / ulp b p x)) = x / ulp b p x"
    using q by simp
  then show ?thesis using False ulp_pos [OF b, of p x] by (simp add: round_sig_def)
qed simp

lemma round_sig_error:
  assumes b: "2 \<le> b"
  shows "\<bar>round_sig b p x - x\<bar> \<le> ulp b p x / 2"
proof (cases "x = 0")
  case True
  then show ?thesis using ulp_pos [OF b, of p x] by simp
next
  case False
  have u: "0 < ulp b p x" using b by (rule ulp_pos)
  have "round_sig b p x - x = (of_int (round_half_even (x / ulp b p x)) - x / ulp b p x) * ulp b p x"
    using False u by (simp add: round_sig_def field_simps)
  then have "\<bar>round_sig b p x - x\<bar> =
      \<bar>of_int (round_half_even (x / ulp b p x)) - x / ulp b p x\<bar> * ulp b p x"
    using u by (simp add: abs_mult)
  also have "\<dots> \<le> 1/2 * ulp b p x"
    using u by (intro mult_right_mono round_half_even_error) simp
  finally show ?thesis by simp
qed

lemma round_sig_relative_error:
  assumes b: "2 \<le> b" and p: "1 \<le> p"
  shows "\<bar>round_sig b p x - x\<bar> * (2 * of_nat b ^ (p - 1)) \<le> \<bar>x\<bar>"
proof (cases "x = 0")
  case False
  have "\<bar>round_sig b p x - x\<bar> * (2 * of_nat b ^ (p - 1)) \<le> ulp b p x / 2 * (2 * of_nat b ^ (p - 1))"
    by (intro mult_right_mono round_sig_error [OF b]) simp
  also have "\<dots> = of_nat b powi mag b x" by (simp add: powi_mag_ulp(1) [OF b p])
  also have "\<dots> \<le> \<bar>x\<bar>" using mag_bounds [OF b False] by simp
  finally show ?thesis .
qed simp

lemma fits_0: "2 \<le> b \<Longrightarrow> fits b p 0"
  unfolding fits_def by (intro exI [of _ 0]) simp

lemma fits_uminus: "fits b p x \<Longrightarrow> fits b p (- x)"
  unfolding fits_def by (metis abs_minus_cancel minus_mult_left of_int_minus)

lemma fits_round_sig_pos:
  assumes b: "2 \<le> b" and p: "1 \<le> p" and x: "0 < x"
  shows "fits b p (round_sig b p x)"
proof -
  define k where "k = round_half_even (x / ulp b p x)"
  have r: "round_sig b p x = of_int k * of_nat b powi (mag b x - (int p - 1))"
    using x by (simp add: round_sig_def k_def ulp_def)
  have "of_int k * ulp b p x \<le> of_int (int b ^ p) * ulp b p x"
    using round_sig_pos_bounds(2) [OF b p x] x
    unfolding powi_mag_ulp(2) [OF b p, of x] by (simp add: round_sig_def k_def)
  with ulp_pos [OF b, of p x] have kp: "k \<le> int b ^ p"
    by (simp only: mult_le_cancel_right_pos of_int_le_iff)
  have k0: "0 < k"
    using round_sig_pos [OF b p x] ulp_pos [OF b, of p x] x
    by (simp add: round_sig_def k_def zero_less_mult_iff)
  show ?thesis
  proof (cases "k = int b ^ p")
    case False
    with kp k0 r show ?thesis unfolding fits_def by (metis abs_of_pos order_le_less)
  next
    case True
    have "round_sig b p x = of_int 1 * of_nat b powi (mag b x + 1)"
      using powi_mag_ulp(2) [OF b p, of x] True r by (simp add: ulp_def)
    moreover have "\<bar>1\<bar> < int b ^ p" using b p by (simp add: one_less_power)
    ultimately show ?thesis unfolding fits_def by blast
  qed
qed

lemma fits_round_sig:
  assumes b: "2 \<le> b" and p: "1 \<le> p"
  shows "fits b p (round_sig b p x)"
proof -
  consider "0 < x" | "x < 0" | "x = 0" by linarith
  then show ?thesis
  proof cases
    case 2
    then have "fits b p (- round_sig b p (- x))"
      by (intro fits_uminus fits_round_sig_pos [OF b p]) simp
    then show ?thesis by (simp add: round_sig_uminus)
  qed (simp_all add: fits_0 [OF b] fits_round_sig_pos [OF b p])
qed

subsection \<open>The interface of a rounding\<close>

locale rounded =
  fixes rnd :: "rat \<Rightarrow> rat"
    and repr :: "rat \<Rightarrow> bool"
  assumes rnd_mono: "x \<le> y \<Longrightarrow> rnd x \<le> rnd y"
    and rnd_exact: "repr x \<Longrightarrow> rnd x = x"
    and rnd_repr: "repr (rnd x)"
    and rnd_odd: "rnd (- x) = - rnd x"
    and repr_0: "repr 0"
begin

lemma rnd_0: "rnd 0 = 0"
  by (rule rnd_exact [OF repr_0])

lemma rnd_idem: "rnd (rnd x) = rnd x"
  by (rule rnd_exact [OF rnd_repr])

lemma rnd_nonneg: "0 \<le> x \<Longrightarrow> 0 \<le> rnd x"
  using rnd_mono [of 0 x] by (simp add: rnd_0)

lemma rnd_nonpos: "x \<le> 0 \<Longrightarrow> rnd x \<le> 0"
  using rnd_mono [of x 0] by (simp add: rnd_0)

lemma rnd_le: "repr c \<Longrightarrow> x \<le> c \<Longrightarrow> rnd x \<le> c"
  using rnd_mono [of x c] by (simp add: rnd_exact)

lemma rnd_ge: "repr c \<Longrightarrow> c \<le> x \<Longrightarrow> c \<le> rnd x"
  using rnd_mono [of c x] by (simp add: rnd_exact)

lemma rnd_add_mono: "a \<le> b \<Longrightarrow> x \<le> y \<Longrightarrow> rnd (a + x) \<le> rnd (b + y)"
  by (intro rnd_mono) simp

lemma rnd_sub_mono: "a \<le> b \<Longrightarrow> y \<le> x \<Longrightarrow> rnd (a - x) \<le> rnd (b - y)"
  by (intro rnd_mono) simp

lemma rnd_add_nonneg: "0 \<le> a \<Longrightarrow> 0 \<le> x \<Longrightarrow> 0 \<le> rnd (a + x)"
  by (intro rnd_nonneg) simp

lemma rnd_add_ge: "repr a \<Longrightarrow> 0 \<le> x \<Longrightarrow> a \<le> rnd (a + x)"
  by (intro rnd_ge) simp_all

lemma rnd_sub_le: "repr a \<Longrightarrow> 0 \<le> x \<Longrightarrow> rnd (a - x) \<le> a"
  by (intro rnd_le) simp_all

lemma rnd_mult_nonneg: "0 \<le> a \<Longrightarrow> 0 \<le> x \<Longrightarrow> 0 \<le> rnd (a * x)"
  by (intro rnd_nonneg) simp

lemma rnd_scale_ge:
  assumes "repr a" and "0 \<le> a" and "1 \<le> m"
  shows "a \<le> rnd (a * m)"
  using assms(1) mult_left_mono [OF assms(3,2)] by (intro rnd_ge) simp_all

lemma rnd_sum_nonneg:
  "0 \<le> a \<Longrightarrow> \<forall>x \<in> set xs. 0 \<le> x \<Longrightarrow> 0 \<le> foldl (\<lambda>s x. rnd (s + x)) a xs"
  by (induction xs arbitrary: a) (auto intro: rnd_add_nonneg)

lemma rnd_sum_mono:
  "list_all2 (\<le>) xs ys \<Longrightarrow> a \<le> b
    \<Longrightarrow> foldl (\<lambda>s x. rnd (s + x)) a xs \<le> foldl (\<lambda>s x. rnd (s + x)) b ys"
  by (induction xs ys arbitrary: a b rule: list_all2_induct) (auto intro: rnd_add_mono)

lemma rnd_sum_repr: "repr a \<Longrightarrow> repr (foldl (\<lambda>s x. rnd (s + x)) a xs)"
  by (induction xs arbitrary: a) (auto intro: rnd_repr)

text \<open>An exponentially weighted mean stays under every bound whose two parts are representable.\<close>

lemma rnd_ewma_le:
  assumes "repr (hi * (1 - w))" and "repr (hi * w)" and "repr hi"
    and "0 \<le> w" and "w \<le> 1" and "v \<le> hi" and "x \<le> hi"
  shows "rnd (rnd (v * (1 - w)) + rnd (x * w)) \<le> hi"
proof -
  have "rnd (v * (1 - w)) \<le> hi * (1 - w)"
    using assms by (intro rnd_le mult_right_mono) simp_all
  moreover have "rnd (x * w) \<le> hi * w"
    using assms by (intro rnd_le mult_right_mono) simp_all
  ultimately have "rnd (v * (1 - w)) + rnd (x * w) \<le> hi" by (simp add: algebra_simps)
  with assms(3) show ?thesis by (rule rnd_le)
qed

lemma rnd_ewma_ge:
  assumes "repr (lo * (1 - w))" and "repr (lo * w)" and "repr lo"
    and "0 \<le> w" and "w \<le> 1" and "lo \<le> v" and "lo \<le> x"
  shows "lo \<le> rnd (rnd (v * (1 - w)) + rnd (x * w))"
proof -
  have "lo * (1 - w) \<le> rnd (v * (1 - w))"
    using assms by (intro rnd_ge mult_right_mono) simp_all
  moreover have "lo * w \<le> rnd (x * w)"
    using assms by (intro rnd_ge mult_right_mono) simp_all
  ultimately have "lo \<le> rnd (v * (1 - w)) + rnd (x * w)" by (simp add: algebra_simps)
  with assms(3) show ?thesis by (rule rnd_ge)
qed

lemma rnd_ewma_nonneg:
  "0 \<le> w \<Longrightarrow> w \<le> 1 \<Longrightarrow> 0 \<le> v \<Longrightarrow> 0 \<le> x \<Longrightarrow> 0 \<le> rnd (rnd (v * (1 - w)) + rnd (x * w))"
  by (intro rnd_add_nonneg rnd_mult_nonneg) simp_all

end

subsection \<open>The two arithmetics of the program\<close>

definition dround :: "rat \<Rightarrow> rat" where
  \<comment> \<open>\<open>getcontext().prec = 34\<close>, ROUND_HALF_EVEN\<close>
  "dround = round_sig 10 34"

definition fround :: "rat \<Rightarrow> rat" where
  \<comment> \<open>IEEE 754 binary64 in the normal range\<close>
  "fround = round_sig 2 53"

definition drepr :: "rat \<Rightarrow> bool" where
  "drepr = fits 10 34"

definition frepr :: "rat \<Rightarrow> bool" where
  "frepr = fits 2 53"

interpretation dec: rounded dround drepr
  by unfold_locales
    (simp_all add: dround_def drepr_def round_sig_mono round_sig_exact fits_round_sig
      round_sig_uminus fits_0)

interpretation flt: rounded fround frepr
  by unfold_locales
    (simp_all add: fround_def frepr_def round_sig_mono round_sig_exact fits_round_sig
      round_sig_uminus fits_0)

end
