(* ===== verification/Money.thy ===== *)
theory Money
  imports Rounding
begin

text \<open>
  Model of \<^verbatim>\<open>backend/fedr/core/money.py\<close>: decimal arithmetic at the context precision of 34
  digits, the conversion \<open>D\<close>, percentages, quantisation, step rounding and the money format.

  \<open>dadd\<close>, \<open>dsub\<close>, \<open>dmul\<close>, \<open>ddiv\<close>, \<open>dneg\<close> and \<open>dabs\<close> are Python's operators on finite
  decimals: each rounds once. \<open>min\<close>, \<open>max\<close> and the comparisons do not round. \<open>ddiv\<close> is used
  where the code has excluded a zero divisor; \<open>ddiv_r\<close> raises otherwise.
\<close>

type_synonym decimal = rat

subsection \<open>The operators\<close>

definition dadd :: "decimal \<Rightarrow> decimal \<Rightarrow> decimal" where
  "dadd x y = dround (x + y)"

definition dsub :: "decimal \<Rightarrow> decimal \<Rightarrow> decimal" where
  "dsub x y = dround (x - y)"

definition dmul :: "decimal \<Rightarrow> decimal \<Rightarrow> decimal" where
  "dmul x y = dround (x * y)"

definition ddiv :: "decimal \<Rightarrow> decimal \<Rightarrow> decimal" where
  "ddiv x y = dround (x / y)"

definition ddiv_r :: "decimal \<Rightarrow> decimal \<Rightarrow> decimal result" where
  "ddiv_r x y = (if y = 0 then Inl (if x = 0 then InvalidOperation else ZeroDivision) else Inr (ddiv x y))"

definition dneg :: "decimal \<Rightarrow> decimal" where
  "dneg x = dround (- x)"

definition dabs :: "decimal \<Rightarrow> decimal" where
  "dabs x = dround \<bar>x\<bar>"

definition dsum :: "decimal list \<Rightarrow> decimal" where
  \<comment> \<open>\<open>sum(xs, ZERO)\<close>: left to right, rounding after each addition\<close>
  "dsum xs = foldl dadd 0 xs"

lemmas dec_defs = dadd_def dsub_def dmul_def ddiv_def dneg_def dabs_def

lemma drepr_ops [simp]:
  "drepr (dadd x y)" "drepr (dsub x y)" "drepr (dmul x y)" "drepr (ddiv x y)"
  "drepr (dneg x)" "drepr (dabs x)"
  by (simp_all add: dec_defs dec.rnd_repr)

lemma drepr_0 [simp]: "drepr 0"
  by (rule dec.repr_0)

lemma dround_0 [simp]: "dround 0 = 0"
  by (rule dec.rnd_0)

lemma dadd_0 [simp]: "drepr x \<Longrightarrow> dadd x 0 = x" "drepr x \<Longrightarrow> dadd 0 x = x"
  by (simp_all add: dadd_def dec.rnd_exact)

lemma dsub_0 [simp]: "drepr x \<Longrightarrow> dsub x 0 = x" "dsub x x = 0"
  by (simp_all add: dsub_def dec.rnd_exact)

lemma dmul_0 [simp]: "dmul x 0 = 0" "dmul 0 x = 0"
  by (simp_all add: dmul_def)

lemma ddiv_0 [simp]: "ddiv 0 x = 0"
  by (simp add: ddiv_def)

lemma dadd_mono: "a \<le> b \<Longrightarrow> x \<le> y \<Longrightarrow> dadd a x \<le> dadd b y"
  by (simp add: dadd_def dec.rnd_add_mono)

lemma dsub_mono: "a \<le> b \<Longrightarrow> y \<le> x \<Longrightarrow> dsub a x \<le> dsub b y"
  by (simp add: dsub_def dec.rnd_sub_mono)

lemma dmul_mono: "a \<le> b \<Longrightarrow> 0 \<le> c \<Longrightarrow> dmul a c \<le> dmul b c"
  by (simp add: dmul_def dec.rnd_mono mult_right_mono)

lemma ddiv_mono: "a \<le> b \<Longrightarrow> 0 \<le> c \<Longrightarrow> ddiv a c \<le> ddiv b c"
  by (simp add: ddiv_def dec.rnd_mono divide_right_mono)

lemma dadd_nonneg [intro]: "0 \<le> a \<Longrightarrow> 0 \<le> x \<Longrightarrow> 0 \<le> dadd a x"
  by (simp add: dadd_def dec.rnd_add_nonneg)

lemma dmul_nonneg [intro]: "0 \<le> a \<Longrightarrow> 0 \<le> x \<Longrightarrow> 0 \<le> dmul a x"
  by (simp add: dmul_def dec.rnd_mult_nonneg)

lemma ddiv_nonneg [intro]: "0 \<le> a \<Longrightarrow> 0 \<le> x \<Longrightarrow> 0 \<le> ddiv a x"
  by (simp add: ddiv_def dec.rnd_nonneg)

lemma dabs_nonneg [simp]: "0 \<le> dabs x"
  by (simp add: dabs_def dec.rnd_nonneg)

lemma dsub_nonneg: "x \<le> a \<Longrightarrow> 0 \<le> dsub a x"
  by (simp add: dsub_def dec.rnd_nonneg)

lemma dsub_nonpos: "a \<le> x \<Longrightarrow> dsub a x \<le> 0"
  by (simp add: dsub_def dec.rnd_nonpos)

lemma dsub_le: "drepr a \<Longrightarrow> 0 \<le> x \<Longrightarrow> dsub a x \<le> a"
  by (simp add: dsub_def dec.rnd_sub_le)

lemma dadd_ge: "drepr a \<Longrightarrow> 0 \<le> x \<Longrightarrow> a \<le> dadd a x"
  by (simp add: dadd_def dec.rnd_add_ge)

lemma dmul_ge: "drepr a \<Longrightarrow> 0 \<le> a \<Longrightarrow> 1 \<le> m \<Longrightarrow> a \<le> dmul a m"
  by (simp add: dmul_def dec.rnd_scale_ge)

lemma dneg_exact: "drepr x \<Longrightarrow> dneg x = - x"
  by (simp add: dneg_def dec.rnd_odd dec.rnd_exact)

lemma dsum_nonneg: "\<forall>x \<in> set xs. 0 \<le> x \<Longrightarrow> 0 \<le> dsum xs"
  unfolding dsum_def dadd_def by (rule dec.rnd_sum_nonneg) simp

lemma dsum_mono: "list_all2 (\<le>) xs ys \<Longrightarrow> dsum xs \<le> dsum ys"
  unfolding dsum_def dadd_def by (rule dec.rnd_sum_mono) simp_all

lemma drepr_dsum [simp]: "drepr (dsum xs)"
  unfolding dsum_def dadd_def by (rule dec.rnd_sum_repr) simp

subsection \<open>When the arithmetic is exact\<close>

definition on_grid :: "nat \<Rightarrow> rat \<Rightarrow> bool" where
  \<comment> \<open>a multiple of \<open>10\<^sup>-\<^sup>k\<close> with at most 34 digits\<close>
  "on_grid k x \<longleftrightarrow> (\<exists>n. x = of_int n / 10 ^ k \<and> \<bar>n\<bar> < 10 ^ 34)"

lemma on_grid_drepr:
  assumes "on_grid k x"
  shows "drepr x"
proof -
  from assms obtain n where n: "x = of_int n / 10 ^ k" "\<bar>n\<bar> < 10 ^ 34"
    unfolding on_grid_def by blast
  have "x = of_int n * of_nat 10 powi (- int k)"
    using n(1) by (simp add: power_int_minus divide_inverse)
  with n(2) show ?thesis unfolding drepr_def fits_def by (metis of_nat_numeral)
qed

lemma on_grid_0 [simp]: "on_grid k 0"
  unfolding on_grid_def by (intro exI [of _ 0]) simp

lemma on_grid_bounded:
  fixes y :: rat
  assumes "of_int n / 10 ^ k \<le> y" and "- y \<le> of_int n / 10 ^ k" and "y * 10 ^ k < 10 ^ 34"
  shows "on_grid k (of_int n / 10 ^ k)"
proof -
  have "\<bar>of_int n\<bar> \<le> y * 10 ^ k"
    using assms(1,2) by (simp add: abs_le_iff field_simps)
  also note assms(3)
  finally have "of_int \<bar>n\<bar> < (10 ^ 34 :: rat)" by (simp only: of_int_abs)
  then have "\<bar>n\<bar> < 10 ^ 34" by (metis of_int_less_iff of_int_numeral of_int_power)
  then show ?thesis unfolding on_grid_def by blast
qed

lemma on_grid_add:
  assumes "on_grid k x" and "on_grid k y" and "\<bar>x + y\<bar> * 10 ^ k < 10 ^ 34"
  shows "on_grid k (x + y)"
proof -
  from assms(1,2) obtain m n where "x = of_int m / 10 ^ k" "y = of_int n / 10 ^ k"
    unfolding on_grid_def by blast
  then have e: "x + y = of_int (m + n) / 10 ^ k" by (simp add: add_divide_distrib)
  have "on_grid k (of_int (m + n) / 10 ^ k)"
    by (rule on_grid_bounded [of _ _ "\<bar>x + y\<bar>"], unfold e [symmetric]) (use assms(3) in linarith)+
  then show ?thesis by (simp only: e)
qed

lemma on_grid_uminus: "on_grid k x \<Longrightarrow> on_grid k (- x)"
  unfolding on_grid_def by (metis abs_minus_cancel minus_divide_left of_int_minus)

lemma on_grid_sub:
  "on_grid k x \<Longrightarrow> on_grid k y \<Longrightarrow> \<bar>x - y\<bar> * 10 ^ k < 10 ^ 34 \<Longrightarrow> on_grid k (x - y)"
  using on_grid_add [of k x "- y"] by (simp add: on_grid_uminus)

lemma dadd_exact:
  "on_grid k x \<Longrightarrow> on_grid k y \<Longrightarrow> \<bar>x + y\<bar> * 10 ^ k < 10 ^ 34 \<Longrightarrow> dadd x y = x + y"
  by (simp add: dadd_def dec.rnd_exact on_grid_drepr [OF on_grid_add])

lemma dsub_exact:
  "on_grid k x \<Longrightarrow> on_grid k y \<Longrightarrow> \<bar>x - y\<bar> * 10 ^ k < 10 ^ 34 \<Longrightarrow> dsub x y = x - y"
  by (simp add: dsub_def dec.rnd_exact on_grid_drepr [OF on_grid_sub])

lemma on_grid_min: "on_grid k x \<Longrightarrow> on_grid k y \<Longrightarrow> on_grid k (min x y)"
  by (simp add: min_def)

lemma on_grid_max: "on_grid k x \<Longrightarrow> on_grid k y \<Longrightarrow> on_grid k (max x y)"
  by (simp add: max_def)

lemma on_grid_mult:
  assumes "on_grid j x" and "on_grid k y" and "\<bar>x * y\<bar> * 10 ^ (j + k) < 10 ^ 34"
  shows "on_grid (j + k) (x * y)"
proof -
  from assms(1,2) obtain m n where "x = of_int m / 10 ^ j" "y = of_int n / 10 ^ k"
    unfolding on_grid_def by blast
  then have e: "x * y = of_int (m * n) / 10 ^ (j + k)" by (simp add: power_add)
  have "on_grid (j + k) (of_int (m * n) / 10 ^ (j + k))"
    by (rule on_grid_bounded [of _ _ "\<bar>x * y\<bar>"], unfold e [symmetric]) (use assms(3) in linarith)+
  then show ?thesis by (simp only: e)
qed

lemma on_grid_mono:
  assumes "on_grid j x" "j \<le> k" "\<bar>x\<bar> * 10 ^ k < 10 ^ 34"
  shows "on_grid k x"
proof -
  from assms(1) obtain m where "x = of_int m / 10 ^ j" unfolding on_grid_def by blast
  then have e: "x = of_int (m * 10 ^ (k - j)) / 10 ^ k"
    using power_add [of "10 :: rat" "k - j" j] assms(2) by simp
  have "on_grid k (of_int (m * 10 ^ (k - j)) / 10 ^ k)"
    by (rule on_grid_bounded [of _ _ "\<bar>x\<bar>"], unfold e [symmetric]) (use assms(3) in linarith)+
  then show ?thesis by (simp only: e)
qed

lemma on_grid_percent: "on_grid k x \<Longrightarrow> on_grid (k + 2) (x / 100)"
  unfolding on_grid_def by (auto simp: power_add field_simps)

lemma drepr_max [simp]: "drepr x \<Longrightarrow> drepr y \<Longrightarrow> drepr (max x y)"
  by (simp add: max_def)

lemma drepr_min [simp]: "drepr x \<Longrightarrow> drepr y \<Longrightarrow> drepr (min x y)"
  by (simp add: min_def)

text \<open>Evaluation on literals: a short decimal is left as it is.\<close>

lemma dround_numeral: "(numeral k :: int) < 10 ^ 34 \<Longrightarrow> dround (numeral k) = numeral k"
proof -
  assume "(numeral k :: int) < 10 ^ 34"
  then have "on_grid 0 (of_int (numeral k))" unfolding on_grid_def by (intro exI [of _ "numeral k"]) simp
  from dec.rnd_exact [OF on_grid_drepr [OF this]] show ?thesis by simp
qed

lemma drepr_numeral: "(numeral k :: int) < 10 ^ 34 \<Longrightarrow> drepr (numeral k)"
  using dec.rnd_repr [of "numeral k"] by (simp add: dround_numeral)

lemma dround_one: "dround 1 = 1"
  using dround_numeral [of num.One] by simp

lemma dround_fraction:
  assumes "(n * 10 ^ 20) mod d = 0" and "\<bar>n * 10 ^ 20 div d\<bar> < 10 ^ 34" and "d \<noteq> 0"
  shows "dround (of_int n / of_int d) = of_int n / of_int d"
proof -
  have "n * 10 ^ 20 div d * d = n * 10 ^ 20" using assms(1) by (simp add: dvd_div_mult_self mod_eq_0_iff_dvd)
  then have "of_int (n * 10 ^ 20 div d) * of_int d = (of_int n * 10 ^ 20 :: rat)"
    by (metis of_int_mult of_int_numeral of_int_power)
  with assms(3) have "of_int n / of_int d = (of_int (n * 10 ^ 20 div d) / 10 ^ 20 :: rat)"
    by (simp add: field_simps)
  with assms(2) have "on_grid 20 (of_int n / of_int d)" unfolding on_grid_def by blast
  then show ?thesis by (simp add: dec.rnd_exact on_grid_drepr)
qed

lemmas dround_eval =
  dround_numeral dround_one dec.rnd_odd
  dround_fraction [of "numeral a" "numeral b" for a b, unfolded of_int_numeral]
  dround_fraction [of 1 "numeral b" for b, unfolded of_int_numeral of_int_1]

lemma dround_eval_demo:
  "dround 5 = 5" "dround (- 5) = - 5" "dround (5/4) = 5/4" "dround (1/8) = 1/8" "dround (- (7/2)) = - (7/2)"
  by (simp_all add: dround_eval)

subsection \<open>The helpers of the module\<close>

definition pct :: "decimal \<Rightarrow> decimal \<Rightarrow> decimal" where
  "pct part whole = (if whole = 0 then 0 else dmul (ddiv part whole) 100)"

definition pct_of :: "decimal \<Rightarrow> decimal \<Rightarrow> decimal" where
  "pct_of value percent = ddiv (dmul value percent) 100"

definition bps_of :: "decimal \<Rightarrow> decimal \<Rightarrow> decimal" where
  "bps_of value bps = ddiv (dmul value bps) 10000"

definition quantize :: "decimal \<Rightarrow> nat \<Rightarrow> decimal result" where
  \<comment> \<open>\<open>q\<close>: \<open>value.quantize(Decimal(1).scaleb(-places), ROUND_HALF_EVEN)\<close>; a coefficient that
      does not fit the precision raises\<close>
  "quantize value places =
     (let n = round_half_even (value * 10 ^ places) in
      if \<bar>n\<bar> < 10 ^ 34 then Inr (of_int n / 10 ^ places) else Inl InvalidOperation)"

definition trunc_int :: "decimal \<Rightarrow> int" where
  \<comment> \<open>ROUND_DOWN and Python's \<open>int()\<close>: towards zero\<close>
  "trunc_int x = (if 0 \<le> x then \<lfloor>x\<rfloor> else \<lceil>x\<rceil>)"

definition floor_to_step :: "decimal \<Rightarrow> decimal \<Rightarrow> decimal" where
  "floor_to_step value step =
     (if step \<le> 0 then value else dmul (of_int (trunc_int (ddiv value step))) step)"

definition ceil_to_step :: "decimal \<Rightarrow> decimal \<Rightarrow> decimal" where
  "ceil_to_step value step =
     (if step \<le> 0 then value else dmul (of_int \<lceil>ddiv value step\<rceil>) step)"

definition clamp :: "decimal \<Rightarrow> decimal \<Rightarrow> decimal \<Rightarrow> decimal" where
  "clamp value lo hi = max lo (min hi value)"

lemma pct_nonneg: "0 \<le> p \<Longrightarrow> 0 \<le> w \<Longrightarrow> 0 \<le> pct p w"
  by (auto simp: pct_def)

lemma pct_mono: "a \<le> b \<Longrightarrow> 0 \<le> w \<Longrightarrow> pct a w \<le> pct b w"
  by (simp add: pct_def dmul_mono ddiv_mono)

lemma drepr_pct [simp]: "drepr (pct a w)"
  by (simp add: pct_def)

lemma clamp_bounds: "lo \<le> hi \<Longrightarrow> lo \<le> clamp v lo hi \<and> clamp v lo hi \<le> hi"
  by (simp add: clamp_def)

lemma quantize_error:
  assumes "quantize v k = Inr r"
  shows "\<bar>r - v\<bar> * 10 ^ k \<le> 1/2" and "on_grid k r"
proof -
  define n where "n = round_half_even (v * 10 ^ k)"
  have r: "r = of_int n / 10 ^ k" and b: "\<bar>n\<bar> < 10 ^ 34"
    using assms by (auto simp: quantize_def n_def Let_def split: if_splits)
  have "\<bar>r - v\<bar> * 10 ^ k = \<bar>(r - v) * 10 ^ k\<bar>" by (simp add: abs_mult)
  also have "(r - v) * 10 ^ k = of_int n - v * 10 ^ k" by (simp add: r field_simps)
  finally show "\<bar>r - v\<bar> * 10 ^ k \<le> 1/2" using round_half_even_error [of "v * 10 ^ k"] by (simp add: n_def)
  show "on_grid k r" using r b unfolding on_grid_def by blast
qed

subsection \<open>Step rounding on decimal steps\<close>

text \<open>
  Division by a power of ten only moves the exponent, so it is exact: on such steps the
  rounding of an order size is what its name says.
\<close>

lemma drepr_shift:
  assumes "drepr v"
  shows "drepr (v / 10 powi k)"
proof -
  from assms obtain n e where v: "v = of_int n * 10 powi e" and n: "\<bar>n\<bar> < 10 ^ 34"
    by (auto simp: drepr_def fits_def)
  have "v / 10 powi k = of_int n * of_nat 10 powi (e - k)"
    by (simp add: v power_int_diff)
  with n show ?thesis unfolding drepr_def fits_def by (metis of_nat_numeral)
qed

lemma ddiv_power10: "drepr v \<Longrightarrow> ddiv v (10 powi k) = v / 10 powi k"
  by (simp add: ddiv_def dec.rnd_exact drepr_shift)

lemma drepr_int_power10:
  assumes "\<bar>n\<bar> \<le> 10 ^ 34"
  shows "drepr (of_int n * 10 powi k)"
proof (cases "\<bar>n\<bar> = 10 ^ 34")
  case False
  with assms show ?thesis unfolding drepr_def fits_def by (intro exI [of _ n] exI [of _ k]) simp
next
  case True
  have "drepr (of_int (sgn n) * 10 powi (k + 34))"
    unfolding drepr_def fits_def
    by (intro exI [of _ "sgn n"] exI [of _ "k + 34"]) (simp add: abs_sgn_eq)
  moreover have "of_int n = (of_int (sgn n) * 10 ^ 34 :: rat)"
    using True by (metis mult.commute mult_sgn_abs of_int_mult of_int_numeral of_int_power)
  ultimately show ?thesis by (simp add: power_int_add ac_simps)
qed

lemma drepr_large_int:
  assumes "drepr v" and "10 ^ 34 \<le> v"
  shows "\<exists>m. v = of_int m"
proof -
  from assms obtain n e where v: "v = of_int n * 10 powi e" and n: "\<bar>n\<bar> < 10 ^ 34"
    by (auto simp: drepr_def fits_def)
  have "0 \<le> e"
  proof (rule ccontr)
    assume "\<not> 0 \<le> e"
    then have "(10 :: rat) powi e \<le> 10 powi 0" by (intro power_int_increasing) simp_all
    then have "\<bar>of_int n\<bar> * (10 :: rat) powi e \<le> \<bar>of_int n\<bar> * 1" by (intro mult_left_mono) simp_all
    moreover have "of_int \<bar>n\<bar> < (10 ^ 34 :: rat)"
      using n by (metis of_int_less_iff of_int_numeral of_int_power)
    moreover have "v \<le> \<bar>of_int n\<bar> * 10 powi e" by (simp add: v mult_right_mono)
    ultimately show False using assms(2) by simp
  qed
  then have "v = of_int (n * 10 ^ nat e)" by (simp add: v power_int_def)
  then show ?thesis by blast
qed

lemma drepr_floor:
  assumes "drepr v" and "0 \<le> v"
  shows "drepr (of_int \<lfloor>v\<rfloor>)"
proof (cases "v < 10 ^ 34")
  case True
  have "\<lfloor>v\<rfloor> \<le> \<lfloor>10 ^ 34 :: rat\<rfloor>" using True by (intro floor_mono) simp
  then have "\<bar>\<lfloor>v\<rfloor>\<bar> \<le> 10 ^ 34" using assms(2) by simp
  from drepr_int_power10 [OF this, of 0] show ?thesis by simp
next
  case False
  then show ?thesis using drepr_large_int [OF assms(1)] assms(1) by auto
qed

lemma drepr_ceiling:
  assumes "drepr v" and "0 \<le> v"
  shows "drepr (of_int \<lceil>v\<rceil>)"
proof (cases "v < 10 ^ 34")
  case True
  have "\<lceil>v\<rceil> \<le> \<lceil>10 ^ 34 :: rat\<rceil>" using True by (intro ceiling_mono) simp
  moreover have "0 \<le> \<lceil>v\<rceil>" using assms(2) by (simp add: order_trans)
  ultimately have "\<bar>\<lceil>v\<rceil>\<bar> \<le> 10 ^ 34" by simp
  from drepr_int_power10 [OF this, of 0] show ?thesis by simp
next
  case False
  then show ?thesis using drepr_large_int [OF assms(1)] assms(1) by auto
qed

lemma floor_to_step_power10:
  assumes "drepr v" and "0 \<le> v"
  shows "floor_to_step v (10 powi k) = of_int \<lfloor>v / 10 powi k\<rfloor> * 10 powi k"
proof -
  have p: "0 < (10 :: rat) powi k" by simp
  have q: "0 \<le> v / 10 powi k" using assms(2) p by simp
  have "drepr (of_int \<lfloor>v / 10 powi k\<rfloor> / 10 powi (- k))"
    by (intro drepr_shift drepr_floor q assms(1))
  then have "drepr (of_int \<lfloor>v / 10 powi k\<rfloor> * 10 powi k)"
    by (simp only: power_int_minus divide_inverse inverse_inverse_eq)
  then show ?thesis
    using p q assms(1) unfolding not_le [symmetric]
    by (simp add: floor_to_step_def ddiv_power10 trunc_int_def dmul_def dec.rnd_exact)
qed

lemma ceil_to_step_power10:
  assumes "drepr v" and "0 \<le> v"
  shows "ceil_to_step v (10 powi k) = of_int \<lceil>v / 10 powi k\<rceil> * 10 powi k"
proof -
  have p: "0 < (10 :: rat) powi k" by simp
  have q: "0 \<le> v / 10 powi k" using assms(2) p by simp
  have "drepr (of_int \<lceil>v / 10 powi k\<rceil> / 10 powi (- k))"
    by (intro drepr_shift drepr_ceiling q assms(1))
  then have "drepr (of_int \<lceil>v / 10 powi k\<rceil> * 10 powi k)"
    by (simp only: power_int_minus divide_inverse inverse_inverse_eq)
  then show ?thesis
    using p q assms(1) unfolding not_le [symmetric]
    by (simp add: ceil_to_step_def ddiv_power10 dmul_def dec.rnd_exact)
qed

end
