(* ===== verification/Decimal_Text.thy ===== *)
theory Decimal_Text
  imports Money
begin

text \<open>
  The textual side of \<^verbatim>\<open>backend/fedr/core/money.py\<close>: \<open>D\<close>, which reads a decimal out of any
  reasonable value, and \<open>fmt_money\<close> / \<open>fmt_pct\<close>, which print one. A string is read by the
  grammar of finite decimal literals (sign, digits, point, exponent); the literals for NaN and
  the infinities, digit-group underscores and non-ASCII digits are outside the model. A float is
  given by the decimal its \<open>repr\<close> denotes, as \<open>Decimal(repr(value))\<close> reads it.
\<close>

subsection \<open>Digits\<close>

definition digit_char :: "nat \<Rightarrow> char" where
  "digit_char d = char_of (48 + d)"

definition digit_val :: "char \<Rightarrow> nat" where
  "digit_val c = of_char c - 48"

definition is_digit :: "char \<Rightarrow> bool" where
  "is_digit c \<longleftrightarrow> 48 \<le> (of_char c :: nat) \<and> (of_char c :: nat) \<le> 57"

fun show_digits :: "nat \<Rightarrow> string" where
  "show_digits n = (if n < 10 then [digit_char n] else show_digits (n div 10) @ [digit_char (n mod 10)])"

declare show_digits.simps [simp del]

definition digits_value :: "string \<Rightarrow> nat" where
  "digits_value ds = foldl (\<lambda>a c. 10 * a + digit_val c) 0 ds"

lemma of_char_digit [simp]: "d < 10 \<Longrightarrow> (of_char (digit_char d) :: nat) = 48 + d"
  by (simp add: digit_char_def)

lemma digit_val_char [simp]: "d < 10 \<Longrightarrow> digit_val (digit_char d) = d"
  by (simp add: digit_val_def)

lemma is_digit_char [simp]: "d < 10 \<Longrightarrow> is_digit (digit_char d)"
  by (simp add: is_digit_def)

lemma digits_value_append:
  "digits_value (xs @ ys) = digits_value xs * 10 ^ length ys + digits_value ys"
proof (induction ys rule: rev_induct)
  case (snoc y ys)
  have "digits_value (zs @ [c]) = 10 * digits_value zs + digit_val c" for zs c
    by (simp add: digits_value_def)
  from this [of "xs @ ys" y] this [of ys y] snoc show ?case by (simp add: algebra_simps)
qed (simp add: digits_value_def)

lemma digits_value_show [simp]: "digits_value (show_digits n) = n"
proof (induction n rule: show_digits.induct)
  case (1 n)
  have "digits_value [digit_char (n mod 10)] = n mod 10" by (simp add: digits_value_def)
  with 1 show ?case
    by (cases "n < 10") (simp_all add: show_digits.simps [of n] digits_value_append)
qed

lemma show_digits_all [simp]: "list_all is_digit (show_digits n)"
  by (induction n rule: show_digits.induct) (subst show_digits.simps, auto)

lemma show_digits_not_Nil [simp]: "show_digits n \<noteq> []"
  by (subst show_digits.simps) simp

lemma length_show_digits: "n < 10 ^ k \<Longrightarrow> 0 < k \<Longrightarrow> length (show_digits n) \<le> k"
proof (induction n arbitrary: k rule: show_digits.induct)
  case (1 n)
  show ?case
  proof (cases "n < 10")
    case True
    with "1.prems" show ?thesis by (simp add: show_digits.simps [of n])
  next
    case False
    then obtain j where j: "k = Suc j" "0 < j" using "1.prems" by (cases k; cases "k - 1"; auto)
    with "1.prems" have "n div 10 < 10 ^ j" by (simp add: less_mult_imp_div_less mult.commute)
    with "1.IH" False j show ?thesis by (simp add: show_digits.simps [of n])
  qed
qed

definition pad_zeros :: "nat \<Rightarrow> string \<Rightarrow> string" where
  "pad_zeros k s = replicate (k - length s) (CHR ''0'') @ s"

lemma digits_value_zeros: "digits_value (replicate k (CHR ''0'')) = 0"
  by (induction k) (simp_all add: digits_value_def digit_val_def)

lemma digits_value_pad [simp]: "digits_value (pad_zeros k s) = digits_value s"
  by (simp add: pad_zeros_def digits_value_append digits_value_zeros)

lemma pad_zeros_all [simp]: "list_all is_digit (pad_zeros k (show_digits n))"
  by (simp add: pad_zeros_def) (simp add: list_all_iff is_digit_def)

lemma length_pad: "n < 10 ^ k \<Longrightarrow> 0 < k \<Longrightarrow> length (pad_zeros k (show_digits n)) = k"
  using length_show_digits [of n k] by (simp add: pad_zeros_def)

subsection \<open>Printing\<close>

definition show_fixed :: "nat \<Rightarrow> nat \<Rightarrow> string" where
  \<comment> \<open>\<open>n / 10 ^ places\<close> with exactly \<open>places\<close> digits after the point (\<open>.{places}f\<close>)\<close>
  "show_fixed places n =
     (if places = 0 then show_digits n
      else show_digits (n div 10 ^ places) @ ''.'' @ pad_zeros places (show_digits (n mod 10 ^ places)))"

fun group_thousands :: "string \<Rightarrow> string" where
  \<comment> \<open>on the reversed digits of the integer part\<close>
  "group_thousands (a # b # c # d # ds) = a # b # c # CHR '','' # group_thousands (d # ds)"
| "group_thousands ds = ds"

definition show_fixed_grouped :: "nat \<Rightarrow> nat \<Rightarrow> string" where
  \<comment> \<open>the same with the format option \<open>,\<close>\<close>
  "show_fixed_grouped places n =
     rev (group_thousands (rev (show_digits (n div 10 ^ places)))) @
     (if places = 0 then [] else ''.'' @ pad_zeros places (show_digits (n mod 10 ^ places)))"

definition sign_of :: "decimal \<Rightarrow> string" where
  "sign_of value = (if value < 0 then ''-'' else if 0 < value then ''+'' else [])"

definition fmt_money :: "decimal option \<Rightarrow> string \<Rightarrow> nat \<Rightarrow> string result" where
  "fmt_money value symbol places =
     (case value of None \<Rightarrow> Inr ''n/a''
      | Some v \<Rightarrow> bind_result (quantize v places) (\<lambda>r.
          Inr (sign_of v @ symbol @ show_fixed_grouped places (nat \<lfloor>dabs r * 10 ^ places\<rfloor>))))"

definition fmt_pct :: "decimal option \<Rightarrow> nat \<Rightarrow> string result" where
  "fmt_pct value places =
     (case value of None \<Rightarrow> Inr ''n/a''
      | Some v \<Rightarrow> bind_result (quantize v places) (\<lambda>r.
          Inr (sign_of v @ show_fixed places (nat \<lfloor>dabs r * 10 ^ places\<rfloor>) @ ''%'')))"

subsection \<open>Reading\<close>

definition is_space :: "char \<Rightarrow> bool" where
  "is_space c \<longleftrightarrow> (of_char c :: nat) \<in> {9, 10, 11, 12, 13, 28, 29, 30, 31, 32}"

definition strip :: "string \<Rightarrow> string" where
  "strip s = rev (dropWhile is_space (rev (dropWhile is_space s)))"

definition take_sign :: "string \<Rightarrow> bool \<times> string" where
  "take_sign s = (case s of [] \<Rightarrow> (False, [])
     | c # cs \<Rightarrow> if c = CHR ''-'' then (True, cs) else if c = CHR ''+'' then (False, cs) else (False, s))"

definition parse_exponent :: "string \<Rightarrow> int option" where
  "parse_exponent s =
     (case s of [] \<Rightarrow> Some 0
      | c # cs \<Rightarrow>
          if c = CHR ''e'' \<or> c = CHR ''E'' then
            (case take_sign cs of (neg, ds) \<Rightarrow>
              if ds \<noteq> [] \<and> list_all is_digit ds
              then Some (if neg then - int (digits_value ds) else int (digits_value ds)) else None)
          else None)"

definition parse_decimal :: "string \<Rightarrow> decimal option" where
  "parse_decimal s =
     (case take_sign s of (neg, s1) \<Rightarrow>
        let ip = takeWhile is_digit s1;
            r1 = dropWhile is_digit s1;
            fp = (case r1 of [] \<Rightarrow> [] | c # cs \<Rightarrow> if c = CHR ''.'' then takeWhile is_digit cs else []);
            r2 = (case r1 of [] \<Rightarrow> [] | c # cs \<Rightarrow> if c = CHR ''.'' then dropWhile is_digit cs else r1)
        in if ip @ fp = [] then None
           else (case parse_exponent r2 of None \<Rightarrow> None
             | Some e \<Rightarrow> Some ((if neg then -1 else 1) * of_nat (digits_value (ip @ fp)) *
                               10 powi (e - int (length fp)))))"

datatype py_value =
    PyNone
  | PyDec decimal
  | PyBool bool
  | PyInt int
  | PyFloat decimal
  | PyStr string

definition to_decimal :: "py_value \<Rightarrow> decimal option \<Rightarrow> decimal result" where
  \<comment> \<open>\<open>D(value, default)\<close>\<close>
  "to_decimal value dflt =
     (case value of
        PyDec d \<Rightarrow> Inr d
      | PyNone \<Rightarrow> (case dflt of Some d \<Rightarrow> Inr d | None \<Rightarrow> Inl ValueError)
      | PyBool _ \<Rightarrow> Inl TypeError
      | PyInt i \<Rightarrow> Inr (of_int i)
      | PyFloat d \<Rightarrow> Inr d
      | PyStr s \<Rightarrow> (case parse_decimal (strip s) of
            Some d \<Rightarrow> Inr d
          | None \<Rightarrow> (case dflt of Some d \<Rightarrow> Inr d | None \<Rightarrow> Inl ValueError)))"

subsection \<open>Reading what was printed\<close>

lemma not_digit_dot [simp]: "\<not> is_digit (CHR ''.'')"
  by (simp add: is_digit_def)

lemma takeWhile_digits: "list_all is_digit ds \<Longrightarrow> takeWhile is_digit ds = ds"
  by (simp add: list_all_iff takeWhile_eq_all_conv)

lemma dropWhile_digits: "list_all is_digit ds \<Longrightarrow> dropWhile is_digit ds = []"
  by (simp add: list_all_iff)

lemma split_digits_dot:
  assumes "list_all is_digit ds"
  shows "takeWhile is_digit (ds @ CHR ''.'' # r) = ds" "dropWhile is_digit (ds @ CHR ''.'' # r) = CHR ''.'' # r"
  using assms by (simp_all add: list_all_iff takeWhile_append dropWhile_append)

lemma take_sign_digits:
  assumes "list_all is_digit ds" and "ds \<noteq> []"
  shows "take_sign (ds @ r) = (False, ds @ r)"
  using assms by (cases ds) (auto simp: take_sign_def is_digit_def)

lemma parse_show_fixed: "parse_decimal (show_fixed places n) = Some (of_nat n / 10 ^ places)"
proof (cases "places = 0")
  case True
  have "take_sign (show_digits n) = (False, show_digits n)"
    using take_sign_digits [of "show_digits n" "[]"] by simp
  with True show ?thesis
    by (simp add: show_fixed_def parse_decimal_def takeWhile_digits dropWhile_digits parse_exponent_def)
next
  case False
  let ?i = "show_digits (n div 10 ^ places)" and ?f = "pad_zeros places (show_digits (n mod 10 ^ places))"
  have len: "length ?f = places" using False by (intro length_pad) simp_all
  have val: "digits_value (?i @ ?f) = n"
    by (simp only: digits_value_append len digits_value_show digits_value_pad div_mult_mod_eq)
  have "take_sign (show_fixed places n) = (False, show_fixed places n)"
    using False take_sign_digits [of ?i] by (simp add: show_fixed_def)
  moreover have "show_fixed places n = ?i @ CHR ''.'' # ?f" using False by (simp add: show_fixed_def)
  ultimately have "parse_decimal (show_fixed places n) = Some (of_nat n * 10 powi (- int places))"
    by (simp add: parse_decimal_def split_digits_dot takeWhile_digits dropWhile_digits
        parse_exponent_def len val)
  then show ?thesis by (simp add: power_int_minus divide_inverse)
qed

lemma filter_group_thousands:
  "CHR '','' \<notin> set ds \<Longrightarrow> filter (\<lambda>c. c \<noteq> CHR '','') (group_thousands ds) = ds"
  by (induction ds rule: group_thousands.induct) auto

lemma no_comma_digits: "list_all is_digit ds \<Longrightarrow> CHR '','' \<notin> set ds"
  by (auto simp: list_all_iff is_digit_def)

lemma no_comma_show [simp]:
  "CHR '','' \<notin> set (show_digits n)" "CHR '','' \<notin> set (pad_zeros k (show_digits n))"
  by (simp_all add: no_comma_digits)

lemma filter_no_comma: "CHR '','' \<notin> set ds \<Longrightarrow> filter (\<lambda>c. c \<noteq> CHR '','') ds = ds"
  by (auto simp: filter_id_conv)

lemma ungroup_show_fixed:
  "filter (\<lambda>c. c \<noteq> CHR '','') (show_fixed_grouped places n) = show_fixed places n"
  by (simp add: show_fixed_grouped_def show_fixed_def rev_filter [symmetric] filter_group_thousands
      filter_no_comma)

end
