(* ===== verification/Domain.thy ===== *)
theory Domain
  imports Decimal_Text
begin

text \<open>
  The domain model: the enumerations of \<^verbatim>\<open>backend/fedr/core/enums.py\<close> and the dataclasses of
  \<^verbatim>\<open>backend/fedr/core/models.py\<close> with their properties and methods. Fields carry a prefix per
  class (\<open>eq_\<close> for \<open>ExecutionQuote\<close>, \<open>cb_\<close> for \<open>CostBreakdown\<close>, and so on). The wall clock
  (\<open>now_ms\<close>) and fresh identifiers (\<open>new_id\<close>) are arguments of the operations that read them.
  A dictionary field of free-form extras is modelled by the keys the program reads from it.
\<close>

subsection \<open>Enumerations\<close>

datatype trading_mode = SIMULATION | PAPER | TESTNET | LIVE

datatype strategy = CEX_CEX | CEX_DEX | DEX_DEX | SPOT_PERP | FUNDING | BASIS | FLASH_LOAN

datatype venue_kind = CEX | DEX | PERP

datatype order_side = BUY | SELL

fun opposite :: "order_side \<Rightarrow> order_side" where
  "opposite SELL = BUY"
| "opposite BUY = SELL"

datatype venue_health = HEALTHY | DEGRADED | UNHEALTHY | BLOCKED_VENUE | UNKNOWN

datatype decision = SAFE_TO_EXECUTE | BLOCKED

datatype gas_regime = NORMAL | ELEVATED | HIGH | EXTREME

datatype trade_status =
  PENDING | EXECUTING | T_FILLED | PARTIAL | T_FAILED | ABORTED | RECOVERING | HEDGED | T_CANCELLED

datatype order_status =
  NEW | OPEN | PARTIALLY_FILLED | FILLED | CANCELLED | REJECTED | EXPIRED | FAILED

datatype risk_profile = CONSERVATIVE | BALANCED | CUSTOM

datatype breaker_reason =
    UNEXPECTED_FEES | ABNORMAL_SLIPPAGE | REPEATED_ORDER_FAILURE | DEX_TX_FAILURE | RPC_FAILURE
  | WEBSOCKET_FAILURE | MARKET_DATA_FAILURE | FLASH_LOAN_FAILURE | BALANCE_DISCREPANCY
  | POSITION_DISCREPANCY | PREDICTION_ERROR | RAPID_MARKET_MOVE | GAS_SPIKE | FUNDING_ANOMALY
  | EXCHANGE_MAINTENANCE | RATE_LIMIT | ONE_LEG_FILL | DAILY_LOSS_LIMIT | MANUAL

datatype chain = SOLANA | ETHEREUM | BASE | ARBITRUM | OPTIMISM | POLYGON | BSC | AVALANCHE

fun is_evm :: "chain \<Rightarrow> bool" where
  "is_evm SOLANA = False"
| "is_evm _ = True"

fun chain_value :: "chain \<Rightarrow> string" where
  "chain_value SOLANA = ''solana''"
| "chain_value ETHEREUM = ''ethereum''"
| "chain_value BASE = ''base''"
| "chain_value ARBITRUM = ''arbitrum''"
| "chain_value OPTIMISM = ''optimism''"
| "chain_value POLYGON = ''polygon''"
| "chain_value BSC = ''bsc''"
| "chain_value AVALANCHE = ''avalanche''"

fun native_token :: "chain \<Rightarrow> string" where
  "native_token SOLANA = ''SOL''"
| "native_token ETHEREUM = ''ETH''"
| "native_token BASE = ''ETH''"
| "native_token ARBITRUM = ''ETH''"
| "native_token OPTIMISM = ''ETH''"
| "native_token POLYGON = ''POL''"
| "native_token BSC = ''BNB''"
| "native_token AVALANCHE = ''AVAX''"

fun strategy_value :: "strategy \<Rightarrow> string" where
  "strategy_value CEX_CEX = ''cex_cex''"
| "strategy_value CEX_DEX = ''cex_dex''"
| "strategy_value DEX_DEX = ''dex_dex''"
| "strategy_value SPOT_PERP = ''spot_perp''"
| "strategy_value FUNDING = ''funding''"
| "strategy_value BASIS = ''basis''"
| "strategy_value FLASH_LOAN = ''flash_loan''"

fun side_value :: "order_side \<Rightarrow> string" where
  "side_value BUY = ''buy''"
| "side_value SELL = ''sell''"

fun mode_value :: "trading_mode \<Rightarrow> string" where
  "mode_value SIMULATION = ''simulation''"
| "mode_value PAPER = ''paper''"
| "mode_value TESTNET = ''testnet''"
| "mode_value LIVE = ''live''"

fun breaker_value :: "breaker_reason \<Rightarrow> string" where
  "breaker_value UNEXPECTED_FEES = ''unexpected_fees''"
| "breaker_value ABNORMAL_SLIPPAGE = ''abnormal_slippage''"
| "breaker_value REPEATED_ORDER_FAILURE = ''repeated_order_failure''"
| "breaker_value DEX_TX_FAILURE = ''dex_tx_failure''"
| "breaker_value RPC_FAILURE = ''rpc_failure''"
| "breaker_value WEBSOCKET_FAILURE = ''websocket_failure''"
| "breaker_value MARKET_DATA_FAILURE = ''market_data_failure''"
| "breaker_value FLASH_LOAN_FAILURE = ''flash_loan_failure''"
| "breaker_value BALANCE_DISCREPANCY = ''balance_discrepancy''"
| "breaker_value POSITION_DISCREPANCY = ''position_discrepancy''"
| "breaker_value PREDICTION_ERROR = ''prediction_error''"
| "breaker_value RAPID_MARKET_MOVE = ''rapid_market_move''"
| "breaker_value GAS_SPIKE = ''gas_spike''"
| "breaker_value FUNDING_ANOMALY = ''funding_anomaly''"
| "breaker_value EXCHANGE_MAINTENANCE = ''exchange_maintenance''"
| "breaker_value RATE_LIMIT = ''rate_limit''"
| "breaker_value ONE_LEG_FILL = ''one_leg_fill''"
| "breaker_value DAILY_LOSS_LIMIT = ''daily_loss_limit''"
| "breaker_value MANUAL = ''manual''"

text \<open>The regimes are ordered by severity, as \<open>_merge_gas\<close> orders them.\<close>

fun regime_rank :: "gas_regime \<Rightarrow> nat" where
  "regime_rank NORMAL = 0"
| "regime_rank ELEVATED = 1"
| "regime_rank HIGH = 2"
| "regime_rank EXTREME = 3"

lemma regime_rank_inject: "regime_rank x = regime_rank y \<longleftrightarrow> x = y"
  by (cases x; cases y) simp_all

instantiation gas_regime :: linorder
begin

definition less_eq_gas_regime :: "gas_regime \<Rightarrow> gas_regime \<Rightarrow> bool" where
  "less_eq_gas_regime x y \<longleftrightarrow> regime_rank x \<le> regime_rank y"

definition less_gas_regime :: "gas_regime \<Rightarrow> gas_regime \<Rightarrow> bool" where
  "less_gas_regime x y \<longleftrightarrow> regime_rank x < regime_rank y"

instance
  by standard
    (auto simp: less_eq_gas_regime_def less_gas_regime_def regime_rank_inject [symmetric])

end

lemma breaker_value_inject [simp]: "breaker_value r = breaker_value r' \<longleftrightarrow> r = r'"
  by (cases r; cases r') simp_all

lemma chain_value_inject [simp]: "chain_value c = chain_value d \<longleftrightarrow> c = d"
  by (cases c; cases d) simp_all

lemma strategy_value_inject [simp]: "strategy_value s = strategy_value t \<longleftrightarrow> s = t"
  by (cases s; cases t) simp_all

subsection \<open>Markets and balances\<close>

record market_info =
  mi_venue :: string
  mi_symbol :: string
  mi_base :: string
  mi_quote :: string
  mi_kind :: venue_kind
  mi_active :: bool
  mi_amount_step :: decimal
  mi_price_step :: decimal
  mi_min_amount :: decimal
  mi_max_amount :: "decimal option"
  mi_min_cost :: decimal
  mi_taker_fee_pct :: "decimal option"
  mi_maker_fee_pct :: "decimal option"
  mi_contract_size :: decimal
  mi_settle :: "string option"
  mi_chain :: "chain option"

record fee_schedule =
  fs_taker_pct :: "decimal option"
  fs_maker_pct :: "decimal option"
  fs_source :: string
  fs_fetched_at_ms :: int

definition fee_known :: "fee_schedule \<Rightarrow> bool" where
  "fee_known f \<longleftrightarrow> fs_taker_pct f \<noteq> None"

record balance =
  bal_asset :: string
  bal_free :: decimal
  bal_used :: decimal

definition bal_total :: "balance \<Rightarrow> decimal" where
  "bal_total b = dadd (bal_free b) (bal_used b)"

definition new_balance :: "string \<Rightarrow> balance" where
  "new_balance a = \<lparr>bal_asset = a, bal_free = 0, bal_used = 0\<rparr>"

subsection \<open>Executable quotes\<close>

record execution_quote =
  eq_venue :: string
  eq_kind :: venue_kind
  eq_symbol :: string
  eq_side :: order_side
  eq_base_amount :: decimal
  eq_quote_amount :: decimal
  eq_avg_price :: decimal
  eq_reference_price :: decimal
  eq_slippage_pct :: decimal
  eq_price_impact_pct :: decimal
  eq_fully_fillable :: bool
  eq_market_ts_ms :: int
  eq_quote_ts_ms :: int
  eq_fee_pct :: "decimal option"
  eq_fee_source :: string
  eq_fee_in_quote :: "decimal option"
  eq_gas_cost_usd :: "decimal option"
  eq_gas_limit :: "int option"
  eq_gas_price_native :: "decimal option"
  eq_priority_fee_usd :: decimal
  eq_min_received :: "decimal option"
  eq_route :: string
  eq_quote_id :: "string option"
  eq_chain :: "chain option"
  eq_levels_consumed :: int
  eq_depth_available_base :: decimal
  eq_is_maker :: bool
  eq_extra_taker_fee_pct :: "decimal option"

definition eq_age_ms :: "execution_quote \<Rightarrow> int \<Rightarrow> int" where
  "eq_age_ms q now = now - min (eq_market_ts_ms q) (eq_quote_ts_ms q)"

definition net_quote_amount :: "execution_quote \<Rightarrow> decimal option" where
  "net_quote_amount q =
     (case (case eq_fee_in_quote q of
              Some fee \<Rightarrow> Some fee
            | None \<Rightarrow> map_option (\<lambda>p. ddiv (dmul (eq_quote_amount q) p) 100) (eq_fee_pct q)) of
        None \<Rightarrow> None
      | Some fee \<Rightarrow> Some (if eq_side q = BUY then dadd (eq_quote_amount q) fee
                          else dsub (eq_quote_amount q) fee))"

subsection \<open>Messages\<close>

text \<open>
  An interpolated string of the program is its template with the interpolated values; rendering
  the values (their number of printed digits) is not part of the model, except for
  \<open>fmt_money\<close> and \<open>fmt_pct\<close> themselves. Two messages are equal when template and values are.
\<close>

datatype message = Msg string "arg list"
  and arg = ADec decimal | AInt int | AStr string | AStrs "string list" | AMsg message

subsection \<open>Costs and assessments\<close>

record cost_breakdown =
  cb_buy_trading_fee :: decimal
  cb_sell_trading_fee :: decimal
  cb_maker_taker_adjustment :: decimal
  cb_dex_swap_fee :: decimal
  cb_lp_fee :: decimal
  cb_gas :: decimal
  cb_priority_fee :: decimal
  cb_slippage :: decimal
  cb_price_impact :: decimal
  cb_bridge_fee :: decimal
  cb_withdrawal_fee :: decimal
  cb_deposit_fee :: decimal
  cb_funding :: decimal
  cb_rebalance_allowance :: decimal
  cb_latency_allowance :: decimal
  cb_partial_fill_allowance :: decimal
  cb_failure_reserve :: decimal
  cb_safety_buffer :: decimal
  cb_flash_loan_fee :: decimal
  cb_mev_reserve :: decimal
  cb_unknown :: "string list"

definition no_costs :: cost_breakdown where
  "no_costs = \<lparr>cb_buy_trading_fee = 0, cb_sell_trading_fee = 0, cb_maker_taker_adjustment = 0,
     cb_dex_swap_fee = 0, cb_lp_fee = 0, cb_gas = 0, cb_priority_fee = 0, cb_slippage = 0,
     cb_price_impact = 0, cb_bridge_fee = 0, cb_withdrawal_fee = 0, cb_deposit_fee = 0,
     cb_funding = 0, cb_rebalance_allowance = 0, cb_latency_allowance = 0,
     cb_partial_fill_allowance = 0, cb_failure_reserve = 0, cb_safety_buffer = 0,
     cb_flash_loan_fee = 0, cb_mev_reserve = 0, cb_unknown = []\<rparr>"

definition cost_fields :: "cost_breakdown \<Rightarrow> decimal list" where
  "cost_fields c =
     [cb_buy_trading_fee c, cb_sell_trading_fee c, cb_maker_taker_adjustment c, cb_dex_swap_fee c,
      cb_lp_fee c, cb_gas c, cb_priority_fee c, cb_slippage c, cb_price_impact c, cb_bridge_fee c,
      cb_withdrawal_fee c, cb_deposit_fee c, cb_funding c, cb_rebalance_allowance c,
      cb_latency_allowance c, cb_partial_fill_allowance c, cb_failure_reserve c,
      cb_safety_buffer c, cb_flash_loan_fee c, cb_mev_reserve c]"

definition cost_total :: "cost_breakdown \<Rightarrow> decimal" where
  "cost_total c = dsum (cost_fields c)"

record profit_assessment =
  pa_gross_profit :: decimal
  pa_expected_net_profit :: decimal
  pa_worst_case_profit :: decimal
  pa_capital_required :: decimal
  pa_gross_spread_pct :: decimal
  pa_expected_net_pct :: decimal
  pa_worst_case_pct :: decimal
  pa_net_roi_pct :: decimal
  pa_required_min_profit :: decimal
  pa_required_min_worst_case :: decimal
  pa_required_min_roi_pct :: decimal
  pa_expected_costs :: cost_breakdown
  pa_worst_case_costs :: cost_breakdown
  pa_decision :: decision
  pa_reasons :: "message list"
  pa_explanation :: message
  pa_buy_execution_price :: decimal
  pa_sell_execution_price :: decimal

definition pa_passed :: "profit_assessment \<Rightarrow> bool" where
  "pa_passed a \<longleftrightarrow> pa_decision a = SAFE_TO_EXECUTE"

record gas_assessment =
  ga_chain :: "chain option"
  ga_regime :: gas_regime
  ga_current_gas_cost_usd :: decimal
  ga_expected_gas_cost_usd :: decimal
  ga_stress_gas_cost_usd :: decimal
  ga_gas_pct_of_gross :: decimal
  ga_passed :: bool
  ga_reasons :: "message list"
  ga_gas_price_native :: "decimal option"
  ga_priority_fee_usd :: decimal

record risk_assessment =
  ra_score :: int
  ra_passed :: bool
  ra_reasons :: "message list"

subsection \<open>Orders and trades\<close>

record order_request =
  or_venue :: string
  or_symbol :: string
  or_side :: order_side
  or_amount :: decimal
  or_limit_price :: "decimal option"
  or_time_in_force :: string
  or_client_order_id :: string
  or_min_received :: "decimal option"
  or_max_gas_usd :: "decimal option"
  or_quote_id :: "string option"
  or_deadline_ms :: "int option"
  or_reduce_only :: bool
  or_extra_quoted_price :: "decimal option"

record fill =
  fl_order_id :: string
  fl_venue :: string
  fl_symbol :: string
  fl_side :: order_side
  fl_amount :: decimal
  fl_price :: decimal
  fl_fee_amount :: decimal
  fl_fee_asset :: string
  fl_ts_ms :: int
  fl_trade_id :: "string option"
  fl_tx_hash :: "string option"
  fl_gas_used :: "int option"
  fl_gas_cost_usd :: "decimal option"

record order_result =
  res_request :: order_request
  res_order_id :: string
  res_status :: order_status
  res_filled :: decimal
  res_avg_price :: "decimal option"
  res_fills :: "fill list"
  res_fee_quote :: decimal
  res_gas_cost_usd :: decimal
  res_submitted_at_ms :: int
  res_completed_at_ms :: "int option"
  res_tx_hash :: "string option"
  res_error :: "message option"

definition new_result :: "order_request \<Rightarrow> string \<Rightarrow> order_status \<Rightarrow> int \<Rightarrow> order_result" where
  "new_result req oid st now =
     \<lparr>res_request = req, res_order_id = oid, res_status = st, res_filled = 0, res_avg_price = None,
      res_fills = [], res_fee_quote = 0, res_gas_cost_usd = 0, res_submitted_at_ms = now,
      res_completed_at_ms = None, res_tx_hash = None, res_error = None\<rparr>"

definition res_remaining :: "order_result \<Rightarrow> decimal" where
  "res_remaining r = max 0 (dsub (or_amount (res_request r)) (res_filled r))"

definition res_is_terminal :: "order_result \<Rightarrow> bool" where
  "res_is_terminal r \<longleftrightarrow> res_status r \<in> {FILLED, CANCELLED, REJECTED, EXPIRED, FAILED}"

definition res_quote_amount :: "order_result \<Rightarrow> decimal" where
  "res_quote_amount r = dsum (map (\<lambda>f. dmul (fl_amount f) (fl_price f)) (res_fills r))"

record event =
  ev_ts :: int
  ev_name :: string
  ev_data :: "arg list"

record trade_record =
  tr_id :: string
  tr_mode :: trading_mode
  tr_strategy :: strategy
  tr_opportunity_id :: string
  tr_pair :: string
  tr_route :: string
  tr_size_base :: decimal
  tr_status :: trade_status
  tr_estimated_gross :: decimal
  tr_estimated_net :: decimal
  tr_estimated_worst_case :: decimal
  tr_estimated_costs :: "cost_breakdown option"
  tr_buy :: "order_result option"
  tr_sell :: "order_result option"
  tr_hedge :: "order_result option"
  tr_actual_gross :: "decimal option"
  tr_actual_fees :: "decimal option"
  tr_actual_gas :: "decimal option"
  tr_actual_net :: "decimal option"
  tr_prediction_error :: "decimal option"
  tr_explanation :: message
  tr_started_at_ms :: int
  tr_completed_at_ms :: "int option"
  tr_events :: "event list"

definition tr_log :: "int \<Rightarrow> string \<Rightarrow> arg list \<Rightarrow> trade_record \<Rightarrow> trade_record" where
  "tr_log now name data tr =
     tr\<lparr>tr_events := tr_events tr @ [\<lparr>ev_ts = now, ev_name = name, ev_data = data\<rparr>]\<rparr>"

record opportunity =
  op_id :: string
  op_mode :: trading_mode
  op_strategy :: strategy
  op_base :: string
  op_quote :: string
  op_buy :: execution_quote
  op_sell :: execution_quote
  op_size_base :: decimal
  op_profit :: profit_assessment
  op_gas :: "gas_assessment option"
  op_risk :: risk_assessment
  op_decision :: decision
  op_block_reasons :: "message list"
  op_explanation :: message
  op_created_at_ms :: int
  op_expires_at_ms :: int
  op_extra_route_key :: "string option"
  op_extra_notional_usd :: "decimal option"
  op_extra_flash_loan :: bool
  op_extra_funding_rate :: "decimal option"

definition op_pair :: "opportunity \<Rightarrow> string" where
  "op_pair opp = op_base opp @ ''/'' @ op_quote opp"

definition op_is_executable :: "opportunity \<Rightarrow> bool" where
  "op_is_executable opp \<longleftrightarrow> op_decision opp = SAFE_TO_EXECUTE"

text \<open>A fully fillable quote of ten units, for the concrete runs.\<close>

definition demo_leg :: "string \<Rightarrow> order_side \<Rightarrow> decimal \<Rightarrow> decimal option \<Rightarrow> execution_quote" where
  "demo_leg venue side price fee =
     \<lparr>eq_venue = venue, eq_kind = CEX, eq_symbol = ''BTC/USDC'', eq_side = side,
     eq_base_amount = 10, eq_quote_amount = 10 * price, eq_avg_price = price, eq_reference_price = price,
     eq_slippage_pct = 0, eq_price_impact_pct = 0, eq_fully_fillable = True,
     eq_market_ts_ms = 1000, eq_quote_ts_ms = 1000, eq_fee_pct = fee,
     eq_fee_source = ''api'', eq_fee_in_quote = None, eq_gas_cost_usd = None, eq_gas_limit = None,
     eq_gas_price_native = None, eq_priority_fee_usd = 0, eq_min_received = None,
     eq_route = ''orderbook'', eq_quote_id = None, eq_chain = None, eq_levels_consumed = 1,
     eq_depth_available_base = 40, eq_is_maker = False, eq_extra_taker_fee_pct = None\<rparr>"

subsection \<open>Facts on the domain objects\<close>

lemma cost_total_no_costs [simp]: "cost_total no_costs = 0"
  by (simp add: cost_total_def cost_fields_def no_costs_def dsum_def)

lemma cost_total_nonneg: "\<forall>x \<in> set (cost_fields c). 0 \<le> x \<Longrightarrow> 0 \<le> cost_total c"
  by (simp add: cost_total_def dsum_nonneg)

lemma cost_total_mono: "list_all2 (\<le>) (cost_fields c) (cost_fields d) \<Longrightarrow> cost_total c \<le> cost_total d"
  by (simp add: cost_total_def dsum_mono)

lemma drepr_cost_total [simp]: "drepr (cost_total c)"
  by (simp add: cost_total_def)

lemma tr_log_select [simp]:
  "tr_status (tr_log n e d t) = tr_status t" "tr_buy (tr_log n e d t) = tr_buy t"
  "tr_sell (tr_log n e d t) = tr_sell t" "tr_hedge (tr_log n e d t) = tr_hedge t"
  "tr_id (tr_log n e d t) = tr_id t" "tr_estimated_net (tr_log n e d t) = tr_estimated_net t"
  by (simp_all add: tr_log_def)

end
