(* ===== verification/Orderbook.thy ===== *)
theory Orderbook
  imports Domain "HOL-Library.Multiset"
begin

text \<open>
  Model of \<^verbatim>\<open>backend/fedr/marketdata/orderbook.py\<close>: the order book, its depth walks (by base and
  by quote amount), the largest size within a slippage limit, stressing and consuming depth.
  Bids are sorted by falling price, asks by rising price. Loops over levels are recursions on the
  level list that carry the loop variables.
\<close>

subsection \<open>Levels and books\<close>

record level =
  lv_price :: decimal
  lv_amount :: decimal

record walk_result =
  wr_side :: order_side
  wr_requested_base :: decimal
  wr_filled_base :: decimal
  wr_quote_amount :: decimal
  wr_avg_price :: decimal
  wr_reference_price :: decimal
  wr_slippage_pct :: decimal
  wr_levels_consumed :: int
  wr_fully_filled :: bool
  wr_last_price :: decimal
  wr_depth_available_base :: decimal

record order_book =
  ob_venue :: string
  ob_symbol :: string
  ob_bids :: "level list"
  ob_asks :: "level list"
  ob_ts_ms :: int
  ob_received_ms :: int
  ob_sequence :: "int option"
  ob_source :: string

fun raw_levels :: "(py_value \<times> py_value) list \<Rightarrow> level list result" where
  \<comment> \<open>\<open>(Level(D(p), D(a)) for p, a, *_ in raw if D(a) > 0)\<close>\<close>
  "raw_levels [] = Inr []"
| "raw_levels ((p, a) # rest) =
     bind_result (to_decimal a None) (\<lambda>amt.
       if 0 < amt then
         bind_result (to_decimal p None) (\<lambda>px.
           bind_result (raw_levels rest) (\<lambda>ls. Inr (\<lparr>lv_price = px, lv_amount = amt\<rparr> # ls)))
       else raw_levels rest)"

definition sort_bids :: "level list \<Rightarrow> level list" where
  "sort_bids ls = sort_key (\<lambda>l. - lv_price l) ls"

definition sort_asks :: "level list \<Rightarrow> level list" where
  "sort_asks ls = sort_key lv_price ls"

definition from_raw ::
  "string \<Rightarrow> string \<Rightarrow> (py_value \<times> py_value) list \<Rightarrow> (py_value \<times> py_value) list
    \<Rightarrow> int option \<Rightarrow> string \<Rightarrow> int option \<Rightarrow> int \<Rightarrow> order_book result" where
  "from_raw venue symbol bids asks ts source seq now =
     bind_result (raw_levels bids) (\<lambda>b. bind_result (raw_levels asks) (\<lambda>a.
       Inr \<lparr>ob_venue = venue, ob_symbol = symbol, ob_bids = sort_bids b, ob_asks = sort_asks a,
            ob_ts_ms = (case ts of Some t \<Rightarrow> if t = 0 then now else t | None \<Rightarrow> now),
            ob_received_ms = now, ob_sequence = seq, ob_source = source\<rparr>))"

definition best_bid :: "order_book \<Rightarrow> decimal option" where
  "best_bid b = (case ob_bids b of [] \<Rightarrow> None | l # _ \<Rightarrow> Some (lv_price l))"

definition best_ask :: "order_book \<Rightarrow> decimal option" where
  "best_ask b = (case ob_asks b of [] \<Rightarrow> None | l # _ \<Rightarrow> Some (lv_price l))"

definition mid :: "order_book \<Rightarrow> decimal option" where
  "mid b = (case (best_bid b, best_ask b) of
     (Some bb, Some ba) \<Rightarrow> Some (ddiv (dadd bb ba) 2) | _ \<Rightarrow> None)"

definition spread_pct :: "order_book \<Rightarrow> decimal option" where
  "spread_pct b = (case (best_bid b, best_ask b, mid b) of
     (Some bb, Some ba, Some m) \<Rightarrow> if m = 0 then None else Some (pct (dsub ba bb) m) | _ \<Rightarrow> None)"

definition ob_age_ms :: "order_book \<Rightarrow> int \<Rightarrow> int" where
  "ob_age_ms b now = now - ob_ts_ms b"

definition is_crossed :: "order_book \<Rightarrow> bool" where
  "is_crossed b = (case (best_bid b, best_ask b) of (Some bb, Some ba) \<Rightarrow> ba \<le> bb | _ \<Rightarrow> False)"

definition is_valid :: "order_book \<Rightarrow> bool" where
  "is_valid b \<longleftrightarrow> ob_bids b \<noteq> [] \<and> ob_asks b \<noteq> [] \<and> \<not> is_crossed b"

definition side_levels :: "order_book \<Rightarrow> order_side \<Rightarrow> level list" where
  "side_levels b side = (if side = BUY then ob_asks b else ob_bids b)"

definition depth_total :: "level list \<Rightarrow> decimal" where
  "depth_total ls = dsum (map lv_amount ls)"

definition slice_to :: "'a list \<Rightarrow> int \<Rightarrow> 'a list" where
  \<comment> \<open>\<open>xs[:n]\<close>\<close>
  "slice_to xs n = take (nat (if 0 \<le> n then n else int (length xs) + n)) xs"

definition depth_base :: "order_book \<Rightarrow> order_side \<Rightarrow> int option \<Rightarrow> decimal" where
  "depth_base b side levels =
     depth_total (case levels of None \<Rightarrow> side_levels b side | Some n \<Rightarrow> slice_to (side_levels b side) n)"

subsection \<open>Walking by base amount\<close>

record walk_state =
  ws_remaining :: decimal
  ws_quote :: decimal
  ws_filled :: decimal
  ws_levels :: int
  ws_last :: decimal

fun walk_loop :: "level list \<Rightarrow> walk_state \<Rightarrow> walk_state" where
  "walk_loop [] s = s"
| "walk_loop (lv # ls) s =
     (if ws_remaining s \<le> 0 then s
      else let take = min (lv_amount lv) (ws_remaining s) in
        walk_loop ls
          \<lparr>ws_remaining = dsub (ws_remaining s) take,
           ws_quote = dadd (ws_quote s) (dmul take (lv_price lv)),
           ws_filled = dadd (ws_filled s) take,
           ws_levels = ws_levels s + 1,
           ws_last = lv_price lv\<rparr>)"

definition adverse_pct :: "order_side \<Rightarrow> decimal \<Rightarrow> decimal \<Rightarrow> decimal" where
  \<comment> \<open>deviation of the average from the reference, positive when adverse to the taker\<close>
  "adverse_pct side avg ref = (if side = BUY then pct (dsub avg ref) ref else pct (dsub ref avg) ref)"

definition empty_walk :: "order_side \<Rightarrow> decimal \<Rightarrow> walk_result" where
  "empty_walk side base =
     \<lparr>wr_side = side, wr_requested_base = base, wr_filled_base = 0, wr_quote_amount = 0,
      wr_avg_price = 0, wr_reference_price = 0, wr_slippage_pct = 0, wr_levels_consumed = 0,
      wr_fully_filled = False, wr_last_price = 0, wr_depth_available_base = 0\<rparr>"

definition walk :: "order_book \<Rightarrow> order_side \<Rightarrow> decimal \<Rightarrow> walk_result result" where
  "walk b side base_amount =
     (let book = side_levels b side in
      if base_amount \<le> 0 then Inl ValueError
      else case book of [] \<Rightarrow> Inr (empty_walk side base_amount)
      | lv0 # _ \<Rightarrow>
          let reference = lv_price lv0;
              s = walk_loop book \<lparr>ws_remaining = base_amount, ws_quote = 0, ws_filled = 0,
                                  ws_levels = 0, ws_last = reference\<rparr>;
              avg = (if 0 < ws_filled s then ddiv (ws_quote s) (ws_filled s) else 0);
              slip = (if 0 < ws_filled s then adverse_pct side avg reference else 0)
          in Inr \<lparr>wr_side = side, wr_requested_base = base_amount, wr_filled_base = ws_filled s,
                  wr_quote_amount = ws_quote s, wr_avg_price = avg, wr_reference_price = reference,
                  wr_slippage_pct = max 0 slip, wr_levels_consumed = ws_levels s,
                  wr_fully_filled = (ws_remaining s \<le> 0), wr_last_price = ws_last s,
                  wr_depth_available_base = depth_total book\<rparr>)"

subsection \<open>Walking by quote amount\<close>

fun walk_quote_loop :: "level list \<Rightarrow> walk_state \<Rightarrow> walk_state result" where
  \<comment> \<open>here \<open>ws_remaining\<close> is the remaining quote and \<open>ws_filled\<close> the base bought\<close>
  "walk_quote_loop [] s = Inr s"
| "walk_quote_loop (lv # ls) s =
     (if ws_remaining s \<le> 0 then Inr s
      else let take_quote = min (dmul (lv_amount lv) (lv_price lv)) (ws_remaining s) in
        bind_result (ddiv_r take_quote (lv_price lv)) (\<lambda>take_base.
          walk_quote_loop ls
            \<lparr>ws_remaining = dsub (ws_remaining s) take_quote,
             ws_quote = dadd (ws_quote s) take_quote,
             ws_filled = dadd (ws_filled s) take_base,
             ws_levels = ws_levels s + 1,
             ws_last = lv_price lv\<rparr>))"

definition walk_quote :: "order_book \<Rightarrow> order_side \<Rightarrow> decimal \<Rightarrow> walk_result result" where
  "walk_quote b side quote_amount =
     (let book = side_levels b side in
      if quote_amount \<le> 0 then Inl ValueError
      else case book of [] \<Rightarrow> Inr (empty_walk side 0)
      | lv0 # _ \<Rightarrow>
          let reference = lv_price lv0 in
          bind_result (walk_quote_loop book \<lparr>ws_remaining = quote_amount, ws_quote = 0,
              ws_filled = 0, ws_levels = 0, ws_last = reference\<rparr>) (\<lambda>s.
            let avg = (if 0 < ws_filled s then ddiv (ws_quote s) (ws_filled s) else 0);
                slip = adverse_pct side avg reference
            in Inr \<lparr>wr_side = side, wr_requested_base = ws_filled s, wr_filled_base = ws_filled s,
                    wr_quote_amount = ws_quote s, wr_avg_price = avg, wr_reference_price = reference,
                    wr_slippage_pct = (if 0 < ws_filled s then max 0 slip else 0),
                    wr_levels_consumed = ws_levels s, wr_fully_filled = (ws_remaining s \<le> 0),
                    wr_last_price = ws_last s, wr_depth_available_base = depth_total book\<rparr>))"

subsection \<open>Size within a slippage limit, stress, consumption\<close>

fun max_size_loop ::
  "order_side \<Rightarrow> decimal \<Rightarrow> decimal \<Rightarrow> level list \<Rightarrow> decimal \<Rightarrow> decimal \<Rightarrow> decimal \<Rightarrow> decimal result" where
  "max_size_loop side ref cap [] cum_base cum_quote res = Inr res"
| "max_size_loop side ref cap (lv # ls) cum_base cum_quote res =
     (let cb = dadd cum_base (lv_amount lv);
          cq = dadd cum_quote (dmul (lv_amount lv) (lv_price lv))
      in bind_result (ddiv_r cq cb) (\<lambda>avg.
           if cap < adverse_pct side avg ref then Inr res
           else max_size_loop side ref cap ls cb cq cb))"

definition max_size_within_slippage :: "order_book \<Rightarrow> order_side \<Rightarrow> decimal \<Rightarrow> decimal result" where
  "max_size_within_slippage b side max_slippage_pct =
     (case side_levels b side of [] \<Rightarrow> Inr 0
      | lv0 # ls \<Rightarrow> max_size_loop side (lv_price lv0) max_slippage_pct (lv0 # ls) 0 0 0)"

definition thin_levels :: "decimal \<Rightarrow> level list \<Rightarrow> level list" where
  "thin_levels m ls = map (\<lambda>lv. \<lparr>lv_price = lv_price lv, lv_amount = ddiv (lv_amount lv) m\<rparr>) ls"

definition apply_stress :: "order_book \<Rightarrow> decimal \<Rightarrow> order_book" where
  "apply_stress b m =
     (if m \<le> 1 then b
      else b\<lparr>ob_bids := thin_levels m (ob_bids b), ob_asks := thin_levels m (ob_asks b)\<rparr>)"

fun consume_levels :: "level list \<Rightarrow> decimal \<Rightarrow> level list" where
  "consume_levels [] remaining = []"
| "consume_levels (lv # ls) remaining =
     (if remaining \<le> 0 then lv # ls
      else if lv_amount lv \<le> remaining then consume_levels ls (dsub remaining (lv_amount lv))
      else lv\<lparr>lv_amount := dsub (lv_amount lv) remaining\<rparr> # ls)"

definition consume :: "order_book \<Rightarrow> order_side \<Rightarrow> decimal \<Rightarrow> order_book" where
  "consume b side base_amount =
     (if side = BUY then b\<lparr>ob_asks := consume_levels (ob_asks b) base_amount\<rparr>
      else b\<lparr>ob_bids := consume_levels (ob_bids b) base_amount\<rparr>)"

subsection \<open>The exact reference: greedy taking\<close>

definition amounts :: "level list \<Rightarrow> rat" where
  "amounts ls = sum_list (map lv_amount ls)"

definition notionals :: "level list \<Rightarrow> rat" where
  "notionals ls = sum_list (map (\<lambda>l. lv_amount l * lv_price l) ls)"

fun greedy :: "level list \<Rightarrow> rat \<Rightarrow> rat \<times> rat" where
  \<comment> \<open>base and quote of the exact, unrounded fill\<close>
  "greedy [] n = (0, 0)"
| "greedy (lv # ls) n =
     (if n \<le> 0 then (0, 0)
      else let t = min (lv_amount lv) n in
        (t + fst (greedy ls (n - t)), t * lv_price lv + snd (greedy ls (n - t))))"

definition good_levels :: "level list \<Rightarrow> bool" where
  "good_levels ls \<longleftrightarrow> list_all (\<lambda>l. 0 < lv_amount l \<and> 0 < lv_price l) ls"

lemma amounts_simps [simp]: "amounts [] = 0" "amounts (l # ls) = lv_amount l + amounts ls"
  "amounts (xs @ ys) = amounts xs + amounts ys"
  by (simp_all add: amounts_def)

lemma notionals_simps [simp]: "notionals [] = 0"
  "notionals (l # ls) = lv_amount l * lv_price l + notionals ls"
  "notionals (xs @ ys) = notionals xs + notionals ys"
  by (simp_all add: notionals_def)

lemma good_levels_simps [simp]: "good_levels []"
  "good_levels (l # ls) \<longleftrightarrow> 0 < lv_amount l \<and> 0 < lv_price l \<and> good_levels ls"
  "good_levels (xs @ ys) \<longleftrightarrow> good_levels xs \<and> good_levels ys"
  by (simp_all add: good_levels_def)

lemma amounts_nonneg: "good_levels ls \<Longrightarrow> 0 \<le> amounts ls"
  by (induction ls) auto

lemma notionals_nonneg: "good_levels ls \<Longrightarrow> 0 \<le> notionals ls"
  by (induction ls) (auto intro!: add_nonneg_nonneg mult_nonneg_nonneg)

lemma greedy_0 [simp]: "n \<le> 0 \<Longrightarrow> greedy ls n = (0, 0)"
  by (cases ls) simp_all

lemma greedy_filled: "good_levels ls \<Longrightarrow> 0 \<le> n \<Longrightarrow> fst (greedy ls n) = min n (amounts ls)"
proof (induction ls arbitrary: n)
  case (Cons l ls)
  show ?case
  proof (cases "n \<le> 0")
    case False
    have "fst (greedy ls (n - min (lv_amount l) n)) = min (n - min (lv_amount l) n) (amounts ls)"
      using Cons.prems by (intro Cons.IH) auto
    with False Cons.prems amounts_nonneg [of ls] show ?thesis by (auto simp: Let_def min_def)
  qed (use Cons.prems amounts_nonneg [of ls] in auto)
qed simp

lemma greedy_all: "good_levels pre \<Longrightarrow> greedy (pre @ post) (amounts pre) = (amounts pre, notionals pre)"
proof (induction pre)
  case (Cons l pre)
  then have "0 \<le> amounts pre" by (simp add: amounts_nonneg)
  with Cons show ?case by (simp add: min_def Let_def)
qed simp

text \<open>No other way of taking the same base out of an ascending book is cheaper.\<close>

lemma greedy_cheapest_gen:
  assumes "length xs = length ls"
    and "\<forall>i < length ls. 0 \<le> xs ! i \<and> xs ! i \<le> lv_amount (ls ! i)"
    and "sorted (map lv_price ls)" and "\<forall>l \<in> set ls. p \<le> lv_price l"
    and "0 \<le> m" and "m \<le> sum_list xs"
  shows "snd (greedy ls m) + (sum_list xs - m) * p \<le> (\<Sum>(x, l) \<leftarrow> zip xs ls. x * lv_price l)"
  using assms
proof (induction xs ls arbitrary: m p rule: list_induct2)
  case (Cons x xs l ls)
  let ?S = "\<Sum>(x, l) \<leftarrow> zip xs ls. x * lv_price l"
  define t where "t = min (lv_amount l) m"
  have x: "0 \<le> x" "x \<le> lv_amount l" using Cons.prems(1) by (auto dest: spec [of _ 0])
  have xs: "\<forall>i < length ls. 0 \<le> xs ! i \<and> xs ! i \<le> lv_amount (ls ! i)"
    using Cons.prems(1) by (auto dest: spec [of _ "Suc _"])
  have srt: "sorted (map lv_price ls)" and hd: "\<forall>k \<in> set ls. lv_price l \<le> lv_price k"
    using Cons.prems(2) by auto
  have p: "p \<le> lv_price l" "\<forall>k \<in> set ls. p \<le> lv_price k" using Cons.prems(3) by auto
  have g: "snd (greedy (l # ls) m) = t * lv_price l + snd (greedy ls (m - t))"
    using Cons.prems(4) x by (auto simp: t_def Let_def min_def)
  have s0: "0 \<le> sum_list xs"
    using xs Cons.hyps by (intro sum_list_nonneg) (auto simp: in_set_conv_nth)
  show ?case
  proof (cases "t \<le> x")
    case True
    have m: "0 \<le> m - t" "m - t \<le> sum_list xs"
      using Cons.prems(4,5) x True s0 by (auto simp: t_def)
    have IH: "snd (greedy ls (m - t)) + (sum_list xs - (m - t)) * p \<le> ?S"
      by (rule Cons.IH [OF xs srt p(2) m])
    have "(x - t) * p \<le> (x - t) * lv_price l" using True p(1) by (simp add: mult_left_mono)
    moreover have "snd (greedy (l # ls) m) + (sum_list (x # xs) - m) * p =
        snd (greedy ls (m - t)) + (sum_list xs - (m - t)) * p + t * lv_price l + (x - t) * p"
      unfolding g by (simp add: algebra_simps)
    moreover have "(x - t) * lv_price l + t * lv_price l = x * lv_price l" by (simp add: algebra_simps)
    ultimately show ?thesis using IH by simp
  next
    case False
    have m: "0 \<le> m - t" "m - t \<le> sum_list xs"
      using Cons.prems(4,5) x False by (auto simp: t_def)
    have IH: "snd (greedy ls (m - t)) + (sum_list xs - (m - t)) * lv_price l \<le> ?S"
      by (rule Cons.IH [OF xs srt hd m])
    have "(x + sum_list xs - m) * p \<le> (x + sum_list xs - m) * lv_price l"
      using Cons.prems(5) p(1) by (simp add: mult_left_mono)
    moreover have "snd (greedy (l # ls) m) + (sum_list (x # xs) - m) * p =
        snd (greedy ls (m - t)) + (sum_list xs - (m - t)) * lv_price l
        + (x + sum_list xs - m) * p - (x + sum_list xs - m) * lv_price l + x * lv_price l"
      unfolding g by (simp add: algebra_simps)
    ultimately show ?thesis using IH by simp
  qed
qed simp

subsection \<open>On books with room in the precision the walk is the exact reference\<close>

definition exact_book :: "nat \<Rightarrow> nat \<Rightarrow> level list \<Rightarrow> bool" where
  \<comment> \<open>amounts have \<open>ka\<close> decimals and prices \<open>kp\<close>, and the totals fit 34 digits\<close>
  "exact_book ka kp ls \<longleftrightarrow> good_levels ls \<and>
     list_all (\<lambda>l. on_grid ka (lv_amount l) \<and> on_grid kp (lv_price l)) ls \<and>
     amounts ls * 10 ^ ka < 10 ^ 34 \<and> notionals ls * 10 ^ (ka + kp) < 10 ^ 34"

lemma mult_pow_less:
  "(x :: rat) * 10 ^ k < b \<Longrightarrow> y \<le> x \<Longrightarrow> y * 10 ^ k < b"
  by (rule le_less_trans [OF mult_right_mono]) simp_all

lemma on_grid_bound: "on_grid k x \<Longrightarrow> \<bar>x\<bar> * 10 ^ k < 10 ^ 34"
proof -
  assume "on_grid k x"
  then obtain n where n: "x = of_int n / 10 ^ k" "\<bar>n\<bar> < 10 ^ 34" unfolding on_grid_def by blast
  have "of_int \<bar>n\<bar> < (10 ^ 34 :: rat)" using n(2) by (metis of_int_less_iff of_int_numeral of_int_power)
  then show ?thesis by (simp add: n(1))
qed

lemma walk_loop_exact:
  assumes "good_levels ls"
    and "list_all (\<lambda>l. on_grid ka (lv_amount l) \<and> on_grid kp (lv_price l)) ls"
    and "on_grid ka (ws_remaining s)" and "0 \<le> ws_remaining s"
    and "on_grid ka (ws_filled s)" and "0 \<le> ws_filled s"
    and "on_grid (ka + kp) (ws_quote s)" and "0 \<le> ws_quote s"
    and "(ws_filled s + amounts ls) * 10 ^ ka < 10 ^ 34"
    and "(ws_quote s + notionals ls) * 10 ^ (ka + kp) < 10 ^ 34"
  shows "ws_filled (walk_loop ls s) = ws_filled s + fst (greedy ls (ws_remaining s)) \<and>
         ws_quote (walk_loop ls s) = ws_quote s + snd (greedy ls (ws_remaining s)) \<and>
         ws_remaining (walk_loop ls s) = ws_remaining s - fst (greedy ls (ws_remaining s))"
  using assms
proof (induction ls arbitrary: s)
  case (Cons l ls)
  show ?case
  proof (cases "ws_remaining s \<le> 0")
    case False
    define t where "t = min (lv_amount l) (ws_remaining s)"
    have l: "0 < lv_amount l" "0 < lv_price l" "good_levels ls" and g: "on_grid ka (lv_amount l)" "on_grid kp (lv_price l)"
      using Cons.prems(1,2) by simp_all
    have am: "0 \<le> amounts ls" and no: "0 \<le> notionals ls"
      using l(3) by (simp_all add: amounts_nonneg notionals_nonneg)
    have t: "0 < t" "t \<le> lv_amount l" "t \<le> ws_remaining s" "on_grid ka t"
      using False l(1) g(1) Cons.prems(3) by (auto simp: t_def on_grid_min)
    have tp: "t * lv_price l \<le> lv_amount l * lv_price l" "0 \<le> t * lv_price l"
      using t l(2) by simp_all
    have b2: "(ws_quote s + t * lv_price l) * 10 ^ (ka + kp) < 10 ^ 34"
      by (rule mult_pow_less [OF Cons.prems(10)]) (use tp no in simp)
    have g2: "on_grid (ka + kp) (t * lv_price l)"
      by (rule on_grid_mult [OF t(4) g(2)])
        (rule mult_pow_less [OF Cons.prems(10)], use tp no Cons.prems(8) in simp)
    have m: "dmul t (lv_price l) = t * lv_price l"
      by (simp add: dmul_def dec.rnd_exact on_grid_drepr [OF g2])
    have b1: "(ws_filled s + t) * 10 ^ ka < 10 ^ 34"
      by (rule mult_pow_less [OF Cons.prems(9)]) (use t am in simp)
    have b3: "\<bar>ws_remaining s - t\<bar> * 10 ^ ka < 10 ^ 34"
      by (rule mult_pow_less [OF on_grid_bound [OF Cons.prems(3)]]) (use t in simp)
    have f: "dadd (ws_filled s) t = ws_filled s + t"
      using b1 t Cons.prems(5,6) by (intro dadd_exact [of ka]) simp_all
    have q: "dadd (ws_quote s) (t * lv_price l) = ws_quote s + t * lv_price l"
      using b2 tp Cons.prems(7,8) g2 by (intro dadd_exact [of "ka + kp"]) simp_all
    have r: "dsub (ws_remaining s) t = ws_remaining s - t"
      using b3 t(4) Cons.prems(3) by (intro dsub_exact [of ka])
    define s' where "s' = \<lparr>ws_remaining = ws_remaining s - t, ws_quote = ws_quote s + t * lv_price l,
        ws_filled = ws_filled s + t, ws_levels = ws_levels s + 1, ws_last = lv_price l\<rparr>"
    have step: "walk_loop (l # ls) s = walk_loop ls s'"
      using False by (simp add: t_def [symmetric] m f q r s'_def)
    have gr: "greedy (l # ls) (ws_remaining s) =
        (t + fst (greedy ls (ws_remaining s - t)), t * lv_price l + snd (greedy ls (ws_remaining s - t)))"
      using False by (simp add: t_def Let_def)
    have IH: "ws_filled (walk_loop ls s') = ws_filled s' + fst (greedy ls (ws_remaining s')) \<and>
        ws_quote (walk_loop ls s') = ws_quote s' + snd (greedy ls (ws_remaining s')) \<and>
        ws_remaining (walk_loop ls s') = ws_remaining s' - fst (greedy ls (ws_remaining s'))"
    proof (rule Cons.IH)
      show "good_levels ls" "list_all (\<lambda>l. on_grid ka (lv_amount l) \<and> on_grid kp (lv_price l)) ls"
        using l Cons.prems(2) by simp_all
      show "on_grid ka (ws_remaining s')" "on_grid ka (ws_filled s')" "on_grid (ka + kp) (ws_quote s')"
        using on_grid_sub [OF Cons.prems(3) t(4) b3] on_grid_add [OF Cons.prems(5) t(4)]
          on_grid_add [OF Cons.prems(7) g2] b1 b2 t Cons.prems(6,8) tp
        by (simp_all add: s'_def)
      show "0 \<le> ws_remaining s'" "0 \<le> ws_filled s'" "0 \<le> ws_quote s'"
        using t tp Cons.prems(6,8) by (simp_all add: s'_def)
      show "(ws_filled s' + amounts ls) * 10 ^ ka < 10 ^ 34"
        by (rule mult_pow_less [OF Cons.prems(9)]) (use t in \<open>simp add: s'_def\<close>)
      show "(ws_quote s' + notionals ls) * 10 ^ (ka + kp) < 10 ^ 34"
        by (rule mult_pow_less [OF Cons.prems(10)]) (use tp in \<open>simp add: s'_def\<close>)
    qed
    show ?thesis unfolding step gr using IH by (simp add: s'_def)
  qed simp
qed simp

lemma dsum_amounts_from:
  assumes "good_levels ls" and "list_all (\<lambda>l. on_grid ka (lv_amount l)) ls"
    and "on_grid ka a" and "0 \<le> a" and "(a + amounts ls) * 10 ^ ka < 10 ^ 34"
  shows "foldl dadd a (map lv_amount ls) = a + amounts ls"
  using assms
proof (induction ls arbitrary: a)
  case (Cons l ls)
  have b: "(a + lv_amount l) * 10 ^ ka < 10 ^ 34"
    by (rule mult_pow_less [OF Cons.prems(5)]) (use Cons.prems(1) amounts_nonneg [of ls] in simp)
  with Cons.prems have "dadd a (lv_amount l) = a + lv_amount l" by (intro dadd_exact [of ka]) simp_all
  moreover have "on_grid ka (a + lv_amount l)" using Cons.prems b by (intro on_grid_add) simp_all
  ultimately show ?case using Cons.IH [of "a + lv_amount l"] Cons.prems by (simp add: add.assoc)
qed simp

lemma depth_total_exact: "exact_book ka kp ls \<Longrightarrow> depth_total ls = amounts ls"
  unfolding depth_total_def dsum_def exact_book_def
  by (subst dsum_amounts_from [of ls ka]) (auto simp: list_all_iff)

lemma walk_exact:
  assumes ex: "exact_book ka kp (side_levels b side)" and n: "0 < n" "on_grid ka n"
    and ne: "side_levels b side \<noteq> []"
  obtains r where "walk b side n = Inr r"
    and "wr_filled_base r = min n (amounts (side_levels b side))"
    and "wr_quote_amount r = snd (greedy (side_levels b side) n)"
    and "wr_fully_filled r \<longleftrightarrow> n \<le> amounts (side_levels b side)"
    and "wr_depth_available_base r = amounts (side_levels b side)"
    and "wr_avg_price r = ddiv (wr_quote_amount r) (wr_filled_base r)"
    and "wr_slippage_pct r = max 0 (adverse_pct side (wr_avg_price r) (lv_price (hd (side_levels b side))))"
proof -
  obtain l ls where L: "side_levels b side = l # ls" using ne by (cases "side_levels b side") auto
  define s0 where "s0 = \<lparr>ws_remaining = n, ws_quote = 0, ws_filled = 0, ws_levels = 0, ws_last = lv_price l\<rparr>"
  define s where "s = walk_loop (l # ls) s0"
  have gl: "good_levels (l # ls)" using ex by (simp add: exact_book_def L)
  then have am: "0 < amounts (l # ls)" using amounts_nonneg [of ls] by simp
  have "ws_filled s = 0 + fst (greedy (l # ls) n) \<and> ws_quote s = 0 + snd (greedy (l # ls) n) \<and>
      ws_remaining s = n - fst (greedy (l # ls) n)"
    unfolding s_def using ex n unfolding exact_book_def L
    by (intro walk_loop_exact [of "l # ls" ka kp s0, unfolded s0_def walk_state.simps, folded s0_def])
      simp_all
  then have s: "ws_filled s = min n (amounts (l # ls))" "ws_quote s = snd (greedy (l # ls) n)"
      "ws_remaining s = n - min n (amounts (l # ls))"
    using gl n(1) by (simp_all only: greedy_filled less_imp_le add_0)
  have pos: "0 < ws_filled s" using s(1) am n(1) by simp
  show ?thesis
    using that n(1) pos s depth_total_exact [OF ex]
    by (simp add: walk_def L Let_def s0_def [symmetric] s_def [symmetric] del: walk_loop.simps greedy.simps
        amounts_simps)
qed

lemma greedy_ge_reference:
  assumes "good_levels ls" and "\<forall>l \<in> set ls. p \<le> lv_price l"
  shows "fst (greedy ls n) * p \<le> snd (greedy ls n)"
  using assms
proof (induction ls arbitrary: n)
  case (Cons l ls)
  have "fst (greedy ls m) * p \<le> snd (greedy ls m)" for m using Cons by simp
  moreover have "0 \<le> t \<Longrightarrow> t * p \<le> t * lv_price l" for t
    using Cons.prems(2) by (simp add: mult_left_mono)
  ultimately show ?case using Cons.prems(1) by (auto simp: Let_def distrib_right intro!: add_mono)
qed simp

lemma greedy_le_price:
  assumes "good_levels ls" and "\<forall>l \<in> set ls. lv_price l \<le> p"
  shows "snd (greedy ls n) \<le> fst (greedy ls n) * p"
  using assms
proof (induction ls arbitrary: n)
  case (Cons l ls)
  have "snd (greedy ls m) \<le> fst (greedy ls m) * p" for m using Cons by simp
  moreover have "0 \<le> t \<Longrightarrow> t * lv_price l \<le> t * p" for t
    using Cons.prems(2) by (simp add: mult_left_mono)
  ultimately show ?case using Cons.prems(1) by (auto simp: Let_def distrib_right intro!: add_mono)
qed simp

subsection \<open>Consuming depth\<close>

lemma consume_levels_exact:
  assumes "good_levels ls" and "list_all (\<lambda>l. on_grid ka (lv_amount l)) ls"
    and "on_grid ka m"
  shows "good_levels (consume_levels ls m) \<and>
    list_all (\<lambda>l. on_grid ka (lv_amount l)) (consume_levels ls m) \<and>
    amounts (consume_levels ls m) = max 0 (amounts ls - max 0 m) \<and>
    (0 \<le> m \<longrightarrow> 0 \<le> n \<longrightarrow> fst (greedy ls (m + n)) = fst (greedy ls m) + fst (greedy (consume_levels ls m) n)
      \<and> snd (greedy ls (m + n)) = snd (greedy ls m) + snd (greedy (consume_levels ls m) n))"
  using assms
proof (induction ls arbitrary: m)
  case (Cons l ls)
  have l: "0 < lv_amount l" "0 < lv_price l" "good_levels ls" "on_grid ka (lv_amount l)"
    and a: "0 \<le> amounts ls"
    using Cons.prems amounts_nonneg [of ls] by simp_all
  consider "m \<le> 0" | "0 < m" "lv_amount l \<le> m" | "0 < m" "m < lv_amount l" by linarith
  then show ?case
  proof cases
    case 1
    then show ?thesis using Cons.prems a by (cases "m = 0") auto
  next
    case 2
    have b: "\<bar>m - lv_amount l\<bar> * 10 ^ ka < 10 ^ 34"
      by (rule mult_pow_less [OF on_grid_bound [OF Cons.prems(3)]]) (use 2 l in simp)
    have d: "dsub m (lv_amount l) = m - lv_amount l" using b l Cons.prems(3) by (intro dsub_exact)
    have g: "on_grid ka (m - lv_amount l)" using b l Cons.prems(3) by (intro on_grid_sub)
    have IH: "good_levels (consume_levels ls (m - lv_amount l)) \<and>
        list_all (\<lambda>l. on_grid ka (lv_amount l)) (consume_levels ls (m - lv_amount l)) \<and>
        amounts (consume_levels ls (m - lv_amount l)) = max 0 (amounts ls - max 0 (m - lv_amount l)) \<and>
        (0 \<le> m - lv_amount l \<longrightarrow> 0 \<le> n \<longrightarrow>
          fst (greedy ls (m - lv_amount l + n)) = fst (greedy ls (m - lv_amount l))
            + fst (greedy (consume_levels ls (m - lv_amount l)) n) \<and>
          snd (greedy ls (m - lv_amount l + n)) = snd (greedy ls (m - lv_amount l))
            + snd (greedy (consume_levels ls (m - lv_amount l)) n))"
      using Cons.prems by (intro Cons.IH g) simp_all
    have e: "m + n - lv_amount l = m - lv_amount l + n" by simp
    show ?thesis using 2 IH a by (simp add: d Let_def min_def e)
  next
    case 3
    have b: "\<bar>lv_amount l - m\<bar> * 10 ^ ka < 10 ^ 34"
      by (rule mult_pow_less [OF on_grid_bound [OF l(4)]]) (use 3 l in simp)
    have d: "dsub (lv_amount l) m = lv_amount l - m" using b l Cons.prems(3) by (intro dsub_exact)
    have g: "on_grid ka (lv_amount l - m)" using b l Cons.prems(3) by (intro on_grid_sub)
    show ?thesis
      using 3 l a g Cons.prems(2)
      by (auto simp: d Let_def min_def algebra_simps)
  qed
qed simp

subsection \<open>The slippage cap\<close>

lemma max_size_loop_cases:
  assumes "max_size_loop side ref cap ls cb cq res = Inr r"
  shows "r = res \<or> (\<exists>pre post. ls = pre @ post \<and> pre \<noteq> [] \<and>
      r = foldl dadd cb (map lv_amount pre) \<and> r \<noteq> 0 \<and>
      adverse_pct side (ddiv (foldl dadd cq (map (\<lambda>l. dmul (lv_amount l) (lv_price l)) pre)) r) ref \<le> cap)"
  using assms
proof (induction ls arbitrary: cb cq res)
  case (Cons l ls)
  define cb' where "cb' = dadd cb (lv_amount l)"
  define cq' where "cq' = dadd cq (dmul (lv_amount l) (lv_price l))"
  from Cons.prems obtain avg where avg: "ddiv_r cq' cb' = Inr avg"
    by (cases "ddiv_r cq' cb'") (simp_all add: cb'_def cq'_def)
  then have a: "cb' \<noteq> 0" "avg = ddiv cq' cb'" by (auto simp: ddiv_r_def split: if_splits)
  show ?case
  proof (cases "cap < adverse_pct side avg ref")
    case True
    with Cons.prems avg show ?thesis by (simp add: cb'_def [symmetric] cq'_def [symmetric])
  next
    case False
    with Cons.prems avg have "max_size_loop side ref cap ls cb' cq' cb' = Inr r"
      by (simp add: cb'_def [symmetric] cq'_def [symmetric])
    from Cons.IH [OF this] show ?thesis
    proof (elim disjE exE conjE)
      assume "r = cb'"
      then show ?thesis using a False
        by (intro disjI2 exI [of _ "[l]"] exI [of _ ls]) (simp add: cb'_def cq'_def)
    next
      fix pre post
      assume "ls = pre @ post" "pre \<noteq> []" "r = foldl dadd cb' (map lv_amount pre)" "r \<noteq> 0"
        "adverse_pct side (ddiv (foldl dadd cq' (map (\<lambda>l. dmul (lv_amount l) (lv_price l)) pre)) r) ref \<le> cap"
      then show ?thesis
        by (intro disjI2 exI [of _ "l # pre"] exI [of _ post]) (simp add: cb'_def cq'_def)
    qed
  qed
qed simp

lemma dsum_notionals_from:
  assumes "good_levels ls"
    and "list_all (\<lambda>l. on_grid ka (lv_amount l) \<and> on_grid kp (lv_price l)) ls"
    and "on_grid (ka + kp) a" and "0 \<le> a" and "(a + notionals ls) * 10 ^ (ka + kp) < 10 ^ 34"
  shows "foldl dadd a (map (\<lambda>l. dmul (lv_amount l) (lv_price l)) ls) = a + notionals ls"
  using assms
proof (induction ls arbitrary: a)
  case (Cons l ls)
  have pos: "0 < lv_amount l" "0 < lv_price l" and n: "0 \<le> notionals ls"
    using Cons.prems(1) notionals_nonneg [of ls] by simp_all
  have b: "(a + lv_amount l * lv_price l) * 10 ^ (ka + kp) < 10 ^ 34"
    by (rule mult_pow_less [OF Cons.prems(5)]) (use n in simp)
  have b2: "\<bar>lv_amount l * lv_price l\<bar> * 10 ^ (ka + kp) < 10 ^ 34"
    by (rule mult_pow_less [OF b]) (use pos Cons.prems(4) in simp)
  have g: "on_grid (ka + kp) (lv_amount l * lv_price l)"
    using Cons.prems(2) b2 by (intro on_grid_mult) simp_all
  then have m: "dmul (lv_amount l) (lv_price l) = lv_amount l * lv_price l"
    by (simp add: dmul_def dec.rnd_exact on_grid_drepr)
  have "dadd a (lv_amount l * lv_price l) = a + lv_amount l * lv_price l"
    using Cons.prems g b pos by (intro dadd_exact [of "ka + kp"]) simp_all
  moreover have "on_grid (ka + kp) (a + lv_amount l * lv_price l)"
    using Cons.prems g b pos by (intro on_grid_add) simp_all
  ultimately show ?case
    using Cons.IH [of "a + lv_amount l * lv_price l"] Cons.prems pos by (simp add: m add.assoc)
qed simp

lemma greedy_min_amounts:
  "good_levels ls \<Longrightarrow> snd (greedy ls n) = snd (greedy ls (min n (amounts ls)))"
proof (induction ls arbitrary: n)
  case (Cons l ls)
  have a: "0 \<le> amounts ls" and l: "0 < lv_amount l" using Cons.prems amounts_nonneg [of ls] by simp_all
  show ?case
  proof (cases "n \<le> 0")
    case False
    have "snd (greedy ls (n - t)) = snd (greedy ls (min (n - t) (amounts ls)))" for t
      using Cons by simp
    from this [of "lv_amount l"] False a l show ?thesis by (auto simp: Let_def min_def algebra_simps)
  qed (use a l in \<open>simp add: min_def\<close>)
qed simp

lemma on_grid_amounts:
  assumes "good_levels ls" and "list_all (\<lambda>l. on_grid ka (lv_amount l) \<and> on_grid kp (lv_price l)) ls"
    and "amounts ls * 10 ^ ka < 10 ^ 34"
  shows "on_grid ka (amounts ls)"
  using assms
proof (induction ls)
  case (Cons l ls)
  have a: "0 \<le> amounts ls" "0 < lv_amount l" using Cons.prems amounts_nonneg [of ls] by simp_all
  have "amounts ls * 10 ^ ka < 10 ^ 34"
    by (rule mult_pow_less [OF Cons.prems(3)]) (use a in simp)
  with Cons show ?case using a by (auto intro!: on_grid_add)
qed simp

lemma raw_levels_pos: "raw_levels raw = Inr ls \<Longrightarrow> l \<in> set ls \<Longrightarrow> 0 < lv_amount l"
  by (induction raw arbitrary: ls rule: raw_levels.induct)
    (auto simp: bind_result_Inr_iff split: if_splits)

subsection \<open>Properties\<close>

text \<open>C10. A taker walk fills exactly the smaller of the requested base amount and the depth of
  its side, reports that depth, and is marked fully filled exactly when the depth suffices; its
  quote amount is the exact cost of the greedy fill. The book's decimals leave room in the
  34-digit precision (\<open>exact_book\<close>), so no rounding step of the loop loses anything.\<close>

theorem walk_fill_exact:
  assumes "exact_book ka kp (side_levels b side)" and "side_levels b side \<noteq> []"
    and "0 < n" and "on_grid ka n"
  shows "\<exists>r. walk b side n = Inr r \<and>
    wr_filled_base r = min n (amounts (side_levels b side)) \<and>
    wr_depth_available_base r = amounts (side_levels b side) \<and>
    (wr_fully_filled r = (n \<le> amounts (side_levels b side))) \<and>
    wr_quote_amount r = snd (greedy (side_levels b side) n)"
  by (rule walk_exact [OF assms(1,3,4,2)]) blast

definition demo_book :: order_book where
  "demo_book = \<lparr>ob_venue = ''kraken'', ob_symbol = ''BTC/USDC'',
     ob_bids = [\<lparr>lv_price = 99, lv_amount = 1\<rparr>, \<lparr>lv_price = 98, lv_amount = 3\<rparr>],
     ob_asks = [\<lparr>lv_price = 100, lv_amount = 1\<rparr>, \<lparr>lv_price = 102, lv_amount = 3\<rparr>],
     ob_ts_ms = 1000, ob_received_ms = 1000, ob_sequence = None, ob_source = ''rest''\<rparr>"

lemma on_grid_of_int: "\<bar>n\<bar> < 10 ^ 34 \<Longrightarrow> on_grid 0 (of_int n)"
  by (simp add: on_grid_def)

lemma on_grid_numeral: "(numeral k :: int) < 10 ^ 34 \<Longrightarrow> on_grid 0 (numeral k)"
  using on_grid_of_int [of "numeral k"] by simp

lemma on_grid_1: "on_grid 0 1"
  using on_grid_of_int [of 1] by simp

lemma demo_book_exact: "exact_book 0 0 (side_levels demo_book BUY)" "exact_book 0 0 (side_levels demo_book SELL)"
  by (simp_all add: exact_book_def demo_book_def side_levels_def on_grid_numeral on_grid_1)

lemma demo_book_sides [simp]:
  "side_levels demo_book BUY = [\<lparr>lv_price = 100, lv_amount = 1\<rparr>, \<lparr>lv_price = 102, lv_amount = 3\<rparr>]"
  "side_levels demo_book SELL = [\<lparr>lv_price = 99, lv_amount = 1\<rparr>, \<lparr>lv_price = 98, lv_amount = 3\<rparr>]"
  by (simp_all add: demo_book_def side_levels_def)

theorem walk_fill_exact_witness:
  "\<exists>r. walk demo_book BUY 2 = Inr r \<and> wr_filled_base r = 2 \<and> wr_fully_filled r \<and>
     wr_quote_amount r = 202"
  using walk_fill_exact [OF demo_book_exact(1), of 2] by (simp add: on_grid_numeral) auto

text \<open>C11. The walk of a buy is optimal: any other way of taking the same base amount out of an
  ascending ask side costs at least as much quote.\<close>

theorem walk_buy_cheapest:
  assumes "exact_book ka kp (ob_asks b)" and "sorted (map lv_price (ob_asks b))"
    and "0 < n" and "on_grid ka n" and "walk b BUY n = Inr r"
    and "length xs = length (ob_asks b)"
    and "\<forall>i < length (ob_asks b). 0 \<le> xs ! i \<and> xs ! i \<le> lv_amount (ob_asks b ! i)"
    and "sum_list xs = wr_filled_base r"
  shows "wr_quote_amount r \<le> (\<Sum>(x, l) \<leftarrow> zip xs (ob_asks b). x * lv_price l)"
proof (cases "ob_asks b = []")
  case True
  with assms(3,5) show ?thesis by (auto simp: walk_def side_levels_def empty_walk_def)
next
  case False
  have sl: "side_levels b BUY = ob_asks b" by (simp add: side_levels_def)
  let ?D = "amounts (ob_asks b)"
  have gl: "good_levels (ob_asks b)" using assms(1) by (simp add: exact_book_def)
  obtain r' where "walk b BUY n = Inr r'" "wr_filled_base r' = min n ?D"
      "wr_quote_amount r' = snd (greedy (ob_asks b) n)"
    using walk_exact [of ka kp b BUY n] assms(1,3,4) False unfolding sl by metis
  then have r: "sum_list xs = min n ?D" "wr_quote_amount r = snd (greedy (ob_asks b) n)"
    using assms(5,8) by simp_all
  have "snd (greedy (ob_asks b) n) = snd (greedy (ob_asks b) (min n ?D))"
    using greedy_min_amounts [OF gl] .
  moreover have "snd (greedy (ob_asks b) (min n ?D)) + (sum_list xs - min n ?D) * 0
      \<le> (\<Sum>(x, l) \<leftarrow> zip xs (ob_asks b). x * lv_price l)"
    using assms(2,3,6,7) r(1) gl amounts_nonneg [OF gl]
    by (intro greedy_cheapest_gen) (auto simp: good_levels_def list_all_iff less_imp_le)
  ultimately show ?thesis using r(2) by simp
qed

theorem walk_buy_cheapest_witness:
  "\<exists>r. walk demo_book BUY 2 = Inr r \<and> wr_quote_amount r \<le> 0 * 100 + 2 * 102"
proof -
  obtain r where r: "walk demo_book BUY 2 = Inr r" "wr_filled_base r = 2"
    using walk_exact [OF demo_book_exact(1), of 2] by (auto simp: on_grid_numeral)
  have "wr_quote_amount r \<le> (\<Sum>(x, l) \<leftarrow> zip [0, 2] (ob_asks demo_book). x * lv_price l)"
    by (rule walk_buy_cheapest [of 0 0 demo_book 2])
      (use r demo_book_exact(1) in \<open>auto simp: demo_book_def side_levels_def on_grid_numeral nth_Cons split: nat.splits\<close>)
  with r(1) show ?thesis by (simp add: demo_book_def)
qed

text \<open>The size cap is sound: walking the size that \<open>max_size_within_slippage\<close> returns fills
  completely and deviates from the top of the book by at most the slippage limit it was given,
  so the sizing step never proposes a size its own slippage limit forbids.\<close>

theorem max_size_within_slippage_sound:
  assumes "exact_book ka kp (side_levels b side)" and "0 \<le> cap"
    and "max_size_within_slippage b side cap = Inr n" and "0 < n"
  shows "\<exists>r. walk b side n = Inr r \<and> wr_fully_filled r \<and> wr_filled_base r = n \<and>
    wr_slippage_pct r \<le> cap"
proof -
  obtain l ls where L: "side_levels b side = l # ls"
    using assms(3,4) by (cases "side_levels b side") (auto simp: max_size_within_slippage_def)
  have loop: "max_size_loop side (lv_price l) cap (l # ls) 0 0 0 = Inr n"
    using assms(3) by (simp add: max_size_within_slippage_def L)
  obtain pre post where pp: "l # ls = pre @ post" "n = foldl dadd 0 (map lv_amount pre)"
    and adv: "adverse_pct side (ddiv (foldl dadd 0 (map (\<lambda>l. dmul (lv_amount l) (lv_price l)) pre)) n) (lv_price l) \<le> cap"
    using max_size_loop_cases [OF loop] assms(4) by auto
  have ex: "good_levels pre" "good_levels post" "list_all (\<lambda>l. on_grid ka (lv_amount l) \<and> on_grid kp (lv_price l)) pre"
      "(amounts pre + amounts post) * 10 ^ ka < 10 ^ 34" "(notionals pre + notionals post) * 10 ^ (ka + kp) < 10 ^ 34"
    using assms(1) unfolding exact_book_def L pp(1) by simp_all
  have pa: "0 \<le> amounts post" "0 \<le> notionals post" "0 \<le> amounts pre"
    using ex by (simp_all add: amounts_nonneg notionals_nonneg)
  have bn: "amounts pre * 10 ^ ka < 10 ^ 34" "notionals pre * 10 ^ (ka + kp) < 10 ^ 34"
    by (rule mult_pow_less [OF ex(4)], use pa in simp, rule mult_pow_less [OF ex(5)], use pa in simp)
  have n: "n = amounts pre"
    unfolding pp(2) using dsum_amounts_from [of pre ka 0] ex bn(1) by (simp add: list_all_iff)
  have q: "foldl dadd 0 (map (\<lambda>l. dmul (lv_amount l) (lv_price l)) pre) = notionals pre"
    using dsum_notionals_from [of pre ka kp 0] ex bn(2) by simp
  have g: "on_grid ka n" unfolding n using ex(1,3) bn(1) by (rule on_grid_amounts)
  obtain r where r: "walk b side n = Inr r" "wr_filled_base r = min n (amounts (l # ls))"
      "wr_quote_amount r = snd (greedy (l # ls) n)" "wr_fully_filled r \<longleftrightarrow> n \<le> amounts (l # ls)"
      "wr_avg_price r = ddiv (wr_quote_amount r) (wr_filled_base r)"
      "wr_slippage_pct r = max 0 (adverse_pct side (wr_avg_price r) (lv_price l))"
    using walk_exact [OF assms(1,4) g] L by (metis list.distinct(1) list.sel(1))
  have "n \<le> amounts (l # ls)" using pa(1) unfolding pp(1) n by simp
  moreover have "snd (greedy (l # ls) n) = notionals pre"
    unfolding pp(1) n using greedy_all [OF ex(1)] by simp
  ultimately have "wr_filled_base r = n" "wr_fully_filled r" "wr_quote_amount r = notionals pre"
    using r(2,3,4) by auto
  moreover have "wr_slippage_pct r \<le> cap"
    using r(5,6) adv assms(2) unfolding q calculation(1,3) by simp
  ultimately show ?thesis using r(1) by blast
qed

theorem max_size_within_slippage_sound_witness:
  "max_size_within_slippage demo_book BUY (1/2) = Inr 1 \<and>
   (\<exists>r. walk demo_book BUY 1 = Inr r \<and> wr_fully_filled r \<and> wr_slippage_pct r \<le> 1/2)"
proof -
  have m: "max_size_within_slippage demo_book BUY (1/2) = Inr 1"
    by (simp add: max_size_within_slippage_def Let_def ddiv_r_def adverse_pct_def pct_def dec_defs dround_eval)
  show ?thesis using m max_size_within_slippage_sound [OF demo_book_exact(1) _ m] by auto
qed

text \<open>Consuming depth composes with walking: a fill of \<open>m\<close> followed by a fill of \<open>n\<close> on the
  consumed book takes the same base at the same cost as one fill of \<open>m + n\<close>, and the depth left
  on the side is the old depth less \<open>m\<close>, never below zero.\<close>

theorem consume_then_fill:
  assumes "exact_book ka kp (side_levels b side)" and "0 \<le> m" and "on_grid ka m" and "0 \<le> n"
  shows "amounts (side_levels (consume b side m) side) = max 0 (amounts (side_levels b side) - m) \<and>
    greedy (side_levels b side) (m + n) =
      (fst (greedy (side_levels b side) m) + fst (greedy (side_levels (consume b side m) side) n),
       snd (greedy (side_levels b side) m) + snd (greedy (side_levels (consume b side m) side) n))"
proof -
  have c: "side_levels (consume b side m) side = consume_levels (side_levels b side) m"
    by (simp add: consume_def side_levels_def)
  have "good_levels (side_levels b side)" "list_all (\<lambda>l. on_grid ka (lv_amount l)) (side_levels b side)"
    using assms(1) by (auto simp: exact_book_def list_all_iff)
  from consume_levels_exact [OF this assms(3), of n] show ?thesis
    using assms(2,4) unfolding c by (simp add: prod_eq_iff)
qed

theorem consume_then_fill_witness:
  "amounts (side_levels (consume demo_book BUY 2) BUY) = 2"
  using consume_then_fill [OF demo_book_exact(1), of 2 0] by (simp add: on_grid_numeral)



end
