(* ===== verification/Quality.thy ===== *)
theory Quality
  imports Orderbook
begin

text \<open>
  Model of \<^verbatim>\<open>backend/fedr/marketdata/quality.py\<close>: the gate every order book passes before it
  reaches the cache. The state is the dictionary of per-venue records; \<open>validate\<close> returns the
  rejection reason (or none) with the new state. The wall clock is the argument \<open>now\<close>.
\<close>

record quality_policy =
  qp_max_future_skew_ms :: int
  qp_max_age_ms :: int
  qp_max_spread_pct :: decimal
  qp_max_cross_source_deviation_pct :: decimal
  qp_min_other_sources :: int
  qp_consecutive_rejections_unhealthy :: int

definition default_policy :: quality_policy where
  "default_policy = \<lparr>qp_max_future_skew_ms = 5000, qp_max_age_ms = 60000, qp_max_spread_pct = 5,
     qp_max_cross_source_deviation_pct = 3, qp_min_other_sources = 2,
     qp_consecutive_rejections_unhealthy = 5\<rparr>"

record venue_quality =
  vq_last_sequence :: "int option"
  vq_last_ts_ms :: int
  vq_rejected :: int
  vq_accepted :: int
  vq_consecutive_rejections :: int
  vq_last_reason :: "message option"
  vq_suspicious :: bool
  vq_reasons :: "(string, int) dict"

definition new_venue_quality :: venue_quality where
  "new_venue_quality = \<lparr>vq_last_sequence = None, vq_last_ts_ms = 0, vq_rejected = 0, vq_accepted = 0,
     vq_consecutive_rejections = 0, vq_last_reason = None, vq_suspicious = False, vq_reasons = []\<rparr>"

type_synonym quality_state = "(string, venue_quality) dict"

definition quality_of :: "quality_state \<Rightarrow> string \<Rightarrow> venue_quality" where
  "quality_of st venue = dget st venue new_venue_quality"

definition is_unhealthy :: "quality_policy \<Rightarrow> quality_state \<Rightarrow> string \<Rightarrow> bool" where
  "is_unhealthy p st venue \<longleftrightarrow>
     (case map_of st venue of None \<Rightarrow> False
      | Some v \<Rightarrow> qp_consecutive_rejections_unhealthy p \<le> vq_consecutive_rejections v)"

definition median_dec :: "decimal list \<Rightarrow> decimal" where
  \<comment> \<open>\<open>statistics.median\<close> on a non-empty list\<close>
  "median_dec xs =
     (let s = sort xs; n = length s in
      if odd n then s ! (n div 2) else ddiv (dadd (s ! (n div 2 - 1)) (s ! (n div 2))) 2)"

definition peer_mids :: "quality_policy \<Rightarrow> order_book \<Rightarrow> (string, order_book) dict \<Rightarrow> int \<Rightarrow> decimal list" where
  "peer_mids p book peers now =
     List.map_filter (\<lambda>(v, b).
       if v \<noteq> ob_venue book \<and> ob_symbol b = ob_symbol book \<and> now - ob_ts_ms b < qp_max_age_ms p
       then mid b else None) peers"

definition cross_source :: "quality_policy \<Rightarrow> order_book \<Rightarrow> decimal list \<Rightarrow> message option" where
  "cross_source p book others =
     (case mid book of None \<Rightarrow> None
      | Some m \<Rightarrow>
          if qp_min_other_sources p \<le> int (length others) then
            (let med = median_dec others;
                 dev = (if 0 < med then dabs (pct (dsub m med) med) else 0) in
             if qp_max_cross_source_deviation_pct p < dev
             then Some (Msg ''cross_source: mid deviates {} from the median of {} other venues''
                          [ADec dev, AInt (int (length others))])
             else None)
          else None)"

definition sequence_check :: "order_book \<Rightarrow> venue_quality \<Rightarrow> message option" where
  "sequence_check book st =
     (case (ob_sequence book, vq_last_sequence st) of
        (Some s, Some l) \<Rightarrow>
          if s < l then Some (Msg ''out_of_order: sequence {} < {}'' [AInt s, AInt l])
          else if s = l then Some (Msg ''duplicate: same sequence as the previous snapshot'' [])
          else None
      | (None, _) \<Rightarrow>
          if ob_ts_ms book \<noteq> 0 \<and> ob_ts_ms book < vq_last_ts_ms st - 1000
          then Some (Msg ''out_of_order: timestamp {} older than the last accepted {}''
                       [AInt (ob_ts_ms book), AInt (vq_last_ts_ms st)])
          else None
      | _ \<Rightarrow> None)"

definition basic_check :: "quality_policy \<Rightarrow> order_book \<Rightarrow> venue_quality \<Rightarrow> int \<Rightarrow> message option" where
  \<comment> \<open>the checks of \<open>_check\<close> up to the spread\<close>
  "basic_check p book st now =
     (if ob_bids book = [] \<or> ob_asks book = [] then Some (Msg ''empty: one side of the book is empty'' [])
      else if is_crossed book then
        Some (Msg ''crossed: bid {} >= ask {}''
          [ADec (lv_price (hd (ob_bids book))), ADec (lv_price (hd (ob_asks book)))])
      else if list_ex (\<lambda>lv. lv_price lv \<le> 0 \<or> lv_amount lv \<le> 0) (take 5 (ob_bids book) @ take 5 (ob_asks book))
      then Some (Msg ''bad_price: non-positive price or size'' [])
      else if now + qp_max_future_skew_ms p < ob_ts_ms book then
        Some (Msg ''future_timestamp: exchange ts {} ms ahead of local clock'' [AInt (ob_ts_ms book - now)])
      else if qp_max_age_ms p < now - ob_ts_ms book then
        Some (Msg ''stale_on_arrival: snapshot is {}s old'' [AInt ((now - ob_ts_ms book) div 1000)])
      else case sequence_check book st of Some r \<Rightarrow> Some r
      | None \<Rightarrow>
          (case spread_pct book of
             Some sp \<Rightarrow> if qp_max_spread_pct p < sp
               then Some (Msg ''abnormal_spread: {} wider than {}'' [ADec sp, ADec (qp_max_spread_pct p)])
               else None
           | None \<Rightarrow> None))"

definition check_book ::
  "quality_policy \<Rightarrow> order_book \<Rightarrow> venue_quality \<Rightarrow> (string, order_book) dict \<Rightarrow> int
    \<Rightarrow> message option \<times> venue_quality" where
  \<comment> \<open>\<open>_check\<close>: the flag \<open>suspicious\<close> is only touched once the basic checks have passed\<close>
  "check_book p book st peers now =
     (case basic_check p book st now of Some r \<Rightarrow> (Some r, st)
      | None \<Rightarrow>
          (case cross_source p book (peer_mids p book peers now) of
             Some r \<Rightarrow> (Some r, st\<lparr>vq_suspicious := True\<rparr>)
           | None \<Rightarrow> (None, st\<lparr>vq_suspicious := False\<rparr>)))"

fun message_prefix :: "message \<Rightarrow> string" where
  \<comment> \<open>\<open>reason.split(":")[0]\<close>: the templates of the gate carry no value before their colon\<close>
  "message_prefix (Msg t _) = takeWhile (\<lambda>c. c \<noteq> CHR '':'') t"

definition validate ::
  "quality_policy \<Rightarrow> quality_state \<Rightarrow> order_book \<Rightarrow> (string, order_book) dict \<Rightarrow> int
    \<Rightarrow> message option \<times> quality_state" where
  "validate p qs book peers now =
     (let st = quality_of qs (ob_venue book);
          (reason, st1) = check_book p book st peers now;
          st2 = (case reason of
             None \<Rightarrow> st1\<lparr>vq_accepted := vq_accepted st1 + 1, vq_consecutive_rejections := 0,
                       vq_last_reason := None,
                       vq_last_sequence := (case ob_sequence book of Some s \<Rightarrow> Some s | None \<Rightarrow> vq_last_sequence st1),
                       vq_last_ts_ms := max (vq_last_ts_ms st1) (ob_ts_ms book)\<rparr>
           | Some r \<Rightarrow> st1\<lparr>vq_rejected := vq_rejected st1 + 1,
                       vq_consecutive_rejections := vq_consecutive_rejections st1 + 1,
                       vq_last_reason := Some r,
                       vq_reasons := AList.update (message_prefix r)
                          (dget (vq_reasons st1) (message_prefix r) 0 + 1) (vq_reasons st1)\<rparr>)
      in (reason, AList.update (ob_venue book) st2 qs))"

subsection \<open>One step of the gate\<close>

lemma quality_of_update [simp]:
  "quality_of (AList.update v x qs) v' = (if v' = v then x else quality_of qs v')"
  by (simp add: quality_of_def)

lemma check_book_keeps [simp]:
  "vq_accepted (snd (check_book p b st peers now)) = vq_accepted st"
  "vq_rejected (snd (check_book p b st peers now)) = vq_rejected st"
  "vq_consecutive_rejections (snd (check_book p b st peers now)) = vq_consecutive_rejections st"
  "vq_last_sequence (snd (check_book p b st peers now)) = vq_last_sequence st"
  "vq_last_ts_ms (snd (check_book p b st peers now)) = vq_last_ts_ms st"
  by (simp_all add: check_book_def split: option.splits)

lemma check_book_accept: "fst (check_book p b st peers now) = None \<longleftrightarrow>
    basic_check p b st now = None \<and> cross_source p b (peer_mids p b peers now) = None"
  by (simp add: check_book_def split: option.splits)

lemma fst_validate [state_simps]:
  "fst (validate p qs b peers now) = fst (check_book p b (quality_of qs (ob_venue b)) peers now)"
  by (simp add: validate_def Let_def split_def)

lemma validate_other:
  "v \<noteq> ob_venue b \<Longrightarrow> quality_of (snd (validate p qs b peers now)) v = quality_of qs v"
  by (simp add: validate_def Let_def split_def)

lemma validate_counters [state_simps]:
  assumes "st = quality_of qs (ob_venue b)" and "v = quality_of (snd (validate p qs b peers now)) (ob_venue b)"
  shows "vq_accepted v + vq_rejected v = vq_accepted st + vq_rejected st + 1"
    and "vq_consecutive_rejections v =
      (if fst (validate p qs b peers now) = None then 0 else vq_consecutive_rejections st + 1)"
    and "vq_last_ts_ms st \<le> vq_last_ts_ms v"
    and "fst (validate p qs b peers now) = None \<Longrightarrow> vq_last_sequence v =
      (case ob_sequence b of Some s \<Rightarrow> Some s | None \<Rightarrow> vq_last_sequence st)"
    and "fst (validate p qs b peers now) \<noteq> None \<Longrightarrow> vq_last_sequence v = vq_last_sequence st"
  unfolding assms by (auto simp: validate_def Let_def split_def split: option.splits)

lemma is_unhealthy_iff: "0 < qp_consecutive_rejections_unhealthy p \<Longrightarrow>
    is_unhealthy p qs v \<longleftrightarrow> qp_consecutive_rejections_unhealthy p \<le> vq_consecutive_rejections (quality_of qs v)"
  by (simp add: is_unhealthy_def quality_of_def dget_def new_venue_quality_def split: option.split)

lemma basic_check_accept:
  assumes "basic_check p b st now = None"
  shows "is_valid b" "\<forall>lv \<in> set (take 5 (ob_bids b) @ take 5 (ob_asks b)). 0 < lv_price lv \<and> 0 < lv_amount lv"
    "ob_ts_ms b \<le> now + qp_max_future_skew_ms p" "now - ob_ts_ms b \<le> qp_max_age_ms p"
    "sequence_check b st = None" "\<forall>s. spread_pct b = Some s \<longrightarrow> s \<le> qp_max_spread_pct p"
  using assms
  by (auto simp: basic_check_def is_valid_def list_ex_iff not_le split: if_splits option.splits)

subsection \<open>A stream of books of one venue\<close>

type_synonym arrival = "order_book \<times> (string, order_book) dict \<times> int"

fun run_gate :: "quality_policy \<Rightarrow> quality_state \<Rightarrow> arrival list \<Rightarrow> message option list \<times> quality_state" where
  "run_gate p qs [] = ([], qs)"
| "run_gate p qs ((b, peers, now) # rest) =
     (let (r, qs1) = validate p qs b peers now; (rs, qs2) = run_gate p qs1 rest in (r # rs, qs2))"

definition trailing_rejections :: "message option list \<Rightarrow> nat" where
  "trailing_rejections rs = length (takeWhile (\<lambda>r. r \<noteq> None) (rev rs))"

lemma trailing_rejections_all: "None \<notin> set rs \<Longrightarrow> trailing_rejections rs = length rs"
proof -
  assume "None \<notin> set rs"
  then have "takeWhile (\<lambda>r. r \<noteq> None) (rev rs) = rev rs" by (intro takeWhile_eq_all_conv [THEN iffD2] ballI) (metis set_rev)
  then show ?thesis unfolding trailing_rejections_def by (simp only: length_rev)
qed

lemma run_gate_append:
  "run_gate p qs (xs @ ys) =
     (fst (run_gate p qs xs) @ fst (run_gate p (snd (run_gate p qs xs)) ys),
      snd (run_gate p (snd (run_gate p qs xs)) ys))"
  by (induction xs arbitrary: qs) (auto simp: Let_def split_def)

lemma run_gate_consecutive:
  assumes "\<forall>(b, _, _) \<in> set as. ob_venue b = v"
  shows "vq_consecutive_rejections (quality_of (snd (run_gate p [] as)) v) =
    int (trailing_rejections (fst (run_gate p [] as)))"
  using assms
proof (induction as rule: rev_induct)
  case Nil
  show ?case by (simp add: quality_of_def dget_def new_venue_quality_def trailing_rejections_def)
next
  case (snoc a as)
  obtain b peers now where a: "a = (b, peers, now)" by (cases a)
  let ?qs = "snd (run_gate p [] as)"
  have v: "ob_venue b = v" using snoc.prems a by simp
  have "vq_consecutive_rejections (quality_of (snd (validate p ?qs b peers now)) v) =
      (if fst (validate p ?qs b peers now) = None then 0
       else vq_consecutive_rejections (quality_of ?qs v) + 1)"
    using validate_counters(2) [OF refl refl, of p ?qs b peers now] v by simp
  with snoc show ?case
    by (simp add: run_gate_append a Let_def split_def trailing_rejections_def)
qed

subsection \<open>Properties\<close>

text \<open>A book the gate accepts is usable: both sides are present and not crossed, the best five
  levels of each side have positive price and size, its timestamp lies inside the allowed window
  around the local clock, its spread is inside the limit, and a sequence number it carries is
  larger than the last one accepted for its venue.\<close>

theorem validate_accept_sound:
  assumes "fst (validate p qs b peers now) = None"
  shows "is_valid b \<and>
    (\<forall>lv \<in> set (take 5 (ob_bids b) @ take 5 (ob_asks b)). 0 < lv_price lv \<and> 0 < lv_amount lv) \<and>
    ob_ts_ms b \<le> now + qp_max_future_skew_ms p \<and> now - ob_ts_ms b \<le> qp_max_age_ms p \<and>
    (\<forall>s. spread_pct b = Some s \<longrightarrow> s \<le> qp_max_spread_pct p) \<and>
    (\<forall>s l. ob_sequence b = Some s \<longrightarrow> vq_last_sequence (quality_of qs (ob_venue b)) = Some l \<longrightarrow> l < s)"
proof -
  have bc: "basic_check p b (quality_of qs (ob_venue b)) now = None"
    using assms by (simp add: fst_validate check_book_accept)
  have "l < s" if "ob_sequence b = Some s" "vq_last_sequence (quality_of qs (ob_venue b)) = Some l" for s l
    using basic_check_accept(5) [OF bc] that by (auto simp: sequence_check_def split: if_splits)
  with basic_check_accept [OF bc] show ?thesis by blast
qed

definition round_book :: order_book where
  "round_book = demo_book\<lparr>ob_asks := [\<lparr>lv_price = 101, lv_amount = 1\<rparr>]\<rparr>"

theorem validate_accept_sound_witness:
  "fst (validate default_policy [] round_book [] 1500) = None \<and> is_valid round_book"
proof -
  have "fst (validate default_policy [] round_book [] 1500) = None"
    by (simp add: fst_validate check_book_accept basic_check_def round_book_def demo_book_def default_policy_def
        is_crossed_def best_bid_def best_ask_def sequence_check_def quality_of_def dget_def
        new_venue_quality_def spread_pct_def mid_def pct_def dec_defs dround_eval cross_source_def
        peer_mids_def List.map_filter_def)
  with validate_accept_sound show ?thesis by blast
qed

text \<open>Health follows the run of rejections: fed any stream of books of one venue, the gate
  reports the venue unhealthy exactly when at least the configured number of the latest books in
  a row were rejected; one accepted book clears it.\<close>

theorem unhealthy_iff_trailing_rejections:
  assumes "\<forall>(b, _, _) \<in> set as. ob_venue b = v" and "0 < qp_consecutive_rejections_unhealthy p"
  shows "is_unhealthy p (snd (run_gate p [] as)) v \<longleftrightarrow>
    qp_consecutive_rejections_unhealthy p \<le> int (trailing_rejections (fst (run_gate p [] as)))"
  using run_gate_consecutive [OF assms(1)] by (simp add: is_unhealthy_iff [OF assms(2)])

definition empty_book :: order_book where
  "empty_book = demo_book\<lparr>ob_bids := []\<rparr>"

theorem unhealthy_iff_trailing_rejections_witness:
  "is_unhealthy default_policy (snd (run_gate default_policy [] (replicate 5 (empty_book, [], 0)))) ''kraken''"
proof -
  have r: "fst (validate p qs empty_book [] 0) \<noteq> None" for p qs
    by (simp add: fst_validate check_book_def basic_check_def empty_book_def split: option.splits)
  have "None \<notin> set (fst (run_gate p qs (replicate n (empty_book, [], 0))))" for p qs n
    by (induction n arbitrary: qs) (use r [of p] in \<open>auto simp: Let_def split_def eq_commute [of None]\<close>)
  moreover have "length (fst (run_gate p qs (replicate n (empty_book, [], 0)))) = n" for p qs n
    by (induction n arbitrary: qs) (auto simp: Let_def split_def)
  ultimately have t: "trailing_rejections (fst (run_gate default_policy [] (replicate 5 (empty_book, [], 0)))) = 5"
    using trailing_rejections_all [of "fst (run_gate default_policy [] (replicate 5 (empty_book, [], 0)))"]
    by presburger
  have "qp_consecutive_rejections_unhealthy default_policy = 5" by (simp add: default_policy_def)
  moreover have "is_unhealthy default_policy (snd (run_gate default_policy [] (replicate 5 (empty_book, [], 0)))) ''kraken'' \<longleftrightarrow>
      qp_consecutive_rejections_unhealthy default_policy \<le>
        int (trailing_rejections (fst (run_gate default_policy [] (replicate 5 (empty_book, [], 0)))))"
    by (rule unhealthy_iff_trailing_rejections) (auto simp: empty_book_def demo_book_def default_policy_def)
  ultimately show ?thesis using t by presburger
qed

end
