(* ===== verification/Settings.thy ===== *)
theory Settings
  imports Domain
begin

text \<open>
  Model of \<^verbatim>\<open>backend/fedr/config/schema.py\<close>: the settings document the engines consume, its
  defaults, the validators of the live-activation state and of the pair list, the risk profiles
  and \<open>default_settings\<close>. Every section is a record with the fields of its class.
\<close>

subsection \<open>The sections\<close>

record general_settings =
  gs_mode :: trading_mode
  gs_shadow_mode :: bool
  gs_risk_profile :: risk_profile
  gs_advanced_mode :: bool
  gs_pairs :: "string list"
  gs_quote_assets :: "string list"
  gs_dexes :: "string list"
  gs_scan_interval_ms :: int
  gs_bot_enabled :: bool

record trading_settings =
  ts_auto_execute :: bool
  ts_max_trade_size_usd :: decimal
  ts_min_trade_size_usd :: decimal
  ts_min_profit_usd :: decimal
  ts_min_worst_case_profit_usd :: decimal
  ts_min_roi_pct :: decimal
  ts_max_quote_age_ms :: int
  ts_max_risk_score :: int
  ts_safety_buffer_pct :: decimal
  ts_latency_allowance_pct :: decimal
  ts_partial_fill_allowance_pct :: decimal
  ts_failure_reserve_pct :: decimal
  ts_rebalance_allowance_pct :: decimal
  ts_stablecoin_equivalence :: bool
  ts_stablecoin_haircut_pct :: decimal
  ts_worst_case_slippage_multiplier :: decimal
  ts_worst_case_fee_multiplier :: decimal
  ts_execution_timeout_ms :: int
  ts_leg_price_tolerance_pct :: decimal
  ts_unknown_fee_fallback_pct :: "decimal option"

record risk_settings =
  rs_max_capital_usage_pct :: decimal
  rs_max_exchange_exposure_pct :: decimal
  rs_max_chain_exposure_pct :: decimal
  rs_max_asset_exposure_pct :: decimal
  rs_max_daily_loss_usd :: decimal
  rs_max_concurrent_trades :: int
  rs_max_unhedged_seconds :: int
  rs_max_slippage_pct :: decimal
  rs_max_gas_usd :: decimal
  rs_max_quote_age_ms :: int
  rs_max_failed_trades_per_hour :: int
  rs_max_flash_loan_usd :: decimal
  rs_max_flash_loan_gas_usd :: decimal
  rs_allow_degraded_venues :: bool
  rs_max_prediction_error_pct :: decimal
  rs_rapid_move_pct :: decimal
  rs_emergency_reserve_usd :: decimal
  rs_inventory_reserve_pct :: decimal
  rs_leverage_allowed :: bool
  rs_auto_bridging_allowed :: bool
  rs_asset_allowlist :: "string list"

record strategy_settings =
  ss_cex_cex :: bool
  ss_cex_dex :: bool
  ss_dex_dex :: bool
  ss_spot_perp :: bool
  ss_funding :: bool
  ss_basis :: bool
  ss_flash_loan :: bool

record gas_settings =
  gas_max_gas_per_trade_usd :: decimal
  gas_max_gas_pct_of_gross :: decimal
  gas_min_profit_after_gas_usd :: decimal
  gas_stress_multiplier :: decimal
  gas_max_priority_fee_gwei :: decimal
  gas_max_gas_price_gwei :: decimal
  gas_max_priority_fee_lamports :: int
  gas_elevated_multiple :: decimal
  gas_high_multiple :: decimal
  gas_extreme_multiple :: decimal
  gas_elevated_profit_multiplier :: decimal
  gas_gas_reserve :: "(string, decimal) dict"
  gas_unknown_gas_policy :: string
  gas_conservative_gas_fallback_usd :: decimal

record slippage_settings =
  sl_default_max_pct :: decimal
  sl_per_asset_max_pct :: "(string, decimal) dict"
  sl_per_venue_max_pct :: "(string, decimal) dict"
  sl_per_route_max_pct :: "(string, decimal) dict"
  sl_size_tiers :: "(decimal \<times> decimal) list"
  sl_dex_slippage_tolerance_pct :: decimal

record flash_loan_settings =
  fls_enabled :: bool
  fls_provider :: string
  fls_max_loan_usd :: decimal
  fls_min_net_profit_usd :: decimal
  fls_max_gas_usd :: decimal
  fls_max_gas_pct_of_gross :: decimal
  fls_max_slippage_bps :: int
  fls_min_profit_gas_ratio :: decimal
  fls_require_simulation :: bool
  fls_require_atomic :: bool
  fls_mev_aware :: bool
  fls_mev_reserve_pct :: decimal
  fls_chains :: "string list"

record paper_settings =
  ps_starting_balances :: "(string, (string, decimal) dict) dict"
  ps_stress_multiplier :: decimal
  ps_latency_ms :: int
  ps_latency_jitter_ms :: int
  ps_partial_fill_probability :: decimal
  ps_failure_probability :: decimal
  ps_quote_drift_pct :: decimal
  ps_fill_ratio_on_partial :: decimal

record rebalance_settings =
  rb_recommendations_enabled :: bool
  rb_min_net_benefit_usd :: decimal
  rb_imbalance_threshold_pct :: decimal
  rb_lookback_hours :: int

record mev_settings =
  mev_enabled :: bool
  mev_evm_private_submission :: bool
  mev_solana_jito :: bool
  mev_max_tip_usd :: decimal

record security_settings =
  sec_withdrawal_allowlist :: "(string, string) dict list"
  sec_require_allowlist_for_withdrawals :: bool
  sec_new_address_delay_minutes :: int
  sec_wallet_backup_confirmed :: bool
  sec_session_timeout_minutes :: int

record advanced_settings =
  as_websocket_market_data :: bool
  as_rest_poll_interval_ms :: int
  as_orderbook_depth :: int
  as_opportunity_ttl_ms :: int
  as_max_opportunities_kept :: int
  as_reconciliation_interval_s :: int
  as_health_check_interval_s :: int
  as_experience_learning_enabled :: bool
  as_experience_max_extra_buffer_pct :: decimal
  as_log_level :: string
  as_connector_timeout_s :: rat

record live_activation =
  la_activated :: bool
  la_activated_at :: "string option"
  la_activated_by :: "string option"
  la_confirmation_phrase_hash :: "string option"
  la_paper_completed :: bool
  la_shadow_reviewed :: bool
  la_stage :: string
  la_small_test_strategy :: string
  la_small_test_route :: "string option"
  la_full_activated_at :: "string option"

record app_settings =
  s_version :: int
  s_general :: general_settings
  s_trading :: trading_settings
  s_risk :: risk_settings
  s_strategies :: strategy_settings
  s_gas :: gas_settings
  s_slippage :: slippage_settings
  s_flash_loan :: flash_loan_settings
  s_paper :: paper_settings
  s_rebalance :: rebalance_settings
  s_mev :: mev_settings
  s_security :: security_settings
  s_advanced :: advanced_settings
  s_live :: live_activation

subsection \<open>Defaults\<close>

definition general_defaults :: general_settings where
  "general_defaults = \<lparr>gs_mode = PAPER, gs_shadow_mode = False, gs_risk_profile = CONSERVATIVE,
     gs_advanced_mode = False,
     gs_pairs = [''BTC/USDC'', ''ETH/USDC'', ''SOL/USDC'', ''BTC/USDT'', ''ETH/USDT'', ''SOL/USDT''],
     gs_quote_assets = [''USDC'', ''USDT'', ''USD''],
     gs_dexes = [''jupiter'', ''uniswap-base'', ''uniswap-arbitrum''],
     gs_scan_interval_ms = 1500, gs_bot_enabled = True\<rparr>"

definition trading_defaults :: trading_settings where
  "trading_defaults = \<lparr>ts_auto_execute = True, ts_max_trade_size_usd = 250,
     ts_min_trade_size_usd = 20, ts_min_profit_usd = 2, ts_min_worst_case_profit_usd = 50/100,
     ts_min_roi_pct = 15/100, ts_max_quote_age_ms = 3000, ts_max_risk_score = 60,
     ts_safety_buffer_pct = 5/100, ts_latency_allowance_pct = 3/100,
     ts_partial_fill_allowance_pct = 2/100, ts_failure_reserve_pct = 2/100,
     ts_rebalance_allowance_pct = 3/100, ts_stablecoin_equivalence = False,
     ts_stablecoin_haircut_pct = 5/100, ts_worst_case_slippage_multiplier = 2,
     ts_worst_case_fee_multiplier = 125/100, ts_execution_timeout_ms = 8000,
     ts_leg_price_tolerance_pct = 10/100, ts_unknown_fee_fallback_pct = None\<rparr>"

definition risk_defaults :: risk_settings where
  "risk_defaults = \<lparr>rs_max_capital_usage_pct = 50, rs_max_exchange_exposure_pct = 40,
     rs_max_chain_exposure_pct = 40, rs_max_asset_exposure_pct = 40, rs_max_daily_loss_usd = 50,
     rs_max_concurrent_trades = 1, rs_max_unhedged_seconds = 30, rs_max_slippage_pct = 30/100,
     rs_max_gas_usd = 2, rs_max_quote_age_ms = 3000, rs_max_failed_trades_per_hour = 3,
     rs_max_flash_loan_usd = 25000, rs_max_flash_loan_gas_usd = 5, rs_allow_degraded_venues = False,
     rs_max_prediction_error_pct = 50/100, rs_rapid_move_pct = 2, rs_emergency_reserve_usd = 200,
     rs_inventory_reserve_pct = 10, rs_leverage_allowed = False, rs_auto_bridging_allowed = False,
     rs_asset_allowlist = [''BTC'', ''ETH'', ''SOL'', ''USDC'', ''USDT'', ''USD'']\<rparr>"

definition strategy_defaults :: strategy_settings where
  "strategy_defaults = \<lparr>ss_cex_cex = True, ss_cex_dex = True, ss_dex_dex = False,
     ss_spot_perp = False, ss_funding = False, ss_basis = False, ss_flash_loan = False\<rparr>"

definition gas_defaults :: gas_settings where
  "gas_defaults = \<lparr>gas_max_gas_per_trade_usd = 2, gas_max_gas_pct_of_gross = 10,
     gas_min_profit_after_gas_usd = 1, gas_stress_multiplier = 15/10,
     gas_max_priority_fee_gwei = 3, gas_max_gas_price_gwei = 60,
     gas_max_priority_fee_lamports = 200000, gas_elevated_multiple = 15/10,
     gas_high_multiple = 25/10, gas_extreme_multiple = 4, gas_elevated_profit_multiplier = 15/10,
     gas_gas_reserve =
       [(''solana'', 5/100), (''ethereum'', 1/100), (''base'', 3/1000), (''arbitrum'', 3/1000),
        (''optimism'', 3/1000), (''polygon'', 5), (''bsc'', 2/100), (''avalanche'', 2/10)],
     gas_unknown_gas_policy = ''block'', gas_conservative_gas_fallback_usd = 5\<rparr>"

definition slippage_defaults :: slippage_settings where
  "slippage_defaults = \<lparr>sl_default_max_pct = 30/100,
     sl_per_asset_max_pct = [(''BTC'', 15/100), (''ETH'', 20/100)],
     sl_per_venue_max_pct = [], sl_per_route_max_pct = [],
     sl_size_tiers = [(100, 50/100), (1000, 30/100), (10000, 15/100)],
     sl_dex_slippage_tolerance_pct = 50/100\<rparr>"

definition flash_loan_defaults :: flash_loan_settings where
  "flash_loan_defaults = \<lparr>fls_enabled = False, fls_provider = ''auto'', fls_max_loan_usd = 25000,
     fls_min_net_profit_usd = 10, fls_max_gas_usd = 2, fls_max_gas_pct_of_gross = 10,
     fls_max_slippage_bps = 30, fls_min_profit_gas_ratio = 5, fls_require_simulation = True,
     fls_require_atomic = True, fls_mev_aware = True, fls_mev_reserve_pct = 5/100,
     fls_chains = [''ethereum'', ''arbitrum'', ''base'', ''optimism'', ''polygon'']\<rparr>"

definition paper_defaults :: paper_settings where
  "paper_defaults =
     (let cex = [(''USDC'', 1200), (''USDT'', 300), (''BTC'', 4/1000), (''ETH'', 12/100), (''SOL'', 25/10)]
      in \<lparr>ps_starting_balances =
            [(''kraken'', cex), (''coinbase'', cex), (''binance'', cex),
             (''solana'', [(''USDC'', 1000), (''USDT'', 200), (''SOL'', 4)]),
             (''base'', [(''USDC'', 600), (''USDT'', 100), (''ETH'', 9/100)]),
             (''arbitrum'', [(''USDC'', 600), (''USDT'', 100), (''ETH'', 9/100)])],
          ps_stress_multiplier = 2, ps_latency_ms = 250, ps_latency_jitter_ms = 150,
          ps_partial_fill_probability = 5/100, ps_failure_probability = 2/100,
          ps_quote_drift_pct = 2/100, ps_fill_ratio_on_partial = 6/10\<rparr>)"

definition rebalance_defaults :: rebalance_settings where
  "rebalance_defaults = \<lparr>rb_recommendations_enabled = True, rb_min_net_benefit_usd = 5,
     rb_imbalance_threshold_pct = 30, rb_lookback_hours = 24\<rparr>"

definition mev_defaults :: mev_settings where
  "mev_defaults = \<lparr>mev_enabled = True, mev_evm_private_submission = True, mev_solana_jito = False,
     mev_max_tip_usd = 50/100\<rparr>"

definition security_defaults :: security_settings where
  "security_defaults = \<lparr>sec_withdrawal_allowlist = [], sec_require_allowlist_for_withdrawals = True,
     sec_new_address_delay_minutes = 60, sec_wallet_backup_confirmed = False,
     sec_session_timeout_minutes = 240\<rparr>"

definition advanced_defaults :: advanced_settings where
  "advanced_defaults = \<lparr>as_websocket_market_data = True, as_rest_poll_interval_ms = 2000,
     as_orderbook_depth = 50, as_opportunity_ttl_ms = 5000, as_max_opportunities_kept = 200,
     as_reconciliation_interval_s = 30, as_health_check_interval_s = 15,
     as_experience_learning_enabled = True, as_experience_max_extra_buffer_pct = 25/100,
     as_log_level = ''INFO'', as_connector_timeout_s = 10\<rparr>"

definition live_defaults :: live_activation where
  "live_defaults = \<lparr>la_activated = False, la_activated_at = None, la_activated_by = None,
     la_confirmation_phrase_hash = None, la_paper_completed = False, la_shadow_reviewed = False,
     la_stage = ''small_test'', la_small_test_strategy = ''cex_cex'', la_small_test_route = None,
     la_full_activated_at = None\<rparr>"

definition app_defaults :: app_settings where
  "app_defaults = \<lparr>s_version = 1, s_general = general_defaults, s_trading = trading_defaults,
     s_risk = risk_defaults, s_strategies = strategy_defaults, s_gas = gas_defaults,
     s_slippage = slippage_defaults, s_flash_loan = flash_loan_defaults, s_paper = paper_defaults,
     s_rebalance = rebalance_defaults, s_mev = mev_defaults, s_security = security_defaults,
     s_advanced = advanced_defaults, s_live = live_defaults\<rparr>"

subsection \<open>Validators\<close>

definition upper_char :: "char \<Rightarrow> char" where
  "upper_char c = (let n = (of_char c :: nat) in if 97 \<le> n \<and> n \<le> 122 then char_of (n - 32) else c)"

fun norm_pairs_from :: "string list \<Rightarrow> string list \<Rightarrow> string list" where
  "norm_pairs_from out [] = out"
| "norm_pairs_from out (p # ps) =
     (let p' = map upper_char (strip p) in
      norm_pairs_from (if CHR ''/'' \<in> set p' \<and> p' \<notin> set out then out @ [p'] else out) ps)"

definition norm_pairs :: "string list \<Rightarrow> string list" where
  "norm_pairs v = norm_pairs_from [] v"

definition validate_stage :: "string \<Rightarrow> string result" where
  "validate_stage v = (if v \<in> {''small_test'', ''full''} then Inr v else Inl ValueError)"

definition validate_small_test_strategy :: "string \<Rightarrow> string result" where
  "validate_small_test_strategy v =
     (if v \<in> {''cex_cex'', ''cex_dex'', ''dex_dex'', ''spot_perp'', ''funding'', ''basis''}
      then Inr v else Inl ValueError)"

definition enabled_strategies :: "strategy_settings \<Rightarrow> string list" where
  "enabled_strategies s =
     map fst (filter snd
       [(''cex_cex'', ss_cex_cex s), (''cex_dex'', ss_cex_dex s), (''dex_dex'', ss_dex_dex s),
        (''spot_perp'', ss_spot_perp s), (''funding'', ss_funding s), (''basis'', ss_basis s),
        (''flash_loan'', ss_flash_loan s)])"

subsection \<open>Risk profiles\<close>

definition conservative_profile :: "app_settings \<Rightarrow> app_settings" where
  "conservative_profile s = s\<lparr>
     s_trading := (s_trading s)\<lparr>ts_max_trade_size_usd := 250, ts_min_profit_usd := 2,
       ts_min_worst_case_profit_usd := 50/100, ts_min_roi_pct := 15/100, ts_max_quote_age_ms := 3000,
       ts_max_risk_score := 60, ts_safety_buffer_pct := 5/100, ts_worst_case_slippage_multiplier := 2\<rparr>,
     s_risk := (s_risk s)\<lparr>rs_max_capital_usage_pct := 50, rs_max_exchange_exposure_pct := 40,
       rs_max_chain_exposure_pct := 40, rs_max_asset_exposure_pct := 40, rs_max_daily_loss_usd := 50,
       rs_max_concurrent_trades := 1, rs_max_slippage_pct := 30/100, rs_max_gas_usd := 2,
       rs_max_failed_trades_per_hour := 3, rs_allow_degraded_venues := False\<rparr>,
     s_gas := (s_gas s)\<lparr>gas_max_gas_per_trade_usd := 2, gas_max_gas_pct_of_gross := 10,
       gas_stress_multiplier := 15/10\<rparr>\<rparr>"

definition balanced_profile :: "app_settings \<Rightarrow> app_settings" where
  "balanced_profile s = s\<lparr>
     s_trading := (s_trading s)\<lparr>ts_max_trade_size_usd := 1000, ts_min_profit_usd := 3,
       ts_min_worst_case_profit_usd := 1, ts_min_roi_pct := 10/100, ts_max_quote_age_ms := 4000,
       ts_max_risk_score := 70, ts_safety_buffer_pct := 4/100,
       ts_worst_case_slippage_multiplier := 175/100\<rparr>,
     s_risk := (s_risk s)\<lparr>rs_max_capital_usage_pct := 70, rs_max_exchange_exposure_pct := 50,
       rs_max_chain_exposure_pct := 50, rs_max_asset_exposure_pct := 50, rs_max_daily_loss_usd := 150,
       rs_max_concurrent_trades := 2, rs_max_slippage_pct := 40/100, rs_max_gas_usd := 4,
       rs_max_failed_trades_per_hour := 5, rs_allow_degraded_venues := False\<rparr>,
     s_gas := (s_gas s)\<lparr>gas_max_gas_per_trade_usd := 4, gas_max_gas_pct_of_gross := 15,
       gas_stress_multiplier := 15/10\<rparr>\<rparr>"

fun apply_risk_profile :: "app_settings \<Rightarrow> risk_profile \<Rightarrow> app_settings" where
  "apply_risk_profile s CUSTOM = s\<lparr>s_general := (s_general s)\<lparr>gs_risk_profile := CUSTOM\<rparr>\<rparr>"
| "apply_risk_profile s CONSERVATIVE =
     conservative_profile (s\<lparr>s_general := (s_general s)\<lparr>gs_risk_profile := CONSERVATIVE\<rparr>\<rparr>)"
| "apply_risk_profile s BALANCED =
     balanced_profile (s\<lparr>s_general := (s_general s)\<lparr>gs_risk_profile := BALANCED\<rparr>\<rparr>)"

definition parse_mode :: "string \<Rightarrow> trading_mode option" where
  "parse_mode m = find (\<lambda>x. mode_value x = m) [SIMULATION, PAPER, TESTNET, LIVE]"

definition default_settings :: "string \<Rightarrow> app_settings" where
  "default_settings default_mode =
     (let mode = (case parse_mode default_mode of Some m \<Rightarrow> m | None \<Rightarrow> PAPER);
          mode' = (if mode = LIVE then PAPER else mode);
          s = app_defaults\<lparr>s_general := general_defaults\<lparr>gs_mode := mode'\<rparr>\<rparr>
      in apply_risk_profile s CONSERVATIVE)"

subsection \<open>Properties\<close>

text \<open>A fresh installation never starts live: whatever default mode the environment names, the
  settings are in another mode with the conservative profile, live trading is not activated and
  still in the small test stage, and flash loans are switched off.\<close>

theorem default_settings_safe:
  "gs_mode (s_general (default_settings m)) \<noteq> LIVE \<and>
   gs_risk_profile (s_general (default_settings m)) = CONSERVATIVE \<and>
   \<not> la_activated (s_live (default_settings m)) \<and> la_stage (s_live (default_settings m)) = ''small_test'' \<and>
   \<not> fls_enabled (s_flash_loan (default_settings m)) \<and> \<not> ss_flash_loan (s_strategies (default_settings m))"
  by (simp add: default_settings_def conservative_profile_def app_defaults_def live_defaults_def
      flash_loan_defaults_def strategy_defaults_def Let_def)

text \<open>The balanced profile raises the quote age of the trading section only; both engines use the
  minimum with the risk section, which the profile leaves alone, so the raise has no effect.\<close>

theorem balanced_quote_age_ineffective:
  "ts_max_quote_age_ms (s_trading (apply_risk_profile (default_settings m) BALANCED)) = 4000 \<and>
   min (ts_max_quote_age_ms (s_trading (apply_risk_profile (default_settings m) BALANCED)))
       (rs_max_quote_age_ms (s_risk (apply_risk_profile (default_settings m) BALANCED))) =
   min (ts_max_quote_age_ms (s_trading (apply_risk_profile (default_settings m) CONSERVATIVE)))
       (rs_max_quote_age_ms (s_risk (apply_risk_profile (default_settings m) CONSERVATIVE)))"
  by (simp add: default_settings_def conservative_profile_def balanced_profile_def app_defaults_def
      risk_defaults_def Let_def)

end
