(* ===== verification/Leg_Guards.thy ===== *)
theory Leg_Guards
  imports Settings
begin

text \<open>
  The two small guards on the legs of an opportunity: \<^verbatim>\<open>backend/fedr/engine/slippage_guard.py\<close>
  (the limit on slippage and price impact for an asset, a venue, a route and a size) and
  \<^verbatim>\<open>backend/fedr/engine/latency_guard.py\<close> (the stage timestamps of a trade and the rejection of
  stale quotes).
\<close>

subsection \<open>Slippage guard\<close>

definition cap_by :: "(string, decimal) dict \<Rightarrow> string \<Rightarrow> decimal \<Rightarrow> decimal" where
  \<comment> \<open>\<open>if k in d: limit = min(limit, D(d[k]))\<close>\<close>
  "cap_by d k limit = (case map_of d k of None \<Rightarrow> limit | Some v \<Rightarrow> min limit v)"

definition tier_limit_for :: "(decimal \<times> decimal) list \<Rightarrow> decimal \<Rightarrow> decimal option" where
  "tier_limit_for tiers notional =
     (case find (\<lambda>(threshold, _). notional \<le> threshold) (sort_key fst tiers) of
        Some (_, tier) \<Rightarrow> Some tier
      | None \<Rightarrow> if tiers = [] then None else Some (Min (set (map snd tiers))))"

definition slippage_limit_for ::
  "slippage_settings \<Rightarrow> string \<Rightarrow> string \<Rightarrow> string \<Rightarrow> decimal \<Rightarrow> decimal" where
  "slippage_limit_for s asset venue route notional =
     (let limit = cap_by (sl_per_route_max_pct s) route
            (cap_by (sl_per_venue_max_pct s) venue
              (cap_by (sl_per_asset_max_pct s) asset (sl_default_max_pct s)))
      in case tier_limit_for (sl_size_tiers s) notional of
           None \<Rightarrow> limit
         | Some t \<Rightarrow> min limit t)"

definition slippage_check ::
  "slippage_settings \<Rightarrow> execution_quote \<Rightarrow> string \<Rightarrow> decimal \<Rightarrow> string \<Rightarrow> message list" where
  "slippage_check s leg route notional asset =
     (let limit = slippage_limit_for s asset (eq_venue leg) route notional;
          effective = dadd (eq_slippage_pct leg) (eq_price_impact_pct leg)
      in reason_if (limit < effective)
           (Msg ''slippage+impact exceeds limit''
              [AStr (eq_venue leg), AStr (if eq_side leg = BUY then ''buy'' else ''sell''),
               ADec effective, ADec limit]))"

subsection \<open>Latency guard\<close>

record timeline =
  tl_market_data_ts_ms :: int
  tl_quote_ts_ms :: int
  tl_decision_ts_ms :: int
  tl_submission_ts_ms :: int
  tl_fill_ts_ms :: int
  tl_notes :: "string list"

definition mark_decision :: "int \<Rightarrow> timeline \<Rightarrow> timeline" where
  "mark_decision now t = t\<lparr>tl_decision_ts_ms := now\<rparr>"

definition mark_submission :: "int \<Rightarrow> timeline \<Rightarrow> timeline" where
  "mark_submission now t = t\<lparr>tl_submission_ts_ms := now\<rparr>"

definition mark_fill :: "int \<Rightarrow> timeline \<Rightarrow> timeline" where
  "mark_fill now t = t\<lparr>tl_fill_ts_ms := now\<rparr>"

definition timeline_as_dict :: "timeline \<Rightarrow> (string, int) dict" where
  "timeline_as_dict t =
     [(''market_data_ts_ms'', tl_market_data_ts_ms t), (''quote_ts_ms'', tl_quote_ts_ms t),
      (''decision_ts_ms'', tl_decision_ts_ms t), (''submission_ts_ms'', tl_submission_ts_ms t),
      (''fill_ts_ms'', tl_fill_ts_ms t),
      (''data_to_decision_ms'',
         if tl_decision_ts_ms t \<noteq> 0 then tl_decision_ts_ms t - tl_market_data_ts_ms t else 0),
      (''decision_to_submit_ms'',
         if tl_submission_ts_ms t \<noteq> 0 then tl_submission_ts_ms t - tl_decision_ts_ms t else 0),
      (''submit_to_fill_ms'',
         if tl_fill_ts_ms t \<noteq> 0 then tl_fill_ts_ms t - tl_submission_ts_ms t else 0)]"

definition timeline_for :: "execution_quote list \<Rightarrow> timeline result" where
  \<comment> \<open>\<open>min\<close> of no legs raises\<close>
  "timeline_for legs =
     (if legs = [] then Inl ValueError
      else Inr \<lparr>tl_market_data_ts_ms = Min (set (map eq_market_ts_ms legs)),
                tl_quote_ts_ms = Min (set (map eq_quote_ts_ms legs)),
                tl_decision_ts_ms = 0, tl_submission_ts_ms = 0, tl_fill_ts_ms = 0, tl_notes = []\<rparr>)"

definition latency_check :: "int \<Rightarrow> execution_quote list \<Rightarrow> int option \<Rightarrow> int \<Rightarrow> message list" where
  "latency_check max_age legs at_ms now =
     (let t0 = (case at_ms of Some a \<Rightarrow> if a = 0 then now else a | None \<Rightarrow> now)
      in concat (map (\<lambda>leg.
           let age = t0 - min (eq_market_ts_ms leg) (eq_quote_ts_ms leg) in
           reason_if (max_age < age)
             (Msg ''quote is old'' [AStr (eq_venue leg), AInt age, AInt max_age])) legs))"

subsection \<open>Lemmas\<close>

lemma cap_by_le: "cap_by d k l \<le> l"
  by (simp add: cap_by_def split: option.split)

lemma cap_by_mono: "l \<le> l' \<Longrightarrow> cap_by d k l \<le> cap_by d k l'"
  by (auto simp: cap_by_def split: option.split)

lemma cap_by_entry: "map_of d k = Some v \<Longrightarrow> cap_by d k l \<le> v"
  by (simp add: cap_by_def)

lemma slippage_limit_le_caps:
  "slippage_limit_for s a v r n \<le> cap_by (sl_per_route_max_pct s) r
     (cap_by (sl_per_venue_max_pct s) v (cap_by (sl_per_asset_max_pct s) a (sl_default_max_pct s)))"
  by (auto simp: slippage_limit_for_def Let_def split: option.split)

lemma find_sorted_first:
  assumes "find P (sort_key f xs) = Some x"
  shows "x \<in> set xs \<and> P x \<and> (\<forall>y \<in> set xs. P y \<longrightarrow> f x \<le> f y)"
proof -
  from assms obtain i where i: "i < length (sort_key f xs)" "P (sort_key f xs ! i)" "x = sort_key f xs ! i"
    and first: "\<forall>j < i. \<not> P (sort_key f xs ! j)"
    by (auto simp: find_Some_iff)
  have "f x \<le> f y" if y: "y \<in> set xs" "P y" for y
  proof -
    from y(1) obtain j where j: "j < length (sort_key f xs)" "y = sort_key f xs ! j"
      by (metis in_set_conv_nth set_sort)
    with y(2) first have "i \<le> j" by (metis not_le)
    then show ?thesis
      using sorted_nth_mono [of "map f (sort_key f xs)" i j] i j by simp
  qed
  with i show ?thesis by (metis nth_mem set_sort)
qed

lemma tier_limit_cases:
  assumes "tier_limit_for tiers n = Some t"
  obtains (tier) th where "(th, t) \<in> set tiers" "n \<le> th"
      "\<forall>(th', t') \<in> set tiers. n \<le> th' \<longrightarrow> th \<le> th'"
    | (beyond) "\<forall>(th', t') \<in> set tiers. th' < n \<and> t \<le> t'"
proof (cases "find (\<lambda>(threshold, _). n \<le> threshold) (sort_key fst tiers)")
  case None
  then have "\<forall>(th', t') \<in> set tiers. th' < n" by (auto simp: find_None_iff not_le)
  moreover have "t = Min (set (map snd tiers))"
    using assms None by (simp add: tier_limit_for_def split: if_splits)
  ultimately show ?thesis by (intro beyond) (auto intro!: Min_le image_eqI [of _ snd])
next
  case (Some p)
  then have "t = snd p" using assms by (simp add: tier_limit_for_def split: prod.splits)
  with find_sorted_first [OF Some] show ?thesis by (intro tier [of "fst p"]) (auto split: prod.splits)
qed

lemma tier_limit_in: "tier_limit_for tiers n = Some t \<Longrightarrow> t \<in> snd ` set tiers"
proof -
  assume t: "tier_limit_for tiers n = Some t"
  show ?thesis
  proof (cases "find (\<lambda>(threshold, _). n \<le> threshold) (sort_key fst tiers)")
    case None
    with t have "tiers \<noteq> []" "t = Min (snd ` set tiers)" by (auto simp: tier_limit_for_def split: if_splits)
    then show ?thesis using Min_in [of "snd ` set tiers"] by simp
  next
    case (Some p)
    with t find_sorted_first [OF Some] show ?thesis
      by (auto simp: tier_limit_for_def split: prod.splits intro: rev_image_eqI)
  qed
qed

lemma tier_limit_antimono:
  assumes anti: "\<forall>(th, t) \<in> set tiers. \<forall>(th', t') \<in> set tiers. th \<le> th' \<longrightarrow> t' \<le> t"
    and "n \<le> n'" and "tier_limit_for tiers n = Some t" and "tier_limit_for tiers n' = Some t'"
  shows "t' \<le> t"
  using assms(4)
proof (cases rule: tier_limit_cases)
  case (tier th')
  note t' = this
  from assms(3) show ?thesis
  proof (cases rule: tier_limit_cases)
    case (tier th)
    have "th \<le> th'" using tier t' assms(2) by fastforce
    with anti tier(1) t'(1) show ?thesis by fastforce
  next
    case beyond
    with t' assms(2) show ?thesis by fastforce
  qed
next
  case beyond
  note b = this
  from assms(3) show ?thesis
  proof (cases rule: tier_limit_cases)
    case (tier th)
    with b show ?thesis by fastforce
  next
    case beyond
    from tier_limit_in [OF assms(3)] b show ?thesis by fastforce
  qed
qed

lemma tier_limit_None_iff: "tier_limit_for tiers n = None \<longleftrightarrow> tiers = []"
  by (auto simp: tier_limit_for_def split: option.splits)

lemma latency_check_Nil_iff:
  "latency_check m legs None now = [] \<longleftrightarrow> (\<forall>leg \<in> set legs. eq_age_ms leg now \<le> m)"
  by (auto simp: latency_check_def eq_age_ms_def Let_def not_less)

subsection \<open>Properties\<close>

text \<open>A leg that passes the slippage guard has slippage plus price impact within the default
  limit and within every limit configured for its asset, its venue and its route.\<close>

theorem slippage_check_sound:
  assumes "slippage_check s leg route notional asset = []"
  shows "dadd (eq_slippage_pct leg) (eq_price_impact_pct leg) \<le> sl_default_max_pct s \<and>
    (\<forall>l. map_of (sl_per_asset_max_pct s) asset = Some l \<or> map_of (sl_per_venue_max_pct s) (eq_venue leg) = Some l \<or>
         map_of (sl_per_route_max_pct s) route = Some l \<longrightarrow>
       dadd (eq_slippage_pct leg) (eq_price_impact_pct leg) \<le> l)"
proof -
  have e: "dadd (eq_slippage_pct leg) (eq_price_impact_pct leg) \<le>
      cap_by (sl_per_route_max_pct s) route (cap_by (sl_per_venue_max_pct s) (eq_venue leg)
        (cap_by (sl_per_asset_max_pct s) asset (sl_default_max_pct s)))"
    using assms slippage_limit_le_caps [of s asset "eq_venue leg" route notional]
    by (simp add: slippage_check_def Let_def not_less)
  then show ?thesis
    using cap_by_le cap_by_entry by (meson order_trans)
qed

definition calm_leg :: execution_quote where
  "calm_leg = \<lparr>eq_venue = ''kraken'', eq_kind = CEX, eq_symbol = ''BTC/USDC'', eq_side = BUY,
     eq_base_amount = 1, eq_quote_amount = 100, eq_avg_price = 100, eq_reference_price = 100,
     eq_slippage_pct = 1/10, eq_price_impact_pct = 0, eq_fully_fillable = True,
     eq_market_ts_ms = 1000, eq_quote_ts_ms = 1000, eq_fee_pct = Some (26/100),
     eq_fee_source = ''api'', eq_fee_in_quote = None, eq_gas_cost_usd = None, eq_gas_limit = None,
     eq_gas_price_native = None, eq_priority_fee_usd = 0, eq_min_received = None,
     eq_route = ''orderbook'', eq_quote_id = None, eq_chain = None, eq_levels_consumed = 1,
     eq_depth_available_base = 4, eq_is_maker = False, eq_extra_taker_fee_pct = None\<rparr>"

theorem slippage_check_sound_witness:
  "slippage_check slippage_defaults calm_leg ''r'' 100 ''BTC'' = [] \<and>
   dadd (eq_slippage_pct calm_leg) (eq_price_impact_pct calm_leg) \<le> 15/100"
proof -
  have c: "slippage_check slippage_defaults calm_leg ''r'' 100 ''BTC'' = []"
    by (simp add: slippage_check_def slippage_limit_for_def slippage_defaults_def calm_leg_def
        cap_by_def tier_limit_for_def dec_defs dround_eval sort_key_def insort_key_def)
  moreover have "map_of (sl_per_asset_max_pct slippage_defaults) ''BTC'' = Some (15/100)"
    by (simp add: slippage_defaults_def)
  ultimately show ?thesis using slippage_check_sound [OF c] by blast
qed

text \<open>Size never loosens the slippage limit: when larger tiers carry tighter limits, a larger
  notional is never allowed more slippage than a smaller one.\<close>

theorem slippage_limit_antimono:
  assumes "\<forall>(th, t) \<in> set (sl_size_tiers s). \<forall>(th', t') \<in> set (sl_size_tiers s). th \<le> th' \<longrightarrow> t' \<le> t"
    and "n \<le> n'"
  shows "slippage_limit_for s asset venue route n' \<le> slippage_limit_for s asset venue route n"
proof (cases "tier_limit_for (sl_size_tiers s) n")
  case None
  then show ?thesis by (simp add: slippage_limit_for_def tier_limit_None_iff [THEN iffD1, OF None]
        tier_limit_for_def)
next
  case (Some t)
  then obtain t' where t': "tier_limit_for (sl_size_tiers s) n' = Some t'"
    using tier_limit_None_iff [of "sl_size_tiers s"] by (metis option.distinct(1) option.exhaust)
  with tier_limit_antimono [OF assms(1,2) Some] have "t' \<le> t" by blast
  with Some t' show ?thesis by (auto simp: slippage_limit_for_def Let_def min_le_iff_disj)
qed

theorem slippage_limit_antimono_witness:
  "slippage_limit_for slippage_defaults ''SOL'' ''kraken'' ''r'' 5000 \<le>
   slippage_limit_for slippage_defaults ''SOL'' ''kraken'' ''r'' 50"
  by (rule slippage_limit_antimono) (simp_all add: slippage_defaults_def)

text \<open>The latency guard passes a set of legs exactly when each is within the maximum age, and a
  set it rejects at one moment it rejects at every later one.\<close>

theorem latency_check_iff:
  "(latency_check m legs None now = [] \<longleftrightarrow> (\<forall>leg \<in> set legs. eq_age_ms leg now \<le> m)) \<and>
   (latency_check m legs None now \<noteq> [] \<longrightarrow> now \<le> later \<longrightarrow> latency_check m legs None later \<noteq> [])"
  unfolding latency_check_Nil_iff by (fastforce simp: eq_age_ms_def)

theorem latency_check_iff_witness:
  "latency_check 3000 [calm_leg] None 5000 \<noteq> [] \<and> latency_check 3000 [calm_leg] None 9000 \<noteq> []"
  using latency_check_iff [of 3000 "[calm_leg]" 5000 9000]
  by (simp add: calm_leg_def eq_age_ms_def)

end
