(* ===== verification/Gas_Guard.thy ===== *)
theory Gas_Guard
  imports Settings
begin

text \<open>
  Model of \<^verbatim>\<open>backend/fedr/engine/gas_guard.py\<close> (gas snapshots, the moving baseline of the gas
  price, cost estimation, regime detection and the assessment) and of the oracle of
  \<^verbatim>\<open>backend/fedr/marketdata/gas.py\<close> that feeds it. The answer of the Gateway service and the
  synthetic market are arguments of \<open>oracle_refresh\<close>; the clock is an argument.
\<close>

subsection \<open>Snapshots and the baseline\<close>

record gas_snapshot =
  gsn_chain :: chain
  gsn_gas_price_native :: decimal
  gsn_priority_fee_native :: decimal
  gsn_native_usd :: decimal
  gsn_l1_data_fee_usd :: decimal
  gsn_base_fee_lamports :: int
  gsn_ts_ms :: int
  gsn_source :: string

definition gsn_age_ms :: "gas_snapshot \<Rightarrow> int \<Rightarrow> int" where
  "gsn_age_ms s now = now - gsn_ts_ms s"

record gas_baseline =
  bl_alpha :: decimal
  bl_baseline :: "(chain, decimal) dict"
  bl_samples :: "(chain, int) dict"

definition new_baseline :: gas_baseline where
  "new_baseline = \<lparr>bl_alpha = 5/100, bl_baseline = [], bl_samples = []\<rparr>"

definition baseline_get :: "gas_baseline \<Rightarrow> chain \<Rightarrow> decimal option" where
  "baseline_get b c = map_of (bl_baseline b) c"

definition baseline_update :: "gas_baseline \<Rightarrow> chain \<Rightarrow> decimal \<Rightarrow> gas_baseline result" where
  \<comment> \<open>\<open>self._samples[chain] += 1\<close> raises when the key is missing\<close>
  "baseline_update b c price =
     (case map_of (bl_baseline b) c of
        None \<Rightarrow> Inr (b\<lparr>bl_baseline := AList.update c price (bl_baseline b),
                      bl_samples := AList.update c 1 (bl_samples b)\<rparr>)
      | Some prev \<Rightarrow>
          (case map_of (bl_samples b) c of
             None \<Rightarrow> Inl KeyError
           | Some n \<Rightarrow> Inr (b\<lparr>bl_baseline := AList.update c
                 (dadd (dmul prev (dsub 1 (bl_alpha b))) (dmul price (bl_alpha b))) (bl_baseline b),
               bl_samples := AList.update c (n + 1) (bl_samples b)\<rparr>)))"

definition baseline_seed :: "gas_baseline \<Rightarrow> chain \<Rightarrow> decimal \<Rightarrow> gas_baseline" where
  "baseline_seed b c v = b\<lparr>bl_baseline := AList.update c v (bl_baseline b),
     bl_samples := AList.update c (max (dget (bl_samples b) c 0) 1) (bl_samples b)\<rparr>"

subsection \<open>Estimation\<close>

definition GWEI :: decimal where
  "GWEI = 1000000000"

definition LAMPORTS :: decimal where
  "LAMPORTS = 1000000000"

definition or_int :: "int option \<Rightarrow> int \<Rightarrow> int" where
  \<comment> \<open>\<open>x or d\<close> on an optional integer\<close>
  "or_int x d = (case x of Some n \<Rightarrow> if n = 0 then d else n | None \<Rightarrow> d)"

definition compute_units_of :: "int option \<Rightarrow> int \<Rightarrow> int" where
  \<comment> \<open>\<open>compute_units or gas_limit or 200_000\<close>\<close>
  "compute_units_of cu gas_limit = or_int cu (or_int (Some gas_limit) 200000)"

definition estimate_cost_usd :: "gas_snapshot \<Rightarrow> int \<Rightarrow> int option \<Rightarrow> decimal" where
  "estimate_cost_usd snap gas_limit cu =
     (if gsn_chain snap = SOLANA then
        let priority_lamports = dmul (gsn_priority_fee_native snap) (of_int (compute_units_of cu gas_limit));
            total_lamports = dadd (of_int (gsn_base_fee_lamports snap)) priority_lamports
        in dmul (ddiv total_lamports LAMPORTS) (gsn_native_usd snap)
      else
        let gas_cost_eth = ddiv (dmul (gsn_gas_price_native snap) (of_int gas_limit)) GWEI
        in dadd (dmul gas_cost_eth (gsn_native_usd snap)) (gsn_l1_data_fee_usd snap))"

definition regime :: "gas_settings \<Rightarrow> gas_baseline \<Rightarrow> chain \<Rightarrow> decimal \<Rightarrow> gas_regime" where
  "regime gs b c price =
     (case baseline_get b c of
        None \<Rightarrow> NORMAL
      | Some base \<Rightarrow>
          if base \<le> 0 then NORMAL
          else let ratio = ddiv price base in
            if gas_extreme_multiple gs \<le> ratio then EXTREME
            else if gas_high_multiple gs \<le> ratio then HIGH
            else if gas_elevated_multiple gs \<le> ratio then ELEVATED
            else NORMAL)"

subsection \<open>Assessment\<close>

definition priority_lamports_of :: "gas_snapshot \<Rightarrow> int \<Rightarrow> int option \<Rightarrow> decimal" where
  "priority_lamports_of snap gas_limit cu =
     dmul (gsn_priority_fee_native snap) (of_int (compute_units_of cu gas_limit))"

definition priority_usd_of :: "gas_snapshot \<Rightarrow> int \<Rightarrow> int option \<Rightarrow> int \<Rightarrow> decimal" where
  "priority_usd_of snap gas_limit cu legs =
     (if gsn_chain snap = SOLANA
      then dmul (dmul (ddiv (priority_lamports_of snap gas_limit cu) LAMPORTS) (gsn_native_usd snap)) (of_int legs)
      else dmul (dmul (ddiv (dmul (gsn_priority_fee_native snap) (of_int gas_limit)) GWEI)
             (gsn_native_usd snap)) (of_int legs))"

definition gas_price_reasons :: "gas_settings \<Rightarrow> gas_snapshot \<Rightarrow> int \<Rightarrow> int option \<Rightarrow> message list" where
  "gas_price_reasons gs snap gas_limit cu =
     (if gsn_chain snap = SOLANA then
        reason_if (of_int (gas_max_priority_fee_lamports gs) < priority_lamports_of snap gas_limit cu)
          (Msg ''priority fee lamports exceeds max''
             [AInt (trunc_int (priority_lamports_of snap gas_limit cu)), AInt (gas_max_priority_fee_lamports gs)])
      else
        reason_if (gas_max_priority_fee_gwei gs < gsn_priority_fee_native snap)
          (Msg ''priority fee gwei exceeds max''
             [ADec (gsn_priority_fee_native snap), ADec (gas_max_priority_fee_gwei gs)])
        @ reason_if (gas_max_gas_price_gwei gs < gsn_gas_price_native snap)
          (Msg ''gas price gwei exceeds max''
             [ADec (gsn_gas_price_native snap), ADec (gas_max_gas_price_gwei gs)]))"

definition gas_unknown :: gas_assessment where
  "gas_unknown = \<lparr>ga_chain = None, ga_regime = NORMAL, ga_current_gas_cost_usd = 0,
     ga_expected_gas_cost_usd = 0, ga_stress_gas_cost_usd = 0, ga_gas_pct_of_gross = 0,
     ga_passed = False, ga_reasons = [Msg ''gas conditions unknown'' []],
     ga_gas_price_native = None, ga_priority_fee_usd = 0\<rparr>"

definition gas_assess ::
  "gas_settings \<Rightarrow> gas_baseline \<Rightarrow> gas_snapshot option \<Rightarrow> int \<Rightarrow> decimal \<Rightarrow> int option \<Rightarrow>
   decimal option \<Rightarrow> int \<Rightarrow> int \<Rightarrow> gas_assessment" where
  "gas_assess gs b osnap gas_limit gross cu max_override legs now =
     (case osnap of
        None \<Rightarrow> gas_unknown
      | Some snap \<Rightarrow>
          let current = dmul (estimate_cost_usd snap gas_limit cu) (of_int legs);
              stress = dmul current (gas_stress_multiplier gs);
              rg = regime gs b (gsn_chain snap) (gsn_gas_price_native snap);
              max_gas = (case max_override of Some m \<Rightarrow> m | None \<Rightarrow> gas_max_gas_per_trade_usd gs);
              gas_pct = (if 0 < gross then pct current gross else 100);
              reasons =
                reason_if (60000 < gsn_age_ms snap now)
                  (Msg ''gas snapshot stale'' [AInt (gsn_age_ms snap now div 1000)])
                @ gas_price_reasons gs snap gas_limit cu
                @ reason_if (max_gas < current)
                    (Msg ''expected gas exceeds max per trade'' [ADec current, ADec max_gas])
                @ reason_if (dmul max_gas (gas_stress_multiplier gs) < stress)
                    (Msg ''stress gas exceeds tolerance'' [ADec stress])
                @ reason_if (0 < gross \<and> gas_max_gas_pct_of_gross gs < gas_pct)
                    (Msg ''gas is of gross'' [ADec gas_pct, ADec (gas_max_gas_pct_of_gross gs)])
                @ reason_if (rg = EXTREME) (Msg ''gas regime EXTREME - on-chain trading paused'' [])
          in \<lparr>ga_chain = Some (gsn_chain snap), ga_regime = rg, ga_current_gas_cost_usd = current,
              ga_expected_gas_cost_usd = current, ga_stress_gas_cost_usd = stress,
              ga_gas_pct_of_gross = gas_pct, ga_passed = (reasons = []), ga_reasons = reasons,
              ga_gas_price_native = Some (gsn_gas_price_native snap),
              ga_priority_fee_usd = priority_usd_of snap gas_limit cu legs\<rparr>)"

subsection \<open>The oracle\<close>

record gas_oracle =
  go_baseline :: gas_baseline
  go_snapshots :: "(chain, gas_snapshot) dict"
  go_last_error :: "(chain, message) dict"

record gateway_gas =
  gg_fee_per_compute_unit :: decimal
  gg_max_priority_fee :: "decimal option"

record synthetic_gas =
  sg_gas_price :: decimal
  sg_priority :: decimal
  sg_native_usd :: decimal
  sg_baseline :: decimal

definition oracle_snapshot :: "gas_oracle \<Rightarrow> chain \<Rightarrow> int \<Rightarrow> int \<Rightarrow> gas_snapshot option" where
  "oracle_snapshot g c max_age now =
     (case map_of (go_snapshots g) c of
        None \<Rightarrow> None
      | Some s \<Rightarrow> if gsn_age_ms s now \<le> max_age then Some s else None)"

definition gateway_snapshot :: "chain \<Rightarrow> gateway_gas \<Rightarrow> decimal \<Rightarrow> int \<Rightarrow> gas_snapshot" where
  "gateway_snapshot c g native_px now =
     \<lparr>gsn_chain = c, gsn_gas_price_native = gg_fee_per_compute_unit g,
      gsn_priority_fee_native =
        (if c = SOLANA then gg_fee_per_compute_unit g
         else (case gg_max_priority_fee g of
                 Some m \<Rightarrow> if m = 0 then 1/1000 else m
               | None \<Rightarrow> 1/1000)),
      gsn_native_usd = native_px, gsn_l1_data_fee_usd = 0, gsn_base_fee_lamports = 5000,
      gsn_ts_ms = now, gsn_source = ''gateway''\<rparr>"

definition store_snapshot :: "gas_oracle \<Rightarrow> gas_snapshot \<Rightarrow> gas_oracle result" where
  "store_snapshot g snap =
     bind_result (baseline_update (go_baseline g) (gsn_chain snap) (gsn_gas_price_native snap))
       (\<lambda>b. Inr (g\<lparr>go_baseline := b, go_snapshots := AList.update (gsn_chain snap) snap (go_snapshots g)\<rparr>))"

definition oracle_refresh ::
  "gas_oracle \<Rightarrow> chain \<Rightarrow> decimal option \<Rightarrow> synthetic_gas option \<Rightarrow> bool \<Rightarrow> string option \<Rightarrow>
   message + gateway_gas \<Rightarrow> int \<Rightarrow> (gas_oracle \<times> gas_snapshot option) result" where
  \<comment> \<open>\<open>syn\<close> is the synthetic market's answer when it serves the chain, \<open>has_gateway\<close> and
      \<open>network\<close> the configured service and the network id of the chain, \<open>answer\<close> what the
      service replies\<close>
  "oracle_refresh g c native_px syn has_gateway network answer now =
     (case syn of
        Some y \<Rightarrow>
          let snap = \<lparr>gsn_chain = c, gsn_gas_price_native = sg_gas_price y,
                gsn_priority_fee_native = sg_priority y, gsn_native_usd = sg_native_usd y,
                gsn_l1_data_fee_usd = 0, gsn_base_fee_lamports = 5000, gsn_ts_ms = now,
                gsn_source = ''synthetic''\<rparr>;
              g1 = (if baseline_get (go_baseline g) c = None
                    then g\<lparr>go_baseline := baseline_seed (go_baseline g) c (sg_baseline y)\<rparr> else g)
          in bind_result (store_snapshot g1 snap) (\<lambda>g2. Inr (g2, Some snap))
      | None \<Rightarrow>
          if \<not> has_gateway then Inr (g, None)
          else (case native_px of
                  None \<Rightarrow> Inr (g\<lparr>go_last_error := AList.update c
                            (Msg ''no USD price for'' [AStr (native_token c)]) (go_last_error g)\<rparr>, None)
                | Some px \<Rightarrow>
                    (case network of
                       None \<Rightarrow> Inr (g, None)
                     | Some _ \<Rightarrow>
                         (case answer of
                            Inl err \<Rightarrow> Inr (g\<lparr>go_last_error := AList.update c err (go_last_error g)\<rparr>, None)
                          | Inr q \<Rightarrow>
                              let snap = gateway_snapshot c q px now in
                              bind_result (store_snapshot g snap)
                                (\<lambda>g2. Inr (g2\<lparr>go_last_error := AList.delete c (go_last_error g2)\<rparr>, Some snap))))))"

subsection \<open>Lemmas\<close>

definition baseline_wf :: "gas_baseline \<Rightarrow> bool" where
  "baseline_wf b \<longleftrightarrow> wf_dict (bl_baseline b) \<and> wf_dict (bl_samples b) \<and>
     dom (map_of (bl_baseline b)) = dom (map_of (bl_samples b))"

lemma dom_update: "dom (map_of (AList.update k v d)) = insert k (dom (map_of d))"
  by (simp add: update_conv')

lemma baseline_wf_new: "baseline_wf new_baseline"
  by (simp add: baseline_wf_def new_baseline_def)

lemma baseline_wf_seed: "baseline_wf b \<Longrightarrow> baseline_wf (baseline_seed b c v)"
  by (simp add: baseline_wf_def baseline_seed_def dom_update)

lemma baseline_update_ok:
  assumes "baseline_wf b"
  obtains b' where "baseline_update b c p = Inr b'" and "baseline_wf b'" and "bl_alpha b' = bl_alpha b"
    and "baseline_get b' c = Some (case baseline_get b c of None \<Rightarrow> p
           | Some prev \<Rightarrow> dadd (dmul prev (dsub 1 (bl_alpha b))) (dmul p (bl_alpha b)))"
    and "\<And>c'. c' \<noteq> c \<Longrightarrow> baseline_get b' c' = baseline_get b c'"
proof (cases "map_of (bl_baseline b) c")
  case None
  then show ?thesis
    using assms that by (simp add: baseline_update_def baseline_wf_def baseline_get_def dom_update)
next
  case (Some prev)
  then have "c \<in> dom (map_of (bl_samples b))" using assms by (auto simp: baseline_wf_def)
  then obtain n where "map_of (bl_samples b) c = Some n" by blast
  with Some show ?thesis
    using assms that by (simp add: baseline_update_def baseline_wf_def baseline_get_def dom_update)
qed

lemma baseline_wf_alpha_new [simp]: "bl_alpha new_baseline = 5/100"
  by (simp add: new_baseline_def)

lemma store_snapshot_ok:
  assumes "baseline_wf (go_baseline g)"
  obtains g' where "store_snapshot g snap = Inr g'" and "baseline_wf (go_baseline g')"
    and "go_snapshots g' = AList.update (gsn_chain snap) snap (go_snapshots g)"
    and "go_last_error g' = go_last_error g"
  using baseline_update_ok [OF assms, of "gsn_chain snap" "gsn_gas_price_native snap"] that
  by (fastforce simp: store_snapshot_def)

text \<open>The oracle never raises and keeps its baseline well formed.\<close>

lemma oracle_refresh_ok:
  assumes "baseline_wf (go_baseline g)"
  shows "\<exists>g' os. oracle_refresh g c px syn gw net answer now = Inr (g', os) \<and> baseline_wf (go_baseline g') \<and>
    (case os of None \<Rightarrow> go_snapshots g' = go_snapshots g
     | Some s \<Rightarrow> gsn_chain s = c \<and> gsn_ts_ms s = now \<and> map_of (go_snapshots g') c = Some s)"
proof (cases syn)
  case (Some y)
  define g1 where "g1 = (if baseline_get (go_baseline g) c = None
    then g\<lparr>go_baseline := baseline_seed (go_baseline g) c (sg_baseline y)\<rparr> else g)"
  define snap where "snap = \<lparr>gsn_chain = c, gsn_gas_price_native = sg_gas_price y,
    gsn_priority_fee_native = sg_priority y, gsn_native_usd = sg_native_usd y, gsn_l1_data_fee_usd = 0,
    gsn_base_fee_lamports = 5000, gsn_ts_ms = now, gsn_source = ''synthetic''\<rparr>"
  have "baseline_wf (go_baseline g1)" using assms by (simp add: g1_def baseline_wf_seed)
  from store_snapshot_ok [OF this, of snap] obtain g' where st: "store_snapshot g1 snap = Inr g'"
    and g': "baseline_wf (go_baseline g')" "map_of (go_snapshots g') (gsn_chain snap) = Some snap"
    by (metis map_of_update_same)
  have "oracle_refresh g c px syn gw net answer now = Inr (g', Some snap)"
    unfolding oracle_refresh_def Some option.case Let_def g1_def [symmetric] snap_def [symmetric] st
    by simp
  with g' show ?thesis by (simp add: snap_def)
next
  case None
  consider (answered) p n q where "gw" "px = Some p" "net = Some n" "answer = Inr q"
    | (not_asked) "\<not> gw \<or> px = None \<or> net = None \<or> (\<exists>e. answer = Inl e)"
    by (cases px; cases net; cases answer) auto
  then show ?thesis
  proof cases
    case answered
    define snap where "snap = gateway_snapshot c q p now"
    have f: "gsn_chain snap = c" "gsn_ts_ms snap = now" by (simp_all add: snap_def gateway_snapshot_def)
    from store_snapshot_ok [OF assms, of snap] obtain g' where st: "store_snapshot g snap = Inr g'"
      and g': "baseline_wf (go_baseline g')" "map_of (go_snapshots g') (gsn_chain snap) = Some snap"
      by (metis map_of_update_same)
    have "oracle_refresh g c px syn gw net answer now =
        Inr (g'\<lparr>go_last_error := AList.delete c (go_last_error g')\<rparr>, Some snap)"
      unfolding oracle_refresh_def None answered(2-4) option.case sum.case Let_def snap_def [symmetric] st
      by (simp add: answered(1))
    with g' f show ?thesis by simp
  next
    case not_asked
    have "\<exists>e. oracle_refresh g c px syn gw net answer now = Inr (g\<lparr>go_last_error := e\<rparr>, None)"
    proof -
      have g: "g = g\<lparr>go_last_error := go_last_error g\<rparr>" by simp
      show ?thesis
        using not_asked unfolding oracle_refresh_def None option.case
        by (cases gw; cases px; cases net; cases answer) (simp_all, (metis g)+)
    qed
    with assms show ?thesis by fastforce
  qed
qed

lemma gas_passed_iff_no_reasons: "ga_passed (gas_assess gs b s gl gross cu mo legs now) \<longleftrightarrow>
    ga_reasons (gas_assess gs b s gl gross cu mo legs now) = []"
  by (simp add: gas_assess_def gas_unknown_def Let_def split: option.split)

lemma estimate_cost_nonneg:
  assumes "0 \<le> gsn_gas_price_native s" "0 \<le> gsn_priority_fee_native s" "0 \<le> gsn_native_usd s"
    "0 \<le> gsn_l1_data_fee_usd s" "0 \<le> gsn_base_fee_lamports s" "0 \<le> gl" "\<And>n. cu = Some n \<Longrightarrow> 0 \<le> n"
  shows "0 \<le> estimate_cost_usd s gl cu"
proof -
  have "0 \<le> compute_units_of cu gl"
    using assms(6,7) by (simp add: compute_units_of_def or_int_def split: option.split)
  with assms show ?thesis
    by (auto simp: estimate_cost_usd_def Let_def LAMPORTS_def GWEI_def
        intro!: dmul_nonneg ddiv_nonneg dadd_nonneg)
qed

lemma gas_assess_stress_ge:
  assumes "a = gas_assess gs b s gl gross cu mo legs now" and "1 \<le> gas_stress_multiplier gs"
    and "0 \<le> ga_expected_gas_cost_usd a"
  shows "ga_expected_gas_cost_usd a \<le> ga_stress_gas_cost_usd a"
  using assms(2,3) unfolding assms(1)
  by (simp add: gas_assess_def gas_unknown_def Let_def dmul_ge split: option.splits)

subsection \<open>The baseline over a history of prices\<close>

fun baseline_run :: "gas_baseline \<Rightarrow> chain \<Rightarrow> decimal list \<Rightarrow> gas_baseline result" where
  "baseline_run b c [] = Inr b"
| "baseline_run b c (p # ps) = bind_result (baseline_update b c p) (\<lambda>b'. baseline_run b' c ps)"

definition short_decimal :: "decimal \<Rightarrow> bool" where
  \<comment> \<open>at most 32 significant digits, so that both shares of an average are exact\<close>
  "short_decimal x \<longleftrightarrow> (\<exists>n k. x = of_int n / 10 ^ k \<and> \<bar>n\<bar> < 10 ^ 32)"

lemma short_decimal_shares:
  assumes "short_decimal x"
  shows "drepr x" "drepr (x * (1 - 5/100))" "drepr (x * (5/100))"
proof -
  from assms obtain n k where x: "x = of_int n / 10 ^ k" "\<bar>n\<bar> < 10 ^ 32"
    unfolding short_decimal_def by blast
  show "drepr x"
    by (rule on_grid_drepr [of k]) (use x in \<open>auto simp: on_grid_def\<close>)
  show "drepr (x * (1 - 5/100))"
    by (rule on_grid_drepr [of "k + 2"], unfold on_grid_def, rule exI [of _ "95 * n"])
      (use x in \<open>simp add: abs_mult power_add\<close>)
  show "drepr (x * (5/100))"
    by (rule on_grid_drepr [of "k + 2"], unfold on_grid_def, rule exI [of _ "5 * n"])
      (use x in \<open>simp add: abs_mult power_add\<close>)
qed

lemma ewma_step_between:
  assumes "short_decimal lo" "short_decimal hi" "lo \<le> v" "v \<le> hi" "lo \<le> p" "p \<le> hi"
  shows "lo \<le> dadd (dmul v (dsub 1 (5/100))) (dmul p (5/100))"
    and "dadd (dmul v (dsub 1 (5/100))) (dmul p (5/100)) \<le> hi"
proof -
  have a: "dsub 1 (5/100) = 1 - 5/100" by (simp add: dec_defs dround_eval)
  show "lo \<le> dadd (dmul v (dsub 1 (5/100))) (dmul p (5/100))"
    unfolding a dadd_def dmul_def
    by (rule dec.rnd_ewma_ge) (use short_decimal_shares [OF assms(1)] assms in simp_all)
  show "dadd (dmul v (dsub 1 (5/100))) (dmul p (5/100)) \<le> hi"
    unfolding a dadd_def dmul_def
    by (rule dec.rnd_ewma_le) (use short_decimal_shares [OF assms(2)] assms in simp_all)
qed

lemma baseline_run_between:
  assumes "short_decimal lo" "short_decimal hi" "\<forall>p \<in> set ps. lo \<le> p \<and> p \<le> hi"
    and "baseline_wf b" "bl_alpha b = 5/100"
    and "case baseline_get b c of None \<Rightarrow> ps \<noteq> [] | Some v \<Rightarrow> lo \<le> v \<and> v \<le> hi"
  shows "\<exists>b' v. baseline_run b c ps = Inr b' \<and> baseline_get b' c = Some v \<and> lo \<le> v \<and> v \<le> hi"
  using assms(3-6)
proof (induction ps arbitrary: b)
  case Nil
  then show ?case by (auto split: option.splits)
next
  case (Cons p ps)
  from baseline_update_ok [OF Cons.prems(2), of c p] obtain b' where b': "baseline_update b c p = Inr b'"
    "baseline_wf b'" "bl_alpha b' = bl_alpha b"
    "baseline_get b' c = Some (case baseline_get b c of None \<Rightarrow> p
       | Some prev \<Rightarrow> dadd (dmul prev (dsub 1 (bl_alpha b))) (dmul p (bl_alpha b)))" by blast
  have "case baseline_get b' c of None \<Rightarrow> ps \<noteq> [] | Some v \<Rightarrow> lo \<le> v \<and> v \<le> hi"
    using Cons.prems(1,4) b'(4) [unfolded Cons.prems(3)] ewma_step_between [OF assms(1,2), of _ p] by (auto split: option.splits)
  with Cons.IH [of b'] Cons.prems b' show ?case by simp
qed

subsection \<open>Properties\<close>

text \<open>A gas assessment that passes keeps every limit: there is a snapshot, it is at most a
  minute old, the expected cost is within the limit per trade (or the override), the share of the
  gross profit is within its limit, the priority fee and the gas price are within theirs, and the
  regime is not extreme. An unknown gas situation never passes.\<close>

theorem gas_passed_sound:
  assumes "ga_passed (gas_assess gs b os gas_limit gross cu mo legs now)"
  shows "\<exists>s. os = Some s \<and> now - gsn_ts_ms s \<le> 60000 \<and>
    ga_expected_gas_cost_usd (gas_assess gs b os gas_limit gross cu mo legs now) \<le>
      (case mo of Some m \<Rightarrow> m | None \<Rightarrow> gas_max_gas_per_trade_usd gs) \<and>
    (0 < gross \<longrightarrow> pct (dmul (estimate_cost_usd s gas_limit cu) (of_int legs)) gross
       \<le> gas_max_gas_pct_of_gross gs) \<and>
    (if gsn_chain s = SOLANA
     then priority_lamports_of s gas_limit cu \<le> of_int (gas_max_priority_fee_lamports gs)
     else gsn_priority_fee_native s \<le> gas_max_priority_fee_gwei gs \<and>
          gsn_gas_price_native s \<le> gas_max_gas_price_gwei gs) \<and>
    regime gs b (gsn_chain s) (gsn_gas_price_native s) < EXTREME"
proof -
  have r: "rg < EXTREME" if "rg \<noteq> EXTREME" for rg
    using that by (cases rg) (simp_all add: less_gas_regime_def)
  show ?thesis
    using assms
    by (cases os) (auto simp: gas_assess_def gas_unknown_def gas_price_reasons_def gsn_age_ms_def
        Let_def r not_less split: if_splits option.splits)
qed

definition demo_snapshot :: gas_snapshot where
  "demo_snapshot = \<lparr>gsn_chain = BASE, gsn_gas_price_native = 1, gsn_priority_fee_native = 1/10,
     gsn_native_usd = 3000, gsn_l1_data_fee_usd = 0, gsn_base_fee_lamports = 5000, gsn_ts_ms = 0,
     gsn_source = ''gateway''\<rparr>"

theorem gas_passed_sound_witness:
  "\<exists>s. Some demo_snapshot = Some s \<and> 1000 - gsn_ts_ms s \<le> 60000 \<and>
     regime gas_defaults new_baseline (gsn_chain s) (gsn_gas_price_native s) < EXTREME"
proof -
  have "ga_passed (gas_assess gas_defaults new_baseline (Some demo_snapshot) 500000 100 None None 1 1000)"
    by (simp add: gas_assess_def demo_snapshot_def gas_defaults_def estimate_cost_usd_def gsn_age_ms_def
        gas_price_reasons_def regime_def new_baseline_def baseline_get_def GWEI_def pct_def dec_defs
        dround_eval Let_def)
  from gas_passed_sound [OF this] show ?thesis by blast
qed

text \<open>The regime is monotone in the gas price: on the same baseline a higher price is never
  classified as a calmer regime.\<close>

theorem regime_mono:
  assumes "p \<le> p'"
  shows "regime gs b c p \<le> regime gs b c p'"
proof -
  have "ddiv p base \<le> ddiv p' base" if "\<not> base \<le> 0" for base
    using assms that by (intro ddiv_mono) simp_all
  then show ?thesis
    by (fastforce simp: regime_def Let_def less_eq_gas_regime_def split: option.split)
qed

theorem regime_mono_witness:
  "regime gas_defaults (baseline_seed new_baseline BASE 1) BASE 1 \<le>
   regime gas_defaults (baseline_seed new_baseline BASE 1) BASE 5"
  by (rule regime_mono) simp

text \<open>A gas spike is detected whatever the history was: fed any non-empty history of prices
  between \<open>lo > 0\<close> and \<open>hi\<close>, the baseline exists, stays between these bounds in spite of the
  rounding, and a price of at least the extreme multiple of \<open>hi\<close> is classified as extreme.\<close>

theorem gas_spike_detected:
  assumes "short_decimal lo" "short_decimal hi" "0 < lo" "ps \<noteq> []"
    and "\<forall>p \<in> set ps. lo \<le> p \<and> p \<le> hi"
    and "drepr (gas_extreme_multiple gs)" "0 \<le> gas_extreme_multiple gs"
    and "gas_extreme_multiple gs * hi \<le> spike"
  shows "\<exists>b. baseline_run new_baseline c ps = Inr b \<and>
    (\<exists>v. baseline_get b c = Some v \<and> lo \<le> v \<and> v \<le> hi) \<and> regime gs b c spike = EXTREME"
proof -
  have "baseline_get new_baseline c = None" by (simp add: baseline_get_def new_baseline_def)
  with baseline_run_between [OF assms(1,2,5) baseline_wf_new, of c] assms(4)
  obtain b v where b: "baseline_run new_baseline c ps = Inr b" "baseline_get b c = Some v" "lo \<le> v" "v \<le> hi"
    by auto
  have "gas_extreme_multiple gs * v \<le> spike"
    using b(4) assms(7,8) by (meson mult_left_mono order_trans)
  then have "gas_extreme_multiple gs \<le> spike / v" using b(3) assms(3) by (simp add: field_simps)
  then have "gas_extreme_multiple gs \<le> ddiv spike v"
    using assms(6) by (simp add: ddiv_def dec.rnd_ge)
  with b assms(3) show ?thesis by (auto simp: regime_def)
qed

theorem gas_spike_detected_witness:
  "\<exists>b. baseline_run new_baseline BASE [1, 2, 1] = Inr b \<and> regime gas_defaults b BASE 8 = EXTREME"
proof -
  have s: "short_decimal 1" "short_decimal 2"
    unfolding short_decimal_def by (rule exI [of _ 1], rule exI [of _ 0], simp)
      (rule exI [of _ 2], rule exI [of _ 0], simp)
  have "drepr 4" by (rule on_grid_drepr [of 0], unfold on_grid_def, rule exI [of _ 4]) simp
  then show ?thesis
    using gas_spike_detected [OF s, of "[1, 2, 1]" gas_defaults 8 BASE] by (auto simp: gas_defaults_def)
qed

end
