(* ===== verification/Profit_Guard.thy ===== *)
theory Profit_Guard
  imports Gas_Guard
begin

text \<open>
  Model of \<^verbatim>\<open>backend/fedr/engine/profit_guard.py\<close>: the all-in profit calculation with its two cost
  breakdowns (expected and worst case) and the hard profit rule. The code mutates two
  \<open>CostBreakdown\<close> objects and two lists while it goes through the cost groups; here each group is
  a function from the pair of breakdowns to the pair, composed in the order of the code, and the
  reasons of each group are listed in the order the code appends them.
\<close>

subsection \<open>Inputs\<close>

record flash_loan_terms =
  flt_provider :: string
  flt_loan_amount_usd :: decimal
  flt_fee_pct :: decimal
  flt_simulation_passed :: "bool option"
  flt_atomic :: bool

record profit_guard_inputs =
  pgi_buy :: execution_quote
  pgi_sell :: execution_quote
  pgi_settings :: app_settings
  pgi_gas :: "gas_assessment option"
  pgi_quote_usd_rate :: decimal
  pgi_experience_extra_pct :: decimal
  pgi_flash_loan :: "flash_loan_terms option"
  pgi_funding_cost_usd :: decimal
  pgi_bridge_fee_usd :: "decimal option"
  pgi_withdrawal_fee_usd :: "decimal option"
  pgi_deposit_fee_usd :: "decimal option"
  pgi_stablecoin_haircut_pct :: decimal
  pgi_round_trips :: int

type_synonym cost_pair = "cost_breakdown \<times> cost_breakdown"

subsection \<open>Cost groups\<close>

definition dex_parts :: "execution_quote \<Rightarrow> decimal \<Rightarrow> decimal \<Rightarrow> decimal \<times> decimal \<times> decimal" where
  \<comment> \<open>fee, impact and residual of the deviation of a router quote\<close>
  "dex_parts leg notional_ref deviation =
     (let fee_part = (case eq_fee_pct leg of
                        Some p \<Rightarrow> min deviation (ddiv (dmul notional_ref p) 100)
                      | None \<Rightarrow> 0);
          impact_part = (if 0 < eq_price_impact_pct leg
                         then min (dsub deviation fee_part)
                                (ddiv (dmul notional_ref (eq_price_impact_pct leg)) 100)
                         else 0);
          residual = max 0 (dsub (dsub deviation fee_part) impact_part)
      in (fee_part, impact_part, residual))"

definition cex_fee :: "execution_quote \<Rightarrow> decimal \<Rightarrow> decimal \<Rightarrow> trading_settings \<Rightarrow> bool \<Rightarrow> decimal option" where
  "cex_fee leg notional_ref deviation t is_buy =
     (case eq_fee_in_quote leg of
        Some fee \<Rightarrow> Some fee
      | None \<Rightarrow>
          (case eq_fee_pct leg of
             Some p \<Rightarrow> Some (ddiv (dmul (dadd notional_ref (if is_buy then deviation else dneg deviation)) p) 100)
           | None \<Rightarrow> map_option (\<lambda>p. ddiv (dmul notional_ref p) 100) (ts_unknown_fee_fallback_pct t)))"

definition maker_diff :: "execution_quote \<Rightarrow> decimal \<Rightarrow> decimal option" where
  "maker_diff leg notional_ref =
     (case eq_fee_pct leg of
        None \<Rightarrow> None
      | Some p \<Rightarrow>
          if eq_is_maker leg then
            let taker = (case eq_extra_taker_fee_pct leg of Some x \<Rightarrow> x | None \<Rightarrow> p)
            in Some (ddiv (dmul (max 0 (dsub taker p)) notional_ref) 100)
          else None)"

definition attribute_leg ::
  "execution_quote \<Rightarrow> decimal \<Rightarrow> decimal \<Rightarrow> trading_settings \<Rightarrow> bool \<Rightarrow> cost_pair \<Rightarrow> cost_pair" where
  "attribute_leg leg notional_ref deviation t is_buy = (\<lambda>(ex, wc).
     let fee_mult = ts_worst_case_fee_multiplier t; slip_mult = ts_worst_case_slippage_multiplier t in
     if eq_kind leg = DEX then
       let (fee_part, impact_part, residual) = dex_parts leg notional_ref deviation in
       (ex\<lparr>cb_dex_swap_fee := dadd (cb_dex_swap_fee ex) fee_part,
          cb_price_impact := dadd (cb_price_impact ex) impact_part,
          cb_slippage := dadd (cb_slippage ex) residual\<rparr>,
        wc\<lparr>cb_dex_swap_fee := dadd (cb_dex_swap_fee wc) (dmul fee_part fee_mult),
          cb_price_impact := dadd (cb_price_impact wc) (dmul impact_part slip_mult),
          cb_slippage := dadd (cb_slippage wc) (dmul residual slip_mult)\<rparr>)
     else
       let fee = (case cex_fee leg notional_ref deviation t is_buy of Some f \<Rightarrow> f | None \<Rightarrow> 0);
           ex1 = ex\<lparr>cb_slippage := dadd (cb_slippage ex) deviation\<rparr>;
           wc1 = wc\<lparr>cb_slippage := dadd (cb_slippage wc) (dmul deviation slip_mult)\<rparr>;
           ex2 = (if is_buy then ex1\<lparr>cb_buy_trading_fee := dadd (cb_buy_trading_fee ex1) fee\<rparr>
                  else ex1\<lparr>cb_sell_trading_fee := dadd (cb_sell_trading_fee ex1) fee\<rparr>);
           wc2 = (if is_buy then wc1\<lparr>cb_buy_trading_fee := dadd (cb_buy_trading_fee wc1) (dmul fee fee_mult)\<rparr>
                  else wc1\<lparr>cb_sell_trading_fee := dadd (cb_sell_trading_fee wc1) (dmul fee fee_mult)\<rparr>)
       in (case maker_diff leg notional_ref of
             None \<Rightarrow> (ex2, wc2)
           | Some diff \<Rightarrow>
               (ex2\<lparr>cb_maker_taker_adjustment := dadd (cb_maker_taker_adjustment ex2) diff\<rparr>,
                wc2\<lparr>cb_maker_taker_adjustment := dadd (cb_maker_taker_adjustment wc2) diff\<rparr>)))"

definition leg_unknown ::
  "execution_quote \<Rightarrow> decimal \<Rightarrow> decimal \<Rightarrow> trading_settings \<Rightarrow> bool \<Rightarrow> string list" where
  "leg_unknown leg notional_ref deviation t is_buy =
     (if eq_kind leg = DEX then
        reason_if (eq_fee_pct leg = None \<and> deviation = 0 \<and> eq_fee_in_quote leg = None) ''dex_swap_fee''
      else
        reason_if (cex_fee leg notional_ref deviation t is_buy = None)
          (if is_buy then ''buy_trading_fee'' else ''sell_trading_fee''))"

definition on_chain :: "profit_guard_inputs \<Rightarrow> bool" where
  "on_chain i \<longleftrightarrow> eq_kind (pgi_buy i) = DEX \<or> eq_kind (pgi_sell i) = DEX \<or> pgi_flash_loan i \<noteq> None"

definition gas_costs :: "profit_guard_inputs \<Rightarrow> cost_pair \<Rightarrow> cost_pair" where
  "gas_costs i = (\<lambda>(ex, wc).
     let gs = s_gas (pgi_settings i) in
     if on_chain i then
       (case pgi_gas i of
          None \<Rightarrow>
            if gas_unknown_gas_policy gs = ''conservative_fallback'' then
              (ex\<lparr>cb_gas := gas_conservative_gas_fallback_usd gs\<rparr>,
               wc\<lparr>cb_gas := dmul (gas_conservative_gas_fallback_usd gs) (gas_stress_multiplier gs)\<rparr>)
            else (ex, wc)
        | Some g \<Rightarrow>
            (ex\<lparr>cb_gas := ga_expected_gas_cost_usd g, cb_priority_fee := ga_priority_fee_usd g\<rparr>,
             wc\<lparr>cb_gas := ga_stress_gas_cost_usd g,
                cb_priority_fee := dmul (ga_priority_fee_usd g) (gas_stress_multiplier gs)\<rparr>))
     else (ex, wc))"

definition gas_reasons :: "profit_guard_inputs \<Rightarrow> message list" where
  "gas_reasons i =
     (if on_chain i then
        (case pgi_gas i of
           None \<Rightarrow> reason_if (gas_unknown_gas_policy (s_gas (pgi_settings i)) = ''conservative_fallback'')
             (Msg ''gas unknown - conservative fallback applied''
                [ADec (gas_conservative_gas_fallback_usd (s_gas (pgi_settings i)))])
         | Some g \<Rightarrow> if ga_passed g then [] else map (\<lambda>r. Msg ''gas guard'' [AMsg r]) (ga_reasons g))
      else [])"

definition gas_unknown_costs :: "profit_guard_inputs \<Rightarrow> string list" where
  "gas_unknown_costs i =
     reason_if (on_chain i \<and> pgi_gas i = None \<and>
       gas_unknown_gas_policy (s_gas (pgi_settings i)) \<noteq> ''conservative_fallback'') ''gas''"

definition opt_or :: "'a \<Rightarrow> 'a option \<Rightarrow> 'a" where
  "opt_or d x = (case x of None \<Rightarrow> d | Some v \<Rightarrow> v)"

definition transfer_costs_one :: "profit_guard_inputs \<Rightarrow> cost_breakdown \<Rightarrow> cost_breakdown" where
  \<comment> \<open>the same three assignments on either breakdown; an unknown fee leaves the field\<close>
  "transfer_costs_one i c = c\<lparr>cb_bridge_fee := opt_or (cb_bridge_fee c) (pgi_bridge_fee_usd i),
     cb_withdrawal_fee := opt_or (cb_withdrawal_fee c) (pgi_withdrawal_fee_usd i),
     cb_deposit_fee := opt_or (cb_deposit_fee c) (pgi_deposit_fee_usd i)\<rparr>"

definition transfer_unknown :: "profit_guard_inputs \<Rightarrow> string list" where
  "transfer_unknown i = reason_if (pgi_bridge_fee_usd i = None) ''bridge_fee''
     @ reason_if (pgi_withdrawal_fee_usd i = None) ''withdrawal_fee''
     @ reason_if (pgi_deposit_fee_usd i = None) ''deposit_fee''"

definition funding_costs :: "profit_guard_inputs \<Rightarrow> cost_pair \<Rightarrow> cost_pair" where
  "funding_costs i = (\<lambda>(ex, wc).
     (ex\<lparr>cb_funding := pgi_funding_cost_usd i\<rparr>,
      wc\<lparr>cb_funding := (if 0 < pgi_funding_cost_usd i
          then dmul (pgi_funding_cost_usd i) (ts_worst_case_fee_multiplier (s_trading (pgi_settings i)))
          else ddiv (pgi_funding_cost_usd i) 2)\<rparr>))"

definition scale_round_trips :: "int \<Rightarrow> cost_breakdown \<Rightarrow> cost_breakdown" where
  "scale_round_trips n c = c\<lparr>cb_buy_trading_fee := dmul (cb_buy_trading_fee c) (of_int n),
     cb_sell_trading_fee := dmul (cb_sell_trading_fee c) (of_int n),
     cb_dex_swap_fee := dmul (cb_dex_swap_fee c) (of_int n),
     cb_slippage := dmul (cb_slippage c) (of_int n),
     cb_price_impact := dmul (cb_price_impact c) (of_int n)\<rparr>"

definition round_trip_costs :: "profit_guard_inputs \<Rightarrow> cost_pair \<Rightarrow> cost_pair" where
  "round_trip_costs i = (\<lambda>(ex, wc).
     if 1 < pgi_round_trips i
     then (scale_round_trips (pgi_round_trips i) ex, scale_round_trips (pgi_round_trips i) wc)
     else (ex, wc))"

definition buffer_pct_of :: "profit_guard_inputs \<Rightarrow> decimal" where
  "buffer_pct_of i = dadd (dadd (ts_safety_buffer_pct (s_trading (pgi_settings i)))
     (max 0 (pgi_experience_extra_pct i))) (pgi_stablecoin_haircut_pct i)"

definition allowances :: "profit_guard_inputs \<Rightarrow> decimal \<Rightarrow> cost_pair \<Rightarrow> cost_pair" where
  "allowances i notional = (\<lambda>(ex, wc).
     let t = s_trading (pgi_settings i);
         buffer = ddiv (dmul notional (buffer_pct_of i)) 100;
         (ex1, wc1) =
           (if pgi_flash_loan i \<noteq> None then
              let tol = ddiv (dmul notional (of_int (fls_max_slippage_bps (s_flash_loan (pgi_settings i))))) 10000 in
              (ex\<lparr>cb_rebalance_allowance := 0, cb_latency_allowance := 0, cb_partial_fill_allowance := 0,
                 cb_failure_reserve := dmul (cb_gas wc) (5/10)\<rparr>,
               wc\<lparr>cb_rebalance_allowance := 0, cb_latency_allowance := 0, cb_partial_fill_allowance := 0,
                 cb_failure_reserve := cb_gas wc, cb_slippage := dadd (cb_slippage wc) tol\<rparr>)
            else
              let rebalance = ddiv (dmul notional (ts_rebalance_allowance_pct t)) 100;
                  latency = ddiv (dmul notional (ts_latency_allowance_pct t)) 100;
                  partial = ddiv (dmul notional (ts_partial_fill_allowance_pct t)) 100;
                  failure = ddiv (dmul notional (ts_failure_reserve_pct t)) 100
              in
              (ex\<lparr>cb_rebalance_allowance := rebalance, cb_latency_allowance := latency,
                 cb_partial_fill_allowance := partial, cb_failure_reserve := failure\<rparr>,
               wc\<lparr>cb_rebalance_allowance := rebalance, cb_latency_allowance := dmul latency 2,
                 cb_partial_fill_allowance := dmul partial 2,
                 cb_failure_reserve := dadd (dmul failure 2) (if on_chain i then cb_gas wc else 0)\<rparr>))
     in (ex1\<lparr>cb_safety_buffer := buffer\<rparr>, wc1\<lparr>cb_safety_buffer := buffer\<rparr>))"

definition flash_costs :: "profit_guard_inputs \<Rightarrow> decimal \<Rightarrow> cost_pair \<Rightarrow> cost_pair" where
  "flash_costs i notional = (\<lambda>(ex, wc).
     case pgi_flash_loan i of
       None \<Rightarrow> (ex, wc)
     | Some fl \<Rightarrow>
         let fs = s_flash_loan (pgi_settings i);
             fee = ddiv (dmul (flt_loan_amount_usd fl) (flt_fee_pct fl)) 100;
             mev = ddiv (dmul notional (if fls_mev_aware fs then fls_mev_reserve_pct fs else 0)) 100
         in (ex\<lparr>cb_flash_loan_fee := fee, cb_mev_reserve := mev\<rparr>,
             wc\<lparr>cb_flash_loan_fee := fee, cb_mev_reserve := dmul mev 2\<rparr>))"

subsection \<open>The assessment\<close>

record economics =
  ec_size :: decimal
  ec_buy_ref :: decimal
  ec_sell_ref :: decimal
  ec_gross :: decimal
  ec_buy_exec :: decimal
  ec_sell_exec :: decimal
  ec_buy_dev :: decimal
  ec_sell_dev :: decimal

definition economics_of :: "profit_guard_inputs \<Rightarrow> economics" where
  "economics_of i =
     (let buy = pgi_buy i; sell = pgi_sell i; rate = pgi_quote_usd_rate i;
          size = min (eq_base_amount buy) (eq_base_amount sell);
          buy_ref = dmul (dmul size (eq_reference_price buy)) rate;
          sell_ref = dmul (dmul size (eq_reference_price sell)) rate;
          buy_exec = dmul (dmul size (eq_avg_price buy)) rate;
          sell_exec = dmul (dmul size (eq_avg_price sell)) rate
      in \<lparr>ec_size = size, ec_buy_ref = buy_ref, ec_sell_ref = sell_ref, ec_gross = dsub sell_ref buy_ref,
          ec_buy_exec = buy_exec, ec_sell_exec = sell_exec,
          ec_buy_dev = max 0 (dsub buy_exec buy_ref), ec_sell_dev = max 0 (dsub sell_ref sell_exec)\<rparr>)"

definition leg_costs :: "profit_guard_inputs \<Rightarrow> cost_pair \<Rightarrow> cost_pair" where
  "leg_costs i = (let e = economics_of i; t = s_trading (pgi_settings i) in
     attribute_leg (pgi_sell i) (ec_sell_ref e) (ec_sell_dev e) t False
     \<circ> attribute_leg (pgi_buy i) (ec_buy_ref e) (ec_buy_dev e) t True)"

definition transfer_costs :: "profit_guard_inputs \<Rightarrow> cost_pair \<Rightarrow> cost_pair" where
  "transfer_costs i = (\<lambda>(ex, wc). (transfer_costs_one i ex, transfer_costs_one i wc))"

definition raw_costs :: "profit_guard_inputs \<Rightarrow> cost_pair" where
  "raw_costs i = (let n = ec_buy_ref (economics_of i) in
     (flash_costs i n \<circ> allowances i n \<circ> round_trip_costs i \<circ> funding_costs i \<circ> transfer_costs i
      \<circ> gas_costs i \<circ> leg_costs i) (no_costs, no_costs))"

definition unknown_costs :: "profit_guard_inputs \<Rightarrow> string list" where
  "unknown_costs i = (let e = economics_of i; t = s_trading (pgi_settings i) in
     dedup (leg_unknown (pgi_buy i) (ec_buy_ref e) (ec_buy_dev e) t True
       @ leg_unknown (pgi_sell i) (ec_sell_ref e) (ec_sell_dev e) t False
       @ gas_unknown_costs i @ transfer_unknown i))"

definition expected_costs :: "profit_guard_inputs \<Rightarrow> cost_breakdown" where
  "expected_costs i = (fst (raw_costs i))\<lparr>cb_unknown := unknown_costs i\<rparr>"

definition worst_costs :: "profit_guard_inputs \<Rightarrow> cost_breakdown" where
  "worst_costs i = (snd (raw_costs i))\<lparr>cb_unknown := unknown_costs i\<rparr>"

definition capital_required :: "profit_guard_inputs \<Rightarrow> decimal" where
  \<comment> \<open>computed after the allowances, when the fee and gas fields have their final values\<close>
  "capital_required i =
     (let ex = expected_costs i in
      if pgi_flash_loan i = None
      then dadd (dadd (dadd (ec_buy_exec (economics_of i)) (cb_buy_trading_fee ex)) (cb_gas ex)) (cb_priority_fee ex)
      else dadd (dadd (cb_gas ex) (cb_priority_fee ex)) (cb_flash_loan_fee ex))"

definition size_reasons :: "profit_guard_inputs \<Rightarrow> int \<Rightarrow> message list" where
  "size_reasons i now =
     (let buy = pgi_buy i; sell = pgi_sell i; size = ec_size (economics_of i); s = pgi_settings i;
          max_age = min (ts_max_quote_age_ms (s_trading s)) (rs_max_quote_age_ms (s_risk s));
          age = max (eq_age_ms buy now) (eq_age_ms sell now)
      in reason_if (eq_base_amount buy \<noteq> eq_base_amount sell)
           (Msg ''leg sizes differ'' [ADec (eq_base_amount buy), ADec (eq_base_amount sell), ADec size])
       @ reason_if (\<not> eq_fully_fillable buy)
           (Msg ''insufficient depth to buy'' [AStr (eq_venue buy), ADec size, ADec (eq_depth_available_base buy)])
       @ reason_if (\<not> eq_fully_fillable sell)
           (Msg ''insufficient depth to sell'' [AStr (eq_venue sell), ADec size, ADec (eq_depth_available_base sell)])
       @ reason_if (max_age < age) (Msg ''quote is stale'' [AInt age, AInt max_age]))"

definition flash_reasons :: "profit_guard_inputs \<Rightarrow> message list" where
  "flash_reasons i =
     (case pgi_flash_loan i of
        None \<Rightarrow> []
      | Some fl \<Rightarrow>
          let s = pgi_settings i; fs = s_flash_loan s in
          reason_if (fls_require_simulation fs \<and> flt_simulation_passed fl \<noteq> Some True)
            (Msg ''flash loan: transaction simulation has not passed'' [])
          @ reason_if (fls_require_atomic fs \<and> \<not> flt_atomic fl)
            (Msg ''flash loan: route is not atomically executable'' [])
          @ reason_if (fls_max_loan_usd fs < flt_loan_amount_usd fl)
            (Msg ''flash loan exceeds maximum'' [ADec (flt_loan_amount_usd fl), ADec (fls_max_loan_usd fs)])
          @ reason_if (rs_max_flash_loan_usd (s_risk s) < flt_loan_amount_usd fl)
            (Msg ''flash loan exceeds risk-engine maximum'' []))"

definition gas_regime_of :: "profit_guard_inputs \<Rightarrow> gas_regime option" where
  "gas_regime_of i = map_option ga_regime (pgi_gas i)"

definition scale_threshold :: "profit_guard_inputs \<Rightarrow> decimal \<Rightarrow> decimal" where
  \<comment> \<open>the raised thresholds of the elevated and high regimes\<close>
  "scale_threshold i x =
     (if gas_regime_of i = Some ELEVATED
      then dmul x (gas_elevated_profit_multiplier (s_gas (pgi_settings i)))
      else if gas_regime_of i = Some HIGH \<and> on_chain i then dmul x 2
      else x)"

definition min_profit_of :: "profit_guard_inputs \<Rightarrow> decimal" where
  "min_profit_of i = scale_threshold i
     (if pgi_flash_loan i = None then ts_min_profit_usd (s_trading (pgi_settings i))
      else max (ts_min_profit_usd (s_trading (pgi_settings i)))
             (fls_min_net_profit_usd (s_flash_loan (pgi_settings i))))"

definition min_worst_of :: "profit_guard_inputs \<Rightarrow> decimal" where
  "min_worst_of i = scale_threshold i (ts_min_worst_case_profit_usd (s_trading (pgi_settings i)))"

definition expected_net_of :: "profit_guard_inputs \<Rightarrow> decimal" where
  "expected_net_of i = dsub (ec_gross (economics_of i)) (cost_total (expected_costs i))"

definition worst_case_of :: "profit_guard_inputs \<Rightarrow> decimal" where
  "worst_case_of i = dsub (ec_gross (economics_of i)) (cost_total (worst_costs i))"

definition roi_of :: "profit_guard_inputs \<Rightarrow> decimal" where
  "roi_of i = (if 0 < capital_required i then pct (expected_net_of i) (capital_required i) else 0)"

definition threshold_reasons :: "profit_guard_inputs \<Rightarrow> message list" where
  "threshold_reasons i =
     (let s = pgi_settings i; ex = expected_costs i; gross = ec_gross (economics_of i);
          net = expected_net_of i; gas = dadd (cb_gas ex) (cb_priority_fee ex) in
      reason_if (gas_regime_of i = Some EXTREME \<and> on_chain i)
        (Msg ''gas regime EXTREME - on-chain trading paused'' [])
      @ reason_if (cb_unknown ex \<noteq> []) (Msg ''unknown costs could not be estimated'' [AStrs (cb_unknown ex)])
      @ reason_if (net < min_profit_of i)
        (Msg ''expected net is below the required minimum'' [ADec net, ADec (min_profit_of i)])
      @ reason_if (worst_case_of i < min_worst_of i)
        (Msg ''worst-case net is below the required minimum'' [ADec (worst_case_of i), ADec (min_worst_of i)])
      @ reason_if (roi_of i < ts_min_roi_pct (s_trading s))
        (Msg ''expected ROI is below the required minimum'' [ADec (roi_of i), ADec (ts_min_roi_pct (s_trading s))])
      @ (if on_chain i \<and> pgi_gas i \<noteq> None \<and> 0 < gross then
           reason_if (gas_max_gas_pct_of_gross (s_gas s) < pct gas gross)
             (Msg ''gas is of gross profit'' [ADec (pct gas gross), ADec (gas_max_gas_pct_of_gross (s_gas s))])
           @ reason_if (net < gas_min_profit_after_gas_usd (s_gas s))
             (Msg ''profit after gas below minimum'' [ADec net, ADec (gas_min_profit_after_gas_usd (s_gas s))])
         else [])
      @ reason_if (pgi_flash_loan i \<noteq> None \<and> 0 < gas \<and>
            ddiv net gas < fls_min_profit_gas_ratio (s_flash_loan s))
        (Msg ''flash loan profit/gas ratio below minimum''
           [ADec (ddiv net gas), ADec (fls_min_profit_gas_ratio (s_flash_loan s))]))"

definition explain :: "profit_guard_inputs \<Rightarrow> message list \<Rightarrow> message" where
  "explain i reasons =
     (let ex = expected_costs i in
      if reasons = [] then
        Msg ''Eligible''
          [ADec (expected_net_of i), ADec (worst_case_of i), ADec (min_worst_of i),
           ADec (dadd (cb_gas ex) (cb_priority_fee ex)),
           ADec (dadd (eq_slippage_pct (pgi_buy i)) (eq_slippage_pct (pgi_sell i))), ADec (cost_total ex)]
      else Msg ''Blocked because'' (map AMsg (take 3 reasons)))"

definition blocked_assessment :: "profit_guard_inputs \<Rightarrow> message list \<Rightarrow> profit_assessment" where
  "blocked_assessment i reasons =
     (let t = s_trading (pgi_settings i) in
      \<lparr>pa_gross_profit = 0, pa_expected_net_profit = 0, pa_worst_case_profit = 0, pa_capital_required = 0,
       pa_gross_spread_pct = 0, pa_expected_net_pct = 0, pa_worst_case_pct = 0, pa_net_roi_pct = 0,
       pa_required_min_profit = ts_min_profit_usd t,
       pa_required_min_worst_case = ts_min_worst_case_profit_usd t,
       pa_required_min_roi_pct = ts_min_roi_pct t, pa_expected_costs = no_costs,
       pa_worst_case_costs = no_costs, pa_decision = BLOCKED, pa_reasons = reasons,
       pa_explanation = Msg ''Blocked because'' (map AMsg reasons),
       pa_buy_execution_price = 0, pa_sell_execution_price = 0\<rparr>)"

definition profit_assess :: "profit_guard_inputs \<Rightarrow> int \<Rightarrow> profit_assessment" where
  "profit_assess i now =
     (let e = economics_of i; buy = pgi_buy i; sell = pgi_sell i in
      if ec_size e \<le> 0 then blocked_assessment i [Msg ''trade size is zero'' []]
      else
        let reasons = size_reasons i now @ gas_reasons i @ flash_reasons i @ threshold_reasons i in
        \<lparr>pa_gross_profit = ec_gross e, pa_expected_net_profit = expected_net_of i,
         pa_worst_case_profit = worst_case_of i, pa_capital_required = capital_required i,
         pa_gross_spread_pct =
           pct (dsub (eq_reference_price sell) (eq_reference_price buy)) (eq_reference_price buy),
         pa_expected_net_pct = pct (expected_net_of i) (ec_buy_ref e),
         pa_worst_case_pct = pct (worst_case_of i) (ec_buy_ref e),
         pa_net_roi_pct = roi_of i, pa_required_min_profit = min_profit_of i,
         pa_required_min_worst_case = min_worst_of i,
         pa_required_min_roi_pct = ts_min_roi_pct (s_trading (pgi_settings i)),
         pa_expected_costs = expected_costs i, pa_worst_case_costs = worst_costs i,
         pa_decision = (if reasons = [] then SAFE_TO_EXECUTE else BLOCKED), pa_reasons = reasons,
         pa_explanation = explain i reasons,
         pa_buy_execution_price = eq_avg_price buy, pa_sell_execution_price = eq_avg_price sell\<rparr>)"

subsection \<open>The two breakdowns are ordered\<close>

definition cost_le :: "cost_breakdown \<Rightarrow> cost_breakdown \<Rightarrow> bool" where
  "cost_le ex wc \<longleftrightarrow> list_all2 (\<le>) (cost_fields ex) (cost_fields wc)"

definition costs_ok :: "cost_pair \<Rightarrow> bool" where
  "costs_ok = (\<lambda>(ex, wc). cost_le ex wc \<and> drepr (cb_slippage wc) \<and> 0 \<le> cb_gas wc \<and> drepr (cb_gas wc))"

definition priced_leg :: "execution_quote \<Rightarrow> bool" where
  "priced_leg q \<longleftrightarrow> 0 \<le> eq_base_amount q \<and> 0 \<le> eq_reference_price q \<and> 0 \<le> eq_avg_price q \<and>
     (\<forall>p. eq_fee_pct q = Some p \<longrightarrow> 0 \<le> p) \<and> (\<forall>f. eq_fee_in_quote q = Some f \<longrightarrow> 0 \<le> f \<and> drepr f)"

definition sane_settings :: "app_settings \<Rightarrow> bool" where
  "sane_settings s \<longleftrightarrow>
     1 \<le> ts_worst_case_fee_multiplier (s_trading s) \<and>
     1 \<le> ts_worst_case_slippage_multiplier (s_trading s) \<and>
     1 \<le> gas_stress_multiplier (s_gas s) \<and>
     0 \<le> ts_latency_allowance_pct (s_trading s) \<and> 0 \<le> ts_partial_fill_allowance_pct (s_trading s) \<and>
     0 \<le> ts_failure_reserve_pct (s_trading s) \<and>
     (\<forall>p. ts_unknown_fee_fallback_pct (s_trading s) = Some p \<longrightarrow> 0 \<le> p) \<and>
     0 \<le> fls_max_slippage_bps (s_flash_loan s) \<and> 0 \<le> fls_mev_reserve_pct (s_flash_loan s) \<and>
     0 \<le> gas_conservative_gas_fallback_usd (s_gas s) \<and> drepr (gas_conservative_gas_fallback_usd (s_gas s))"

definition sane_gas :: "gas_assessment \<Rightarrow> bool" where
  "sane_gas g \<longleftrightarrow> ga_expected_gas_cost_usd g \<le> ga_stress_gas_cost_usd g \<and> 0 \<le> ga_stress_gas_cost_usd g \<and>
     drepr (ga_stress_gas_cost_usd g) \<and> 0 \<le> ga_priority_fee_usd g \<and> drepr (ga_priority_fee_usd g)"

definition sane_inputs :: "profit_guard_inputs \<Rightarrow> bool" where
  "sane_inputs i \<longleftrightarrow> priced_leg (pgi_buy i) \<and> priced_leg (pgi_sell i) \<and> sane_settings (pgi_settings i) \<and>
     (\<forall>g. pgi_gas i = Some g \<longrightarrow> sane_gas g) \<and> 0 \<le> pgi_quote_usd_rate i \<and> drepr (pgi_funding_cost_usd i)"

lemma dadd_dneg_nonneg: "drepr d \<Longrightarrow> d \<le> n \<Longrightarrow> 0 \<le> dadd n (dneg d)"
  by (simp add: dneg_exact dadd_def dec.rnd_nonneg)

lemma cex_fee_ok:
  assumes "cex_fee leg n d t is_buy = Some f" and "priced_leg leg" and "0 \<le> n" and "0 \<le> d" "drepr d" "\<not> is_buy \<Longrightarrow> d \<le> n"
    and "\<forall>p. ts_unknown_fee_fallback_pct t = Some p \<longrightarrow> 0 \<le> p"
  shows "0 \<le> f \<and> drepr f"
  using assms by (auto simp: cex_fee_def priced_leg_def intro!: ddiv_nonneg dmul_nonneg dadd_nonneg dadd_dneg_nonneg
      split: option.splits if_splits)

lemma dex_parts_ok:
  assumes "dex_parts leg n d = (f, m, r)" and "priced_leg leg" and "0 \<le> n" "0 \<le> d" "drepr d"
  shows "0 \<le> f \<and> drepr f \<and> f \<le> d" and "0 \<le> m \<and> drepr m \<and> m \<le> dsub d f" and "0 \<le> r \<and> drepr r"
proof -
  have f: "f = (case eq_fee_pct leg of Some p \<Rightarrow> min d (ddiv (dmul n p) 100) | None \<Rightarrow> 0)"
    and m: "m = (if 0 < eq_price_impact_pct leg then min (dsub d f) (ddiv (dmul n (eq_price_impact_pct leg)) 100) else 0)"
    and r: "r = max 0 (dsub (dsub d f) m)"
    using assms(1) by (auto simp: dex_parts_def Let_def)
  show F: "0 \<le> f \<and> drepr f \<and> f \<le> d"
    using assms by (auto simp: f priced_leg_def intro!: ddiv_nonneg dmul_nonneg split: option.split)
  have "0 \<le> dsub d f" using F by (intro dsub_nonneg) simp
  with assms(3) show "0 \<le> m \<and> drepr m \<and> m \<le> dsub d f"
    by (auto simp: m intro!: ddiv_nonneg dmul_nonneg)
  show "0 \<le> r \<and> drepr r" by (simp add: r)
qed

lemma attribute_leg_ok:
  assumes "costs_ok p" and "priced_leg leg" and "0 \<le> n" "0 \<le> d" "drepr d" "\<not> is_buy \<Longrightarrow> d \<le> n"
    and "1 \<le> ts_worst_case_fee_multiplier t" "1 \<le> ts_worst_case_slippage_multiplier t"
    and "\<forall>p. ts_unknown_fee_fallback_pct t = Some p \<longrightarrow> 0 \<le> p"
  shows "costs_ok (attribute_leg leg n d t is_buy p)"
proof (cases "eq_kind leg = DEX")
  case True
  obtain f m r where "dex_parts leg n d = (f, m, r)" by (cases "dex_parts leg n d")
  with True assms dex_parts_ok [OF this assms(2-5)] show ?thesis
    by (cases p) (auto simp: attribute_leg_def Let_def costs_ok_def cost_le_def cost_fields_def intro!: dadd_mono dmul_ge)
next
  case False
  define f where "f = (case cex_fee leg n d t is_buy of Some f \<Rightarrow> f | None \<Rightarrow> 0)"
  have "0 \<le> f \<and> drepr f"
    using cex_fee_ok [OF _ assms(2-6,9)] by (auto simp: f_def split: option.split)
  with False assms show ?thesis
    unfolding attribute_leg_def f_def [symmetric]
    by (cases p) (auto simp: Let_def costs_ok_def cost_le_def cost_fields_def intro!: dadd_mono dmul_ge split: option.split)
qed

lemma leg_costs_ok:
  assumes "costs_ok p" and "sane_inputs i"
  shows "costs_ok (leg_costs i p)"
proof -
  let ?e = "economics_of i"
  have size: "0 \<le> ec_size ?e" and buy: "0 \<le> ec_buy_ref ?e" and sell: "0 \<le> ec_sell_ref ?e"
    using assms(2) by (auto simp: sane_inputs_def priced_leg_def economics_of_def Let_def intro!: dmul_nonneg)
  have "0 \<le> ec_sell_exec ?e" using assms(2)
    by (auto simp: sane_inputs_def priced_leg_def economics_of_def Let_def intro!: dmul_nonneg)
  then have "ec_sell_dev ?e \<le> ec_sell_ref ?e"
    using sell by (auto simp: economics_of_def Let_def intro!: dsub_le)
  moreover have "0 \<le> ec_buy_dev ?e" "drepr (ec_buy_dev ?e)" "0 \<le> ec_sell_dev ?e" "drepr (ec_sell_dev ?e)"
    by (simp_all add: economics_of_def Let_def)
  ultimately show ?thesis
    using assms buy sell unfolding leg_costs_def Let_def comp_def sane_inputs_def sane_settings_def
    by (intro attribute_leg_ok) simp_all
qed

lemma gas_costs_ok: "costs_ok p \<Longrightarrow> sane_inputs i \<Longrightarrow> costs_ok (gas_costs i p)"
  by (cases p) (auto simp: gas_costs_def costs_ok_def cost_le_def cost_fields_def sane_inputs_def sane_settings_def
      sane_gas_def Let_def intro!: dmul_ge dmul_nonneg split: option.split)

lemma transfer_costs_ok: "costs_ok p \<Longrightarrow> costs_ok (transfer_costs i p)"
  by (cases p) (auto simp: transfer_costs_def transfer_costs_one_def opt_or_def costs_ok_def cost_le_def
      cost_fields_def split: option.split)

lemma funding_costs_ok:
  assumes "costs_ok p" and "sane_inputs i"
  shows "costs_ok (funding_costs i p)"
proof -
  have "x \<le> ddiv x 2" if "x \<le> 0" "drepr x" for x
    using that by (simp add: ddiv_def dec.rnd_ge)
  with assms show ?thesis
    by (cases p) (auto simp: funding_costs_def costs_ok_def cost_le_def cost_fields_def sane_inputs_def
        sane_settings_def intro!: dmul_ge)
qed

lemma round_trip_costs_ok: "costs_ok p \<Longrightarrow> costs_ok (round_trip_costs i p)"
  by (cases p) (auto simp: round_trip_costs_def scale_round_trips_def costs_ok_def cost_le_def
      cost_fields_def intro!: dmul_mono)

lemma allowances_ok:
  assumes "costs_ok p" and "sane_inputs i" and "0 \<le> n"
  shows "costs_ok (allowances i n p)"
proof -
  have s: "sane_settings (pgi_settings i)" using assms(2) by (simp add: sane_inputs_def)
  have half: "dmul x (5/10) \<le> x" if "0 \<le> x" "drepr x" for x
    using that by (auto simp: dmul_def intro!: dec.rnd_le)
  have twice: "x \<le> dadd (dmul x 2) y" if "0 \<le> x" "drepr x" "0 \<le> y" for x y
    using that dmul_ge [of x 2] dadd_ge [of "dmul x 2" y] by simp
  show ?thesis
  proof (cases "pgi_flash_loan i = None")
    case True
    with assms s show ?thesis
      by (cases p) (auto simp: allowances_def Let_def costs_ok_def cost_le_def cost_fields_def sane_settings_def
          intro!: dmul_ge twice ddiv_nonneg dmul_nonneg)
  next
    case False
    have "x \<le> dadd y (ddiv (dmul n (of_int (fls_max_slippage_bps (s_flash_loan (pgi_settings i))))) 10000)"
      if "x \<le> y" "drepr y" for x y
      using s assms(3) that(1) dadd_ge [OF that(2)]
      by (meson ddiv_nonneg dmul_nonneg of_int_0_le_iff order_trans sane_settings_def zero_le_numeral)
    with False assms half show ?thesis
      by (cases p) (auto simp: allowances_def Let_def costs_ok_def cost_le_def cost_fields_def)
  qed
qed

lemma flash_costs_ok:
  assumes "costs_ok p" and "sane_inputs i" and "0 \<le> n"
  shows "costs_ok (flash_costs i n p)"
  using assms by (cases p) (auto simp: flash_costs_def Let_def costs_ok_def cost_le_def cost_fields_def
      sane_inputs_def sane_settings_def intro!: dmul_ge ddiv_nonneg dmul_nonneg split: option.split)

lemma raw_costs_ok:
  assumes "sane_inputs i"
  shows "costs_ok (raw_costs i)"
proof -
  have "costs_ok (no_costs, no_costs)"
    by (simp add: costs_ok_def cost_le_def cost_fields_def no_costs_def)
  moreover have "0 \<le> ec_buy_ref (economics_of i)"
    using assms by (auto simp: sane_inputs_def priced_leg_def economics_of_def Let_def intro!: dmul_nonneg)
  ultimately show ?thesis
    using assms unfolding raw_costs_def Let_def comp_def
    by (intro flash_costs_ok allowances_ok round_trip_costs_ok funding_costs_ok transfer_costs_ok
        gas_costs_ok leg_costs_ok)
qed

lemma cost_total_le: "sane_inputs i \<Longrightarrow> cost_total (expected_costs i) \<le> cost_total (worst_costs i)"
  using raw_costs_ok [of i]
  by (auto simp: costs_ok_def cost_le_def cost_total_def expected_costs_def worst_costs_def cost_fields_def
      intro!: dsum_mono split: prod.splits)

lemma sane_profile: "sane_settings s \<Longrightarrow> sane_settings (apply_risk_profile s p)"
  by (cases p) (simp_all add: sane_settings_def conservative_profile_def balanced_profile_def)

lemma sane_defaults: "sane_settings app_defaults"
  by (simp add: sane_settings_def app_defaults_def trading_defaults_def gas_defaults_def
      flash_loan_defaults_def drepr_numeral)

lemma sane_gas_assess:
  assumes "1 \<le> gas_stress_multiplier gs" "0 \<le> legs" "0 \<le> gas_limit" "\<And>n. cu = Some n \<Longrightarrow> 0 \<le> n"
    and "\<And>s. os = Some s \<Longrightarrow> 0 \<le> gsn_gas_price_native s \<and> 0 \<le> gsn_priority_fee_native s \<and> 0 \<le> gsn_native_usd s \<and>
      0 \<le> gsn_l1_data_fee_usd s \<and> 0 \<le> gsn_base_fee_lamports s"
  shows "sane_gas (gas_assess gs b os gas_limit gross cu mo legs now)"
proof (cases os)
  case None
  then show ?thesis by (simp add: gas_assess_def gas_unknown_def sane_gas_def)
next
  case (Some s)
  have cu: "0 \<le> compute_units_of cu gas_limit"
    using assms(3,4) by (simp add: compute_units_of_def or_int_def split: option.split)
  have e: "0 \<le> dmul (estimate_cost_usd s gas_limit cu) (of_int legs)"
    using assms(2-5) Some by (intro dmul_nonneg estimate_cost_nonneg) auto
  have "0 \<le> priority_usd_of s gas_limit cu legs"
    using assms(2-4) assms(5) [of s] Some cu
    by (auto simp: priority_usd_of_def priority_lamports_of_def LAMPORTS_def GWEI_def intro!: dmul_nonneg ddiv_nonneg)
  moreover have "drepr (priority_usd_of s gas_limit cu legs)" by (simp add: priority_usd_of_def)
  ultimately show ?thesis
    using e assms(1) Some by (simp add: gas_assess_def sane_gas_def Let_def dmul_ge dmul_nonneg)
qed

lemmas profit_reasons_defs = size_reasons_def gas_reasons_def flash_reasons_def threshold_reasons_def

lemma safe_no_reasons:
  assumes "pa_decision (profit_assess i now) = SAFE_TO_EXECUTE"
  shows "0 < ec_size (economics_of i)" "size_reasons i now = []" "gas_reasons i = []"
    "flash_reasons i = []" "threshold_reasons i = []"
  using assms by (auto simp: profit_assess_def blocked_assessment_def Let_def split: if_splits)

lemma profit_assess_fields:
  assumes "0 < ec_size (economics_of i)"
  shows "pa_expected_net_profit (profit_assess i now) = expected_net_of i"
    "pa_worst_case_profit (profit_assess i now) = worst_case_of i"
    "pa_net_roi_pct (profit_assess i now) = roi_of i"
    "pa_required_min_profit (profit_assess i now) = min_profit_of i"
    "pa_required_min_worst_case (profit_assess i now) = min_worst_of i"
    "pa_expected_costs (profit_assess i now) = expected_costs i"
    "pa_worst_case_costs (profit_assess i now) = worst_costs i"
    "pa_reasons (profit_assess i now) =
       size_reasons i now @ gas_reasons i @ flash_reasons i @ threshold_reasons i"
  using assms by (simp_all add: profit_assess_def Let_def)

lemma half_bound:
  fixes K :: rat
  assumes "B' \<le> d" "A' \<le> d" "C \<le> A + B" "A * (2 * K) \<le> A'" "B * (2 * K) \<le> B'" "0 \<le> K"
  shows "C * K \<le> d"
proof -
  have "C * K \<le> (A + B) * K" by (rule mult_right_mono) (rule assms)+
  also have "\<dots> = (A * (2 * K) + B * (2 * K)) / 2" by (simp add: algebra_simps)
  also have "\<dots> \<le> (A' + B') / 2" using assms(4,5) by (intro divide_right_mono add_mono) simp_all
  finally show ?thesis using assms(1,2) by simp
qed

lemma dex_parts_sum:
  assumes "dex_parts leg n d = (f, m, r)" and "priced_leg leg" and "0 \<le> n" "0 \<le> d" "drepr d"
  shows "\<bar>f + m + r - d\<bar> * 10 ^ 33 \<le> d"
proof -
  note p = dex_parts_ok [OF assms]
  have r: "r = dround (dround (d - f) - m)"
    using assms(1) p(2) dsub_nonneg [of m "dsub d f"] by (auto simp: dex_parts_def Let_def dsub_def)
  have "\<bar>dround x - x\<bar> * (2 * 10 ^ 33) \<le> \<bar>x\<bar>" for x
    using round_sig_relative_error [of 10 34 x] by (simp add: dround_def)
  note e1 = this [of "d - f"] and e2 = this [of "dround (d - f) - m"]
  have "dround (d - f) \<le> d" using p(1) assms(5) by (intro dec.rnd_le) simp_all
  then have "\<bar>dround (d - f) - m\<bar> \<le> d" using p(2) by (simp add: dsub_def)
  moreover have "\<bar>d - f\<bar> \<le> d" using p(1) by simp
  moreover have "\<bar>f + m + r - d\<bar> \<le> \<bar>dround (d - f) - (d - f)\<bar> + \<bar>r - (dround (d - f) - m)\<bar>" by linarith
  ultimately show ?thesis using e1 e2 unfolding r by (rule half_bound) simp
qed

subsection \<open>Properties\<close>



text \<open>An unknown cost is never taken as zero: when a centralised leg has no fee information and
  no fallback is configured, when the gas of an on-chain route is unknown and the policy is to
  block, or when a transfer fee is unknown, the assessment is blocked.\<close>

theorem unknown_cost_blocks:
  assumes "(eq_kind (pgi_buy i) \<noteq> DEX \<and> eq_fee_pct (pgi_buy i) = None \<and> eq_fee_in_quote (pgi_buy i) = None \<and>
        ts_unknown_fee_fallback_pct (s_trading (pgi_settings i)) = None) \<or>
      (eq_kind (pgi_sell i) \<noteq> DEX \<and> eq_fee_pct (pgi_sell i) = None \<and> eq_fee_in_quote (pgi_sell i) = None \<and>
        ts_unknown_fee_fallback_pct (s_trading (pgi_settings i)) = None) \<or>
      (on_chain i \<and> pgi_gas i = None \<and> gas_unknown_gas_policy (s_gas (pgi_settings i)) = ''block'') \<or>
      pgi_bridge_fee_usd i = None \<or> pgi_withdrawal_fee_usd i = None \<or> pgi_deposit_fee_usd i = None"
  shows "pa_decision (profit_assess i now) = BLOCKED"
proof -
  have "unknown_costs i \<noteq> []"
    using assms by (auto simp: unknown_costs_def leg_unknown_def cex_fee_def gas_unknown_costs_def
        transfer_unknown_def Let_def)
  then have "threshold_reasons i \<noteq> []"
    by (simp add: threshold_reasons_def expected_costs_def Let_def)
  then show ?thesis using safe_no_reasons(5) [of i now] by (cases "pa_decision (profit_assess i now)") auto
qed

text \<open>The deviation of a router quote is attributed completely: pool fee, price impact and
  residual slippage are non-negative and add up to the deviation, up to the rounding of the two
  subtractions (at most one part in ten to the 33).\<close>

theorem dex_attribution_complete:
  assumes "priced_leg leg" and "0 \<le> n" "0 \<le> d" "drepr d"
  shows "case dex_parts leg n d of (fee, impact, residual) \<Rightarrow>
    0 \<le> fee \<and> 0 \<le> impact \<and> 0 \<le> residual \<and> \<bar>fee + impact + residual - d\<bar> * 10 ^ 33 \<le> d"
proof -
  obtain f m r where d: "dex_parts leg n d = (f, m, r)" by (cases "dex_parts leg n d")
  from dex_parts_ok [OF d assms] dex_parts_sum [OF d assms] show ?thesis by (simp add: d)
qed

text \<open>On Solana the gas estimate already contains the priority fee, and the breakdown adds the
  priority fee once more: with no base fee the two cost fields of an assessed route are equal.\<close>

theorem priority_fee_in_gas:
  assumes "gsn_chain s = SOLANA" and "gsn_base_fee_lamports s = 0" and "on_chain i"
    and "pgi_gas i = Some (gas_assess gs b (Some s) gas_limit gross cu mo legs now)"
  shows "cb_priority_fee (expected_costs i) = cb_gas (expected_costs i)"
proof -
  have "ga_priority_fee_usd (gas_assess gs b (Some s) gas_limit gross cu mo legs now) =
      ga_expected_gas_cost_usd (gas_assess gs b (Some s) gas_limit gross cu mo legs now)"
    using assms(1,2) by (simp add: gas_assess_def Let_def priority_usd_of_def estimate_cost_usd_def
        priority_lamports_of_def)
  with assms(3,4) show ?thesis
    by (simp add: expected_costs_def raw_costs_def gas_costs_def flash_costs_def allowances_def
        round_trip_costs_def funding_costs_def transfer_costs_def transfer_costs_one_def
        scale_round_trips_def Let_def split_def split: option.split)
qed

subsection \<open>Witnesses\<close>

definition demo_inputs :: profit_guard_inputs where
  "demo_inputs = \<lparr>pgi_buy = demo_leg ''kraken'' BUY 100 (Some (24/10)),
     pgi_sell = demo_leg ''coinbase'' SELL 120 (Some 1), pgi_settings = app_defaults, pgi_gas = None,
     pgi_quote_usd_rate = 1, pgi_experience_extra_pct = 0, pgi_flash_loan = None,
     pgi_funding_cost_usd = 0, pgi_bridge_fee_usd = Some 0, pgi_withdrawal_fee_usd = Some 0,
     pgi_deposit_fee_usd = Some 0, pgi_stablecoin_haircut_pct = 0, pgi_round_trips = 1\<rparr>"

lemma demo_economics: "economics_of demo_inputs = \<lparr>ec_size = 10, ec_buy_ref = 1000, ec_sell_ref = 1200,
    ec_gross = 200, ec_buy_exec = 1000, ec_sell_exec = 1200, ec_buy_dev = 0, ec_sell_dev = 0\<rparr>"
  by (simp add: economics_of_def demo_inputs_def demo_leg_def dec_defs dround_eval)

lemma demo_costs: "raw_costs demo_inputs =
   (no_costs\<lparr>cb_buy_trading_fee := 24, cb_sell_trading_fee := 12, cb_rebalance_allowance := 3/10,
      cb_latency_allowance := 3/10, cb_partial_fill_allowance := 2/10, cb_failure_reserve := 2/10,
      cb_safety_buffer := 5/10\<rparr>,
    no_costs\<lparr>cb_buy_trading_fee := 30, cb_sell_trading_fee := 15, cb_rebalance_allowance := 3/10,
      cb_latency_allowance := 6/10, cb_partial_fill_allowance := 4/10, cb_failure_reserve := 4/10,
      cb_safety_buffer := 5/10\<rparr>)"
  unfolding raw_costs_def leg_costs_def demo_economics Let_def comp_def
  by (simp add: demo_inputs_def demo_leg_def attribute_leg_def cex_fee_def maker_diff_def gas_costs_def
      on_chain_def transfer_costs_def transfer_costs_one_def opt_or_def funding_costs_def
      round_trip_costs_def allowances_def flash_costs_def buffer_pct_of_def no_costs_def
      app_defaults_def trading_defaults_def flash_loan_defaults_def dec_defs dround_eval Let_def)

lemma demo_unknown: "unknown_costs demo_inputs = []"
  unfolding unknown_costs_def demo_economics
  by (simp add: demo_inputs_def demo_leg_def leg_unknown_def cex_fee_def gas_unknown_costs_def
      on_chain_def transfer_unknown_def Let_def)

lemma demo_fields:
  "pgi_buy demo_inputs = demo_leg ''kraken'' BUY 100 (Some (24/10))"
  "pgi_sell demo_inputs = demo_leg ''coinbase'' SELL 120 (Some 1)"
  "pgi_flash_loan demo_inputs = None" "pgi_gas demo_inputs = None" "pgi_settings demo_inputs = app_defaults"
  "\<not> on_chain demo_inputs"
  by (simp_all add: demo_inputs_def on_chain_def demo_leg_def)

lemma demo_expected: "expected_costs demo_inputs =
    no_costs\<lparr>cb_buy_trading_fee := 24, cb_sell_trading_fee := 12, cb_rebalance_allowance := 3/10,
      cb_latency_allowance := 3/10, cb_partial_fill_allowance := 2/10, cb_failure_reserve := 2/10,
      cb_safety_buffer := 5/10\<rparr>"
  by (simp add: expected_costs_def demo_costs demo_unknown no_costs_def)

lemma demo_worst: "worst_costs demo_inputs =
    no_costs\<lparr>cb_buy_trading_fee := 30, cb_sell_trading_fee := 15, cb_rebalance_allowance := 3/10,
      cb_latency_allowance := 6/10, cb_partial_fill_allowance := 4/10, cb_failure_reserve := 4/10,
      cb_safety_buffer := 5/10\<rparr>"
  by (simp add: worst_costs_def demo_costs demo_unknown no_costs_def)

lemma demo_net: "expected_net_of demo_inputs = 325/2" "worst_case_of demo_inputs = 764/5"
    "roi_of demo_inputs = 8125/512"
  by (simp_all add: expected_net_of_def worst_case_of_def roi_of_def capital_required_def demo_expected
      demo_worst demo_economics demo_fields cost_total_def cost_fields_def no_costs_def dsum_def
      dec_defs dround_eval pct_def)

lemma demo_safe: "pa_decision (profit_assess demo_inputs 1500) = SAFE_TO_EXECUTE"
proof -
  have "size_reasons demo_inputs 1500 = []"
    by (simp add: size_reasons_def demo_fields demo_leg_def eq_age_ms_def app_defaults_def
        trading_defaults_def risk_defaults_def)
  moreover have "gas_reasons demo_inputs = []" "flash_reasons demo_inputs = []"
    by (simp_all add: gas_reasons_def flash_reasons_def demo_fields)
  moreover have "threshold_reasons demo_inputs = []"
    by (simp add: threshold_reasons_def demo_net demo_expected demo_fields gas_regime_of_def
        min_profit_of_def min_worst_of_def scale_threshold_def Let_def no_costs_def app_defaults_def
        trading_defaults_def)
  ultimately show ?thesis by (simp add: profit_assess_def demo_economics Let_def)
qed


lemma demo_sane: "sane_inputs demo_inputs"
  by (simp add: sane_inputs_def priced_leg_def demo_inputs_def demo_leg_def sane_defaults)


theorem unknown_cost_blocks_witness:
  "pa_decision (profit_assess (demo_inputs\<lparr>pgi_buy := demo_leg ''kraken'' BUY 100 None\<rparr>) 1500) = BLOCKED"
  by (rule unknown_cost_blocks) (simp add: demo_inputs_def demo_leg_def app_defaults_def trading_defaults_def)

theorem dex_attribution_complete_witness:
  "case dex_parts ((demo_leg ''base'' BUY 100 (Some (3/10)))\<lparr>eq_kind := DEX\<rparr>) 1000 7 of (fee, impact, residual) \<Rightarrow>
    0 \<le> fee \<and> 0 \<le> impact \<and> 0 \<le> residual \<and> \<bar>fee + impact + residual - 7\<bar> * 10 ^ 33 \<le> 7"
  by (rule dex_attribution_complete) (simp_all add: priced_leg_def demo_leg_def drepr_numeral)

definition demo_solana :: gas_snapshot where
  "demo_solana = demo_snapshot\<lparr>gsn_chain := SOLANA, gsn_base_fee_lamports := 0\<rparr>"

definition demo_solana_inputs :: profit_guard_inputs where
  "demo_solana_inputs = demo_inputs\<lparr>pgi_sell := (demo_leg ''solana'' SELL 120 None)\<lparr>eq_kind := DEX\<rparr>,
     pgi_gas := Some (gas_assess gas_defaults new_baseline (Some demo_solana) 200000 100 None None 1 1000)\<rparr>"

theorem priority_fee_in_gas_witness:
  "cb_priority_fee (expected_costs demo_solana_inputs) = cb_gas (expected_costs demo_solana_inputs)"
proof (rule priority_fee_in_gas)
  show "pgi_gas demo_solana_inputs =
      Some (gas_assess gas_defaults new_baseline (Some demo_solana) 200000 100 None None 1 1000)"
    by (simp add: demo_solana_inputs_def)
qed (simp_all add: demo_solana_inputs_def demo_solana_def on_chain_def)

end
