(* ===== verification/Risk_Engine.thy ===== *)
theory Risk_Engine
  imports Settings
begin

text \<open>
  Model of \<^verbatim>\<open>backend/fedr/engine/risk_engine.py\<close>: the portfolio snapshot, the hard limits, the
  score from 0 to 100 and the split of the capital. The code iterates over the Python set of the
  two venues; the order of that iteration only permutes reasons, and the model visits the buy
  venue first. The free-form \<open>factors\<close> of the result are for display and are not modelled.
\<close>

subsection \<open>The portfolio snapshot\<close>

definition SMALL_LIVE_TEST_MAX_NOTIONAL_USD :: decimal where
  "SMALL_LIVE_TEST_MAX_NOTIONAL_USD = 25"

record portfolio_state =
  po_total_capital_usd :: decimal
  po_usable_capital_usd :: decimal
  po_exposure_by_venue_usd :: "(string, decimal) dict"
  po_exposure_by_chain_usd :: "(string, decimal) dict"
  po_exposure_by_asset_usd :: "(string, decimal) dict"
  po_open_trades :: int
  po_daily_realized_pnl_usd :: decimal
  po_failed_trades_last_hour :: int
  po_venue_health :: "(string, venue_health) dict"
  po_available_balances :: "(string \<times> string, decimal) dict"
  po_unhedged_seconds :: int
  po_active_breakers :: "message list"
  po_gas_reserve_ok :: "(string, bool) dict"

record risk_request =
  \<comment> \<open>the keyword arguments of \<open>assess\<close>\<close>
  rq_strategy :: strategy
  rq_buy :: execution_quote
  rq_sell :: execution_quote
  rq_base :: string
  rq_quote :: string
  rq_notional_usd :: decimal
  rq_capital_required_usd :: decimal
  rq_gas_usd :: decimal
  rq_flash_loan_usd :: "decimal option"

definition rq_venues :: "risk_request \<Rightarrow> string list" where
  "rq_venues q = dedup [eq_venue (rq_buy q), eq_venue (rq_sell q)]"

definition rq_route :: "risk_request \<Rightarrow> string" where
  "rq_route q = eq_venue (rq_buy q) @ ''->'' @ eq_venue (rq_sell q)"

subsection \<open>Reasons\<close>

definition small_test_reasons :: "app_settings \<Rightarrow> risk_request \<Rightarrow> message list" where
  "small_test_reasons s q =
     (let live = s_live s; route = rq_route q in
      if gs_mode (s_general s) = LIVE \<and> la_stage live \<noteq> ''full'' then
        reason_if (rq_flash_loan_usd q \<noteq> None \<or> rq_strategy q = FLASH_LOAN)
          (Msg ''flash loans are not available during the small live test'' [])
        @ reason_if (strategy_value (rq_strategy q) \<noteq> la_small_test_strategy live)
          (Msg ''small live test allows only the selected strategy''
            [AStr (la_small_test_strategy live), AStr (strategy_value (rq_strategy q))])
        @ (case la_small_test_route live of
             None \<Rightarrow> [Msg ''select the small-live-test route in Settings before any live order'' []]
           | Some r \<Rightarrow> reason_if (route \<noteq> r)
               (Msg ''small live test allows only the selected route'' [AStr r, AStr route]))
        @ reason_if (SMALL_LIVE_TEST_MAX_NOTIONAL_USD < rq_notional_usd q)
          (Msg ''small live test caps notional''
            [ADec SMALL_LIVE_TEST_MAX_NOTIONAL_USD, ADec (rq_notional_usd q)])
      else [])"

definition hard_limit_reasons :: "app_settings \<Rightarrow> risk_request \<Rightarrow> portfolio_state \<Rightarrow> message list" where
  "hard_limit_reasons s q p =
     (let r = s_risk s; t = s_trading s; n = rq_notional_usd q in
      reason_if (rq_flash_loan_usd q = None \<and> ts_max_trade_size_usd t < n)
        (Msg ''trade size exceeds max'' [ADec n, ADec (ts_max_trade_size_usd t)])
      @ reason_if (n < ts_min_trade_size_usd t)
        (Msg ''trade size below minimum'' [ADec n, ADec (ts_min_trade_size_usd t)])
      @ po_active_breakers p
      @ reason_if (rs_max_concurrent_trades r \<le> po_open_trades p)
        (Msg ''max concurrent trades reached'' [AInt (po_open_trades p), AInt (rs_max_concurrent_trades r)])
      @ reason_if (po_daily_realized_pnl_usd p \<le> dneg (rs_max_daily_loss_usd r))
        (Msg ''daily loss limit hit'' [ADec (po_daily_realized_pnl_usd p), ADec (rs_max_daily_loss_usd r)])
      @ reason_if (rs_max_failed_trades_per_hour r \<le> po_failed_trades_last_hour p)
        (Msg ''too many failed trades in the last hour'' [AInt (po_failed_trades_last_hour p)])
      @ reason_if (rs_max_unhedged_seconds r < po_unhedged_seconds p)
        (Msg ''unhedged exposure open'' [AInt (po_unhedged_seconds p)])
      @ reason_if (rs_max_gas_usd r < rq_gas_usd q)
        (Msg ''gas exceeds risk max'' [ADec (rq_gas_usd q), ADec (rs_max_gas_usd r)])
      @ reason_if (rq_base q \<notin> set (rs_asset_allowlist r) \<or> rq_quote q \<notin> set (rs_asset_allowlist r))
        (Msg ''asset not on allowlist'' [AStr (rq_base q), AStr (rq_quote q)])
      @ (case rq_flash_loan_usd q of
           None \<Rightarrow> []
         | Some fl \<Rightarrow>
             reason_if (rs_max_flash_loan_usd r < fl)
               (Msg ''flash loan exceeds max'' [ADec fl, ADec (rs_max_flash_loan_usd r)])
             @ reason_if (rs_max_flash_loan_gas_usd r < rq_gas_usd q)
               (Msg ''flash loan gas exceeds max'' [ADec (rq_gas_usd q), ADec (rs_max_flash_loan_gas_usd r)])))"

definition is_carry :: "strategy \<Rightarrow> bool" where
  "is_carry st \<longleftrightarrow> st \<in> {SPOT_PERP, FUNDING, BASIS}"

definition exposure_reasons :: "app_settings \<Rightarrow> risk_request \<Rightarrow> portfolio_state \<Rightarrow> message list" where
  "exposure_reasons s q p =
     (let r = s_risk s; total = po_total_capital_usd p; n = rq_notional_usd q in
      if 0 < total then
        reason_if (rs_max_capital_usage_pct r < pct (rq_capital_required_usd q) total)
          (Msg ''capital usage exceeds max'' [ADec (pct (rq_capital_required_usd q) total),
             ADec (rs_max_capital_usage_pct r)])
        @ concat (map (\<lambda>v.
            let ex = dadd (dget (po_exposure_by_venue_usd p) v 0) n in
            reason_if (rs_max_exchange_exposure_pct r < pct ex total)
              (Msg ''exposure would reach'' [AStr v, ADec (pct ex total), ADec (rs_max_exchange_exposure_pct r)]))
            (rq_venues q))
        @ concat (map (\<lambda>leg.
            case eq_chain leg of
              None \<Rightarrow> []
            | Some c \<Rightarrow>
                let ex = dadd (dget (po_exposure_by_chain_usd p) (chain_value c) 0) n in
                reason_if (rs_max_chain_exposure_pct r < pct ex total)
                  (Msg ''exposure on chain would exceed''
                     [AStr (chain_value c), ADec (rs_max_chain_exposure_pct r)])) [rq_buy q, rq_sell q])
        @ (let carry = is_carry (rq_strategy q);
               ex = dadd (dget (po_exposure_by_asset_usd p) (rq_base q) 0) (if carry then n else 0) in
           reason_if (rs_max_asset_exposure_pct r < pct ex total)
             (Msg (if carry then ''exposure would exceed'' else ''exposure already exceeds'')
                [AStr (rq_base q), ADec (rs_max_asset_exposure_pct r)]))
      else reason_if (0 < rq_capital_required_usd q \<and> rq_flash_loan_usd q = None)
             (Msg ''no capital available'' []))"

definition need_quote :: "risk_request \<Rightarrow> decimal" where
  "need_quote q = dmul (eq_quote_amount (rq_buy q))
     (dadd 1 (ddiv (case eq_fee_pct (rq_buy q) of Some f \<Rightarrow> f | None \<Rightarrow> 0) 100))"

definition need_on_sell :: "risk_settings \<Rightarrow> risk_request \<Rightarrow> string \<times> decimal" where
  "need_on_sell r q =
     (if eq_kind (rq_sell q) = PERP
      then (rq_quote q, if rs_leverage_allowed r then ddiv (eq_quote_amount (rq_sell q)) 2
                        else eq_quote_amount (rq_sell q))
      else (rq_base q, eq_base_amount (rq_sell q)))"

definition balance_reason :: "portfolio_state \<Rightarrow> string \<Rightarrow> string \<Rightarrow> decimal \<Rightarrow> message list" where
  "balance_reason p venue asset need =
     (case map_of (po_available_balances p) (venue, asset) of
        None \<Rightarrow> [Msg ''balance unknown'' [AStr asset, AStr venue]]
      | Some have \<Rightarrow> reason_if (have < need) (Msg ''insufficient'' [AStr asset, AStr venue, ADec need, ADec have]))"

definition balance_reasons :: "app_settings \<Rightarrow> risk_request \<Rightarrow> portfolio_state \<Rightarrow> message list" where
  "balance_reasons s q p =
     (if rq_flash_loan_usd q = None then
        balance_reason p (eq_venue (rq_buy q)) (rq_quote q) (need_quote q)
        @ (case need_on_sell (s_risk s) q of
             (asset, need) \<Rightarrow> balance_reason p (eq_venue (rq_sell q)) asset need)
      else [])
     @ concat (map (\<lambda>leg.
         case eq_chain leg of
           None \<Rightarrow> []
         | Some c \<Rightarrow> reason_if (eq_kind leg = DEX \<and> map_of (po_gas_reserve_ok p) (chain_value c) = Some False)
             (Msg ''gas reserve is below the configured minimum'' [AStr (chain_value c)])) [rq_buy q, rq_sell q])"

definition health_of :: "portfolio_state \<Rightarrow> string \<Rightarrow> venue_health" where
  "health_of p v = dget (po_venue_health p) v UNKNOWN"

definition degraded_ok :: "risk_settings \<Rightarrow> venue_health \<Rightarrow> bool" where
  "degraded_ok r h \<longleftrightarrow> h = DEGRADED \<and> rs_allow_degraded_venues r"

definition health_reasons :: "app_settings \<Rightarrow> risk_request \<Rightarrow> portfolio_state \<Rightarrow> message list" where
  "health_reasons s q p = concat (map (\<lambda>v.
     reason_if (health_of p v \<noteq> HEALTHY \<and> \<not> degraded_ok (s_risk s) (health_of p v))
       (Msg ''venue is not healthy'' [AStr v])) (rq_venues q))"

subsection \<open>Score\<close>

definition slippage_total :: "risk_request \<Rightarrow> decimal" where
  "slippage_total q = dadd (dadd (dadd (eq_slippage_pct (rq_buy q)) (eq_slippage_pct (rq_sell q)))
     (eq_price_impact_pct (rq_buy q))) (eq_price_impact_pct (rq_sell q))"

definition usage_score :: "app_settings \<Rightarrow> risk_request \<Rightarrow> portfolio_state \<Rightarrow> int" where
  "usage_score s q p =
     (let r = s_risk s; total = po_total_capital_usd p in
      if 0 < total \<and> 0 < rs_max_capital_usage_pct r
      then trunc_int (min 30 (dmul (ddiv (pct (rq_capital_required_usd q) total) (rs_max_capital_usage_pct r)) 30))
      else 0)"

definition health_score :: "app_settings \<Rightarrow> risk_request \<Rightarrow> portfolio_state \<Rightarrow> int" where
  "health_score s q p = sum_list (map (\<lambda>v. if degraded_ok (s_risk s) (health_of p v) then 15 else 0) (rq_venues q))"

definition strategy_score :: "strategy \<Rightarrow> int" where
  "strategy_score st =
     (if st \<in> {DEX_DEX, FLASH_LOAN} then 15
      else if st \<in> {CEX_DEX, SPOT_PERP, FUNDING, BASIS} then 8 else 0)"

definition risk_score :: "app_settings \<Rightarrow> risk_request \<Rightarrow> portfolio_state \<Rightarrow> int \<Rightarrow> int" where
  "risk_score s q p now =
     (let r = s_risk s; age = max (eq_age_ms (rq_buy q) now) (eq_age_ms (rq_sell q) now);
          score = usage_score s q p + health_score s q p
            + trunc_int (min 25 (dmul (ddiv (slippage_total q) (max (rs_max_slippage_pct r) (1/100))) 25))
            + trunc_int (min 15 (dmul (ddiv (of_int age) (of_int (max (rs_max_quote_age_ms r) 1))) 15))
            + strategy_score (rq_strategy q)
            + (if \<not> eq_fully_fillable (rq_buy q) \<or> \<not> eq_fully_fillable (rq_sell q) then 15 else 0)
      in max 0 (min 100 score))"

definition risk_assess :: "app_settings \<Rightarrow> risk_request \<Rightarrow> portfolio_state \<Rightarrow> int \<Rightarrow> risk_assessment" where
  "risk_assess s q p now =
     (let score = risk_score s q p now;
          reasons = small_test_reasons s q @ hard_limit_reasons s q p @ exposure_reasons s q p
            @ balance_reasons s q p @ health_reasons s q p
            @ reason_if (rs_max_slippage_pct (s_risk s) < slippage_total q)
                (Msg ''combined slippage exceeds max'' [ADec (slippage_total q), ADec (rs_max_slippage_pct (s_risk s))])
            @ reason_if (ts_max_risk_score (s_trading s) < score)
                (Msg ''risk score exceeds maximum'' [AInt score, AInt (ts_max_risk_score (s_trading s))])
      in \<lparr>ra_score = score, ra_passed = (reasons = []), ra_reasons = reasons\<rparr>)"

subsection \<open>The split of the capital\<close>

record capital_split =
  cap_total :: decimal
  cap_usable :: decimal
  cap_reserved :: decimal
  cap_emergency_reserve :: decimal
  cap_inventory_reserve :: decimal
  cap_gas_reserve :: decimal
  cap_at_risk :: decimal

definition capital_breakdown :: "risk_settings \<Rightarrow> decimal \<Rightarrow> decimal \<Rightarrow> decimal \<Rightarrow> capital_split" where
  "capital_breakdown r tot gas at_risk =
     (let emergency = min tot (rs_emergency_reserve_usd r);
          inventory = ddiv (dmul (dsub tot emergency) (rs_inventory_reserve_pct r)) 100;
          usable = max 0 (dsub (dsub (dsub tot emergency) inventory) gas)
      in \<lparr>cap_total = tot, cap_usable = usable, cap_reserved = dadd (dadd emergency inventory) gas,
          cap_emergency_reserve = emergency, cap_inventory_reserve = inventory, cap_gas_reserve = gas,
          cap_at_risk = at_risk\<rparr>)"

subsection \<open>Lemmas\<close>

lemma risk_passed_iff: "ra_passed (risk_assess s q p now) \<longleftrightarrow> ra_reasons (risk_assess s q p now) = []"
  by (simp add: risk_assess_def Let_def)

lemma risk_passed_groups:
  assumes "ra_passed (risk_assess s q p now)"
  shows "small_test_reasons s q = []" "hard_limit_reasons s q p = []" "exposure_reasons s q p = []"
    "balance_reasons s q p = []" "health_reasons s q p = []"
    "slippage_total q \<le> rs_max_slippage_pct (s_risk s)"
    "ra_score (risk_assess s q p now) \<le> ts_max_risk_score (s_trading s)"
  using assms by (simp_all add: risk_assess_def Let_def not_less)

lemma risk_score_range: "0 \<le> risk_score s q p now \<and> risk_score s q p now \<le> 100"
  by (simp add: risk_score_def Let_def)

lemma balance_reason_Nil_iff:
  "balance_reason p v a need = [] \<longleftrightarrow> (\<exists>have. map_of (po_available_balances p) (v, a) = Some have \<and> need \<le> have)"
  by (auto simp: balance_reason_def not_less split: option.split)

subsection \<open>Properties\<close>


text \<open>The small live test: in live mode before the full stage, nothing passes but a trade of at most
  25 dollars with the selected strategy on the selected route and without a flash loan, whatever the
  other settings are.\<close>

theorem small_live_test_cap:
  assumes "gs_mode (s_general s) = LIVE" and "la_stage (s_live s) \<noteq> ''full''"
    and "ra_passed (risk_assess s q p now)"
  shows "rq_notional_usd q \<le> 25 \<and> strategy_value (rq_strategy q) = la_small_test_strategy (s_live s) \<and>
    la_small_test_route (s_live s) = Some (eq_venue (rq_buy q) @ ''->'' @ eq_venue (rq_sell q)) \<and>
    rq_strategy q \<noteq> FLASH_LOAN \<and> rq_flash_loan_usd q = None"
  using risk_passed_groups(1) [OF assms(3)] assms(1,2)
  by (auto simp: small_test_reasons_def SMALL_LIVE_TEST_MAX_NOTIONAL_USD_def rq_route_def Let_def not_less
      split: option.splits)

text \<open>A passed trade without a flash loan is funded: the buying venue holds the quote amount with
  its fee, and the selling venue holds the base amount (or the collateral of a perpetual short).\<close>

theorem risk_passed_funded:
  assumes "ra_passed (risk_assess s q p now)" and "rq_flash_loan_usd q = None"
  shows "(\<exists>have. map_of (po_available_balances p) (eq_venue (rq_buy q), rq_quote q) = Some have \<and>
       need_quote q \<le> have) \<and>
    (\<exists>have. map_of (po_available_balances p) (eq_venue (rq_sell q), fst (need_on_sell (s_risk s) q)) = Some have \<and>
       snd (need_on_sell (s_risk s) q) \<le> have)"
  using risk_passed_groups(4) [OF assms(1)] assms(2)
  by (auto simp: balance_reasons_def balance_reason_Nil_iff split: prod.splits)

text \<open>The split of the capital loses nothing: for amounts on a grid of eight decimals, a reserve
  share of two decimals and less than \<open>10\<^sup>1\<^sup>5\<close> dollars, the usable capital is never negative, and as
  long as the reserves fit into the total, usable and reserved capital add up to it exactly.\<close>

theorem capital_breakdown_conserves:
  assumes "on_grid 8 tot" "on_grid 8 (rs_emergency_reserve_usd r)" "on_grid 8 gas"
    and "on_grid 2 (rs_inventory_reserve_pct r)"
    and "0 \<le> tot" "tot < 10 ^ 15" "0 \<le> rs_emergency_reserve_usd r" "0 \<le> gas" "gas < 10 ^ 15"
    and "0 \<le> rs_inventory_reserve_pct r" "rs_inventory_reserve_pct r \<le> 100"
    and "c = capital_breakdown r tot gas at_risk"
  shows "0 \<le> cap_usable c \<and> cap_usable c \<le> tot \<and>
    (cap_emergency_reserve c + cap_inventory_reserve c + gas \<le> tot \<longrightarrow>
       cap_usable c + cap_reserved c = tot)"
proof -
  define em where "em = min tot (rs_emergency_reserve_usd r)"
  define p where "p = rs_inventory_reserve_pct r"
  have em: "on_grid 8 em" "0 \<le> em" "em \<le> tot" using assms by (simp_all add: em_def on_grid_min)
  have sub: "dsub tot em = tot - em" and gsub: "on_grid 8 (tot - em)"
    using em assms(1,6) by (auto intro!: dsub_exact on_grid_sub)
  define inv where "inv = (tot - em) * p / 100"
  have pp: "0 \<le> (tot - em) * p" "(tot - em) * p \<le> (tot - em) * 100"
    using em assms(10,11) by (simp add: p_def) (rule mult_left_mono, use em assms(11) in \<open>simp_all add: p_def\<close>)
  have "(tot - em) * p < 10 ^ 24"
    by (rule le_less_trans [OF pp(2)]) (use assms(6) em in simp)
  then have "\<bar>(tot - em) * p\<bar> * 10 ^ (8 + 2) < 10 ^ 34"
    unfolding abs_of_nonneg [OF pp(1)] by (simp add: mult.commute)
  then have gm: "on_grid 10 ((tot - em) * p)"
    using on_grid_mult [OF gsub, of 2 p] assms(4) by (simp only: p_def) simp
  then have "dmul (tot - em) p = (tot - em) * p" by (simp add: dmul_def dec.rnd_exact on_grid_drepr)
  moreover have g12: "on_grid 12 inv" using on_grid_percent [OF gm] by (simp add: inv_def)
  ultimately have inv: "ddiv (dmul (dsub tot em) p) 100 = inv" "0 \<le> inv" "inv \<le> tot - em"
    using pp sub by (simp_all add: ddiv_def inv_def dec.rnd_exact on_grid_drepr)
  have up: "on_grid 12 (tot - em)" "on_grid 12 em" "on_grid 12 gas"
    using gsub em assms(3,6,8,9) by (auto intro: on_grid_mono)
  have b1: "\<bar>tot - em - inv\<bar> * 10 ^ 12 < 10 ^ 34" "\<bar>em + inv\<bar> * 10 ^ 12 < 10 ^ 34"
    "\<bar>tot - em - inv - gas\<bar> * 10 ^ 12 < 10 ^ 34" "\<bar>em + inv + gas\<bar> * 10 ^ 12 < 10 ^ 34"
    using inv(2,3) em(2,3) assms(6,8,9) by (simp_all add: abs_less_iff)
  note d1 = dsub_exact [OF up(1) g12 b1(1)] on_grid_sub [OF up(1) g12 b1(1)]
  note d2 = dsub_exact [OF d1(2) up(3) b1(3)]
  note d3 = dadd_exact [OF up(2) g12 b1(2)] on_grid_add [OF up(2) g12 b1(2)]
  note d4 = dadd_exact [OF d3(2) up(3) b1(4)]
  have "cap_usable c = max 0 (tot - em - inv - gas)" "cap_reserved c = em + inv + gas"
    "cap_emergency_reserve c = em" "cap_inventory_reserve c = inv"
    by (simp_all add: assms(12) capital_breakdown_def em_def [symmetric] p_def [symmetric] inv(1) [unfolded sub] sub d1 d2 d3 d4 Let_def)
  with inv em assms(8) show ?thesis by auto
qed

subsection \<open>Witnesses\<close>

definition quiet_leg :: "string \<Rightarrow> order_side \<Rightarrow> execution_quote" where
  "quiet_leg venue side =
     \<lparr>eq_venue = venue, eq_kind = CEX, eq_symbol = ''BTC/USDC'', eq_side = side,
     eq_base_amount = 1, eq_quote_amount = 20, eq_avg_price = 20, eq_reference_price = 20,
     eq_slippage_pct = 0, eq_price_impact_pct = 0, eq_fully_fillable = True,
     eq_market_ts_ms = 1000, eq_quote_ts_ms = 1000, eq_fee_pct = Some (25/100),
     eq_fee_source = ''api'', eq_fee_in_quote = None, eq_gas_cost_usd = None, eq_gas_limit = None,
     eq_gas_price_native = None, eq_priority_fee_usd = 0, eq_min_received = None,
     eq_route = ''orderbook'', eq_quote_id = None, eq_chain = None, eq_levels_consumed = 1,
     eq_depth_available_base = 40, eq_is_maker = False, eq_extra_taker_fee_pct = None\<rparr>"

definition quiet_request :: risk_request where
  "quiet_request = \<lparr>rq_strategy = CEX_CEX, rq_buy = quiet_leg ''kraken'' BUY,
     rq_sell = quiet_leg ''coinbase'' SELL, rq_base = ''BTC'', rq_quote = ''USDC'', rq_notional_usd = 20,
     rq_capital_required_usd = 20, rq_gas_usd = 0, rq_flash_loan_usd = None\<rparr>"

definition quiet_portfolio :: portfolio_state where
  "quiet_portfolio = \<lparr>po_total_capital_usd = 1000, po_usable_capital_usd = 1000,
     po_exposure_by_venue_usd = [], po_exposure_by_chain_usd = [], po_exposure_by_asset_usd = [],
     po_open_trades = 0, po_daily_realized_pnl_usd = 0, po_failed_trades_last_hour = 0,
     po_venue_health = [(''kraken'', HEALTHY), (''coinbase'', HEALTHY)],
     po_available_balances = [((''kraken'', ''USDC''), 500), ((''coinbase'', ''BTC''), 2)],
     po_unhedged_seconds = 0, po_active_breakers = [], po_gas_reserve_ok = []\<rparr>"

definition live_settings :: app_settings where
  "live_settings = app_defaults\<lparr>s_general := general_defaults\<lparr>gs_mode := LIVE\<rparr>,
     s_live := live_defaults\<lparr>la_small_test_route := Some ''kraken->coinbase''\<rparr>\<rparr>"

lemma quiet_passes: "ra_passed (risk_assess live_settings quiet_request quiet_portfolio 1000)"
proof -
  have "small_test_reasons live_settings quiet_request = []"
    by (simp add: small_test_reasons_def live_settings_def quiet_request_def quiet_leg_def rq_route_def
        live_defaults_def SMALL_LIVE_TEST_MAX_NOTIONAL_USD_def app_defaults_def)
  moreover have "hard_limit_reasons live_settings quiet_request quiet_portfolio = []"
    by (simp add: hard_limit_reasons_def live_settings_def quiet_request_def quiet_portfolio_def
        app_defaults_def trading_defaults_def risk_defaults_def dec_defs dround_eval Let_def)
  moreover have "exposure_reasons live_settings quiet_request quiet_portfolio = []"
    by (simp add: exposure_reasons_def live_settings_def quiet_request_def quiet_portfolio_def rq_venues_def
        quiet_leg_def dedup_def app_defaults_def risk_defaults_def is_carry_def dget_def pct_def
        dec_defs dround_eval Let_def)
  moreover have "balance_reasons live_settings quiet_request quiet_portfolio = []"
    by (simp add: balance_reasons_def balance_reason_def need_quote_def need_on_sell_def live_settings_def
        quiet_request_def quiet_portfolio_def quiet_leg_def dec_defs dround_eval)
  moreover have "health_reasons live_settings quiet_request quiet_portfolio = []"
    by (simp add: health_reasons_def rq_venues_def dedup_def quiet_request_def quiet_leg_def
        quiet_portfolio_def health_of_def dget_def)
  moreover have "slippage_total quiet_request = 0"
    by (simp add: slippage_total_def quiet_request_def quiet_leg_def)
  moreover have "risk_score live_settings quiet_request quiet_portfolio 1000 \<le> 60"
    by (simp add: risk_score_def usage_score_def health_score_def rq_venues_def dedup_def quiet_request_def
        quiet_leg_def slippage_total_def eq_age_ms_def live_settings_def app_defaults_def risk_defaults_def
        quiet_portfolio_def health_of_def dget_def degraded_ok_def strategy_score_def pct_def
        dec_defs dround_eval trunc_int_def Let_def)
  moreover have "ts_max_risk_score (s_trading live_settings) = 60" "rs_max_slippage_pct (s_risk live_settings) = 30/100"
    by (simp_all add: live_settings_def app_defaults_def trading_defaults_def risk_defaults_def)
  ultimately show ?thesis by (simp add: risk_assess_def Let_def not_less)
qed


theorem small_live_test_cap_witness:
  "rq_notional_usd quiet_request \<le> 25 \<and>
   la_small_test_route (s_live live_settings) = Some ''kraken->coinbase''"
proof -
  have "gs_mode (s_general live_settings) = LIVE" "la_stage (s_live live_settings) \<noteq> ''full''"
    by (simp_all add: live_settings_def live_defaults_def)
  from small_live_test_cap [OF this quiet_passes] show ?thesis
    by (simp add: quiet_request_def quiet_leg_def)
qed

theorem risk_passed_funded_witness:
  "\<exists>have. map_of (po_available_balances quiet_portfolio) (''kraken'', ''USDC'') = Some have \<and>
     need_quote quiet_request \<le> have"
proof -
  have "rq_flash_loan_usd quiet_request = None" by (simp add: quiet_request_def)
  moreover have "eq_venue (rq_buy quiet_request) = ''kraken''" "rq_quote quiet_request = ''USDC''"
    by (simp_all add: quiet_request_def quiet_leg_def)
  ultimately show ?thesis using risk_passed_funded [OF quiet_passes] by metis
qed

theorem capital_breakdown_conserves_witness:
  "0 \<le> cap_usable (capital_breakdown risk_defaults 3000 50 0)"
proof -
  have g: "on_grid k (of_int n)" if "\<bar>n * 10 ^ k\<bar> < 10 ^ 34" for k n
    unfolding on_grid_def using that by (intro exI [of _ "n * 10 ^ k"]) simp
  have "on_grid 8 3000" "on_grid 8 200" "on_grid 8 50" "on_grid 2 10"
    using g [of 3000 8] g [of 200 8] g [of 50 8] g [of 10 2] by simp_all
  then show ?thesis
    using capital_breakdown_conserves [of 3000 risk_defaults 50 _ 0, OF _ _ _ _ _ _ _ _ _ _ _ refl]
    by (simp add: risk_defaults_def)
qed

end
