(* ===== verification/Circuit_Breakers.thy ===== *)
theory Circuit_Breakers
  imports Domain
begin

text \<open>
  Model of \<^verbatim>\<open>backend/fedr/engine/circuit_breakers.py\<close>. A breaker object is shared between the
  dictionary of active breakers and the history, and \<open>trip\<close> mutates its detail in place, so the
  manager keeps an explicit store: a list of breaker objects addressed by their index. The lock
  makes each operation atomic; the persistence callback is outside the model. Monotonic clock
  readings are binary floats, and their differences are rounded (\<open>fround\<close>).
\<close>

subsection \<open>State\<close>

record breaker =
  bk_reason :: breaker_reason
  bk_detail :: message
  bk_tripped_at_ms :: int
  bk_scope :: string
  bk_auto :: bool

record breaker_manager =
  cbm_store :: "breaker list"
  cbm_active :: "(string, nat) dict"
  cbm_history :: "nat list"
  cbm_counters :: "(string, rat list) dict"

definition new_manager :: breaker_manager where
  "new_manager = \<lparr>cbm_store = [], cbm_active = [], cbm_history = [], cbm_counters = []\<rparr>"

definition breaker_key :: "string \<Rightarrow> breaker_reason \<Rightarrow> string" where
  "breaker_key sc r = sc @ ''|'' @ breaker_value r"

definition active_breakers :: "breaker_manager \<Rightarrow> breaker list" where
  "active_breakers m = map (\<lambda>a. cbm_store m ! a) (vals (cbm_active m))"

subsection \<open>Queries\<close>

definition is_tripped :: "breaker_manager \<Rightarrow> string \<Rightarrow> bool" where
  "is_tripped m sc =
     (if ''global'' \<in> set (map bk_scope (active_breakers m)) then True
      else list_ex (\<lambda>b. bk_scope b = sc) (active_breakers m))"

definition names_scope :: "string \<Rightarrow> string option \<Rightarrow> string \<Rightarrow> bool" where
  \<comment> \<open>\<open>x and b.scope == f"<kind>:{x}"\<close>; None and the empty string are false\<close>
  "names_scope kind x sc = (case x of None \<Rightarrow> False | Some v \<Rightarrow> v \<noteq> '''' \<and> sc = kind @ v)"

definition block_message ::
  "string option \<Rightarrow> string option \<Rightarrow> string option \<Rightarrow> string option \<Rightarrow> breaker \<Rightarrow> message list" where
  "block_message venue chn strat symbol b =
     (let sc = bk_scope b; r = AStr (breaker_value (bk_reason b)); d = AMsg (bk_detail b) in
      if sc = ''global'' then [Msg ''circuit breaker active'' [r, d]]
      else if names_scope ''venue:'' venue sc then [Msg ''circuit breaker on'' [AStr (the venue), r, d]]
      else if names_scope ''chain:'' chn sc then [Msg ''circuit breaker on chain'' [AStr (the chn), r, d]]
      else if names_scope ''strategy:'' strat sc then [Msg ''circuit breaker on strategy'' [AStr (the strat), r]]
      else if names_scope ''symbol:'' symbol sc then [Msg ''circuit breaker on'' [AStr (the symbol), r, d]]
      else [])"

definition breaker_blocks ::
  "breaker_manager \<Rightarrow> string option \<Rightarrow> string option \<Rightarrow> string option \<Rightarrow> string option \<Rightarrow> message list" where
  "breaker_blocks m venue chn strat symbol =
     concat (map (block_message venue chn strat symbol) (active_breakers m))"

subsection \<open>Operations\<close>

definition push_bounded :: "nat \<Rightarrow> 'a \<Rightarrow> 'a list \<Rightarrow> 'a list" where
  \<comment> \<open>append to a \<open>deque(maxlen=n)\<close>\<close>
  "push_bounded n x xs = drop (length (xs @ [x]) - n) (xs @ [x])"

definition trip ::
  "breaker_manager \<Rightarrow> breaker_reason \<Rightarrow> message \<Rightarrow> string \<Rightarrow> bool \<Rightarrow> int \<Rightarrow> breaker_manager \<times> nat" where
  "trip m r detail sc auto now =
     (case map_of (cbm_active m) (breaker_key sc r) of
        None \<Rightarrow>
          let a = length (cbm_store m);
              b = \<lparr>bk_reason = r, bk_detail = detail, bk_tripped_at_ms = now, bk_scope = sc, bk_auto = auto\<rparr>
          in (m\<lparr>cbm_store := cbm_store m @ [b],
                cbm_active := AList.update (breaker_key sc r) a (cbm_active m),
                cbm_history := push_bounded 200 a (cbm_history m)\<rparr>, a)
      | Some a \<Rightarrow>
          (m\<lparr>cbm_store := (cbm_store m)[a := (cbm_store m ! a)\<lparr>bk_detail := detail\<rparr>]\<rparr>, a))"

definition reset_matches :: "breaker_reason option \<Rightarrow> string option \<Rightarrow> breaker \<Rightarrow> bool" where
  "reset_matches r sc b \<longleftrightarrow> (r = None \<or> r = Some (bk_reason b)) \<and> (sc = None \<or> sc = Some (bk_scope b))"

definition reset :: "breaker_manager \<Rightarrow> breaker_reason option \<Rightarrow> string option \<Rightarrow> breaker_manager \<times> int" where
  "reset m r sc =
     (let left = filter (\<lambda>(k, a). \<not> reset_matches r sc (cbm_store m ! a)) (cbm_active m)
      in (m\<lparr>cbm_active := left\<rparr>, int (length (cbm_active m)) - int (length left)))"

fun restore :: "breaker_manager \<Rightarrow> breaker list \<Rightarrow> breaker_manager" where
  "restore m [] = m"
| "restore m (b # bs) =
     restore (m\<lparr>cbm_store := cbm_store m @ [b],
                cbm_active := AList.update (breaker_key (bk_scope b) (bk_reason b)) (length (cbm_store m))
                  (cbm_active m)\<rparr>) bs"

subsection \<open>Rolling counters\<close>

definition prune :: "rat \<Rightarrow> rat \<Rightarrow> rat list \<Rightarrow> rat list" where
  \<comment> \<open>\<open>while dq and now - dq[0] > window_s: dq.popleft()\<close>\<close>
  "prune now window dq = dropWhile (\<lambda>t. window < fround (now - t)) dq"

definition record_event :: "breaker_manager \<Rightarrow> string \<Rightarrow> rat \<Rightarrow> rat \<Rightarrow> breaker_manager \<times> int" where
  "record_event m counter window now =
     (let dq = prune now window (dget (cbm_counters m) counter [] @ [now])
      in (m\<lparr>cbm_counters := AList.update counter dq (cbm_counters m)\<rparr>, int (length dq)))"

definition count_events :: "breaker_manager \<Rightarrow> string \<Rightarrow> rat \<Rightarrow> rat \<Rightarrow> breaker_manager \<times> int" where
  "count_events m counter window now =
     (let dq = prune now window (dget (cbm_counters m) counter [])
      in (m\<lparr>cbm_counters := AList.update counter dq (cbm_counters m)\<rparr>, int (length dq)))"

definition record_and_check ::
  "breaker_manager \<Rightarrow> string \<Rightarrow> int \<Rightarrow> breaker_reason \<Rightarrow> message \<Rightarrow> string \<Rightarrow> rat \<Rightarrow> rat \<Rightarrow> int \<Rightarrow>
   breaker_manager \<times> bool" where
  "record_and_check m counter threshold r detail sc window tick now =
     (let (m1, n) = record_event m counter window tick in
      if threshold \<le> n then (fst (trip m1 r (Msg ''in window'' [AMsg detail, AInt n]) sc True now), True)
      else (m1, False))"

subsection \<open>The manager as a transition system\<close>

datatype breaker_op =
    Trip breaker_reason message string
  | Reset "breaker_reason option" "string option"
  | Restore "breaker list"
  | Record string rat
  | Count string rat
  | Record_And_Check string int breaker_reason message string rat

inductive breaker_step :: "breaker_manager \<Rightarrow> breaker_op \<Rightarrow> breaker_manager \<Rightarrow> bool" where
  Trip: "breaker_step m (Trip r d sc) (fst (trip m r d sc auto now))"
| Reset: "breaker_step m (Reset r sc) (fst (reset m r sc))"
| Restore: "breaker_step m (Restore bs) (restore m bs)"
| Record: "breaker_step m (Record c w) (fst (record_event m c w tick))"
| Count: "breaker_step m (Count c w) (fst (count_events m c w tick))"
| Record_And_Check: "breaker_step m (Record_And_Check c n r d sc w) (fst (record_and_check m c n r d sc w tick now))"

inductive_cases breaker_stepE: "breaker_step m a m'"

inductive breaker_run :: "breaker_manager \<Rightarrow> breaker_op list \<Rightarrow> breaker_manager \<Rightarrow> bool" where
  Nil: "breaker_run m [] m"
| Cons: "breaker_step m a m' \<Longrightarrow> breaker_run m' as m'' \<Longrightarrow> breaker_run m (a # as) m''"

definition manager_wf :: "breaker_manager \<Rightarrow> bool" where
  "manager_wf m \<longleftrightarrow> wf_dict (cbm_active m) \<and> distinct (vals (cbm_active m)) \<and>
     (\<forall>(k, a) \<in> set (cbm_active m). a < length (cbm_store m) \<and>
        k = breaker_key (bk_scope (cbm_store m ! a)) (bk_reason (cbm_store m ! a))) \<and>
     (\<forall>a \<in> set (cbm_history m). a < length (cbm_store m)) \<and> length (cbm_history m) \<le> 200"

definition is_active :: "breaker_manager \<Rightarrow> breaker_reason \<Rightarrow> string \<Rightarrow> bool" where
  "is_active m r sc \<longleftrightarrow> (\<exists>b \<in> set (active_breakers m). bk_reason b = r \<and> bk_scope b = sc)"

subsection \<open>Lemmas\<close>

lemma bar_notin_value: "CHR ''|'' \<notin> set (breaker_value r)"
  by (cases r) simp_all

lemma append_bar_inject:
  "c \<notin> set v \<Longrightarrow> c \<notin> set w \<Longrightarrow> xs @ c # v = ys @ c # w \<longleftrightarrow> xs = ys \<and> v = w"
proof (induction xs arbitrary: ys)
  case Nil
  then show ?case by (cases ys) auto
next
  case (Cons x xs)
  show ?case
  proof (cases ys)
    case Nil
    then show ?thesis using Cons.prems(2) by auto
  next
    case (Cons y ys')
    then show ?thesis using Cons.IH [OF Cons.prems, of ys'] by auto
  qed
qed

lemma breaker_key_inject [simp]: "breaker_key sc r = breaker_key sc' r' \<longleftrightarrow> sc = sc' \<and> r = r'"
  by (simp add: breaker_key_def append_bar_inject bar_notin_value)

lemma manager_wf_new: "manager_wf new_manager"
  by (simp add: manager_wf_def new_manager_def vals_def)

lemma is_active_iff:
  assumes "manager_wf m"
  shows "is_active m r sc \<longleftrightarrow> breaker_key sc r \<in> dom (map_of (cbm_active m))"
proof
  assume "is_active m r sc"
  then obtain k a where ka: "(k, a) \<in> set (cbm_active m)" "bk_reason (cbm_store m ! a) = r" "bk_scope (cbm_store m ! a) = sc"
    by (auto simp: is_active_def active_breakers_def vals_def)
  then have "k = breaker_key sc r" using assms by (auto simp: manager_wf_def)
  with ka(1) show "breaker_key sc r \<in> dom (map_of (cbm_active m))"
    by (metis dom_map_of_conv_image_fst fst_conv rev_image_eqI)
next
  assume "breaker_key sc r \<in> dom (map_of (cbm_active m))"
  then obtain a where a: "(breaker_key sc r, a) \<in> set (cbm_active m)" by (auto dest: map_of_SomeD)
  with assms have "breaker_key sc r = breaker_key (bk_scope (cbm_store m ! a)) (bk_reason (cbm_store m ! a))"
    by (fastforce simp: manager_wf_def)
  with a show "is_active m r sc" by (force simp: is_active_def active_breakers_def vals_def)
qed

lemma set_update_subset: "set (AList.update k v d) \<subseteq> insert (k, v) (set d)"
  by (induction d) auto

lemma distinct_vals_update:
  "distinct (vals d) \<Longrightarrow> v \<notin> set (vals d) \<Longrightarrow> distinct (vals (AList.update k v d))"
  using set_update_subset [of k v] by (induction d) (fastforce simp: vals_def)+

lemma push_bounded_set: "set (push_bounded n x xs) \<subseteq> insert x (set xs)"
  by (auto simp: push_bounded_def dest: in_set_dropD)

lemma length_push_bounded: "length (push_bounded n x xs) \<le> n"
  by (simp add: push_bounded_def)

lemma manager_wf_add:
  assumes "manager_wf m" and "set h \<subseteq> insert (length (cbm_store m)) (set (cbm_history m))" "length h \<le> 200"
  shows "manager_wf (m\<lparr>cbm_store := cbm_store m @ [b],
      cbm_active := AList.update (breaker_key (bk_scope b) (bk_reason b)) (length (cbm_store m)) (cbm_active m),
      cbm_history := h\<rparr>)"
proof -
  have "length (cbm_store m) \<notin> set (vals (cbm_active m))"
    using assms(1) by (auto simp: manager_wf_def vals_def)
  then have "distinct (vals (AList.update (breaker_key (bk_scope b) (bk_reason b)) (length (cbm_store m)) (cbm_active m)))"
    using assms(1) by (intro distinct_vals_update) (simp_all add: manager_wf_def)
  then show ?thesis
    using assms set_update_subset [of "breaker_key (bk_scope b) (bk_reason b)" "length (cbm_store m)" "cbm_active m"]
    by (fastforce simp: manager_wf_def nth_append less_Suc_eq)
qed

lemma manager_wf_trip:
  assumes "manager_wf m"
  shows "manager_wf (fst (trip m r d sc auto now))"
proof (cases "map_of (cbm_active m) (breaker_key sc r)")
  case None
  define b where "b = \<lparr>bk_reason = r, bk_detail = d, bk_tripped_at_ms = now, bk_scope = sc, bk_auto = auto\<rparr>"
  have "fst (trip m r d sc auto now) = m\<lparr>cbm_store := cbm_store m @ [b],
      cbm_active := AList.update (breaker_key (bk_scope b) (bk_reason b)) (length (cbm_store m)) (cbm_active m),
      cbm_history := push_bounded 200 (length (cbm_store m)) (cbm_history m)\<rparr>"
    by (simp add: trip_def None b_def Let_def)
  with manager_wf_add [OF assms push_bounded_set length_push_bounded] show ?thesis by simp
next
  case (Some a)
  have "bk_scope ((cbm_store m)[a := (cbm_store m ! a)\<lparr>bk_detail := d\<rparr>] ! i) = bk_scope (cbm_store m ! i) \<and>
      bk_reason ((cbm_store m)[a := (cbm_store m ! a)\<lparr>bk_detail := d\<rparr>] ! i) = bk_reason (cbm_store m ! i)" for i
    by (cases "a < length (cbm_store m)"; cases "i = a") (simp_all add: list_update_beyond)
  with assms Some show ?thesis by (simp add: trip_def manager_wf_def)
qed

lemma manager_wf_reset: "manager_wf m \<Longrightarrow> manager_wf (fst (reset m r sc))"
  by (auto simp: reset_def manager_wf_def Let_def wf_dict_def vals_def distinct_map_filter)

lemma manager_wf_restore: "manager_wf m \<Longrightarrow> manager_wf (restore m bs)"
proof (induction bs arbitrary: m)
  case (Cons b bs)
  have "manager_wf (m\<lparr>cbm_store := cbm_store m @ [b],
      cbm_active := AList.update (breaker_key (bk_scope b) (bk_reason b)) (length (cbm_store m)) (cbm_active m),
      cbm_history := cbm_history m\<rparr>)"
    using Cons.prems by (intro manager_wf_add) (auto simp: manager_wf_def)
  with Cons.IH show ?case by simp
qed simp

lemma manager_wf_counters [simp]: "manager_wf (m\<lparr>cbm_counters := c\<rparr>) = manager_wf m"
  by (simp add: manager_wf_def)

lemma manager_wf_step: "breaker_step m a m' \<Longrightarrow> manager_wf m \<Longrightarrow> manager_wf m'"
  by (erule breaker_stepE)
    (auto simp: manager_wf_trip manager_wf_reset manager_wf_restore record_event_def count_events_def
      record_and_check_def Let_def)

lemma manager_wf_run: "breaker_run m as m' \<Longrightarrow> manager_wf m \<Longrightarrow> manager_wf m'"
  by (induction rule: breaker_run.induct) (auto intro: manager_wf_step)

lemma dom_trip: "dom (map_of (cbm_active (fst (trip m r d sc auto now)))) =
    insert (breaker_key sc r) (dom (map_of (cbm_active m)))"
  by (auto simp: trip_def update_conv' Let_def split: option.split)

lemma dom_restore: "dom (map_of (cbm_active m)) \<subseteq> dom (map_of (cbm_active (restore m bs)))"
proof (induction bs arbitrary: m)
  case (Cons b bs)
  show ?case
    unfolding restore.simps by (rule subset_trans [OF _ Cons.IH]) (auto simp: update_conv')
qed simp

lemma dom_record_and_check: "dom (map_of (cbm_active m)) \<subseteq>
    dom (map_of (cbm_active (fst (record_and_check m c n r d sc w tick now))))"
  by (simp add: record_and_check_def record_event_def Let_def dom_trip subset_insertI)

lemma reset_active_breakers:
  "active_breakers (fst (reset m r sc)) = filter (\<lambda>b. \<not> reset_matches r sc b) (active_breakers m)"
  by (simp add: active_breakers_def reset_def Let_def vals_def filter_map comp_def split_def)

lemma is_active_reset:
  "is_active (fst (reset m r sc)) r' sc' \<longleftrightarrow>
     is_active m r' sc' \<and> \<not> ((r = None \<or> r = Some r') \<and> (sc = None \<or> sc = Some sc'))"
  by (auto simp: is_active_def reset_active_breakers reset_matches_def)

fun resets :: "breaker_reason \<Rightarrow> string \<Rightarrow> breaker_op \<Rightarrow> bool" where
  "resets r sc (Reset r' sc') = ((r' = None \<or> r' = Some r) \<and> (sc' = None \<or> sc' = Some sc))"
| "resets r sc _ = False"

lemma is_active_step:
  assumes "breaker_step m a m'" and "manager_wf m" and "is_active m r sc" and "\<not> resets r sc a"
  shows "is_active m' r sc"
proof (cases a)
  case (Reset r' sc')
  with assms show ?thesis by (auto elim!: breaker_stepE simp: is_active_reset)
next
  case (Restore bs)
  with assms show ?thesis
    using dom_restore [of m bs] manager_wf_step [OF assms(1,2)]
    by (auto elim!: breaker_stepE simp: is_active_iff)
next
  case (Record_And_Check c n r' d sc' w)
  with assms obtain tick now where m': "m' = fst (record_and_check m c n r' d sc' w tick now)"
    by (auto elim!: breaker_stepE)
  show ?thesis
    using assms(3) dom_record_and_check [of m c n r' d sc' w tick now]
    unfolding is_active_iff [OF assms(2)] is_active_iff [OF manager_wf_step [OF assms(1,2)]] m' [symmetric] by blast
next
  case (Trip r' d sc')
  with assms obtain auto now where m': "m' = fst (trip m r' d sc' auto now)"
    by (auto elim!: breaker_stepE)
  show ?thesis
    using assms(3) dom_trip [of m r' d sc' auto now]
    unfolding is_active_iff [OF assms(2)] is_active_iff [OF manager_wf_step [OF assms(1,2)]] m' [symmetric] by blast
qed (use assms in \<open>auto elim!: breaker_stepE simp: is_active_def active_breakers_def record_event_def
       count_events_def Let_def\<close>)

lemma is_active_run:
  assumes "breaker_run m as m'" and "manager_wf m" and "is_active m r sc" and "\<forall>a \<in> set as. \<not> resets r sc a"
  shows "is_active m' r sc"
  using assms
proof (induction rule: breaker_run.induct)
  case (Cons m a m' as m'')
  then show ?case using manager_wf_step is_active_step by (metis list.set_intros)
qed simp

lemma is_active_trip: "manager_wf m \<Longrightarrow> is_active (fst (trip m r d sc auto now)) r sc"
  by (simp add: is_active_iff manager_wf_trip dom_trip)

lemma block_message_Nil_iff: "block_message v c st sy b = [] \<longleftrightarrow>
    bk_scope b \<noteq> ''global'' \<and> \<not> names_scope ''venue:'' v (bk_scope b) \<and>
      \<not> names_scope ''chain:'' c (bk_scope b) \<and> \<not> names_scope ''strategy:'' st (bk_scope b) \<and>
      \<not> names_scope ''symbol:'' sy (bk_scope b)"
  unfolding block_message_def Let_def by (simp only: if_split [of "\<lambda>x. x = []"] list.distinct simp_thms) blast

lemma blocks_Nil_iff: "breaker_blocks m v c st sy = [] \<longleftrightarrow>
    (\<forall>b \<in> set (active_breakers m). bk_scope b \<noteq> ''global'' \<and> \<not> names_scope ''venue:'' v (bk_scope b) \<and>
      \<not> names_scope ''chain:'' c (bk_scope b) \<and> \<not> names_scope ''strategy:'' st (bk_scope b) \<and>
      \<not> names_scope ''symbol:'' sy (bk_scope b))"
  unfolding breaker_blocks_def concat_eq_Nil_conv by (simp only: set_map ball_simps image_iff block_message_Nil_iff Ball_image_comp)

lemma image_or: "(if g \<in> f ` S then True else \<exists>b \<in> S. f b = sc) \<longleftrightarrow> (\<exists>b \<in> S. f b = g \<or> f b = sc)"
  by auto

lemma is_tripped_iff: "is_tripped m sc \<longleftrightarrow> (\<exists>b \<in> set (active_breakers m). bk_scope b = ''global'' \<or> bk_scope b = sc)"
  unfolding is_tripped_def list_ex_iff set_map by (rule image_or)

subsection \<open>The rolling window\<close>

lemma dropWhile_sorted:
  "sorted xs \<Longrightarrow> (\<And>x y. x \<le> y \<Longrightarrow> P y \<Longrightarrow> P x) \<Longrightarrow> dropWhile P xs = filter (\<lambda>x. \<not> P x) xs"
proof (induction xs)
  case (Cons x xs)
  have "filter (\<lambda>x. \<not> P x) xs = xs" if "\<not> P x"
    using Cons.prems that by (auto simp: filter_id_conv)
  with Cons show ?case by auto
qed simp

lemma prune_filter: "sorted dq \<Longrightarrow> prune now w dq = filter (\<lambda>t. fround (now - t) \<le> w) dq"
  unfolding prune_def
  using flt.rnd_mono [of "now - y" "now - x" for x y]
  by (subst dropWhile_sorted) (auto simp: not_less intro: less_le_trans)

fun record_all :: "breaker_manager \<Rightarrow> string \<Rightarrow> rat \<Rightarrow> rat list \<Rightarrow> breaker_manager" where
  "record_all m c w [] = m"
| "record_all m c w (t # ts) = record_all (fst (record_event m c w t)) c w ts"

lemma record_all_append: "record_all m c w (ts @ us) = record_all (record_all m c w ts) c w us"
  by (induction ts arbitrary: m) simp_all

lemma record_all_window:
  assumes "sorted ts" and "ts \<noteq> []"
  shows "map_of (cbm_counters (record_all new_manager c w ts)) c =
    Some (filter (\<lambda>t. fround (last ts - t) \<le> w) ts)"
  using assms
proof (induction ts rule: rev_induct)
  case (snoc t ts)
  define dq where "dq = dget (cbm_counters (record_all new_manager c w ts)) c []"
  have step: "map_of (cbm_counters (record_all new_manager c w (ts @ [t]))) c = Some (prune t w (dq @ [t]))"
    by (simp add: record_all_append record_event_def Let_def dq_def)
  show ?case
  proof (cases "ts = []")
    case True
    then show ?thesis
      using step by (simp add: dq_def dget_def new_manager_def prune_def)
  next
    case False
    then have dq: "dq = filter (\<lambda>x. fround (last ts - x) \<le> w) ts"
      using snoc by (simp add: dq_def dget_def sorted_append)
    have "last ts \<le> t" using snoc.prems(1) False by (simp add: sorted_append)
    then have m: "fround (last ts - x) \<le> w" if "fround (t - x) \<le> w" for x
      using that flt.rnd_mono [of "last ts - x" "t - x"] by simp
    have "sorted (dq @ [t])"
      using snoc.prems(1) by (auto simp: dq sorted_append sorted_filter [of "\<lambda>x. x", simplified])
    with step show ?thesis by (auto simp: prune_filter dq m intro!: filter_cong)
  qed
qed simp

subsection \<open>Properties\<close>

text \<open>C26. A tripped breaker stays active until somebody resets it: from a well-formed manager, after a
  trip and any run of further operations of which none resets this reason and scope, the breaker
  is still active, and the manager is still well formed (one object per reason and scope, a history
  of at most 200 entries).\<close>

theorem trip_stays_until_reset:
  assumes "manager_wf m" and "breaker_run (fst (trip m r d sc auto now)) ops m'"
    and "\<forall>op \<in> set ops. \<not> resets r sc op"
  shows "is_active m' r sc \<and> manager_wf m'"
  using is_active_run [OF assms(2) manager_wf_trip [OF assms(1)] is_active_trip [OF assms(1)] assms(3)]
    manager_wf_run [OF assms(2) manager_wf_trip [OF assms(1)]] by blast

theorem trip_stays_until_reset_witness:
  "\<exists>m'. breaker_run (fst (trip new_manager MANUAL (Msg [] []) ''global'' False 0))
     [Trip GAS_SPIKE (Msg [] []) ''chain:base'', Reset (Some GAS_SPIKE) None] m' \<and> is_active m' MANUAL ''global''"
proof -
  let ?m0 = "fst (trip new_manager MANUAL (Msg [] []) ''global'' False 0)"
  let ?m1 = "fst (trip ?m0 GAS_SPIKE (Msg [] []) ''chain:base'' True 0)"
  have r: "breaker_run ?m0 [Trip GAS_SPIKE (Msg [] []) ''chain:base'', Reset (Some GAS_SPIKE) None]
      (fst (reset ?m1 (Some GAS_SPIKE) None))"
    by (rule breaker_run.Cons [OF breaker_step.Trip breaker_run.Cons [OF breaker_step.Reset breaker_run.Nil]])
  from trip_stays_until_reset [OF manager_wf_new r] r show ?thesis by auto
qed

text \<open>The two queries agree: asked about a named venue, chain, strategy or symbol, \<open>blocks\<close> returns
  a reason exactly when \<open>is_tripped\<close> holds for that scope, and a global breaker blocks everything.\<close>

theorem blocks_iff_tripped:
  assumes "v \<noteq> ''''"
  shows "(breaker_blocks m (Some v) None None None \<noteq> [] \<longleftrightarrow> is_tripped m (''venue:'' @ v)) \<and>
    (breaker_blocks m None (Some v) None None \<noteq> [] \<longleftrightarrow> is_tripped m (''chain:'' @ v)) \<and>
    (breaker_blocks m None None (Some v) None \<noteq> [] \<longleftrightarrow> is_tripped m (''strategy:'' @ v)) \<and>
    (breaker_blocks m None None None (Some v) \<noteq> [] \<longleftrightarrow> is_tripped m (''symbol:'' @ v)) \<and>
    (is_tripped m ''global'' \<longrightarrow> breaker_blocks m None None None None \<noteq> [])"
  using assms unfolding blocks_Nil_iff is_tripped_iff by (auto simp: names_scope_def)

theorem blocks_iff_tripped_witness:
  "breaker_blocks (fst (trip new_manager RATE_LIMIT (Msg [] []) ''venue:kraken'' True 0))
     (Some ''kraken'') None None None \<noteq> []"
  using blocks_iff_tripped [of "''kraken''"]
  by (simp add: is_tripped_iff trip_def new_manager_def active_breakers_def vals_def Let_def)

text \<open>Reset removes exactly the matching breakers and reports how many there were.\<close>

theorem reset_exact:
  "is_active (fst (reset m r sc)) r' sc' \<longleftrightarrow>
     is_active m r' sc' \<and> \<not> ((r = None \<or> r = Some r') \<and> (sc = None \<or> sc = Some sc'))"
  by (rule is_active_reset)

text \<open>The rolling failure counter is exact: after events at non-decreasing clock readings, the
  deque holds the events that lie within the window before the last one, and the check trips the
  breaker exactly when at least the threshold of them do.\<close>

theorem rolling_window_exact:
  assumes "sorted (ts @ [t])"
  shows "snd (record_event (record_all new_manager c w ts) c w t) =
      int (length (filter (\<lambda>x. fround (t - x) \<le> w) (ts @ [t]))) \<and>
    (snd (record_and_check (record_all new_manager c w ts) c n r d sc w t now) \<longleftrightarrow>
      n \<le> int (length (filter (\<lambda>x. fround (t - x) \<le> w) (ts @ [t]))))"
proof -
  have "map_of (cbm_counters (fst (record_event (record_all new_manager c w ts) c w t))) c =
      Some (filter (\<lambda>x. fround (t - x) \<le> w) (ts @ [t]))"
    using record_all_window [OF assms, of c w] by (simp add: record_all_append)
  then have "snd (record_event (record_all new_manager c w ts) c w t) =
      int (length (filter (\<lambda>x. fround (t - x) \<le> w) (ts @ [t])))"
    by (simp add: record_event_def Let_def)
  then show ?thesis by (simp add: record_and_check_def split_def Let_def)
qed

theorem rolling_window_exact_witness:
  "snd (record_event (record_all new_manager ''f'' 3600 [0, 10]) ''f'' 3600 20) =
    int (length (filter (\<lambda>x. fround (20 - x) \<le> 3600) [0, 10, 20]))"
  using rolling_window_exact [of "[0, 10]" 20 "''f''" 3600] by simp

end
