(* ===== verification/Account_Store.thy ===== *)
theory Account_Store
  imports Money
begin

text \<open>
  The interface of a store of accounts with reservations, as the execution engine uses it, and the
  two-leg reservation with rollback of \<open>ExecutionEngine._reserve\<close>
  (\<^verbatim>\<open>backend/fedr/engine/execution/executor.py\<close>). The laws are what the client relies on: a failed
  reservation changes no balance, a successful one moves the amount from free to used, and a
  release moves back at most what is reserved. Amounts on a common decimal grid make the rounded
  additions exact, so that the rollback restores the balances to the digit.
\<close>

definition reserve_two ::
  "('s \<Rightarrow> 'k \<Rightarrow> decimal \<Rightarrow> 's \<times> ('e + unit)) \<Rightarrow> ('s \<Rightarrow> 'k \<Rightarrow> decimal \<Rightarrow> 's) \<Rightarrow>
   's \<Rightarrow> 'k \<Rightarrow> decimal \<Rightarrow> 'k \<Rightarrow> decimal \<Rightarrow> 's \<times> ('e + unit)" where
  "reserve_two res rel s k1 x1 k2 x2 =
     (case res s k1 x1 of
        (s1, Inl e) \<Rightarrow> (s1, Inl e)
      | (s1, Inr _) \<Rightarrow>
          (case res s1 k2 x2 of
             (s2, Inl e) \<Rightarrow> (rel s2 k1 x1, Inl e)
           | (s2, Inr _) \<Rightarrow> (s2, Inr ())))"

lemma reserve_two_unfold:
  "reserve_two res rel s k1 x1 k2 x2 =
     (case snd (res s k1 x1) of
        Inl e \<Rightarrow> (fst (res s k1 x1), Inl e)
      | Inr _ \<Rightarrow>
          (case snd (res (fst (res s k1 x1)) k2 x2) of
             Inl e \<Rightarrow> (rel (fst (res (fst (res s k1 x1)) k2 x2)) k1 x1, Inl e)
           | Inr _ \<Rightarrow> (fst (res (fst (res s k1 x1)) k2 x2), Inr ())))"
  by (auto simp: reserve_two_def split: prod.splits sum.splits)

lemma dsub_grid:
  assumes "on_grid k f" "on_grid k x" "0 \<le> x" "x \<le> f"
  shows "dsub f x = f - x" and "on_grid k (f - x)"
proof -
  have "\<bar>f\<bar> * 10 ^ k < 10 ^ 34"
  proof -
    from assms(1) obtain n where n: "f = of_int n / 10 ^ k" "\<bar>n\<bar> < 10 ^ 34" unfolding on_grid_def by blast
    have "of_int \<bar>n\<bar> < (10 ^ 34 :: rat)" using n(2) by (metis of_int_less_iff of_int_numeral of_int_power)
    then show ?thesis by (simp add: n(1))
  qed
  moreover have "\<bar>f - x\<bar> \<le> \<bar>f\<bar>" using assms(3,4) by linarith
  then have "\<bar>f - x\<bar> * 10 ^ k \<le> \<bar>f\<bar> * 10 ^ k" by (intro mult_right_mono) simp_all
  ultimately have "\<bar>f - x\<bar> * 10 ^ k < 10 ^ 34" by linarith
  with assms(1,2) show "dsub f x = f - x" "on_grid k (f - x)"
    by (auto intro: dsub_exact on_grid_sub)
qed

lemma dadd_grid: "on_grid k (x + y) \<Longrightarrow> dadd x y = x + y"
  by (simp add: dadd_def dec.rnd_exact on_grid_drepr)

locale account_store =
  fixes free :: "'s \<Rightarrow> 'k \<Rightarrow> decimal"
    and used :: "'s \<Rightarrow> 'k \<Rightarrow> decimal"
    and res :: "'s \<Rightarrow> 'k \<Rightarrow> decimal \<Rightarrow> 's \<times> ('e + unit)"
    and rel :: "'s \<Rightarrow> 'k \<Rightarrow> decimal \<Rightarrow> 's"
  assumes res_fail: "snd (res s k x) = Inl e \<Longrightarrow> free (fst (res s k x)) j = free s j \<and> used (fst (res s k x)) j = used s j"
    and res_enough: "snd (res s k x) = Inr u \<longleftrightarrow> x \<le> free s k"
    and res_free: "x \<le> free s k \<Longrightarrow>
      free (fst (res s k x)) j = (if j = k then dsub (free s k) x else free s j)"
    and res_used: "x \<le> free s k \<Longrightarrow>
      used (fst (res s k x)) j = (if j = k then dadd (used s k) x else used s j)"
    and rel_free: "free (rel s k x) j = (if j = k then dadd (free s k) (min x (used s k)) else free s j)"
    and rel_used: "used (rel s k x) j = (if j = k then dsub (used s k) (min x (used s k)) else used s j)"
begin

lemma reserve_conserves:
  assumes "on_grid d (free s k)" "on_grid d x" "0 \<le> x" "x \<le> free s k" "on_grid d (used s k + x)"
  shows "free (fst (res s k x)) k + used (fst (res s k x)) k = free s k + used s k"
  using assms by (simp add: res_free res_used dsub_grid dadd_grid)

lemma release_conserves:
  assumes "on_grid d (used s k)" "on_grid d x" "0 \<le> x" "0 \<le> used s k" "on_grid d (free s k + min x (used s k))"
  shows "free (rel s k x) k + used (rel s k x) k = free s k + used s k"
proof -
  have "on_grid d (min x (used s k))" "0 \<le> min x (used s k)" "min x (used s k) \<le> used s k"
    using assms by (simp_all add: on_grid_min)
  then show ?thesis using assms by (simp add: rel_free rel_used dadd_grid dsub_grid)
qed

lemma reserve_release_restores:
  assumes "on_grid d (free s k)" "on_grid d (used s k)" "on_grid d x" "0 \<le> x" "x \<le> free s k"
    and "0 \<le> used s k" "on_grid d (used s k + x)"
  shows "free (rel (fst (res s k x)) k x) j = free s j \<and> used (rel (fst (res s k x)) k x) j = used s j"
proof (cases "j = k")
  case True
  have m: "min x (used s k + x) = x" using assms(6) by simp
  have f: "dsub (free s k) x = free s k - x" "dadd (used s k) x = used s k + x"
    using assms by (simp_all add: dsub_grid dadd_grid)
  have "dadd (free s k - x) x = free s k" using assms(1) dadd_grid [of d "free s k - x" x] by simp
  moreover have "dsub (used s k + x) x = used s k"
    using assms dsub_grid(1) [of d "used s k + x" x] by simp
  ultimately show ?thesis using assms(5) True m f by (simp add: res_free res_used rel_free rel_used)
next
  case False
  then show ?thesis using assms(5) by (simp add: res_free res_used rel_free rel_used)
qed

lemma reserve_two_ok:
  assumes "snd (reserve_two res rel s k1 x1 k2 x2) = Inr ()"
  shows "x1 \<le> free s k1 \<and> x2 \<le> free (fst (res s k1 x1)) k2 \<and>
    fst (reserve_two res rel s k1 x1 k2 x2) = fst (res (fst (res s k1 x1)) k2 x2)"
proof -
  have "snd (res s k1 x1) = Inr ()" "snd (res (fst (res s k1 x1)) k2 x2) = Inr ()"
    using assms by (auto simp: reserve_two_unfold split: sum.splits)
  then show ?thesis
    using res_enough [of s k1 x1] res_enough [of "fst (res s k1 x1)" k2 x2] by (auto simp: reserve_two_unfold)
qed

lemma reserve_two_rollback:
  assumes "snd (reserve_two res rel s k1 x1 k2 x2) = Inl e"
    and "on_grid d (free s k1)" "on_grid d (used s k1)" "on_grid d x1" "0 \<le> x1" "0 \<le> used s k1"
    and "on_grid d (used s k1 + x1)"
  shows "free (fst (reserve_two res rel s k1 x1 k2 x2)) j = free s j \<and>
    used (fst (reserve_two res rel s k1 x1 k2 x2)) j = used s j"
proof (cases "snd (res s k1 x1)")
  case (Inl e')
  then show ?thesis using res_fail [OF Inl] by (simp add: reserve_two_unfold)
next
  case (Inr u)
  then have x1: "x1 \<le> free s k1" using res_enough by blast
  let ?s1 = "fst (res s k1 x1)"
  show ?thesis
  proof (cases "snd (res ?s1 k2 x2)")
    case (Inr u')
    then show ?thesis using assms(1) \<open>snd (res s k1 x1) = Inr u\<close> by (simp add: reserve_two_unfold)
  next
    case (Inl e'')
    have f: "fst (reserve_two res rel s k1 x1 k2 x2) = rel (fst (res ?s1 k2 x2)) k1 x1"
      using Inl Inr by (simp add: reserve_two_unfold)
    have same: "free (fst (res ?s1 k2 x2)) i = free ?s1 i" "used (fst (res ?s1 k2 x2)) i = used ?s1 i" for i
      using res_fail [OF Inl] by auto
    show ?thesis
      using reserve_release_restores [OF assms(2-5) x1 assms(6,7), of j]
      unfolding f rel_free [of "fst (res ?s1 k2 x2)"] rel_used [of "fst (res ?s1 k2 x2)"] same
        rel_free [of ?s1, symmetric] rel_used [of ?s1, symmetric] .
  qed
qed

end

end
