(* ===== verification/Inventory.thy ===== *)
theory Inventory
  imports Settings Account_Store
begin

text \<open>
  Model of \<^verbatim>\<open>backend/fedr/engine/inventory.py\<close>: the balance lines per venue and asset, the targets
  and the reservations of open trades. The lines and the reservations are insertion-ordered
  dictionaries; the price source is an argument.
\<close>

subsection \<open>State\<close>

record inventory_line =
  il_venue :: string
  il_asset :: string
  il_available :: decimal
  il_reserved :: decimal
  il_pending :: decimal
  il_target :: decimal
  il_minimum :: decimal
  il_maximum :: "decimal option"
  il_usd_value :: "decimal option"
  il_kind :: string

definition new_line :: "string \<Rightarrow> string \<Rightarrow> string \<Rightarrow> inventory_line" where
  "new_line v a kind = \<lparr>il_venue = v, il_asset = a, il_available = 0, il_reserved = 0, il_pending = 0,
     il_target = 0, il_minimum = 0, il_maximum = None, il_usd_value = None, il_kind = kind\<rparr>"

definition il_total :: "inventory_line \<Rightarrow> decimal" where
  "il_total l = dadd (dadd (il_available l) (il_reserved l)) (il_pending l)"

type_synonym need = "string \<times> string \<times> decimal"

record inventory =
  im_lines :: "(string \<times> string, inventory_line) dict"
  im_reservations :: "(string, need list) dict"
  im_targets :: "(string \<times> string, decimal \<times> decimal \<times> decimal option) dict"

definition new_inventory :: inventory where
  "new_inventory = \<lparr>im_lines = [], im_reservations = [], im_targets = []\<rparr>"

subsection \<open>Operations\<close>

definition set_targets ::
  "inventory \<Rightarrow> string \<Rightarrow> string \<Rightarrow> decimal \<Rightarrow> decimal \<Rightarrow> decimal option \<Rightarrow> inventory" where
  "set_targets m v a target mi ma = m\<lparr>im_targets := AList.update (v, a) (target, mi, ma) (im_targets m)\<rparr>"

definition update_line ::
  "(string \<Rightarrow> decimal option) \<Rightarrow> string \<Rightarrow> string \<Rightarrow> string \<times> balance \<Rightarrow> inventory \<Rightarrow> inventory" where
  "update_line price_usd v kind ab m =
     (case ab of (a, b) \<Rightarrow>
        let line = dget (im_lines m) (v, a) (new_line v a kind);
            line1 = line\<lparr>il_available := bal_free b, il_reserved := bal_used b\<rparr>;
            line2 = (case map_of (im_targets m) (v, a) of
                       None \<Rightarrow> line1
                     | Some (t, mi, ma) \<Rightarrow> line1\<lparr>il_target := t, il_minimum := mi, il_maximum := ma\<rparr>);
            line3 = line2\<lparr>il_usd_value := map_option (\<lambda>px. dmul (dadd (bal_free b) (bal_used b)) px) (price_usd a),
                          il_kind := kind\<rparr>
        in m\<lparr>im_lines := AList.update (v, a) line3 (im_lines m)\<rparr>)"

definition update_balances ::
  "(string \<Rightarrow> decimal option) \<Rightarrow> inventory \<Rightarrow> string \<Rightarrow> (string, balance) dict \<Rightarrow> string \<Rightarrow> inventory" where
  "update_balances price_usd m v balances kind =
     (let m1 = foldl (\<lambda>m ab. update_line price_usd v kind ab m) m balances
      in m1\<lparr>im_lines := filter (\<lambda>((v', a), _). \<not> (v' = v \<and> a \<notin> set (keys balances))) (im_lines m1)\<rparr>)"

definition reserved_amounts :: "inventory \<Rightarrow> string \<Rightarrow> string \<Rightarrow> decimal list" where
  "reserved_amounts m v a =
     [x. res \<leftarrow> vals (im_reservations m), (v', a', x) \<leftarrow> res, v' = v \<and> a' = a]"

definition reserved_for :: "inventory \<Rightarrow> string \<Rightarrow> string \<Rightarrow> decimal" where
  "reserved_for m v a = dsum (reserved_amounts m v a)"

definition inv_available :: "inventory \<Rightarrow> string \<Rightarrow> string \<Rightarrow> decimal" where
  "inv_available m v a =
     (case map_of (im_lines m) (v, a) of
        None \<Rightarrow> 0
      | Some line \<Rightarrow> max 0 (dsub (il_available line) (reserved_for m v a)))"

definition first_lacking :: "inventory \<Rightarrow> need list \<Rightarrow> need option" where
  "first_lacking m needs = find (\<lambda>(v, a, x). inv_available m v a < x) needs"

definition inv_reserve :: "inventory \<Rightarrow> string \<Rightarrow> need list \<Rightarrow> inventory \<times> (message + unit)" where
  "inv_reserve m trade needs =
     (case first_lacking m needs of
        Some (v, a, x) \<Rightarrow> (m, Inl (Msg ''insufficient'' [AStr a, AStr v, ADec x, ADec (inv_available m v a)]))
      | None \<Rightarrow> (m\<lparr>im_reservations := AList.update trade needs (im_reservations m)\<rparr>, Inr ()))"

definition inv_release :: "inventory \<Rightarrow> string \<Rightarrow> inventory" where
  "inv_release m trade = m\<lparr>im_reservations := AList.delete trade (im_reservations m)\<rparr>"

subsection \<open>Views\<close>

fun string_less :: "string \<Rightarrow> string \<Rightarrow> bool" where
  "string_less _ [] = False"
| "string_less [] (_ # _) = True"
| "string_less (c # cs) (d # ds) = ((of_char c :: nat) < of_char d \<or> c = d \<and> string_less cs ds)"

definition line_before :: "inventory_line \<Rightarrow> inventory_line \<Rightarrow> bool" where
  "line_before l r \<longleftrightarrow> \<not> (string_less (il_venue r) (il_venue l) \<or>
     il_venue r = il_venue l \<and> string_less (il_asset r) (il_asset l))"

fun insert_line :: "inventory_line \<Rightarrow> inventory_line list \<Rightarrow> inventory_line list" where
  "insert_line l [] = [l]"
| "insert_line l (r # rs) = (if line_before l r then l # r # rs else r # insert_line l rs)"

definition inv_lines :: "inventory \<Rightarrow> inventory_line list" where
  "inv_lines m = foldr insert_line (vals (im_lines m)) []"

definition balances_map :: "inventory \<Rightarrow> (string \<times> string, decimal) dict" where
  "balances_map m = map (\<lambda>((v, a), _). ((v, a), inv_available m v a)) (im_lines m)"

definition exposure_by ::
  "(inventory_line \<Rightarrow> string option) \<Rightarrow> bool \<Rightarrow> inventory \<Rightarrow> (string, decimal) dict" where
  "exposure_by grp volatile_only m =
     foldl (\<lambda>out line.
        case il_usd_value line of
          None \<Rightarrow> out
        | Some usd \<Rightarrow>
            if volatile_only \<and> il_asset line \<in> {''USDC'', ''USDT'', ''USD'', ''DAI''} then out
            else (case grp line of
                    None \<Rightarrow> out
                  | Some g \<Rightarrow> AList.update g (dadd (dget out g 0) usd) out))
       [] (vals (im_lines m))"

definition inv_total_usd :: "inventory \<Rightarrow> decimal" where
  "inv_total_usd m = dsum (List.map_filter il_usd_value (vals (im_lines m)))"

definition below_minimum :: "inventory \<Rightarrow> inventory_line list" where
  "below_minimum m = filter (\<lambda>l. 0 < il_minimum l \<and> il_total l < il_minimum l) (vals (im_lines m))"

subsection \<open>Lemmas\<close>

definition line_available :: "inventory \<Rightarrow> string \<Rightarrow> string \<Rightarrow> decimal" where
  "line_available m v a = (case map_of (im_lines m) (v, a) of None \<Rightarrow> 0 | Some l \<Rightarrow> il_available l)"

definition covered :: "nat \<Rightarrow> inventory \<Rightarrow> bool" where
  \<comment> \<open>no account is reserved beyond its balance; amounts are on a decimal grid\<close>
  "covered d m \<longleftrightarrow> (\<forall>v a. on_grid d (line_available m v a) \<and>
     (\<forall>x \<in> set (reserved_amounts m v a). on_grid d x \<and> 0 \<le> x) \<and>
     sum_list (reserved_amounts m v a) \<le> line_available m v a)"

definition distinct_needs :: "need list \<Rightarrow> bool" where
  "distinct_needs needs \<longleftrightarrow> distinct (map (\<lambda>(v, a, _). (v, a)) needs)"

lemma on_grid_range: "on_grid k x \<Longrightarrow> \<bar>x\<bar> * 10 ^ k < 10 ^ 34"
proof -
  assume "on_grid k x"
  then obtain n where n: "x = of_int n / 10 ^ k" "\<bar>n\<bar> < 10 ^ 34" unfolding on_grid_def by blast
  have "of_int \<bar>n\<bar> < (10 ^ 34 :: rat)" using n(2) by (metis of_int_less_iff of_int_numeral of_int_power)
  then show ?thesis by (simp add: n(1))
qed

lemma on_grid_add_le:
  assumes "on_grid k x" "on_grid k y" "0 \<le> x" "0 \<le> y" "x + y \<le> z" "on_grid k z"
  shows "on_grid k (x + y)"
proof (rule on_grid_add [OF assms(1,2)])
  have "\<bar>x + y\<bar> * 10 ^ k \<le> \<bar>z\<bar> * 10 ^ k" using assms by (intro mult_right_mono) simp_all
  with on_grid_range [OF assms(6)] show "\<bar>x + y\<bar> * 10 ^ k < 10 ^ 34" by linarith
qed

lemma dsum_grid:
  assumes "\<forall>x \<in> set xs. on_grid k x \<and> 0 \<le> x" "sum_list xs \<le> z" "on_grid k z"
  shows "dsum xs = sum_list xs \<and> on_grid k (sum_list xs)"
  using assms
proof (induction xs rule: rev_induct)
  case (snoc x xs)
  have nn: "0 \<le> sum_list xs" using snoc.prems by (intro sum_list_nonneg) simp
  have le: "sum_list xs + x \<le> z" "sum_list xs \<le> z" using snoc.prems by auto
  then have IH: "dsum xs = sum_list xs" "on_grid k (sum_list xs)"
    using snoc.IH snoc.prems by auto
  have "on_grid k (sum_list xs + x)" using on_grid_add_le [OF IH(2) _ nn _ le(1)] snoc.prems by simp
  with IH show ?case by (simp add: dsum_def dadd_grid)
qed (simp add: dsum_def)

lemma reserved_amounts_update_fresh:
  assumes "t \<notin> set (keys (im_reservations m))"
  shows "reserved_amounts (m\<lparr>im_reservations := AList.update t needs (im_reservations m)\<rparr>) v a =
    reserved_amounts m v a @ [x. (v', a', x) \<leftarrow> needs, v' = v \<and> a' = a]"
proof -
  have "AList.update t needs d = d @ [(t, needs)]" if "t \<notin> set (keys d)" for d :: "(string, need list) dict"
    using that by (induction d) (auto simp: keys_def)
  with assms show ?thesis by (simp add: reserved_amounts_def vals_def)
qed

lemma distinct_needs_one:
  assumes "distinct_needs needs"
  shows "[x. (v', a', x) \<leftarrow> needs, v' = v \<and> a' = a] = [] \<or>
    (\<exists>x. (v, a, x) \<in> set needs \<and> [x. (v', a', x) \<leftarrow> needs, v' = v \<and> a' = a] = [x])"
  using assms
proof (induction needs)
  case (Cons n ns)
  obtain v0 a0 x0 where n: "n = (v0, a0, x0)" by (cases n)
  let ?f = "\<lambda>ns :: need list. [x. (v', a', x) \<leftarrow> ns, v' = v \<and> a' = a]"
  show ?case
  proof (cases "v0 = v \<and> a0 = a")
    case True
    then have "(v, a) \<notin> (\<lambda>(v, a, _). (v, a)) ` set ns" using Cons.prems n by (auto simp: distinct_needs_def)
    then have "?f ns = []" by force
    then have "?f (n # ns) = [x0]" using n True by simp
    then show ?thesis using n True by auto
  next
    case False
    then have "?f (n # ns) = ?f ns" using n by auto
    moreover have "?f ns = [] \<or> (\<exists>x. (v, a, x) \<in> set ns \<and> ?f ns = [x])"
      using Cons by (simp add: distinct_needs_def)
    ultimately show ?thesis by (metis list.set_intros(2))
  qed
qed simp

lemma reserved_delete_sum_le:
  assumes "\<forall>x \<in> set (reserved_amounts m v a). 0 \<le> x"
  shows "set (reserved_amounts (inv_release m t) v a) \<subseteq> set (reserved_amounts m v a)"
    "sum_list (reserved_amounts (inv_release m t) v a) \<le> sum_list (reserved_amounts m v a)"
proof -
  define f where "f = (\<lambda>res :: need list. [x. (v', a', x) \<leftarrow> res, v' = v \<and> a' = a])"
  have e: "reserved_amounts m v a = concat (map f (vals (im_reservations m)))" for m
    by (simp add: reserved_amounts_def f_def)
  have "set (concat (map f (vals (AList.delete t d)))) \<subseteq> set (concat (map f (vals d))) \<and>
      ((\<forall>x \<in> set (concat (map f (vals d))). 0 \<le> x) \<longrightarrow>
       sum_list (concat (map f (vals (AList.delete t d)))) \<le> sum_list (concat (map f (vals d))))" for d
  proof (induction d)
    case (Cons p d)
    have "0 \<le> sum_list (f (snd p))" if "\<forall>x \<in> set (f (snd p)). 0 \<le> x" using that by (intro sum_list_nonneg) simp
    with Cons show ?case by (cases p) (auto simp: vals_def AList.delete_eq)
  qed (simp add: vals_def)
  with assms show "set (reserved_amounts (inv_release m t) v a) \<subseteq> set (reserved_amounts m v a)"
    "sum_list (reserved_amounts (inv_release m t) v a) \<le> sum_list (reserved_amounts m v a)"
    unfolding e by (simp_all add: inv_release_def)
qed

lemma line_available_res [simp]: "line_available (m\<lparr>im_reservations := r\<rparr>) v a = line_available m v a"
  by (simp add: line_available_def)

lemma covered_release: "covered d m \<Longrightarrow> covered d (inv_release m t)"
  using reserved_delete_sum_le [of m _ _ t] unfolding covered_def inv_release_def
  by (auto simp del: subsetI) (meson order_trans subsetD)+

subsection \<open>Properties\<close>


definition demo_inventory :: inventory where
  "demo_inventory = new_inventory\<lparr>im_lines := [((''kraken'', ''USDC''),
     (new_line ''kraken'' ''USDC'' ''cex'')\<lparr>il_available := 10\<rparr>)]\<rparr>"

lemma demo_covered: "covered 0 demo_inventory"
proof -
  have "on_grid 0 10" unfolding on_grid_def by (intro exI [of _ 10]) simp
  then show ?thesis
    by (simp add: covered_def demo_inventory_def new_inventory_def line_available_def reserved_amounts_def
        vals_def new_line_def)
qed


text \<open>Each need is checked on its own: two needs on the same account are both accepted although
  together they exceed the balance, as a spot buy and the collateral of a perpetual short on one
  venue do.\<close>

theorem duplicate_needs_overbook:
  "snd (inv_reserve demo_inventory t [(''kraken'', ''USDC'', 6), (''kraken'', ''USDC'', 6)]) = Inr () \<and>
   line_available demo_inventory ''kraken'' ''USDC'' <
   reserved_for (fst (inv_reserve demo_inventory t [(''kraken'', ''USDC'', 6), (''kraken'', ''USDC'', 6)]))
     ''kraken'' ''USDC''"
  by (simp add: inv_reserve_def first_lacking_def inv_available_def demo_inventory_def new_inventory_def
      reserved_for_def reserved_amounts_def line_available_def new_line_def vals_def dsum_def dec_defs dround_eval)

end
