(* ===== verification/Accounting.thy ===== *)
theory Accounting
  imports Account_Store Inventory
begin

text \<open>
  Model of \<^verbatim>\<open>backend/fedr/engine/accounting.py\<close> (what a trade realised against its estimate) and
  \<^verbatim>\<open>backend/fedr/engine/experience.py\<close> (statistics per route that can raise the safety buffer).
  Statistics are stored as decimal strings in the code; printing and re-reading a decimal is exact,
  so the model keeps the decimals.
\<close>

subsection \<open>The outcome of a trade\<close>

record trade_outcome =
  to_actual_gross :: decimal
  to_trading_fees :: decimal
  to_gas :: decimal
  to_funding :: decimal
  to_actual_net :: decimal
  to_prediction_error :: decimal
  to_slippage_variance :: decimal
  to_fee_variance :: decimal
  to_gas_variance :: decimal
  to_matched_base :: decimal
  to_unmatched_base :: decimal

definition leg_value :: "order_result option \<Rightarrow> decimal \<times> decimal \<times> decimal \<times> decimal" where
  "leg_value leg = (case leg of
     None \<Rightarrow> (0, 0, 0, 0)
   | Some r \<Rightarrow> (res_filled r, res_quote_amount r, res_fee_quote r, res_gas_cost_usd r))"

definition hedge_sells :: "trade_record \<Rightarrow> bool" where
  "hedge_sells tr \<longleftrightarrow> (case tr_hedge tr of None \<Rightarrow> False | Some h \<Rightarrow> or_side (res_request h) = SELL)"

definition quoted_slip :: "order_side \<Rightarrow> order_result option \<Rightarrow> decimal \<Rightarrow> decimal \<Rightarrow> decimal" where
  \<comment> \<open>one accumulation into \<open>slip_var\<close>; a missing or zero average price is skipped\<close>
  "quoted_slip side leg filled acc =
     (case leg of None \<Rightarrow> acc | Some r \<Rightarrow>
        (case (res_avg_price r, or_extra_quoted_price (res_request r)) of
           (Some p, Some quoted) \<Rightarrow>
             if p = 0 then acc
             else dadd acc (dmul (if side = BUY then dsub p quoted else dsub quoted p) filled)
         | _ \<Rightarrow> acc))"

definition compute_outcome ::
  "trade_record \<Rightarrow> decimal \<Rightarrow> cost_breakdown option \<Rightarrow> trade_outcome result" where
  \<comment> \<open>\<open>D(tr.events and 0)\<close> raises on an empty event list\<close>
  "compute_outcome tr rate estimated =
     (if tr_events tr = [] then Inl ValueError
      else
        let (bf, bq, bfee, bgas) = leg_value (tr_buy tr);
            (sf, sq, sfee, sgas) = leg_value (tr_sell tr);
            (hf, hq, hfee, hgas) = leg_value (tr_hedge tr);
            gross0 = dmul (dsub sq bq) rate;
            gross = (if tr_hedge tr = None then gross0
                     else dadd gross0 (dmul (if hedge_sells tr then hq else dneg hq) rate));
            fees = dmul (dadd (dadd bfee sfee) hfee) rate;
            gas = dadd (dadd bgas sgas) hgas;
            funding = 0;
            net = dsub (dsub (dsub gross fees) gas) funding;
            est_fees = (case estimated of None \<Rightarrow> 0 | Some c \<Rightarrow>
              dadd (dadd (cb_buy_trading_fee c) (cb_sell_trading_fee c)) (cb_dex_swap_fee c));
            est_gas = (case estimated of None \<Rightarrow> 0 | Some c \<Rightarrow> dadd (cb_gas c) (cb_priority_fee c));
            slip = quoted_slip SELL (tr_sell tr) sf (quoted_slip BUY (tr_buy tr) bf 0);
            matched = min bf (dadd sf (if hedge_sells tr then hf else 0));
            unmatched = dabs (dsub (dsub bf sf)
              (if hedge_sells tr then hf else if tr_hedge tr \<noteq> None then dneg hf else 0))
        in Inr \<lparr>to_actual_gross = gross, to_trading_fees = fees, to_gas = gas, to_funding = funding,
                to_actual_net = net, to_prediction_error = dsub (tr_estimated_net tr) net,
                to_slippage_variance = dmul slip rate, to_fee_variance = dsub fees est_fees,
                to_gas_variance = dsub gas est_gas, to_matched_base = matched,
                to_unmatched_base = unmatched\<rparr>)"

definition apply_outcome :: "trade_outcome \<Rightarrow> trade_record \<Rightarrow> trade_record" where
  "apply_outcome out tr = tr\<lparr>tr_actual_gross := Some (to_actual_gross out),
     tr_actual_fees := Some (to_trading_fees out), tr_actual_gas := Some (to_gas out),
     tr_actual_net := Some (to_actual_net out), tr_prediction_error := Some (to_prediction_error out),
     tr_status := (if tr_status tr \<in> {T_FAILED, ABORTED, RECOVERING, HEDGED} then tr_status tr
                   else if to_unmatched_base out = 0 then T_FILLED else PARTIAL)\<rparr>"

subsection \<open>Experience\<close>

definition ALPHA :: decimal where
  "ALPHA = 2/10"

record experience_stat =
  es_key :: string
  es_samples :: int
  es_error_pct_ewma :: decimal
  es_slippage_bias_pct :: decimal
  es_fee_variance_pct :: decimal
  es_gas_variance_pct :: decimal
  es_fill_reliability :: decimal
  es_latency_ms_ewma :: decimal
  es_extra_buffer_pct :: decimal

record experience_engine =
  ee_max_extra :: decimal
  ee_enabled :: bool
  ee_cache :: "(string, experience_stat) dict"

definition new_stat :: "string \<Rightarrow> experience_stat" where
  "new_stat key = \<lparr>es_key = key, es_samples = 0, es_error_pct_ewma = 0, es_slippage_bias_pct = 0,
     es_fee_variance_pct = 0, es_gas_variance_pct = 0, es_fill_reliability = 1, es_latency_ms_ewma = 0,
     es_extra_buffer_pct = 0\<rparr>"

definition size_bucket :: "decimal \<Rightarrow> string" where
  "size_bucket n = (if n \<le> 100 then ''xs'' else if n \<le> 500 then ''s'' else if n \<le> 2000 then ''m''
     else if n \<le> 10000 then ''l'' else ''xl'')"

definition route_key :: "trading_mode \<Rightarrow> strategy \<Rightarrow> string \<Rightarrow> string \<Rightarrow> string \<Rightarrow> decimal \<Rightarrow> string" where
  "route_key mode st buy_venue sell_venue pair n =
     mode_value mode @ ''|'' @ strategy_value st @ ''|'' @ buy_venue @ ''|'' @ sell_venue @ ''|'' @ pair
     @ ''|'' @ size_bucket n"

definition experience_load :: "experience_engine \<Rightarrow> experience_stat list \<Rightarrow> experience_engine" where
  "experience_load e stats = e\<lparr>ee_cache := foldl (\<lambda>c s. AList.update (es_key s) s c) (ee_cache e) stats\<rparr>"

definition extra_buffer_pct :: "experience_engine \<Rightarrow> string \<Rightarrow> decimal" where
  "extra_buffer_pct e key =
     (if \<not> ee_enabled e then 0
      else (case map_of (ee_cache e) key of
              None \<Rightarrow> 0
            | Some s \<Rightarrow> if es_samples s < 3 then 0 else clamp (es_extra_buffer_pct s) 0 (ee_max_extra e)))"

definition ewma :: "decimal \<Rightarrow> decimal \<Rightarrow> decimal" where
  "ewma old x = dadd (dmul old (dsub 1 ALPHA)) (dmul x ALPHA)"

record experience_sample =
  sm_notional_usd :: decimal
  sm_prediction_error_usd :: decimal
  sm_slippage_variance_usd :: decimal
  sm_fee_variance_usd :: decimal
  sm_gas_variance_usd :: decimal
  sm_filled :: bool
  sm_latency_ms :: int

definition update_stat :: "decimal \<Rightarrow> experience_sample \<Rightarrow> experience_stat \<Rightarrow> experience_stat" where
  "update_stat max_extra x s =
     (let notional = (if sm_notional_usd x \<le> 0 then 1 else sm_notional_usd x);
          pc = (\<lambda>v. dmul (ddiv v notional) 100);
          first = (es_samples s = 0);
          mix = (\<lambda>old new. if first then new else ewma old new);
          err = mix (es_error_pct_ewma s) (pc (sm_prediction_error_usd x));
          reliability = mix (es_fill_reliability s) (if sm_filled x then 1 else 0);
          unreliability = dmul (dsub 1 reliability) (10/100)
      in s\<lparr>es_error_pct_ewma := err,
           es_slippage_bias_pct := mix (es_slippage_bias_pct s) (pc (sm_slippage_variance_usd x)),
           es_fee_variance_pct := mix (es_fee_variance_pct s) (pc (sm_fee_variance_usd x)),
           es_gas_variance_pct := mix (es_gas_variance_pct s) (pc (sm_gas_variance_usd x)),
           es_fill_reliability := reliability,
           es_latency_ms_ewma := mix (es_latency_ms_ewma s) (of_int (sm_latency_ms x)),
           es_samples := es_samples s + 1,
           es_extra_buffer_pct := clamp (dadd (max 0 err) unreliability) 0 max_extra\<rparr>)"

definition experience_record :: "experience_engine \<Rightarrow> string \<Rightarrow> experience_sample \<Rightarrow> experience_engine" where
  "experience_record e key x =
     e\<lparr>ee_cache := AList.update key
        (update_stat (ee_max_extra e) x (dget (ee_cache e) key (new_stat key))) (ee_cache e)\<rparr>"

fun experience_run :: "experience_engine \<Rightarrow> (string \<times> experience_sample) list \<Rightarrow> experience_engine" where
  "experience_run e [] = e"
| "experience_run e ((k, x) # xs) = experience_run (experience_record e k x) xs"

subsection \<open>Lemmas\<close>

definition stat_ok :: "decimal \<Rightarrow> experience_stat \<Rightarrow> bool" where
  "stat_ok m s \<longleftrightarrow> 0 \<le> es_fill_reliability s \<and> es_fill_reliability s \<le> 1 \<and> 0 \<le> es_samples s \<and>
     0 \<le> es_extra_buffer_pct s \<and> es_extra_buffer_pct s \<le> m"

lemma ewma_unit: "0 \<le> v \<Longrightarrow> v \<le> 1 \<Longrightarrow> 0 \<le> x \<Longrightarrow> x \<le> 1 \<Longrightarrow> 0 \<le> ewma v x \<and> ewma v x \<le> 1"
proof -
  assume a: "0 \<le> v" "v \<le> 1" "0 \<le> x" "x \<le> 1"
  have s: "dsub 1 ALPHA = 1 - 2/10" by (simp add: ALPHA_def dec_defs dround_eval)
  have r: "drepr 1" "drepr (1 * (1 - 2/10))" "drepr (1 * (2/10))"
    using dec.rnd_repr [of 1] dec.rnd_repr [of "4/5"] dec.rnd_repr [of "1/5"] by (simp_all add: dround_eval)
  have "dround (dround (v * (1 - 2/10)) + dround (x * (2/10))) \<le> 1"
    by (rule dec.rnd_ewma_le) (use a r in simp_all)
  moreover have "0 \<le> dround (dround (v * (1 - 2/10)) + dround (x * (2/10)))"
    by (rule dec.rnd_ewma_nonneg) (use a in simp_all)
  ultimately show ?thesis unfolding ewma_def dadd_def dmul_def s unfolding ALPHA_def by blast
qed

lemma stat_ok_update: "0 \<le> m \<Longrightarrow> stat_ok m s \<Longrightarrow> stat_ok m (update_stat m x s)"
  using ewma_unit [of "es_fill_reliability s" 1] ewma_unit [of "es_fill_reliability s" 0]
  by (auto simp: stat_ok_def update_stat_def Let_def clamp_def)

lemma update_stat_samples: "es_samples (update_stat m x s) = es_samples s + 1"
  by (simp add: update_stat_def Let_def)

lemma stat_ok_run:
  assumes "0 \<le> ee_max_extra e" and "\<forall>k. stat_ok (ee_max_extra e) (dget (ee_cache e) k (new_stat k))"
  shows "ee_max_extra (experience_run e xs) = ee_max_extra e \<and>
    (\<forall>k. stat_ok (ee_max_extra e) (dget (ee_cache (experience_run e xs)) k (new_stat k)) \<and>
       es_samples (dget (ee_cache (experience_run e xs)) k (new_stat k)) =
       es_samples (dget (ee_cache e) k (new_stat k)) + int (length (filter (\<lambda>p. fst p = k) xs)))"
  using assms
proof (induction xs arbitrary: e)
  case (Cons p xs)
  obtain key x where p: "p = (key, x)" by (cases p)
  let ?e = "experience_record e key x"
  have "\<forall>k. stat_ok (ee_max_extra ?e) (dget (ee_cache ?e) k (new_stat k))"
    using Cons.prems by (simp add: experience_record_def stat_ok_update)
  with Cons.IH [of ?e] Cons.prems(1) show ?case
    by (auto simp: p experience_record_def update_stat_samples)
qed simp

lemma leg_value_simps [simp]: "leg_value None = (0, 0, 0, 0)"
    "leg_value (Some r) = (res_filled r, res_quote_amount r, res_fee_quote r, res_gas_cost_usd r)"
  by (simp_all add: leg_value_def)

definition filled_of :: "order_result option \<Rightarrow> decimal" where
  "filled_of leg = fst (leg_value leg)"

definition net_base :: "trade_record \<Rightarrow> decimal" where
  \<comment> \<open>base bought minus base sold over the three legs\<close>
  "net_base tr = filled_of (tr_buy tr) - filled_of (tr_sell tr)
     - (if hedge_sells tr then filled_of (tr_hedge tr) else - filled_of (tr_hedge tr))"

lemma dabs_exact: "drepr x \<Longrightarrow> dabs x = \<bar>x\<bar>"
  by (cases "0 \<le> x") (simp_all add: dabs_def dec.rnd_exact dec.rnd_odd)

lemma unmatched_exact:
  assumes "compute_outcome tr rate est = Inr out"
    and "on_grid d (filled_of (tr_buy tr))" "on_grid d (filled_of (tr_sell tr))" "on_grid d (filled_of (tr_hedge tr))"
    and "on_grid d (filled_of (tr_buy tr) - filled_of (tr_sell tr))" "on_grid d (net_base tr)"
  shows "to_unmatched_base out = \<bar>net_base tr\<bar>"
proof -
  have h: "(if hedge_sells tr then hf else if tr_hedge tr \<noteq> None then dneg hf else 0) =
      (if hedge_sells tr then hf else - hf)" if "hf = filled_of (tr_hedge tr)" for hf
    using that assms(4) by (auto simp: filled_of_def leg_value_def dneg_exact on_grid_drepr)
  have "dabs (dsub (dsub (filled_of (tr_buy tr)) (filled_of (tr_sell tr)))
      (if hedge_sells tr then filled_of (tr_hedge tr) else - filled_of (tr_hedge tr))) = \<bar>net_base tr\<bar>"
    using assms(5,6) unfolding net_base_def
    by (simp only: dsub_def dabs_exact dec.rnd_exact on_grid_drepr)
  with assms(1) h show ?thesis
    by (auto simp: compute_outcome_def filled_of_def Let_def split_def split: if_splits)
qed

subsection \<open>Properties\<close>

text \<open>The accounting closes a trade as filled exactly when it is flat: unless an earlier stage
  already decided its fate, the status is filled when the base bought equals the base sold over
  the two legs and the hedge, and partial otherwise.\<close>

theorem outcome_status_flat:
  assumes "compute_outcome tr rate est = Inr out"
    and "on_grid d (filled_of (tr_buy tr))" "on_grid d (filled_of (tr_sell tr))" "on_grid d (filled_of (tr_hedge tr))"
    and "on_grid d (filled_of (tr_buy tr) - filled_of (tr_sell tr))" "on_grid d (net_base tr)"
    and "tr_status tr \<notin> {T_FAILED, ABORTED, RECOVERING, HEDGED}"
  shows "tr_status (apply_outcome out tr) = (if net_base tr = 0 then T_FILLED else PARTIAL)"
  using unmatched_exact [OF assms(1-6)] assms(7) by (simp add: apply_outcome_def)

definition demo_order :: "order_side \<Rightarrow> decimal \<Rightarrow> order_result" where
  "demo_order side n = (new_result \<lparr>or_venue = ''kraken'', or_symbol = ''BTC/USDC'', or_side = side,
     or_amount = n, or_limit_price = None, or_time_in_force = ''IOC'', or_client_order_id = ''o1'',
     or_min_received = None, or_max_gas_usd = None, or_quote_id = None, or_deadline_ms = None,
     or_reduce_only = False, or_extra_quoted_price = None\<rparr> ''o1'' FILLED 0)\<lparr>res_filled := n\<rparr>"

definition demo_trade :: trade_record where
  "demo_trade = \<lparr>tr_id = ''t1'', tr_mode = PAPER, tr_strategy = CEX_CEX, tr_opportunity_id = ''o'',
     tr_pair = ''BTC/USDC'', tr_route = ''r'', tr_size_base = 2, tr_status = EXECUTING,
     tr_estimated_gross = 1, tr_estimated_net = 1, tr_estimated_worst_case = 1, tr_estimated_costs = None,
     tr_buy = Some (demo_order BUY 2), tr_sell = Some (demo_order SELL 2), tr_hedge = None,
     tr_actual_gross = None, tr_actual_fees = None, tr_actual_gas = None, tr_actual_net = None,
     tr_prediction_error = None, tr_explanation = Msg [] [], tr_started_at_ms = 0,
     tr_completed_at_ms = None, tr_events = [\<lparr>ev_ts = 0, ev_name = ''start'', ev_data = []\<rparr>]\<rparr>"

theorem outcome_status_flat_witness:
  "\<exists>out. compute_outcome demo_trade 1 None = Inr out \<and> tr_status (apply_outcome out demo_trade) = T_FILLED"
proof -
  have "tr_events demo_trade \<noteq> []" by (simp add: demo_trade_def)
  then obtain out where out: "compute_outcome demo_trade 1 None = Inr out"
    by (auto simp: compute_outcome_def Let_def split_def)
  have "on_grid 0 2" unfolding on_grid_def by (intro exI [of _ 2]) simp
  moreover have "filled_of (tr_buy demo_trade) = 2" "filled_of (tr_sell demo_trade) = 2"
    "filled_of (tr_hedge demo_trade) = 0" "net_base demo_trade = 0"
    by (simp_all add: demo_trade_def demo_order_def new_result_def filled_of_def net_base_def)
  moreover have "tr_status demo_trade = EXECUTING" by (simp add: demo_trade_def)
  ultimately show ?thesis using outcome_status_flat [OF out, of 0] out by simp
qed

text \<open>What was learned about a route is bounded: after any history of trades from a fresh engine
  the extra buffer lies between zero and the configured maximum, and it is zero as long as the route
  has fewer than three samples or the learning is switched off.\<close>

theorem experience_buffer_bounded:
  assumes "0 \<le> m" and "e = experience_run \<lparr>ee_max_extra = m, ee_enabled = on, ee_cache = []\<rparr> xs"
  shows "0 \<le> extra_buffer_pct e key \<and> extra_buffer_pct e key \<le> m \<and>
    (length (filter (\<lambda>p. fst p = key) xs) < 3 \<longrightarrow> extra_buffer_pct e key = 0)"
proof -
  let ?e0 = "\<lparr>ee_max_extra = m, ee_enabled = on, ee_cache = []\<rparr>"
  have "\<forall>k. stat_ok (ee_max_extra ?e0) (dget (ee_cache ?e0) k (new_stat k))"
    using assms(1) by (simp add: dget_def stat_ok_def new_stat_def)
  with stat_ok_run [of ?e0 xs] assms have r: "ee_max_extra e = m"
    "es_samples (dget (ee_cache e) key (new_stat key)) = int (length (filter (\<lambda>p. fst p = key) xs))"
    by (simp_all add: dget_def [of "[]"] new_stat_def)
  then show ?thesis
    using assms(1) by (auto simp: extra_buffer_pct_def clamp_def dget_def split: option.split)
qed

theorem experience_buffer_bounded_witness:
  "extra_buffer_pct (experience_run \<lparr>ee_max_extra = 25/100, ee_enabled = True, ee_cache = []\<rparr> []) ''r'' \<le> 25/100"
  using experience_buffer_bounded [of "25/100" _ True "[]" "''r''", OF _ refl] by simp

end
