(* ===== verification/Paper_Ledger.thy ===== *)
theory Paper_Ledger
  imports Settings Account_Store
begin

text \<open>
  Model of \<^verbatim>\<open>backend/fedr/connectors/paper/ledger.py\<close>: simulated balances per venue and asset.
  Every mutation runs under one lock, so an operation is one function on the ledger. As in the
  code, looking up an account for a mutation creates it (\<open>setdefault\<close>), also when the operation
  then raises. The interface the execution engine uses (reserve, release) is the locale
  \<open>account_store\<close>; its two-leg reservation is proved once there and interpreted on the ledger.
\<close>

subsection \<open>Accounts\<close>

record paper_ledger =
  pl_bal :: "(string, (string, balance) dict) dict"
  pl_dirty :: bool

definition new_ledger :: paper_ledger where
  "new_ledger = \<lparr>pl_bal = [], pl_dirty = False\<rparr>"

definition ledger_get :: "paper_ledger \<Rightarrow> string \<Rightarrow> string \<Rightarrow> balance" where
  "ledger_get l v a =
     (case map_of (dget (pl_bal l) v []) a of
        Some b \<Rightarrow> \<lparr>bal_asset = a, bal_free = bal_free b, bal_used = bal_used b\<rparr>
      | None \<Rightarrow> new_balance a)"

definition ledger_venues :: "paper_ledger \<Rightarrow> string list" where
  "ledger_venues l = keys (pl_bal l)"

definition ledger_balances :: "paper_ledger \<Rightarrow> string \<Rightarrow> (string, balance) dict" where
  "ledger_balances l v =
     map (\<lambda>(a, b). (a, \<lparr>bal_asset = a, bal_free = bal_free b, bal_used = bal_used b\<rparr>)) (dget (pl_bal l) v [])"

definition acct :: "paper_ledger \<Rightarrow> string \<Rightarrow> string \<Rightarrow> balance" where
  \<comment> \<open>the object \<open>_acct\<close> returns\<close>
  "acct l v a = dget (dget (pl_bal l) v []) a (new_balance a)"

definition put_acct :: "string \<Rightarrow> string \<Rightarrow> balance \<Rightarrow> paper_ledger \<Rightarrow> paper_ledger" where
  "put_acct v a b l = l\<lparr>pl_bal := AList.update v (AList.update a b (dget (pl_bal l) v [])) (pl_bal l)\<rparr>"

definition ensure_acct :: "string \<Rightarrow> string \<Rightarrow> paper_ledger \<Rightarrow> paper_ledger" where
  "ensure_acct v a l = put_acct v a (acct l v a) l"

definition upd_acct :: "string \<Rightarrow> string \<Rightarrow> (balance \<Rightarrow> balance) \<Rightarrow> paper_ledger \<Rightarrow> paper_ledger" where
  "upd_acct v a f l = put_acct v a (f (acct l v a)) l"

definition mark_dirty :: "paper_ledger \<Rightarrow> paper_ledger" where
  "mark_dirty l = l\<lparr>pl_dirty := True\<rparr>"

subsection \<open>Setup\<close>

definition ledger_seed :: "(string, (string, decimal) dict) dict \<Rightarrow> paper_ledger \<Rightarrow> paper_ledger" where
  "ledger_seed bs l = l\<lparr>
     pl_bal := map (\<lambda>(v, assets). (v, map (\<lambda>(a, x). (a, \<lparr>bal_asset = a, bal_free = x, bal_used = 0\<rparr>)) assets)) bs,
     pl_dirty := True\<rparr>"

definition ledger_load :: "(string, (string, decimal \<times> decimal) dict) dict \<Rightarrow> paper_ledger \<Rightarrow> paper_ledger" where
  "ledger_load bs l = l\<lparr>
     pl_bal := map (\<lambda>(v, assets). (v, map (\<lambda>(a, f, u). (a, \<lparr>bal_asset = a, bal_free = f, bal_used = u\<rparr>)) assets)) bs\<rparr>"

definition ledger_dump :: "paper_ledger \<Rightarrow> (string, (string, decimal \<times> decimal) dict) dict" where
  "ledger_dump l = map (\<lambda>(v, assets). (v, map (\<lambda>(a, b). (a, bal_free b, bal_used b)) assets)) (pl_bal l)"

subsection \<open>Mutations\<close>

definition insufficient :: "string \<Rightarrow> string \<Rightarrow> decimal \<Rightarrow> decimal \<Rightarrow> message" where
  "insufficient a v have need = Msg ''insufficient'' [AStr a, AStr v, ADec have, ADec need]"

definition ledger_adjust ::
  "paper_ledger \<Rightarrow> string \<Rightarrow> string \<Rightarrow> decimal \<Rightarrow> bool \<Rightarrow> paper_ledger \<times> (message + decimal)" where
  "ledger_adjust l v a delta allow_negative =
     (let l1 = ensure_acct v a l; new = dadd (bal_free (acct l1 v a)) delta in
      if new < 0 \<and> \<not> allow_negative then (l1, Inl (insufficient a v (bal_free (acct l1 v a)) (dneg delta)))
      else (mark_dirty (upd_acct v a (\<lambda>b. b\<lparr>bal_free := new\<rparr>) l1), Inr new))"

definition ledger_reserve :: "paper_ledger \<Rightarrow> string \<Rightarrow> string \<Rightarrow> decimal \<Rightarrow> paper_ledger \<times> (message + unit)" where
  "ledger_reserve l v a amount =
     (let l1 = ensure_acct v a l in
      if bal_free (acct l1 v a) < amount then (l1, Inl (insufficient a v (bal_free (acct l1 v a)) amount))
      else (mark_dirty (upd_acct v a (\<lambda>b. b\<lparr>bal_free := dsub (bal_free b) amount,
              bal_used := dadd (bal_used b) amount\<rparr>) l1), Inr ()))"

definition ledger_release :: "paper_ledger \<Rightarrow> string \<Rightarrow> string \<Rightarrow> decimal \<Rightarrow> paper_ledger" where
  "ledger_release l v a amount =
     (let l1 = ensure_acct v a l; take = min amount (bal_used (acct l1 v a)) in
      mark_dirty (upd_acct v a (\<lambda>b. b\<lparr>bal_used := dsub (bal_used b) take,
        bal_free := dadd (bal_free b) take\<rparr>) l1))"

definition settle_fill ::
  "paper_ledger \<Rightarrow> string \<Rightarrow> string \<Rightarrow> string \<Rightarrow> order_side \<Rightarrow> decimal \<Rightarrow> decimal \<Rightarrow> decimal \<Rightarrow> bool \<Rightarrow> paper_ledger" where
  "settle_fill l v base quote side base_amount quote_amount fee_quote reserved =
     (let l1 = ensure_acct v quote (ensure_acct v base l) in
      mark_dirty (case side of
        BUY \<Rightarrow>
          let cost = dadd quote_amount fee_quote;
              l2 = upd_acct v quote (\<lambda>b. if reserved then b\<lparr>bal_used := max 0 (dsub (bal_used b) cost)\<rparr>
                     else b\<lparr>bal_free := dsub (bal_free b) cost\<rparr>) l1
          in upd_acct v base (\<lambda>b. b\<lparr>bal_free := dadd (bal_free b) base_amount\<rparr>) l2
      | SELL \<Rightarrow>
          let l2 = upd_acct v base (\<lambda>b. if reserved then b\<lparr>bal_used := max 0 (dsub (bal_used b) base_amount)\<rparr>
                     else b\<lparr>bal_free := dsub (bal_free b) base_amount\<rparr>) l1
          in upd_acct v quote (\<lambda>b. b\<lparr>bal_free := dadd (bal_free b) (dsub quote_amount fee_quote)\<rparr>) l2))"

definition collateral_asset :: "string \<Rightarrow> string" where
  "collateral_asset quote = quote @ '':collateral''"

definition settle_perp ::
  "paper_ledger \<Rightarrow> string \<Rightarrow> string \<Rightarrow> order_side \<Rightarrow> decimal \<Rightarrow> decimal \<Rightarrow> bool \<Rightarrow> paper_ledger" where
  "settle_perp l v quote side notional fee_quote reduce_only =
     (let coll = collateral_asset quote;
          l1 = ensure_acct v coll (ensure_acct v quote l) in
      mark_dirty (
        if side = SELL \<and> \<not> reduce_only then
          let moved = min (bal_used (acct l1 v quote)) notional;
              l2 = upd_acct v quote (\<lambda>b. b\<lparr>bal_used := dsub (bal_used b) moved,
                     bal_free := dsub (bal_free b) (dadd (dsub notional moved) fee_quote)\<rparr>) l1
          in upd_acct v coll (\<lambda>b. b\<lparr>bal_free := dadd (bal_free b) notional\<rparr>) l2
        else
          let entry = bal_free (acct l1 v coll);
              l2 = upd_acct v coll (\<lambda>b. b\<lparr>bal_free := 0\<rparr>) l1
          in upd_acct v quote (\<lambda>b. b\<lparr>bal_free :=
               dadd (bal_free b) (dsub (dadd entry (dsub entry notional)) fee_quote)\<rparr>) l2))"

definition charge_gas :: "paper_ledger \<Rightarrow> string \<Rightarrow> string \<Rightarrow> decimal \<Rightarrow> paper_ledger" where
  "charge_gas l v native amount =
     mark_dirty (upd_acct v native (\<lambda>b. b\<lparr>bal_free := dsub (bal_free b) amount\<rparr>) (ensure_acct v native l))"

definition asset_head :: "string \<Rightarrow> string" where
  "asset_head a = takeWhile (\<lambda>c. c \<noteq> CHR '':'') a"

definition ledger_total_usd :: "(string \<Rightarrow> decimal option) \<Rightarrow> paper_ledger \<Rightarrow> decimal" where
  "ledger_total_usd price_of l =
     foldl (\<lambda>t (a, b). case price_of (asset_head a) of None \<Rightarrow> t
              | Some px \<Rightarrow> dadd t (dmul (dadd (bal_free b) (bal_used b)) px))
       0 (concat (map snd (pl_bal l)))"

subsection \<open>How the operations act on the accounts\<close>

lemma acct_put [simp]: "acct (put_acct v a b l) v' a' = (if v' = v \<and> a' = a then b else acct l v' a')"
  by (simp add: acct_def put_acct_def)

lemma acct_ensure [simp]: "acct (ensure_acct v a l) v' a' = acct l v' a'"
  by (simp add: ensure_acct_def)

lemma acct_upd [simp]: "acct (upd_acct v a f l) v' a' = (if v' = v \<and> a' = a then f (acct l v a) else acct l v' a')"
  by (simp add: upd_acct_def)

lemma acct_mark [simp]: "acct (mark_dirty l) = acct l"
  by (rule ext)+ (simp add: acct_def mark_dirty_def)

lemma ledger_get_amounts: "bal_free (ledger_get l v a) = bal_free (acct l v a)"
    "bal_used (ledger_get l v a) = bal_used (acct l v a)"
  by (simp_all add: ledger_get_def acct_def dget_def [of _ a] split: option.split)

lemma ledger_reserve_result: "snd (ledger_reserve l v a x) = Inr () \<longleftrightarrow> x \<le> bal_free (acct l v a)"
  by (simp add: ledger_reserve_def Let_def)

lemma acct_reserve: "acct (fst (ledger_reserve l v a x)) v' a' =
    (if v' = v \<and> a' = a \<and> x \<le> bal_free (acct l v a)
     then (acct l v a)\<lparr>bal_free := dsub (bal_free (acct l v a)) x, bal_used := dadd (bal_used (acct l v a)) x\<rparr>
     else acct l v' a')"
  by (simp add: ledger_reserve_def Let_def)

lemma acct_release: "acct (ledger_release l v a x) v' a' =
    (if v' = v \<and> a' = a
     then (acct l v a)\<lparr>bal_used := dsub (bal_used (acct l v a)) (min x (bal_used (acct l v a))),
       bal_free := dadd (bal_free (acct l v a)) (min x (bal_used (acct l v a)))\<rparr>
     else acct l v' a')"
  by (simp add: ledger_release_def Let_def)

definition slot_free :: "paper_ledger \<Rightarrow> string \<times> string \<Rightarrow> decimal" where
  "slot_free l k = bal_free (acct l (fst k) (snd k))"

definition slot_used :: "paper_ledger \<Rightarrow> string \<times> string \<Rightarrow> decimal" where
  "slot_used l k = bal_used (acct l (fst k) (snd k))"

definition slot_reserve :: "paper_ledger \<Rightarrow> string \<times> string \<Rightarrow> decimal \<Rightarrow> paper_ledger \<times> (message + unit)" where
  "slot_reserve l k x = ledger_reserve l (fst k) (snd k) x"

definition slot_release :: "paper_ledger \<Rightarrow> string \<times> string \<Rightarrow> decimal \<Rightarrow> paper_ledger" where
  "slot_release l k x = ledger_release l (fst k) (snd k) x"

lemmas slot_defs = slot_free_def slot_used_def slot_reserve_def slot_release_def

interpretation ledger: account_store slot_free slot_used slot_reserve slot_release
proof unfold_locales
  fix l k x e j
  assume "snd (slot_reserve l k x) = Inl e"
  then show "slot_free (fst (slot_reserve l k x)) j = slot_free l j \<and>
      slot_used (fst (slot_reserve l k x)) j = slot_used l j"
    using ledger_reserve_result [of l "fst k" "snd k" x] by (simp add: slot_defs acct_reserve)
qed (auto simp: slot_defs acct_reserve acct_release ledger_reserve_result prod_eq_iff)

subsection \<open>Properties\<close>

text \<open>C18. Reservations neither create nor destroy money: for amounts on a common decimal grid a
  reservation succeeds exactly when the free balance suffices, keeps the sum of free and used, and
  touches no other account; a refused one changes no balance, and releasing the reserved amount
  restores the account to the digit.\<close>

theorem ledger_reserve_conserves:
  assumes "on_grid d (bal_free (acct l v a))" "on_grid d (bal_used (acct l v a))" "on_grid d x"
    and "0 \<le> x" "0 \<le> bal_used (acct l v a)" "on_grid d (bal_used (acct l v a) + x)"
    and "l' = fst (ledger_reserve l v a x)"
  shows "bal_free (acct l' v a) + bal_used (acct l' v a) = bal_free (acct l v a) + bal_used (acct l v a) \<and>
    (\<forall>v' a'. (v', a') \<noteq> (v, a) \<longrightarrow> acct l' v' a' = acct l v' a') \<and>
    (bal_free (acct l v a) < x \<longrightarrow> acct l' v a = acct l v a) \<and>
    (x \<le> bal_free (acct l v a) \<longrightarrow>
       bal_free (acct (ledger_release l' v a x) v a) = bal_free (acct l v a) \<and>
       bal_used (acct (ledger_release l' v a x) v a) = bal_used (acct l v a))"
proof -
  note c = ledger.reserve_conserves [of d l "(v, a)" x, unfolded slot_defs fst_conv snd_conv]
  note r = ledger.reserve_release_restores [of d l "(v, a)" x "(v, a)", unfolded slot_defs fst_conv snd_conv]
  show ?thesis
    using assms c r by (cases "x \<le> bal_free (acct l v a)") (auto simp: acct_reserve)
qed

definition demo_ledger :: paper_ledger where
  "demo_ledger = ledger_seed [(''kraken'', [(''USDC'', 1200), (''BTC'', 2)]), (''coinbase'', [(''BTC'', 1)])] new_ledger"

lemma demo_accts: "acct demo_ledger ''kraken'' ''USDC'' = \<lparr>bal_asset = ''USDC'', bal_free = 1200, bal_used = 0\<rparr>"
    "acct demo_ledger ''coinbase'' ''BTC'' = \<lparr>bal_asset = ''BTC'', bal_free = 1, bal_used = 0\<rparr>"
    "acct demo_ledger ''kraken'' ''BTC'' = \<lparr>bal_asset = ''BTC'', bal_free = 2, bal_used = 0\<rparr>"
  by (simp_all add: demo_ledger_def ledger_seed_def acct_def dget_def)

lemma on_grid_num: "(numeral k :: int) * 10 ^ d < 10 ^ 34 \<Longrightarrow> on_grid d (numeral k)"
  unfolding on_grid_def by (intro exI [of _ "numeral k * 10 ^ d"]) simp

theorem ledger_reserve_conserves_witness:
  "bal_used (acct (fst (ledger_reserve demo_ledger ''kraken'' ''USDC'' 500)) ''kraken'' ''USDC'') +
   bal_free (acct (fst (ledger_reserve demo_ledger ''kraken'' ''USDC'' 500)) ''kraken'' ''USDC'') = 1200"
  using ledger_reserve_conserves [of 0 demo_ledger "''kraken''" "''USDC''" 500, OF _ _ _ _ _ _ refl]
  by (simp add: demo_accts on_grid_num)

text \<open>Settling a fill moves exactly its amounts: when the reservation covers it, a buy takes the
  cost and the fee out of the reserved quote and adds the base amount to the free balance, a sale
  takes the base amount out of the reserve and adds the proceeds less the fee; no other account
  changes.\<close>

theorem settle_fill_exact:
  assumes "base \<noteq> quote"
    and "on_grid d (bal_free (acct l v base))" "on_grid d (bal_used (acct l v base))"
      "on_grid d (bal_free (acct l v quote))" "on_grid d (bal_used (acct l v quote))"
    and "on_grid d n" "on_grid d q" "on_grid d f" "0 \<le> n" "0 \<le> f" "f \<le> q"
    and "on_grid d (q + f)" "on_grid d (bal_free (acct l v base) + n)" "on_grid d (bal_free (acct l v quote) + (q - f))"
    and "l' = settle_fill l v base quote side n q f True"
    and "if side = BUY then q + f \<le> bal_used (acct l v quote) else n \<le> bal_used (acct l v base)"
  shows "(if side = BUY
       then bal_used (acct l' v quote) = bal_used (acct l v quote) - (q + f) \<and>
            bal_free (acct l' v base) = bal_free (acct l v base) + n \<and>
            bal_free (acct l' v quote) = bal_free (acct l v quote) \<and> bal_used (acct l' v base) = bal_used (acct l v base)
       else bal_used (acct l' v base) = bal_used (acct l v base) - n \<and>
            bal_free (acct l' v quote) = bal_free (acct l v quote) + (q - f) \<and>
            bal_free (acct l' v base) = bal_free (acct l v base) \<and> bal_used (acct l' v quote) = bal_used (acct l v quote)) \<and>
    (\<forall>v' a'. (v', a') \<notin> {(v, base), (v, quote)} \<longrightarrow> acct l' v' a' = acct l v' a')"
proof (cases side)
  case BUY
  have "0 \<le> q + f" using assms by simp
  then show ?thesis
    using assms BUY dsub_grid [of d "bal_used (acct l v quote)" "q + f"]
    by (auto simp: settle_fill_def Let_def dadd_grid)
next
  case SELL
  then show ?thesis
    using assms dsub_grid [of d "bal_used (acct l v base)" n] dsub_grid [of d q f]
    by (auto simp: settle_fill_def Let_def dadd_grid)
qed

theorem settle_fill_exact_witness:
  "bal_free (acct (settle_fill (fst (ledger_reserve demo_ledger ''kraken'' ''USDC'' 500)) ''kraken'' ''BTC'' ''USDC''
     BUY 3 400 2 True) ''kraken'' ''BTC'') = 5"
proof -
  let ?l = "fst (ledger_reserve demo_ledger ''kraken'' ''USDC'' 500)"
  have a: "acct ?l ''kraken'' ''USDC'' = \<lparr>bal_asset = ''USDC'', bal_free = 700, bal_used = 500\<rparr>"
    "acct ?l ''kraken'' ''BTC'' = \<lparr>bal_asset = ''BTC'', bal_free = 2, bal_used = 0\<rparr>"
    by (simp_all add: acct_reserve demo_accts dec_defs dround_eval)
  show ?thesis
    using settle_fill_exact [of "''BTC''" "''USDC''" 0 ?l "''kraken''" 3 400 2, OF _ _ _ _ _ _ _ _ _ _ _ _ _ _ refl]
    by (simp add: a on_grid_num)
qed

text \<open>A reservation that does not cover the fill is not made up for: the code sets the reserved
  balance to zero and never charges the missing part, so a buy of \<open>cost > used\<close> takes less quote
  than it costs while the base amount is credited in full.\<close>

theorem settle_fill_uncovered:
  assumes "base \<noteq> quote" "bal_used (acct l v quote) < dadd q f"
    and "l' = settle_fill l v base quote BUY n q f True"
  shows "bal_used (acct l' v quote) = 0 \<and> bal_free (acct l' v quote) = bal_free (acct l v quote) \<and>
    (bal_free (acct l v quote) + bal_used (acct l v quote)) - (bal_free (acct l' v quote) + bal_used (acct l' v quote))
      < dadd q f \<and>
    bal_free (acct l' v base) = dadd (bal_free (acct l v base)) n"
  using assms dsub_nonpos [of "bal_used (acct l v quote)" "dadd q f"]
  by (auto simp: settle_fill_def Let_def)

theorem settle_fill_uncovered_witness:
  "bal_free (acct (settle_fill demo_ledger ''kraken'' ''BTC'' ''USDC'' BUY 3 400 2 True) ''kraken'' ''USDC'') = 1200"
  using settle_fill_uncovered [of "''BTC''" "''USDC''" demo_ledger "''kraken''" 400 2 _ 3, OF _ _ refl]
  by (simp add: demo_accts dec_defs dround_eval)

text \<open>A perpetual short realises its profit: opened at the reserved notional and closed at another
  one, the quote balance changes by exactly entry minus exit minus both fees, nothing stays
  reserved and the collateral is empty again.\<close>

theorem perp_round_trip:
  assumes "on_grid d (bal_free (acct l v quote))" "bal_used (acct l v quote) = n0"
    and "bal_free (acct l v (collateral_asset quote)) = 0"
    and "on_grid d n0" "on_grid d n1" "on_grid d f0" "on_grid d f1" "0 \<le> n0"
    and "0 \<le> f0" "f0 \<le> bal_free (acct l v quote)"
    and "on_grid d (n0 - n1)" "on_grid d (n0 + (n0 - n1))" "on_grid d (n0 + (n0 - n1) - f1)"
    and "on_grid d (bal_free (acct l v quote) - f0 + (n0 + (n0 - n1) - f1))"
    and "l1 = settle_perp l v quote SELL n0 f0 False" and "l2 = settle_perp l1 v quote BUY n1 f1 True"
  shows "bal_free (acct l2 v quote) + bal_used (acct l2 v quote) =
      bal_free (acct l v quote) + bal_used (acct l v quote) + (n0 - n1) - f0 - f1 \<and>
    bal_used (acct l2 v quote) = 0 \<and> bal_free (acct l2 v (collateral_asset quote)) = 0"
proof -
  have ne: "collateral_asset quote \<noteq> quote" "quote \<noteq> collateral_asset quote"
    by (simp_all add: collateral_asset_def)
  have r: "drepr n0" "drepr f0" "drepr (bal_free (acct l v quote))"
    using assms by (auto intro: on_grid_drepr)
  have "bal_free (acct l1 v quote) = bal_free (acct l v quote) - f0" "bal_used (acct l1 v quote) = 0"
    "bal_free (acct l1 v (collateral_asset quote)) = n0"
    using assms ne r by (simp_all add: settle_perp_def Let_def dsub_grid)
  moreover have "dsub n0 n1 = n0 - n1" "dadd n0 (n0 - n1) = n0 + (n0 - n1)"
    "dsub (n0 + (n0 - n1)) f1 = n0 + (n0 - n1) - f1"
    using assms by (simp_all add: dsub_def dadd_grid dec.rnd_exact on_grid_drepr)
  ultimately have "bal_free (acct l2 v quote) = bal_free (acct l v quote) - f0 + (n0 + (n0 - n1) - f1)"
    "bal_used (acct l2 v quote) = 0" "bal_free (acct l2 v (collateral_asset quote)) = 0"
    using assms ne by (simp_all add: settle_perp_def Let_def dadd_grid)
  with assms(2) show ?thesis by simp
qed

theorem perp_round_trip_witness:
  "bal_free (acct (settle_perp (settle_perp (fst (ledger_reserve demo_ledger ''kraken'' ''USDC'' 500))
     ''kraken'' ''USDC'' SELL 500 3 False) ''kraken'' ''USDC'' BUY 450 2 True) ''kraken'' ''USDC'') = 1245"
proof -
  let ?l = "fst (ledger_reserve demo_ledger ''kraken'' ''USDC'' 500)"
  have a: "acct ?l ''kraken'' ''USDC'' = \<lparr>bal_asset = ''USDC'', bal_free = 700, bal_used = 500\<rparr>"
    "acct ?l ''kraken'' (collateral_asset ''USDC'') = \<lparr>bal_asset = collateral_asset ''USDC'', bal_free = 0, bal_used = 0\<rparr>"
    by (simp_all add: acct_reserve demo_accts dec_defs dround_eval)
      (simp add: demo_ledger_def ledger_seed_def acct_def dget_def collateral_asset_def new_balance_def)
  show ?thesis
    using perp_round_trip [of 0 ?l "''kraken''" "''USDC''" 500 450 3 2, OF _ _ _ _ _ _ _ _ _ _ _ _ _ _ refl refl]
    by (simp add: a on_grid_num)
qed

lemma get_dump_load:
  "ledger_get (ledger_load (ledger_dump l) l0) v a = ledger_get l v a"
proof -
  have m: "map_of (map (\<lambda>(k, x). (k, g k x)) d) k = map_option (g k) (map_of d k)"
    for g :: "string \<Rightarrow> 'x \<Rightarrow> 'y" and d and k
    by (induction d) auto
  have "pl_bal (ledger_load (ledger_dump l) l0) = map (\<lambda>(v, assets). (v,
      map (\<lambda>(a, b). (a, \<lparr>bal_asset = a, bal_free = bal_free b, bal_used = bal_used b\<rparr>)) assets)) (pl_bal l)"
    by (simp add: ledger_load_def ledger_dump_def split_def comp_def)
  then show ?thesis
    by (auto simp: ledger_get_def dget_def m split: option.split)
qed

text \<open>Saving and loading the balances is lossless: a ledger loaded from a dump has the same
  balances at every venue and asset.\<close>

theorem ledger_dump_load:
  "ledger_get (ledger_load (ledger_dump l) l0) v a = ledger_get l v a"
  by (rule get_dump_load)

end
