(* ===== verification/Rebalancer.thy ===== *)
theory Rebalancer
  imports Inventory
begin

text \<open>
  Model of \<^verbatim>\<open>backend/fedr/engine/rebalancer.py\<close>: the record of what missing inventory blocked, the
  comparison of the ways to move value, and the recommendations. Texts and arrival times of the
  methods are display only.
\<close>

subsection \<open>State\<close>

record rebalancer =
  rbl_value :: "(string \<times> string, decimal list) dict"
  rbl_count :: "(string \<times> string, int) dict"

definition new_rebalancer :: rebalancer where
  "new_rebalancer = \<lparr>rbl_value = [], rbl_count = []\<rparr>"

definition last_n :: "nat \<Rightarrow> 'a list \<Rightarrow> 'a list" where
  \<comment> \<open>\<open>xs[-n:]\<close>\<close>
  "last_n n xs = drop (length xs - n) xs"

definition note_blocked :: "rebalancer \<Rightarrow> string \<Rightarrow> string \<Rightarrow> decimal \<Rightarrow> rebalancer" where
  "note_blocked m venue asset expected =
     (let k = (venue, asset); xs = dget (rbl_value m) k [] @ [max 0 expected] in
      m\<lparr>rbl_value := AList.update k (if 500 < length xs then last_n 500 xs else xs) (rbl_value m),
        rbl_count := AList.update k (dget (rbl_count m) k 0 + 1) (rbl_count m)\<rparr>)"

definition rebalancer_clear :: "rebalancer \<Rightarrow> rebalancer" where
  "rebalancer_clear m = m\<lparr>rbl_value := [], rbl_count := []\<rparr>"

subsection \<open>Ways to move value\<close>

definition WITHDRAWAL_COST :: decimal where "WITHDRAWAL_COST = 3"
definition NETWORK_COST :: decimal where "NETWORK_COST = 15/10"
definition BRIDGE_COST :: decimal where "BRIDGE_COST = 8"
definition SWAP_COST :: decimal where "SWAP_COST = 2"

record move_method =
  mm_method :: string
  mm_available :: bool
  mm_cost_usd :: decimal

definition on_chain_line :: "inventory_line option \<Rightarrow> bool" where
  "on_chain_line l \<longleftrightarrow> (case l of None \<Rightarrow> False | Some x \<Rightarrow> il_kind x = ''chain'')"

definition method_costs ::
  "inventory \<Rightarrow> string \<Rightarrow> string \<Rightarrow> string \<Rightarrow> decimal \<Rightarrow> decimal option \<Rightarrow> move_method list" where
  "method_costs inven src dst asset amount_usd fee =
     (let from_line = map_of (im_lines inven) (src, asset);
          to_line = map_of (im_lines inven) (dst, asset);
          both_chains = (on_chain_line from_line \<and> on_chain_line to_line);
          wfee = (case fee of Some f \<Rightarrow> f | None \<Rightarrow> WITHDRAWAL_COST);
          transfer = dadd wfee NETWORK_COST
      in [\<lparr>mm_method = ''transfer'', mm_available = (\<not> both_chains), mm_cost_usd = transfer\<rparr>,
          \<lparr>mm_method = ''bridge'', mm_available = False, mm_cost_usd = dadd transfer BRIDGE_COST\<rparr>,
          \<lparr>mm_method = ''swap'', mm_available = (to_line \<noteq> None),
           mm_cost_usd = dadd (dmul amount_usd (1/1000)) SWAP_COST\<rparr>])"

definition transfer_cost_usd ::
  "inventory \<Rightarrow> string \<Rightarrow> string \<Rightarrow> string \<Rightarrow> decimal \<Rightarrow> decimal option \<Rightarrow> decimal" where
  "transfer_cost_usd inven src dst asset amount_usd fee =
     (case min_by mm_cost_usd (filter mm_available (method_costs inven src dst asset amount_usd fee)) of
        None \<Rightarrow> dadd (dadd WITHDRAWAL_COST NETWORK_COST) BRIDGE_COST
      | Some m \<Rightarrow> mm_cost_usd m)"

subsection \<open>Recommendations\<close>

record recommendation =
  rc_from_venue :: string
  rc_to_venue :: string
  rc_asset :: string
  rc_amount :: decimal
  rc_cost_usd :: decimal
  rc_benefit_usd :: decimal
  rc_count :: int
  rc_method :: string

definition net_benefit_usd :: "recommendation \<Rightarrow> decimal" where
  "net_benefit_usd r = dsub (rc_benefit_usd r) (rc_cost_usd r)"

definition donors_for :: "inventory \<Rightarrow> string \<Rightarrow> string \<Rightarrow> inventory_line list" where
  "donors_for inven venue asset =
     filter (\<lambda>l. il_asset l = asset \<and> il_venue l \<noteq> venue \<and> 0 < il_available l) (inv_lines inven)"

definition shortfall_usd :: "inventory_line option \<Rightarrow> inventory_line \<Rightarrow> decimal \<Rightarrow> decimal" where
  "shortfall_usd target donor px =
     max 50 (case target of
        Some t \<Rightarrow> if 0 < il_target t then dmul (dsub (il_target t) (il_total t)) px
                  else dmul (dmul (il_available donor) px) (3/10)
      | None \<Rightarrow> dmul (dmul (il_available donor) px) (3/10))"

definition price_or_one :: "(string \<Rightarrow> decimal option) \<Rightarrow> string \<Rightarrow> decimal" where
  \<comment> \<open>\<open>price_usd(asset) or Decimal("1")\<close>\<close>
  "price_or_one price_usd asset = (case price_usd asset of Some p \<Rightarrow> if p = 0 then 1 else p | None \<Rightarrow> 1)"

definition move_amount :: "inventory \<Rightarrow> string \<Rightarrow> string \<Rightarrow> inventory_line \<Rightarrow> decimal \<Rightarrow> decimal" where
  "move_amount inven venue asset donor px =
     min (dmul (il_available donor) (5/10))
       (ddiv (shortfall_usd (map_of (im_lines inven) (venue, asset)) donor px) px)"

definition recommend_for ::
  "(string \<Rightarrow> decimal option) \<Rightarrow> rebalance_settings \<Rightarrow> inventory \<Rightarrow> rebalancer \<Rightarrow>
   (string \<times> string) \<times> decimal list \<Rightarrow> recommendation option" where
  \<comment> \<open>one turn of the loop; None for \<open>continue\<close> or a net benefit below the minimum\<close>
  "recommend_for price_usd rb inven m = (\<lambda>((venue, asset), vs).
     if vs = [] then None
     else (case max_by il_available (donors_for inven venue asset) of
       None \<Rightarrow> None
     | Some donor \<Rightarrow>
         let benefit = dmul (dsum vs) (5/10);
             px = price_or_one price_usd asset;
             amount = move_amount inven venue asset donor px
         in if amount \<le> 0 then None
            else (case min_by mm_cost_usd
                         (filter mm_available (method_costs inven (il_venue donor) venue asset (dmul amount px) None)) of
                    None \<Rightarrow> None
                  | Some best \<Rightarrow>
                      let r = \<lparr>rc_from_venue = il_venue donor, rc_to_venue = venue, rc_asset = asset,
                               rc_amount = amount, rc_cost_usd = mm_cost_usd best, rc_benefit_usd = benefit,
                               rc_count = dget (rbl_count m) (venue, asset) 0, rc_method = mm_method best\<rparr>
                      in if rb_min_net_benefit_usd rb \<le> net_benefit_usd r then Some r else None)))"

definition recommend ::
  "(string \<Rightarrow> decimal option) \<Rightarrow> rebalance_settings \<Rightarrow> inventory \<Rightarrow> rebalancer \<Rightarrow> recommendation list" where
  "recommend price_usd rb inven m =
     (if \<not> rb_recommendations_enabled rb then []
      else sort_key (\<lambda>r. dneg (net_benefit_usd r))
             (List.map_filter (recommend_for price_usd rb inven m) (rbl_value m)))"

subsection \<open>Lemmas\<close>

lemma set_map_filter: "y \<in> set (List.map_filter f xs) \<longleftrightarrow> (\<exists>x \<in> set xs. f x = Some y)"
  by (induction xs) (auto simp: List.map_filter_simps split: option.splits)

lemma set_inv_lines: "set (inv_lines m) = set (vals (im_lines m))"
proof -
  have ins: "set (insert_line l xs) = insert l (set xs)" for l xs by (induction xs) auto
  have "set (foldr insert_line ls []) = set ls" for ls by (induction ls) (simp_all add: ins)
  then show ?thesis by (simp add: inv_lines_def)
qed

lemma method_cost_ge:
  assumes "c \<in> set (method_costs inven src dst asset x None)" and "0 \<le> x"
  shows "2 \<le> mm_cost_usd c"
proof -
  have t: "dadd WITHDRAWAL_COST NETWORK_COST = 9/2"
    by (simp add: WITHDRAWAL_COST_def NETWORK_COST_def dec_defs dround_eval)
  have "2 \<le> dadd (dmul x (1/1000)) SWAP_COST"
    using dadd_mono [of 0 "dmul x (1/1000)" 2 SWAP_COST] dmul_nonneg [OF assms(2), of "1/1000"]
    by (simp add: SWAP_COST_def drepr_numeral)
  moreover have "2 \<le> dadd (9/2) BRIDGE_COST" by (simp add: BRIDGE_COST_def dec_defs dround_eval)
  ultimately show ?thesis using assms(1) by (auto simp: method_costs_def Let_def t)
qed

lemma recommend_forD:
  assumes "recommend_for price_usd rb inven m ((venue, asset), vs) = Some r"
  obtains donor where "donor \<in> set (vals (im_lines inven))" "il_asset donor = asset" "il_venue donor \<noteq> venue"
    "0 < il_available donor" "rc_from_venue r = il_venue donor" "rc_to_venue r = venue" "rc_asset r = asset"
    "0 < rc_amount r" "rc_amount r \<le> dmul (il_available donor) (5/10)"
    "rc_benefit_usd r = dmul (dsum vs) (5/10)" "rb_min_net_benefit_usd rb \<le> net_benefit_usd r"
    "\<exists>c \<in> set (method_costs inven (il_venue donor) venue asset (dmul (rc_amount r) (price_or_one price_usd asset)) None).
       mm_available c \<and> mm_method c = rc_method r \<and> mm_cost_usd c = rc_cost_usd r"
proof -
  let ?px = "price_or_one price_usd asset"
  obtain donor where d: "max_by il_available (donors_for inven venue asset) = Some donor"
    using assms by (auto simp: recommend_for_def split: if_splits option.splits)
  let ?costs = "method_costs inven (il_venue donor) venue asset (dmul (move_amount inven venue asset donor ?px) ?px) None"
  obtain best where b: "min_by mm_cost_usd (filter mm_available ?costs) = Some best"
      "0 < move_amount inven venue asset donor ?px"
    using assms d by (auto simp: recommend_for_def Let_def split: if_splits option.splits)
  then have r: "r = \<lparr>rc_from_venue = il_venue donor, rc_to_venue = venue, rc_asset = asset,
        rc_amount = move_amount inven venue asset donor ?px, rc_cost_usd = mm_cost_usd best,
        rc_benefit_usd = dmul (dsum vs) (5/10),
        rc_count = dget (rbl_count m) (venue, asset) 0, rc_method = mm_method best\<rparr>"
      "rb_min_net_benefit_usd rb \<le> net_benefit_usd r"
    using assms d by (auto simp: recommend_for_def Let_def split: if_splits)
  have "donor \<in> set (donors_for inven venue asset)" using max_by_SomeD [OF d] by simp
  then have dn: "donor \<in> set (vals (im_lines inven))" "il_asset donor = asset" "il_venue donor \<noteq> venue" "0 < il_available donor"
    by (auto simp: donors_for_def set_inv_lines)
  have bs: "best \<in> set ?costs" "mm_available best"
    using min_by_SomeD [OF b(1)] by auto
  have "move_amount inven venue asset donor ?px \<le> dmul (il_available donor) (5/10)" by (simp add: move_amount_def)
  with that [OF dn] r b(2) bs show ?thesis by auto
qed

definition all_zero :: "rebalancer \<Rightarrow> bool" where
  "all_zero m \<longleftrightarrow> (\<forall>e \<in> set (rbl_value m). set (snd e) \<subseteq> {0})"

lemma set_alist_update: "set (AList.update k x d) \<subseteq> insert (k, x) (set d)"
  by (induction d) auto

lemma all_zero_note:
  assumes "all_zero m"
  shows "all_zero (note_blocked m v a 0)"
proof -
  define ys where "ys = dget (rbl_value m) (v, a) [] @ [0]"
  define zs where "zs = (if 500 < length ys then last_n 500 ys else ys)"
  have "set (dget (rbl_value m) (v, a) []) \<subseteq> {0}"
    using assms map_of_SomeD [of "rbl_value m" "(v, a)"] by (force simp: all_zero_def dget_def split: option.split)
  then have "set ys \<subseteq> {0}" by (simp add: ys_def)
  then have "set zs \<subseteq> {0}" by (auto simp: zs_def last_n_def dest: in_set_dropD)
  moreover have "rbl_value (note_blocked m v a 0) = AList.update (v, a) zs (rbl_value m)"
    by (simp add: note_blocked_def Let_def zs_def ys_def)
  ultimately show ?thesis
    using assms set_alist_update [of "(v, a)" zs "rbl_value m"] unfolding all_zero_def by fastforce
qed

subsection \<open>Properties\<close>

text \<open>A recommendation moves at most half of what another venue has available, by a method that is
  available, and its benefit after cost reaches the configured minimum.\<close>

theorem recommend_sound:
  assumes "r \<in> set (recommend price_usd rb inven m)"
  shows "rb_min_net_benefit_usd rb \<le> net_benefit_usd r \<and> 0 < rc_amount r \<and>
    (\<exists>donor \<in> set (vals (im_lines inven)). il_venue donor = rc_from_venue r \<and> il_asset donor = rc_asset r \<and>
       rc_from_venue r \<noteq> rc_to_venue r \<and> rc_amount r \<le> dmul (il_available donor) (5/10)) \<and>
    rc_method r \<noteq> ''bridge''"
proof -
  obtain venue asset vs where "recommend_for price_usd rb inven m ((venue, asset), vs) = Some r"
    using assms by (force simp: recommend_def set_map_filter split: if_splits)
  then obtain donor where d: "donor \<in> set (vals (im_lines inven))" "il_asset donor = asset" "il_venue donor \<noteq> venue"
      "rc_from_venue r = il_venue donor" "rc_to_venue r = venue" "rc_asset r = asset"
      "0 < rc_amount r" "rc_amount r \<le> dmul (il_available donor) (5/10)" "rb_min_net_benefit_usd rb \<le> net_benefit_usd r"
      "\<exists>c \<in> set (method_costs inven (il_venue donor) venue asset (dmul (rc_amount r) (price_or_one price_usd asset)) None).
         mm_available c \<and> mm_method c = rc_method r \<and> mm_cost_usd c = rc_cost_usd r"
    by (rule recommend_forD)
  then have "rc_method r \<noteq> ''bridge''" by (auto simp: method_costs_def Let_def)
  with d show ?thesis by auto
qed

definition demo_stock :: inventory where
  "demo_stock = new_inventory\<lparr>im_lines := [((''kraken'', ''BTC''), (new_line ''kraken'' ''BTC'' ''cex'')\<lparr>il_available := 10\<rparr>)]\<rparr>"

definition demo_rebalance :: rebalance_settings where
  "demo_rebalance = \<lparr>rb_recommendations_enabled = True, rb_min_net_benefit_usd = 5, rb_imbalance_threshold_pct = 30,
     rb_lookback_hours = 24\<rparr>"

theorem recommend_sound_witness:
  "\<exists>r. r \<in> set (recommend (\<lambda>_. Some 20) demo_rebalance demo_stock (note_blocked new_rebalancer ''coinbase'' ''BTC'' 200)) \<and>
     rc_from_venue r = ''kraken'' \<and> rc_amount r = 3 \<and> rc_method r \<noteq> ''bridge''"
proof -
  let ?m = "note_blocked new_rebalancer ''coinbase'' ''BTC'' 200"
  define r where "r = \<lparr>rc_from_venue = ''kraken'', rc_to_venue = ''coinbase'', rc_asset = ''BTC'', rc_amount = 3,
      rc_cost_usd = 9/2, rc_benefit_usd = 100, rc_count = 1, rc_method = ''transfer''\<rparr>"
  have "recommend_for (\<lambda>_. Some 20) demo_rebalance demo_stock ?m ((''coinbase'', ''BTC''), [200]) = Some r"
    by (simp add: recommend_for_def Let_def donors_for_def inv_lines_def demo_stock_def new_inventory_def new_line_def vals_def
        max_by_def min_by_def move_amount_def shortfall_usd_def price_or_one_def method_costs_def on_chain_line_def
        WITHDRAWAL_COST_def NETWORK_COST_def demo_rebalance_def net_benefit_usd_def note_blocked_def new_rebalancer_def
        dget_def dsum_def dec_defs dround_eval r_def)
  then have "r \<in> set (recommend (\<lambda>_. Some 20) demo_rebalance demo_stock ?m)"
    by (simp add: recommend_def set_map_filter demo_rebalance_def note_blocked_def new_rebalancer_def dget_def Let_def)
  from recommend_sound [OF this] this show ?thesis by (auto simp: r_def)
qed

text \<open>The engine reports every shortfall with an expected value of zero, so nothing is ever
  recommended: whatever the history of such reports, the benefit is zero and never covers a cost.\<close>

theorem zero_reports_recommend_nothing:
  assumes "m = foldl (\<lambda>m (v, a). note_blocked m v a 0) new_rebalancer reports"
    and "0 \<le> rb_min_net_benefit_usd rb" and "\<forall>a p. price_usd a = Some p \<longrightarrow> 0 \<le> p"
  shows "recommend price_usd rb inven m = []"
proof -
  have z: "all_zero m"
    unfolding assms(1) by (induction reports rule: rev_induct)
      (simp_all add: all_zero_note split_def, simp add: all_zero_def new_rebalancer_def)
  have "recommend_for price_usd rb inven m e = None" if e: "e \<in> set (rbl_value m)" for e
  proof (rule ccontr)
    obtain venue asset vs where ev: "e = ((venue, asset), vs)" by (metis prod.exhaust)
    assume "recommend_for price_usd rb inven m e \<noteq> None"
    then obtain r where "recommend_for price_usd rb inven m ((venue, asset), vs) = Some r" using ev by auto
    then obtain donor :: inventory_line where d: "0 < rc_amount r" "rc_benefit_usd r = dmul (dsum vs) (5/10)"
        "rb_min_net_benefit_usd rb \<le> net_benefit_usd r"
        "\<exists>c \<in> set (method_costs inven (il_venue donor) venue asset (dmul (rc_amount r) (price_or_one price_usd asset)) None).
           mm_available c \<and> mm_method c = rc_method r \<and> mm_cost_usd c = rc_cost_usd r"
      by (rule recommend_forD) (rule that)
    have ds: "dsum xs = 0" if "set xs \<subseteq> {0}" for xs
      using that by (induction xs rule: rev_induct) (simp_all add: dsum_def)
    have "set vs \<subseteq> {0}" using z e ev unfolding all_zero_def by (metis snd_conv)
    then have "rc_benefit_usd r = 0" using ds d(2) by simp
    moreover have "0 \<le> price_or_one price_usd asset" using assms(3) by (auto simp: price_or_one_def split: option.split)
    then have "0 \<le> dmul (rc_amount r) (price_or_one price_usd asset)" using d(1) by (intro dmul_nonneg) simp_all
    then have "2 \<le> rc_cost_usd r" using method_cost_ge d(4) by fastforce
    then have "dsub 0 (rc_cost_usd r) \<le> dsub 0 2" by (intro dsub_mono) simp_all
    then have "dsub 0 (rc_cost_usd r) < 0" by (simp add: dec_defs dround_eval)
    ultimately show False using d(3) assms(2) by (simp add: net_benefit_usd_def)
  qed
  then have "x \<notin> set (List.map_filter (recommend_for price_usd rb inven m) (rbl_value m))" for x
    by (auto simp: set_map_filter)
  then have "set (List.map_filter (recommend_for price_usd rb inven m) (rbl_value m)) = {}" by (metis equals0I)
  then have "List.map_filter (recommend_for price_usd rb inven m) (rbl_value m) = []" by (simp only: set_empty)
  then show ?thesis by (simp add: recommend_def)
qed

theorem zero_reports_recommend_nothing_witness:
  "recommend (\<lambda>_. Some 20) demo_rebalance demo_stock (note_blocked (note_blocked new_rebalancer ''coinbase'' ''BTC'' 0) ''kucoin'' ''BTC'' 0) = []"
  using zero_reports_recommend_nothing [of _ "[(''coinbase'', ''BTC''), (''kucoin'', ''BTC'')]" demo_rebalance "\<lambda>_. Some 20" demo_stock, OF refl]
  by (simp add: demo_rebalance_def)

end
