(* ===== verification/Engine_Context.thy ===== *)
theory Engine_Context
  imports Accounting Paper_Ledger Circuit_Breakers Rebalancer
begin

text \<open>
  The runtime context the engines share (\<^verbatim>\<open>backend/fedr/engine/context.py\<close>) as one record: settings,
  connectors, paper ledger, inventory, breakers, experience and the counters. The venues'
  answers, the clock and the health classification are not part of it; the operations that
  use them take them as arguments.
\<close>

record venue_ref =
  vr_name :: string
  vr_kind :: venue_kind
  vr_chain :: "chain option"
  vr_connected :: bool
  vr_trading_enabled :: bool
  vr_markets :: "(string, market_info) dict"

record engine_ctx =
  cx_settings :: app_settings
  cx_connectors :: "(string, venue_ref) dict"
  cx_ledger :: "paper_ledger option"
  cx_inventory :: inventory
  cx_rebalancer :: rebalancer
  cx_breakers :: breaker_manager
  cx_experience :: experience_engine
  cx_paper_executor :: bool
  cx_emergency_stop :: bool
  cx_open_trade_ids :: "string list"
  cx_daily_pnl_usd :: decimal
  cx_failed_trades_last_hour :: int
  cx_unhedged_since_ms :: "int option"
  cx_active :: "string list"
  cx_recent :: "trade_record list"

definition cx_mode :: "engine_ctx \<Rightarrow> trading_mode" where
  "cx_mode cx = gs_mode (s_general (cx_settings cx))"

definition is_simulated_execution :: "engine_ctx \<Rightarrow> bool" where
  "is_simulated_execution cx \<longleftrightarrow> cx_mode cx \<in> {SIMULATION, PAPER}"

definition max_quote_age :: "engine_ctx \<Rightarrow> int" where
  \<comment> \<open>the limit the latency guard of the context is built with\<close>
  "max_quote_age cx = min (ts_max_quote_age_ms (s_trading (cx_settings cx))) (rs_max_quote_age_ms (s_risk (cx_settings cx)))"

definition ledger_venue_for :: "venue_ref \<Rightarrow> string" where
  "ledger_venue_for c = (if vr_kind c = DEX then (case vr_chain c of Some ch \<Rightarrow> chain_value ch | None \<Rightarrow> vr_name c)
     else vr_name c)"

definition connectors_of :: "engine_ctx \<Rightarrow> venue_kind \<Rightarrow> venue_ref list" where
  "connectors_of cx k = filter (\<lambda>c. vr_kind c = k \<and> vr_connected c) (vals (cx_connectors cx))"

definition gas_reserve_ok :: "engine_ctx \<Rightarrow> chain \<Rightarrow> bool option" where
  "gas_reserve_ok cx ch =
     map_option (\<lambda>reserve. reserve \<le> inv_available (cx_inventory cx) (chain_value ch) (native_token ch))
       (map_of (gas_gas_reserve (s_gas (cx_settings cx))) (chain_value ch))"

definition supports_symbol :: "venue_ref \<Rightarrow> string \<Rightarrow> bool" where
  "supports_symbol c symbol \<longleftrightarrow> symbol \<in> set (keys (vr_markets c))"

definition market_of :: "venue_ref \<Rightarrow> string \<Rightarrow> market_info option" where
  "market_of c symbol = map_of (vr_markets c) symbol"

text \<open>Sets of identifiers are lists without order; the two operations the engines use.\<close>

definition id_add :: "string \<Rightarrow> string list \<Rightarrow> string list" where
  "id_add x xs = (if x \<in> set xs then xs else xs @ [x])"

definition id_discard :: "string \<Rightarrow> string list \<Rightarrow> string list" where
  "id_discard x xs = filter (\<lambda>y. y \<noteq> x) xs"

lemma set_id_add [simp]: "set (id_add x xs) = insert x (set xs)"
  by (auto simp: id_add_def)

lemma set_id_discard [simp]: "set (id_discard x xs) = set xs - {x}"
  by (auto simp: id_discard_def)

lemma id_discard_add [simp]: "x \<notin> set xs \<Longrightarrow> id_discard x (id_add x xs) = xs"
  by (auto simp: id_discard_def id_add_def filter_id_conv)

text \<open>An exception of the language, as the message of the exception an operation ends with.\<close>

definition py_msg :: "py_error \<Rightarrow> message" where
  "py_msg e = Msg (case e of TypeError \<Rightarrow> ''TypeError'' | ValueError \<Rightarrow> ''ValueError'' | ZeroDivision \<Rightarrow> ''DivisionByZero''
     | InvalidOperation \<Rightarrow> ''InvalidOperation'' | _ \<Rightarrow> ''Error'') []"

definition trip_global :: "breaker_reason \<Rightarrow> message \<Rightarrow> int \<Rightarrow> engine_ctx \<Rightarrow> engine_ctx" where
  "trip_global r detail now cx = cx\<lparr>cx_breakers := fst (trip (cx_breakers cx) r detail ''global'' True now)\<rparr>"


subsection \<open>A concrete context\<close>

definition demo_market :: "string \<Rightarrow> market_info" where
  "demo_market v = \<lparr>mi_venue = v, mi_symbol = ''BTC/USDC'', mi_base = ''BTC'', mi_quote = ''USDC'', mi_kind = CEX,
     mi_active = True, mi_amount_step = 1/1000, mi_price_step = 1/100, mi_min_amount = 0, mi_max_amount = None,
     mi_min_cost = 0, mi_taker_fee_pct = Some 1, mi_maker_fee_pct = Some 1, mi_contract_size = 1,
     mi_settle = None, mi_chain = None\<rparr>"

definition demo_venue :: "string \<Rightarrow> venue_ref" where
  "demo_venue v = \<lparr>vr_name = v, vr_kind = CEX, vr_chain = None, vr_connected = True, vr_trading_enabled = True,
     vr_markets = [(''BTC/USDC'', demo_market v)]\<rparr>"

definition demo_ctx :: engine_ctx where
  "demo_ctx = \<lparr>cx_settings = default_settings ''paper'',
     cx_connectors = [(''kraken'', demo_venue ''kraken''), (''coinbase'', demo_venue ''coinbase'')],
     cx_ledger = Some demo_ledger,
     cx_inventory = new_inventory\<lparr>im_lines :=
       [((''kraken'', ''USDC''), (new_line ''kraken'' ''USDC'' ''cex'')\<lparr>il_available := 1200\<rparr>),
        ((''coinbase'', ''BTC''), (new_line ''coinbase'' ''BTC'' ''cex'')\<lparr>il_available := 2\<rparr>)]\<rparr>,
     cx_rebalancer = new_rebalancer, cx_breakers = new_manager,
     cx_experience = \<lparr>ee_max_extra = 1, ee_enabled = False, ee_cache = []\<rparr>,
     cx_paper_executor = True, cx_emergency_stop = False, cx_open_trade_ids = [], cx_daily_pnl_usd = 0,
     cx_failed_trades_last_hour = 0, cx_unhedged_since_ms = None, cx_active = [], cx_recent = []\<rparr>"

lemma demo_ctx_simps [simp]:
  "cx_ledger demo_ctx = Some demo_ledger" "cx_breakers demo_ctx = new_manager"
  "cx_open_trade_ids demo_ctx = []" "cx_active demo_ctx = []" "cx_settings demo_ctx = default_settings ''paper''"
  "cx_emergency_stop demo_ctx = False" "cx_paper_executor demo_ctx = True"
  "map_of (cx_connectors demo_ctx) ''kraken'' = Some (demo_venue ''kraken'')"
  "map_of (cx_connectors demo_ctx) ''coinbase'' = Some (demo_venue ''coinbase'')"
  by (simp_all add: demo_ctx_def)

lemma demo_available:
  "inv_available (cx_inventory demo_ctx) ''kraken'' ''USDC'' = 1200"
  "inv_available (cx_inventory demo_ctx) ''coinbase'' ''BTC'' = 2"
  by (simp_all add: demo_ctx_def new_inventory_def inv_available_def reserved_for_def reserved_amounts_def
      new_line_def vals_def dsum_def dec_defs dround_eval)

lemma demo_venue_simps [simp]:
  "ledger_venue_for (demo_venue v) = v" "vr_name (demo_venue v) = v" "vr_kind (demo_venue v) = CEX"
  "vr_chain (demo_venue v) = None"
  by (simp_all add: demo_venue_def ledger_venue_for_def)

end
