(* ===== verification/Execution.thy ===== *)
theory Execution
  imports Engine_Context Leg_Guards
begin

text \<open>
  Model of \<^verbatim>\<open>backend/fedr/engine/execution/executor.py\<close> (paired execution of a buy and a sell leg) and
  of \<^verbatim>\<open>backend/fedr/engine/execution/emergency_hedge.py\<close>. What lies outside is an argument of a call,
  collected in \<open>exec_env\<close>: the re-evaluated opportunity, the answers of the venues, the clock.
  A leg answers an order or raises (\<open>Inl\<close>); the two legs of a pair run concurrently, so they are one
  argument that returns the ledger after both in whatever interleaving. Persistence and
  notification are outside the model.
\<close>

type_synonym leg = "venue_ref \<times> order_request \<times> execution_quote"

type_synonym leg_answer = "message + order_result"

record exec_env =
  xe_trade_id :: string
  xe_now_ms :: int
  xe_decision_ms :: int
  xe_submit_ms :: int
  xe_fill_ms :: int
  xe_tick :: rat
  xe_trigger :: string
  xe_allow_carry :: bool
  xe_fresh :: "opportunity option"
  xe_price_quote :: "decimal option"
  xe_health :: "string \<Rightarrow> venue_health"
  xe_hedge_quote :: "string \<Rightarrow> execution_quote option"
  xe_legs :: "paper_ledger option \<Rightarrow> leg \<Rightarrow> leg \<Rightarrow> paper_ledger option \<times> leg_answer \<times> leg_answer"
  xe_leg :: "paper_ledger option \<Rightarrow> leg \<Rightarrow> paper_ledger option \<times> leg_answer"

definition opt_or_zero :: "decimal option \<Rightarrow> decimal" where
  "opt_or_zero x = (case x of Some d \<Rightarrow> d | None \<Rightarrow> 0)"

subsection \<open>Submission of one leg\<close>

datatype place_answer = Placed order_result | Quote_Expired message | Place_Error message

definition requote_worse :: "order_request \<Rightarrow> execution_quote \<Rightarrow> bool" where
  "requote_worse req fresh \<longleftrightarrow>
     (let limit = (case or_limit_price req of Some l \<Rightarrow> if l = 0 then eq_avg_price fresh else l
                   | None \<Rightarrow> eq_avg_price fresh)
      in or_side req = BUY \<and> limit < eq_avg_price fresh \<or> or_side req = SELL \<and> eq_avg_price fresh < limit)"

definition submit_live ::
  "(order_request \<Rightarrow> place_answer) \<Rightarrow> (order_request \<Rightarrow> message + execution_quote) \<Rightarrow> order_request \<Rightarrow> int \<Rightarrow> leg_answer" where
  \<comment> \<open>the live branch of \<open>_submit\<close>: a stale quote is requoted once\<close>
  "submit_live place requote req now =
     (case place req of
        Placed r \<Rightarrow> Inr r
      | Place_Error e \<Rightarrow> Inl e
      | Quote_Expired e \<Rightarrow>
          (case requote req of
             Inl e' \<Rightarrow> Inl e'
           | Inr fresh \<Rightarrow>
               if requote_worse req fresh \<or> \<not> eq_fully_fillable fresh then
                 Inr ((new_result req (or_client_order_id req) REJECTED now)
                   \<lparr>res_error := Some (Msg ''requote worse than limit after quote expiry'' [AMsg e]),
                    res_completed_at_ms := Some now\<rparr>)
               else (case place (req\<lparr>or_quote_id := eq_quote_id fresh\<rparr>) of
                       Placed r \<Rightarrow> Inr r
                     | Place_Error e2 \<Rightarrow> Inl e2
                     | Quote_Expired e2 \<Rightarrow> Inl e2)))"

definition as_result :: "leg_answer \<Rightarrow> order_request \<Rightarrow> int \<Rightarrow> order_result" where
  "as_result ans req now =
     (case ans of
        Inr r \<Rightarrow> r
      | Inl e \<Rightarrow> (new_result req (or_client_order_id req) FAILED now)
          \<lparr>res_error := Some e, res_completed_at_ms := Some now\<rparr>)"

subsection \<open>Emergency hedge\<close>

definition hedge_score :: "venue_health \<Rightarrow> venue_ref \<Rightarrow> execution_quote \<Rightarrow> int" where
  "hedge_score h c q =
     (if h = HEALTHY then 0 else 40)
     + trunc_int (dmul (dadd (eq_slippage_pct q) (eq_price_impact_pct q)) 100)
     + (if vr_kind c = DEX then 25 else 0)
     - min 20 (eq_levels_consumed q)"

definition hedge_candidates ::
  "engine_ctx \<Rightarrow> exec_env \<Rightarrow> string \<Rightarrow> string \<Rightarrow> order_side \<Rightarrow> string list \<Rightarrow> (int \<times> venue_ref \<times> execution_quote) list" where
  "hedge_candidates cx env pair need_asset side exclude =
     List.map_filter (\<lambda>c.
       if \<not> vr_connected c \<or> \<not> supports_symbol c pair \<or> vr_name c \<in> set exclude then None
       else let h = xe_health env (vr_name c) in
         if h \<in> {UNHEALTHY, BLOCKED_VENUE} then None
         else if inv_available (cx_inventory cx) (ledger_venue_for c) need_asset \<le> 0 then None
         else (case xe_hedge_quote env (vr_name c) of
                 None \<Rightarrow> None
               | Some q \<Rightarrow> if \<not> eq_fully_fillable q \<or> eq_avg_price q \<le> 0 then None
                           else Some (hedge_score h c q, c, q)))
       (vals (cx_connectors cx))"

definition hedge_request :: "engine_ctx \<Rightarrow> string \<Rightarrow> order_side \<Rightarrow> decimal \<Rightarrow> venue_ref \<Rightarrow> execution_quote \<Rightarrow> order_request" where
  "hedge_request cx pair side amount v q =
     (let tol = ddiv (dmul (rs_max_slippage_pct (s_risk (cx_settings cx))) 3) 100 in
      \<lparr>or_venue = vr_name v, or_symbol = pair, or_side = side, or_amount = amount,
       or_limit_price = Some (if side = SELL then dmul (eq_avg_price q) (dsub 1 tol)
                              else dmul (eq_avg_price q) (dadd 1 tol)),
       or_time_in_force = ''IOC'', or_client_order_id = ''hedge'',
       or_min_received = (if side = SELL then Some (dmul (eq_quote_amount q) (dsub 1 tol)) else None),
       or_max_gas_usd = None, or_quote_id = eq_quote_id q,
       or_deadline_ms = Some (ts_execution_timeout_ms (s_trading (cx_settings cx))),
       or_reduce_only = False, or_extra_quoted_price = Some (eq_avg_price q)\<rparr>)"

definition hedge_reserve_need :: "engine_ctx \<Rightarrow> string \<Rightarrow> string \<Rightarrow> order_side \<Rightarrow> decimal \<Rightarrow> execution_quote \<Rightarrow> string \<times> decimal" where
  "hedge_reserve_need cx base quote side amount q =
     (let tol = ddiv (dmul (rs_max_slippage_pct (s_risk (cx_settings cx))) 3) 100 in
      if side = SELL then (base, amount)
      else (quote, dmul (dmul (eq_quote_amount q) (dadd 1 tol))
             (dadd 1 (ddiv (case eq_fee_pct q of Some f \<Rightarrow> f | None \<Rightarrow> 0) 100))))"

definition hedge_submit ::
  "engine_ctx \<Rightarrow> exec_env \<Rightarrow> string \<Rightarrow> string \<Rightarrow> string \<Rightarrow> order_side \<Rightarrow> decimal \<Rightarrow> venue_ref \<Rightarrow> execution_quote \<Rightarrow>
   engine_ctx \<times> leg_answer" where
  \<comment> \<open>the body of the \<open>try\<close>: reserve, execute, release what was not filled\<close>
  "hedge_submit cx env pair base quote side amount v q =
     (let req = hedge_request cx pair side amount v q in
      if is_simulated_execution cx \<and> cx_paper_executor cx then
        (case cx_ledger cx of
           None \<Rightarrow> (cx, Inl (Msg ''no ledger'' []))
         | Some l \<Rightarrow>
             let lv = ledger_venue_for v; (asset, need) = hedge_reserve_need cx base quote side amount q in
             (case ledger_reserve l lv asset need of
                (l1, Inl e) \<Rightarrow> (cx\<lparr>cx_ledger := Some l1\<rparr>, Inl e)
              | (l1, Inr _) \<Rightarrow>
                  (case xe_leg env (Some l1) (v, req, q) of
                     (ol, Inl e) \<Rightarrow> (cx\<lparr>cx_ledger := ol\<rparr>, Inl e)
                   | (ol, Inr res) \<Rightarrow>
                       if res_filled res < amount then
                         let rem = dsub amount (res_filled res) in
                         (cx\<lparr>cx_ledger := map_option (\<lambda>l2. ledger_release l2 lv (if side = SELL then base else quote)
                              (if side = SELL then rem else dmul rem (eq_avg_price q))) ol\<rparr>, Inr res)
                       else (cx\<lparr>cx_ledger := ol\<rparr>, Inr res))))
      else (case xe_leg env (cx_ledger cx) (v, req, q) of (ol, ans) \<Rightarrow> (cx\<lparr>cx_ledger := ol\<rparr>, ans)))"

fun hedge_try ::
  "exec_env \<Rightarrow> string \<Rightarrow> string \<Rightarrow> string \<Rightarrow> order_side \<Rightarrow> decimal \<Rightarrow> (int \<times> venue_ref \<times> execution_quote) list \<Rightarrow>
   engine_ctx \<Rightarrow> trade_record \<Rightarrow> engine_ctx \<times> trade_record \<times> order_result option" where
  "hedge_try env pair base quote side amount [] cx tr = (cx, tr, None)"
| "hedge_try env pair base quote side amount ((_, v, q) # rest) cx tr =
     (let tr1 = tr_log (xe_now_ms env) ''hedge_attempt'' [AStr (vr_name v), AStr (side_value side), ADec amount,
            ADec (opt_or_zero (or_limit_price (hedge_request cx pair side amount v q)))] tr in
      (case hedge_submit cx env pair base quote side amount v q of
         (cx1, Inl e) \<Rightarrow>
           hedge_try env pair base quote side amount rest cx1
             (tr_log (xe_now_ms env) ''hedge_error'' [AStr (vr_name v), AMsg e] tr1)
       | (cx1, Inr res) \<Rightarrow>
           if 0 < res_filled res then
             (cx1, tr_log (xe_now_ms env) ''hedge_filled'' [AStr (vr_name v), ADec (res_filled res),
               ADec (opt_or_zero (res_avg_price res))] tr1, Some res)
           else hedge_try env pair base quote side amount rest cx1 tr1))"

definition hedge ::
  "exec_env \<Rightarrow> string \<Rightarrow> string \<Rightarrow> string \<Rightarrow> decimal \<Rightarrow> string list \<Rightarrow> engine_ctx \<Rightarrow> trade_record \<Rightarrow>
   engine_ctx \<times> trade_record \<times> order_result option" where
  "hedge env pair base quote exposure exclude cx tr =
     (if exposure = 0 then (cx, tr, None)
      else
        let side = (if 0 < exposure then SELL else BUY);
            cands = hedge_candidates cx env pair (if side = SELL then base else quote) side exclude
        in if cands = [] then (cx, tr_log (xe_now_ms env) ''hedge_no_venue'' [ADec exposure] tr, None)
           else hedge_try env pair base quote side (dabs exposure) (take 3 (sort_key fst cands)) cx tr)"

subsection \<open>Reservation\<close>

definition reserve_legs ::
  "engine_ctx \<Rightarrow> string \<Rightarrow> string \<Rightarrow> string \<Rightarrow> decimal \<Rightarrow> string \<Rightarrow> string \<Rightarrow> decimal \<Rightarrow> engine_ctx \<times> (message + unit)" where
  \<comment> \<open>\<open>_reserve\<close>: the inventory first, then the paper ledger with rollback\<close>
  "reserve_legs cx tid lb quote qn ls base bn =
     (case inv_reserve (cx_inventory cx) tid [(lb, quote, qn), (ls, base, bn)] of
        (inv1, Inl e) \<Rightarrow> (cx\<lparr>cx_inventory := inv1\<rparr>, Inl e)
      | (inv1, Inr _) \<Rightarrow>
          let cx1 = cx\<lparr>cx_inventory := inv1\<rparr> in
          (case cx_ledger cx of
             None \<Rightarrow> (cx1, Inr ())
           | Some l \<Rightarrow>
               if is_simulated_execution cx then
                 (case reserve_two slot_reserve slot_release l (lb, quote) qn (ls, base) bn of
                    (l1, r) \<Rightarrow> (cx1\<lparr>cx_ledger := Some l1\<rparr>, r))
               else (cx1, Inr ())))"

definition release_unused ::
  "engine_ctx \<Rightarrow> trade_record \<Rightarrow> string \<Rightarrow> string \<Rightarrow> decimal \<Rightarrow> string \<Rightarrow> string \<Rightarrow> decimal option \<Rightarrow> engine_ctx" where
  "release_unused cx tr lb quote qn ls base sell_reserved =
     (case cx_ledger cx of
        None \<Rightarrow> cx
      | Some l \<Rightarrow>
          if \<not> is_simulated_execution cx then cx
          else
            let spent = (case tr_buy tr of Some b \<Rightarrow> dadd (res_quote_amount b) (res_fee_quote b) | None \<Rightarrow> 0);
                l1 = ledger_release l lb quote (max 0 (dsub qn spent));
                l2 = (case sell_reserved of
                        Some sr \<Rightarrow>
                          let used = (case tr_sell tr of Some r \<Rightarrow> if 0 < res_filled r then res_quote_amount r else 0
                                      | None \<Rightarrow> 0)
                          in ledger_release l1 ls base (max 0 (dsub sr used))
                      | None \<Rightarrow>
                          let sold = (case tr_sell tr of Some r \<Rightarrow> res_filled r | None \<Rightarrow> 0)
                          in ledger_release l1 ls base (max 0 (dsub (tr_size_base tr) sold)))
            in cx\<lparr>cx_ledger := Some l2\<rparr>)"

subsection \<open>Failures on chain\<close>

definition note_dex_failure ::
  "exec_env \<Rightarrow> order_result option \<times> venue_ref \<Rightarrow> engine_ctx \<times> trade_record \<Rightarrow> engine_ctx \<times> trade_record" where
  "note_dex_failure env rv = (\<lambda>(cx, tr).
     case rv of
       (None, _) \<Rightarrow> (cx, tr)
     | (Some res, v) \<Rightarrow>
         (case vr_chain v of
            None \<Rightarrow> (cx, tr)
          | Some ch \<Rightarrow>
              if vr_kind v = DEX \<and> res_status res \<in> {FAILED, REJECTED} \<and> res_filled res = 0 then
                let (m1, n) = record_event (cx_breakers cx) (''dex_fail:'' @ chain_value ch) 600 (xe_tick env);
                    tr1 = tr_log (xe_now_ms env) ''dex_leg_failed'' [AStr (vr_name v), AInt n] tr;
                    m2 = (if 2 \<le> n
                          then fst (trip m1 DEX_TX_FAILURE
                                 (Msg ''DEX transaction failures in 10 min'' [AInt n, AStr (chain_value ch), AStr (vr_name v)])
                                 (''chain:'' @ chain_value ch) True (xe_now_ms env))
                          else m1)
                in (cx\<lparr>cx_breakers := m2\<rparr>, tr1)
              else (cx, tr)))"

definition note_dex_failures ::
  "exec_env \<Rightarrow> venue_ref \<Rightarrow> venue_ref \<Rightarrow> engine_ctx \<times> trade_record \<Rightarrow> engine_ctx \<times> trade_record" where
  "note_dex_failures env buy_v sell_v = (\<lambda>(cx, tr).
     note_dex_failure env (tr_sell tr, sell_v) (note_dex_failure env (tr_buy tr, buy_v) (cx, tr)))"

definition count_order_failure :: "exec_env \<Rightarrow> string \<Rightarrow> engine_ctx \<Rightarrow> engine_ctx" where
  "count_order_failure env what cx =
     cx\<lparr>cx_failed_trades_last_hour := cx_failed_trades_last_hour cx + 1,
        cx_breakers := fst (record_and_check (cx_breakers cx) ''order_failures''
          (rs_max_failed_trades_per_hour (s_risk (cx_settings cx))) REPEATED_ORDER_FAILURE
          (Msg what []) ''global'' 3600 (xe_tick env) (xe_now_ms env))\<rparr>"

subsection \<open>Recovery\<close>

definition hedged_amount :: "order_result option \<Rightarrow> decimal" where
  \<comment> \<open>what the hedge takes off the exposure, with its sign\<close>
  "hedged_amount h = (case h of None \<Rightarrow> 0
     | Some r \<Rightarrow> if or_side (res_request r) = SELL then res_filled r else dneg (res_filled r))"

definition neutralised_msg :: "string \<Rightarrow> decimal \<Rightarrow> order_result option \<Rightarrow> trade_record \<Rightarrow> message" where
  "neutralised_msg base exposure h tr = Msg ''One leg failed: exposure was neutralised''
     [AStr (if filled_of (tr_buy tr) = 0 then ''buy'' else ''sell''), ADec exposure, AStr base,
      AStr (case h of Some r \<Rightarrow> or_venue (res_request r) | None \<Rightarrow> [])]"

definition recover ::
  "exec_env \<Rightarrow> string \<Rightarrow> string \<Rightarrow> string \<Rightarrow> decimal \<Rightarrow> engine_ctx \<times> trade_record \<Rightarrow> engine_ctx \<times> trade_record" where
  "recover env pair base quote exposure = (\<lambda>(cx, tr).
     let now = xe_now_ms env;
         cx1 = cx\<lparr>cx_unhedged_since_ms := Some now\<rparr>;
         tr1 = tr_log now ''one_leg_imbalance'' [ADec exposure] (tr\<lparr>tr_status := RECOVERING\<rparr>);
         (cx2, tr2, h) = hedge env pair base quote exposure [] cx1 tr1;
         remaining = dsub exposure (hedged_amount h);
         (cx3, tr3) =
           (if h \<noteq> None \<and> dabs remaining \<le> dmul (dabs exposure) (2/100)
            then (cx2\<lparr>cx_unhedged_since_ms := None\<rparr>,
                  tr2\<lparr>tr_hedge := h, tr_status := HEDGED,
                      tr_explanation := neutralised_msg base exposure h tr2\<rparr>)
            else
              let why = Msg ''One leg failed and the emergency hedge could not neutralise'' [ADec remaining, AStr base] in
              (trip_global ONE_LEG_FILL why now cx2,
               tr2\<lparr>tr_hedge := h, tr_status := RECOVERING, tr_explanation := why\<rparr>))
     in (count_order_failure env ''repeated leg failures'' cx3, tr3))"

subsection \<open>After the trade\<close>

definition over_limit :: "decimal \<Rightarrow> decimal \<Rightarrow> decimal \<Rightarrow> bool" where
  \<comment> \<open>\<open>notional > 0 and x / notional * 100 > limit\<close>\<close>
  "over_limit x notional limit \<longleftrightarrow> 0 < notional \<and> limit < dmul (ddiv x notional) 100"

definition post_trade_breakers :: "exec_env \<Rightarrow> opportunity \<Rightarrow> trade_record \<Rightarrow> trade_outcome \<Rightarrow> engine_ctx \<Rightarrow> engine_ctx" where
  "post_trade_breakers env fresh tr out cx =
     (let r = s_risk (cx_settings cx); now = xe_now_ms env;
          notional = opt_or_zero (op_extra_notional_usd fresh);
          executed = (tr_status tr \<in> {T_FILLED, PARTIAL, HEDGED} \<and> 0 < to_matched_base out);
          cx1 = (if cx_daily_pnl_usd cx \<le> dneg (rs_max_daily_loss_usd r)
                 then trip_global DAILY_LOSS_LIMIT (Msg ''daily realized loss reached the hard limit''
                   [ADec (cx_daily_pnl_usd cx)]) now cx else cx);
          cx2 = (if executed \<and> over_limit (dabs (to_prediction_error out)) notional (rs_max_prediction_error_pct r)
                 then trip_global PREDICTION_ERROR (Msg ''prediction error'' [ADec (to_prediction_error out)]) now cx1
                 else cx1);
          cx3 = (if executed \<and> 0 < to_slippage_variance out \<and>
                    over_limit (to_slippage_variance out) notional (rs_max_slippage_pct r)
                 then trip_global ABNORMAL_SLIPPAGE (Msg ''realized slippage exceeds limit''
                   [ADec (to_slippage_variance out)]) now cx2 else cx2)
      in if executed \<and> 0 < to_fee_variance out \<and> over_limit (to_fee_variance out) notional (2/10)
         then trip_global UNEXPECTED_FEES (Msg ''fees exceeded estimate'' [ADec (to_fee_variance out)]) now cx3
         else cx3)"

definition post_trade :: "exec_env \<Rightarrow> opportunity \<Rightarrow> int \<Rightarrow> trade_record \<Rightarrow> trade_outcome \<Rightarrow> engine_ctx \<Rightarrow> engine_ctx" where
  \<comment> \<open>called after \<open>apply_outcome\<close>, when the actual net is set; an empty route key is false\<close>
  "post_trade env fresh latency tr out cx =
     (let cx1 = post_trade_breakers env fresh tr out
                  (cx\<lparr>cx_daily_pnl_usd := dadd (cx_daily_pnl_usd cx) (to_actual_net out)\<rparr>)
      in case op_extra_route_key fresh of
           None \<Rightarrow> cx1
         | Some rk \<Rightarrow>
             if rk = [] then cx1
             else cx1\<lparr>cx_experience := experience_record (cx_experience cx1) rk
               \<lparr>sm_notional_usd = (case op_extra_notional_usd fresh of Some n \<Rightarrow> n | None \<Rightarrow> 1),
                sm_prediction_error_usd = to_prediction_error out,
                sm_slippage_variance_usd = to_slippage_variance out,
                sm_fee_variance_usd = to_fee_variance out, sm_gas_variance_usd = to_gas_variance out,
                sm_filled = (tr_status tr = T_FILLED), sm_latency_ms = latency\<rparr>\<rparr>)"

subsection \<open>Execute\<close>

definition start_trade :: "exec_env \<Rightarrow> engine_ctx \<Rightarrow> opportunity \<Rightarrow> trade_record" where
  "start_trade env cx opp =
     tr_log (xe_now_ms env) ''start'' [AStr (xe_trigger env), AStr (case op_extra_route_key opp of Some k \<Rightarrow> k | None \<Rightarrow> [])]
       \<lparr>tr_id = xe_trade_id env, tr_mode = cx_mode cx, tr_strategy = op_strategy opp,
        tr_opportunity_id = op_id opp, tr_pair = op_pair opp,
        tr_route = eq_venue (op_buy opp) @ '' -> '' @ eq_venue (op_sell opp), tr_size_base = op_size_base opp,
        tr_status = PENDING, tr_estimated_gross = pa_gross_profit (op_profit opp),
        tr_estimated_net = pa_expected_net_profit (op_profit opp),
        tr_estimated_worst_case = pa_worst_case_profit (op_profit opp),
        tr_estimated_costs = Some (pa_expected_costs (op_profit opp)),
        tr_buy = None, tr_sell = None, tr_hedge = None, tr_actual_gross = None, tr_actual_fees = None,
        tr_actual_gas = None, tr_actual_net = None, tr_prediction_error = None,
        tr_explanation = Msg [] [], tr_started_at_ms = xe_now_ms env, tr_completed_at_ms = None,
        tr_events = []\<rparr>"

definition abort_trade :: "exec_env \<Rightarrow> message \<Rightarrow> engine_ctx \<Rightarrow> trade_record \<Rightarrow> engine_ctx \<times> trade_record" where
  "abort_trade env reason cx tr =
     (let tr1 = tr_log (xe_now_ms env) ''abort'' [AMsg reason]
            (tr\<lparr>tr_status := ABORTED, tr_explanation := Msg ''Aborted before submission because'' [AMsg reason],
                tr_completed_at_ms := Some (xe_now_ms env)\<rparr>)
      in (cx\<lparr>cx_recent := push_bounded 100 tr1 (cx_recent cx)\<rparr>, tr1))"

definition precheck :: "exec_env \<Rightarrow> engine_ctx \<Rightarrow> opportunity \<Rightarrow> message option" where
  "precheck env cx opp =
     (let s = cx_settings cx;
          venues = List.map_filter (map_of (cx_connectors cx)) [eq_venue (op_buy opp), eq_venue (op_sell opp)]
      in
      if cx_emergency_stop cx then Some (Msg ''EMERGENCY STOP is active'' [])
      else if cx_mode cx = LIVE \<and> \<not> la_activated (s_live s) then Some (Msg ''live trading is not activated'' [])
      else if cx_mode cx \<in> {LIVE, TESTNET} \<and> \<not> cx_paper_executor cx \<and> \<not> list_all vr_trading_enabled venues
        then Some (Msg ''a venue is not trading-enabled'' [])
      else if gs_shadow_mode (s_general s) then Some (Msg ''shadow mode: evaluation only, nothing submitted'' [])
      else if rs_max_concurrent_trades (s_risk s) \<le> int (length (cx_open_trade_ids cx))
        then Some (Msg ''max concurrent trades reached'' [])
      else if is_tripped (cx_breakers cx) ''global'' then Some (Msg ''circuit breaker active'' [])
      else if op_strategy opp = FLASH_LOAN
        then Some (Msg ''flash-loan execution is routed through the flash-loan engine'' [])
      else if op_strategy opp \<in> {SPOT_PERP, FUNDING, BASIS} \<and> \<not> xe_allow_carry env
        then Some (Msg ''carry strategies open positions through the position manager, not the spot executor'' [])
      else None)"

definition leg_tolerance :: "engine_ctx \<Rightarrow> decimal" where
  "leg_tolerance cx = ddiv (ts_leg_price_tolerance_pct (s_trading (cx_settings cx))) 100"

definition quote_needed :: "engine_ctx \<Rightarrow> opportunity \<Rightarrow> decimal" where
  "quote_needed cx fresh =
     dmul (dmul (eq_quote_amount (op_buy fresh)) (dadd 1 (leg_tolerance cx)))
       (dadd 1 (ddiv (opt_or_zero (eq_fee_pct (op_buy fresh))) 100))"

definition sell_asset :: "opportunity \<Rightarrow> opportunity \<Rightarrow> string" where
  \<comment> \<open>a perpetual short is collateralised in quote, not funded with base\<close>
  "sell_asset opp fresh = (if eq_kind (op_sell fresh) = PERP then op_quote opp else op_base opp)"

definition sell_needed :: "opportunity \<Rightarrow> decimal" where
  "sell_needed fresh =
     (if eq_kind (op_sell fresh) = PERP then eq_quote_amount (op_sell fresh) else eq_base_amount (op_sell fresh))"

definition buy_request :: "engine_ctx \<Rightarrow> venue_ref \<Rightarrow> opportunity \<Rightarrow> opportunity \<Rightarrow> order_request" where
  "buy_request cx v opp fresh =
     \<lparr>or_venue = vr_name v, or_symbol = op_pair opp, or_side = BUY, or_amount = op_size_base fresh,
      or_limit_price = Some (dmul (eq_avg_price (op_buy fresh)) (dadd 1 (leg_tolerance cx))),
      or_time_in_force = ''IOC'', or_client_order_id = ''buy'', or_min_received = None, or_max_gas_usd = None,
      or_quote_id = eq_quote_id (op_buy fresh),
      or_deadline_ms = Some (ts_execution_timeout_ms (s_trading (cx_settings cx))), or_reduce_only = False,
      or_extra_quoted_price = Some (eq_avg_price (op_buy fresh))\<rparr>"

definition sell_request :: "engine_ctx \<Rightarrow> venue_ref \<Rightarrow> opportunity \<Rightarrow> order_request" where
  \<comment> \<open>\<open>min_received or quote * (1 - tol)\<close>: zero counts as missing\<close>
  "sell_request cx v fresh =
     \<lparr>or_venue = vr_name v, or_symbol = eq_symbol (op_sell fresh), or_side = SELL, or_amount = op_size_base fresh,
      or_limit_price = Some (dmul (eq_avg_price (op_sell fresh)) (dsub 1 (leg_tolerance cx))),
      or_time_in_force = ''IOC'', or_client_order_id = ''sell'',
      or_min_received = Some (let alt = dmul (eq_quote_amount (op_sell fresh)) (dsub 1 (leg_tolerance cx)) in
        case eq_min_received (op_sell fresh) of Some m \<Rightarrow> if m = 0 then alt else m | None \<Rightarrow> alt),
      or_max_gas_usd = None, or_quote_id = eq_quote_id (op_sell fresh),
      or_deadline_ms = Some (ts_execution_timeout_ms (s_trading (cx_settings cx))), or_reduce_only = False,
      or_extra_quoted_price = Some (eq_avg_price (op_sell fresh))\<rparr>"

definition settle_status :: "exec_env \<Rightarrow> opportunity \<Rightarrow> engine_ctx \<times> trade_record \<Rightarrow> engine_ctx \<times> trade_record" where
  \<comment> \<open>imbalance handling once both legs answered\<close>
  "settle_status env opp = (\<lambda>(cx, tr).
     let bf = filled_of (tr_buy tr); sf = filled_of (tr_sell tr); exposure = dsub bf sf in
     if exposure \<noteq> 0 then recover env (op_pair opp) (op_base opp) (op_quote opp) exposure (cx, tr)
     else if bf = 0 \<and> sf = 0 then
       (count_order_failure env ''repeated order failures'' cx,
        tr\<lparr>tr_status := T_FAILED, tr_explanation := Msg ''Both legs failed''
          (map AMsg (List.map_filter (\<lambda>l. case l of Some o1 \<Rightarrow> res_error o1 | None \<Rightarrow> None) [tr_buy tr, tr_sell tr]))\<rparr>)
     else (cx, tr\<lparr>tr_status := T_FILLED\<rparr>))"

definition account_trade ::
  "exec_env \<Rightarrow> opportunity \<Rightarrow> int \<Rightarrow> engine_ctx \<times> trade_record \<Rightarrow> engine_ctx \<times> trade_record" where
  \<comment> \<open>accounting and follow-up; an exception of the accounting is caught by the last \<open>except\<close>\<close>
  "account_trade env fresh latency = (\<lambda>(cx, tr).
     let qpx = (case xe_price_quote env of Some p \<Rightarrow> if p = 0 then 1 else p | None \<Rightarrow> 1) in
     case compute_outcome tr qpx (tr_estimated_costs tr) of
       Inl e \<Rightarrow> (trip_global REPEATED_ORDER_FAILURE (Msg ''execution exception'' []) (xe_now_ms env) cx,
                tr\<lparr>tr_status := T_FAILED, tr_explanation := Msg ''Execution error'' []\<rparr>)
     | Inr out \<Rightarrow>
         let tr1 = apply_outcome out tr;
             tr2 = (if tr_status tr1 = T_FILLED
                    then tr1\<lparr>tr_explanation := Msg ''Executed'' [ADec (tr_estimated_net tr1), ADec (to_actual_net out),
                      ADec (dsub (to_actual_net out) (tr_estimated_net tr1)), ADec (to_gas out), ADec (to_trading_fees out)]\<rparr>
                    else tr1);
             tr3 = tr_log (xe_now_ms env) ''timeline'' [AInt latency] tr2
         in (post_trade env fresh latency tr3 out cx, tr3))"

definition finish_trade :: "exec_env \<Rightarrow> engine_ctx \<times> trade_record \<Rightarrow> engine_ctx \<times> trade_record" where
  \<comment> \<open>the \<open>finally\<close> block\<close>
  "finish_trade env = (\<lambda>(cx, tr).
     let tr1 = tr\<lparr>tr_completed_at_ms := Some (xe_now_ms env)\<rparr>;
         tid = xe_trade_id env
     in (cx\<lparr>cx_open_trade_ids := id_discard tid (cx_open_trade_ids cx),
            cx_active := id_discard tid (cx_active cx),
            cx_recent := push_bounded 100 tr1 (cx_recent cx),
            cx_inventory := inv_release (cx_inventory cx) tid\<rparr>, tr1))"

definition run_legs ::
  "exec_env \<Rightarrow> opportunity \<Rightarrow> opportunity \<Rightarrow> venue_ref \<Rightarrow> venue_ref \<Rightarrow> engine_ctx \<times> trade_record \<Rightarrow> engine_ctx \<times> trade_record" where
  \<comment> \<open>submit both legs, record the answers, release what was not used\<close>
  "run_legs env opp fresh buy_v sell_v = (\<lambda>(cx, tr).
     let perp_short = (eq_kind (op_sell fresh) = PERP);
         breq = buy_request cx buy_v opp fresh; sreq = sell_request cx sell_v fresh;
         tr1 = tr_log (xe_now_ms env) ''submit'' [AStr (vr_name buy_v), AStr (vr_name sell_v), ADec (op_size_base fresh)] tr;
         (l, ba, sa) = xe_legs env (cx_ledger cx) (buy_v, breq, op_buy fresh) (sell_v, sreq, op_sell fresh);
         b = as_result ba breq (xe_now_ms env); s = as_result sa sreq (xe_now_ms env);
         tr2 = tr_log (xe_now_ms env) ''legs_done'' [ADec (res_filled b), ADec (res_filled s)]
                 (tr1\<lparr>tr_buy := Some b, tr_sell := Some s\<rparr>)
     in (release_unused (cx\<lparr>cx_ledger := l\<rparr>) tr2 (ledger_venue_for buy_v) (op_quote opp) (quote_needed cx fresh)
           (ledger_venue_for sell_v) (sell_asset opp fresh)
           (if perp_short then Some (eq_quote_amount (op_sell fresh)) else None), tr2))"

definition execute ::
  "exec_env \<Rightarrow> engine_ctx \<Rightarrow> opportunity \<Rightarrow> (engine_ctx \<times> trade_record) result" where
  "execute env cx opp =
     (let tr = start_trade env cx opp in
      case precheck env cx opp of
        Some why \<Rightarrow> Inr (abort_trade env why cx tr)
      | None \<Rightarrow>
          if map_of (cx_connectors cx) (eq_venue (op_buy opp)) = None \<or>
             map_of (cx_connectors cx) (eq_venue (op_sell opp)) = None
          then Inr (abort_trade env (Msg ''venue no longer available'' []) cx tr)
          else (case xe_fresh env of
            None \<Rightarrow> Inr (abort_trade env (Msg ''could not re-quote both legs'' []) cx tr)
          | Some fresh \<Rightarrow>
              let tr1 = tr\<lparr>tr_opportunity_id := op_id fresh,
                    tr_estimated_gross := pa_gross_profit (op_profit fresh),
                    tr_estimated_net := pa_expected_net_profit (op_profit fresh),
                    tr_estimated_worst_case := pa_worst_case_profit (op_profit fresh),
                    tr_estimated_costs := Some (pa_expected_costs (op_profit fresh))\<rparr>
              in
              if op_decision fresh \<noteq> SAFE_TO_EXECUTE
              then Inr (abort_trade env (Msg ''re-validation failed'' (map AMsg (take 3 (op_block_reasons fresh)))) cx tr1)
              else (case (map_of (cx_connectors cx) (eq_venue (op_buy fresh)),
                          map_of (cx_connectors cx) (eq_venue (op_sell fresh))) of
                (Some buy_v, Some sell_v) \<Rightarrow>
                  (case reserve_legs cx (xe_trade_id env) (ledger_venue_for buy_v) (op_quote opp) (quote_needed cx fresh)
                          (ledger_venue_for sell_v) (sell_asset opp fresh) (sell_needed fresh) of
                     (cx1, Inl e) \<Rightarrow> Inr (abort_trade env (Msg ''reservation failed'' [AMsg e]) cx1 tr1)
                   | (cx1, Inr _) \<Rightarrow>
                       let cx2 = cx1\<lparr>cx_open_trade_ids := id_add (xe_trade_id env) (cx_open_trade_ids cx1),
                                     cx_active := id_add (xe_trade_id env) (cx_active cx1)\<rparr>;
                           tr2 = (tr_log (xe_now_ms env) ''reserved'' [ADec (quote_needed cx fresh), ADec (sell_needed fresh)] tr1)\<lparr>tr_status := EXECUTING\<rparr>
                       in Inr (finish_trade env
                            (account_trade env fresh (xe_fill_ms env - xe_submit_ms env)
                              (settle_status env opp
                                (note_dex_failures env buy_v sell_v
                                  (run_legs env opp fresh buy_v sell_v (cx2, tr2)))))))
              | _ \<Rightarrow> Inl KeyError)))"


subsection \<open>What the steps of a trade leave alone\<close>

definition grows :: "breaker_manager \<Rightarrow> breaker_manager \<Rightarrow> bool" where
  \<comment> \<open>reached by operations none of which resets a breaker\<close>
  "grows m m' \<longleftrightarrow> (\<exists>ops. breaker_run m ops m' \<and> (\<forall>a \<in> set ops. \<forall>r sc. \<not> resets r sc a))"

lemma grows_refl [simp, intro]: "grows m m"
  unfolding grows_def by (rule exI [of _ "[]"]) (simp add: breaker_run.Nil)

lemma breaker_run_append: "breaker_run m as m1 \<Longrightarrow> breaker_run m1 bs m2 \<Longrightarrow> breaker_run m (as @ bs) m2"
  by (induction rule: breaker_run.induct) (auto intro: breaker_run.Cons)

lemma grows_trans [trans]: "grows m m1 \<Longrightarrow> grows m1 m2 \<Longrightarrow> grows m m2"
  unfolding grows_def by (metis breaker_run_append Un_iff set_append)

lemma grows_step: "breaker_step m a m' \<Longrightarrow> (\<And>r sc. \<not> resets r sc a) \<Longrightarrow> grows m m'"
  unfolding grows_def by (rule exI [of _ "[a]"]) (auto intro: breaker_run.intros)

lemma grows_trip [simp, intro]: "grows m (fst (trip m r d sc auto now))"
  by (rule grows_step [OF breaker_step.Trip]) simp

lemma grows_record_event [simp, intro]: "grows m (fst (record_event m c w tick))"
  by (rule grows_step [OF breaker_step.Record]) simp

lemma grows_record_and_check [simp, intro]: "grows m (fst (record_and_check m c n r d sc w tick now))"
  by (rule grows_step [OF breaker_step.Record_And_Check]) simp

lemma grows_wf: "grows m m' \<Longrightarrow> manager_wf m \<Longrightarrow> manager_wf m'"
  unfolding grows_def using manager_wf_run by blast

lemma grows_active: "grows m m' \<Longrightarrow> manager_wf m \<Longrightarrow> is_active m r sc \<Longrightarrow> is_active m' r sc"
  unfolding grows_def using is_active_run by blast

definition frame :: "engine_ctx \<Rightarrow> engine_ctx \<Rightarrow> bool" where
  \<comment> \<open>a step that changes at most the ledger, the counters and the experience, and resets no breaker\<close>
  "frame cx cx' \<longleftrightarrow> cx_settings cx' = cx_settings cx \<and> cx_connectors cx' = cx_connectors cx \<and>
     cx_inventory cx' = cx_inventory cx \<and> cx_paper_executor cx' = cx_paper_executor cx \<and>
     cx_emergency_stop cx' = cx_emergency_stop cx \<and> cx_open_trade_ids cx' = cx_open_trade_ids cx \<and>
     cx_active cx' = cx_active cx \<and> cx_recent cx' = cx_recent cx \<and> grows (cx_breakers cx) (cx_breakers cx')"

lemma frame_refl [simp, intro]: "frame cx cx"
  by (simp add: frame_def)

lemma frame_trans [trans]: "frame cx cx1 \<Longrightarrow> frame cx1 cx2 \<Longrightarrow> frame cx cx2"
  by (auto simp: frame_def intro: grows_trans)

lemma frame_simple [simp]:
  "frame cx (cx1\<lparr>cx_ledger := l\<rparr>) = frame cx cx1"
  "frame cx (cx1\<lparr>cx_unhedged_since_ms := u\<rparr>) = frame cx cx1"
  "frame cx (cx1\<lparr>cx_failed_trades_last_hour := n\<rparr>) = frame cx cx1"
  "frame cx (cx1\<lparr>cx_daily_pnl_usd := d\<rparr>) = frame cx cx1"
  "frame cx (cx1\<lparr>cx_experience := e\<rparr>) = frame cx cx1"
  "frame (cx\<lparr>cx_unhedged_since_ms := u\<rparr>) cx1 = frame cx cx1"
  "frame (cx\<lparr>cx_ledger := l\<rparr>) cx1 = frame cx cx1"
  "frame (cx\<lparr>cx_daily_pnl_usd := d\<rparr>) cx1 = frame cx cx1"
  by (simp_all add: frame_def)

lemma frame_breakers: "grows (cx_breakers cx) m \<Longrightarrow> frame cx (cx\<lparr>cx_breakers := m\<rparr>)"
  by (simp add: frame_def)

lemma frame_trip_global [simp, intro]: "frame cx (trip_global r d now cx)"
  by (simp add: trip_global_def frame_breakers)

lemma frame_count_order_failure [simp, intro]: "frame cx (count_order_failure env what cx)"
  by (simp add: count_order_failure_def frame_def)

lemma frame_hedge_submit: "frame cx (fst (hedge_submit cx env pair base quote side amount v q))"
  by (simp add: hedge_submit_def Let_def split_def split: option.split prod.split sum.split)

definition same_legs :: "trade_record \<Rightarrow> trade_record \<Rightarrow> bool" where
  "same_legs tr tr' \<longleftrightarrow> tr_id tr' = tr_id tr \<and> tr_buy tr' = tr_buy tr \<and> tr_sell tr' = tr_sell tr \<and>
     length (tr_events tr) \<le> length (tr_events tr')"

lemma same_legs_refl [simp, intro]: "same_legs tr tr"
  by (simp add: same_legs_def)

lemma same_legs_trans [trans]: "same_legs tr tr1 \<Longrightarrow> same_legs tr1 tr2 \<Longrightarrow> same_legs tr tr2"
  by (simp add: same_legs_def)

lemma same_legs_log [intro]: "same_legs tr tr1 \<Longrightarrow> same_legs tr (tr_log now nm d tr1)"
  by (simp add: same_legs_def tr_log_def)

lemma same_legs_logD: "same_legs (tr_log now nm d tr) tr1 \<Longrightarrow> same_legs tr tr1"
  by (simp add: same_legs_def tr_log_def)

lemma same_legs_simps [simp]:
  "same_legs tr (tr1\<lparr>tr_status := st\<rparr>) = same_legs tr tr1"
  "same_legs tr (tr1\<lparr>tr_explanation := ex\<rparr>) = same_legs tr tr1"
  "same_legs tr (tr1\<lparr>tr_hedge := h\<rparr>) = same_legs tr tr1"
  "same_legs tr (tr1\<lparr>tr_completed_at_ms := c\<rparr>) = same_legs tr tr1"
  "same_legs (tr\<lparr>tr_status := st\<rparr>) tr1 = same_legs tr tr1"
  by (simp_all add: same_legs_def)

lemma same_legs_outcome [simp, intro]: "same_legs tr (apply_outcome out tr)"
  by (simp add: same_legs_def apply_outcome_def)

lemma hedge_try_frame:
  "hedge_try env pair base quote side amount cands cx tr = (cx', tr', h) \<Longrightarrow> frame cx cx' \<and> same_legs tr tr'"
proof (induction cands arbitrary: cx tr)
  case (Cons c cands)
  obtain s v q where c: "c = (s, v, q)" by (cases c)
  obtain cx1 ans where sub: "hedge_submit cx env pair base quote side amount v q = (cx1, ans)" by force
  have f: "frame cx cx1" using frame_hedge_submit [of cx env pair base quote side amount v q] sub by simp
  from Cons.prems f Cons.IH [of cx1] show ?case
    by (auto simp: c sub Let_def split: sum.splits if_splits
        dest!: Cons.IH intro: frame_trans dest: same_legs_logD)
qed simp

lemma hedge_frame: "hedge env pair base quote x excl cx tr = (cx', tr', h) \<Longrightarrow> frame cx cx' \<and> same_legs tr tr'"
  by (auto simp: hedge_def Let_def split: if_splits dest: hedge_try_frame)


lemma note_dex_failure_frame:
  "note_dex_failure env rv (cx, tr) = (cx', tr') \<Longrightarrow> frame cx cx' \<and> same_legs tr tr'"
  by (cases rv)
    (auto simp: note_dex_failure_def Let_def split_def split: option.splits if_splits
      intro!: frame_breakers grows_trans [OF grows_record_event grows_trip])

lemma note_dex_failures_frame:
  "note_dex_failures env bv sv (cx, tr) = (cx', tr') \<Longrightarrow> frame cx cx' \<and> same_legs tr tr'"
proof -
  assume a: "note_dex_failures env bv sv (cx, tr) = (cx', tr')"
  obtain cx1 tr1 where m: "note_dex_failure env (tr_buy tr, bv) (cx, tr) = (cx1, tr1)" by force
  with a have m': "note_dex_failure env (tr_sell tr, sv) (cx1, tr1) = (cx', tr')"
    by (simp add: note_dex_failures_def)
  show ?thesis
    using note_dex_failure_frame [OF m] note_dex_failure_frame [OF m'] frame_trans same_legs_trans by blast
qed

lemma recover_cases:
  assumes "recover env pair base quote x (cx, tr) = (cx', tr')"
  shows "frame cx cx' \<and> same_legs tr tr' \<and>
    (tr_status tr' = HEDGED \<and> tr_hedge tr' \<noteq> None \<and>
       dabs (dsub x (hedged_amount (tr_hedge tr'))) \<le> dmul (dabs x) (2/100) \<or>
     tr_status tr' = RECOVERING \<and> (manager_wf (cx_breakers cx) \<longrightarrow> is_active (cx_breakers cx') ONE_LEG_FILL ''global''))"
proof -
  define now where "now = xe_now_ms env"
  define tr1 where "tr1 = tr_log now ''one_leg_imbalance'' [ADec x] (tr\<lparr>tr_status := RECOVERING\<rparr>)"
  obtain cx2 tr2 h where hd: "hedge env pair base quote x [] (cx\<lparr>cx_unhedged_since_ms := Some now\<rparr>) tr1 = (cx2, tr2, h)"
    by (metis prod_cases3)
  from hedge_frame [OF hd] have f: "frame cx cx2" "same_legs tr1 tr2" by simp_all
  have l: "same_legs tr tr2" using same_legs_logD [OF f(2) [unfolded tr1_def]] by simp
  show ?thesis
  proof (cases "h \<noteq> None \<and> dabs (dsub x (hedged_amount h)) \<le> dmul (dabs x) (2/100)")
    case True
    then have "cx' = count_order_failure env ''repeated leg failures'' (cx2\<lparr>cx_unhedged_since_ms := None\<rparr>)"
        "tr' = tr2\<lparr>tr_hedge := h, tr_status := HEDGED,
           tr_explanation := neutralised_msg base x h tr2\<rparr>"
      using assms hd by (simp_all add: recover_def Let_def now_def tr1_def)
    with True f(1) l frame_trans [OF f(1), of "count_order_failure env ''repeated leg failures'' (cx2\<lparr>cx_unhedged_since_ms := None\<rparr>)"]
    show ?thesis
      using frame_count_order_failure [of "cx2\<lparr>cx_unhedged_since_ms := None\<rparr>" env "''repeated leg failures''", unfolded frame_simple] by auto
  next
    case False
    define why where "why = Msg ''One leg failed and the emergency hedge could not neutralise''
      [ADec (dsub x (hedged_amount h)), AStr base]"
    from False have e: "cx' = count_order_failure env ''repeated leg failures'' (trip_global ONE_LEG_FILL why now cx2)"
        "tr' = tr2\<lparr>tr_hedge := h, tr_status := RECOVERING, tr_explanation := why\<rparr>"
      using assms hd by (auto simp: recover_def Let_def now_def tr1_def why_def)
    have f2: "frame (trip_global ONE_LEG_FILL why now cx2) cx'" by (simp add: e)
    with f(1) have "frame cx cx'" by (meson frame_trans frame_trip_global)
    moreover have "is_active (cx_breakers cx') ONE_LEG_FILL ''global''" if "manager_wf (cx_breakers cx)"
    proof (rule grows_active)
      show "grows (cx_breakers (trip_global ONE_LEG_FILL why now cx2)) (cx_breakers cx')"
        using f2 by (simp add: frame_def)
      have "manager_wf (cx_breakers cx2)" using f(1) that grows_wf by (auto simp: frame_def)
      then show "is_active (cx_breakers (trip_global ONE_LEG_FILL why now cx2)) ONE_LEG_FILL ''global''"
          "manager_wf (cx_breakers (trip_global ONE_LEG_FILL why now cx2))"
        by (simp_all add: trip_global_def is_active_trip manager_wf_trip)
    qed
    ultimately show ?thesis using l e(2) by simp
  qed
qed

lemma post_trade_breakers_frame [simp, intro]: "frame cx (post_trade_breakers env fresh tr out cx)"
  unfolding post_trade_breakers_def Let_def
  by (simp split: if_split) (meson frame_trans frame_trip_global frame_refl)

lemma post_trade_frame [simp, intro]: "frame cx (post_trade env fresh lat tr out cx)"
proof -
  have "frame cx (post_trade_breakers env fresh tr out (cx\<lparr>cx_daily_pnl_usd := d\<rparr>))" for d
    using post_trade_breakers_frame [of "cx\<lparr>cx_daily_pnl_usd := d\<rparr>", unfolded frame_simple] .
  then show ?thesis by (simp add: post_trade_def Let_def split: option.split)
qed

lemma account_trade_cases:
  assumes "account_trade env fresh lat (cx, tr) = (cx', tr')" and "tr_events tr \<noteq> []"
  shows "frame cx cx' \<and> same_legs tr tr' \<and> tr_hedge tr' = tr_hedge tr \<and>
    (tr_status tr \<in> {T_FAILED, ABORTED, RECOVERING, HEDGED} \<longrightarrow> tr_status tr' = tr_status tr) \<and>
    (tr_status tr \<notin> {T_FAILED, ABORTED, RECOVERING, HEDGED} \<longrightarrow> tr_status tr' \<in> {T_FILLED, PARTIAL})"
proof -
  define qpx where "qpx = (case xe_price_quote env of Some p \<Rightarrow> if p = 0 then 1 else p | None \<Rightarrow> 1)"
  obtain out where o: "compute_outcome tr qpx (tr_estimated_costs tr) = Inr out"
    using assms(2) by (simp add: compute_outcome_def Let_def split_def)
  have st: "tr_status (apply_outcome out tr) = (if tr_status tr \<in> {T_FAILED, ABORTED, RECOVERING, HEDGED}
      then tr_status tr else if to_unmatched_base out = 0 then T_FILLED else PARTIAL)"
    "tr_hedge (apply_outcome out tr) = tr_hedge tr"
    by (simp_all add: apply_outcome_def)
  define tr2 where "tr2 = (if tr_status (apply_outcome out tr) = T_FILLED
      then (apply_outcome out tr)\<lparr>tr_explanation := Msg ''Executed'' [ADec (tr_estimated_net (apply_outcome out tr)),
        ADec (to_actual_net out), ADec (dsub (to_actual_net out) (tr_estimated_net (apply_outcome out tr))), ADec (to_gas out),
        ADec (to_trading_fees out)]\<rparr>
      else apply_outcome out tr)"
  have tr': "tr' = tr_log (xe_now_ms env) ''timeline'' [AInt lat] tr2" "cx' = post_trade env fresh lat tr' out cx"
    using assms(1) o by (auto simp: account_trade_def qpx_def [symmetric] tr2_def Let_def)
  have "same_legs tr tr2" by (simp add: tr2_def)
  then have "same_legs tr tr'" unfolding tr'(1) by blast
  moreover have "tr_status tr' = tr_status (apply_outcome out tr)" "tr_hedge tr' = tr_hedge tr"
    by (simp_all add: tr'(1) tr2_def tr_log_def st)
  ultimately show ?thesis using st(1) tr'(2) by auto
qed


lemma run_legs_result:
  assumes "run_legs env opp fresh bv sv (cx, tr) = (cx', tr')"
  shows "frame cx cx' \<and> tr_events tr' \<noteq> [] \<and> tr_id tr' = tr_id tr \<and> tr_buy tr' \<noteq> None \<and> tr_sell tr' \<noteq> None"
  using assms
  by (auto simp: run_legs_def Let_def split_def tr_log_def release_unused_def split: option.splits if_splits)

lemma settle_status_cases:
  assumes "settle_status env opp (cx, tr) = (cx', tr')"
  defines "x \<equiv> dsub (filled_of (tr_buy tr)) (filled_of (tr_sell tr))"
  shows "frame cx cx' \<and> same_legs tr tr' \<and>
    (x = 0 \<longrightarrow> tr_status tr' \<in> {T_FAILED, T_FILLED}) \<and>
    (x \<noteq> 0 \<longrightarrow>
       tr_status tr' = HEDGED \<and> tr_hedge tr' \<noteq> None \<and>
         dabs (dsub x (hedged_amount (tr_hedge tr'))) \<le> dmul (dabs x) (2/100) \<or>
       tr_status tr' = RECOVERING \<and>
         (manager_wf (cx_breakers cx) \<longrightarrow> is_active (cx_breakers cx') ONE_LEG_FILL ''global''))"
proof (cases "x = 0")
  case True
  with assms show ?thesis by (auto simp: settle_status_def Let_def split: if_splits)
next
  case False
  with assms(1) have "recover env (op_pair opp) (op_base opp) (op_quote opp) x (cx, tr) = (cx', tr')"
    by (simp add: settle_status_def x_def Let_def)
  from recover_cases [OF this] False show ?thesis by blast
qed

lemma reserve_legs_frame:
  assumes "reserve_legs cx tid lb q qn ls b bn = (cx', r)"
  shows "cx_settings cx' = cx_settings cx \<and> cx_connectors cx' = cx_connectors cx \<and>
    cx_open_trade_ids cx' = cx_open_trade_ids cx \<and> cx_active cx' = cx_active cx \<and>
    cx_recent cx' = cx_recent cx \<and> cx_breakers cx' = cx_breakers cx \<and>
    cx_emergency_stop cx' = cx_emergency_stop cx"
  using assms by (auto simp: reserve_legs_def Let_def split: prod.splits sum.splits option.splits if_splits)

lemma reserve_legs_ok:
  assumes "reserve_legs cx tid lb q qn ls b bn = (cx', Inr ())"
  shows "qn \<le> inv_available (cx_inventory cx) lb q \<and> bn \<le> inv_available (cx_inventory cx) ls b"
proof -
  have "first_lacking (cx_inventory cx) [(lb, q, qn), (ls, b, bn)] = None"
    using assms by (auto simp: reserve_legs_def inv_reserve_def split: prod.splits sum.splits option.splits)
  then show ?thesis by (auto simp: first_lacking_def split: if_splits)
qed

lemma abort_status [simp]: "tr_status (snd (abort_trade env why cx tr)) = ABORTED"
  by (simp add: abort_trade_def Let_def tr_log_def)

definition aborted_run :: "exec_env \<Rightarrow> engine_ctx \<Rightarrow> engine_ctx \<Rightarrow> trade_record \<Rightarrow> bool" where
  \<comment> \<open>the trade was given up before submission: at most ledger and inventory differ, and the log\<close>
  "aborted_run env cx cx' tr \<longleftrightarrow> (\<exists>why cx1 tr1. abort_trade env why cx1 tr1 = (cx', tr) \<and>
     tr_id tr1 = xe_trade_id env \<and> cx_settings cx1 = cx_settings cx \<and> cx_connectors cx1 = cx_connectors cx \<and>
     cx_open_trade_ids cx1 = cx_open_trade_ids cx \<and> cx_active cx1 = cx_active cx \<and>
     cx_recent cx1 = cx_recent cx \<and> cx_breakers cx1 = cx_breakers cx)"

lemma aborted_run_status: "aborted_run env cx cx' tr \<Longrightarrow> tr_status tr = ABORTED"
  unfolding aborted_run_def by (metis abort_status snd_conv)

lemma execute_run:
  assumes "execute env cx opp = Inr (cx', tr)" and "\<not> aborted_run env cx cx' tr"
  obtains fresh bv sv cx1 tr1 cx2 tr2 cx3 tr3 cx4 tr4 cx5 tr5 tr6
  where "precheck env cx opp = None" and "xe_fresh env = Some fresh" and "op_decision fresh = SAFE_TO_EXECUTE"
    and "map_of (cx_connectors cx) (eq_venue (op_buy fresh)) = Some bv"
    and "map_of (cx_connectors cx) (eq_venue (op_sell fresh)) = Some sv"
    and "reserve_legs cx (xe_trade_id env) (ledger_venue_for bv) (op_quote opp) (quote_needed cx fresh)
      (ledger_venue_for sv) (sell_asset opp fresh) (sell_needed fresh)
      = (cx1, Inr ())"
    and "cx2 = cx1\<lparr>cx_open_trade_ids := id_add (xe_trade_id env) (cx_open_trade_ids cx1),
      cx_active := id_add (xe_trade_id env) (cx_active cx1)\<rparr>" and "tr_id tr1 = xe_trade_id env"
    and "run_legs env opp fresh bv sv (cx2, tr1) = (cx3, tr2)"
    and "note_dex_failures env bv sv (cx3, tr2) = (cx4, tr3)"
    and "settle_status env opp (cx4, tr3) = (cx5, tr4)"
    and "account_trade env fresh (xe_fill_ms env - xe_submit_ms env) (cx5, tr4) = (tr6, tr5)"
    and "finish_trade env (tr6, tr5) = (cx', tr)"
proof -
  have st: "tr_id (start_trade env cx opp) = xe_trade_id env" by (simp add: start_trade_def tr_log_def)
  have ab: False if "abort_trade env why cx trr = (cx', tr)" "tr_id trr = xe_trade_id env" for why trr
    using that assms(2) by (auto simp: aborted_run_def)
  have p: "precheck env cx opp = None"
    using assms(1) ab [OF _ st] by (force simp: execute_def Let_def split: option.splits)
  then obtain fresh where f: "xe_fresh env = Some fresh"
    using assms(1) ab [OF _ st] by (auto simp: execute_def Let_def split: option.splits if_splits)
  define tr0 where "tr0 = (start_trade env cx opp)\<lparr>tr_opportunity_id := op_id fresh,
      tr_estimated_gross := pa_gross_profit (op_profit fresh),
      tr_estimated_net := pa_expected_net_profit (op_profit fresh),
      tr_estimated_worst_case := pa_worst_case_profit (op_profit fresh),
      tr_estimated_costs := Some (pa_expected_costs (op_profit fresh))\<rparr>"
  have st0: "tr_id tr0 = xe_trade_id env" by (simp add: tr0_def st)
  have d: "op_decision fresh = SAFE_TO_EXECUTE"
    using assms(1) p f ab [OF _ st] ab [OF _ st0]
    by (auto simp: execute_def Let_def tr0_def [symmetric] split: option.splits if_splits)
  from assms(1) p f d obtain bv sv where v: "map_of (cx_connectors cx) (eq_venue (op_buy fresh)) = Some bv"
      "map_of (cx_connectors cx) (eq_venue (op_sell fresh)) = Some sv"
    using ab [OF _ st] by (auto simp: execute_def Let_def split: option.splits if_splits)
  let ?r = "reserve_legs cx (xe_trade_id env) (ledger_venue_for bv) (op_quote opp) (quote_needed cx fresh)
      (ledger_venue_for sv) (sell_asset opp fresh) (sell_needed fresh)"
  obtain cx1 where r: "?r = (cx1, Inr ())"
  proof (cases ?r)
    case (Pair cx1 ans)
    show ?thesis
    proof (cases ans)
      case (Inl e)
      then have "abort_trade env (Msg ''reservation failed'' [AMsg e]) cx1 tr0 = (cx', tr)"
        using assms(1) p f d v Pair ab [OF _ st]
        by (auto simp: execute_def Let_def tr0_def [symmetric] split: option.splits if_splits)
      with assms(2) st0 reserve_legs_frame [OF Pair] show ?thesis unfolding aborted_run_def by blast
    qed (use Pair that in simp)
  qed
  define cx2 where "cx2 = cx1\<lparr>cx_open_trade_ids := id_add (xe_trade_id env) (cx_open_trade_ids cx1),
      cx_active := id_add (xe_trade_id env) (cx_active cx1)\<rparr>"
  define tr1 where "tr1 = (tr_log (xe_now_ms env) ''reserved'' [ADec (quote_needed cx fresh), ADec (sell_needed fresh)] tr0)\<lparr>tr_status := EXECUTING\<rparr>"
  obtain cx3 tr2 where s1: "run_legs env opp fresh bv sv (cx2, tr1) = (cx3, tr2)" by force
  obtain cx4 tr3 where s2: "note_dex_failures env bv sv (cx3, tr2) = (cx4, tr3)" by force
  obtain cx5 tr4 where s3: "settle_status env opp (cx4, tr3) = (cx5, tr4)" by force
  obtain cx6 tr5 where s4: "account_trade env fresh (xe_fill_ms env - xe_submit_ms env) (cx5, tr4) = (cx6, tr5)"
    by force
  have "execute env cx opp = Inr (finish_trade env (cx6, tr5))"
    using assms(1) p f d v r ab [OF _ st]
    by (auto simp: execute_def Let_def tr0_def [symmetric] tr1_def [symmetric] cx2_def [symmetric] s1 s2 s3 s4
        split: option.splits if_splits)
  then have s5: "finish_trade env (cx6, tr5) = (cx', tr)" using assms(1) by simp
  have i: "tr_id tr1 = xe_trade_id env" by (simp add: tr1_def tr0_def start_trade_def tr_log_def)
  show ?thesis by (rule that [OF p f d v r cx2_def i s1 s2 s3 s4 s5])
qed


lemma finish_trade_simps:
  assumes "finish_trade env (cx, tr) = (cx', tr')"
  shows "cx_open_trade_ids cx' = id_discard (xe_trade_id env) (cx_open_trade_ids cx)"
    "cx_active cx' = id_discard (xe_trade_id env) (cx_active cx)"
    "cx_inventory cx' = inv_release (cx_inventory cx) (xe_trade_id env)"
    "cx_recent cx' = push_bounded 100 tr' (cx_recent cx)" "cx_breakers cx' = cx_breakers cx"
    "tr_status tr' = tr_status tr" "tr_hedge tr' = tr_hedge tr" "same_legs tr tr'"
  using assms by (auto simp: finish_trade_def Let_def same_legs_def)

lemma last_push_bounded: "0 < n \<Longrightarrow> push_bounded n x xs \<noteq> [] \<and> last (push_bounded n x xs) = x"
  by (simp add: push_bounded_def)

subsection \<open>Properties\<close>



text \<open>C3. No silent exposure: when both legs were submitted and filled different amounts, either the
  trade is HEDGED and what the hedge left is at most 2 percent of the exposure, or the breaker for a
  one-leg fill is tripped and every later trade, on any opportunity, is stopped at the first check.\<close>

theorem exposure_hedged_or_stopped:
  assumes "execute env cx opp = Inr (cx', tr)" and "manager_wf (cx_breakers cx)"
    and "tr_status tr \<noteq> ABORTED"
    and "exposure = dsub (filled_of (tr_buy tr)) (filled_of (tr_sell tr))" and "exposure \<noteq> 0"
  shows "tr_status tr = HEDGED \<and> tr_hedge tr \<noteq> None \<and>
      dabs (dsub exposure (hedged_amount (tr_hedge tr))) \<le> dmul (dabs exposure) (2/100) \<or>
    tr_status tr = RECOVERING \<and> is_active (cx_breakers cx') ONE_LEG_FILL ''global'' \<and>
      (\<forall>env2 opp2. precheck env2 cx' opp2 \<noteq> None)"
proof -
  have na: "\<not> aborted_run env cx cx' tr" using assms(3) aborted_run_status by blast
  from execute_run [OF assms(1) na] obtain fresh bv sv cx1 tr1 cx2 tr2 cx3 tr3 cx4 tr4 cx5 tr5 cx6 lb q qn ls b bn where
    r: "reserve_legs cx (xe_trade_id env) lb q qn ls b bn = (cx1, Inr ())" and
    cx2: "cx2 = cx1\<lparr>cx_open_trade_ids := id_add (xe_trade_id env) (cx_open_trade_ids cx1),
      cx_active := id_add (xe_trade_id env) (cx_active cx1)\<rparr>" and
    s1: "run_legs env opp fresh bv sv (cx2, tr1) = (cx3, tr2)" and
    s2: "note_dex_failures env bv sv (cx3, tr2) = (cx4, tr3)" and
    s3: "settle_status env opp (cx4, tr3) = (cx5, tr4)" and
    s4: "account_trade env fresh (xe_fill_ms env - xe_submit_ms env) (cx5, tr4) = (cx6, tr5)" and
    s5: "finish_trade env (cx6, tr5) = (cx', tr)"
    by metis
  note L = run_legs_result [OF s1] note_dex_failures_frame [OF s2] settle_status_cases [OF s3]
  then have ev: "tr_events tr4 \<noteq> []" unfolding same_legs_def by fastforce
  note A = account_trade_cases [OF s4 ev] and F = finish_trade_simps [OF s5]
  have legs: "tr_buy tr = tr_buy tr3" "tr_sell tr = tr_sell tr3" using L(3) A F(8) by (simp_all add: same_legs_def)
  have "frame cx2 cx4" using L by (meson frame_trans)
  then have wf4: "manager_wf (cx_breakers cx4)"
    using reserve_legs_frame [OF r] assms(2) by (auto simp: frame_def cx2 intro: grows_wf)
  from L(3) assms(4,5) legs consider
      (h) "tr_status tr4 = HEDGED" "tr_hedge tr4 \<noteq> None"
        "dabs (dsub exposure (hedged_amount (tr_hedge tr4))) \<le> dmul (dabs exposure) (2/100)"
    | (r) "tr_status tr4 = RECOVERING" "is_active (cx_breakers cx5) ONE_LEG_FILL ''global''"
    using wf4 by auto
  then show ?thesis
  proof cases
    case h
    then show ?thesis using A F(6,7) by simp
  next
    case r
    have "manager_wf (cx_breakers cx5)" using L(3) wf4 grows_wf by (auto simp: frame_def)
    then have "is_active (cx_breakers cx') ONE_LEG_FILL ''global''"
      using r(2) A grows_active F(5) by (auto simp: frame_def)
    moreover from this have "is_tripped (cx_breakers cx') ''global''"
      unfolding is_active_def is_tripped_iff by blast
    ultimately show ?thesis using r A F(6) by (simp add: precheck_def Let_def)
  qed
qed

text \<open>When the inventory covers a trade and the paper ledger does not, the refused reservation
  puts the ledger back to the digit, but the reservation of the aborted trade stays in the
  inventory.\<close>

theorem refused_reservation_stays_in_inventory:
  assumes "reserve_legs cx tid lb q qn ls b bn = (cx', Inl e)"
    and "qn \<le> inv_available (cx_inventory cx) lb q" and "bn \<le> inv_available (cx_inventory cx) ls b"
    and "cx_ledger cx = Some l" and "on_grid d (bal_free (acct l lb q))" and "on_grid d (bal_used (acct l lb q))"
    and "on_grid d qn" and "0 \<le> qn" and "0 \<le> bal_used (acct l lb q)" and "on_grid d (bal_used (acct l lb q) + qn)"
  shows "map_of (im_reservations (cx_inventory cx')) tid = Some [(lb, q, qn), (ls, b, bn)] \<and>
    (\<exists>l'. cx_ledger cx' = Some l' \<and> (\<forall>v a. bal_free (acct l' v a) = bal_free (acct l v a) \<and>
       bal_used (acct l' v a) = bal_used (acct l v a)))"
proof -
  have i: "inv_reserve (cx_inventory cx) tid [(lb, q, qn), (ls, b, bn)] =
      ((cx_inventory cx)\<lparr>im_reservations := AList.update tid [(lb, q, qn), (ls, b, bn)]
         (im_reservations (cx_inventory cx))\<rparr>, Inr ())"
    using assms(2,3) by (simp add: inv_reserve_def first_lacking_def)
  obtain l' where l': "reserve_two slot_reserve slot_release l (lb, q) qn (ls, b) bn = (l', Inl e)"
      "cx_ledger cx' = Some l'"
      "im_reservations (cx_inventory cx') = AList.update tid [(lb, q, qn), (ls, b, bn)] (im_reservations (cx_inventory cx))"
    using assms(1,4) i by (auto simp: reserve_legs_def Let_def split: if_splits prod.splits)
  have "slot_free l' j = slot_free l j \<and> slot_used l' j = slot_used l j" for j
    using ledger.reserve_two_rollback [of l "(lb, q)" qn "(ls, b)" bn e d j] assms(5-10) l'(1)
    by (simp add: slot_free_def slot_used_def)
  then have "bal_free (acct l' v a) = bal_free (acct l v a) \<and> bal_used (acct l' v a) = bal_used (acct l v a)" for v a
    by (metis fst_conv slot_free_def slot_used_def snd_conv)
  then show ?thesis using l'(2,3) by (simp add: update_conv')
qed


subsection \<open>Witnesses\<close>

definition demo_assessment :: profit_assessment where
  "demo_assessment = \<lparr>pa_gross_profit = 20, pa_expected_net_profit = 15, pa_worst_case_profit = 12,
     pa_capital_required = 100, pa_gross_spread_pct = 20, pa_expected_net_pct = 15, pa_worst_case_pct = 12,
     pa_net_roi_pct = 15, pa_required_min_profit = 1, pa_required_min_worst_case = 1,
     pa_required_min_roi_pct = 0, pa_expected_costs = no_costs, pa_worst_case_costs = no_costs,
     pa_decision = SAFE_TO_EXECUTE, pa_reasons = [], pa_explanation = Msg [] [],
     pa_buy_execution_price = 100, pa_sell_execution_price = 120\<rparr>"

definition demo_opportunity :: "decimal \<Rightarrow> opportunity" where
  "demo_opportunity n = \<lparr>op_id = ''opp1'', op_mode = PAPER, op_strategy = CEX_CEX, op_base = ''BTC'', op_quote = ''USDC'',
     op_buy = (demo_leg ''kraken'' BUY 100 (Some 1))\<lparr>eq_base_amount := n, eq_quote_amount := 100 * n\<rparr>,
     op_sell = (demo_leg ''coinbase'' SELL 120 (Some 1))\<lparr>eq_base_amount := n, eq_quote_amount := 120 * n\<rparr>,
     op_size_base = n, op_profit = demo_assessment, op_gas = None,
     op_risk = \<lparr>ra_score = 0, ra_passed = True, ra_reasons = []\<rparr>, op_decision = SAFE_TO_EXECUTE,
     op_block_reasons = [], op_explanation = Msg [] [], op_created_at_ms = 0, op_expires_at_ms = 1000,
     op_extra_route_key = None, op_extra_notional_usd = Some 100, op_extra_flash_loan = False,
     op_extra_funding_rate = None\<rparr>"

definition demo_env :: exec_env where
  \<comment> \<open>the buy leg fills one unit, the sell leg raises, and no venue quotes the hedge\<close>
  "demo_env = \<lparr>xe_trade_id = ''trd1'', xe_now_ms = 1000, xe_decision_ms = 1000, xe_submit_ms = 1001,
     xe_fill_ms = 1005, xe_tick = 1, xe_trigger = ''auto'', xe_allow_carry = False,
     xe_fresh = Some (demo_opportunity 1), xe_price_quote = Some 1, xe_health = (\<lambda>_. HEALTHY),
     xe_hedge_quote = (\<lambda>_. None),
     xe_legs = (\<lambda>l (v, b, q) s. (l, Inr ((new_result b ''buy'' FILLED 1005)\<lparr>res_filled := 1\<rparr>),
       Inl (Msg ''leg timed out'' []))),
     xe_leg = (\<lambda>l leg. (l, Inl (Msg ''leg timed out'' [])))\<rparr>"

lemma demo_settings:
  "rs_max_concurrent_trades (s_risk (default_settings ''paper'')) = 1"
  "gs_shadow_mode (s_general (default_settings ''paper'')) = False"
  "gs_mode (s_general (default_settings ''paper'')) = PAPER"
  "ts_leg_price_tolerance_pct (s_trading (default_settings ''paper'')) = 1/10"
  "rs_max_slippage_pct (s_risk (default_settings ''paper'')) = 3/10"
  by (simp_all add: default_settings_def conservative_profile_def app_defaults_def parse_mode_def
      general_defaults_def risk_defaults_def trading_defaults_def Let_def)

lemma demo_precheck: "precheck demo_env demo_ctx (demo_opportunity 1) = None"
  by (simp add: precheck_def Let_def cx_mode_def demo_settings is_tripped_def active_breakers_def
      new_manager_def vals_def demo_opportunity_def)

lemma demo_needed: "quote_needed demo_ctx (demo_opportunity n) = dmul (dmul (100 * n) (1001/1000)) (101/100)"
  by (simp add: quote_needed_def leg_tolerance_def demo_settings demo_opportunity_def demo_leg_def opt_or_zero_def
      dec_defs dround_eval)


lemma execute_submits:
  assumes "precheck env cx opp = None" and "xe_fresh env = Some fresh" and "op_decision fresh = SAFE_TO_EXECUTE"
    and "map_of (cx_connectors cx) (eq_venue (op_buy opp)) = Some bv0"
    and "map_of (cx_connectors cx) (eq_venue (op_sell opp)) = Some sv0"
    and "map_of (cx_connectors cx) (eq_venue (op_buy fresh)) = Some bv"
    and "map_of (cx_connectors cx) (eq_venue (op_sell fresh)) = Some sv" 
    and "reserve_legs cx (xe_trade_id env) (ledger_venue_for bv) (op_quote opp) (quote_needed cx fresh)
      (ledger_venue_for sv) (sell_asset opp fresh) (sell_needed fresh) = (cx1, Inr ())"
  obtains cx2 tr1 where "tr_hedge tr1 = None" "execute env cx opp = Inr (finish_trade env (account_trade env fresh
      (xe_fill_ms env - xe_submit_ms env) (settle_status env opp (note_dex_failures env bv sv
        (run_legs env opp fresh bv sv (cx2, tr1))))))"
proof -
  have "\<exists>cx2 tr1. tr_hedge tr1 = None \<and> execute env cx opp = Inr (finish_trade env (account_trade env fresh
      (xe_fill_ms env - xe_submit_ms env) (settle_status env opp (note_dex_failures env bv sv
        (run_legs env opp fresh bv sv (cx2, tr1))))))"
    unfolding execute_def Let_def using assms
    by (simp add: tr_log_def) (intro exI conjI; (rule refl)?; simp add: start_trade_def tr_log_def)
  with that show ?thesis by blast
qed

lemma demo_reserve:
  obtains cx1 where "reserve_legs demo_ctx ''trd1'' ''kraken'' ''USDC'' (dmul (dmul 100 (1001/1000)) (101/100)) ''coinbase'' ''BTC'' 1
    = (cx1, Inr ())"
proof -
  let ?n = "dmul (dmul 100 (1001/1000)) (101/100) :: rat"
  have n: "?n = 101101/1000" by (simp add: dec_defs dround_eval)
  have "snd (inv_reserve (cx_inventory demo_ctx) ''trd1'' [(''kraken'', ''USDC'', ?n), (''coinbase'', ''BTC'', 1)]) = Inr ()"
    unfolding n by (simp add: inv_reserve_def first_lacking_def demo_available)
  moreover have f: "slot_free demo_ledger (''kraken'', ''USDC'') = 1200" "slot_free demo_ledger (''coinbase'', ''BTC'') = 1"
    by (simp_all add: slot_free_def demo_accts)
  then have "snd (slot_reserve demo_ledger (''kraken'', ''USDC'') ?n) = Inr ()"
      "snd (slot_reserve (fst (slot_reserve demo_ledger (''kraken'', ''USDC'') ?n)) (''coinbase'', ''BTC'') 1) = Inr ()"
    unfolding n by (simp_all add: ledger.res_enough ledger.res_free)
  then have "snd (reserve_two slot_reserve slot_release demo_ledger (''kraken'', ''USDC'') ?n (''coinbase'', ''BTC'') 1) = Inr ()"
    by (simp add: reserve_two_unfold)
  ultimately have "snd (reserve_legs demo_ctx ''trd1'' ''kraken'' ''USDC'' ?n ''coinbase'' ''BTC'' 1) = Inr ()"
    by (auto simp: reserve_legs_def Let_def is_simulated_execution_def cx_mode_def demo_settings split: prod.splits sum.splits)
  with that show ?thesis by (metis prod.collapse)
qed

lemma demo_execute:
  obtains cx' tr where "execute demo_env demo_ctx (demo_opportunity 1) = Inr (cx', tr)" "tr_status tr \<noteq> ABORTED"
    "dsub (filled_of (tr_buy tr)) (filled_of (tr_sell tr)) = 1" "tr_status tr = RECOVERING"
proof -
  let ?o = "demo_opportunity 1" and ?k = "demo_venue ''kraken''" and ?c = "demo_venue ''coinbase''"
  obtain cx1 where r: "reserve_legs demo_ctx ''trd1'' ''kraken'' ''USDC'' (dmul (dmul 100 (1001/1000)) (101/100)) ''coinbase'' ''BTC'' 1
    = (cx1, Inr ())" by (rule demo_reserve)
  have o: "op_decision ?o = SAFE_TO_EXECUTE" "eq_venue (op_buy ?o) = ''kraken''" "eq_venue (op_sell ?o) = ''coinbase''"
      "op_quote ?o = ''USDC''" "sell_asset ?o ?o = ''BTC''" "sell_needed ?o = 1"
    by (simp_all add: demo_opportunity_def demo_leg_def sell_asset_def sell_needed_def)
  have e: "xe_fresh demo_env = Some ?o" "xe_trade_id demo_env = ''trd1''" by (simp_all add: demo_env_def)
  obtain cx2 tr1 where x: "tr_hedge tr1 = None" "execute demo_env demo_ctx ?o = Inr (finish_trade demo_env (account_trade demo_env ?o
      (xe_fill_ms demo_env - xe_submit_ms demo_env) (settle_status demo_env ?o (note_dex_failures demo_env ?k ?c
        (run_legs demo_env ?o ?o ?k ?c (cx2, tr1))))))"
    by (rule execute_submits [of demo_env demo_ctx ?o ?o ?k ?c ?k ?c cx1])
      (use demo_precheck o e r in \<open>simp_all add: demo_needed\<close>)
  obtain cx3 tr2 where s1: "run_legs demo_env ?o ?o ?k ?c (cx2, tr1) = (cx3, tr2)" by force
  have l2: "filled_of (tr_buy tr2) = 1" "filled_of (tr_sell tr2) = 0" "tr_events tr2 \<noteq> []"
    using s1 by (auto simp: run_legs_def Let_def demo_env_def as_result_def new_result_def filled_of_def tr_log_def)
  have s2: "note_dex_failures demo_env ?k ?c (cx3, tr2) = (cx3, tr2)"
    by (simp add: note_dex_failures_def note_dex_failure_def split: option.split)
  obtain cx4 tr3 where s3: "settle_status demo_env ?o (cx3, tr2) = (cx4, tr3)" by force
  note L = settle_status_cases [OF s3]
  have nh: "hedge demo_env p b q x ex cx tr = (cx', tr', h) \<Longrightarrow> h = None" for p b q x ex cx tr cx' tr' h
    by (auto simp: hedge_def Let_def hedge_candidates_def demo_env_def map_filter_def split: if_splits)
  have st: "tr_status tr3 = RECOVERING"
    using s3 l2 unfolding settle_status_def recover_def Let_def
    by (auto simp: dec_defs dround_eval dest!: nh split: prod.splits)
  have ev: "tr_events tr3 \<noteq> []" using L l2(3) by (auto simp: same_legs_def)
  obtain cx5 tr4 where s4: "account_trade demo_env ?o (xe_fill_ms demo_env - xe_submit_ms demo_env) (cx4, tr3) = (cx5, tr4)"
    by force
  obtain cx6 tr5 where s5: "finish_trade demo_env (cx5, tr4) = (cx6, tr5)" by force
  note A = account_trade_cases [OF s4 ev] and F = finish_trade_simps [OF s5]
  have "tr_status tr5 = RECOVERING" "tr_buy tr5 = tr_buy tr2" "tr_sell tr5 = tr_sell tr2"
    using A F(6,8) L st by (simp_all add: same_legs_def)
  moreover have "execute demo_env demo_ctx ?o = Inr (cx6, tr5)" using x(2) s1 s2 s3 s4 s5 by simp
  ultimately show ?thesis using that l2 by (simp add: dec_defs dround_eval)
qed



theorem exposure_hedged_or_stopped_witness:
  "\<exists>cx' tr. execute demo_env demo_ctx (demo_opportunity 1) = Inr (cx', tr) \<and>
     is_active (cx_breakers cx') ONE_LEG_FILL ''global'' \<and> (\<forall>env opp. precheck env cx' opp \<noteq> None)"
proof -
  obtain cx' tr where e: "execute demo_env demo_ctx (demo_opportunity 1) = Inr (cx', tr)" "tr_status tr \<noteq> ABORTED"
      "dsub (filled_of (tr_buy tr)) (filled_of (tr_sell tr)) = 1" "tr_status tr = RECOVERING"
    by (rule demo_execute)
  have "manager_wf (cx_breakers demo_ctx)" by (simp add: manager_wf_new)
  from exposure_hedged_or_stopped [OF e(1) this e(2) refl] e show ?thesis by simp
qed

theorem refused_reservation_stays_in_inventory_witness:
  "\<exists>cx' e. reserve_legs demo_ctx ''trd1'' ''kraken'' ''USDC'' 500 ''coinbase'' ''BTC'' 2 = (cx', Inl e) \<and>
     map_of (im_reservations (cx_inventory cx')) ''trd1'' = Some [(''kraken'', ''USDC'', 500), (''coinbase'', ''BTC'', 2)]"
proof -
  have i: "snd (inv_reserve (cx_inventory demo_ctx) ''trd1'' [(''kraken'', ''USDC'', 500), (''coinbase'', ''BTC'', 2)]) = Inr ()"
    by (simp add: inv_reserve_def first_lacking_def demo_available)
  have f: "slot_free demo_ledger (''kraken'', ''USDC'') = 1200" "slot_free demo_ledger (''coinbase'', ''BTC'') = 1"
    by (simp_all add: slot_free_def demo_accts)
  have "snd (slot_reserve demo_ledger (''kraken'', ''USDC'') 500) = Inr ()"
      "snd (slot_reserve (fst (slot_reserve demo_ledger (''kraken'', ''USDC'') 500)) (''coinbase'', ''BTC'') 2) \<noteq> Inr ()"
    by (simp_all add: ledger.res_enough ledger.res_free f)
  then have "snd (reserve_two slot_reserve slot_release demo_ledger (''kraken'', ''USDC'') 500 (''coinbase'', ''BTC'') 2) \<noteq> Inr ()"
    by (auto simp: reserve_two_unfold split: sum.split)
  then have "snd (reserve_legs demo_ctx ''trd1'' ''kraken'' ''USDC'' 500 ''coinbase'' ''BTC'' 2) \<noteq> Inr ()"
    using i by (auto simp: reserve_legs_def Let_def is_simulated_execution_def cx_mode_def demo_settings
        split: prod.splits sum.splits)
  moreover obtain cx' a where a: "reserve_legs demo_ctx ''trd1'' ''kraken'' ''USDC'' 500 ''coinbase'' ''BTC'' 2 = (cx', a)"
    by force
  ultimately obtain e where r: "reserve_legs demo_ctx ''trd1'' ''kraken'' ''USDC'' 500 ''coinbase'' ''BTC'' 2 = (cx', Inl e)"
    by (cases a) auto
  have "on_grid 0 1200" "on_grid 0 500" by (simp_all add: on_grid_num)
  with refused_reservation_stays_in_inventory [OF r, of demo_ledger 0] r show ?thesis
    by (simp add: demo_available demo_accts)
qed

end
