(* ===== verification/Strategies.thy ===== *)
theory Strategies
  imports Engine_Context Decimal_Text
begin

text \<open>
  Model of \<^verbatim>\<open>backend/fedr/engine/strategies/catalog.py\<close> (the strategies and how each builds its routes)
  and of \<^verbatim>\<open>backend/fedr/engine/strategies/carry.py\<close> (spot against perpetual). Names, descriptions and
  risk lists of a strategy are display only. The quotes and the funding answer of a venue are
  arguments.
\<close>

subsection \<open>Pairs\<close>

fun split_on :: "char \<Rightarrow> string \<Rightarrow> string list" where
  \<comment> \<open>\<open>str.split(c)\<close>\<close>
  "split_on c [] = [[]]"
| "split_on c (x # xs) =
     (if x = c then [] # split_on c xs
      else (case split_on c xs of [] \<Rightarrow> [[x]] | p # ps \<Rightarrow> (x # p) # ps))"

definition split_pair :: "string \<Rightarrow> (string \<times> string) result" where
  \<comment> \<open>\<open>base, quote = pair.split("/")\<close>\<close>
  "split_pair pair = (case split_on (CHR ''/'') pair of [b, q] \<Rightarrow> Inr (b, q) | _ \<Rightarrow> Inl ValueError)"

definition perp_symbol_of :: "string \<Rightarrow> string \<Rightarrow> string" where
  "perp_symbol_of base quote = base @ ''/'' @ quote @ '':'' @ quote"

definition perp_symbol :: "string \<Rightarrow> string result" where
  "perp_symbol pair = bind_result (split_pair pair) (\<lambda>(b, q). Inr (perp_symbol_of b q))"

subsection \<open>The catalog\<close>

record strategy_info =
  si_key :: strategy
  si_default_on :: bool
  si_kinds :: "venue_kind \<times> venue_kind"
  si_same_chain_only :: bool
  si_carry :: bool
  si_atomic :: bool

definition info :: "strategy \<Rightarrow> bool \<Rightarrow> venue_kind \<Rightarrow> venue_kind \<Rightarrow> strategy_info" where
  "info st on b s = \<lparr>si_key = st, si_default_on = on, si_kinds = (b, s), si_same_chain_only = False,
     si_carry = False, si_atomic = False\<rparr>"

definition catalog :: "(strategy, strategy_info) dict" where
  "catalog =
     [(CEX_CEX, info CEX_CEX True CEX CEX),
      (CEX_DEX, info CEX_DEX True CEX DEX),
      (DEX_DEX, info DEX_DEX False DEX DEX),
      (SPOT_PERP, (info SPOT_PERP False CEX PERP)\<lparr>si_carry := True\<rparr>),
      (FUNDING, (info FUNDING False CEX PERP)\<lparr>si_carry := True\<rparr>),
      (BASIS, (info BASIS False CEX PERP)\<lparr>si_carry := True\<rparr>),
      (FLASH_LOAN, (info FLASH_LOAN False DEX DEX)\<lparr>si_same_chain_only := True, si_atomic := True\<rparr>)]"

fun strategy_enabled :: "app_settings \<Rightarrow> strategy \<Rightarrow> bool" where
  "strategy_enabled s CEX_CEX = ss_cex_cex (s_strategies s)"
| "strategy_enabled s CEX_DEX = ss_cex_dex (s_strategies s)"
| "strategy_enabled s DEX_DEX = ss_dex_dex (s_strategies s)"
| "strategy_enabled s SPOT_PERP = ss_spot_perp (s_strategies s)"
| "strategy_enabled s FUNDING = ss_funding (s_strategies s)"
| "strategy_enabled s BASIS = ss_basis (s_strategies s)"
| "strategy_enabled s FLASH_LOAN = ss_flash_loan (s_strategies s)"

definition buy_venues :: "strategy_info \<Rightarrow> venue_ref list \<Rightarrow> string \<Rightarrow> venue_ref list" where
  "buy_venues si venues pair = filter (\<lambda>v. vr_kind v = fst (si_kinds si) \<and> supports_symbol v pair) venues"

definition sell_symbol :: "strategy_info \<Rightarrow> string \<Rightarrow> string result" where
  "sell_symbol si pair = (if snd (si_kinds si) = PERP then perp_symbol pair else Inr pair)"

definition sell_venues :: "strategy_info \<Rightarrow> venue_ref list \<Rightarrow> string \<Rightarrow> venue_ref list result" where
  \<comment> \<open>the symbol is computed per venue of the right kind, so a malformed pair raises only there\<close>
  "sell_venues si venues pair =
     (let cands = filter (\<lambda>v. vr_kind v = snd (si_kinds si)) venues in
      if cands = [] then Inr []
      else bind_result (sell_symbol si pair) (\<lambda>symbol. Inr (filter (\<lambda>v. supports_symbol v symbol) cands)))"

definition chain_ok :: "strategy_info \<Rightarrow> venue_ref \<Rightarrow> venue_ref \<Rightarrow> bool" where
  "chain_ok si b s \<longleftrightarrow> \<not> si_same_chain_only si \<or> vr_chain b \<noteq> None \<and> vr_chain b = vr_chain s"

definition candidate_pairs :: "strategy_info \<Rightarrow> venue_ref list \<Rightarrow> string \<Rightarrow> (venue_ref \<times> venue_ref) list result" where
  "candidate_pairs si venues pair =
     bind_result (sell_venues si venues pair) (\<lambda>sells.
       let buys = buy_venues si venues pair;
           forward = [(b, s). b \<leftarrow> buys, s \<leftarrow> sells, vr_name b \<noteq> vr_name s \<and> chain_ok si b s];
           back = (if \<not> si_carry si \<and> fst (si_kinds si) \<noteq> snd (si_kinds si)
                   then [(s, b). s \<leftarrow> sells, b \<leftarrow> buys, vr_name b \<noteq> vr_name s] else [])
       in Inr (forward @ back))"

subsection \<open>Carry\<close>

definition HOLD_HOURS_DEFAULT :: decimal where
  "HOLD_HOURS_DEFAULT = 24"

record carry_quote =
  cq_perp_symbol :: string
  cq_funding_rate :: "decimal option"
  cq_interval_hours :: decimal
  cq_hold_hours :: decimal
  cq_expected_funding_income_usd :: decimal
  cq_funding_cost_usd :: decimal
  cq_basis_pct :: decimal

record funding_answer =
  \<comment> \<open>the two fields read from the answer of \<open>fetch_funding_rate\<close>; the rate is None when missing\<close>
  fa_rate :: "decimal option"
  fa_interval :: "string option"

definition rstrip_h :: "string \<Rightarrow> string" where
  "rstrip_h s = rev (dropWhile (\<lambda>c. c = CHR ''h'') (rev s))"

definition parse_interval :: "string option \<Rightarrow> decimal option" where
  \<comment> \<open>None when the conversion raises\<close>
  "parse_interval raw =
     (let iv = rstrip_h (case raw of None \<Rightarrow> ''8h'' | Some r \<Rightarrow> if r = [] then ''8h'' else r);
          ds = filter (\<lambda>c. c \<noteq> CHR ''.'') iv
      in if ds \<noteq> [] \<and> list_all is_digit ds then parse_decimal iv else Some 8)"

definition read_funding :: "funding_answer option \<Rightarrow> decimal option \<times> decimal" where
  \<comment> \<open>None: no such method, an empty answer, or an exception\<close>
  "read_funding ans =
     (case ans of
        None \<Rightarrow> (None, 8)
      | Some a \<Rightarrow>
          (case fa_rate a of
             None \<Rightarrow> (None, 8)
           | Some r \<Rightarrow> (case parse_interval (fa_interval a) of None \<Rightarrow> (None, 8) | Some iv \<Rightarrow> (Some r, iv))))"

definition funding_income :: "strategy \<Rightarrow> decimal option \<Rightarrow> decimal \<Rightarrow> decimal \<Rightarrow> decimal" where
  "funding_income st rate interval notional =
     (let periods = (if 0 < interval then ddiv HOLD_HOURS_DEFAULT interval else 0);
          income = dmul (dmul (case rate of Some r \<Rightarrow> r | None \<Rightarrow> 0) periods) notional
      in if st = BASIS then dmul income (5/10) else income)"

definition evaluate_carry ::
  "strategy \<Rightarrow> string \<Rightarrow> decimal \<Rightarrow> execution_quote \<Rightarrow> execution_quote \<Rightarrow> funding_answer option \<Rightarrow>
   (execution_quote \<times> execution_quote \<times> carry_quote) option" where
  \<comment> \<open>from the two quotes on; the sell leg becomes a perpetual leg\<close>
  "evaluate_carry st psym amount buy_q sell_q0 ans =
     (let sell_q = sell_q0\<lparr>eq_kind := PERP\<rparr>;
          (fr, interval) = read_funding ans;
          notional = dmul amount (eq_avg_price sell_q)
      in if st = FUNDING \<and> fr = None then None
         else
           let income = funding_income st fr interval notional;
               basis = (if 0 < eq_avg_price buy_q
                        then dmul (ddiv (dsub (eq_avg_price sell_q) (eq_avg_price buy_q)) (eq_avg_price buy_q)) 100
                        else 0)
           in Some (buy_q, sell_q,
                \<lparr>cq_perp_symbol = psym, cq_funding_rate = fr, cq_interval_hours = interval,
                 cq_hold_hours = HOLD_HOURS_DEFAULT, cq_expected_funding_income_usd = income,
                 cq_funding_cost_usd = dneg income, cq_basis_pct = basis\<rparr>))"


subsection \<open>Lemmas\<close>

lemma split_on_append:
  "c \<notin> set xs \<Longrightarrow> split_on c (xs @ ys) = (case split_on c ys of [] \<Rightarrow> [xs] | p # ps \<Rightarrow> (xs @ p) # ps)"
proof (induction xs)
  case Nil
  have "split_on c ys \<noteq> []" by (cases ys) (auto split: list.split)
  then show ?case by (cases "split_on c ys") simp_all
next
  case (Cons x xs)
  then show ?case by (cases "split_on c ys") auto
qed

lemma split_on_none: "c \<notin> set xs \<Longrightarrow> split_on c xs = [xs]"
  using split_on_append [of c xs "[]"] by simp

lemma split_pair_join:
  assumes "CHR ''/'' \<notin> set b" and "CHR ''/'' \<notin> set q"
  shows "split_pair (b @ CHR ''/'' # q) = Inr (b, q)"
proof -
  have "split_on (CHR ''/'') (CHR ''/'' # q) = [[], q]" using split_on_none [OF assms(2)] by simp
  then have "split_on (CHR ''/'') (b @ CHR ''/'' # q) = [b, q]"
    using split_on_append [OF assms(1), of "CHR ''/'' # q"] by simp
  then show ?thesis by (simp add: split_pair_def)
qed

lemma split_pair_op_pair:
  "CHR ''/'' \<notin> set (op_base o1) \<Longrightarrow> CHR ''/'' \<notin> set (op_quote o1) \<Longrightarrow>
   split_pair (op_pair o1) = Inr (op_base o1, op_quote o1)"
  using split_pair_join [of "op_base o1" "op_quote o1"] by (simp add: op_pair_def)

definition leg_fits :: "strategy_info \<Rightarrow> string \<Rightarrow> string \<Rightarrow> venue_ref \<Rightarrow> bool \<Rightarrow> bool" where
  \<comment> \<open>the venue has the kind of the buy or sell leg and lists the symbol traded there\<close>
  "leg_fits si base quote v selling \<longleftrightarrow>
     (if selling then vr_kind v = snd (si_kinds si) \<and>
        supports_symbol v (if snd (si_kinds si) = PERP then perp_symbol_of base quote else base @ ''/'' @ quote)
      else vr_kind v = fst (si_kinds si) \<and> supports_symbol v (base @ ''/'' @ quote))"

subsection \<open>Properties\<close>

text \<open>The routes of a pair are exactly the admissible ones: two different connected venues of the
  kinds of the strategy that list the symbols of their legs, on one chain where the strategy asks
  for it; the reverse direction is added for strategies over two kinds of venue, never for carry.\<close>

theorem candidate_pairs_exact:
  assumes "CHR ''/'' \<notin> set base" and "CHR ''/'' \<notin> set quote"
    and "candidate_pairs si venues (base @ ''/'' @ quote) = Inr rs"
  shows "(b, s) \<in> set rs \<longleftrightarrow> b \<in> set venues \<and> s \<in> set venues \<and> vr_name b \<noteq> vr_name s \<and>
    (leg_fits si base quote b False \<and> leg_fits si base quote s True \<and> chain_ok si b s \<or>
     \<not> si_carry si \<and> fst (si_kinds si) \<noteq> snd (si_kinds si) \<and>
       leg_fits si base quote b True \<and> leg_fits si base quote s False)"
proof -
  let ?sym = "if snd (si_kinds si) = PERP then perp_symbol_of base quote else base @ ''/'' @ quote"
  have sp: "split_pair (base @ CHR ''/'' # quote) = Inr (base, quote)"
    using split_pair_join [OF assms(1,2)] by simp
  have "sell_symbol si (base @ ''/'' @ quote) = Inr ?sym" by (simp add: sell_symbol_def perp_symbol_def sp)
  then have "sell_venues si venues (base @ ''/'' @ quote) =
      Inr (filter (\<lambda>v. supports_symbol v ?sym) (filter (\<lambda>v. vr_kind v = snd (si_kinds si)) venues))"
    by (cases "filter (\<lambda>v. vr_kind v = snd (si_kinds si)) venues") (simp_all add: sell_venues_def Let_def del: filter_filter)
  then obtain sells where sells: "sell_venues si venues (base @ ''/'' @ quote) = Inr sells"
      "\<And>v. v \<in> set sells \<longleftrightarrow> v \<in> set venues \<and> leg_fits si base quote v True"
    by (auto simp: leg_fits_def)
  define buys where "buys = buy_venues si venues (base @ ''/'' @ quote)"
  have bs: "v \<in> set buys \<longleftrightarrow> v \<in> set venues \<and> leg_fits si base quote v False" for v
    by (simp add: buys_def buy_venues_def leg_fits_def)
  have "rs = [(b, s). b \<leftarrow> buys, s \<leftarrow> sells, vr_name b \<noteq> vr_name s \<and> chain_ok si b s] @
      (if \<not> si_carry si \<and> fst (si_kinds si) \<noteq> snd (si_kinds si)
       then [(s, b). s \<leftarrow> sells, b \<leftarrow> buys, vr_name b \<noteq> vr_name s] else [])"
    using assms(3) unfolding candidate_pairs_def sells(1) buys_def [symmetric] by (auto simp: Let_def)
  then show ?thesis by (auto simp: sells(2) bs)
qed


theorem candidate_pairs_exact_witness:
  "\<exists>rs. candidate_pairs (info CEX_CEX True CEX CEX) [demo_venue ''kraken'', demo_venue ''coinbase''] ''BTC/USDC'' = Inr rs \<and>
     (demo_venue ''kraken'', demo_venue ''coinbase'') \<in> set rs \<and>
     (demo_venue ''kraken'', demo_venue ''kraken'') \<notin> set rs"
proof -
  let ?i = "info CEX_CEX True CEX CEX" and ?vs = "[demo_venue ''kraken'', demo_venue ''coinbase'']"
  obtain rs where rs: "candidate_pairs ?i ?vs ''BTC/USDC'' = Inr rs"
    by (simp add: candidate_pairs_def sell_venues_def sell_symbol_def info_def)
  have p: "''BTC/USDC'' = ''BTC'' @ ''/'' @ ''USDC''" by simp
  note E = candidate_pairs_exact [OF _ _ rs [unfolded p]]
  have "leg_fits ?i ''BTC'' ''USDC'' (demo_venue v) b" for v b
    by (simp add: leg_fits_def info_def supports_symbol_def keys_def demo_venue_def)
  moreover have "chain_ok ?i (demo_venue ''kraken'') (demo_venue ''coinbase'')"
    by (simp add: chain_ok_def info_def)
  ultimately show ?thesis using rs E [of "demo_venue ''kraken''" "demo_venue ''coinbase''"]
      E [of "demo_venue ''kraken''" "demo_venue ''kraken''"] by simp
qed

end
