(* ===== verification/Opportunity_Engine.thy ===== *)
theory Opportunity_Engine
  imports Strategies Profit_Guard Risk_Engine Leg_Guards Orderbook "HOL-Library.Product_Lexorder"
begin

text \<open>
  Model of \<^verbatim>\<open>backend/fedr/engine/opportunity.py\<close>: route candidates, sizing, the evaluation of a route
  through every guard, the choice between strategies on one route, and the ranking. The market
  (prices, cached books, quotes, gas snapshots, venue health, the flash-loan simulator and the
  clock) is the record \<open>market_view\<close>. Persistence and the display field \<open>alternatives\<close> are outside.
\<close>

subsection \<open>State and environment\<close>

record route_candidate =
  rt_strategy :: strategy
  rt_pair :: string
  rt_buy :: venue_ref
  rt_sell :: venue_ref
  rt_flash_loan :: bool

record market_view =
  mv_price :: "string \<Rightarrow> decimal option"
  mv_health :: "string \<Rightarrow> venue_health"
  mv_book :: "string \<Rightarrow> string \<Rightarrow> order_book option"
  mv_fetch_book :: "string \<Rightarrow> string \<Rightarrow> order_book option"
  mv_quote :: "string \<Rightarrow> string \<Rightarrow> order_side \<Rightarrow> decimal \<Rightarrow> order_book option \<Rightarrow> execution_quote option"
  mv_funding :: "string \<Rightarrow> string \<Rightarrow> funding_answer option"
  mv_gas :: "chain \<Rightarrow> gas_snapshot option"
  mv_baseline :: gas_baseline
  mv_simulator :: "(route_candidate \<Rightarrow> execution_quote \<Rightarrow> execution_quote \<Rightarrow> decimal \<Rightarrow> message + bool option) option"
  mv_now_ms :: int
  mv_new_id :: string

record opp_engine =
  oe_latest :: "(string, opportunity) dict"
  oe_scan_count :: int
  oe_last_scan_ms :: int
  oe_last_scan_duration_ms :: int

definition rt_key :: "route_candidate \<Rightarrow> string" where
  "rt_key c = strategy_value (rt_strategy c) @ ''|'' @ rt_pair c @ ''|'' @ vr_name (rt_buy c) @ ''->''
     @ vr_name (rt_sell c) @ ''|'' @ (if rt_flash_loan c then ''fl'' else ''pf'')"

definition FLASH_LOAN_GAS_LIMIT :: int where
  "FLASH_LOAN_GAS_LIMIT = 450000"

definition flash_loan_fee_pct :: "string \<Rightarrow> decimal" where
  "flash_loan_fee_pct provider =
     (if provider = ''aave_v3'' then 5/100
      else if provider \<in> {''balancer_v2'', ''morpho_blue''} then 0 else 9/100)"

subsection \<open>Candidates\<close>

fun concat_results :: "'a list result list \<Rightarrow> 'a list result" where
  \<comment> \<open>the first exception ends the loop\<close>
  "concat_results [] = Inr []"
| "concat_results (r # rs) = bind_result r (\<lambda>xs. bind_result (concat_results rs) (\<lambda>ys. Inr (xs @ ys)))"

definition candidates :: "engine_ctx \<Rightarrow> string list \<Rightarrow> route_candidate list result" where
  \<comment> \<open>no pairs given means the configured pairs\<close>
  "candidates cx pairs =
     (let s = cx_settings cx; venues = filter vr_connected (vals (cx_connectors cx));
          ps = (if pairs = [] then gs_pairs (s_general s) else pairs)
      in concat_results
           [bind_result (candidate_pairs si venues pair) (\<lambda>bs. Inr (map (\<lambda>(b, sl).
              \<lparr>rt_strategy = st, rt_pair = pair, rt_buy = b, rt_sell = sl, rt_flash_loan = si_atomic si\<rparr>) bs)).
            (st, si) \<leftarrow> catalog, pair \<leftarrow> ps,
            strategy_enabled s st \<and> \<not> (st = FLASH_LOAN \<and> \<not> fls_enabled (s_flash_loan s))])"

definition candidate_for :: "engine_ctx \<Rightarrow> opportunity \<Rightarrow> route_candidate option" where
  "candidate_for cx o1 =
     (case (map_of (cx_connectors cx) (eq_venue (op_buy o1)), map_of (cx_connectors cx) (eq_venue (op_sell o1))) of
        (Some b, Some s) \<Rightarrow> Some \<lparr>rt_strategy = op_strategy o1, rt_pair = op_pair o1, rt_buy = b, rt_sell = s,
           rt_flash_loan = (op_strategy o1 = FLASH_LOAN)\<rparr>
      | _ \<Rightarrow> None)"

subsection \<open>Portfolio\<close>

definition all_chains :: "chain list" where
  "all_chains = [SOLANA, ETHEREUM, BASE, ARBITRUM, OPTIMISM, POLYGON, BSC, AVALANCHE]"

definition chain_named :: "string \<Rightarrow> chain option" where
  "chain_named n = find (\<lambda>c. chain_value c = n) all_chains"

definition gas_reserve_usd :: "market_view \<Rightarrow> engine_ctx \<Rightarrow> decimal" where
  "gas_reserve_usd mv cx =
     foldl (\<lambda>acc (nm, amount).
        case chain_named nm of
          None \<Rightarrow> acc
        | Some ch \<Rightarrow>
            (case mv_price mv (native_token ch) of
               None \<Rightarrow> acc
             | Some px \<Rightarrow>
                 let have_it = inv_available (cx_inventory cx) (chain_value ch) (native_token ch) in
                 if 0 < have_it then dadd acc (dmul (min have_it amount) px) else acc))
       0 (gas_gas_reserve (s_gas (cx_settings cx)))"

definition share_chain_balances ::
  "(string \<times> string, decimal) dict \<Rightarrow> venue_ref \<Rightarrow> (string \<times> string, decimal) dict" where
  "share_chain_balances bal c =
     (case (vr_kind c, vr_chain c) of
        (DEX, Some ch) \<Rightarrow>
          foldl (\<lambda>b ((v, a), x). if v = chain_value ch then AList.update (vr_name c, a) x b else b) bal bal
      | _ \<Rightarrow> bal)"

definition unhedged_seconds :: "engine_ctx \<Rightarrow> int \<Rightarrow> int" where
  \<comment> \<open>\<open>int((now - since) / 1000)\<close>, a float division; a zero time counts as none\<close>
  "unhedged_seconds cx now =
     (case cx_unhedged_since_ms cx of
        None \<Rightarrow> 0
      | Some t \<Rightarrow> if t = 0 then 0 else trunc_int (fround (of_int (now - t) / 1000)))"

definition portfolio_of :: "market_view \<Rightarrow> engine_ctx \<Rightarrow> portfolio_state" where
  "portfolio_of mv cx =
     (let inven = cx_inventory cx; tot = inv_total_usd inven;
          cap = capital_breakdown (s_risk (cx_settings cx)) tot (gas_reserve_usd mv cx) 0
      in \<lparr>po_total_capital_usd = tot, po_usable_capital_usd = cap_usable cap,
          po_exposure_by_venue_usd = exposure_by (\<lambda>l. Some (il_venue l)) True inven,
          po_exposure_by_chain_usd = exposure_by (\<lambda>l. if il_kind l = ''chain'' then Some (il_venue l) else None) True inven,
          po_exposure_by_asset_usd = exposure_by (\<lambda>l. Some (il_asset l)) True inven,
          po_open_trades = int (length (cx_open_trade_ids cx)),
          po_daily_realized_pnl_usd = cx_daily_pnl_usd cx,
          po_failed_trades_last_hour = cx_failed_trades_last_hour cx,
          po_venue_health = map (\<lambda>n. (n, mv_health mv n)) (keys (cx_connectors cx)),
          po_available_balances = foldl share_chain_balances (balances_map inven) (vals (cx_connectors cx)),
          po_unhedged_seconds = unhedged_seconds cx (mv_now_ms mv),
          po_active_breakers = [],
          po_gas_reserve_ok = List.map_filter (\<lambda>c. map_option (\<lambda>ok. (chain_value c, ok)) (gas_reserve_ok cx c)) all_chains\<rparr>)"

subsection \<open>Sizing\<close>

record sizing =
  sz_amount :: decimal
  sz_notes :: "message list"
  sz_blocked :: "(string \<times> string) list"

definition cap_size :: "decimal \<Rightarrow> message \<Rightarrow> (string \<times> string) list \<Rightarrow> sizing \<Rightarrow> sizing" where
  "cap_size cap note bl z =
     (if cap < sz_amount z
      then z\<lparr>sz_amount := cap, sz_notes := sz_notes z @ [note], sz_blocked := sz_blocked z @ bl\<rparr> else z)"

definition depth_cap ::
  "market_view \<Rightarrow> engine_ctx \<Rightarrow> route_candidate \<Rightarrow> string \<Rightarrow> string \<Rightarrow> decimal \<Rightarrow> venue_ref \<Rightarrow> order_side \<Rightarrow> sizing \<Rightarrow> sizing result" where
  "depth_cap mv cx c base quote target v side z =
     (if vr_kind v = DEX then Inr z
      else (case mv_book mv (vr_name v) (if vr_kind v = CEX then rt_pair c else perp_symbol_of base quote) of
         None \<Rightarrow> Inr z
       | Some book \<Rightarrow>
           let limit = slippage_limit_for (s_slippage (cx_settings cx)) base (vr_name v)
                 (vr_name (rt_buy c) @ ''->'' @ vr_name (rt_sell c)) target
           in bind_result (max_size_within_slippage book side limit) (\<lambda>cap.
                Inr (cap_size cap (Msg ''size capped by depth'' [AStr (vr_name v), ADec cap, AStr base, ADec limit]) [] z))))"

definition inventory_caps ::
  "engine_ctx \<Rightarrow> route_candidate \<Rightarrow> string \<Rightarrow> string \<Rightarrow> decimal \<Rightarrow> sizing \<Rightarrow> sizing" where
  "inventory_caps cx c base quote px z =
     (let inven = cx_inventory cx; bv = ledger_venue_for (rt_buy c); sv = ledger_venue_for (rt_sell c);
          by_quote = dmul (ddiv (inv_available inven bv quote) px) (98/100);
          z1 = cap_size by_quote (Msg ''size capped by inventory'' [AStr quote, AStr (vr_name (rt_buy c))]) [(bv, quote)] z
      in if vr_kind (rt_sell c) = PERP
         then cap_size (dmul (ddiv (inv_available inven sv quote) px) (98/100))
                (Msg ''size capped by collateral'' [AStr quote, AStr (vr_name (rt_sell c))]) [(sv, quote)] z1
         else cap_size (inv_available inven sv base)
                (Msg ''size capped by inventory'' [AStr base, AStr (vr_name (rt_sell c))]) [(sv, base)] z1)"

definition target_usd :: "app_settings \<Rightarrow> route_candidate \<Rightarrow> portfolio_state \<Rightarrow> decimal" where
  "target_usd s c p =
     (if rt_flash_loan c then min (fls_max_loan_usd (s_flash_loan s)) (rs_max_flash_loan_usd (s_risk s))
      else min (ts_max_trade_size_usd (s_trading s))
             (ddiv (dmul (po_usable_capital_usd p) (rs_max_capital_usage_pct (s_risk s))) 100))"

definition market_step :: "route_candidate \<Rightarrow> decimal" where
  "market_step c = (case market_of (rt_buy c) (rt_pair c) of
       Some m \<Rightarrow> mi_amount_step m
     | None \<Rightarrow> (case market_of (rt_sell c) (rt_pair c) of Some m \<Rightarrow> mi_amount_step m | None \<Rightarrow> 1/1000000))"

definition pick_size :: "market_view \<Rightarrow> engine_ctx \<Rightarrow> route_candidate \<Rightarrow> decimal \<Rightarrow> portfolio_state \<Rightarrow> sizing result" where
  "pick_size mv cx c px p =
     bind_result (split_pair (rt_pair c)) (\<lambda>(base, quote).
       let target = target_usd (cx_settings cx) c p in
       if target \<le> 0 then Inr \<lparr>sz_amount = 0, sz_notes = [Msg ''no usable capital'' []], sz_blocked = []\<rparr>
       else
         bind_result (depth_cap mv cx c base quote target (rt_buy c) BUY
             \<lparr>sz_amount = ddiv target px, sz_notes = [], sz_blocked = []\<rparr>) (\<lambda>z1.
         bind_result (depth_cap mv cx c base quote target (rt_sell c) SELL z1) (\<lambda>z2.
         let z3 = (if rt_flash_loan c then z2 else inventory_caps cx c base quote px z2)
         in Inr (z3\<lparr>sz_amount := floor_to_step (max 0 (sz_amount z3)) (market_step c)\<rparr>))))"


subsection \<open>Quotes of the legs\<close>

definition book_or_fetch :: "market_view \<Rightarrow> string \<Rightarrow> string \<Rightarrow> order_book option" where
  "book_or_fetch mv v symbol = (case mv_book mv v symbol of Some b \<Rightarrow> Some b | None \<Rightarrow> mv_fetch_book mv v symbol)"

definition leg_quote :: "market_view \<Rightarrow> venue_ref \<Rightarrow> string \<Rightarrow> order_side \<Rightarrow> decimal \<Rightarrow> execution_quote option" where
  \<comment> \<open>None: no book, or the venue raised\<close>
  "leg_quote mv v pair side amount =
     (if vr_kind v = DEX then mv_quote mv (vr_name v) pair side amount None
      else (case book_or_fetch mv (vr_name v) pair of
              None \<Rightarrow> None
            | Some b \<Rightarrow> mv_quote mv (vr_name v) pair side amount (Some b)))"

definition carry_quotes ::
  "market_view \<Rightarrow> route_candidate \<Rightarrow> string \<Rightarrow> decimal \<Rightarrow> (execution_quote \<times> execution_quote \<times> carry_quote) option" where
  "carry_quotes mv c psym amount =
     (let spot = vr_name (rt_buy c); perp = vr_name (rt_sell c) in
      case (book_or_fetch mv spot (rt_pair c), book_or_fetch mv perp psym) of
        (Some b, Some pb) \<Rightarrow>
          (case (mv_quote mv spot (rt_pair c) BUY amount (Some b), mv_quote mv perp psym SELL amount (Some pb)) of
             (Some bq, Some sq) \<Rightarrow> evaluate_carry (rt_strategy c) psym amount bq sq (mv_funding mv perp psym)
           | _ \<Rightarrow> None)
      | _ \<Rightarrow> None)"

subsection \<open>Assessment of a priced route\<close>

definition merge_gas :: "gas_assessment list \<Rightarrow> gas_assessment" where
  "merge_gas items =
     (case items of
        [g] \<Rightarrow> g
      | _ \<Rightarrow>
        \<lparr>ga_chain = ga_chain (hd items),
         ga_regime = (case max_by regime_rank (map ga_regime items) of Some r \<Rightarrow> r | None \<Rightarrow> NORMAL),
         ga_current_gas_cost_usd = dsum (map ga_current_gas_cost_usd items),
         ga_expected_gas_cost_usd = dsum (map ga_expected_gas_cost_usd items),
         ga_stress_gas_cost_usd = dsum (map ga_stress_gas_cost_usd items),
         ga_gas_pct_of_gross = dsum (map ga_gas_pct_of_gross items),
         ga_passed = list_all ga_passed items, ga_reasons = concat (map ga_reasons items),
         ga_gas_price_native = None, ga_priority_fee_usd = dsum (map ga_priority_fee_usd items)\<rparr>)"

definition dex_legs :: "execution_quote list \<Rightarrow> execution_quote list" where
  "dex_legs qs = filter (\<lambda>q. eq_kind q = DEX) qs"

definition leg_gas :: "market_view \<Rightarrow> app_settings \<Rightarrow> decimal \<Rightarrow> execution_quote \<Rightarrow> gas_assessment" where
  "leg_gas mv s gross q =
     gas_assess (s_gas s) (mv_baseline mv) (Option.bind (eq_chain q) (mv_gas mv))
       (case eq_gas_limit q of Some l \<Rightarrow> if l = 0 then 300000 else l | None \<Rightarrow> 300000) gross None None 1 (mv_now_ms mv)"

definition route_gas ::
  "market_view \<Rightarrow> app_settings \<Rightarrow> route_candidate \<Rightarrow> execution_quote \<Rightarrow> execution_quote \<Rightarrow> decimal \<Rightarrow> gas_assessment option" where
  "route_gas mv s c bq sq amount =
     (let gross = dmul (dsub (eq_reference_price sq) (eq_reference_price bq)) amount;
          on_chain = dex_legs [bq, sq]
      in if rt_flash_loan c \<and> eq_chain bq \<noteq> None
         then Some (gas_assess (s_gas s) (mv_baseline mv) (Option.bind (eq_chain bq) (mv_gas mv)) FLASH_LOAN_GAS_LIMIT
                gross None (Some (fls_max_gas_usd (s_flash_loan s))) 1 (mv_now_ms mv))
         else if on_chain \<noteq> [] then Some (merge_gas (map (leg_gas mv s gross) on_chain))
         else None)"

definition loan_terms ::
  "market_view \<Rightarrow> app_settings \<Rightarrow> route_candidate \<Rightarrow> execution_quote \<Rightarrow> execution_quote \<Rightarrow> decimal \<Rightarrow>
   flash_loan_terms option \<times> message list" where
  "loan_terms mv s c bq sq amount =
     (if \<not> rt_flash_loan c then (None, [])
      else
        let provider = (if fls_provider (s_flash_loan s) \<noteq> ''auto'' then fls_provider (s_flash_loan s) else ''aave_v3'');
            (sim_ok, rs) = (case mv_simulator mv of
                None \<Rightarrow> (None, [])
              | Some f \<Rightarrow> (case f c bq sq amount of
                    Inl e \<Rightarrow> (Some False, [Msg ''flash loan simulation error'' [AMsg e]])
                  | Inr ok \<Rightarrow> (ok, [])))
        in (Some \<lparr>flt_provider = provider, flt_loan_amount_usd = eq_quote_amount bq,
                  flt_fee_pct = flash_loan_fee_pct provider, flt_simulation_passed = sim_ok,
                  flt_atomic = (eq_chain bq \<noteq> None \<and> eq_chain bq = eq_chain sq)\<rparr>, rs))"

definition route_breakers ::
  "engine_ctx \<Rightarrow> route_candidate \<Rightarrow> execution_quote \<Rightarrow> execution_quote \<Rightarrow> message list" where
  \<comment> \<open>the chain asked for is that of the buy leg, and of the sell leg only when the buy leg has none\<close>
  "route_breakers cx c bq sq =
     (let ch = (case eq_chain bq of Some x \<Rightarrow> Some x | None \<Rightarrow> eq_chain sq) in
      breaker_blocks (cx_breakers cx) (Some (vr_name (rt_buy c))) None (Some (strategy_value (rt_strategy c))) (Some (rt_pair c))
      @ breaker_blocks (cx_breakers cx) (Some (vr_name (rt_sell c))) (map_option chain_value ch) None None)"

definition guard_inputs ::
  "market_view \<Rightarrow> engine_ctx \<Rightarrow> route_candidate \<Rightarrow> string \<Rightarrow> execution_quote \<Rightarrow> execution_quote \<Rightarrow>
   gas_assessment option \<Rightarrow> flash_loan_terms option \<Rightarrow> decimal \<Rightarrow> carry_quote option \<Rightarrow> profit_guard_inputs" where
  "guard_inputs mv cx c quote bq sq gas terms extra carry =
     \<lparr>pgi_buy = bq, pgi_sell = sq, pgi_settings = cx_settings cx, pgi_gas = gas,
      pgi_quote_usd_rate = (case mv_price mv quote of Some p \<Rightarrow> p | None \<Rightarrow> 1),
      pgi_experience_extra_pct = extra, pgi_flash_loan = terms,
      pgi_funding_cost_usd = (case carry of Some q \<Rightarrow> cq_funding_cost_usd q | None \<Rightarrow> 0),
      pgi_bridge_fee_usd = Some 0, pgi_withdrawal_fee_usd = Some 0, pgi_deposit_fee_usd = Some 0,
      pgi_stablecoin_haircut_pct = 0,
      pgi_round_trips = (if is_carry (rt_strategy c) then 2 else 1)\<rparr>"

definition add_new :: "'a list \<Rightarrow> 'a list \<Rightarrow> 'a list" where
  \<comment> \<open>\<open>xs.extend(y for y in ys if y not in xs)\<close>, evaluated while it extends\<close>
  "add_new xs ys = foldl (\<lambda>acc y. if y \<in> set acc then acc else acc @ [y]) xs ys"

definition route_key_of :: "engine_ctx \<Rightarrow> route_candidate \<Rightarrow> decimal \<Rightarrow> string" where
  "route_key_of cx c notional =
     route_key (cx_mode cx) (rt_strategy c) (vr_name (rt_buy c)) (vr_name (rt_sell c)) (rt_pair c) notional"

definition route_profit ::
  "market_view \<Rightarrow> engine_ctx \<Rightarrow> route_candidate \<Rightarrow> string \<Rightarrow> execution_quote \<Rightarrow> execution_quote \<Rightarrow> decimal \<Rightarrow>
   decimal \<Rightarrow> carry_quote option \<Rightarrow> profit_assessment" where
  "route_profit mv cx c quote bq sq amount px carry =
     profit_assess (guard_inputs mv cx c quote bq sq (route_gas mv (cx_settings cx) c bq sq amount)
       (fst (loan_terms mv (cx_settings cx) c bq sq amount))
       (extra_buffer_pct (cx_experience cx) (route_key_of cx c (dmul amount px))) carry) (mv_now_ms mv)"

definition route_risk ::
  "market_view \<Rightarrow> engine_ctx \<Rightarrow> route_candidate \<Rightarrow> string \<Rightarrow> string \<Rightarrow> execution_quote \<Rightarrow> execution_quote \<Rightarrow>
   decimal \<Rightarrow> decimal \<Rightarrow> decimal \<Rightarrow> risk_assessment" where
  "route_risk mv cx c base quote bq sq amount px capital =
     risk_assess (cx_settings cx)
       \<lparr>rq_strategy = rt_strategy c, rq_buy = bq, rq_sell = sq, rq_base = base, rq_quote = quote,
        rq_notional_usd = dmul amount px, rq_capital_required_usd = capital,
        rq_gas_usd = (case route_gas mv (cx_settings cx) c bq sq amount of
            Some g \<Rightarrow> dadd (ga_expected_gas_cost_usd g) (ga_priority_fee_usd g) | None \<Rightarrow> 0),
        rq_flash_loan_usd = map_option flt_loan_amount_usd (fst (loan_terms mv (cx_settings cx) c bq sq amount))\<rparr>
       ((portfolio_of mv cx)\<lparr>po_active_breakers := dedup (route_breakers cx c bq sq)\<rparr>) (mv_now_ms mv)"

definition assess_route ::
  "market_view \<Rightarrow> engine_ctx \<Rightarrow> route_candidate \<Rightarrow> string \<Rightarrow> string \<Rightarrow> execution_quote \<Rightarrow> execution_quote \<Rightarrow>
   decimal \<Rightarrow> decimal \<Rightarrow> message list \<Rightarrow> carry_quote option \<Rightarrow> opportunity" where
  "assess_route mv cx c base quote bq sq amount px pre carry =
     (let s = cx_settings cx; now = mv_now_ms mv;
          notional = dmul amount px;
          route = vr_name (rt_buy c) @ ''->'' @ vr_name (rt_sell c);
          gas = route_gas mv s c bq sq amount;
          profit = route_profit mv cx c quote bq sq amount px carry;
          risk = route_risk mv cx c base quote bq sq amount px (pa_capital_required profit);
          reasons0 = pre @ snd (loan_terms mv s c bq sq amount) @ pa_reasons profit
            @ slippage_check (s_slippage s) bq route notional base
            @ slippage_check (s_slippage s) sq route notional base
            @ latency_check (max_quote_age cx) [bq, sq] None now
            @ dedup (route_breakers cx c bq sq)
            @ reason_if (cx_emergency_stop cx) (Msg ''EMERGENCY STOP is active'' [])
            @ reason_if (\<not> gs_bot_enabled (s_general s)) (Msg ''bot is paused'' []);
          reasons = dedup (add_new reasons0 (ra_reasons risk)
            @ reason_if (dex_legs [bq, sq] \<noteq> [] \<and> (case gas of Some g \<Rightarrow> ga_regime g = EXTREME | None \<Rightarrow> False))
                (Msg ''gas regime EXTREME - on-chain trading paused'' []))
      in \<lparr>op_id = mv_new_id mv, op_mode = cx_mode cx, op_strategy = rt_strategy c, op_base = base, op_quote = quote,
          op_buy = bq, op_sell = sq, op_size_base = amount, op_profit = profit, op_gas = gas, op_risk = risk,
          op_decision = (if reasons = [] then SAFE_TO_EXECUTE else BLOCKED), op_block_reasons = reasons,
          op_explanation = (if reasons = [] then pa_explanation profit
                            else Msg ''Blocked because'' (map AMsg (take 3 reasons))),
          op_created_at_ms = now, op_expires_at_ms = now + as_opportunity_ttl_ms (s_advanced s),
          op_extra_route_key = Some (route_key_of cx c notional), op_extra_notional_usd = Some notional,
          op_extra_flash_loan = rt_flash_loan c,
          op_extra_funding_rate = Option.bind carry cq_funding_rate\<rparr>)"

subsection \<open>Evaluation\<close>

definition price_and_assess ::
  "market_view \<Rightarrow> engine_ctx \<Rightarrow> route_candidate \<Rightarrow> string \<Rightarrow> string \<Rightarrow> decimal \<Rightarrow> decimal \<Rightarrow> message list \<Rightarrow> opportunity option" where
  \<comment> \<open>the part of \<open>evaluate\<close> after the size is chosen\<close>
  "price_and_assess mv cx c base quote px amount0 notes =
     (let t = s_trading (cx_settings cx);
          small = (amount0 \<le> 0 \<or> dmul amount0 px < ts_min_trade_size_usd t);
          reasons = notes @ reason_if small
            (Msg ''tradeable size below minimum'' [ADec (dmul amount0 px), ADec (ts_min_trade_size_usd t)]);
          amount = (if small then max amount0 (floor_to_step (ddiv (ts_min_trade_size_usd t) px) (1/1000000)) else amount0)
      in if is_carry (rt_strategy c)
         then (case carry_quotes mv c (perp_symbol_of base quote) amount of
                 None \<Rightarrow> None
               | Some (bq, sq, cq) \<Rightarrow> Some (assess_route mv cx c base quote bq sq amount px reasons (Some cq)))
         else (case (leg_quote mv (rt_buy c) (rt_pair c) BUY amount, leg_quote mv (rt_sell c) (rt_pair c) SELL amount) of
                 (Some bq, Some sq) \<Rightarrow> Some (assess_route mv cx c base quote bq sq amount px reasons None)
               | _ \<Rightarrow> None))"

definition size_ladder :: "decimal list" where
  "size_ladder = [1, 5/10, 25/100, 1/10, 4/100]"

definition stronger :: "opportunity \<Rightarrow> opportunity \<Rightarrow> bool" where
  \<comment> \<open>the tuple comparison of the ladder\<close>
  "stronger o1 b \<longleftrightarrow>
     (op_decision b \<noteq> SAFE_TO_EXECUTE \<and> op_decision o1 = SAFE_TO_EXECUTE) \<or>
     ((op_decision o1 = SAFE_TO_EXECUTE) = (op_decision b = SAFE_TO_EXECUTE) \<and>
      pa_worst_case_profit (op_profit b) < pa_worst_case_profit (op_profit o1))"

definition ladder_step ::
  "(decimal \<Rightarrow> opportunity option) \<Rightarrow> decimal \<Rightarrow> decimal \<Rightarrow> decimal \<Rightarrow> opportunity option \<Rightarrow> decimal \<Rightarrow> opportunity option" where
  "ladder_step eval max_size px min_usd best part =
     (let amount = floor_to_step (dmul (dmul max_size part) (98/100)) (1/1000000) in
      if amount \<le> 0 \<or> dmul amount px < min_usd then best
      else (case eval amount of
              None \<Rightarrow> best
            | Some o1 \<Rightarrow> (case best of None \<Rightarrow> Some o1 | Some b \<Rightarrow> if stronger o1 b then Some o1 else best)))"

definition evaluate ::
  "market_view \<Rightarrow> engine_ctx \<Rightarrow> route_candidate \<Rightarrow> decimal option \<Rightarrow> (opportunity option \<times> (string \<times> string) list) result" where
  \<comment> \<open>with the shortfalls reported to the rebalancer; a size that is given is used as it is\<close>
  "evaluate mv cx c given =
     bind_result (split_pair (rt_pair c)) (\<lambda>(base, quote).
       case mv_price mv base of
         None \<Rightarrow> Inr (None, [])
       | Some px \<Rightarrow>
           if px \<le> 0 then Inr (None, [])
           else (case given of
             Some amount \<Rightarrow> Inr (price_and_assess mv cx c base quote px amount [], [])
           | None \<Rightarrow>
               bind_result (pick_size mv cx c px (portfolio_of mv cx)) (\<lambda>z.
                 if rt_flash_loan c then
                   let best = foldl (ladder_step (\<lambda>a. price_and_assess mv cx c base quote px a [])
                          (sz_amount z) px (ts_min_trade_size_usd (s_trading (cx_settings cx)))) None size_ladder
                   in Inr (map_option (\<lambda>b. b\<lparr>op_block_reasons :=
                         add_new (op_block_reasons b) (sz_notes z)\<rparr>) best, sz_blocked z)
                 else Inr (price_and_assess mv cx c base quote px (sz_amount z) (sz_notes z), sz_blocked z))))"

subsection \<open>Scanning and ranking\<close>

definition group_key :: "opportunity \<Rightarrow> string" where
  "group_key o1 = op_pair o1 @ ''|'' @ eq_venue (op_buy o1) @ ''->'' @ eq_venue (op_sell o1)"

definition choice_key :: "opportunity \<Rightarrow> bool \<times> decimal \<times> decimal" where
  "choice_key o1 = (op_decision o1 = SAFE_TO_EXECUTE, pa_worst_case_profit (op_profit o1), pa_expected_net_profit (op_profit o1))"

definition yield_to :: "opportunity \<Rightarrow> opportunity \<Rightarrow> opportunity" where
  \<comment> \<open>the mutation of an opportunity that is not the best of its route\<close>
  "yield_to best o1 =
     (let why = Msg ''route preferred: stronger worst-case economics'' [AStr (strategy_value (op_strategy best)),
            ADec (pa_worst_case_profit (op_profit best)), ADec (pa_worst_case_profit (op_profit o1))]
      in o1\<lparr>op_block_reasons := op_block_reasons o1 @ [why], op_decision := BLOCKED,
            op_explanation := Msg ''Blocked because'' [AMsg why]\<rparr>)"

definition annotate :: "opportunity list \<Rightarrow> opportunity list" where
  \<comment> \<open>opportunities are objects: they are told apart by their position\<close>
  "annotate os =
     map (\<lambda>i. let grp = filter (\<lambda>j. group_key (os ! j) = group_key (os ! i)) [0..<length os] in
        if length grp < 2 then os ! i
        else (case max_by (\<lambda>j. choice_key (os ! j)) grp of
                Some b \<Rightarrow> if b = i then os ! i else yield_to (os ! b) (os ! i)
              | None \<Rightarrow> os ! i)) [0..<length os]"

definition rank_key :: "opportunity \<Rightarrow> bool \<times> decimal \<times> decimal \<times> int" where
  "rank_key o1 = (op_decision o1 \<noteq> SAFE_TO_EXECUTE, dneg (pa_worst_case_profit (op_profit o1)),
     dneg (pa_expected_net_profit (op_profit o1)), ra_score (op_risk o1))"

definition ranked :: "opp_engine \<Rightarrow> int \<Rightarrow> opportunity list" where
  "ranked e now = sort_key rank_key (filter (\<lambda>o1. now < op_expires_at_ms o1) (vals (oe_latest e)))"

definition opp_get :: "opp_engine \<Rightarrow> string \<Rightarrow> opportunity option" where
  "opp_get e i = find (\<lambda>o1. op_id o1 = i) (vals (oe_latest e))"

definition note_all :: "(string \<times> string) list \<Rightarrow> rebalancer \<Rightarrow> rebalancer" where
  "note_all bs r = foldl (\<lambda>m (v, a). note_blocked m v a 0) r bs"

definition scan ::
  "(route_candidate \<Rightarrow> market_view) \<Rightarrow> engine_ctx \<Rightarrow> opp_engine \<Rightarrow> string list \<Rightarrow> int \<Rightarrow> int \<Rightarrow>
   (engine_ctx \<times> opp_engine \<times> opportunity list) result" where
  \<comment> \<open>each route sees the market at its own moment; an exception of one evaluation drops that route\<close>
  "scan view cx e pairs t0 t1 =
     bind_result (candidates cx pairs) (\<lambda>cs.
       let results = map (\<lambda>c. (c, evaluate (view c) cx c None)) cs;
           found = List.map_filter (\<lambda>(c, r). case r of Inr (Some o1, _) \<Rightarrow> Some (c, o1) | _ \<Rightarrow> None) results;
           blocked = concat (map (\<lambda>(c, r). case r of Inr (_, bs) \<Rightarrow> bs | Inl _ \<Rightarrow> []) results);
           done1 = annotate (map snd found);
           e1 = e\<lparr>oe_latest := foldl (\<lambda>d (c, o1). AList.update (rt_key c) o1 d) (oe_latest e) (zip (map fst found) done1),
                  oe_scan_count := oe_scan_count e + 1, oe_last_scan_ms := t1,
                  oe_last_scan_duration_ms := t1 - t0\<rparr>
       in Inr (cx\<lparr>cx_rebalancer := note_all blocked (cx_rebalancer cx)\<rparr>, e1, ranked e1 t1))"


subsection \<open>Lemmas\<close>

lemma set_add_new: "set (add_new xs ys) = set xs \<union> set ys"
proof (induction ys arbitrary: xs)
  case (Cons y ys)
  show ?case using Cons [of xs] Cons [of "xs @ [y]"] by (auto simp: add_new_def)
qed (simp add: add_new_def)

lemma add_new_Nil_iff [simp]: "add_new xs ys = [] \<longleftrightarrow> xs = [] \<and> ys = []"
  using set_add_new [of xs ys] by (metis Un_empty set_empty)

lemma profit_reasons_Nil: "pa_reasons (profit_assess i now) = [] \<longleftrightarrow> pa_decision (profit_assess i now) = SAFE_TO_EXECUTE"
  by (simp add: profit_assess_def blocked_assessment_def Let_def)

lemma profit_reasons_route: "pa_reasons (route_profit mv cx c quote bq sq amount px carry) = [] \<longleftrightarrow>
    pa_decision (route_profit mv cx c quote bq sq amount px carry) = SAFE_TO_EXECUTE"
  by (simp add: route_profit_def profit_reasons_Nil)

lemma risk_reasons_route: "ra_reasons (route_risk mv cx c base quote bq sq amount px cap) = [] \<longleftrightarrow>
    ra_passed (route_risk mv cx c base quote bq sq amount px cap)"
  by (simp add: route_risk_def risk_assess_def Let_def)

definition venue_cleared :: "market_view \<Rightarrow> engine_ctx \<Rightarrow> string \<Rightarrow> bool" where
  \<comment> \<open>a known venue in a state the settings allow to trade\<close>
  "venue_cleared mv cx v \<longleftrightarrow> v \<in> set (keys (cx_connectors cx)) \<and>
     (mv_health mv v = HEALTHY \<or> mv_health mv v = DEGRADED \<and> rs_allow_degraded_venues (s_risk (cx_settings cx)))"

lemma portfolio_health:
  "health_of ((portfolio_of mv cx)\<lparr>po_active_breakers := bs\<rparr>) v =
     (if v \<in> set (keys (cx_connectors cx)) then mv_health mv v else UNKNOWN)"
proof -
  have "map_of (map (\<lambda>n. (n, f n)) ns) v = (if v \<in> set ns then Some (f v) else None)" for f :: "string \<Rightarrow> venue_health" and ns
    by (induction ns) auto
  then show ?thesis by (simp add: health_of_def portfolio_of_def Let_def dget_def)
qed

lemma route_risk_venues:
  assumes "ra_passed (route_risk mv cx c base quote bq sq amount px capital)"
  shows "venue_cleared mv cx (eq_venue bq) \<and> venue_cleared mv cx (eq_venue sq)"
  using risk_passed_groups(5) [OF assms [unfolded route_risk_def]]
  by (auto simp: health_reasons_def rq_venues_def portfolio_health venue_cleared_def degraded_ok_def split: if_splits)

definition clear_route :: "market_view \<Rightarrow> engine_ctx \<Rightarrow> route_candidate \<Rightarrow> opportunity \<Rightarrow> bool" where
  \<comment> \<open>what every guard says of an opportunity, with its legs and notional\<close>
  "clear_route mv cx c o1 \<longleftrightarrow>
     (let s = cx_settings cx; n = (case op_extra_notional_usd o1 of Some x \<Rightarrow> x | None \<Rightarrow> 0);
          route = vr_name (rt_buy c) @ ''->'' @ vr_name (rt_sell c) in
      pa_decision (op_profit o1) = SAFE_TO_EXECUTE \<and> ra_passed (op_risk o1) \<and>
      slippage_check (s_slippage s) (op_buy o1) route n (op_base o1) = [] \<and>
      slippage_check (s_slippage s) (op_sell o1) route n (op_base o1) = [] \<and>
      latency_check (max_quote_age cx) [op_buy o1, op_sell o1] None (mv_now_ms mv) = [] \<and>
      route_breakers cx c (op_buy o1) (op_sell o1) = [] \<and>
      \<not> cx_emergency_stop cx \<and> gs_bot_enabled (s_general s) \<and>
      venue_cleared mv cx (eq_venue (op_buy o1)) \<and> venue_cleared mv cx (eq_venue (op_sell o1)) \<and>
      (\<forall>g. op_gas o1 = Some g \<longrightarrow> dex_legs [op_buy o1, op_sell o1] \<noteq> [] \<longrightarrow> ga_regime g \<noteq> EXTREME))"

lemma assess_route_safe:
  assumes "o1 = assess_route mv cx c base quote bq sq amount px pre carry" and "op_decision o1 = SAFE_TO_EXECUTE"
  shows "pre = [] \<and> clear_route mv cx c o1"
  using assms(2) unfolding assms(1) assess_route_def clear_route_def
  by (auto simp: Let_def profit_reasons_route risk_reasons_route split: if_splits option.splits dest: route_risk_venues)

lemma assess_route_legs:
  "o1 = assess_route mv cx c base quote bq sq amount px pre carry \<Longrightarrow> op_decision o1 = BLOCKED \<longleftrightarrow> op_block_reasons o1 \<noteq> []"
  by (simp add: assess_route_def Let_def split_def)

lemma price_and_assess_safe:
  assumes "price_and_assess mv cx c base quote px amount notes = Some o1" and "op_decision o1 = SAFE_TO_EXECUTE"
  shows "notes = [] \<and> clear_route mv cx c o1"
proof -
  define small where "small = (amount \<le> 0 \<or> dmul amount px < ts_min_trade_size_usd (s_trading (cx_settings cx)))"
  define pre where "pre = reason_if small (Msg ''tradeable size below minimum''
      [ADec (dmul amount px), ADec (ts_min_trade_size_usd (s_trading (cx_settings cx)))])"
  obtain bq sq a carry where o1: "o1 = assess_route mv cx c base quote bq sq a px (notes @ pre) carry"
    using assms(1) unfolding price_and_assess_def Let_def small_def [symmetric] pre_def [symmetric]
    by (auto split: if_splits option.splits prod.splits)
  show ?thesis using assess_route_safe [OF o1 assms(2)] by simp
qed

lemma ladder_result:
  "foldl (ladder_step eval m px lo) best ps = Some b \<Longrightarrow> best = Some b \<or> (\<exists>a. eval a = Some b)"
proof (induction ps arbitrary: best)
  case (Cons p ps)
  let ?b = "ladder_step eval m px lo best p"
  have "?b = Some b \<or> (\<exists>a. eval a = Some b)" using Cons.IH [of ?b] Cons.prems by simp
  then show ?case
    by (auto simp: ladder_step_def Let_def split: if_splits option.splits)
qed simp

lemma clear_route_reasons [simp]: "clear_route mv cx c (b\<lparr>op_block_reasons := r\<rparr>) = clear_route mv cx c b"
  by (simp add: clear_route_def Let_def)

lemma evaluate_clear:
  assumes "evaluate mv cx c given = Inr (Some o1, bl)" and "op_decision o1 = SAFE_TO_EXECUTE"
  shows "clear_route mv cx c o1"
proof -
  obtain base quote px where b: "split_pair (rt_pair c) = Inr (base, quote)" "mv_price mv base = Some px" "\<not> px \<le> 0"
    using assms(1) by (auto simp: evaluate_def bind_result_Inr_iff split: option.splits if_splits)
  note E = assms(1) [unfolded evaluate_def b bind_result_simps prod.case option.case]
  show ?thesis
  proof (cases given)
    case (Some a)
    with E b(3) have "price_and_assess mv cx c base quote px a [] = Some o1" by simp
    from price_and_assess_safe [OF this assms(2)] show ?thesis ..
  next
    case None
    then obtain z where z: "pick_size mv cx c px (portfolio_of mv cx) = Inr z"
      using E b(3) by (auto simp: bind_result_Inr_iff)
    show ?thesis
    proof (cases "rt_flash_loan c")
      case True
      then obtain b0 where "foldl (ladder_step (\<lambda>a. price_and_assess mv cx c base quote px a []) (sz_amount z) px
          (ts_min_trade_size_usd (s_trading (cx_settings cx)))) None size_ladder = Some b0"
          and o1: "o1 = b0\<lparr>op_block_reasons := add_new (op_block_reasons b0) (sz_notes z)\<rparr>"
        using E b(3) None z by (auto simp: Let_def)
      then obtain a where "price_and_assess mv cx c base quote px a [] = Some b0"
        using ladder_result by fastforce
      from price_and_assess_safe [OF this] assms(2) show ?thesis by (simp add: o1)
    next
      case False
      with E b(3) None z have "price_and_assess mv cx c base quote px (sz_amount z) (sz_notes z) = Some o1" by simp
      from price_and_assess_safe [OF this assms(2)] show ?thesis ..
    qed
  qed
qed

subsection \<open>Properties\<close>

text \<open>C2. An evaluation that says SAFE_TO_EXECUTE was cleared by every guard: the profit guard calls the
  trade safe and the risk engine passes it, both legs are within their slippage limits and fresh,
  both venues are known and healthy (or degraded where the settings allow it), no breaker that is
  asked for blocks the route, neither emergency stop nor pause is on, and no on-chain leg trades in
  the extreme gas regime.\<close>

theorem safe_passes_every_guard:
  assumes "evaluate mv cx c given = Inr (Some o1, bl)" and "op_decision o1 = SAFE_TO_EXECUTE"
  shows "clear_route mv cx c o1"
  using assms by (rule evaluate_clear)

text \<open>A scanned size that had to be capped never executes: the notes of the sizing (depth or inventory
  caps, no usable capital) join the block reasons, so a prefunded route whose size was reduced is
  BLOCKED even when every guard would clear the smaller trade.\<close>

theorem capped_size_is_blocked:
  assumes "evaluate mv cx c None = Inr (Some o1, bl)" and "\<not> rt_flash_loan c"
    and "split_pair (rt_pair c) = Inr (base, quote)" and "mv_price mv base = Some px"
    and "pick_size mv cx c px (portfolio_of mv cx) = Inr z" and "sz_notes z \<noteq> []"
  shows "op_decision o1 = BLOCKED"
proof -
  have "price_and_assess mv cx c base quote px (sz_amount z) (sz_notes z) = Some o1"
    using assms(1-5) by (auto simp: evaluate_def split: if_splits)
  from price_and_assess_safe [OF this] assms(6) show ?thesis by (cases "op_decision o1") auto
qed


text \<open>Sizing respects every cap: the size is the amount affordable for the target, cut by the quote
  balance of the buying venue (with two percent left for fees) and by the base balance or quote
  collateral of the selling venue, and then floored to the market step; without a note nothing was cut.\<close>

theorem pick_size_caps:
  assumes "pick_size mv cx c px p = Inr z" and "split_pair (rt_pair c) = Inr (base, quote)"
    and "0 < target_usd (cx_settings cx) c p" and "\<not> rt_flash_loan c"
  shows "\<exists>raw. sz_amount z = floor_to_step (max 0 raw) (market_step c) \<and>
    raw \<le> ddiv (target_usd (cx_settings cx) c p) px \<and>
    raw \<le> dmul (ddiv (inv_available (cx_inventory cx) (ledger_venue_for (rt_buy c)) quote) px) (98/100) \<and>
    (vr_kind (rt_sell c) = PERP \<longrightarrow>
       raw \<le> dmul (ddiv (inv_available (cx_inventory cx) (ledger_venue_for (rt_sell c)) quote) px) (98/100)) \<and>
    (vr_kind (rt_sell c) \<noteq> PERP \<longrightarrow> raw \<le> inv_available (cx_inventory cx) (ledger_venue_for (rt_sell c)) base) \<and>
    (sz_notes z = [] \<longrightarrow> raw = ddiv (target_usd (cx_settings cx) c p) px \<and> sz_blocked z = [])"
proof -
  define t where "t = target_usd (cx_settings cx) c p"
  define z0 where "z0 = \<lparr>sz_amount = ddiv t px, sz_notes = [], sz_blocked = []\<rparr>"
  have step: "sz_amount y' \<le> sz_amount y \<and> (sz_notes y' = [] \<longrightarrow> y' = y)"
    if "depth_cap mv cx c base quote t v side y = Inr y'" for v side y y'
    using that by (auto simp: depth_cap_def cap_size_def Let_def bind_result_Inr_iff split: if_splits option.splits)
  obtain z1 z2 where zs: "depth_cap mv cx c base quote t (rt_buy c) BUY z0 = Inr z1"
      "depth_cap mv cx c base quote t (rt_sell c) SELL z1 = Inr z2"
      "z = (inventory_caps cx c base quote px z2)\<lparr>sz_amount :=
        floor_to_step (max 0 (sz_amount (inventory_caps cx c base quote px z2))) (market_step c)\<rparr>"
    using assms by (auto simp: pick_size_def Let_def bind_result_Inr_iff t_def [symmetric] z0_def [symmetric])
  define z3 where "z3 = inventory_caps cx c base quote px z2"
  have "sz_amount z3 \<le> sz_amount z2 \<and> (sz_notes z3 = [] \<longrightarrow> z3 = z2) \<and>
      sz_amount z3 \<le> dmul (ddiv (inv_available (cx_inventory cx) (ledger_venue_for (rt_buy c)) quote) px) (98/100) \<and>
      (vr_kind (rt_sell c) = PERP \<longrightarrow>
         sz_amount z3 \<le> dmul (ddiv (inv_available (cx_inventory cx) (ledger_venue_for (rt_sell c)) quote) px) (98/100)) \<and>
      (vr_kind (rt_sell c) \<noteq> PERP \<longrightarrow> sz_amount z3 \<le> inv_available (cx_inventory cx) (ledger_venue_for (rt_sell c)) base)"
    unfolding z3_def inventory_caps_def Let_def cap_size_def by auto
  moreover note step [OF zs(1)] step [OF zs(2)]
  moreover have "sz_notes z = sz_notes z3" "sz_blocked z = sz_blocked z3"
      "sz_amount z = floor_to_step (max 0 (sz_amount z3)) (market_step c)"
    by (simp_all add: zs(3) z3_def)
  ultimately show ?thesis
    by (intro exI [of _ "sz_amount z3"]) (auto simp: t_def [symmetric] z0_def)
qed

text \<open>Strategies on one route are alternatives: after the choice at most one opportunity of each route
  (pair, buying and selling venue) is executable, every other opportunity is unchanged or BLOCKED,
  and one that is the only opportunity of its route is left as it is.\<close>

theorem one_executable_per_route:
  assumes "i < length os" and "j < length os" and "i \<noteq> j" and "group_key (os ! i) = group_key (os ! j)"
  shows "\<not> (op_decision (annotate os ! i) = SAFE_TO_EXECUTE \<and> op_decision (annotate os ! j) = SAFE_TO_EXECUTE) \<and>
    length (annotate os) = length os"
proof -
  define grp where "grp = filter (\<lambda>k. group_key (os ! k) = group_key (os ! i)) [0..<length os]"
  have gj: "filter (\<lambda>k. group_key (os ! k) = group_key (os ! j)) [0..<length os] = grp"
    using assms(4) by (simp add: grp_def)
  have "{i, j} \<subseteq> set grp" using assms by (auto simp: grp_def)
  then have "2 \<le> card (set grp)" using assms(3) card_mono [of "set grp" "{i, j}"] by simp
  then have two: "\<not> length grp < 2" using card_length [of grp] by simp
  obtain b where b: "max_by (\<lambda>k. choice_key (os ! k)) grp = Some b" using two by (cases grp) (auto simp: max_by_def)
  have dec: "op_decision (annotate os ! k) = BLOCKED" if "k \<in> {i, j}" "k \<noteq> b" for k
    using that assms(1,2) two b gj
    by (auto simp: annotate_def Let_def grp_def [symmetric] yield_to_def)
  have "i \<noteq> b \<or> j \<noteq> b" using assms(3) by auto
  then have "op_decision (annotate os ! i) = BLOCKED \<or> op_decision (annotate os ! j) = BLOCKED" using dec by blast
  then show ?thesis by (auto simp: annotate_def)
qed

lemma ranked_head:
  assumes "ranked e now = o1 # os" and "o2 \<in> set (vals (oe_latest e))" and "now < op_expires_at_ms o2"
  shows "rank_key o1 \<le> rank_key o2 \<and> o1 \<in> set (vals (oe_latest e)) \<and> now < op_expires_at_ms o1"
proof -
  have s: "sorted (map rank_key (o1 # os))" unfolding assms(1) [symmetric] by (simp add: ranked_def)
  have m: "set (o1 # os) = {o3 \<in> set (vals (oe_latest e)). now < op_expires_at_ms o3}"
    unfolding assms(1) [symmetric] by (simp add: ranked_def)
  then have "o2 \<in> set (o1 # os)" using assms(2,3) by blast
  with s have "rank_key o1 \<le> rank_key o2" by auto
  with m show ?thesis by auto
qed

text \<open>The ranking is by what can be lost: it lists exactly the opportunities that have not expired,
  executable ones before blocked ones, and among equals the larger worst-case profit first.\<close>

theorem ranked_order:
  assumes "i < j" and "j < length (ranked e now)"
    and "\<forall>o1 \<in> set (vals (oe_latest e)). drepr (pa_worst_case_profit (op_profit o1))"
  shows "(op_decision (ranked e now ! j) = SAFE_TO_EXECUTE \<longrightarrow> op_decision (ranked e now ! i) = SAFE_TO_EXECUTE) \<and>
    (op_decision (ranked e now ! i) = op_decision (ranked e now ! j) \<longrightarrow>
       pa_worst_case_profit (op_profit (ranked e now ! j)) \<le> pa_worst_case_profit (op_profit (ranked e now ! i))) \<and>
    mset (ranked e now) = mset (filter (\<lambda>o1. now < op_expires_at_ms o1) (vals (oe_latest e)))"
proof -
  let ?r = "ranked e now"
  have "sorted (map rank_key ?r)" by (simp add: ranked_def)
  then have le: "rank_key (?r ! i) \<le> rank_key (?r ! j)"
    using assms(1,2) sorted_nth_mono [of "map rank_key ?r" i j] by simp
  have "?r ! i \<in> set (vals (oe_latest e))" "?r ! j \<in> set (vals (oe_latest e))"
    using assms(1,2) nth_mem [of i ?r] nth_mem [of j ?r] by (auto simp: ranked_def)
  then have "dneg (pa_worst_case_profit (op_profit (?r ! i))) = - pa_worst_case_profit (op_profit (?r ! i))"
      "dneg (pa_worst_case_profit (op_profit (?r ! j))) = - pa_worst_case_profit (op_profit (?r ! j))"
    using assms(3) by (simp_all add: dneg_exact)
  moreover have "mset ?r = mset (filter (\<lambda>o1. now < op_expires_at_ms o1) (vals (oe_latest e)))"
    by (simp add: ranked_def)
  moreover have "d = SAFE_TO_EXECUTE \<or> d = BLOCKED" for d by (cases d) auto
  ultimately show ?thesis using le unfolding rank_key_def less_eq_prod_def by auto
qed


subsection \<open>Scopes no query names\<close>

definition scope_asked :: "route_candidate \<Rightarrow> execution_quote \<Rightarrow> execution_quote \<Rightarrow> string \<Rightarrow> bool" where
  "scope_asked c bq sq sc \<longleftrightarrow> sc = ''global'' \<or> sc = ''venue:'' @ vr_name (rt_buy c) \<or> sc = ''venue:'' @ vr_name (rt_sell c) \<or>
     sc = ''strategy:'' @ strategy_value (rt_strategy c) \<or> sc = ''symbol:'' @ rt_pair c \<or>
     (\<exists>ch. (case eq_chain bq of Some x \<Rightarrow> Some x | None \<Rightarrow> eq_chain sq) = Some ch \<and> sc = ''chain:'' @ chain_value ch)"

lemma unasked_message:
  assumes "\<not> scope_asked c bq sq (bk_scope b)"
  shows "block_message (Some (vr_name (rt_buy c))) None (Some (strategy_value (rt_strategy c))) (Some (rt_pair c)) b = []"
    "block_message (Some (vr_name (rt_sell c)))
       (map_option chain_value (case eq_chain bq of Some x \<Rightarrow> Some x | None \<Rightarrow> eq_chain sq)) None None b = []"
  using assms by (auto simp: block_message_Nil_iff scope_asked_def names_scope_def split: option.splits)

lemma concat_map_filter:
  "(\<And>x. \<not> P x \<Longrightarrow> f x = []) \<Longrightarrow> concat (map f xs) = concat (map f (filter P xs))"
  by (induction xs) auto

lemma trip_scope_other:
  assumes "manager_wf m" and "\<not> P sc"
  shows "filter (\<lambda>b. P (bk_scope b)) (active_breakers (fst (trip m r d sc auto now))) =
    filter (\<lambda>b. P (bk_scope b)) (active_breakers m)"
proof (cases "map_of (cbm_active m) (breaker_key sc r)")
  case None
  have app: "AList.update k v al = al @ [(k, v)]" if "map_of al k = None" for k v and al :: "(string, nat) dict"
    using that by (induction al) (auto split: if_splits)
  have "\<forall>a \<in> set (vals (cbm_active m)). a < length (cbm_store m)"
    using assms(1) by (auto simp: manager_wf_def vals_def)
  then show ?thesis
    using None assms(2) by (simp add: trip_def Let_def active_breakers_def app vals_def nth_append split_def cong: map_cong)
next
  case (Some a)
  have a: "(breaker_key sc r, a) \<in> set (cbm_active m)" using Some by (rule map_of_SomeD)
  then have sc: "bk_scope (cbm_store m ! a) = sc" "a < length (cbm_store m)"
    using assms(1) by (fastforce simp: manager_wf_def)+
  define st where "st = (cbm_store m)[a := (cbm_store m ! a)\<lparr>bk_detail := d\<rparr>]"
  have eq: "filter (\<lambda>b. P (bk_scope b)) (map ((!) st) is) = filter (\<lambda>b. P (bk_scope b)) (map ((!) (cbm_store m)) is)" for "is"
    using sc assms(2) by (induction "is") (auto simp: st_def nth_list_update)
  show ?thesis using eq [of "vals (cbm_active m)"]
    by (simp add: trip_def Some active_breakers_def st_def)
qed

lemma route_breakers_unasked:
  assumes "manager_wf (cx_breakers cx)" and "\<not> scope_asked c bq sq sc"
  shows "route_breakers (cx\<lparr>cx_breakers := fst (trip (cx_breakers cx) r d sc auto now)\<rparr>) c bq sq = route_breakers cx c bq sq"
proof -
  note T = trip_scope_other [of "cx_breakers cx" "scope_asked c bq sq" sc r d auto now, OF assms]
  note M = unasked_message [of c bq sq]
  show ?thesis
    unfolding route_breakers_def breaker_blocks_def Let_def
    by (subst (1 2) concat_map_filter [of "\<lambda>b. scope_asked c bq sq (bk_scope b)", OF M(1)], assumption,
        subst (1 2) concat_map_filter [of "\<lambda>b. scope_asked c bq sq (bk_scope b)", OF M(2)], assumption)
      (simp add: T)
qed

text \<open>Breakers nobody asks for: tripping the scope "strategy:carry", as the position manager does on a
  funding anomaly, blocks no route, since no strategy has that value; and a breaker on the chain of
  the selling leg blocks nothing when the buying leg is on another chain.\<close>

theorem unasked_breakers_block_nothing:
  assumes "manager_wf (cx_breakers cx)"
  shows "route_breakers (cx\<lparr>cx_breakers := fst (trip (cx_breakers cx) r d ''strategy:carry'' auto now)\<rparr>) c bq sq =
      route_breakers cx c bq sq \<and>
    (eq_chain bq = Some x \<and> eq_chain sq = Some y \<and> x \<noteq> y \<longrightarrow>
      route_breakers (cx\<lparr>cx_breakers := fst (trip (cx_breakers cx) r d (''chain:'' @ chain_value y) auto now)\<rparr>) c bq sq =
      route_breakers cx c bq sq)"
proof -
  have "\<not> scope_asked c bq sq ''strategy:carry''"
    by (cases "rt_strategy c") (auto simp: scope_asked_def)
  moreover have "\<not> scope_asked c bq sq (''chain:'' @ chain_value y)"
    if "eq_chain bq = Some x" "x \<noteq> y"
    using that by (auto simp: scope_asked_def)
  ultimately show ?thesis using route_breakers_unasked [OF assms] by blast
qed


subsection \<open>Witnesses\<close>

definition wit_ctx :: engine_ctx where
  "wit_ctx = demo_ctx\<lparr>cx_settings := app_defaults, cx_inventory := new_inventory\<lparr>im_lines :=
     [((''kraken'', ''USDC''), (new_line ''kraken'' ''USDC'' ''cex'')\<lparr>il_available := 5000, il_usd_value := Some 7000\<rparr>),
      ((''coinbase'', ''BTC''), (new_line ''coinbase'' ''BTC'' ''cex'')\<lparr>il_available := 50, il_usd_value := Some 1000\<rparr>)]\<rparr>\<rparr>"

definition wit_buy :: execution_quote where
  "wit_buy = demo_leg ''kraken'' BUY 100 (Some (24/10))"

definition wit_sell :: execution_quote where
  "wit_sell = demo_leg ''coinbase'' SELL 120 (Some 1)"

definition wit_view :: market_view where
  "wit_view = \<lparr>mv_price = (\<lambda>a. if a = ''BTC'' then Some 20 else Some 1), mv_health = (\<lambda>_. HEALTHY),
     mv_book = (\<lambda>_ _. None), mv_fetch_book = (\<lambda>_ _. Some demo_book),
     mv_quote = (\<lambda>v _ side _ _. Some (if v = ''kraken'' then wit_buy else wit_sell)),
     mv_funding = (\<lambda>_ _. None), mv_gas = (\<lambda>_. None), mv_baseline = \<lparr>bl_alpha = 1, bl_baseline = [], bl_samples = []\<rparr>,
     mv_simulator = None, mv_now_ms = 1500, mv_new_id = ''opp1''\<rparr>"

definition wit_route :: route_candidate where
  "wit_route = \<lparr>rt_strategy = CEX_CEX, rt_pair = ''BTC/USDC'', rt_buy = demo_venue ''kraken'',
     rt_sell = demo_venue ''coinbase'', rt_flash_loan = False\<rparr>"

lemma wit_simps [simp]:
  "cx_settings wit_ctx = app_defaults" "cx_breakers wit_ctx = new_manager" "cx_emergency_stop wit_ctx = False"
  "rt_strategy wit_route = CEX_CEX" "rt_pair wit_route = ''BTC/USDC''" "rt_buy wit_route = demo_venue ''kraken''"
  "rt_sell wit_route = demo_venue ''coinbase''" "\<not> rt_flash_loan wit_route"
  "mv_now_ms wit_view = 1500" "mv_price wit_view ''BTC'' = Some 20" "mv_price wit_view ''USDC'' = Some 1"
  by (simp_all add: wit_ctx_def wit_route_def wit_view_def)

lemma wit_split: "split_pair ''BTC/USDC'' = Inr (''BTC'', ''USDC'')"
  by (simp add: split_pair_def)

lemma wit_leg_simps [simp]:
  "eq_kind wit_buy = CEX" "eq_chain wit_buy = None" "eq_venue wit_buy = ''kraken''" "eq_fully_fillable wit_buy"
  "eq_slippage_pct wit_buy = 0" "eq_price_impact_pct wit_buy = 0" "eq_market_ts_ms wit_buy = 1000"
  "eq_quote_ts_ms wit_buy = 1000" "eq_quote_amount wit_buy = 1000" "eq_base_amount wit_buy = 10"
  "eq_kind wit_sell = CEX" "eq_chain wit_sell = None" "eq_venue wit_sell = ''coinbase''" "eq_fully_fillable wit_sell"
  "eq_slippage_pct wit_sell = 0" "eq_price_impact_pct wit_sell = 0" "eq_market_ts_ms wit_sell = 1000"
  "eq_quote_ts_ms wit_sell = 1000" "eq_quote_amount wit_sell = 1200" "eq_base_amount wit_sell = 10"
  by (simp_all add: wit_buy_def wit_sell_def demo_leg_def)

lemma wit_profit: "route_profit wit_view wit_ctx wit_route ''USDC'' wit_buy wit_sell 10 20 None = profit_assess demo_inputs 1500"
proof -
  have "route_gas wit_view app_defaults wit_route wit_buy wit_sell 10 = None"
    by (simp add: route_gas_def dex_legs_def Let_def)
  moreover have "loan_terms wit_view app_defaults wit_route wit_buy wit_sell 10 = (None, [])" by (simp add: loan_terms_def)
  moreover have "extra_buffer_pct (cx_experience wit_ctx) k = 0" for k
    by (simp add: wit_ctx_def demo_ctx_def extra_buffer_pct_def)
  ultimately show ?thesis by (simp add: route_profit_def guard_inputs_def demo_inputs_def is_carry_def wit_buy_def wit_sell_def)
qed

lemma wit_portfolio:
  "po_total_capital_usd (portfolio_of wit_view wit_ctx) = 8000" "po_open_trades (portfolio_of wit_view wit_ctx) = 0"
  "po_exposure_by_venue_usd (portfolio_of wit_view wit_ctx) = [(''coinbase'', 1000)]"
  "po_exposure_by_asset_usd (portfolio_of wit_view wit_ctx) = [(''BTC'', 1000)]"
  "po_daily_realized_pnl_usd (portfolio_of wit_view wit_ctx) = 0" "po_failed_trades_last_hour (portfolio_of wit_view wit_ctx) = 0"
  "po_unhedged_seconds (portfolio_of wit_view wit_ctx) = 0"
  "po_venue_health (portfolio_of wit_view wit_ctx) = [(''kraken'', HEALTHY), (''coinbase'', HEALTHY)]"
  "po_available_balances (portfolio_of wit_view wit_ctx) = [((''kraken'', ''USDC''), 5000), ((''coinbase'', ''BTC''), 50)]"
  by (simp_all add: portfolio_of_def wit_ctx_def demo_ctx_def new_inventory_def new_line_def inv_total_usd_def vals_def keys_def
      exposure_by_def unhedged_seconds_def share_chain_balances_def balances_map_def inv_available_def reserved_for_def
      reserved_amounts_def List.map_filter_simps dget_def dsum_def wit_view_def dec_defs dround_eval Let_def demo_venue_def)

lemma wit_no_breakers: "route_breakers wit_ctx wit_route bq sq = []"
  by (simp add: route_breakers_def breaker_blocks_def active_breakers_def new_manager_def vals_def)

lemma wit_capital: "pa_capital_required (profit_assess demo_inputs 1500) = 1024"
  by (simp add: profit_assess_def Let_def demo_economics capital_required_def demo_expected demo_fields no_costs_def
      dec_defs dround_eval)

lemma trunc_int_min: "0 \<le> n \<Longrightarrow> trunc_int (min (of_int n) x) \<le> n"
  by (cases "x \<le> of_int n") (auto simp: trunc_int_def min_def floor_le_iff ceiling_le_iff)

lemma wit_risk: "ra_reasons (route_risk wit_view wit_ctx wit_route ''BTC'' ''USDC'' wit_buy wit_sell 10 20 1024) = []"
proof -
  define q where "q = \<lparr>rq_strategy = CEX_CEX, rq_buy = wit_buy, rq_sell = wit_sell, rq_base = ''BTC'', rq_quote = ''USDC'',
      rq_notional_usd = 200, rq_capital_required_usd = 1024, rq_gas_usd = 0, rq_flash_loan_usd = None\<rparr>"
  define p where "p = (portfolio_of wit_view wit_ctx)\<lparr>po_active_breakers := []\<rparr>"
  have "route_gas wit_view app_defaults wit_route wit_buy wit_sell 10 = None"
    by (simp add: route_gas_def dex_legs_def Let_def)
  moreover have "dmul 10 20 = 200" by (simp add: dec_defs dround_eval)
  ultimately have r: "route_risk wit_view wit_ctx wit_route ''BTC'' ''USDC'' wit_buy wit_sell 10 20 1024 = risk_assess app_defaults q p 1500"
    by (simp add: route_risk_def q_def p_def wit_no_breakers loan_terms_def dedup_def)
  have qs: "rq_strategy q = CEX_CEX" "rq_buy q = wit_buy" "rq_sell q = wit_sell" "rq_base q = ''BTC''" "rq_quote q = ''USDC''"
      "rq_notional_usd q = 200" "rq_capital_required_usd q = 1024" "rq_gas_usd q = 0" "rq_flash_loan_usd q = None"
    by (simp_all add: q_def)
  have ps: "po_active_breakers p = []" "po_total_capital_usd p = 8000" "po_open_trades p = 0"
      "po_exposure_by_venue_usd p = [(''coinbase'', 1000)]" "po_exposure_by_asset_usd p = [(''BTC'', 1000)]"
      "po_daily_realized_pnl_usd p = 0" "po_failed_trades_last_hour p = 0" "po_unhedged_seconds p = 0"
      "po_venue_health p = [(''kraken'', HEALTHY), (''coinbase'', HEALTHY)]"
      "po_available_balances p = [((''kraken'', ''USDC''), 5000), ((''coinbase'', ''BTC''), 50)]"
    by (simp_all add: p_def wit_portfolio)
  have v: "rq_venues q = [''kraken'', ''coinbase'']" by (simp add: rq_venues_def qs dedup_def)
  have "small_test_reasons app_defaults q = []" by (simp add: small_test_reasons_def app_defaults_def general_defaults_def Let_def)
  moreover have "hard_limit_reasons app_defaults q p = []"
    by (simp add: hard_limit_reasons_def qs ps app_defaults_def trading_defaults_def risk_defaults_def dec_defs dround_eval Let_def)
  moreover have "exposure_reasons app_defaults q p = []"
    by (simp add: exposure_reasons_def qs ps v app_defaults_def risk_defaults_def is_carry_def dget_def pct_def
        dec_defs dround_eval Let_def)
  moreover have "eq_fee_pct wit_buy = Some (24/10)" by (simp add: wit_buy_def demo_leg_def)
  then have "balance_reasons app_defaults q p = []"
    by (simp add: balance_reasons_def balance_reason_def need_quote_def need_on_sell_def qs ps dec_defs dround_eval)
  moreover have "health_reasons app_defaults q p = []"
    by (simp add: health_reasons_def v ps health_of_def dget_def)
  moreover have "slippage_total q = 0" by (simp add: slippage_total_def qs)
  moreover have "risk_score app_defaults q p 1500 \<le> 60"
  proof -
    have u: "usage_score app_defaults q p \<le> 30"
      using trunc_int_min [of 30] by (simp add: usage_score_def Let_def)
    have h: "health_score app_defaults q p = 0"
      by (simp add: health_score_def v ps health_of_def dget_def degraded_ok_def)
    have sl: "slippage_total q = 0" by (simp add: slippage_total_def qs)
    have z: "trunc_int (min 25 (dmul (ddiv 0 x) 25)) = 0" for x by (simp add: dec_defs dround_eval trunc_int_def)
    have "\<exists>x. risk_score app_defaults q p 1500 = max 0 (min 100 (usage_score app_defaults q p + trunc_int (min 15 x)))"
      unfolding risk_score_def Let_def sl qs h z strategy_score_def by (auto simp del: min.bounded_iff)
    then obtain x where x: "risk_score app_defaults q p 1500 = max 0 (min 100 (usage_score app_defaults q p + trunc_int (min 15 x)))" ..
    have "trunc_int (min 15 x) \<le> 15" using trunc_int_min [of 15 x] by simp
    with u show ?thesis unfolding x by linarith
  qed
  moreover have "ts_max_risk_score (s_trading app_defaults) = 60" "rs_max_slippage_pct (s_risk app_defaults) = 30/100"
    by (simp_all add: app_defaults_def trading_defaults_def risk_defaults_def)
  ultimately show ?thesis unfolding r by (simp add: risk_assess_def Let_def not_less)
qed

definition wit_opp :: opportunity where
  "wit_opp = assess_route wit_view wit_ctx wit_route ''BTC'' ''USDC'' wit_buy wit_sell 10 20 [] None"

lemma wit_assessed:
  "evaluate wit_view wit_ctx wit_route (Some 10) = Inr (Some wit_opp, []) \<and> op_decision wit_opp = SAFE_TO_EXECUTE"
proof -
  have lq: "leg_quote wit_view (demo_venue ''kraken'') ''BTC/USDC'' BUY 10 = Some wit_buy"
      "leg_quote wit_view (demo_venue ''coinbase'') ''BTC/USDC'' SELL 10 = Some wit_sell"
    by (simp_all add: leg_quote_def book_or_fetch_def wit_view_def)
  define o1 where "o1 = assess_route wit_view wit_ctx wit_route ''BTC'' ''USDC'' wit_buy wit_sell 10 20 [] None"
  have m: "dmul 10 20 = 200" by (simp add: dec_defs dround_eval)
  have e: "evaluate wit_view wit_ctx wit_route (Some 10) = Inr (Some o1, [])"
    by (simp add: evaluate_def wit_split price_and_assess_def is_carry_def lq o1_def m Let_def app_defaults_def trading_defaults_def)
  have "pa_reasons (profit_assess demo_inputs 1500) = []" using demo_safe by (simp add: profit_reasons_Nil)
  moreover have "slippage_check (s_slippage app_defaults) wit_buy r 200 ''BTC'' = []"
      "slippage_check (s_slippage app_defaults) wit_sell r 200 ''BTC'' = []" for r
    by (simp_all add: slippage_check_def slippage_limit_for_def tier_limit_for_def cap_by_def slippage_defaults_def app_defaults_def
        dec_defs dround_eval Let_def split: option.split)
  moreover have "latency_check (max_quote_age wit_ctx) [wit_buy, wit_sell] None 1500 = []"
    by (simp add: latency_check_def max_quote_age_def app_defaults_def trading_defaults_def risk_defaults_def Let_def)
  ultimately have "op_decision o1 = SAFE_TO_EXECUTE"
    by (simp add: o1_def assess_route_def wit_profit wit_capital wit_risk wit_no_breakers loan_terms_def m Let_def dex_legs_def)
      (simp add: dedup_def app_defaults_def general_defaults_def)
  with e show ?thesis by (simp add: o1_def wit_opp_def)
qed

lemma wit_evaluate:
  obtains o1 where "evaluate wit_view wit_ctx wit_route (Some 10) = Inr (Some o1, [])" "op_decision o1 = SAFE_TO_EXECUTE"
  using wit_assessed that by blast

theorem safe_passes_every_guard_witness:
  "\<exists>o1. evaluate wit_view wit_ctx wit_route (Some 10) = Inr (Some o1, []) \<and> ra_passed (op_risk o1) \<and>
     pa_decision (op_profit o1) = SAFE_TO_EXECUTE"
proof -
  obtain o1 where o1: "evaluate wit_view wit_ctx wit_route (Some 10) = Inr (Some o1, [])" "op_decision o1 = SAFE_TO_EXECUTE"
    by (rule wit_evaluate)
  from safe_passes_every_guard [OF this] o1(1) show ?thesis unfolding clear_route_def Let_def by blast
qed

theorem unasked_breakers_block_nothing_witness:
  "route_breakers (wit_ctx\<lparr>cx_breakers := fst (trip (cx_breakers wit_ctx) VENUE_DOWN (Msg ''m'' []) ''strategy:carry'' True 5)\<rparr>)
     wit_route wit_buy wit_sell = route_breakers wit_ctx wit_route wit_buy wit_sell \<and>
   route_breakers (wit_ctx\<lparr>cx_breakers := fst (trip (cx_breakers wit_ctx) VENUE_DOWN (Msg ''m'' []) (''chain:'' @ chain_value BASE) True 5)\<rparr>)
     wit_route (wit_buy\<lparr>eq_chain := Some SOLANA\<rparr>) (wit_sell\<lparr>eq_chain := Some BASE\<rparr>) =
   route_breakers wit_ctx wit_route (wit_buy\<lparr>eq_chain := Some SOLANA\<rparr>) (wit_sell\<lparr>eq_chain := Some BASE\<rparr>)"
proof -
  have "manager_wf (cx_breakers wit_ctx)" by (simp add: manager_wf_new)
  from unasked_breakers_block_nothing [OF this, of VENUE_DOWN "Msg ''m'' []" True 5 wit_route wit_buy wit_sell]
    unasked_breakers_block_nothing [OF this, of VENUE_DOWN "Msg ''m'' []" True 5 wit_route
      "wit_buy\<lparr>eq_chain := Some SOLANA\<rparr>" "wit_sell\<lparr>eq_chain := Some BASE\<rparr>" SOLANA BASE]
  show ?thesis by auto
qed

definition wit_os :: "opportunity list" where
  "wit_os = (let o1 = assess_route wit_view wit_ctx wit_route ''BTC'' ''USDC'' wit_buy wit_sell 10 20 [] None in [o1, o1])"

theorem one_executable_per_route_witness:
  "\<not> (op_decision (annotate wit_os ! 0) = SAFE_TO_EXECUTE \<and> op_decision (annotate wit_os ! 1) = SAFE_TO_EXECUTE)"
  using one_executable_per_route [of 0 wit_os 1] by (simp add: wit_os_def Let_def)

definition wit_engine :: opp_engine where
  "wit_engine = \<lparr>oe_latest =
     (let o1 = assess_route wit_view wit_ctx wit_route ''BTC'' ''USDC'' wit_buy wit_sell 10 20 [] None
      in [(''weak'', o1\<lparr>op_profit := (op_profit o1)\<lparr>pa_worst_case_profit := 1\<rparr>\<rparr>),
          (''strong'', o1\<lparr>op_profit := (op_profit o1)\<lparr>pa_worst_case_profit := 2\<rparr>\<rparr>)]),
     oe_scan_count = 1, oe_last_scan_ms = 1500, oe_last_scan_duration_ms = 1\<rparr>"

lemma wit_expires:
  "op_expires_at_ms (assess_route wit_view wit_ctx wit_route b q wit_buy wit_sell a px pre ca) = 1500 + as_opportunity_ttl_ms (s_advanced app_defaults)"
  by (simp add: assess_route_def Let_def)

lemma wit_engine_decision:
  "o1 \<in> set (ranked wit_engine now) \<Longrightarrow>
     op_decision o1 = op_decision (assess_route wit_view wit_ctx wit_route ''BTC'' ''USDC'' wit_buy wit_sell 10 20 [] None)"
  by (auto simp: ranked_def wit_engine_def Let_def vals_def split: if_splits)

theorem ranked_order_witness:
  "pa_worst_case_profit (op_profit (ranked wit_engine 1500 ! 1)) \<le> pa_worst_case_profit (op_profit (ranked wit_engine 1500 ! 0))"
proof -
  have "drepr 1" "drepr 2" unfolding drepr_def fits_def
    by (intro exI [of _ 1] exI [of _ 0], simp) (intro exI [of _ 2] exI [of _ 0], simp)
  then have "\<forall>o1 \<in> set (vals (oe_latest wit_engine)). drepr (pa_worst_case_profit (op_profit o1))"
    by (auto simp: wit_engine_def Let_def vals_def)
  moreover have "0 < as_opportunity_ttl_ms (s_advanced app_defaults)" by (simp add: app_defaults_def advanced_defaults_def)
  then have l: "1 < length (ranked wit_engine 1500)"
    by (simp add: ranked_def wit_engine_def Let_def vals_def wit_expires)
  moreover have "op_decision (ranked wit_engine 1500 ! 0) = op_decision (ranked wit_engine 1500 ! 1)"
    by (simp only: wit_engine_decision [OF nth_mem [OF l]] wit_engine_decision [OF nth_mem [OF less_trans [OF zero_less_one l]]])
  ultimately show ?thesis using ranked_order [of 0 1 wit_engine 1500] by simp
qed

definition capped_ctx :: engine_ctx where
  "capped_ctx = wit_ctx\<lparr>cx_inventory := new_inventory\<lparr>im_lines :=
     [((''kraken'', ''USDC''), (new_line ''kraken'' ''USDC'' ''cex'')\<lparr>il_available := 5000, il_usd_value := Some 7000\<rparr>),
      ((''coinbase'', ''BTC''), (new_line ''coinbase'' ''BTC'' ''cex'')\<lparr>il_available := 10, il_usd_value := Some 1000\<rparr>)]\<rparr>\<rparr>"

lemma capped_available:
  "inv_available (cx_inventory capped_ctx) ''kraken'' ''USDC'' = 5000"
  "inv_available (cx_inventory capped_ctx) ''coinbase'' ''BTC'' = 10"
  "cx_settings capped_ctx = app_defaults"
  by (simp_all add: capped_ctx_def new_inventory_def inv_available_def reserved_for_def reserved_amounts_def
      new_line_def vals_def dsum_def dec_defs dround_eval)

lemma capped_target: "target_usd app_defaults wit_route (portfolio_of wit_view capped_ctx) = 250"
proof -
  have "inv_available (cx_inventory capped_ctx) (chain_value ch) a = 0" for ch a
    by (cases ch) (simp_all add: capped_ctx_def new_inventory_def inv_available_def reserved_for_def reserved_amounts_def
        new_line_def vals_def dsum_def dec_defs dround_eval)
  then have "gas_reserve_usd wit_view capped_ctx = foldl (\<lambda>acc _. acc) 0 (gas_gas_reserve (s_gas (cx_settings capped_ctx)))"
    unfolding gas_reserve_usd_def by (intro foldl_cong) (auto simp: Let_def split: option.split)
  moreover have "foldl (\<lambda>acc _. acc) x ys = x" for x :: decimal and ys :: "(string, decimal) dict" by (induction ys) auto
  ultimately have "gas_reserve_usd wit_view capped_ctx = 0" by simp
  moreover have "inv_total_usd (cx_inventory capped_ctx) = 8000"
    by (simp add: capped_ctx_def inv_total_usd_def new_inventory_def new_line_def vals_def dsum_def dec_defs dround_eval)
  ultimately have "250 \<le> ddiv (dmul (po_usable_capital_usd (portfolio_of wit_view capped_ctx)) (rs_max_capital_usage_pct (s_risk app_defaults))) 100"
    by (simp add: portfolio_of_def Let_def capital_breakdown_def capped_available app_defaults_def risk_defaults_def
        dec_defs dround_eval)
  then show ?thesis
    by (simp add: target_usd_def app_defaults_def trading_defaults_def)
qed

lemma capped_pick:
  "\<exists>n. pick_size wit_view capped_ctx wit_route 20 (portfolio_of wit_view capped_ctx) =
     Inr \<lparr>sz_amount = 10, sz_notes = [n], sz_blocked = [(''coinbase'', ''BTC'')]\<rparr>"
proof -
  have "depth_cap wit_view capped_ctx wit_route b q t v sd z = Inr z" if "vr_kind v = CEX" for b q t v sd z
    using that by (simp add: depth_cap_def wit_view_def)
  moreover have ms: "market_step wit_route = 1/1000"
    by (simp add: market_step_def market_of_def demo_venue_def demo_market_def)
  ultimately show ?thesis
    by (simp add: ms pick_size_def wit_split capped_available capped_target inventory_caps_def Let_def cap_size_def
        floor_to_step_def trunc_int_def dec_defs dround_eval)
qed
theorem capped_size_is_blocked_witness:
  "\<exists>o1 bl. evaluate wit_view capped_ctx wit_route None = Inr (Some o1, bl) \<and> op_decision o1 = BLOCKED"
proof -
  obtain n where z: "pick_size wit_view capped_ctx wit_route 20 (portfolio_of wit_view capped_ctx) =
      Inr \<lparr>sz_amount = 10, sz_notes = [n], sz_blocked = [(''coinbase'', ''BTC'')]\<rparr>" using capped_pick ..
  have "leg_quote wit_view (demo_venue ''kraken'') ''BTC/USDC'' BUY 10 = Some wit_buy"
      "leg_quote wit_view (demo_venue ''coinbase'') ''BTC/USDC'' SELL 10 = Some wit_sell"
    by (simp_all add: leg_quote_def book_or_fetch_def wit_view_def)
  moreover have "dmul 10 20 = 200" by (simp add: dec_defs dround_eval)
  ultimately obtain o1 where e: "evaluate wit_view capped_ctx wit_route None = Inr (Some o1, [(''coinbase'', ''BTC'')])"
    by (simp add: evaluate_def wit_split z price_and_assess_def is_carry_def Let_def capped_available app_defaults_def
        trading_defaults_def)
  have "op_decision o1 = BLOCKED"
    by (rule capped_size_is_blocked [OF e _ _ _ z, of "''BTC''" "''USDC''"]) (simp_all add: wit_split)
  with e show ?thesis by blast
qed

theorem pick_size_caps_witness:
  "\<exists>z raw. pick_size wit_view capped_ctx wit_route 20 (portfolio_of wit_view capped_ctx) = Inr z \<and>
     sz_amount z = floor_to_step (max 0 raw) (market_step wit_route) \<and> raw \<le> 10"
proof -
  obtain n where z: "pick_size wit_view capped_ctx wit_route 20 (portfolio_of wit_view capped_ctx) =
      Inr \<lparr>sz_amount = 10, sz_notes = [n], sz_blocked = [(''coinbase'', ''BTC'')]\<rparr>" using capped_pick ..
  from pick_size_caps [OF z, of "''BTC''" "''USDC''"] z show ?thesis
    by (auto simp: wit_split capped_available capped_target)
qed

end
