(* ===== verification/Paper_Executor.thy ===== *)
theory Paper_Executor
  imports Strategies Execution Orderbook Gas_Guard
begin

text \<open>
  Model of \<^verbatim>\<open>backend/fedr/engine/execution/paper_executor.py\<close>: the simulation of one leg against a
  freshly fetched book or router quote, with latency, random rejection, adverse drift, thinned
  depth and partial fills, settled on the paper ledger. The random draws, the answers of the venue
  and the clock are the record \<open>paper_env\<close>. The record of the order in the venue's health tracker is
  the last component of a result. The ledger operations of the branch never raise, so its
  \<open>except ValueError\<close> has no case here.
\<close>

subsection \<open>State and environment\<close>

record paper_env =
  pe_order_id :: string
  pe_now_ms :: int
  pe_jitter_ms :: int
  pe_draw_failure :: rat
  pe_draw_partial :: rat
  pe_book :: "message + order_book"
  pe_requote :: "message + execution_quote"
  pe_gas :: "chain \<Rightarrow> gas_snapshot option"
  pe_has_gas_guard :: bool

record sim_fill =
  sf_base :: decimal
  sf_price :: decimal
  sf_gas_usd :: decimal
  sf_gas_native :: decimal

definition no_fill :: sim_fill where
  "no_fill = \<lparr>sf_base = 0, sf_price = 0, sf_gas_usd = 0, sf_gas_native = 0\<rparr>"

definition ledger_venue :: "venue_ref \<Rightarrow> string" where
  "ledger_venue c = (case (vr_kind c, vr_chain c) of (DEX, Some ch) \<Rightarrow> chain_value ch | _ \<Rightarrow> vr_name c)"

definition adverse_factor :: "order_side \<Rightarrow> decimal \<Rightarrow> decimal" where
  "adverse_factor side drift = (if side = BUY then dadd 1 drift else dsub 1 drift)"

subsection \<open>Filling against the levels of a book\<close>

definition beyond_limit :: "order_side \<Rightarrow> decimal option \<Rightarrow> decimal \<Rightarrow> bool" where
  "beyond_limit side limit px \<longleftrightarrow>
     (case limit of None \<Rightarrow> False | Some l \<Rightarrow> side = BUY \<and> l < px \<or> side = SELL \<and> px < l)"

fun paper_loop ::
  "order_side \<Rightarrow> decimal option \<Rightarrow> decimal \<Rightarrow> level list \<Rightarrow> decimal \<Rightarrow> decimal \<Rightarrow> decimal \<Rightarrow> decimal \<times> decimal" where
  \<comment> \<open>remaining, filled and cost are the loop variables\<close>
  "paper_loop side limit adverse [] rem filled cost = (filled, cost)"
| "paper_loop side limit adverse (lv # ls) rem filled cost =
     (let px = dmul (lv_price lv) adverse in
      if beyond_limit side limit px then (filled, cost)
      else let take = min (lv_amount lv) rem; filled1 = dadd filled take;
               cost1 = dadd cost (dmul take px); rem1 = dsub rem take
           in if rem1 \<le> 0 then (filled1, cost1) else paper_loop side limit adverse ls rem1 filled1 cost1)"

definition book_fill :: "order_book \<Rightarrow> order_request \<Rightarrow> decimal \<Rightarrow> decimal \<Rightarrow> sim_fill" where
  "book_fill book0 req stress adverse =
     (let book = apply_stress book0 stress;
          (filled, cost) = paper_loop (or_side req) (or_limit_price req) adverse (side_levels book (or_side req))
            (or_amount req) 0 0
      in if filled \<le> 0 then no_fill
         else no_fill\<lparr>sf_base := filled, sf_price := ddiv cost filled\<rparr>)"

subsection \<open>Filling against a router\<close>

definition gas_cost :: "paper_env \<Rightarrow> venue_ref \<Rightarrow> execution_quote \<Rightarrow> decimal \<Rightarrow> decimal \<times> decimal" where
  "gas_cost env c q stress =
     (case Option.bind (vr_chain c) (pe_gas env) of
        None \<Rightarrow> (0, 0)
      | Some snap \<Rightarrow>
          if \<not> pe_has_gas_guard env then (0, 0)
          else let usd = dmul (estimate_cost_usd snap
                     (case eq_gas_limit q of Some l \<Rightarrow> if l = 0 then 300000 else l | None \<Rightarrow> 300000) None) stress
               in (usd, if 0 < gsn_native_usd snap then ddiv usd (gsn_native_usd snap) else 0))"

definition router_fill ::
  "paper_env \<Rightarrow> venue_ref \<Rightarrow> order_request \<Rightarrow> execution_quote \<Rightarrow> execution_quote \<Rightarrow> decimal \<Rightarrow> decimal \<Rightarrow> sim_fill" where
  "router_fill env c req q fresh stress adverse =
     (if \<not> eq_fully_fillable fresh \<or> eq_avg_price fresh \<le> 0 then no_fill
      else
        let extra = ddiv (dmul (eq_price_impact_pct fresh) (dsub stress 1)) 100;
            px = dmul (dmul (eq_avg_price fresh) adverse)
                   (if or_side req = BUY then dadd 1 extra else dsub 1 extra)
        in if or_side req = SELL \<and> (case or_min_received req of Some m \<Rightarrow> dmul px (or_amount req) < m | None \<Rightarrow> False)
             then no_fill
           else if or_side req = BUY \<and> (case or_limit_price req of Some l \<Rightarrow> l < px | None \<Rightarrow> False) then no_fill
           else let (usd, native) = gas_cost env c q stress
                in \<lparr>sf_base = or_amount req, sf_price = px, sf_gas_usd = usd, sf_gas_native = native\<rparr>)"

definition simulate_fill ::
  "paper_env \<Rightarrow> venue_ref \<Rightarrow> order_request \<Rightarrow> execution_quote \<Rightarrow> decimal \<Rightarrow> decimal \<Rightarrow> message + sim_fill" where
  "simulate_fill env c req q stress drift =
     (let adverse = adverse_factor (or_side req) drift in
      if vr_kind c = DEX
      then (case pe_requote env of
              Inl e \<Rightarrow> Inl e
            | Inr fresh \<Rightarrow> Inr (router_fill env c req q fresh stress adverse))
      else (case pe_book env of
              Inl e \<Rightarrow> Inl e
            | Inr book \<Rightarrow> Inr (book_fill book req stress adverse)))"

subsection \<open>Execution of a leg\<close>

definition partial_amount :: "paper_settings \<Rightarrow> paper_env \<Rightarrow> order_request \<Rightarrow> decimal \<Rightarrow> decimal result" where
  "partial_amount ps env req filled =
     bind_result
       (if or_amount req \<le> filled \<and> pe_draw_partial env < fround (ps_partial_fill_probability ps)
        then quantize (dmul (or_amount req) (ps_fill_ratio_on_partial ps)) 8
        else Inr filled) (\<lambda>x. Inr (min x (or_amount req)))"

definition leg_fee :: "venue_ref \<Rightarrow> execution_quote \<Rightarrow> decimal \<Rightarrow> decimal" where
  "leg_fee c q quote_amount =
     (if vr_kind c \<noteq> DEX
      then ddiv (dmul quote_amount (case eq_fee_pct q of Some f \<Rightarrow> f | None \<Rightarrow> 0)) 100 else 0)"

definition settle_leg ::
  "venue_ref \<Rightarrow> order_request \<Rightarrow> string \<Rightarrow> string \<Rightarrow> decimal \<Rightarrow> decimal \<Rightarrow> decimal \<Rightarrow> decimal \<Rightarrow> paper_ledger \<Rightarrow> paper_ledger" where
  "settle_leg c req base quote fill_base quote_amount fee native l =
     (let lv = ledger_venue c;
          l1 = (if vr_kind c = PERP then settle_perp l lv quote (or_side req) quote_amount fee (or_reduce_only req)
                else settle_fill l lv base quote (or_side req) fill_base quote_amount fee True)
      in case (vr_kind c, vr_chain c) of
           (DEX, Some ch) \<Rightarrow> if 0 < native then charge_gas l1 lv (native_token ch) native else l1
         | _ \<Rightarrow> l1)"

definition dead_leg :: "paper_env \<Rightarrow> order_request \<Rightarrow> order_status \<Rightarrow> message \<Rightarrow> order_result" where
  "dead_leg env req st why =
     (new_result req (pe_order_id env) st (pe_now_ms env))
       \<lparr>res_error := Some why, res_completed_at_ms := Some (pe_now_ms env)\<rparr>"

definition filled_leg ::
  "paper_env \<Rightarrow> venue_ref \<Rightarrow> order_request \<Rightarrow> string \<Rightarrow> decimal \<Rightarrow> decimal \<Rightarrow> decimal \<Rightarrow> decimal \<Rightarrow> order_result" where
  "filled_leg env c req quote fill_base price fee gas_usd =
     (new_result req (pe_order_id env) (if or_amount req \<le> fill_base then FILLED else PARTIALLY_FILLED) (pe_now_ms env))
       \<lparr>res_filled := fill_base, res_avg_price := Some price, res_fee_quote := fee, res_gas_cost_usd := gas_usd,
        res_completed_at_ms := Some (pe_now_ms env),
        res_fills := [\<lparr>fl_order_id = pe_order_id env, fl_venue = vr_name c, fl_symbol = or_symbol req,
          fl_side = or_side req, fl_amount = fill_base, fl_price = price, fl_fee_amount = fee, fl_fee_asset = quote,
          fl_ts_ms = pe_now_ms env, fl_trade_id = None,
          fl_tx_hash = (if vr_kind c = DEX then Some (''paper-'' @ pe_order_id env) else None),
          fl_gas_used = None, fl_gas_cost_usd = Some gas_usd\<rparr>]\<rparr>"

definition latency_ms :: "paper_settings \<Rightarrow> paper_env \<Rightarrow> int" where
  \<comment> \<open>how long the leg sleeps before it reads the market\<close>
  "latency_ms ps env = max 0 (ps_latency_ms ps + pe_jitter_ms env)"

definition execute_leg ::
  "paper_settings \<Rightarrow> paper_env \<Rightarrow> venue_ref \<Rightarrow> order_request \<Rightarrow> execution_quote \<Rightarrow> paper_ledger \<Rightarrow>
   paper_ledger \<times> leg_answer \<times> bool option" where
  \<comment> \<open>\<open>Inl\<close> is an exception; the last component is what the health tracker records\<close>
  "execute_leg ps env c req q l =
     (case split_pair (asset_head (or_symbol req)) of
        Inl e \<Rightarrow> (l, Inl (Msg ''bad symbol'' [AStr (or_symbol req)]), None)
      | Inr (base, quote) \<Rightarrow>
          if pe_draw_failure env < fround (ps_failure_probability ps)
          then (l, Inr (dead_leg env req REJECTED (Msg ''simulated venue rejection'' [])), Some False)
          else (case simulate_fill env c req q (ps_stress_multiplier ps) (ddiv (ps_quote_drift_pct ps) 100) of
            Inl e \<Rightarrow> (l, Inl e, None)
          | Inr sf \<Rightarrow>
              if sf_base sf \<le> 0
              then (l, Inr (dead_leg env req CANCELLED (Msg ''IOC not fillable within limit price'' [])), Some False)
              else (case partial_amount ps env req (sf_base sf) of
                Inl e \<Rightarrow> (l, Inl (Msg ''invalid operation'' []), None)
              | Inr fill_base \<Rightarrow>
                  let quote_amount = dmul fill_base (sf_price sf); fee = leg_fee c q quote_amount
                  in (settle_leg c req base quote fill_base quote_amount fee (sf_gas_native sf) l,
                      Inr (filled_leg env c req quote fill_base (sf_price sf) fee (sf_gas_usd sf)), Some True))))"


subsection \<open>The loop is a walk\<close>

definition reachable :: "order_side \<Rightarrow> decimal option \<Rightarrow> decimal \<Rightarrow> level list \<Rightarrow> level list" where
  \<comment> \<open>the drifted levels before the first one beyond the limit\<close>
  "reachable side limit adverse ls =
     takeWhile (\<lambda>l. \<not> beyond_limit side limit (lv_price l)) (map (\<lambda>l. l\<lparr>lv_price := dmul (lv_price l) adverse\<rparr>) ls)"

lemma walk_loop_done: "ws_remaining s \<le> 0 \<Longrightarrow> walk_loop ls s = s"
  by (cases ls) simp_all

lemma paper_loop_walk:
  assumes "0 < ws_remaining s"
  shows "paper_loop side limit adverse ls (ws_remaining s) (ws_filled s) (ws_quote s) =
    (let w = walk_loop (reachable side limit adverse ls) s in (ws_filled w, ws_quote w))"
  using assms
proof (induction ls arbitrary: s)
  case Nil
  show ?case by (simp add: reachable_def)
next
  case (Cons l ls)
  define px where "px = dmul (lv_price l) adverse"
  define t where "t = min (lv_amount l) (ws_remaining s)"
  define s1 where "s1 = \<lparr>ws_remaining = dsub (ws_remaining s) t, ws_quote = dadd (ws_quote s) (dmul t px),
    ws_filled = dadd (ws_filled s) t, ws_levels = ws_levels s + 1, ws_last = px\<rparr>"
  have s1: "ws_remaining s1 = dsub (ws_remaining s) t" "ws_filled s1 = dadd (ws_filled s) t"
      "ws_quote s1 = dadd (ws_quote s) (dmul t px)"
    by (simp_all add: s1_def)
  show ?case
  proof (cases "beyond_limit side limit px")
    case True
    then show ?thesis by (simp add: reachable_def px_def Let_def)
  next
    case False
    then have r: "walk_loop (reachable side limit adverse (l # ls)) s = walk_loop (reachable side limit adverse ls) s1"
      using Cons.prems by (simp add: reachable_def px_def s1_def t_def Let_def)
    show ?thesis
      using Cons.IH [of s1] False unfolding r
      by (cases "ws_remaining s1 \<le> 0")
        (simp_all add: px_def [symmetric] t_def [symmetric] s1 [symmetric] walk_loop_done Let_def)
  qed
qed

lemma reachable_within: "l \<in> set (reachable side limit adverse ls) \<Longrightarrow> \<not> beyond_limit side limit (lv_price l)"
  unfolding reachable_def by (auto dest: set_takeWhileD)

lemma book_fill_exact:
  assumes "L = reachable (or_side req) (or_limit_price req) adverse (side_levels (apply_stress book stress) (or_side req))"
    and "exact_book ka kp L" and "0 < or_amount req" and "on_grid ka (or_amount req)"
  shows "sf_base (book_fill book req stress adverse) = min (or_amount req) (amounts L)"
    and "L \<noteq> [] \<Longrightarrow> sf_price (book_fill book req stress adverse) =
      ddiv (snd (greedy L (or_amount req))) (min (or_amount req) (amounts L))"
proof -
  define s where "s = \<lparr>ws_remaining = or_amount req, ws_quote = 0, ws_filled = 0, ws_levels = 0, ws_last = 0\<rparr>"
  have gl: "good_levels L" and gr: "list_all (\<lambda>l. on_grid ka (lv_amount l) \<and> on_grid kp (lv_price l)) L"
      and b: "amounts L * 10 ^ ka < 10 ^ 34" "notionals L * 10 ^ (ka + kp) < 10 ^ 34"
    using assms(2) by (auto simp: exact_book_def)
  have w: "ws_filled (walk_loop L s) = 0 + fst (greedy L (or_amount req)) \<and>
      ws_quote (walk_loop L s) = 0 + snd (greedy L (or_amount req)) \<and>
      ws_remaining (walk_loop L s) = or_amount req - fst (greedy L (or_amount req))"
    using walk_loop_exact [OF gl gr, of s] assms(3,4) b by (simp add: s_def)
  have f: "fst (greedy L (or_amount req)) = min (or_amount req) (amounts L)"
    using gl assms(3) by (simp add: greedy_filled)
  have p: "paper_loop (or_side req) (or_limit_price req) adverse (side_levels (apply_stress book stress) (or_side req))
      (or_amount req) 0 0 = (min (or_amount req) (amounts L), snd (greedy L (or_amount req)))"
    using paper_loop_walk [of s "or_side req" "or_limit_price req" adverse] assms(3) w f
    by (simp add: s_def assms(1) Let_def)
  have pos: "L \<noteq> [] \<Longrightarrow> 0 < amounts L"
    using gl by (cases L) (auto intro: add_pos_nonneg amounts_nonneg)
  show "sf_base (book_fill book req stress adverse) = min (or_amount req) (amounts L)"
    using amounts_nonneg [OF gl] assms(3) by (auto simp: book_fill_def p no_fill_def)
  show "L \<noteq> [] \<Longrightarrow> sf_price (book_fill book req stress adverse) =
      ddiv (snd (greedy L (or_amount req))) (min (or_amount req) (amounts L))"
    using pos assms(3) by (simp add: book_fill_def p no_fill_def)
qed

lemma greedy_nonneg: "good_levels ls \<Longrightarrow> 0 \<le> snd (greedy ls n)"
proof (induction ls arbitrary: n)
  case (Cons l ls)
  then have "0 \<le> snd (greedy ls m)" for m by simp
  with Cons.prems show ?case by (auto simp: Let_def)
qed simp

lemma paper_fill_limits:
  assumes "L = reachable (or_side req) (or_limit_price req) adverse (side_levels (apply_stress book stress) (or_side req))"
    and "exact_book ka kp L" and "0 < or_amount req" and "on_grid ka (or_amount req)"
    and "or_limit_price req = Some lim_px" and "drepr lim_px"
    and "sf = book_fill book req stress adverse"
  shows "sf_base sf = min (or_amount req) (amounts L) \<and>
    (0 < sf_base sf \<longrightarrow> sf_price sf = ddiv (snd (greedy L (or_amount req))) (sf_base sf) \<and>
       (if or_side req = BUY then sf_price sf \<le> lim_px else lim_px \<le> sf_price sf) \<and> 0 \<le> sf_price sf)"
proof (intro conjI impI)
  show base: "sf_base sf = min (or_amount req) (amounts L)"
    unfolding assms(7) by (rule book_fill_exact(1) [OF assms(1-4)])
  assume pos: "0 < sf_base sf"
  then have ne: "L \<noteq> []" using base by auto
  show price: "sf_price sf = ddiv (snd (greedy L (or_amount req))) (sf_base sf)"
    unfolding base unfolding assms(7) by (rule book_fill_exact(2) [OF assms(1-4) ne])
  have gl: "good_levels L" using assms(2) by (simp add: exact_book_def)
  have f: "fst (greedy L (or_amount req)) = sf_base sf" using gl assms(3) by (simp add: greedy_filled base)
  have within: "\<not> beyond_limit (or_side req) (Some lim_px) (lv_price l)" if "l \<in> set L" for l
    using that unfolding assms(1,5) by (rule reachable_within)
  show "if or_side req = BUY then sf_price sf \<le> lim_px else lim_px \<le> sf_price sf"
  proof (cases "or_side req")
    case BUY
    then have "\<forall>l \<in> set L. lv_price l \<le> lim_px" using within by (simp add: beyond_limit_def not_less)
    from greedy_le_price [OF gl this, of "or_amount req"]
    have "snd (greedy L (or_amount req)) \<le> sf_base sf * lim_px" by (simp only: f)
    then have "snd (greedy L (or_amount req)) / sf_base sf \<le> lim_px" using pos by (simp add: field_simps)
    then show ?thesis using BUY assms(6) by (simp add: price ddiv_def dec.rnd_le)
  next
    case SELL
    then have "\<forall>l \<in> set L. lim_px \<le> lv_price l" using within by (simp add: beyond_limit_def not_less)
    from greedy_ge_reference [OF gl this, of "or_amount req"]
    have "sf_base sf * lim_px \<le> snd (greedy L (or_amount req))" by (simp only: f)
    then have "lim_px \<le> snd (greedy L (or_amount req)) / sf_base sf" using pos by (simp add: field_simps)
    then show ?thesis using SELL assms(6) by (simp add: price ddiv_def dec.rnd_ge)
  qed
  show "0 \<le> sf_price sf" using greedy_nonneg [OF gl] pos by (simp add: price ddiv_nonneg)
qed

subsection \<open>Properties\<close>


text \<open>Every answer of a simulated leg: it is never filled beyond the requested amount, FILLED means
  filled completely, a rejected or cancelled leg has no fill and leaves the ledger untouched, and so
  does an exception; the health tracker counts exactly the answered orders.\<close>

theorem paper_leg_outcome:
  assumes "execute_leg ps env c req q l = (l', ans, h)" and "0 < or_amount req"
  shows "(\<forall>e. ans = Inl e \<longrightarrow> l' = l \<and> h = None) \<and>
    (\<forall>r. ans = Inr r \<longrightarrow>
       res_filled r \<le> or_amount req \<and> res_request r = req \<and>
       (res_status r = FILLED \<longleftrightarrow> res_filled r = or_amount req) \<and>
       (res_status r \<in> {REJECTED, CANCELLED} \<longrightarrow> res_filled r = 0 \<and> l' = l \<and> h = Some False) \<and>
       (res_status r \<in> {FILLED, PARTIALLY_FILLED} \<longleftrightarrow> h = Some True) \<and>
       res_status r \<in> {FILLED, PARTIALLY_FILLED, REJECTED, CANCELLED})"
  using assms
  by (auto simp: execute_leg_def dead_leg_def filled_leg_def new_result_def partial_amount_def bind_result_Inr_iff
      Let_def split: sum.splits if_splits prod.splits)


subsection \<open>A reservation covers its fill\<close>

text \<open>One rounding to 34 digits stays within these two factors of its argument.\<close>

definition round_over :: rat where
  "round_over = 1 + 1 / (2 * 10 ^ 33)"

definition round_under :: rat where
  "round_under = 1 - 1 / (2 * 10 ^ 33)"

lemma round_factors: "1 \<le> round_over" "0 \<le> round_over" "0 \<le> round_under" "round_under \<le> 1"
  by (simp_all add: round_over_def round_under_def)

lemma dround_error:
  assumes "0 \<le> x"
  shows "dround x \<le> x * round_over" and "x * round_under \<le> dround x"
proof -
  have "\<bar>dround x - x\<bar> * (2 * 10 ^ 33) \<le> x"
    using round_sig_relative_error [of 10 34 x] assms by (simp add: dround_def)
  then have "\<bar>dround x - x\<bar> \<le> x * (1 / (2 * 10 ^ 33))" by (simp add: field_simps)
  moreover have "x * round_over = x + x * (1 / (2 * 10 ^ 33))" "x * round_under = x - x * (1 / (2 * 10 ^ 33))"
    by (simp_all only: round_over_def round_under_def distrib_left right_diff_distrib mult_1_right)
  ultimately show "dround x \<le> x * round_over" "x * round_under \<le> dround x" by linarith+
qed

lemma dround_le_chain:
  assumes "0 \<le> x" and "x \<le> y * round_over ^ n" and "k = Suc n"
  shows "dround x \<le> y * round_over ^ k"
proof -
  have "dround x \<le> x * round_over" by (rule dround_error(1) [OF assms(1)])
  also have "\<dots> \<le> y * round_over ^ n * round_over" by (rule mult_right_mono [OF assms(2) round_factors(2)])
  finally show ?thesis by (simp only: assms(3) power_Suc2 mult.assoc)
qed

lemma dround_ge_chain:
  assumes "0 \<le> x" and "y * round_under ^ n \<le> x" and "k = Suc n"
  shows "y * round_under ^ k \<le> dround x"
proof -
  have "y * round_under ^ n * round_under \<le> x * round_under" by (rule mult_right_mono [OF assms(2) round_factors(3)])
  also have "\<dots> \<le> dround x" by (rule dround_error(2) [OF assms(1)])
  finally show ?thesis by (simp only: assms(3) power_Suc2 mult.assoc)
qed

lemma fill_cost_le:
  \<comment> \<open>q quoted amount, n size, t one plus the tolerance, f the fee in percent\<close>
  assumes "0 < n" "0 \<le> q" "0 \<le> t" "0 \<le> f" "0 \<le> m" "m \<le> n" "0 \<le> px" "px \<le> dmul (ddiv q n) t"
  shows "dadd (dmul m px) (ddiv (dmul (dmul m px) f) 100) \<le> q * t * (1 + f / 100) * round_over ^ 6"
proof -
  define R where "R = q * t"
  define Q where "Q = dmul m px"
  have R: "0 \<le> R" and Q0: "0 \<le> Q" using assms by (auto simp: R_def Q_def)
  have a: "ddiv q n \<le> q / n * round_over ^ 1" "0 \<le> ddiv q n"
    unfolding ddiv_def using assms(1,2) by (intro dround_le_chain [of _ _ 0] dec.rnd_nonneg; simp)+
  have "ddiv q n * t \<le> q / n * t * round_over ^ 1"
    using mult_right_mono [OF a(1) assms(3)] by (simp only: mult.assoc mult.commute [of "round_over ^ 1"])
  then have "dmul (ddiv q n) t \<le> q / n * t * round_over ^ 2"
    unfolding dmul_def using a(2) assms(3) by (intro dround_le_chain [of _ _ 1]) simp_all
  with assms(8) have "px \<le> q / n * t * round_over ^ 2" by simp
  then have "m * px \<le> n * (q / n * t * round_over ^ 2)" using assms by (intro mult_mono) simp_all
  also have "\<dots> = R * round_over ^ 2" using assms(1) by (simp add: R_def)
  finally have Q: "Q \<le> R * round_over ^ 3"
    unfolding Q_def dmul_def using assms(5,7) by (intro dround_le_chain [of _ _ 2]) simp_all
  have "Q * f \<le> R * f * round_over ^ 3"
    using mult_right_mono [OF Q assms(4)] by (simp only: mult.assoc mult.commute [of "round_over ^ 3"])
  then have "dmul Q f \<le> R * f * round_over ^ 4"
    unfolding dmul_def using Q0 assms(4) by (intro dround_le_chain [of _ _ 3]) simp_all
  then have "dmul Q f / 100 \<le> R * f / 100 * round_over ^ 4" by simp
  then have fee: "ddiv (dmul Q f) 100 \<le> R * f / 100 * round_over ^ 5"
    unfolding ddiv_def using Q0 assms(4) by (intro dround_le_chain [of _ _ 4]) (simp_all add: dmul_nonneg)
  have "R * round_over ^ 3 \<le> R * round_over ^ 5"
    using R round_factors(1) by (intro mult_left_mono power_increasing) simp_all
  moreover have "R * round_over ^ 5 + R * f / 100 * round_over ^ 5 = R * (1 + f / 100) * round_over ^ 5"
    by (simp only: distrib_left distrib_right mult_1_right times_divide_eq_right)
  ultimately have "Q + ddiv (dmul Q f) 100 \<le> R * (1 + f / 100) * round_over ^ 5" using Q fee by linarith
  then show ?thesis
    unfolding R_def [symmetric] Q_def [symmetric] dadd_def
    using Q0 assms(4) by (intro dround_le_chain [of _ _ 5]) (simp_all add: dmul_nonneg ddiv_nonneg)
qed

lemma reserved_ge:
  assumes "0 \<le> q" "0 \<le> t" "0 \<le> f"
  shows "q * t * (1 + f / 100) * round_under ^ 4 \<le> dmul (dmul q t) (dadd 1 (ddiv f 100))"
proof -
  have g1: "q * t * round_under ^ 1 \<le> dmul q t"
    unfolding dmul_def using assms by (intro dround_ge_chain [of _ _ 0]) simp_all
  have "f / 100 * round_under ^ 1 \<le> ddiv f 100"
    unfolding ddiv_def using assms by (intro dround_ge_chain [of _ _ 0]) simp_all
  then have "(1 + f / 100) * round_under ^ 1 \<le> 1 + ddiv f 100"
    using round_factors(4) by (simp add: algebra_simps)
  then have g2: "(1 + f / 100) * round_under ^ 2 \<le> dadd 1 (ddiv f 100)"
    unfolding dadd_def using assms by (intro dround_ge_chain [of _ _ 1]) (simp_all add: ddiv_nonneg)
  have "(q * t * round_under ^ 1) * ((1 + f / 100) * round_under ^ 2) \<le> dmul q t * dadd 1 (ddiv f 100)"
    using g1 g2 assms round_factors(3) by (intro mult_mono) (auto intro: dmul_nonneg)
  also have "(q * t * round_under ^ 1) * ((1 + f / 100) * round_under ^ 2) = q * t * (1 + f / 100) * round_under ^ 3"
    by (simp only: power3_eq_cube power2_eq_square power_one_right mult.assoc mult.left_commute)
  finally show ?thesis
    unfolding dmul_def [of "dmul q t"] using assms
    by (intro dround_ge_chain [of _ _ 3]) (simp_all add: dmul_nonneg dadd_nonneg ddiv_nonneg)
qed

lemma reservation_rounding:
  assumes "0 < n" "0 \<le> q" "0 \<le> t" "0 \<le> f" "0 \<le> m" "m \<le> n" "0 \<le> px" "px \<le> dmul (ddiv q n) t"
  shows "dadd (dmul m px) (ddiv (dmul (dmul m px) f) 100) \<le> dmul (dmul q t) (dadd 1 (ddiv f 100)) * (1 + 1 / 10 ^ 30)"
proof -
  note fill_cost_le [OF assms]
  also have "round_over ^ 6 \<le> round_under ^ 4 * (1 + 1 / 10 ^ 30)"
    by (simp add: round_over_def round_under_def power_divide)
  then have "q * t * (1 + f / 100) * round_over ^ 6 \<le> q * t * (1 + f / 100) * (round_under ^ 4 * (1 + 1 / 10 ^ 30))"
    using assms by (intro mult_left_mono) simp_all
  also have "\<dots> \<le> dmul (dmul q t) (dadd 1 (ddiv f 100)) * (1 + 1 / 10 ^ 30)"
    using mult_right_mono [OF reserved_ge [OF assms(2-4)], of "1 + 1 / 10 ^ 30"] by (simp only: mult.assoc) simp
  finally show ?thesis .
qed


text \<open>The reservation covers the simulated buy: what a buy leg on an exchange costs, fee included,
  is at most the quote the execution engine reserved for it, up to the rounding of the ten decimal
  operations involved (less than one part in ten to the thirty), whatever the drift, the stress and
  the partial fill.\<close>

theorem paper_buy_covered:
  assumes leg: "execute_leg ps env c (buy_request cx c opp fresh) (op_buy fresh) l = (l', Inr r, h)"
    and "0 < res_filled r" and "vr_kind c = CEX" and "pe_book env = Inr book"
    and lim: "lim_px = dmul (eq_avg_price (op_buy fresh)) (dadd 1 (leg_tolerance cx))"
    and "exact_book ka kp (reachable BUY (Some lim_px) (adverse_factor BUY (ddiv (ps_quote_drift_pct ps) 100))
      (side_levels (apply_stress book (ps_stress_multiplier ps)) BUY))"
    and "0 < op_size_base fresh" and "on_grid ka (op_size_base fresh)"
    and "eq_avg_price (op_buy fresh) = ddiv (eq_quote_amount (op_buy fresh)) (op_size_base fresh)"
    and "0 \<le> eq_quote_amount (op_buy fresh)" and "0 \<le> leg_tolerance cx" and "0 \<le> opt_or_zero (eq_fee_pct (op_buy fresh))"
  shows "\<exists>px. res_avg_price r = Some px \<and>
    dadd (dmul (res_filled r) px) (res_fee_quote r) \<le> quote_needed cx fresh * (1 + 1 / 10 ^ 30)"
proof -
  define req where "req = buy_request cx c opp fresh"
  have req: "or_side req = BUY" "or_amount req = op_size_base fresh" "or_limit_price req = Some lim_px"
    by (simp_all add: req_def buy_request_def lim)
  define sf where "sf = book_fill book req (ps_stress_multiplier ps) (adverse_factor BUY (ddiv (ps_quote_drift_pct ps) 100))"
  have sim: "simulate_fill env c req q (ps_stress_multiplier ps) (ddiv (ps_quote_drift_pct ps) 100) = Inr sf" for q
    using assms(3,4) by (simp add: simulate_fill_def sf_def req)
  obtain base quote where sp: "split_pair (asset_head (or_symbol req)) = Inr (base, quote)"
    using leg unfolding req_def [symmetric] by (auto simp: execute_leg_def split: sum.splits)
  have pos: "0 < sf_base sf"
    using leg assms(2) unfolding req_def [symmetric]
    by (auto simp: execute_leg_def sp sim dead_leg_def new_result_def split: if_splits sum.splits)
  obtain m where m: "partial_amount ps env req (sf_base sf) = Inr m"
    using leg assms(2) pos unfolding req_def [symmetric]
    by (auto simp: execute_leg_def sp sim dead_leg_def new_result_def split: if_splits sum.splits)
  have r: "r = filled_leg env c req quote m (sf_price sf) (leg_fee c (op_buy fresh) (dmul m (sf_price sf))) (sf_gas_usd sf)"
    using leg assms(2) pos m unfolding req_def [symmetric]
    by (auto simp: execute_leg_def sp sim dead_leg_def new_result_def Let_def split: if_splits)
  have mr: "0 < m" "m \<le> op_size_base fresh"
    using assms(2) m by (auto simp: r filled_leg_def partial_amount_def bind_result_Inr_iff req split: if_splits)
  have ex: "exact_book ka kp (reachable (or_side req) (or_limit_price req) (adverse_factor BUY (ddiv (ps_quote_drift_pct ps) 100))
      (side_levels (apply_stress book (ps_stress_multiplier ps)) (or_side req)))"
    using assms(6) by (simp add: req)
  have "drepr lim_px" by (simp add: lim)
  note F = paper_fill_limits [OF refl ex _ _ req(3) this sf_def, unfolded req(1,2), OF assms(7,8)]
  from F pos have "if BUY = BUY then sf_price sf \<le> lim_px else lim_px \<le> sf_price sf" by blast
  then have px: "sf_price sf \<le> lim_px" by simp
  from F pos have px0: "0 \<le> sf_price sf" by blast
  have "leg_fee c (op_buy fresh) x = ddiv (dmul x (opt_or_zero (eq_fee_pct (op_buy fresh)))) 100" for x
    using assms(3) by (simp add: leg_fee_def opt_or_zero_def)
  moreover have "dadd (dmul m (sf_price sf)) (ddiv (dmul (dmul m (sf_price sf)) (opt_or_zero (eq_fee_pct (op_buy fresh)))) 100)
      \<le> quote_needed cx fresh * (1 + 1 / 10 ^ 30)"
    unfolding quote_needed_def
    using assms(7,10-12) mr px px0 by (intro reservation_rounding) (simp_all add: lim assms(9) dadd_nonneg)
  ultimately show ?thesis by (simp add: r filled_leg_def)
qed


subsection \<open>Witnesses\<close>

text \<open>One bitcoin is wanted; the stressed book shows half a bitcoin within the limit.\<close>

definition paper_ps :: paper_settings where
  "paper_ps = \<lparr>ps_starting_balances = [], ps_stress_multiplier = 2, ps_latency_ms = 0, ps_latency_jitter_ms = 0,
     ps_partial_fill_probability = 0, ps_failure_probability = 0, ps_quote_drift_pct = 0, ps_fill_ratio_on_partial = 0\<rparr>"

definition paper_demo_env :: paper_env where
  "paper_demo_env = \<lparr>pe_order_id = ''p1'', pe_now_ms = 1000, pe_jitter_ms = 0, pe_draw_failure = 1/2,
     pe_draw_partial = 1/2, pe_book = Inr demo_book, pe_requote = Inl (Msg ''no router'' []), pe_gas = (\<lambda>_. None),
     pe_has_gas_guard = False\<rparr>"

definition paper_req :: order_request where
  "paper_req = buy_request demo_ctx (demo_venue ''kraken'') (demo_opportunity 1) (demo_opportunity 1)"

lemma paper_req_simps [simp]:
  "or_side paper_req = BUY" "or_amount paper_req = 1" "or_symbol paper_req = ''BTC/USDC''"
  "or_limit_price paper_req = Some (1001/10)"
  by (simp_all add: paper_req_def buy_request_def demo_opportunity_def demo_leg_def op_pair_def leg_tolerance_def
      demo_settings dec_defs dround_eval)

lemma paper_reachable:
  "reachable BUY (Some (1001/10)) (adverse_factor BUY 0) (side_levels (apply_stress demo_book 2) BUY) =
     [\<lparr>lv_price = 100, lv_amount = 1/2\<rparr>]"
  by (simp add: reachable_def apply_stress_def thin_levels_def demo_book_def side_levels_def adverse_factor_def
      beyond_limit_def dec_defs dround_eval)

lemma paper_exact: "exact_book 1 0 [\<lparr>lv_price = 100, lv_amount = 1/2\<rparr>]" "on_grid 1 1"
proof -
  have "on_grid 1 (1/2)" "on_grid 1 1" unfolding on_grid_def
    by (intro exI [of _ 5], simp) (intro exI [of _ 10], simp)
  then show "exact_book 1 0 [\<lparr>lv_price = 100, lv_amount = 1/2\<rparr>]" "on_grid 1 1"
    by (simp_all add: exact_book_def on_grid_numeral)
qed

lemma paper_base: "sf_base (book_fill demo_book paper_req 2 (adverse_factor BUY 0)) = 1/2"
  by (subst book_fill_exact(1) [OF _ paper_exact(1)]) (simp_all add: paper_reachable paper_exact(2) [simplified])


lemma paper_sim: "simulate_fill paper_demo_env (demo_venue ''kraken'') paper_req q 2 0 =
    Inr (book_fill demo_book paper_req 2 (adverse_factor BUY 0))"
  by (simp add: simulate_fill_def paper_demo_env_def)

lemma paper_leg:
  "\<exists>l' r. execute_leg paper_ps paper_demo_env (demo_venue ''kraken'') paper_req (op_buy (demo_opportunity 1)) demo_ledger =
     (l', Inr r, Some True) \<and> res_filled r = 1/2"
proof -
  have "split_pair (asset_head ''BTC/USDC'') = Inr (''BTC'', ''USDC'')" by (simp add: split_pair_def asset_head_def)
  moreover have "fround 0 = 0" by (rule flt.rnd_0)
  moreover have "ddiv 0 100 = 0" by (simp add: dec_defs dround_eval)
  moreover have "pe_draw_failure paper_demo_env = 1/2" by (simp add: paper_demo_env_def)
  moreover have p: "partial_amount ps env paper_req (1/2) = Inr (1/2)" for ps env by (simp add: partial_amount_def)
  ultimately show ?thesis
    by (simp add: execute_leg_def paper_ps_def paper_sim paper_base p
        filled_leg_def Let_def)
qed

theorem paper_leg_outcome_witness:
  "\<exists>l' r. execute_leg paper_ps paper_demo_env (demo_venue ''kraken'') paper_req (op_buy (demo_opportunity 1)) demo_ledger =
     (l', Inr r, Some True) \<and> res_filled r \<le> 1 \<and> res_status r = PARTIALLY_FILLED"
proof -
  obtain l' r where e: "execute_leg paper_ps paper_demo_env (demo_venue ''kraken'') paper_req (op_buy (demo_opportunity 1)) demo_ledger =
      (l', Inr r, Some True)" "res_filled r = 1/2" using paper_leg by blast
  from paper_leg_outcome [OF e(1)] e(2) have "res_status r = PARTIALLY_FILLED" by auto
  with e show ?thesis by auto
qed

theorem paper_buy_covered_witness:
  "\<exists>l' r px. execute_leg paper_ps paper_demo_env (demo_venue ''kraken'') paper_req (op_buy (demo_opportunity 1)) demo_ledger =
     (l', Inr r, Some True) \<and> res_avg_price r = Some px \<and>
     dadd (dmul (res_filled r) px) (res_fee_quote r) \<le> quote_needed demo_ctx (demo_opportunity 1) * (1 + 1 / 10 ^ 30)"
proof -
  obtain l' r where e: "execute_leg paper_ps paper_demo_env (demo_venue ''kraken'') paper_req (op_buy (demo_opportunity 1)) demo_ledger =
      (l', Inr r, Some True)" "res_filled r = 1/2" using paper_leg by blast
  have "ddiv 0 100 = 0" "ddiv 100 1 = 100" by (simp_all add: dec_defs dround_eval)
  moreover have "dmul 100 (dadd 1 (leg_tolerance demo_ctx)) = 1001/10" "0 \<le> leg_tolerance demo_ctx"
    by (simp_all add: leg_tolerance_def demo_settings dec_defs dround_eval)
  ultimately have "\<exists>px. res_avg_price r = Some px \<and>
      dadd (dmul (res_filled r) px) (res_fee_quote r) \<le> quote_needed demo_ctx (demo_opportunity 1) * (1 + 1 / 10 ^ 30)"
    using e(2) paper_exact
    by (intro paper_buy_covered [OF e(1) [unfolded paper_req_def], of demo_book "1001/10" 1 0])
      (simp_all add: paper_demo_env_def paper_ps_def paper_reachable demo_opportunity_def demo_leg_def opt_or_zero_def)
  with e(1) show ?thesis by blast
qed

end
