(* ===== verification/Breaker_Spec.thy ===== *)
theory Breaker_Spec
  imports Circuit_Breakers
begin

text \<open>
  What the circuit breaker manager promises, as an abstract machine: the state is the set of alarms
  (scope and reason), and every operation of \<open>CircuitBreakerManager\<close> acts on that set. The manager with
  its keys, heap of breaker objects, history and rolling counters refines it. The operations the
  rest of the engine calls are the interface \<open>alarm_board\<close>, interpreted on the manager.
\<close>

type_synonym alarm = "string \<times> breaker_reason"

definition alarms :: "breaker_manager \<Rightarrow> alarm set" where
  "alarms m = (\<lambda>b. (bk_scope b, bk_reason b)) ` set (active_breakers m)"

definition alarm_matches :: "breaker_reason option \<Rightarrow> string option \<Rightarrow> alarm \<Rightarrow> bool" where
  "alarm_matches r sc x \<longleftrightarrow> (r = None \<or> r = Some (snd x)) \<and> (sc = None \<or> sc = Some (fst x))"

inductive alarm_step :: "alarm set \<Rightarrow> breaker_op \<Rightarrow> alarm set \<Rightarrow> bool" where
  Trip: "alarm_step S (Trip r d sc) (insert (sc, r) S)"
| Reset: "alarm_step S (Reset r sc) {x \<in> S. \<not> alarm_matches r sc x}"
| Restore: "alarm_step S (Restore bs) (S \<union> (\<lambda>b. (bk_scope b, bk_reason b)) ` set bs)"
| Record: "alarm_step S (Record c w) S"
| Count: "alarm_step S (Count c w) S"
| Check_Quiet: "alarm_step S (Record_And_Check c n r d sc w) S"
| Check_Trips: "alarm_step S (Record_And_Check c n r d sc w) (insert (sc, r) S)"

inductive alarm_run :: "alarm set \<Rightarrow> breaker_op list \<Rightarrow> alarm set \<Rightarrow> bool" where
  Nil: "alarm_run S [] S"
| Cons: "alarm_step S a S' \<Longrightarrow> alarm_run S' as S'' \<Longrightarrow> alarm_run S (a # as) S''"

definition alarm_on :: "alarm set \<Rightarrow> string \<Rightarrow> bool" where
  "alarm_on S sc \<longleftrightarrow> (\<exists>x \<in> S. fst x = ''global'' \<or> fst x = sc)"

subsection \<open>The manager on its alarms\<close>

lemma alarms_iff: "(sc, r) \<in> alarms m \<longleftrightarrow> is_active m r sc"
  by (auto simp: alarms_def is_active_def)

lemma alarms_dom: "manager_wf m \<Longrightarrow> (sc, r) \<in> alarms m \<longleftrightarrow> breaker_key sc r \<in> dom (map_of (cbm_active m))"
  by (simp add: alarms_iff is_active_iff)

lemma alarms_new [simp]: "alarms new_manager = {}"
  by (simp add: alarms_def active_breakers_def new_manager_def vals_def)

lemma alarms_trip: "manager_wf m \<Longrightarrow> alarms (fst (trip m r d sc auto now)) = insert (sc, r) (alarms m)"
  by (auto simp: alarms_dom manager_wf_trip dom_trip)

lemma alarms_reset: "alarms (fst (reset m r sc)) = {x \<in> alarms m. \<not> alarm_matches r sc x}"
  by (auto simp: alarms_def reset_active_breakers reset_matches_def alarm_matches_def)

lemma alarms_record [simp]: "alarms (fst (record_event m c w tick)) = alarms m"
  by (simp add: alarms_def active_breakers_def record_event_def Let_def)

lemma alarms_count [simp]: "alarms (fst (count_events m c w tick)) = alarms m"
  by (simp add: alarms_def active_breakers_def count_events_def Let_def)

lemma wf_record: "manager_wf m \<Longrightarrow> manager_wf (fst (record_event m c w tick))"
  by (simp add: record_event_def Let_def)

lemma alarms_restore: "manager_wf m \<Longrightarrow> alarms (restore m bs) = alarms m \<union> (\<lambda>b. (bk_scope b, bk_reason b)) ` set bs"
proof (induction bs arbitrary: m)
  case (Cons b bs)
  define m1 where "m1 = m\<lparr>cbm_store := cbm_store m @ [b],
      cbm_active := AList.update (breaker_key (bk_scope b) (bk_reason b)) (length (cbm_store m)) (cbm_active m)\<rparr>"
  have wf: "manager_wf m1"
    using manager_wf_restore [OF Cons.prems, of "[b]"] by (simp add: m1_def)
  have "(sc, r) \<in> alarms m1 \<longleftrightarrow> (sc, r) = (bk_scope b, bk_reason b) \<or> (sc, r) \<in> alarms m" for sc r
    unfolding alarms_dom [OF wf] alarms_dom [OF Cons.prems] by (auto simp: m1_def update_conv')
  then have "alarms m1 = insert (bk_scope b, bk_reason b) (alarms m)" by auto
  then show ?case using Cons.IH [OF wf] by (auto simp: m1_def)
qed simp

lemma is_tripped_alarms: "is_tripped m sc = alarm_on (alarms m) sc"
  by (auto simp: is_tripped_def alarm_on_def alarms_def list_ex_iff intro: rev_image_eqI)

lemma alarms_record_and_check:
  assumes "manager_wf m"
  shows "alarms (fst (record_and_check m c n r d sc w tick now)) \<in> {alarms m, insert (sc, r) (alarms m)}"
proof -
  obtain m1 k where m1: "record_event m c w tick = (m1, k)" by (cases "record_event m c w tick")
  then have "manager_wf m1" "alarms m1 = alarms m"
    using wf_record [OF assms, of c w tick] alarms_record [of m c w tick] by simp_all
  then show ?thesis by (auto simp: record_and_check_def m1 alarms_trip)
qed

lemma alarm_step_sim:
  assumes "breaker_step m a m'" and "manager_wf m"
  shows "alarm_step (alarms m) a (alarms m')"
  using assms(1)
proof (cases rule: breaker_stepE)
  fix c n r d sc w tick now
  assume "a = Record_And_Check c n r d sc w" "m' = fst (record_and_check m c n r d sc w tick now)"
  with alarms_record_and_check [OF assms(2), of c n r d sc w tick now] show ?thesis
    by (auto intro: alarm_step.intros)
qed (use assms(2) in \<open>auto simp: alarms_trip alarms_reset alarms_restore intro: alarm_step.intros\<close>)

lemma alarm_run_sim: "breaker_run m as m' \<Longrightarrow> manager_wf m \<Longrightarrow> alarm_run (alarms m) as (alarms m')"
  by (induction rule: breaker_run.induct) (auto intro: alarm_run.intros alarm_step_sim manager_wf_step)

subsection \<open>The interface of the engine\<close>

locale alarm_board =
  fixes wf :: "'s \<Rightarrow> bool"
    and alarms_of :: "'s \<Rightarrow> ('k \<times> 'r) set"
    and raise :: "'s \<Rightarrow> 'r \<Rightarrow> 'k \<Rightarrow> 's"
    and clear :: "'s \<Rightarrow> 'r \<Rightarrow> 's"
  assumes wf_raise: "wf s \<Longrightarrow> wf (raise s r k)"
    and wf_clear: "wf s \<Longrightarrow> wf (clear s r)"
    and alarms_raise: "wf s \<Longrightarrow> alarms_of (raise s r k) = insert (k, r) (alarms_of s)"
    and alarms_clear: "alarms_of (clear s r) = {x \<in> alarms_of s. snd x \<noteq> r}"
begin

lemma raise_idem: "wf s \<Longrightarrow> alarms_of (raise (raise s r k) r k) = alarms_of (raise s r k)"
  by (simp add: alarms_raise wf_raise)

lemma clear_raise:
  "wf s \<Longrightarrow> alarms_of (clear (raise s r k) r) = {x \<in> alarms_of s. snd x \<noteq> r}"
  by (auto simp: alarms_clear alarms_raise)

lemma clear_other: "wf s \<Longrightarrow> r \<noteq> r' \<Longrightarrow> (k, r) \<in> alarms_of (clear (raise s r k) r')"
  by (simp add: alarms_clear alarms_raise)

end

definition raise_alarm :: "breaker_manager \<Rightarrow> breaker_reason \<Rightarrow> string \<Rightarrow> breaker_manager" where
  "raise_alarm m r sc = fst (trip m r (Msg [] []) sc True 0)"

definition clear_alarm :: "breaker_manager \<Rightarrow> breaker_reason \<Rightarrow> breaker_manager" where
  "clear_alarm m r = fst (reset m (Some r) None)"

interpretation board: alarm_board manager_wf alarms raise_alarm clear_alarm
  by unfold_locales
    (auto simp: raise_alarm_def clear_alarm_def manager_wf_trip manager_wf_reset alarms_trip alarms_reset alarm_matches_def)

subsection \<open>Properties\<close>

text \<open>C12. The breaker manager refines a plain set of alarms: along every run of trips, resets, restores and
  counter operations from a fresh manager, the alarms change as the abstract machine says (a trip
  adds its scope and reason, a reset removes exactly the matching ones, counting changes nothing
  unless its threshold trips), and \<open>is_tripped\<close> answers exactly whether an alarm is global or names the
  scope.\<close>

theorem breakers_refine_alarms:
  assumes "breaker_run new_manager ops m"
  shows "alarm_run {} ops (alarms m) \<and> (\<forall>sc. is_tripped m sc = alarm_on (alarms m) sc)"
  using alarm_run_sim [OF assms manager_wf_new] by (simp add: is_tripped_alarms)

theorem breakers_refine_alarms_witness:
  "\<exists>m. breaker_run new_manager [Trip MANUAL (Msg [] []) ''global'', Reset (Some MANUAL) None] m \<and>
     alarm_run {} [Trip MANUAL (Msg [] []) ''global'', Reset (Some MANUAL) None] (alarms m)"
proof -
  define m where "m = fst (reset (fst (trip new_manager MANUAL (Msg [] []) ''global'' False 5)) (Some MANUAL) None)"
  have "breaker_run new_manager [Trip MANUAL (Msg [] []) ''global'', Reset (Some MANUAL) None] m"
    unfolding m_def
    by (rule breaker_run.Cons [OF breaker_step.Trip breaker_run.Cons [OF breaker_step.Reset breaker_run.Nil]])
  with breakers_refine_alarms [OF this] show ?thesis by blast
qed

end
