(* ===== verification/Venue_Health.thy ===== *)
theory Venue_Health
  imports Circuit_Breakers
begin

text \<open>
  Model of the health classification of a venue, \<^verbatim>\<open>HealthTracker\<close> and \<^verbatim>\<open>max_health\<close> of
  \<^verbatim>\<open>backend/fedr/connectors/base.py\<close>, and of the clock-drift sample of \<^verbatim>\<open>backend/fedr/core/clock.py\<close>.
  Times of \<open>time.monotonic()\<close> are rationals, wall-clock times integer milliseconds; both are
  arguments. Python's \<open>sum\<close> over floats, whose rounding depends on the version, is the argument
  \<open>fsum\<close> of the average.
\<close>

subsection \<open>The order of the health states\<close>

fun health_index :: "venue_health \<Rightarrow> nat" where
  \<comment> \<open>\<open>_ORDER.index\<close>\<close>
  "health_index HEALTHY = 0"
| "health_index DEGRADED = 1"
| "health_index UNHEALTHY = 2"
| "health_index BLOCKED_VENUE = 3"
| "health_index UNKNOWN = 4"

definition health_order :: "venue_health list" where
  "health_order = [HEALTHY, DEGRADED, UNHEALTHY, BLOCKED_VENUE]"

definition max_health :: "venue_health \<Rightarrow> venue_health \<Rightarrow> venue_health" where
  "max_health a b =
     (if a = UNKNOWN then b else if b = UNKNOWN then a
      else health_order ! max (health_index a) (health_index b))"

text \<open>As an order: UNKNOWN says nothing, so it is the least element.\<close>

definition health_rank :: "venue_health \<Rightarrow> nat" where
  "health_rank h = (if h = UNKNOWN then 0 else Suc (health_index h))"

lemma health_rank_inject: "health_rank a = health_rank b \<longleftrightarrow> a = b"
  by (cases a; cases b) (simp_all add: health_rank_def)

instantiation venue_health :: linorder
begin

definition less_eq_venue_health :: "venue_health \<Rightarrow> venue_health \<Rightarrow> bool" where
  "less_eq_venue_health a b \<longleftrightarrow> health_rank a \<le> health_rank b"

definition less_venue_health :: "venue_health \<Rightarrow> venue_health \<Rightarrow> bool" where
  "less_venue_health a b \<longleftrightarrow> health_rank a < health_rank b"

instance
  by standard (auto simp: less_eq_venue_health_def less_venue_health_def health_rank_inject [symmetric])

end

lemma max_health_is_max: "max_health a b = max a b"
  by (cases a; cases b)
    (simp_all add: max_health_def max_def less_eq_venue_health_def health_rank_def health_order_def)

subsection \<open>State\<close>

record health_tracker =
  ht_latencies :: "rat list"
  ht_errors :: "rat list"
  ht_order_failures :: "rat list"
  ht_rate_limited_until :: rat
  ht_maintenance :: bool
  ht_clock_drift_ms :: "int option"
  ht_clock_checked_ms :: int
  ht_ws_connected :: "bool option"
  ht_last_market_data_ms :: int
  ht_last_balance_ms :: int
  ht_orders_ok :: int
  ht_orders_failed :: int
  ht_data_unhealthy :: bool
  ht_data_reason :: "message option"

record health_report =
  hr_venue :: string
  hr_health :: venue_health
  hr_api_latency_ms :: "rat option"
  hr_ws_connected :: "bool option"
  hr_market_data_age_ms :: "int option"
  hr_balance_age_ms :: "int option"
  hr_order_failures_1h :: int
  hr_rate_limited :: bool
  hr_maintenance :: bool
  hr_execution_reliability_pct :: "rat option"
  hr_reasons :: "message list"

definition new_tracker :: health_tracker where
  "new_tracker = \<lparr>ht_latencies = [], ht_errors = [], ht_order_failures = [], ht_rate_limited_until = 0,
     ht_maintenance = False, ht_clock_drift_ms = None, ht_clock_checked_ms = 0, ht_ws_connected = None,
     ht_last_market_data_ms = 0, ht_last_balance_ms = 0, ht_orders_ok = 0, ht_orders_failed = 0,
     ht_data_unhealthy = False, ht_data_reason = None\<rparr>"

subsection \<open>Recording\<close>

definition record_latency :: "rat \<Rightarrow> health_tracker \<Rightarrow> health_tracker" where
  "record_latency ms t = t\<lparr>ht_latencies := push_bounded 50 ms (ht_latencies t)\<rparr>"

definition record_error :: "rat \<Rightarrow> health_tracker \<Rightarrow> health_tracker" where
  "record_error now t = t\<lparr>ht_errors := push_bounded 200 now (ht_errors t)\<rparr>"

definition record_order :: "bool \<Rightarrow> rat \<Rightarrow> health_tracker \<Rightarrow> health_tracker" where
  "record_order ok now t =
     (if ok then t\<lparr>ht_orders_ok := ht_orders_ok t + 1\<rparr>
      else t\<lparr>ht_orders_failed := ht_orders_failed t + 1,
             ht_order_failures := push_bounded 200 now (ht_order_failures t)\<rparr>)"

definition events_since :: "rat list \<Rightarrow> rat \<Rightarrow> rat \<Rightarrow> int" where
  "events_since ts seconds now = int (length (filter (\<lambda>t. fround (now - seconds) \<le> t) ts))"

definition errors_last :: "health_tracker \<Rightarrow> rat \<Rightarrow> rat \<Rightarrow> int" where
  "errors_last t seconds now = events_since (ht_errors t) seconds now"

definition order_failures_last :: "health_tracker \<Rightarrow> rat \<Rightarrow> rat \<Rightarrow> int" where
  "order_failures_last t seconds now = events_since (ht_order_failures t) seconds now"

definition avg_latency_ms :: "(rat list \<Rightarrow> rat) \<Rightarrow> health_tracker \<Rightarrow> rat option" where
  "avg_latency_ms fsum t =
     (if ht_latencies t = [] then None
      else Some (fround (fsum (ht_latencies t) / of_nat (length (ht_latencies t)))))"

definition rate_limited :: "health_tracker \<Rightarrow> rat \<Rightarrow> bool" where
  "rate_limited t now \<longleftrightarrow> now < ht_rate_limited_until t"

definition age_since :: "int \<Rightarrow> int \<Rightarrow> int option" where
  \<comment> \<open>a time stamp of zero counts as none\<close>
  "age_since now ms = (if ms = 0 then None else Some (now - ms))"

subsection \<open>Clock drift\<close>

definition measure_drift :: "int \<Rightarrow> int \<Rightarrow> int option \<Rightarrow> int option" where
  \<comment> \<open>from the times before and after the request and the server's answer, None when there is none\<close>
  "measure_drift t0 t1 server = map_option (\<lambda>s. t0 + (t1 - t0) div 2 - s) server"

definition apply_drift :: "int option \<Rightarrow> int \<Rightarrow> health_tracker \<Rightarrow> health_tracker" where
  "apply_drift sample now t = t\<lparr>ht_clock_drift_ms := sample, ht_clock_checked_ms := now\<rparr>"

subsection \<open>Classification\<close>

definition data_age_level :: "int \<Rightarrow> int option \<Rightarrow> venue_health option" where
  "data_age_level max_age age =
     (case age of
        None \<Rightarrow> Some UNHEALTHY
      | Some a \<Rightarrow> if max_age < a then Some (if max_age * 4 < a then UNHEALTHY else DEGRADED) else None)"

definition drift_level :: "int option \<Rightarrow> venue_health option" where
  "drift_level drift =
     (case drift of
        None \<Rightarrow> None
      | Some d \<Rightarrow> if 10000 \<le> \<bar>d\<bar> then Some UNHEALTHY else if 1000 \<le> \<bar>d\<bar> then Some DEGRADED else None)"

definition error_level :: "int \<Rightarrow> venue_health option" where
  "error_level n = (if 10 \<le> n then Some UNHEALTHY else if 3 \<le> n then Some DEGRADED else None)"

definition when_level :: "bool \<Rightarrow> venue_health \<Rightarrow> venue_health option" where
  "when_level c l = (if c then Some l else None)"

fun note_levels :: "(venue_health option \<times> message) list \<Rightarrow> venue_health \<times> message list \<Rightarrow> venue_health \<times> message list" where
  \<comment> \<open>the checks in their order: each may worsen the health and add its reason\<close>
  "note_levels [] s = s"
| "note_levels ((None, why) # cs) s = note_levels cs s"
| "note_levels ((Some l, why) # cs) s = note_levels cs (max_health (fst s) l, snd s @ [why])"

definition health_checks ::
  "(rat list \<Rightarrow> rat) \<Rightarrow> health_tracker \<Rightarrow> int \<Rightarrow> bool \<Rightarrow> int \<Rightarrow> rat \<Rightarrow> (venue_health option \<times> message) list" where
  "health_checks fsum t max_age expect_ws now tick =
     (let md_age = age_since now (ht_last_market_data_ms t); err = errors_last t 300 tick;
          fails = order_failures_last t 3600 tick
      in [(when_level (ht_data_unhealthy t) UNHEALTHY,
           Msg ''MARKET DATA UNHEALTHY'' (case ht_data_reason t of None \<Rightarrow> [] | Some r \<Rightarrow> [AMsg r])),
          (when_level (rate_limited t tick) DEGRADED, Msg ''rate limited'' []),
          (data_age_level max_age md_age,
           case md_age of None \<Rightarrow> Msg ''no market data yet'' [] | Some a \<Rightarrow> Msg ''market data old'' [AInt (a div 1000)]),
          (drift_level (ht_clock_drift_ms t),
           Msg ''clock drift'' (case ht_clock_drift_ms t of None \<Rightarrow> [] | Some d \<Rightarrow> [AInt d])),
          (when_level (case avg_latency_ms fsum t of None \<Rightarrow> False | Some x \<Rightarrow> 2500 < x) DEGRADED,
           Msg ''high API latency'' []),
          (error_level err, Msg ''API errors in 5 min'' [AInt err]),
          (when_level (3 \<le> fails) DEGRADED, Msg ''order failures in 1h'' [AInt fails]),
          (when_level (expect_ws \<and> ht_ws_connected t = Some False) DEGRADED, Msg ''websocket disconnected'' [])])"

definition classify ::
  "(rat list \<Rightarrow> rat) \<Rightarrow> health_tracker \<Rightarrow> string \<Rightarrow> int \<Rightarrow> bool \<Rightarrow> int \<Rightarrow> rat \<Rightarrow> health_report" where
  "classify fsum t venue max_age expect_ws now tick =
     (let total = ht_orders_ok t + ht_orders_failed t;
          s0 = (if ht_maintenance t then (BLOCKED_VENUE, [Msg ''exchange maintenance'' []]) else (HEALTHY, []));
          (h, rs) = note_levels (health_checks fsum t max_age expect_ws now tick) s0
      in \<lparr>hr_venue = venue, hr_health = h, hr_api_latency_ms = avg_latency_ms fsum t,
          hr_ws_connected = ht_ws_connected t,
          hr_market_data_age_ms = age_since now (ht_last_market_data_ms t),
          hr_balance_age_ms = age_since now (ht_last_balance_ms t),
          hr_order_failures_1h = order_failures_last t 3600 tick, hr_rate_limited = rate_limited t tick,
          hr_maintenance = ht_maintenance t,
          hr_execution_reliability_pct = (if total = 0 then None
            else Some (fround (fround (of_int (ht_orders_ok t) / of_int total) * 100))),
          hr_reasons = rs\<rparr>)"

subsection \<open>Properties\<close>

definition failing :: "health_tracker \<Rightarrow> int \<Rightarrow> int \<Rightarrow> rat \<Rightarrow> bool" where
  \<comment> \<open>what alone makes a venue at least unhealthy\<close>
  "failing t max_age now tick \<longleftrightarrow> ht_data_unhealthy t \<or>
     (case age_since now (ht_last_market_data_ms t) of None \<Rightarrow> True | Some a \<Rightarrow> max_age < a \<and> max_age * 4 < a) \<or>
     (\<exists>d. ht_clock_drift_ms t = Some d \<and> 10000 \<le> \<bar>d\<bar>) \<or> 10 \<le> errors_last t 300 tick"

lemma max_levels [simp]:
  "max_health BLOCKED_VENUE x = BLOCKED_VENUE" "max_health HEALTHY DEGRADED = DEGRADED"
  "max_health HEALTHY UNHEALTHY = UNHEALTHY" "max_health DEGRADED UNHEALTHY = UNHEALTHY"
  "max_health UNHEALTHY DEGRADED = UNHEALTHY" "max_health DEGRADED DEGRADED = DEGRADED"
  "max_health UNHEALTHY UNHEALTHY = UNHEALTHY"
  by (cases x; simp add: max_health_def health_order_def)+

lemma note_levels_blocked: "fst s = BLOCKED_VENUE \<Longrightarrow> fst (note_levels cs s) = BLOCKED_VENUE"
  by (induction cs s rule: note_levels.induct) auto

lemma note_levels_worst:
  assumes "fst ` set cs \<subseteq> {None, Some DEGRADED, Some UNHEALTHY}" and "fst s \<in> {HEALTHY, DEGRADED, UNHEALTHY}"
  shows "fst (note_levels cs s) =
    (if fst s = UNHEALTHY \<or> Some UNHEALTHY \<in> fst ` set cs then UNHEALTHY
     else if fst s = DEGRADED \<or> Some DEGRADED \<in> fst ` set cs then DEGRADED else HEALTHY)"
  using assms
proof (induction cs s rule: note_levels.induct)
  case (3 l why cs s)
  then have "l = DEGRADED \<or> l = UNHEALTHY" "fst s = HEALTHY \<or> fst s = DEGRADED \<or> fst s = UNHEALTHY"
    "fst ` set cs \<subseteq> {None, Some DEGRADED, Some UNHEALTHY}" by simp_all
  then show ?case using "3.IH" by (elim disjE) simp_all
qed auto

lemma note_levels_reasons: "snd (note_levels cs s) = [] \<longleftrightarrow> snd s = [] \<and> fst ` set cs \<subseteq> {None}"
  by (induction cs s rule: note_levels.induct) auto

lemma level_ranges:
  "data_age_level a x \<in> {None, Some DEGRADED, Some UNHEALTHY}" "drift_level d \<in> {None, Some DEGRADED, Some UNHEALTHY}"
  "error_level n \<in> {None, Some DEGRADED, Some UNHEALTHY}" "when_level c DEGRADED \<in> {None, Some DEGRADED, Some UNHEALTHY}"
  "when_level c UNHEALTHY \<in> {None, Some DEGRADED, Some UNHEALTHY}"
  by (auto simp: when_level_def data_age_level_def drift_level_def error_level_def split: option.split)

lemma failing_levels:
  "failing t ma now tick \<longleftrightarrow> ht_data_unhealthy t \<or> data_age_level ma (age_since now (ht_last_market_data_ms t)) = Some UNHEALTHY \<or>
     drift_level (ht_clock_drift_ms t) = Some UNHEALTHY \<or> error_level (errors_last t 300 tick) = Some UNHEALTHY"
  by (auto simp: failing_def data_age_level_def drift_level_def error_level_def split: option.split)

lemma unhealthy_level:
  "Some UNHEALTHY \<noteq> when_level c DEGRADED" "Some UNHEALTHY = when_level c UNHEALTHY \<longleftrightarrow> c"
  by (simp_all add: when_level_def)

lemma health_checks_levels:
  "fst ` set (health_checks fsum t ma ws now tick) \<subseteq> {None, Some DEGRADED, Some UNHEALTHY}"
  "Some UNHEALTHY \<in> fst ` set (health_checks fsum t ma ws now tick) \<longleftrightarrow> failing t ma now tick"
proof -
  show "fst ` set (health_checks fsum t ma ws now tick) \<subseteq> {None, Some DEGRADED, Some UNHEALTHY}"
    unfolding health_checks_def Let_def
    by (simp only: list.set image_insert image_empty fst_conv insert_subset empty_subsetI level_ranges simp_thms)
  show "Some UNHEALTHY \<in> fst ` set (health_checks fsum t ma ws now tick) \<longleftrightarrow> failing t ma now tick"
    unfolding health_checks_def Let_def failing_levels
    by (simp only: list.set image_insert image_empty fst_conv insert_iff empty_iff unhealthy_level simp_thms
        eq_commute [of "Some UNHEALTHY" "data_age_level _ _"] eq_commute [of "Some UNHEALTHY" "drift_level _"]
        eq_commute [of "Some UNHEALTHY" "error_level _"] disj_assoc)
qed

lemma only_none: "A \<subseteq> {None, Some d, Some u} \<Longrightarrow> Some u \<notin> A \<Longrightarrow> A \<subseteq> {None} \<longleftrightarrow> Some d \<notin> A"
  by auto

lemma classify_health_cases:
  "hr_health (classify fsum t v ma ws now tick) =
     (if ht_maintenance t then BLOCKED_VENUE
      else if failing t ma now tick then UNHEALTHY
      else if hr_reasons (classify fsum t v ma ws now tick) \<noteq> [] then DEGRADED else HEALTHY)"
proof -
  define cs where "cs = health_checks fsum t ma ws now tick"
  define s where "s = (if ht_maintenance t then (BLOCKED_VENUE, [Msg ''exchange maintenance'' []]) else (HEALTHY, []))"
  have h: "hr_health (classify fsum t v ma ws now tick) = fst (note_levels cs s)"
      "hr_reasons (classify fsum t v ma ws now tick) = snd (note_levels cs s)"
    by (simp_all add: classify_def Let_def split_def cs_def s_def)
  note L = health_checks_levels [of fsum t ma ws now tick, folded cs_def]
  have d: "fst ` set cs \<subseteq> {None} \<longleftrightarrow> Some DEGRADED \<notin> fst ` set cs" if "Some UNHEALTHY \<notin> fst ` set cs"
    using that L(1) by (rule only_none [rotated])
  show ?thesis
  proof (cases "ht_maintenance t")
    case True
    then show ?thesis by (simp add: h s_def note_levels_blocked)
  next
    case False
    then have s: "s = (HEALTHY, [])" by (simp add: s_def)
    have f: "fst (note_levels cs s) = (if failing t ma now tick then UNHEALTHY
        else if Some DEGRADED \<in> fst ` set cs then DEGRADED else HEALTHY)"
      using note_levels_worst [OF L(1), of s] by (simp only: s L(2)) simp
    have r: "snd (note_levels cs s) = [] \<longleftrightarrow> fst ` set cs \<subseteq> {None}"
      by (simp only: note_levels_reasons s snd_conv simp_thms)
    show ?thesis unfolding h f using False r d L(2) by (cases "failing t ma now tick") (simp_all only: if_True if_False simp_thms)
  qed
qed

text \<open>The health of a venue is the worst of its checks: it is BLOCKED exactly in maintenance, otherwise
  UNHEALTHY exactly when the market data are flagged, missing or four times too old, the clock
  drifts by ten seconds or ten calls failed within five minutes, otherwise DEGRADED exactly when any
  other reason is given; a healthy venue has no reason and the state is never unknown.\<close>

theorem classify_worst_check:
  "(hr_health (classify fsum t v ma ws now tick) = BLOCKED_VENUE) = ht_maintenance t \<and>
   (hr_health (classify fsum t v ma ws now tick) = UNHEALTHY) = (\<not> ht_maintenance t \<and> failing t ma now tick) \<and>
   (hr_health (classify fsum t v ma ws now tick) = HEALTHY) =
     (\<not> ht_maintenance t \<and> \<not> failing t ma now tick \<and> hr_reasons (classify fsum t v ma ws now tick) = []) \<and>
   hr_health (classify fsum t v ma ws now tick) \<noteq> UNKNOWN"
  unfolding classify_health_cases by auto

end
