(* ===== verification/Supervision.thy ===== *)
theory Supervision
  imports Breaker_Spec Venue_Health Quality Gas_Guard Engine_Context
begin

text \<open>
  The loops of \<^verbatim>\<open>backend/fedr/app.py\<close> that keep the circuit breakers in step with the venues and the
  chains: the callbacks of the market data hub (\<open>_on_market_data_reject\<close>, \<open>_on_rapid_move\<close>), one pass of the
  health loop over a venue (\<open>_health_check_all\<close>), one pass of the gas loop over a chain
  (\<open>_gas_check_once\<close>), the balance refresh of simulated modes (\<open>_refresh_balances\<close>) and the choice of
  the scan loop. The venues' and the Gateway's answers and the clocks are the record \<open>watch_env\<close>;
  metrics, logging and the repository are outside.
\<close>

subsection \<open>Environment\<close>

record watch_env =
  we_now_ms :: int
  we_tick :: rat
  we_drift :: "int option"
  we_ws_stat :: "bool option"
  we_ws_capable :: bool

definition trip_at :: "breaker_reason \<Rightarrow> message \<Rightarrow> string \<Rightarrow> int \<Rightarrow> breaker_manager \<Rightarrow> breaker_manager" where
  "trip_at r why sc now m = fst (trip m r why sc True now)"

definition lift :: "breaker_reason \<Rightarrow> string \<Rightarrow> breaker_manager \<Rightarrow> breaker_manager" where
  "lift r sc m = fst (reset m (Some r) (Some sc))"

definition venue_scope :: "string \<Rightarrow> string" where
  "venue_scope v = ''venue:'' @ v"

definition chain_scope :: "chain \<Rightarrow> string" where
  "chain_scope c = ''chain:'' @ chain_value c"

subsection \<open>Callbacks of the market data hub\<close>

definition on_market_data_reject ::
  "quality_policy \<Rightarrow> quality_state \<Rightarrow> string \<Rightarrow> message \<Rightarrow> int \<Rightarrow>
   breaker_manager \<times> health_tracker \<Rightarrow> breaker_manager \<times> health_tracker" where
  "on_market_data_reject p qs v reason now = (\<lambda>(m, t).
     let bad = is_unhealthy p qs v
     in (if bad then trip_at MARKET_DATA_FAILURE (Msg v [AMsg reason]) (venue_scope v) now m else m,
         t\<lparr>ht_data_unhealthy := bad, ht_data_reason := (if bad then Some reason else None)\<rparr>))"

definition on_rapid_move :: "string \<Rightarrow> string \<Rightarrow> decimal \<Rightarrow> int \<Rightarrow> breaker_manager \<Rightarrow> breaker_manager" where
  "on_rapid_move v symbol move now m =
     trip_at RAPID_MARKET_MOVE (Msg ''moved'' [AStr symbol, ADec move, AStr v]) (''symbol:'' @ symbol) now m"

subsection \<open>The health loop\<close>

definition check_clock :: "watch_env \<Rightarrow> venue_ref \<Rightarrow> health_tracker \<Rightarrow> health_tracker" where
  "check_clock env v t =
     (if vr_kind v \<in> {CEX, PERP} \<and> 300000 < we_now_ms env - ht_clock_checked_ms t
      then apply_drift (we_drift env) (we_now_ms env) t else t)"

definition watch_rate_limit :: "watch_env \<Rightarrow> string \<Rightarrow> health_tracker \<Rightarrow> breaker_manager \<Rightarrow> breaker_manager" where
  "watch_rate_limit env v t m =
     (if rate_limited t (we_tick env)
      then (case record_event m (''rate_limit:'' @ v) 300 (we_tick env) of
              (m1, n) \<Rightarrow> if 3 \<le> n then trip_at RATE_LIMIT (Msg ''rate-limited'' [AStr v, AInt n]) (venue_scope v) (we_now_ms env) m1
                         else m1)
      else lift RATE_LIMIT (venue_scope v) m)"

definition watch_market_data ::
  "quality_policy \<Rightarrow> quality_state \<Rightarrow> string \<Rightarrow> breaker_manager \<times> health_tracker \<Rightarrow> breaker_manager \<times> health_tracker" where
  "watch_market_data p qs v = (\<lambda>(m, t).
     if ht_data_unhealthy t \<and> \<not> is_unhealthy p qs v
     then (lift MARKET_DATA_FAILURE (venue_scope v) m, t\<lparr>ht_data_unhealthy := False, ht_data_reason := None\<rparr>)
     else (m, t))"

definition keep_in_step :: "bool \<Rightarrow> breaker_reason \<Rightarrow> message \<Rightarrow> string \<Rightarrow> int \<Rightarrow> breaker_manager \<Rightarrow> breaker_manager" where
  "keep_in_step c r why sc now m = (if c then trip_at r why sc now m else lift r sc m)"

definition ws_down :: "watch_env \<Rightarrow> app_settings \<Rightarrow> bool" where
  "ws_down env s \<longleftrightarrow> we_ws_stat env = Some False \<and> we_ws_capable env \<and> as_websocket_market_data (s_advanced s)"

definition watch_venue ::
  "watch_env \<Rightarrow> app_settings \<Rightarrow> quality_policy \<Rightarrow> quality_state \<Rightarrow> venue_ref \<Rightarrow>
   breaker_manager \<times> health_tracker \<Rightarrow> breaker_manager \<times> health_tracker" where
  \<comment> \<open>one turn of the loop over the connectors\<close>
  "watch_venue env s p qs v = (\<lambda>(m, t0).
     if \<not> vr_connected v then (m, t0)
     else
       let n = vr_name v; t = check_clock env v t0; now = we_now_ms env;
           (m2, t2) = watch_market_data p qs n (watch_rate_limit env n t m, t);
           m3 = keep_in_step (ht_maintenance t2) EXCHANGE_MAINTENANCE (Msg ''reports maintenance'' [AStr n]) (venue_scope n) now m2;
           m4 = keep_in_step (ws_down env s) WEBSOCKET_FAILURE (Msg ''websocket down'' [AStr n]) (venue_scope n @ '':ws'') now m3
       in (m4, t2))"

subsection \<open>The gas loop\<close>

definition watch_gas ::
  "watch_env \<Rightarrow> gas_settings \<Rightarrow> gas_oracle \<Rightarrow> gas_snapshot option \<Rightarrow> chain \<Rightarrow> breaker_manager \<Rightarrow> breaker_manager" where
  \<comment> \<open>after the refresh of the oracle; \<open>snap\<close> is its snapshot\<close>
  "watch_gas env gs g snap c m =
     (let m1 = (case snap of
            None \<Rightarrow> (case map_of (go_last_error g) c of
                None \<Rightarrow> m
              | Some e \<Rightarrow> (case record_event m (''rpc_fail:'' @ chain_value c) 300 (we_tick env) of
                    (m', n) \<Rightarrow> if 3 \<le> n then trip_at RPC_FAILURE (Msg ''gas/RPC data unavailable'' [AMsg e]) (chain_scope c) (we_now_ms env) m'
                               else m'))
          | Some s \<Rightarrow> lift RPC_FAILURE (chain_scope c) m)
      in case snap of
           None \<Rightarrow> m1
         | Some s \<Rightarrow> keep_in_step (regime gs (go_baseline g) c (gsn_gas_price_native s) = EXTREME) GAS_SPIKE
             (Msg ''extreme regime'' [AStr (chain_value c), ADec (gsn_gas_price_native s)]) (chain_scope c) (we_now_ms env) m1)"

subsection \<open>Balances and the scan loop\<close>

definition refresh_paper_balances :: "(string \<Rightarrow> decimal option) \<Rightarrow> paper_ledger \<Rightarrow> inventory \<Rightarrow> inventory" where
  "refresh_paper_balances price l inven =
     foldl (\<lambda>i v. update_balances price i v (ledger_balances l v)
         (if v \<in> chain_value ` {SOLANA, ETHEREUM, BASE, ARBITRUM, OPTIMISM, POLYGON, BSC, AVALANCHE} then ''chain'' else ''cex''))
       inven (ledger_venues l)"

datatype auto_route = Via_Flash_Loan opportunity | Via_Positions opportunity | Via_Executor opportunity

definition auto_choice :: "engine_ctx \<Rightarrow> opportunity list \<Rightarrow> auto_route option" where
  \<comment> \<open>the loop of the scan task leaves on its first opportunity, whatever it does with it\<close>
  "auto_choice cx os =
     (case os of
        [] \<Rightarrow> None
      | o1 # _ \<Rightarrow>
          if op_decision o1 \<noteq> SAFE_TO_EXECUTE then None
          else if rs_max_concurrent_trades (s_risk (cx_settings cx)) \<le> int (length (cx_open_trade_ids cx)) then None
          else Some (if op_strategy o1 = FLASH_LOAN then Via_Flash_Loan o1
                     else if op_strategy o1 \<in> {SPOT_PERP, FUNDING, BASIS} then Via_Positions o1 else Via_Executor o1))"

definition auto_execute :: "engine_ctx \<Rightarrow> opportunity list \<Rightarrow> auto_route option" where
  "auto_execute cx os =
     (let s = cx_settings cx in
      if gs_shadow_mode (s_general s) then None
      else if \<not> gs_bot_enabled (s_general s) \<or> \<not> ts_auto_execute (s_trading s) \<or> cx_emergency_stop cx then None
      else auto_choice cx os)"

subsection \<open>How a pass acts on the alarms\<close>

lemma wf_trip_at [simp]: "manager_wf m \<Longrightarrow> manager_wf (trip_at r why sc now m)"
  by (simp add: trip_at_def manager_wf_trip)

lemma wf_lift [simp]: "manager_wf m \<Longrightarrow> manager_wf (lift r sc m)"
  by (simp add: lift_def manager_wf_reset)

lemma alarms_trip_at [simp]: "manager_wf m \<Longrightarrow> alarms (trip_at r why sc now m) = insert (sc, r) (alarms m)"
  by (simp add: trip_at_def alarms_trip)

lemma alarms_lift [simp]: "alarms (lift r sc m) = alarms m - {(sc, r)}"
  by (auto simp: lift_def alarms_reset alarm_matches_def)

lemma alarms_keep_in_step [simp]:
  "manager_wf m \<Longrightarrow> alarms (keep_in_step c r why sc now m) = (if c then insert (sc, r) (alarms m) else alarms m - {(sc, r)})"
  by (simp add: keep_in_step_def)

lemma wf_keep_in_step [simp]: "manager_wf m \<Longrightarrow> manager_wf (keep_in_step c r why sc now m)"
  by (simp add: keep_in_step_def)

lemma watch_rate_limit_alarms:
  assumes "manager_wf m"
  shows "manager_wf (watch_rate_limit env v t m)"
    and "alarms (watch_rate_limit env v t m) - {(venue_scope v, RATE_LIMIT)} = alarms m - {(venue_scope v, RATE_LIMIT)}"
    and "\<not> rate_limited t (we_tick env) \<Longrightarrow> (venue_scope v, RATE_LIMIT) \<notin> alarms (watch_rate_limit env v t m)"
proof -
  obtain m1 n where r: "record_event m (''rate_limit:'' @ v) 300 (we_tick env) = (m1, n)" by force
  have m1: "m1 = fst (record_event m (''rate_limit:'' @ v) 300 (we_tick env))" by (simp only: r fst_conv)
  have "manager_wf m1" "alarms m1 = alarms m"
    unfolding m1 by (rule wf_record [OF assms], rule alarms_record)
  then show "manager_wf (watch_rate_limit env v t m)"
      "alarms (watch_rate_limit env v t m) - {(venue_scope v, RATE_LIMIT)} = alarms m - {(venue_scope v, RATE_LIMIT)}"
      "\<not> rate_limited t (we_tick env) \<Longrightarrow> (venue_scope v, RATE_LIMIT) \<notin> alarms (watch_rate_limit env v t m)"
    unfolding watch_rate_limit_def r prod.case using assms by auto
qed

lemma scope_facts [simp]:
  "venue_scope v \<noteq> ''global''" "venue_scope v \<noteq> venue_scope v @ '':ws''" "venue_scope v @ '':ws'' \<noteq> ''global''"
  "venue_scope v @ '':ws'' \<noteq> venue_scope v" "chain_scope c \<noteq> ''global''" "chain_scope c \<noteq> venue_scope v"
  by (simp_all add: venue_scope_def chain_scope_def)

lemma watch_venue_facts:
  assumes "watch_venue env s p qs v (m, t) = (m', t')" and "vr_connected v" and "manager_wf m"
  shows "manager_wf m' \<and> ht_data_unhealthy t' = (ht_data_unhealthy t \<and> is_unhealthy p qs (vr_name v)) \<and>
    ((venue_scope (vr_name v), EXCHANGE_MAINTENANCE) \<in> alarms m') = ht_maintenance t \<and>
    ((venue_scope (vr_name v) @ '':ws'', WEBSOCKET_FAILURE) \<in> alarms m') = ws_down env s \<and>
    (rate_limited t (we_tick env) \<or> (venue_scope (vr_name v), RATE_LIMIT) \<notin> alarms m') \<and>
    ((venue_scope (vr_name v), MARKET_DATA_FAILURE) \<in> alarms m') =
      ((venue_scope (vr_name v), MARKET_DATA_FAILURE) \<in> alarms m \<and> \<not> (ht_data_unhealthy t \<and> \<not> is_unhealthy p qs (vr_name v))) \<and>
    {x \<in> alarms m'. fst x \<noteq> venue_scope (vr_name v) \<and> fst x \<noteq> venue_scope (vr_name v) @ '':ws''} =
      {x \<in> alarms m. fst x \<noteq> venue_scope (vr_name v) \<and> fst x \<noteq> venue_scope (vr_name v) @ '':ws''}"
proof -
  let ?n = "vr_name v"
  define t1 where "t1 = check_clock env v t"
  have t1: "ht_maintenance t1 = ht_maintenance t" "ht_data_unhealthy t1 = ht_data_unhealthy t"
      "rate_limited t1 x = rate_limited t x" for x
    by (simp_all add: t1_def check_clock_def apply_drift_def rate_limited_def)
  define m1 where "m1 = watch_rate_limit env ?n t1 m"
  note W = watch_rate_limit_alarms [OF assms(3), where env = env and v = ?n and t = t1, folded m1_def]
  obtain m2 t2 where s2: "watch_market_data p qs ?n (m1, t1) = (m2, t2)" by force
  then have m2: "manager_wf m2" "ht_maintenance t2 = ht_maintenance t"
      "ht_data_unhealthy t2 = (ht_data_unhealthy t \<and> is_unhealthy p qs ?n)"
      "alarms m2 = (if ht_data_unhealthy t \<and> \<not> is_unhealthy p qs ?n
         then alarms m1 - {(venue_scope ?n, MARKET_DATA_FAILURE)} else alarms m1)"
    using W(1) t1 by (auto simp: watch_market_data_def split: if_splits)
  have m': "m' = keep_in_step (ws_down env s) WEBSOCKET_FAILURE (Msg ''websocket down'' [AStr ?n]) (venue_scope ?n @ '':ws'') (we_now_ms env)
      (keep_in_step (ht_maintenance t) EXCHANGE_MAINTENANCE (Msg ''reports maintenance'' [AStr ?n]) (venue_scope ?n) (we_now_ms env) m2)"
    using assms(1,2) m2(2) s2 by (simp add: watch_venue_def Let_def t1_def [symmetric] m1_def [symmetric])
  have "t' = t2"
    using assms(1,2) s2 by (simp add: watch_venue_def Let_def t1_def [symmetric] m1_def [symmetric])
  have other: "x \<in> alarms m1 \<longleftrightarrow> x \<in> alarms m" if "x \<noteq> (venue_scope ?n, RATE_LIMIT)" for x using W(2) that by blast
  show ?thesis
    unfolding m' \<open>t' = t2\<close> using m2 W(3) other by (auto simp: t1)
qed

subsection \<open>Properties\<close>


text \<open>A market-data alarm can outlive its cause: when the feed has recovered and one further book is
  rejected before the next health pass, the callback clears the flag of the venue without lifting
  its alarm, and from then on no pass of the health loop lifts it while the feed stays clean, so the
  venue is blocked until somebody resets the breaker.\<close>

theorem recovered_venue_stays_blocked:
  assumes "manager_wf m" and "(venue_scope (vr_name v), MARKET_DATA_FAILURE) \<in> alarms m"
    and "\<not> is_unhealthy p qs (vr_name v)" and "on_market_data_reject p qs (vr_name v) reason now (m, t) = (m1, t1)"
    and "list_all (\<lambda>(env, qs'). \<not> is_unhealthy p qs' (vr_name v)) passes"
  shows "(venue_scope (vr_name v), MARKET_DATA_FAILURE) \<in>
    alarms (fst (foldl (\<lambda>st (env, qs'). watch_venue env s p qs' v st) (m1, t1) passes))"
proof -
  have step: "manager_wf (fst st') \<and> (venue_scope (vr_name v), MARKET_DATA_FAILURE) \<in> alarms (fst st') \<and> \<not> ht_data_unhealthy (snd st')"
    if "manager_wf (fst st)" "(venue_scope (vr_name v), MARKET_DATA_FAILURE) \<in> alarms (fst st)" "\<not> ht_data_unhealthy (snd st)"
      "st' = watch_venue env s p qs' v st" for st st' env qs'
  proof (cases "vr_connected v")
    case True
    obtain m0 t0 m2 t2 where "st = (m0, t0)" "watch_venue env s p qs' v (m0, t0) = (m2, t2)" by force
    with that watch_venue_facts [OF _ True, of env s p qs' m0 t0 m2 t2] show ?thesis by simp
  next
    case False
    with that show ?thesis by (cases st) (simp add: watch_venue_def)
  qed
  have "manager_wf (fst st) \<Longrightarrow> (venue_scope (vr_name v), MARKET_DATA_FAILURE) \<in> alarms (fst st) \<Longrightarrow> \<not> ht_data_unhealthy (snd st) \<Longrightarrow>
      (venue_scope (vr_name v), MARKET_DATA_FAILURE) \<in>
        alarms (fst (foldl (\<lambda>st (env, qs'). watch_venue env s p qs' v st) st passes))" for st
  proof (induction passes arbitrary: st)
    case (Cons a passes)
    obtain env qs' where a: "a = (env, qs')" by force
    from step [OF Cons.prems refl, of env qs'] Cons.IH [of "watch_venue env s p qs' v st"] show ?case by (simp add: a)
  qed simp
  moreover have "m1 = m" "\<not> ht_data_unhealthy t1"
    using assms(3,4) by (auto simp: on_market_data_reject_def Let_def)
  ultimately show ?thesis using assms(1,2) by simp
qed


text \<open>One pass of the gas loop with a fresh snapshot keeps the chain's alarms in step with the market: the
  gas-spike alarm is up exactly in the extreme regime, the RPC alarm is lifted, and every other alarm
  is as it was; without a snapshot no alarm of the chain is lifted.\<close>

theorem watch_gas_in_step:
  assumes "manager_wf m"
  shows "((chain_scope c, GAS_SPIKE) \<in> alarms (watch_gas env gs g (Some sn) c m)) =
      (regime gs (go_baseline g) c (gsn_gas_price_native sn) = EXTREME) \<and>
    (chain_scope c, RPC_FAILURE) \<notin> alarms (watch_gas env gs g (Some sn) c m) \<and>
    alarms (watch_gas env gs g (Some sn) c m) - {(chain_scope c, GAS_SPIKE), (chain_scope c, RPC_FAILURE)} =
      alarms m - {(chain_scope c, GAS_SPIKE), (chain_scope c, RPC_FAILURE)} \<and>
    alarms m \<subseteq> alarms (watch_gas env gs g None c m)"
proof -
  obtain m1 n where r: "record_event m (''rpc_fail:'' @ chain_value c) 300 (we_tick env) = (m1, n)" by force
  have m1: "m1 = fst (record_event m (''rpc_fail:'' @ chain_value c) 300 (we_tick env))" by (simp only: r fst_conv)
  have "manager_wf m1" "alarms m1 = alarms m"
    unfolding m1 by (rule wf_record [OF assms], rule alarms_record)
  then have "alarms m \<subseteq> alarms (watch_gas env gs g None c m)"
    unfolding watch_gas_def Let_def option.case r prod.case by (auto split: option.split)
  moreover have "alarms (watch_gas env gs g (Some sn) c m) =
      (if regime gs (go_baseline g) c (gsn_gas_price_native sn) = EXTREME
       then insert (chain_scope c, GAS_SPIKE) (alarms m - {(chain_scope c, RPC_FAILURE)})
       else alarms m - {(chain_scope c, RPC_FAILURE)} - {(chain_scope c, GAS_SPIKE)})"
    using assms by (simp add: watch_gas_def)
  ultimately show ?thesis by auto
qed

subsection \<open>Witnesses\<close>

definition quiet_watch :: watch_env where
  "quiet_watch = \<lparr>we_now_ms = 1000, we_tick = 10, we_drift = None, we_ws_stat = None, we_ws_capable = False\<rparr>"


theorem recovered_venue_stays_blocked_witness:
  "(venue_scope ''kraken'', MARKET_DATA_FAILURE) \<in> alarms (fst (watch_venue quiet_watch app_defaults default_policy []
     (demo_venue ''kraken'') (on_market_data_reject default_policy [] ''kraken'' (Msg ''stale'' []) 5
       (trip_at MARKET_DATA_FAILURE (Msg ''stale'' []) (venue_scope ''kraken'') 4 new_manager, new_tracker\<lparr>ht_data_unhealthy := True\<rparr>))))"
proof -
  define m where "m = trip_at MARKET_DATA_FAILURE (Msg ''stale'' []) (venue_scope ''kraken'') 4 new_manager"
  have m: "manager_wf m" "(venue_scope (vr_name (demo_venue ''kraken'')), MARKET_DATA_FAILURE) \<in> alarms m"
    by (simp_all add: m_def manager_wf_new)
  have q: "\<not> is_unhealthy default_policy [] x" for x by (simp add: is_unhealthy_def)
  obtain m1 t1 where r: "on_market_data_reject default_policy [] (vr_name (demo_venue ''kraken'')) (Msg ''stale'' []) 5
      (m, new_tracker\<lparr>ht_data_unhealthy := True\<rparr>) = (m1, t1)" by force
  from recovered_venue_stays_blocked [OF m q r, of "[(quiet_watch, [])]" app_defaults] r show ?thesis
    by (simp add: q m_def)
qed

theorem watch_gas_in_step_witness:
  "(chain_scope BASE, GAS_SPIKE) \<notin> alarms (watch_gas quiet_watch gas_defaults \<lparr>go_baseline = new_baseline, go_snapshots = [], go_last_error = []\<rparr>
     (Some demo_snapshot) BASE (trip_at GAS_SPIKE (Msg ''old'' []) (chain_scope BASE) 4 new_manager))"
proof -
  have "regime gas_defaults new_baseline BASE x \<noteq> EXTREME" for x
    by (simp add: regime_def new_baseline_def baseline_get_def)
  then show ?thesis
    using watch_gas_in_step [of "trip_at GAS_SPIKE (Msg ''old'' []) (chain_scope BASE) 4 new_manager" BASE quiet_watch gas_defaults
      "\<lparr>go_baseline = new_baseline, go_snapshots = [], go_last_error = []\<rparr>" demo_snapshot]
    by (simp add: manager_wf_new)
qed

end
