(* ===== verification/Market_Hub.thy ===== *)
theory Market_Hub
  imports Quality
begin

text \<open>
  Model of \<^verbatim>\<open>backend/fedr/marketdata/hub.py\<close>: the cache of order books behind the quality gate, the
  index of US dollar prices and the detection of rapid moves. The callbacks of the hub are the
  events an ingestion returns (what they do is in Supervision); the feed tasks (websocket and REST
  loops) are outside, one poll of a venue is \<open>poll_once\<close>.
\<close>

subsection \<open>State\<close>

record price_index =
  px_prices :: "(string, decimal \<times> int) dict"
  px_external :: "(string \<Rightarrow> decimal option) option"

record venue_stat =
  vst_updates :: int
  vst_invalid :: int
  vst_errors :: int
  vst_last_ms :: int
  vst_source :: "string option"
  vst_ws :: "bool option"

record market_hub =
  hub_books :: "(string \<times> string, order_book) dict"
  hub_prices :: price_index
  hub_mids :: "(string \<times> string, (int \<times> decimal) list) dict"
  hub_stats :: "(string, venue_stat) dict"
  hub_rejections :: "(string, int) dict"
  hub_quality :: quality_state

datatype hub_event = Rejected string message | Rapid_Move string string decimal

definition new_venue_stat :: venue_stat where
  "new_venue_stat = \<lparr>vst_updates = 0, vst_invalid = 0, vst_errors = 0, vst_last_ms = 0, vst_source = None, vst_ws = None\<rparr>"

definition new_hub :: market_hub where
  "new_hub = \<lparr>hub_books = [], hub_prices = \<lparr>px_prices = [], px_external = None\<rparr>, hub_mids = [], hub_stats = [],
     hub_rejections = [], hub_quality = []\<rparr>"

subsection \<open>Prices\<close>

definition STABLES :: "(string, decimal) dict" where
  "STABLES = map (\<lambda>a. (a, 1)) [''USDC'', ''USDT'', ''USD'', ''DAI'', ''FDUSD'', ''UST'']"

definition WRAPPED :: "(string, string) dict" where
  "WRAPPED = [(''WETH'', ''ETH''), (''WBTC'', ''BTC''), (''WSOL'', ''SOL''), (''WBNB'', ''BNB''), (''WMATIC'', ''POL''),
     (''MATIC'', ''POL''), (''WAVAX'', ''AVAX''), (''USDC.E'', ''USDC'')]"

definition unwrap :: "string \<Rightarrow> string" where
  "unwrap a = dget WRAPPED a a"

definition price_set :: "price_index \<Rightarrow> string \<Rightarrow> decimal \<Rightarrow> int \<Rightarrow> price_index" where
  "price_set px a price now = px\<lparr>px_prices := AList.update (unwrap a) (price, now) (px_prices px)\<rparr>"

definition price_get :: "price_index \<Rightarrow> string \<Rightarrow> int \<Rightarrow> int \<Rightarrow> decimal option" where
  "price_get px asset max_age now =
     (let a = unwrap asset; entry = map_of (px_prices px) a;
          ext = (case px_external px of None \<Rightarrow> None | Some f \<Rightarrow> f a)
      in case map_of STABLES a of
           Some p \<Rightarrow> Some p
         | None \<Rightarrow>
             (case entry of
                Some (p, ts) \<Rightarrow> if now - ts \<le> max_age then Some p else (case ext of Some x \<Rightarrow> Some x | None \<Rightarrow> Some p)
              | None \<Rightarrow> ext))"

definition PRICE_MAX_AGE_MS :: int where
  "PRICE_MAX_AGE_MS = 120000"

definition partition_slash :: "string \<Rightarrow> string \<times> string" where
  \<comment> \<open>base and quote of \<open>symbol.partition("/")\<close>\<close>
  "partition_slash s = (takeWhile (\<lambda>c. c \<noteq> CHR ''/'') s, drop 1 (dropWhile (\<lambda>c. c \<noteq> CHR ''/'') s))"

definition update_from_book :: "price_index \<Rightarrow> order_book \<Rightarrow> int \<Rightarrow> price_index" where
  "update_from_book px b now =
     (case mid b of
        None \<Rightarrow> px
      | Some m \<Rightarrow>
          if CHR '':'' \<in> set (ob_symbol b) then px
          else let (base, quote) = partition_slash (ob_symbol b);
                   qpx = (case map_of STABLES quote of Some p \<Rightarrow> Some p | None \<Rightarrow> price_get px quote PRICE_MAX_AGE_MS now)
               in (case qpx of None \<Rightarrow> px | Some q \<Rightarrow> price_set px base (dmul m q) now))"

subsection \<open>Rapid moves\<close>

definition RAPID_MOVE_WINDOW_MS :: int where
  "RAPID_MOVE_WINDOW_MS = 10000"

definition RAPID_MOVE_PCT :: rat where
  "RAPID_MOVE_PCT = 3"

definition keep_last :: "nat \<Rightarrow> 'a list \<Rightarrow> 'a list" where
  \<comment> \<open>\<open>del xs[:-n]\<close>\<close>
  "keep_last n xs = drop (length xs - n) xs"

definition check_rapid_move ::
  "(string \<times> string, (int \<times> decimal) list) dict \<Rightarrow> order_book \<Rightarrow> int \<Rightarrow>
   (string \<times> string, (int \<times> decimal) list) dict \<times> decimal option" where
  "check_rapid_move mids b now =
     (case mid b of
        None \<Rightarrow> (mids, None)
      | Some m \<Rightarrow>
          let k = (ob_venue b, ob_symbol b); ts = (if ob_ts_ms b = 0 then now else ob_ts_ms b);
              hist = keep_last 200 (dropWhile (\<lambda>(t, _). t < ts - RAPID_MOVE_WINDOW_MS) (dget mids k [] @ [(ts, m)]));
              oldest = snd (hd hist); move = dmul (ddiv (dabs (dsub m oldest)) oldest) 100
          in if length hist < 2 \<or> oldest \<le> 0 \<or> fround move < RAPID_MOVE_PCT
             then (AList.update k hist mids, None)
             else (AList.update k [] mids, Some move))"

subsection \<open>Ingestion\<close>

definition books_for :: "market_hub \<Rightarrow> string \<Rightarrow> (string, order_book) dict" where
  "books_for h symbol = map (\<lambda>((v, s), b). (v, b)) (filter (\<lambda>((v, s), b). s = symbol) (hub_books h))"

definition get_book :: "market_hub \<Rightarrow> string \<Rightarrow> string \<Rightarrow> order_book option" where
  "get_book h v s = map_of (hub_books h) (v, s)"

definition upd_stat :: "string \<Rightarrow> (venue_stat \<Rightarrow> venue_stat) \<Rightarrow> market_hub \<Rightarrow> market_hub" where
  "upd_stat v f h = h\<lparr>hub_stats := AList.update v (f (dget (hub_stats h) v new_venue_stat)) (hub_stats h)\<rparr>"

definition ingest :: "quality_policy \<Rightarrow> int \<Rightarrow> order_book \<Rightarrow> market_hub \<Rightarrow> market_hub \<times> hub_event list" where
  "ingest p now b h =
     (let v = ob_venue b; (reason, qs) = validate p (hub_quality h) b (books_for h (ob_symbol b)) now;
          h1 = h\<lparr>hub_quality := qs\<rparr>
      in case reason of
           Some r \<Rightarrow>
             ((upd_stat v (\<lambda>s. s\<lparr>vst_invalid := vst_invalid s + 1\<rparr>) h1)
                \<lparr>hub_rejections := AList.update v (dget (hub_rejections h) v 0 + 1) (hub_rejections h)\<rparr>,
              [Rejected v r])
         | None \<Rightarrow>
             let (mids, move) = check_rapid_move (hub_mids h) b now;
                 h2 = h1\<lparr>hub_books := AList.update (v, ob_symbol b) b (hub_books h),
                         hub_prices := update_from_book (hub_prices h) b now, hub_mids := mids\<rparr>
             in (upd_stat v (\<lambda>s. s\<lparr>vst_updates := vst_updates s + 1, vst_last_ms := now, vst_source := Some (ob_source b)\<rparr>) h2,
                 case move of None \<Rightarrow> [] | Some x \<Rightarrow> [Rapid_Move v (ob_symbol b) x]))"

definition poll_once ::
  "quality_policy \<Rightarrow> int \<Rightarrow> string \<Rightarrow> message + order_book \<Rightarrow> market_hub \<Rightarrow> market_hub \<times> hub_event list" where
  \<comment> \<open>the answer of \<open>fetch_order_book\<close>\<close>
  "poll_once p now v answer h =
     (case answer of
        Inl e \<Rightarrow> (upd_stat v (\<lambda>s. s\<lparr>vst_errors := vst_errors s + 1\<rparr>) h, [])
      | Inr b \<Rightarrow> ingest p now b h)"

fun ingest_all :: "quality_policy \<Rightarrow> (int \<times> order_book) list \<Rightarrow> market_hub \<Rightarrow> market_hub" where
  \<comment> \<open>a stream of books, each at its own time\<close>
  "ingest_all p [] h = h"
| "ingest_all p ((now, b) # bs) h = ingest_all p bs (fst (ingest p now b h))"

subsection \<open>Lemmas\<close>

definition accepted :: "quality_policy \<Rightarrow> int \<Rightarrow> order_book \<Rightarrow> market_hub \<Rightarrow> bool" where
  "accepted p now b h \<longleftrightarrow> fst (validate p (hub_quality h) b (books_for h (ob_symbol b)) now) = None"

lemma upd_stat_simps [simp]:
  "hub_books (upd_stat v f h) = hub_books h" "hub_prices (upd_stat v f h) = hub_prices h"
  "hub_mids (upd_stat v f h) = hub_mids h" "hub_quality (upd_stat v f h) = hub_quality h"
  by (simp_all add: upd_stat_def)

lemma ingest_fields:
  "hub_books (fst (ingest p now b h)) =
     (if accepted p now b h then AList.update (ob_venue b, ob_symbol b) b (hub_books h) else hub_books h)"
  "hub_prices (fst (ingest p now b h)) =
     (if accepted p now b h then update_from_book (hub_prices h) b now else hub_prices h)"
  "hub_mids (fst (ingest p now b h)) =
     (if accepted p now b h then fst (check_rapid_move (hub_mids h) b now) else hub_mids h)"
  "hub_quality (fst (ingest p now b h)) = snd (validate p (hub_quality h) b (books_for h (ob_symbol b)) now)"
  by (auto simp: ingest_def accepted_def Let_def split: prod.splits option.splits)

lemma accepted_valid: "accepted p now b h \<Longrightarrow> is_valid b"
  unfolding accepted_def by (auto simp: fst_validate check_book_accept dest: basic_check_accept(1))

definition hub_ok :: "market_hub \<Rightarrow> bool" where
  \<comment> \<open>every cached book is usable and stands under its own venue and symbol, every history is bounded\<close>
  "hub_ok h \<longleftrightarrow> (\<forall>(k, b) \<in> set (hub_books h). k = (ob_venue b, ob_symbol b) \<and> is_valid b) \<and>
     (\<forall>(k, hist) \<in> set (hub_mids h). length hist \<le> 200)"

lemma update_mem: "x \<in> set (AList.update k v d) \<Longrightarrow> x = (k, v) \<or> x \<in> set d"
  by (induction d) (auto split: if_splits)

lemma hub_ok_ingest: "hub_ok h \<Longrightarrow> hub_ok (fst (ingest p now b h))"
proof -
  assume ok: "hub_ok h"
  have "\<forall>(k, hist) \<in> set (fst (check_rapid_move (hub_mids h) b now)). length hist \<le> 200"
    using ok by (auto simp: hub_ok_def check_rapid_move_def keep_last_def Let_def split: option.splits if_splits dest!: update_mem)
  with ok show ?thesis
    unfolding hub_ok_def ingest_fields by (auto dest!: update_mem simp: accepted_valid)
qed

lemma books_ingest_all:
  "x \<in> set (hub_books (ingest_all p bs h)) \<Longrightarrow> x \<in> set (hub_books h) \<or> snd x \<in> snd ` set bs"
proof (induction p bs h rule: ingest_all.induct)
  case (2 p now b bs h)
  then have "x \<in> set (hub_books (fst (ingest p now b h))) \<or> snd x \<in> snd ` set bs" by simp
  then show ?case by (auto simp: ingest_fields split: if_splits dest!: update_mem)
qed simp

lemma sequence_rejected:
  assumes "vq_last_sequence (quality_of (hub_quality h) (ob_venue b)) = Some l"
    and "ob_sequence b = Some s" and "s \<le> l"
  shows "\<not> accepted p now b h"
proof
  assume "accepted p now b h"
  then have "basic_check p b (quality_of (hub_quality h) (ob_venue b)) now = None"
    by (simp add: accepted_def fst_validate check_book_accept)
  from basic_check_accept(5) [OF this] show False using assms by (simp add: sequence_check_def split: if_splits)
qed

lemma starved_run:
  assumes "vq_last_sequence (quality_of (hub_quality h) v) = Some l" and "0 \<le> vq_consecutive_rejections (quality_of (hub_quality h) v)"
    and "\<forall>(now, b) \<in> set bs. ob_venue b = v \<and> (\<exists>s. ob_sequence b = Some s \<and> s \<le> l)"
  shows "hub_books (ingest_all p bs h) = hub_books h \<and>
    vq_consecutive_rejections (quality_of (hub_quality (ingest_all p bs h)) v) =
      vq_consecutive_rejections (quality_of (hub_quality h) v) + int (length bs)"
  using assms
proof (induction bs arbitrary: h)
  case (Cons a bs)
  obtain now b where a: "a = (now, b)" by (cases a)
  obtain s where b: "ob_venue b = v" "ob_sequence b = Some s" "s \<le> l" using Cons.prems(3) by (auto simp: a)
  have na: "\<not> accepted p now b h" using Cons.prems(1) b by (auto dest: sequence_rejected [of h b l s p now])
  let ?h = "fst (ingest p now b h)"
  have f: "fst (validate p (hub_quality h) b (books_for h (ob_symbol b)) now) \<noteq> None"
    using na by (simp add: accepted_def)
  have "vq_last_sequence (quality_of (hub_quality ?h) v) = Some l"
      "vq_consecutive_rejections (quality_of (hub_quality ?h) v) = vq_consecutive_rejections (quality_of (hub_quality h) v) + 1"
    using validate_counters(2,5) [OF refl refl, of p "hub_quality h" b "books_for h (ob_symbol b)" now] f Cons.prems(1) b(1)
    unfolding ingest_fields by simp_all
  moreover have "hub_books ?h = hub_books h" using na by (simp add: ingest_fields)
  ultimately show ?case using Cons.IH [of ?h] Cons.prems(2,3) by (simp add: a)
qed simp

subsection \<open>Properties\<close>

text \<open>C33. The cache only ever holds usable books: after any stream of books from an empty hub, every
  cached book is one of the stream, stands under its own venue and symbol, has both sides and is not
  crossed, and no price history is longer than 200 entries.\<close>

theorem hub_caches_valid_books:
  "hub_ok (ingest_all p bs new_hub) \<and> snd ` set (hub_books (ingest_all p bs new_hub)) \<subseteq> snd ` set bs"
proof -
  have "hub_ok h \<Longrightarrow> hub_ok (ingest_all p bs h)" for h
    by (induction p bs h rule: ingest_all.induct) (auto intro: hub_ok_ingest)
  moreover have "hub_ok new_hub" by (simp add: hub_ok_def new_hub_def)
  moreover have "snd ` set (hub_books (ingest_all p bs new_hub)) \<subseteq> snd ` set bs"
    using books_ingest_all [of _ p bs new_hub] by (auto simp: new_hub_def)
  ultimately show ?thesis by blast
qed

text \<open>Prices come from spot books only: a book of a derivative (a symbol with a colon) or a rejected book
  changes no price, and an accepted spot book against a stable coin makes its mid the price of its
  base asset.\<close>

theorem prices_from_spot_books:
  assumes "map_of STABLES q = Some qp" and "CHR ''/'' \<notin> set base" and "map_of STABLES (unwrap base) = None"
    and "mid b = Some m" and "accepted p now b h"
  shows "(CHR '':'' \<in> set (ob_symbol b) \<longrightarrow> hub_prices (fst (ingest p now b h)) = hub_prices h) \<and>
    (ob_symbol b = base @ ''/'' @ q \<and> CHR '':'' \<notin> set (ob_symbol b) \<longrightarrow>
       price_get (hub_prices (fst (ingest p now b h))) base PRICE_MAX_AGE_MS now = Some (dmul m qp))"
proof -
  have t: "takeWhile (\<lambda>c. c \<noteq> CHR ''/'') (base @ CHR ''/'' # q) = base" "dropWhile (\<lambda>c. c \<noteq> CHR ''/'') (base @ CHR ''/'' # q) = CHR ''/'' # q"
    using assms(2) by (induction base) auto
  show ?thesis
    using assms(1,3-5)
    by (auto simp: ingest_fields update_from_book_def partition_slash_def t price_set_def price_get_def PRICE_MAX_AGE_MS_def Let_def)
qed

text \<open>A price never expires on its own: without an external provider the index answers the last price it
  was given, however old, whatever maximal age the caller asks for.\<close>

lemma price_never_expires:
  assumes "map_of (px_prices px) (unwrap a) = Some (price, ts)" and "px_external px = None" and "map_of STABLES (unwrap a) = None"
  shows "price_get px a max_age now = Some price"
  using assms by (simp add: price_get_def)

text \<open>Sequence numbers of different markets are compared with each other: once a venue has delivered a
  book with some sequence number, every book of any other market of that venue whose own numbers are
  not larger is rejected, its cached book is never refreshed, and after the configured number of
  them in a row the whole venue counts as unhealthy.\<close>

theorem other_market_starved:
  assumes "vq_last_sequence (quality_of (hub_quality h) v) = Some l" and "0 \<le> vq_consecutive_rejections (quality_of (hub_quality h) v)"
    and "\<forall>(now, b) \<in> set bs. ob_venue b = v \<and> (\<exists>s. ob_sequence b = Some s \<and> s \<le> l)"
    and "0 < qp_consecutive_rejections_unhealthy p" and "qp_consecutive_rejections_unhealthy p \<le> int (length bs)"
  shows "hub_books (ingest_all p bs h) = hub_books h \<and> is_unhealthy p (hub_quality (ingest_all p bs h)) v"
  using starved_run [OF assms(1-3), of p] assms(2,4,5) by (simp add: is_unhealthy_iff)

text \<open>A rapid-move alert is justified and rings once: its size is the move from a positive price of the same
  book not more than ten seconds older, of at least three percent, and the next book of that market
  raises none.\<close>

theorem rapid_alert_sound:
  assumes "check_rapid_move mids b now = (mids', Some move)" and "mid b = Some m" and "ob_ts_ms b \<noteq> 0"
    and "ob_venue b' = ob_venue b" and "ob_symbol b' = ob_symbol b"
    and "length (dget mids (ob_venue b, ob_symbol b) []) < 200"
  shows "3 \<le> fround move \<and>
    (\<exists>t m0. (t, m0) \<in> set (dget mids (ob_venue b, ob_symbol b) []) \<union> {(ob_ts_ms b, m)} \<and> 0 < m0 \<and>
       ob_ts_ms b - 10000 \<le> t \<and> move = dmul (ddiv (dabs (dsub m m0)) m0) 100) \<and>
    snd (check_rapid_move mids' b' now') = None"
proof -
  let ?k = "(ob_venue b, ob_symbol b)"
  define all_mids where "all_mids = dget mids ?k [] @ [(ob_ts_ms b, m)]"
  define full where "full = dropWhile (\<lambda>(t, _). t < ob_ts_ms b - RAPID_MOVE_WINDOW_MS) all_mids"
  have "length full \<le> length all_mids" unfolding full_def by (rule length_dropWhile_le)
  then have k: "keep_last 200 full = full" using assms(6) by (simp add: keep_last_def all_mids_def)
  have h: "\<not> length full < 2" "\<not> snd (hd full) \<le> 0" "\<not> fround move < RAPID_MOVE_PCT"
      "move = dmul (ddiv (dabs (dsub m (snd (hd full)))) (snd (hd full))) 100" "mids' = AList.update ?k [] mids"
    using assms(1-3) k by (auto simp: check_rapid_move_def Let_def full_def [symmetric] all_mids_def [symmetric] split: if_splits)
  then have ne: "full \<noteq> []" by auto
  obtain t m0 where f: "hd full = (t, m0)" by (cases "hd full")
  have "\<not> t < ob_ts_ms b - RAPID_MOVE_WINDOW_MS"
    using hd_dropWhile [of "\<lambda>(t, _). t < ob_ts_ms b - RAPID_MOVE_WINDOW_MS" all_mids] ne f by (simp add: full_def)
  moreover have "(t, m0) \<in> set all_mids"
    using hd_in_set [OF ne] unfolding f by (auto simp: full_def dest: set_dropWhileD)
  moreover have "snd (check_rapid_move mids' b' now') = None"
    using h(5) assms(4,5) by (auto simp: check_rapid_move_def keep_last_def Let_def split: option.split)
  ultimately show ?thesis using h f
    by (intro conjI exI [of _ t] exI [of _ m0]) (simp_all add: RAPID_MOVE_PCT_def RAPID_MOVE_WINDOW_MS_def all_mids_def disj_commute)
qed

subsection \<open>Witnesses\<close>

lemma demo_accepted: "accepted default_policy 1500 round_book new_hub"
  by (simp add: accepted_def books_for_def new_hub_def fst_validate check_book_accept basic_check_def round_book_def
      demo_book_def default_policy_def is_crossed_def best_bid_def best_ask_def sequence_check_def quality_of_def dget_def
      new_venue_quality_def spread_pct_def mid_def pct_def dec_defs dround_eval cross_source_def peer_mids_def
      List.map_filter_def)

theorem prices_from_spot_books_witness:
  "price_get (hub_prices (fst (ingest default_policy 1500 round_book new_hub))) ''BTC'' PRICE_MAX_AGE_MS 1500 = Some 100"
proof -
  have "mid round_book = Some 100" "ob_symbol round_book = ''BTC/USDC''"
    by (simp_all add: round_book_def demo_book_def mid_def best_bid_def best_ask_def dec_defs dround_eval)
  moreover have "map_of STABLES ''USDC'' = Some 1" "map_of STABLES (unwrap ''BTC'') = None"
    by (simp_all add: STABLES_def unwrap_def WRAPPED_def dget_def)
  moreover have "dmul 100 1 = 100" by (simp add: dec_defs dround_eval)
  ultimately show ?thesis
    using prices_from_spot_books [of "''USDC''" 1 "''BTC''" round_book 100 default_policy 1500 new_hub] demo_accepted by simp
qed

theorem other_market_starved_witness:
  "is_unhealthy default_policy (hub_quality (ingest_all default_policy (replicate 5 (0, demo_book\<lparr>ob_sequence := Some 3\<rparr>))
     (new_hub\<lparr>hub_quality := [(''kraken'', new_venue_quality\<lparr>vq_last_sequence := Some 7\<rparr>)]\<rparr>))) ''kraken''"
proof -
  have "\<forall>(now, b) \<in> set (replicate 5 (0, demo_book\<lparr>ob_sequence := Some 3\<rparr>)). ob_venue b = ''kraken'' \<and> (\<exists>s. ob_sequence b = Some s \<and> s \<le> 7)"
    by (simp add: demo_book_def)
  from other_market_starved [OF _ _ this] show ?thesis
    by (simp add: quality_of_def dget_def new_venue_quality_def default_policy_def)
qed

theorem rapid_alert_sound_witness:
  "\<exists>mids' move. check_rapid_move [((''kraken'', ''BTC/USDC''), [(900, 80)])] round_book 1500 = (mids', Some move) \<and>
     snd (check_rapid_move mids' round_book 1600) = None"
proof -
  have m: "mid round_book = Some 100" "ob_venue round_book = ''kraken''" "ob_symbol round_book = ''BTC/USDC''" "ob_ts_ms round_book = 1000"
    by (simp_all add: round_book_def demo_book_def mid_def best_bid_def best_ask_def dec_defs dround_eval)
  have "frepr 25" unfolding frepr_def fits_def by (intro exI [of _ 25] exI [of _ 0]) simp
  then have f: "fround 25 = 25" by (rule flt.rnd_exact)
  obtain mids' where e: "check_rapid_move [((''kraken'', ''BTC/USDC''), [(900, 80)])] round_book 1500 = (mids', Some 25)"
    by (simp add: check_rapid_move_def m dget_def keep_last_def RAPID_MOVE_WINDOW_MS_def RAPID_MOVE_PCT_def f
        dec_defs dround_eval Let_def)
  with rapid_alert_sound [OF e m(1), of round_book 1600] show ?thesis by (auto simp: m dget_def)
qed

end
