(* ===== verification/Controls.thy ===== *)
theory Controls
  imports Breaker_Spec Engine_Context
begin

text \<open>
  Model of the reconciliation (\<^verbatim>\<open>backend/fedr/engine/reconciliation.py\<close>) and of the emergency stop
  (\<^verbatim>\<open>backend/fedr/engine/emergency_stop.py\<close>). The venues' answers (balances, open orders,
  cancellations) and the clock are the record \<open>venue_answers\<close>; audit records and the stored
  document of the stop are outside.
\<close>

subsection \<open>State and answers\<close>

record recon_report =
  rr_ok :: bool
  rr_checked :: "string list"
  rr_discrepancies :: "message list"
  rr_unresolved :: "(string \<times> string) list"
  rr_ts_ms :: int

record reconciler =
  rec_last :: "recon_report option"
  rec_expected :: "(string \<times> string, decimal) dict"

record venue_answers =
  va_balances :: "string \<Rightarrow> message + (string, balance) dict"
  va_orders :: "string \<Rightarrow> message + string list"
  va_cancel :: "string \<Rightarrow> string \<Rightarrow> message option"
  va_credentials :: "string \<Rightarrow> bool"
  va_price :: "string \<Rightarrow> decimal option"
  va_recent :: "trade_record list"
  va_now_ms :: int

definition BALANCE_TOLERANCE_PCT :: decimal where
  "BALANCE_TOLERANCE_PCT = 5/10"

definition BALANCE_TOLERANCE_ABS_USD :: decimal where
  "BALANCE_TOLERANCE_ABS_USD = 1"

definition new_report :: "int \<Rightarrow> recon_report" where
  "new_report now = \<lparr>rr_ok = True, rr_checked = [], rr_discrepancies = [], rr_unresolved = [], rr_ts_ms = now\<rparr>"

definition set_expected :: "string \<Rightarrow> string \<Rightarrow> decimal \<Rightarrow> reconciler \<Rightarrow> reconciler" where
  "set_expected v a tot r = r\<lparr>rec_expected := AList.update (v, a) tot (rec_expected r)\<rparr>"

definition add_discrepancy :: "message \<Rightarrow> recon_report \<Rightarrow> recon_report" where
  "add_discrepancy d rep = rep\<lparr>rr_discrepancies := rr_discrepancies rep @ [d]\<rparr>"

subsection \<open>Simulated modes\<close>

definition recon_paper_asset ::
  "bool \<Rightarrow> string \<Rightarrow> string \<times> decimal \<times> decimal \<Rightarrow> paper_ledger \<times> recon_report \<Rightarrow> paper_ledger \<times> recon_report" where
  "recon_paper_asset idle v = (\<lambda>(a, fr, us) (l, rep).
     (if 0 < us \<and> idle then ledger_release l v a us else l,
      if fr < 0 then add_discrepancy (Msg ''paper ledger negative balance'' [AStr a, AStr v, ADec fr]) rep else rep))"

definition recon_paper_venue ::
  "bool \<Rightarrow> string \<times> (string, decimal \<times> decimal) dict \<Rightarrow> paper_ledger \<times> recon_report \<Rightarrow> paper_ledger \<times> recon_report" where
  "recon_paper_venue idle = (\<lambda>(v, assets) (l, rep).
     fold (recon_paper_asset idle v) assets (l, rep\<lparr>rr_checked := rr_checked rep @ [v]\<rparr>))"

definition reconcile_paper :: "engine_ctx \<Rightarrow> recon_report \<Rightarrow> engine_ctx \<times> recon_report" where
  "reconcile_paper cx rep =
     (case cx_ledger cx of
        None \<Rightarrow> (cx, rep)
      | Some l \<Rightarrow> (case fold (recon_paper_venue (cx_open_trade_ids cx = [])) (ledger_dump l) (l, rep) of
            (l', rep') \<Rightarrow> (cx\<lparr>cx_ledger := Some l'\<rparr>, rep')))"

subsection \<open>Live modes\<close>

definition price_or_1 :: "venue_answers \<Rightarrow> string \<Rightarrow> decimal" where
  "price_or_1 va a = (case va_price va a of None \<Rightarrow> 1 | Some p \<Rightarrow> if p = 0 then 1 else p)"

definition balance_off :: "decimal \<Rightarrow> decimal \<Rightarrow> decimal \<Rightarrow> bool" where
  \<comment> \<open>of the price, the expected and the reported total\<close>
  "balance_off px ex tot =
     (let diff = dabs (dsub tot ex) in
      BALANCE_TOLERANCE_ABS_USD < dmul diff px \<and> (ex = 0 \<or> BALANCE_TOLERANCE_PCT < dmul (ddiv diff ex) 100))"

definition recon_asset ::
  "venue_answers \<Rightarrow> string \<Rightarrow> string \<Rightarrow> string \<times> balance \<Rightarrow>
   (string \<times> string, decimal) dict \<times> recon_report \<Rightarrow> (string \<times> string, decimal) dict \<times> recon_report" where
  "recon_asset va name lv = (\<lambda>(a, b) (ex, rep).
     case map_of ex (lv, a) of
       None \<Rightarrow> (ex, rep)
     | Some e \<Rightarrow>
         (AList.update (lv, a) (bal_total b) ex,
          if balance_off (price_or_1 va a) e (bal_total b)
          then add_discrepancy (Msg ''expected but exchange reports'' [AStr name, AStr a, ADec e, ADec (bal_total b)]) rep
          else rep))"

definition recon_orders :: "venue_answers \<Rightarrow> bool \<Rightarrow> venue_ref \<Rightarrow> recon_report \<Rightarrow> recon_report" where
  "recon_orders va idle c rep =
     (if vr_kind c \<notin> {CEX, PERP} then rep
      else fold (\<lambda>oid rep1.
             let rep2 = rep1\<lparr>rr_unresolved := rr_unresolved rep1 @ [(vr_name c, oid)]\<rparr>
             in if idle then add_discrepancy (Msg ''untracked open order'' [AStr (vr_name c), AStr oid]) rep2 else rep2)
           (case va_orders va (vr_name c) of Inl _ \<Rightarrow> [] | Inr os \<Rightarrow> os) rep)"

definition recon_venue ::
  "venue_answers \<Rightarrow> bool \<Rightarrow> venue_ref \<Rightarrow> (string \<times> string, decimal) dict \<times> recon_report \<Rightarrow>
   (string \<times> string, decimal) dict \<times> recon_report" where
  "recon_venue va idle c = (\<lambda>(ex, rep).
     if \<not> vr_connected c then (ex, rep)
     else (case va_balances va (vr_name c) of
             Inl e \<Rightarrow> (ex, add_discrepancy (Msg ''balance fetch failed'' [AStr (vr_name c), AMsg e]) rep)
           | Inr bs \<Rightarrow>
               (case fold (recon_asset va (vr_name c) (ledger_venue_for c)) bs
                       (ex, rep\<lparr>rr_checked := rr_checked rep @ [vr_name c]\<rparr>) of
                  (ex1, rep1) \<Rightarrow> (ex1, recon_orders va idle c rep1))))"

definition leg_unconfirmed :: "order_result option \<Rightarrow> (string \<times> string) option" where
  "leg_unconfirmed leg =
     (case leg of
        None \<Rightarrow> None
      | Some r \<Rightarrow> (case res_tx_hash r of
            Some h \<Rightarrow> if res_status r = OPEN \<and> h \<noteq> [] then Some (or_venue (res_request r), h) else None
          | None \<Rightarrow> None))"

definition recon_trades :: "trade_record list \<Rightarrow> recon_report \<Rightarrow> recon_report" where
  "recon_trades trs rep =
     fold (\<lambda>(v, h) rep1. add_discrepancy (Msg ''transaction still unconfirmed'' [AStr v, AStr h])
              (rep1\<lparr>rr_unresolved := rr_unresolved rep1 @ [(v, h)]\<rparr>))
       (List.map_filter leg_unconfirmed (concat (map (\<lambda>tr. [tr_buy tr, tr_sell tr, tr_hedge tr]) trs))) rep"

definition reconcile_real ::
  "venue_answers \<Rightarrow> engine_ctx \<Rightarrow> (string \<times> string, decimal) dict \<times> recon_report \<Rightarrow>
   (string \<times> string, decimal) dict \<times> recon_report" where
  "reconcile_real va cx s =
     (case fold (recon_venue va (cx_open_trade_ids cx = [])) (vals (cx_connectors cx)) s of
        (ex, rep) \<Rightarrow> (ex, recon_trades (va_recent va) rep))"

definition run_once :: "venue_answers \<Rightarrow> engine_ctx \<times> reconciler \<Rightarrow> engine_ctx \<times> reconciler \<times> recon_report" where
  "run_once va = (\<lambda>(cx, r).
     let (cx1, ex1, rep1) =
           (if is_simulated_execution cx
            then (case reconcile_paper cx (new_report (va_now_ms va)) of (cx1, rep1) \<Rightarrow> (cx1, rec_expected r, rep1))
            else (case reconcile_real va cx (rec_expected r, new_report (va_now_ms va)) of (ex1, rep1) \<Rightarrow> (cx, ex1, rep1)));
         rep = rep1\<lparr>rr_ok := (rr_discrepancies rep1 = [])\<rparr>;
         cx2 = (if rr_ok rep then cx1
                else trip_global BALANCE_DISCREPANCY (Msg ''discrepancies'' (map AMsg (rr_discrepancies rep))) (va_now_ms va) cx1)
     in (cx2, \<lparr>rec_last = Some rep, rec_expected = ex1\<rparr>, rep))"

subsection \<open>Emergency stop\<close>

record stop_report =
  sr_activated_at_ms :: int
  sr_cancelled :: "(string \<times> string) list"
  sr_errors :: "message list"
  sr_reconciliation :: recon_report

record stopper =
  st_reason :: "message option"
  st_report :: "stop_report option"

definition cancel_orders :: "venue_answers \<Rightarrow> venue_ref \<Rightarrow> (string \<times> string) list \<times> message list \<Rightarrow> (string \<times> string) list \<times> message list" where
  "cancel_orders va c = (\<lambda>(cancelled, errors).
     if vr_kind c \<notin> {CEX, PERP} \<or> \<not> vr_connected c \<or> \<not> va_credentials va (vr_name c) then (cancelled, errors)
     else (case va_orders va (vr_name c) of
             Inl e \<Rightarrow> (cancelled, errors @ [Msg ''could not list open orders'' [AStr (vr_name c), AMsg e]])
           | Inr os \<Rightarrow>
               fold (\<lambda>oid (cs, es). case va_cancel va (vr_name c) oid of
                   None \<Rightarrow> (cs @ [(vr_name c, oid)], es)
                 | Some e \<Rightarrow> (cs, es @ [Msg ''cancel failed'' [AStr (vr_name c), AStr oid, AMsg e]])) os (cancelled, errors)))"

definition activate ::
  "venue_answers \<Rightarrow> message \<Rightarrow> engine_ctx \<times> reconciler \<times> stopper \<Rightarrow> engine_ctx \<times> reconciler \<times> stopper" where
  "activate va reason = (\<lambda>(cx, r, st).
     let cx1 = cx\<lparr>cx_emergency_stop := True,
               cx_breakers := fst (trip (cx_breakers cx) MANUAL (Msg ''emergency stop'' [AMsg reason]) ''global'' False (va_now_ms va))\<rparr>;
         (cancelled, errors) = fold (cancel_orders va) (vals (cx_connectors cx)) ([], []);
         (cx2, r2, rep) = run_once va (cx1, r)
     in (cx2, r2, \<lparr>st_reason = Some reason, st_report = Some \<lparr>sr_activated_at_ms = va_now_ms va,
          sr_cancelled = cancelled, sr_errors = errors, sr_reconciliation = rep\<rparr>\<rparr>))"

definition release :: "engine_ctx \<times> stopper \<Rightarrow> engine_ctx \<times> stopper" where
  "release = (\<lambda>(cx, st).
     (cx\<lparr>cx_emergency_stop := False, cx_breakers := fst (reset (cx_breakers cx) (Some MANUAL) None)\<rparr>,
      st\<lparr>st_reason := None\<rparr>))"

definition restore_stop :: "(bool \<times> message option) option \<Rightarrow> engine_ctx \<times> stopper \<Rightarrow> engine_ctx \<times> stopper" where
  \<comment> \<open>the stored document, when there is one\<close>
  "restore_stop doc = (\<lambda>(cx, st).
     case doc of
       Some (True, why) \<Rightarrow> (cx\<lparr>cx_emergency_stop := True\<rparr>, st\<lparr>st_reason := why\<rparr>)
     | _ \<Rightarrow> (cx, st))"


subsection \<open>Lemmas\<close>

definition grow :: "message list \<Rightarrow> recon_report \<Rightarrow> bool" where
  \<comment> \<open>the report still holds these discrepancies\<close>
  "grow ds rep \<longleftrightarrow> set ds \<subseteq> set (rr_discrepancies rep)"

lemma grow_refl: "grow (rr_discrepancies rep) rep"
  by (simp add: grow_def)

lemma grow_add [simp]: "grow ds rep \<Longrightarrow> grow ds (add_discrepancy d rep)"
  by (auto simp: grow_def add_discrepancy_def)

lemma grow_fields [simp]:
  "grow ds (rep\<lparr>rr_checked := x\<rparr>) = grow ds rep" "grow ds (rep\<lparr>rr_unresolved := y\<rparr>) = grow ds rep"
  by (simp_all add: grow_def)

lemma fold_keeps: "(\<And>x s. P s \<Longrightarrow> P (f x s)) \<Longrightarrow> P s \<Longrightarrow> P (fold f xs s)"
  by (induction xs arbitrary: s) auto

lemma grow_recon_asset: "grow ds (snd s) \<Longrightarrow> grow ds (snd (recon_asset va n lv ab s))"
  by (auto simp: recon_asset_def split: prod.splits option.splits)

lemma grow_recon_orders: "grow ds rep \<Longrightarrow> grow ds (recon_orders va idle c rep)"
  unfolding recon_orders_def by (cases "vr_kind c \<notin> {CEX, PERP}") (auto intro!: fold_keeps [where P = "grow ds"] simp: Let_def)

lemma grow_recon_venue: "grow ds (snd s) \<Longrightarrow> grow ds (snd (recon_venue va idle c s))"
proof -
  assume g: "grow ds (snd s)"
  obtain ex rep where s: "s = (ex, rep)" by force
  have "grow ds (snd (fold (recon_asset va n lv) bs (ex, rep\<lparr>rr_checked := x\<rparr>)))" for n lv bs x
    by (rule fold_keeps [where P = "\<lambda>s. grow ds (snd s)"]) (use g in \<open>auto simp: s intro: grow_recon_asset\<close>)
  then show ?thesis
    using g by (auto simp: recon_venue_def s intro!: grow_recon_orders split: sum.splits prod.splits) (metis snd_conv)
qed

lemma grow_recon_trades: "grow ds rep \<Longrightarrow> grow ds (recon_trades trs rep)"
  unfolding recon_trades_def by (rule fold_keeps [where P = "grow ds"]) auto

lemma fold_touch:
  \<comment> \<open>the expectation of an account no step touches stays\<close>
  assumes "\<And>x s. x \<in> set xs \<Longrightarrow> map_of (fst (f x s)) k = map_of (fst s) k"
  shows "map_of (fst (fold f xs s)) k = map_of (fst s) k"
  using assms by (induction xs arbitrary: s) auto

lemma recon_asset_other: "(lv, fst ab) \<noteq> k \<Longrightarrow> map_of (fst (recon_asset va n lv ab s)) k = map_of (fst s) k"
  by (auto simp: recon_asset_def split: prod.splits option.splits)

lemma recon_venue_other:
  assumes "ledger_venue_for c \<noteq> fst k"
  shows "map_of (fst (recon_venue va idle c s)) k = map_of (fst s) k"
proof -
  obtain ex rep where s: "s = (ex, rep)" by force
  have "map_of (fst (fold (recon_asset va n (ledger_venue_for c)) bs (ex, r))) k = map_of ex k" for n bs r
    using fold_touch [of bs "recon_asset va n (ledger_venue_for c)" k "(ex, r)", OF recon_asset_other] assms
    by (cases k) auto
  then show ?thesis by (auto simp: recon_venue_def s split: sum.splits prod.splits) (metis fst_conv)+
qed

lemma recon_asset_found:
  assumes "(a, b) \<in> set bs" and "distinct (map fst bs)" and "map_of (fst s) (lv, a) = Some e"
    and "balance_off (price_or_1 va a) e (bal_total b)"
  shows "grow [Msg ''expected but exchange reports'' [AStr n, AStr a, ADec e, ADec (bal_total b)]]
    (snd (fold (recon_asset va n lv) bs s))"
  using assms(1-3)
proof (induction bs arbitrary: s)
  case (Cons ab bs)
  let ?P = "\<lambda>s. grow [Msg ''expected but exchange reports'' [AStr n, AStr a, ADec e, ADec (bal_total b)]] (snd s)"
  show ?case
  proof (cases "ab = (a, b)")
    case True
    then have "?P (recon_asset va n lv ab s)"
      using Cons.prems(3) assms(4) by (auto simp: recon_asset_def grow_def add_discrepancy_def split: prod.splits)
    then have "?P (fold (recon_asset va n lv) bs (recon_asset va n lv ab s))"
      by (intro fold_keeps [where P = ?P]) (auto intro: grow_recon_asset)
    then show ?thesis by simp
  next
    case False
    then have "fst ab \<noteq> a" using Cons.prems(1,2) by (force simp: image_iff)
    then have "map_of (fst (recon_asset va n lv ab s)) (lv, a) = Some e"
      using Cons.prems(3) by (simp add: recon_asset_other)
    then show ?thesis using Cons.IH Cons.prems(1,2) False by simp
  qed
qed simp

lemma recon_venue_found:
  assumes "vr_connected c" and "va_balances va (vr_name c) = Inr bs" and "(a, b) \<in> set bs" and "distinct (map fst bs)"
    and "map_of (fst s) (ledger_venue_for c, a) = Some e" and "balance_off (price_or_1 va a) e (bal_total b)"
  shows "grow [Msg ''expected but exchange reports'' [AStr (vr_name c), AStr a, ADec e, ADec (bal_total b)]]
    (snd (recon_venue va idle c s))"
proof -
  obtain ex rep where s: "s = (ex, rep)" by force
  define s1 where "s1 = fold (recon_asset va (vr_name c) (ledger_venue_for c)) bs (ex, rep\<lparr>rr_checked := rr_checked rep @ [vr_name c]\<rparr>)"
  have "grow [Msg ''expected but exchange reports'' [AStr (vr_name c), AStr a, ADec e, ADec (bal_total b)]] (snd s1)"
    unfolding s1_def by (rule recon_asset_found [OF assms(3,4) _ assms(6)]) (use assms(5) in \<open>simp add: s\<close>)
  then show ?thesis
    using assms(1,2) by (auto simp: recon_venue_def s s1_def [symmetric] split: prod.splits intro: grow_recon_orders)
qed

lemma recon_all_found:
  assumes "c \<in> set cs" and "distinct (map ledger_venue_for cs)" and "vr_connected c" and "va_balances va (vr_name c) = Inr bs"
    and "(a, b) \<in> set bs" and "distinct (map fst bs)" and "map_of (fst s) (ledger_venue_for c, a) = Some e"
    and "balance_off (price_or_1 va a) e (bal_total b)"
  shows "grow [Msg ''expected but exchange reports'' [AStr (vr_name c), AStr a, ADec e, ADec (bal_total b)]]
    (snd (fold (recon_venue va idle) cs s))"
  using assms(1,2,7)
proof (induction cs arbitrary: s)
  case (Cons d cs)
  let ?P = "\<lambda>s. grow [Msg ''expected but exchange reports'' [AStr (vr_name c), AStr a, ADec e, ADec (bal_total b)]] (snd s)"
  show ?case
  proof (cases "d = c")
    case True
    have "?P (recon_venue va idle d s)"
      unfolding True by (rule recon_venue_found [OF assms(3-6) Cons.prems(3) assms(8)])
    then have "?P (fold (recon_venue va idle) cs (recon_venue va idle d s))"
      by (intro fold_keeps [where P = ?P]) (auto intro: grow_recon_venue)
    then show ?thesis by simp
  next
    case False
    then have "ledger_venue_for d \<noteq> ledger_venue_for c" using Cons.prems(1,2) by (force simp: image_iff)
    then have "map_of (fst (recon_venue va idle d s)) (ledger_venue_for c, a) = Some e"
      using Cons.prems(3) by (simp add: recon_venue_other)
    then show ?thesis using Cons.IH Cons.prems(1,2) False by simp
  qed
qed simp

subsection \<open>Properties\<close>

text \<open>A live reconciliation reports what is off and stops trading: when a connected venue answers with a
  balance that differs from the expected one by more than a dollar and half a percent, the report is
  not ok and a global balance alarm is up.\<close>

theorem live_reconcile_detects:
  assumes "run_once va (cx, r) = (cx', r', rep)" and "\<not> is_simulated_execution cx" and "manager_wf (cx_breakers cx)"
    and "c \<in> set (vals (cx_connectors cx))" and "distinct (map ledger_venue_for (vals (cx_connectors cx)))"
    and "vr_connected c" and "va_balances va (vr_name c) = Inr bs" and "(a, b) \<in> set bs" and "distinct (map fst bs)"
    and "map_of (rec_expected r) (ledger_venue_for c, a) = Some e" and "balance_off (price_or_1 va a) e (bal_total b)"
  shows "\<not> rr_ok rep \<and> (''global'', BALANCE_DISCREPANCY) \<in> alarms (cx_breakers cx') \<and> is_tripped (cx_breakers cx') ''global''"
proof -
  define s where "s = fold (recon_venue va (cx_open_trade_ids cx = [])) (vals (cx_connectors cx))
    (rec_expected r, new_report (va_now_ms va))"
  have "grow [Msg ''expected but exchange reports'' [AStr (vr_name c), AStr a, ADec e, ADec (bal_total b)]] (snd s)"
    unfolding s_def by (rule recon_all_found [OF assms(4-9) _ assms(11)]) (simp add: assms(10))
  then have "grow [Msg ''expected but exchange reports'' [AStr (vr_name c), AStr a, ADec e, ADec (bal_total b)]]
      (recon_trades (va_recent va) (snd s))" by (rule grow_recon_trades)
  then have d: "rr_discrepancies (recon_trades (va_recent va) (snd s)) \<noteq> []" by (auto simp: grow_def)
  have "reconcile_real va cx (rec_expected r, new_report (va_now_ms va)) = (fst s, recon_trades (va_recent va) (snd s))"
    by (simp add: reconcile_real_def s_def split: prod.split)
  then have ok: "\<not> rr_ok rep" and br: "cx_breakers cx' = fst (trip (cx_breakers cx) BALANCE_DISCREPANCY
      (Msg ''discrepancies'' (map AMsg (rr_discrepancies (recon_trades (va_recent va) (snd s))))) ''global'' True (va_now_ms va))"
    using assms(1,2) d by (auto simp: run_once_def trip_global_def Let_def)
  have "(''global'', BALANCE_DISCREPANCY) \<in> alarms (cx_breakers cx')"
    unfolding br by (simp add: alarms_trip [OF assms(3)])
  moreover from this have "is_tripped (cx_breakers cx') ''global''"
    unfolding is_tripped_alarms alarm_on_def by (auto intro: bexI [rotated])
  ultimately show ?thesis using ok by blast
qed

text \<open>A lost asset goes unnoticed: only the assets a venue lists are compared with the expectation, and
  the connectors leave zero balances out, so when the venues answer with nothing at all the report is
  ok and no alarm is raised, whatever was expected.\<close>

theorem missing_asset_unnoticed:
  assumes "\<not> is_simulated_execution cx" and "va_recent va = []"
    and "\<And>v. va_balances va v = Inr []" and "\<And>v. va_orders va v = Inr []"
    and "run_once va (cx, r) = (cx', r', rep)"
  shows "rr_ok rep \<and> cx' = cx \<and> rec_expected r' = rec_expected r"
proof -
  have "recon_venue va idle c (ex, rep0) = (ex, if vr_connected c then rep0\<lparr>rr_checked := rr_checked rep0 @ [vr_name c]\<rparr> else rep0)"
    for idle c ex rep0
    by (simp add: recon_venue_def recon_orders_def assms(3,4))
  then have "fst (fold (recon_venue va idle) cs (ex, rep0)) = ex \<and>
      rr_discrepancies (snd (fold (recon_venue va idle) cs (ex, rep0))) = rr_discrepancies rep0" for idle cs ex rep0
    by (induction cs arbitrary: rep0) auto
  then have "fst (reconcile_real va cx (rec_expected r, new_report (va_now_ms va))) = rec_expected r"
      "rr_discrepancies (snd (reconcile_real va cx (rec_expected r, new_report (va_now_ms va)))) = []"
    by (auto simp: reconcile_real_def recon_trades_def assms(2) new_report_def List.map_filter_simps split: prod.splits)
  then show ?thesis using assms(1,5) by (auto simp: run_once_def Let_def split: prod.splits)
qed

definition ledger_wf :: "paper_ledger \<Rightarrow> bool" where
  "ledger_wf l \<longleftrightarrow> wf_dict (pl_bal l) \<and> (\<forall>assets \<in> snd ` set (pl_bal l). wf_dict assets)"

definition healed :: "balance \<Rightarrow> balance" where
  "healed b = (if 0 < bal_used b then b\<lparr>bal_used := 0, bal_free := dadd (bal_free b) (bal_used b)\<rparr> else b)"

definition accounts :: "paper_ledger \<Rightarrow> (string \<times> string \<times> decimal \<times> decimal) list" where
  "accounts l = concat (map (\<lambda>(v, assets). map (\<lambda>(a, b). (v, a, bal_free b, bal_used b)) assets) (pl_bal l))"

lemma acct_map_of: "acct l v a = (case map_of (pl_bal l) v of None \<Rightarrow> new_balance a
    | Some assets \<Rightarrow> (case map_of assets a of None \<Rightarrow> new_balance a | Some b \<Rightarrow> b))"
  by (simp add: acct_def dget_def split: option.split)

lemma accounts_iff:
  assumes "ledger_wf l"
  shows "(v, a, fr, us) \<in> set (accounts l) \<longleftrightarrow>
    (\<exists>assets b. map_of (pl_bal l) v = Some assets \<and> map_of assets a = Some b \<and> fr = bal_free b \<and> us = bal_used b)"
proof -
  have w: "wf_dict (pl_bal l)" "\<And>as. (v, as) \<in> set (pl_bal l) \<Longrightarrow> wf_dict as"
    using assms by (auto simp: ledger_wf_def)
  have "(v, a, fr, us) \<in> set (accounts l) \<longleftrightarrow>
      (\<exists>assets b. (v, assets) \<in> set (pl_bal l) \<and> (a, b) \<in> set assets \<and> fr = bal_free b \<and> us = bal_used b)"
    by (fastforce simp: accounts_def)
  also have "\<dots> \<longleftrightarrow> (\<exists>assets b. map_of (pl_bal l) v = Some assets \<and> map_of assets a = Some b \<and>
      fr = bal_free b \<and> us = bal_used b)"
    using w(2) by (simp add: wf_dict_in_iff [OF w(1)]) (metis wf_dict_in_iff)
  finally show ?thesis .
qed

lemma accounts_acct:
  assumes "ledger_wf l" and "(v, a, fr, us) \<in> set (accounts l)"
  shows "fr = bal_free (acct l v a) \<and> us = bal_used (acct l v a)"
  using assms by (auto simp: accounts_iff acct_map_of)

lemma accounts_missing:
  assumes "ledger_wf l" and "(v, a) \<notin> (\<lambda>(v, a, _). (v, a)) ` set (accounts l)"
  shows "acct l v a = new_balance a"
proof -
  have "(v, a, fr, us) \<notin> set (accounts l)" for fr us using assms(2) by force
  then show ?thesis by (auto simp: accounts_iff [OF assms(1)] acct_map_of split: option.split)
qed

lemma distinct_accounts:
  assumes "ledger_wf l"
  shows "distinct (map (\<lambda>(v, a, _). (v, a)) (accounts l))"
proof -
  have "wf_dict d \<Longrightarrow> \<forall>assets \<in> snd ` set d. wf_dict assets \<Longrightarrow>
      distinct (map (\<lambda>(v, a, _). (v, a)) (concat (map (\<lambda>(v, assets). map (\<lambda>(a, b). (v, a, bal_free b, bal_used b)) assets) d)))"
    for d :: "(string, (string, balance) dict) dict"
  proof (induction d)
    case (Cons x d)
    obtain v as where x: "x = (v, as)" by force
    have "distinct (map (\<lambda>(a, b). (v, a)) as)"
      using Cons.prems by (simp add: x wf_dict_def distinct_map inj_on_def split_def)
    moreover have "v \<notin> fst ` set d" using Cons.prems(1) by (simp add: x wf_dict_def)
    ultimately show ?case
      using Cons by (auto simp: x wf_dict_def comp_def split_def image_iff)
  qed simp
  then show ?thesis using assms unfolding ledger_wf_def accounts_def by blast
qed

definition heal_step :: "string \<times> string \<times> decimal \<times> decimal \<Rightarrow> paper_ledger \<Rightarrow> paper_ledger" where
  "heal_step = (\<lambda>(v, a, fr, us) l. if 0 < us then ledger_release l v a us else l)"

definition note_step :: "string \<times> string \<times> decimal \<times> decimal \<Rightarrow> recon_report \<Rightarrow> recon_report" where
  "note_step = (\<lambda>(v, a, fr, us) rep.
     if fr < 0 then add_discrepancy (Msg ''paper ledger negative balance'' [AStr a, AStr v, ADec fr]) rep else rep)"

lemma fold_asset_split:
  "fold (recon_paper_asset True v) assets (l, rep) =
     (fold heal_step (map (\<lambda>(a, x). (v, a, x)) assets) l, fold note_step (map (\<lambda>(a, x). (v, a, x)) assets) rep)"
  by (induction assets arbitrary: l rep) (auto simp: recon_paper_asset_def heal_step_def note_step_def)

lemma note_checked: "rr_discrepancies (fold note_step xs rep) = [] \<longleftrightarrow>
    rr_discrepancies rep = [] \<and> (\<forall>(v, a, fr, us) \<in> set xs. 0 \<le> fr)"
  by (induction xs arbitrary: rep) (auto simp: note_step_def add_discrepancy_def split: if_splits)

lemma fold_venue_split:
  defines "flat \<equiv> \<lambda>d. concat (map (\<lambda>(v, assets). map (\<lambda>(a, x). (v, a, x)) assets) d)"
  shows "fst (fold (recon_paper_venue True) d (l, rep)) = fold heal_step (flat d) l \<and>
    (rr_discrepancies (snd (fold (recon_paper_venue True) d (l, rep))) = [] \<longleftrightarrow>
      rr_discrepancies rep = [] \<and> (\<forall>(v, a, fr, us) \<in> set (flat d). 0 \<le> fr))"
proof (induction d arbitrary: l rep)
  case (Cons x d)
  obtain v as where x: "x = (v, as)" by force
  let ?as = "map (\<lambda>(a, x). (v, a, x)) as"
  let ?l = "fold heal_step ?as l" and ?rep = "fold note_step ?as (rep\<lparr>rr_checked := rr_checked rep @ [v]\<rparr>)"
  have f: "flat (x # d) = ?as @ flat d" by (simp add: flat_def x)
  have one: "recon_paper_venue True x (l, rep) = (?l, ?rep)"
    by (simp add: x recon_paper_venue_def fold_asset_split)
  have n: "rr_discrepancies ?rep = [] \<longleftrightarrow> rr_discrepancies rep = [] \<and> (\<forall>(v, a, fr, us) \<in> set ?as. 0 \<le> fr)"
    unfolding note_checked by simp
  have "fst (fold (recon_paper_venue True) (x # d) (l, rep)) = fold heal_step (flat d) ?l"
    using Cons.IH [of ?l ?rep] by (simp only: fold_simps one)
  moreover have "rr_discrepancies (snd (fold (recon_paper_venue True) (x # d) (l, rep))) = [] \<longleftrightarrow>
      rr_discrepancies ?rep = [] \<and> (\<forall>(v, a, fr, us) \<in> set (flat d). 0 \<le> fr)"
    using Cons.IH [of ?l ?rep] by (simp only: fold_simps one)
  ultimately show ?case unfolding f n set_append ball_Un fold_append comp_apply by blast
qed (simp add: flat_def)

lemma acct_heal_step:
  "us = bal_used (acct l v a) \<Longrightarrow> acct (heal_step (v, a, fr, us) l) v' a' =
     (if v' = v \<and> a' = a then healed (acct l v a) else acct l v' a')"
  by (auto simp: heal_step_def acct_release healed_def dsub_def)

lemma acct_heal:
  assumes "distinct (map (\<lambda>(v, a, _). (v, a)) xs)"
    and "\<And>v a fr us. (v, a, fr, us) \<in> set xs \<Longrightarrow> us = bal_used (acct l v a)"
  shows "acct (fold heal_step xs l) v a =
    (if (v, a) \<in> (\<lambda>(v, a, _). (v, a)) ` set xs then healed (acct l v a) else acct l v a)"
  using assms
proof (induction xs arbitrary: l)
  case (Cons x xs)
  obtain w c fr us where x: "x = (w, c, fr, us)" by (metis prod.exhaust)
  have us: "us = bal_used (acct l w c)" using Cons.prems(2) [of w c fr us] by (simp add: x)
  have new: "(w, c) \<notin> (\<lambda>(v, a, _). (v, a)) ` set xs" using Cons.prems(1) by (simp add: x)
  have step: "acct (heal_step x l) v a = (if v = w \<and> a = c then healed (acct l w c) else acct l v a)" for v a
    unfolding x by (rule acct_heal_step [OF us])
  have "acct (fold heal_step xs (heal_step x l)) v a =
      (if (v, a) \<in> (\<lambda>(v, a, _). (v, a)) ` set xs then healed (acct (heal_step x l) v a) else acct (heal_step x l) v a)"
  proof (rule Cons.IH)
    show "distinct (map (\<lambda>(v, a, _). (v, a)) xs)" using Cons.prems(1) by simp
  next
    fix v a fr us assume m: "(v, a, fr, us) \<in> set xs"
    then have "\<not> (v = w \<and> a = c)" using new by force
    then show "us = bal_used (acct (heal_step x l) v a)" using Cons.prems(2) m by (auto simp: step)
  qed
  moreover have "(\<lambda>(v, a, _). (v, a)) ` set (x # xs) = insert (w, c) ((\<lambda>(v, a, _). (v, a)) ` set xs)"
    by (simp add: x)
  ultimately show ?case using new by (simp only: fold_simps step) auto
qed simp

lemma accounts_dump:
  "concat (map (\<lambda>(v, assets). map (\<lambda>(a, x). (v, a, x)) assets) (ledger_dump l)) = accounts l"
  by (simp add: ledger_dump_def accounts_def comp_def split_def)

lemma reconcile_paper_ledger:
  fixes l :: paper_ledger and rep :: recon_report
  assumes "ledger_wf l"
  defines "s \<equiv> fold (recon_paper_venue True) (ledger_dump l) (l, rep)"
  shows "acct (fst s) v a = healed (acct l v a)"
    and "rr_discrepancies (snd s) = [] \<longleftrightarrow> rr_discrepancies rep = [] \<and> (\<forall>v a. 0 \<le> bal_free (acct l v a))"
proof -
  have s: "fst s = fold heal_step (accounts l) l"
      "rr_discrepancies (snd s) = [] \<longleftrightarrow> rr_discrepancies rep = [] \<and> (\<forall>(v, a, fr, us) \<in> set (accounts l). 0 \<le> fr)"
    using fold_venue_split [of "ledger_dump l" l rep] unfolding s_def accounts_dump by blast+
  have new: "healed (new_balance a) = new_balance a" for a by (simp add: healed_def new_balance_def)
  have "acct (fold heal_step (accounts l) l) v a =
    (if (v, a) \<in> (\<lambda>(v, a, _). (v, a)) ` set (accounts l) then healed (acct l v a) else acct l v a)"
    by (rule acct_heal [OF distinct_accounts [OF assms(1)]]) (use accounts_acct [OF assms(1)] in blast)
  then show "acct (fst s) v a = healed (acct l v a)"
    unfolding s(1) by (simp add: accounts_missing [OF assms(1)] new)
  have "(\<forall>(v, a, fr, us) \<in> set (accounts l). 0 \<le> fr) \<longleftrightarrow> (\<forall>v a. 0 \<le> bal_free (acct l v a))"
  proof
    assume h: "\<forall>(v, a, fr, us) \<in> set (accounts l). 0 \<le> fr"
    show "\<forall>v a. 0 \<le> bal_free (acct l v a)"
    proof (intro allI)
      fix v a
      show "0 \<le> bal_free (acct l v a)"
      proof (cases "(v, a) \<in> (\<lambda>(v, a, _). (v, a)) ` set (accounts l)")
        case True
        then obtain fr us where "(v, a, fr, us) \<in> set (accounts l)" by auto
        with h accounts_acct [OF assms(1) this] show ?thesis by auto
      next
        case False
        then show ?thesis using accounts_missing [OF assms(1)] by (simp add: new_balance_def)
      qed
    qed
  next
    assume h: "\<forall>v a. 0 \<le> bal_free (acct l v a)"
    show "\<forall>(v, a, fr, us) \<in> set (accounts l). 0 \<le> fr"
      using h accounts_acct [OF assms(1)] by fastforce
  qed
  with s(2) show "rr_discrepancies (snd s) = [] \<longleftrightarrow> rr_discrepancies rep = [] \<and> (\<forall>v a. 0 \<le> bal_free (acct l v a))"
    by blast
qed

text \<open>An idle paper reconciliation heals the ledger: with no trade open, every reservation is moved back
  to the free balance and no other account changes; the report is ok exactly when no free balance
  was negative, and otherwise a global balance alarm stops trading.\<close>

theorem paper_reconcile_heals:
  assumes "is_simulated_execution cx" and "cx_ledger cx = Some l" and "cx_open_trade_ids cx = []" and "ledger_wf l"
    and "manager_wf (cx_breakers cx)" and "run_once va (cx, r) = (cx', r', rep)"
  shows "(\<exists>l'. cx_ledger cx' = Some l' \<and> (\<forall>v a. acct l' v a = healed (acct l v a))) \<and>
    (rr_ok rep = (\<forall>v a. 0 \<le> bal_free (acct l v a))) \<and>
    alarms (cx_breakers cx') = alarms (cx_breakers cx) \<union> (if rr_ok rep then {} else {(''global'', BALANCE_DISCREPANCY)})"
proof -
  define s where "s = fold (recon_paper_venue True) (ledger_dump l) (l, new_report (va_now_ms va))"
  have p: "reconcile_paper cx (new_report (va_now_ms va)) = (cx\<lparr>cx_ledger := Some (fst s)\<rparr>, snd s)"
    by (simp add: reconcile_paper_def assms(2,3) s_def split_def)
  have ok: "rr_ok rep = (rr_discrepancies (snd s) = [])"
      and l': "cx_ledger cx' = Some (fst s)"
      and al: "alarms (cx_breakers cx') = alarms (cx_breakers cx) \<union> (if rr_ok rep then {} else {(''global'', BALANCE_DISCREPANCY)})"
    using assms(1,6) by (auto simp: run_once_def p Let_def trip_global_def alarms_trip [OF assms(5)])
  have "rr_ok rep = (\<forall>v a. 0 \<le> bal_free (acct l v a))"
    unfolding ok s_def reconcile_paper_ledger(2) [OF assms(4)] by (simp add: new_report_def)
  moreover have "\<forall>v a. acct (fst s) v a = healed (acct l v a)"
    unfolding s_def using reconcile_paper_ledger(1) [OF assms(4)] by blast
  ultimately show ?thesis using l' al by blast
qed

lemma run_once_stop: "cx_emergency_stop (fst (run_once va (cx, r))) = cx_emergency_stop cx"
  by (auto simp: run_once_def reconcile_paper_def Let_def trip_global_def split: prod.splits option.splits)

lemma run_once_alarms:
  assumes "manager_wf (cx_breakers cx)" and "run_once va (cx, r) = (cx', r', rep)"
  shows "alarms (cx_breakers cx') = alarms (cx_breakers cx) \<union> (if rr_ok rep then {} else {(''global'', BALANCE_DISCREPANCY)})"
  using assms
  by (auto simp: run_once_def reconcile_paper_def Let_def trip_global_def alarms_trip split: prod.splits option.splits if_splits)

text \<open>Releasing the emergency stop undoes it, and more: after activate and release the flag is down again
  and the alarms are those of before without any manual one (also those an operator had put on a
  single venue), plus a balance alarm when the reconciliation of the stop found a discrepancy.\<close>

theorem release_after_stop:
  assumes "activate va why (cx, r, st) = (cx1, r1, st1)" and "st_report st1 = Some sr"
    and "release (cx1, st1) = (cx2, st2)" and "manager_wf (cx_breakers cx)"
  shows "\<not> cx_emergency_stop cx2 \<and> st_reason st2 = None \<and>
    alarms (cx_breakers cx2) = {x \<in> alarms (cx_breakers cx). snd x \<noteq> MANUAL} \<union>
      (if rr_ok (sr_reconciliation sr) then {} else {(''global'', BALANCE_DISCREPANCY)})"
proof -
  define cx0 where "cx0 = cx\<lparr>cx_emergency_stop := True,
    cx_breakers := fst (trip (cx_breakers cx) MANUAL (Msg ''emergency stop'' [AMsg why]) ''global'' False (va_now_ms va))\<rparr>"
  obtain cxr rr rep where run: "run_once va (cx0, r) = (cxr, rr, rep)" by (metis prod.exhaust)
  have wf: "manager_wf (cx_breakers cx0)" by (simp add: cx0_def manager_wf_trip assms(4))
  have "cx1 = cxr" "sr_reconciliation sr = rep"
    using assms(1,2) run unfolding cx0_def by (auto simp: activate_def Let_def split: prod.splits)
  moreover have "alarms (cx_breakers cx0) = insert (''global'', MANUAL) (alarms (cx_breakers cx))"
    by (simp add: cx0_def alarms_trip [OF assms(4)])
  ultimately have "alarms (cx_breakers cx1) = insert (''global'', MANUAL) (alarms (cx_breakers cx)) \<union>
      (if rr_ok (sr_reconciliation sr) then {} else {(''global'', BALANCE_DISCREPANCY)})"
    using run_once_alarms [OF wf run] by simp
  then show ?thesis
    using assms(3) by (auto simp: release_def alarms_reset alarm_matches_def)
qed

subsection \<open>Witnesses\<close>

definition demo_live :: engine_ctx where
  "demo_live = demo_ctx\<lparr>cx_settings := (default_settings ''live'')
     \<lparr>s_general := (s_general (default_settings ''live''))\<lparr>gs_mode := LIVE\<rparr>\<rparr>\<rparr>"

definition demo_answers :: "(string, balance) dict \<Rightarrow> venue_answers" where
  "demo_answers bs = \<lparr>va_balances = \<lambda>_. Inr bs, va_orders = \<lambda>_. Inr [], va_cancel = \<lambda>_ _. None,
     va_credentials = \<lambda>_. True, va_price = \<lambda>_. Some 1, va_recent = [], va_now_ms = 5\<rparr>"

definition demo_expected :: reconciler where
  "demo_expected = set_expected ''kraken'' ''USDC'' 1000 \<lparr>rec_last = None, rec_expected = []\<rparr>"

lemma demo_live_simps [simp]:
  "\<not> is_simulated_execution demo_live" "cx_breakers demo_live = new_manager"
  "vals (cx_connectors demo_live) = [demo_venue ''kraken'', demo_venue ''coinbase'']"
  by (simp_all add: demo_live_def is_simulated_execution_def cx_mode_def demo_ctx_def vals_def)

theorem live_reconcile_detects_witness:
  "\<exists>cx' r' rep. run_once (demo_answers [(''USDC'', \<lparr>bal_asset = ''USDC'', bal_free = 500, bal_used = 0\<rparr>)]) (demo_live, demo_expected) =
     (cx', r', rep) \<and> \<not> rr_ok rep \<and> is_tripped (cx_breakers cx') ''global''"
proof -
  let ?b = "\<lparr>bal_asset = ''USDC'', bal_free = 500, bal_used = 0\<rparr>"
  obtain cx' r' rep where run: "run_once (demo_answers [(''USDC'', ?b)]) (demo_live, demo_expected) = (cx', r', rep)"
    by (metis prod.exhaust)
  have off: "balance_off (price_or_1 (demo_answers [(''USDC'', ?b)]) ''USDC'') 1000 (bal_total ?b)"
    by (simp add: balance_off_def price_or_1_def demo_answers_def bal_total_def dec_defs dround_eval
        BALANCE_TOLERANCE_ABS_USD_def BALANCE_TOLERANCE_PCT_def)
  have "\<not> rr_ok rep \<and> (''global'', BALANCE_DISCREPANCY) \<in> alarms (cx_breakers cx') \<and> is_tripped (cx_breakers cx') ''global''"
    by (rule live_reconcile_detects [OF run, where c = "demo_venue ''kraken''" and a = "''USDC''" and b = ?b
          and bs = "[(''USDC'', ?b)]" and e = 1000])
      (use off manager_wf_new in \<open>auto simp: demo_answers_def demo_expected_def set_expected_def demo_venue_def ledger_venue_for_def\<close>)
  with run show ?thesis by blast
qed

theorem missing_asset_unnoticed_witness:
  "\<exists>cx' r' rep. run_once (demo_answers []) (demo_live, demo_expected) = (cx', r', rep) \<and> rr_ok rep \<and>
     rec_expected r' = [((''kraken'', ''USDC''), 1000)]"
proof -
  obtain cx' r' rep where run: "run_once (demo_answers []) (demo_live, demo_expected) = (cx', r', rep)"
    by (metis prod.exhaust)
  have "rr_ok rep \<and> cx' = demo_live \<and> rec_expected r' = rec_expected demo_expected"
    by (rule missing_asset_unnoticed [OF _ _ _ _ run]) (simp_all add: demo_answers_def)
  then show ?thesis using run by (simp add: demo_expected_def set_expected_def)
qed

definition stale_ctx :: engine_ctx where
  "stale_ctx = demo_ctx\<lparr>cx_ledger := Some (fst (ledger_reserve demo_ledger ''kraken'' ''USDC'' 500))\<rparr>"

lemma ledger_wf_put: "ledger_wf l \<Longrightarrow> ledger_wf (put_acct v a b l)"
proof -
  assume w: "ledger_wf l"
  have d: "wf_dict (dget (pl_bal l) v [])"
    using w by (force simp: ledger_wf_def dget_def split: option.split dest!: map_of_SomeD)
  define new where "new = AList.update a b (dget (pl_bal l) v [])"
  have "assets = new \<or> assets \<in> snd ` set (pl_bal l)" if "assets \<in> snd ` set (AList.update v new (pl_bal l))" for assets
    using that set_update_subset [of v new "pl_bal l"] by force
  moreover have "wf_dict new" using d by (simp add: new_def)
  ultimately have "wf_dict assets" if "assets \<in> snd ` set (AList.update v new (pl_bal l))" for assets
    using that w unfolding ledger_wf_def by blast
  then show ?thesis
    using w unfolding ledger_wf_def put_acct_def new_def [symmetric] by simp
qed

lemma ledger_wf_reserve: "ledger_wf l \<Longrightarrow> ledger_wf (fst (ledger_reserve l v a x))"
proof -
  assume "ledger_wf l"
  then have "ledger_wf (ensure_acct v a l)" "ledger_wf (upd_acct v a f (ensure_acct v a l))" for f
    by (simp_all add: ensure_acct_def upd_acct_def ledger_wf_put)
  then show ?thesis by (auto simp: ledger_reserve_def Let_def mark_dirty_def ledger_wf_def)
qed

theorem paper_reconcile_heals_witness:
  "\<exists>cx' r' rep l'. run_once (demo_answers []) (stale_ctx, demo_expected) = (cx', r', rep) \<and>
     cx_ledger cx' = Some l' \<and> bal_free (acct l' ''kraken'' ''USDC'') = 1200 \<and> bal_used (acct l' ''kraken'' ''USDC'') = 0"
proof -
  obtain cx' r' rep where run: "run_once (demo_answers []) (stale_ctx, demo_expected) = (cx', r', rep)"
    by (metis prod.exhaust)
  have w: "ledger_wf demo_ledger"
    by (simp add: ledger_wf_def demo_ledger_def ledger_seed_def wf_dict_def)
  have a: "acct (fst (ledger_reserve demo_ledger ''kraken'' ''USDC'' 500)) ''kraken'' ''USDC'' =
      \<lparr>bal_asset = ''USDC'', bal_free = 700, bal_used = 500\<rparr>"
    by (simp add: acct_reserve demo_accts dec_defs dround_eval)
  have sim: "is_simulated_execution stale_ctx"
    by (simp add: stale_ctx_def is_simulated_execution_def cx_mode_def demo_ctx_def default_settings_def
        conservative_profile_def parse_mode_def Let_def)
  have "\<exists>l'. cx_ledger cx' = Some l' \<and>
      (\<forall>v a. acct l' v a = healed (acct (fst (ledger_reserve demo_ledger ''kraken'' ''USDC'' 500)) v a))"
    using paper_reconcile_heals [OF sim _ _ _ _ run, of "fst (ledger_reserve demo_ledger ''kraken'' ''USDC'' 500)"]
    by (simp add: stale_ctx_def ledger_wf_reserve w manager_wf_new)
  then show ?thesis using run a by (auto simp: healed_def dec_defs dround_eval)
qed

theorem release_after_stop_witness:
  "\<exists>cx1 r1 st1 cx2 st2. activate (demo_answers []) (Msg ''drill'' []) (demo_live, demo_expected, \<lparr>st_reason = None, st_report = None\<rparr>) =
     (cx1, r1, st1) \<and> release (cx1, st1) = (cx2, st2) \<and> \<not> cx_emergency_stop cx2"
proof -
  obtain cx1 r1 st1 where act: "activate (demo_answers []) (Msg ''drill'' []) (demo_live, demo_expected, \<lparr>st_reason = None, st_report = None\<rparr>) =
     (cx1, r1, st1)" by (metis prod.exhaust)
  obtain cx2 st2 where rel: "release (cx1, st1) = (cx2, st2)" by (metis prod.exhaust)
  obtain sr where "st_report st1 = Some sr"
    using act by (auto simp: activate_def Let_def split: prod.splits)
  from release_after_stop [OF act this rel] have "\<not> cx_emergency_stop cx2" by (simp add: manager_wf_new)
  with act rel show ?thesis by blast
qed

end
