(* ===== verification/Cex_Connector.thy ===== *)
theory Cex_Connector
  imports Venue_Health Orderbook
begin

text \<open>
  Model of the exchange connector (\<^verbatim>\<open>backend/fedr/connectors/cex/ccxt_connector.py\<close>): markets, quotes,
  fees, balances and the life of an order, from the rounding of its amount and price over placing,
  polling and cancelling to its fills and fees. The exchange library is not under the repository:
  its answers are the record \<open>cex_env\<close>, with the exceptions the library documents as \<open>ccxt_kind\<close>;
  numbers it returns are given as decimals (it documents them as numbers), a missing one as None.
  The calls that reach the exchange are kept in order, so that a theorem can say what was asked.
\<close>

subsection \<open>Exceptions of the library and of the connector\<close>

datatype ccxt_kind =
    RateLimitExceeded | DDoSProtection | OnMaintenance | ExchangeNotAvailable | RequestTimeout | NetworkError
  | InsufficientFunds | InvalidOrder | OrderNotFound | AuthenticationError | PermissionDenied | NotSupported
  | BadSymbol | OtherError

type_synonym ccxt_error = "ccxt_kind \<times> string"

datatype conn_error =
    Connector_Error message | Not_Supported message | Venue_Unavailable message
  | Insufficient_Balance message | Order_Rejected message | Quote_Expired message

definition map_error :: "ccxt_error \<Rightarrow> conn_error" where
  "map_error = (\<lambda>(k, text).
     case k of
       RateLimitExceeded \<Rightarrow> Venue_Unavailable (Msg ''rate limited'' [AStr text])
     | DDoSProtection \<Rightarrow> Venue_Unavailable (Msg ''rate limited'' [AStr text])
     | OnMaintenance \<Rightarrow> Venue_Unavailable (Msg ''maintenance'' [AStr text])
     | ExchangeNotAvailable \<Rightarrow> Venue_Unavailable (Msg [] [AStr text])
     | RequestTimeout \<Rightarrow> Venue_Unavailable (Msg [] [AStr text])
     | NetworkError \<Rightarrow> Venue_Unavailable (Msg [] [AStr text])
     | InsufficientFunds \<Rightarrow> Insufficient_Balance (Msg [] [AStr text])
     | InvalidOrder \<Rightarrow> Order_Rejected (Msg [] [AStr text])
     | OrderNotFound \<Rightarrow> Order_Rejected (Msg [] [AStr text])
     | AuthenticationError \<Rightarrow> Connector_Error (Msg ''authentication/permission error'' [AStr text])
     | PermissionDenied \<Rightarrow> Connector_Error (Msg ''authentication/permission error'' [AStr text])
     | NotSupported \<Rightarrow> Not_Supported (Msg [] [AStr text])
     | BadSymbol \<Rightarrow> Connector_Error (Msg ''bad symbol'' [AStr text])
     | OtherError \<Rightarrow> Connector_Error (Msg [] [AStr text]))"

definition is_unavailable :: "conn_error \<Rightarrow> bool" where
  "is_unavailable e = (case e of Venue_Unavailable _ \<Rightarrow> True | _ \<Rightarrow> False)"

definition is_invalid_order :: "ccxt_error \<Rightarrow> bool" where
  \<comment> \<open>what \<open>except InvalidOrder\<close> catches: an order that is not found is one too\<close>
  "is_invalid_order e \<longleftrightarrow> fst e \<in> {InvalidOrder, OrderNotFound}"

definition note_rate_limit :: "ccxt_error \<Rightarrow> rat \<Rightarrow> health_tracker \<Rightarrow> health_tracker" where
  "note_rate_limit e tick t =
     (let t1 = (if fst e \<in> {RateLimitExceeded, DDoSProtection} then t\<lparr>ht_rate_limited_until := fround (tick + 30)\<rparr> else t)
      in if fst e = OnMaintenance then t1\<lparr>ht_maintenance := True\<rparr> else t1)"

subsection \<open>The connector\<close>

record exchange_spec =
  xs_fallback_taker_pct :: "decimal option"
  xs_fallback_maker_pct :: "decimal option"
  xs_orderbook_limits :: "int list"

record cex =
  cc_name :: string
  cc_kind :: venue_kind
  cc_display :: string
  cc_spec :: "exchange_spec option"
  cc_market_type :: string
  cc_has_credentials :: bool
  cc_ws :: bool
  cc_markets :: "(string, market_info) dict"
  cc_fee_cache :: "(string, fee_schedule) dict"
  cc_fees_fetched_at :: int
  cc_perm_trade :: "bool option"
  cc_tracker :: health_tracker

definition or0 :: "decimal option \<Rightarrow> decimal" where
  \<comment> \<open>\<open>x or 0\<close>\<close>
  "or0 x = (case x of None \<Rightarrow> 0 | Some d \<Rightarrow> d)"

subsection \<open>Markets\<close>

record raw_market =
  rm_active :: "bool option"
  rm_type :: "string option"
  rm_swap :: bool
  rm_linear :: bool
  rm_base :: string
  rm_quote :: string
  rm_prec_amount :: "decimal option"
  rm_prec_price :: "decimal option"
  rm_min_amount :: "decimal option"
  rm_max_amount :: "decimal option"
  rm_min_cost :: "decimal option"
  rm_taker :: "decimal option"
  rm_maker :: "decimal option"
  rm_contract_size :: "decimal option"
  rm_settle :: "string option"

definition step_of :: "decimal option \<Rightarrow> bool \<Rightarrow> decimal" where
  "step_of v tick =
     (case v of None \<Rightarrow> 1 / 10 ^ 8
      | Some d \<Rightarrow> if tick then d else 10 powi (- trunc_int d))"

definition market_listed :: "string \<Rightarrow> raw_market \<Rightarrow> bool" where
  \<comment> \<open>the three filters of the loop; \<open>rm_active\<close> is None when the answer has no such key\<close>
  "market_listed mtype m \<longleftrightarrow> rm_active m \<notin> {Some False} \<and>
     \<not> (mtype = ''spot'' \<and> rm_type m \<noteq> Some ''spot'') \<and>
     \<not> (mtype = ''swap'' \<and> \<not> (rm_swap m \<and> rm_linear m))"

definition market_from :: "cex \<Rightarrow> bool \<Rightarrow> string \<Rightarrow> raw_market \<Rightarrow> market_info" where
  "market_from c tick symbol m =
     \<lparr>mi_venue = cc_name c, mi_symbol = symbol, mi_base = rm_base m, mi_quote = rm_quote m, mi_kind = cc_kind c,
      mi_active = True, mi_amount_step = step_of (rm_prec_amount m) tick, mi_price_step = step_of (rm_prec_price m) tick,
      mi_min_amount = or0 (rm_min_amount m),
      mi_max_amount = (case rm_max_amount m of Some x \<Rightarrow> if x = 0 then None else Some x | None \<Rightarrow> None),
      mi_min_cost = or0 (rm_min_cost m),
      mi_taker_fee_pct = map_option (\<lambda>x. dmul x 100) (rm_taker m),
      mi_maker_fee_pct = map_option (\<lambda>x. dmul x 100) (rm_maker m),
      mi_contract_size = (case rm_contract_size m of Some x \<Rightarrow> if x = 0 then 1 else x | None \<Rightarrow> 1),
      mi_settle = rm_settle m, mi_chain = None\<rparr>"

definition load_markets ::
  "ccxt_error + (string, raw_market) dict \<Rightarrow> bool \<Rightarrow> rat \<Rightarrow> rat \<Rightarrow> cex \<Rightarrow> (conn_error + unit) \<times> cex" where
  \<comment> \<open>of the answer, whether precision is a tick size, the latency and the time of an error\<close>
  "load_markets ans tick lat now c =
     (case ans of
        Inl e \<Rightarrow> (Inl (map_error e), c\<lparr>cc_tracker := record_latency lat (record_error now (cc_tracker c))\<rparr>)
      | Inr ms \<Rightarrow> (Inr (), c\<lparr>cc_markets := map (\<lambda>(s, m). (s, market_from c tick s m))
                              (filter (\<lambda>(s, m). market_listed (cc_market_type c) m) ms),
                          cc_tracker := record_latency lat (cc_tracker c)\<rparr>))"

subsection \<open>Books and quotes\<close>

definition book_limit :: "cex \<Rightarrow> int \<Rightarrow> int" where
  "book_limit c depth =
     (let limits = (case cc_spec c of None \<Rightarrow> [] | Some s \<Rightarrow> xs_orderbook_limits s) in
      if limits = [] then depth
      else (case find (\<lambda>l. depth \<le> l) limits of Some l \<Rightarrow> l | None \<Rightarrow> last limits))"

record raw_book =
  rb_bids :: "(py_value \<times> py_value) list"
  rb_asks :: "(py_value \<times> py_value) list"
  rb_timestamp :: "int option"
  rb_nonce :: "int option"

definition fetch_order_book ::
  "(int \<Rightarrow> ccxt_error + raw_book) \<Rightarrow> rat \<Rightarrow> rat \<Rightarrow> int \<Rightarrow> string \<Rightarrow> int \<Rightarrow> cex \<Rightarrow>
   (conn_error + order_book result) \<times> cex" where
  "fetch_order_book ask lat tick now symbol depth c =
     (case ask (book_limit c depth) of
        Inl e \<Rightarrow> (Inl (map_error e),
          c\<lparr>cc_tracker := record_latency lat (note_rate_limit e tick (record_error tick (cc_tracker c)))\<rparr>)
      | Inr raw \<Rightarrow>
          let t = record_latency lat (cc_tracker c) in
          (case from_raw (cc_name c) symbol (rb_bids raw) (rb_asks raw) (rb_timestamp raw) ''rest'' (rb_nonce raw) now of
             Inl e \<Rightarrow> (Inr (Inl e), c\<lparr>cc_tracker := t\<rparr>)
           | Inr ob \<Rightarrow> (Inr (Inr ob), c\<lparr>cc_tracker := t\<lparr>ht_last_market_data_ms := now\<rparr>\<rparr>)))"

definition book_quote :: "cex \<Rightarrow> string \<Rightarrow> order_side \<Rightarrow> decimal \<Rightarrow> order_book \<Rightarrow> fee_schedule \<Rightarrow> int \<Rightarrow> execution_quote result" where
  \<comment> \<open>\<open>get_quote\<close> once the book and the fee are there\<close>
  "book_quote c symbol side amount ob fee now =
     bind_result (walk ob side amount) (\<lambda>w. Inr
       \<lparr>eq_venue = cc_name c, eq_kind = cc_kind c, eq_symbol = symbol, eq_side = side,
        eq_base_amount = (if wr_fully_filled w then wr_filled_base w else amount),
        eq_quote_amount = wr_quote_amount w, eq_avg_price = wr_avg_price w, eq_reference_price = wr_reference_price w,
        eq_slippage_pct = wr_slippage_pct w, eq_price_impact_pct = 0, eq_fully_fillable = wr_fully_filled w,
        eq_market_ts_ms = ob_ts_ms ob, eq_quote_ts_ms = now, eq_fee_pct = fs_taker_pct fee, eq_fee_source = fs_source fee,
        eq_fee_in_quote = None, eq_gas_cost_usd = None, eq_gas_limit = None, eq_gas_price_native = None,
        eq_priority_fee_usd = 0, eq_min_received = None, eq_route = cc_display c, eq_quote_id = None, eq_chain = None,
        eq_levels_consumed = wr_levels_consumed w, eq_depth_available_base = wr_depth_available_base w,
        eq_is_maker = False, eq_extra_taker_fee_pct = fs_taker_pct fee\<rparr>)"

subsection \<open>Fees and balances\<close>

record fee_answers =
  fa_has_fees :: bool
  fa_has_fee :: bool
  fa_fees :: "ccxt_error + (string, decimal option \<times> decimal option) dict"
  fa_fee :: "ccxt_error + decimal option \<times> decimal option"

definition fee_of :: "decimal option \<Rightarrow> decimal option \<Rightarrow> string \<Rightarrow> int \<Rightarrow> fee_schedule" where
  "fee_of t m src now = \<lparr>fs_taker_pct = t, fs_maker_pct = m, fs_source = src, fs_fetched_at_ms = now\<rparr>"

definition api_fee :: "int \<Rightarrow> decimal \<times> decimal option \<Rightarrow> fee_schedule" where
  "api_fee now = (\<lambda>(taker, maker). fee_of (Some (dmul taker 100)) (map_option (\<lambda>x. dmul x 100) maker) ''exchange_api'' now)"

definition put_fee :: "int \<Rightarrow> string \<times> decimal option \<times> decimal option \<Rightarrow> (string, fee_schedule) dict \<Rightarrow> (string, fee_schedule) dict" where
  "put_fee now = (\<lambda>(sym, taker, maker) d.
     case taker of None \<Rightarrow> d | Some x \<Rightarrow> AList.update sym (api_fee now (x, maker)) d)"

definition refresh_fees :: "fee_answers \<Rightarrow> int \<Rightarrow> string \<Rightarrow> cex \<Rightarrow> cex" where
  \<comment> \<open>the authenticated part of \<open>fetch_fees\<close>; an exception is logged and only the time is kept\<close>
  "refresh_fees fa now symbol c =
     (let c1 = c\<lparr>cc_fees_fetched_at := now\<rparr> in
      if fa_has_fees fa then (case fa_fees fa of Inl _ \<Rightarrow> c1 | Inr fs \<Rightarrow> c1\<lparr>cc_fee_cache := fold (put_fee now) fs (cc_fee_cache c)\<rparr>)
      else if fa_has_fee fa then (case fa_fee fa of Inl _ \<Rightarrow> c1 | Inr f \<Rightarrow> c1\<lparr>cc_fee_cache := put_fee now (symbol, f) (cc_fee_cache c)\<rparr>)
      else c1)"

definition documented_fee :: "cex \<Rightarrow> int \<Rightarrow> fee_schedule" where
  "documented_fee c now =
     (case cc_spec c of
        Some s \<Rightarrow> (case xs_fallback_taker_pct s of
            Some t \<Rightarrow> fee_of (Some t) (xs_fallback_maker_pct s) ''documented_fallback'' now
          | None \<Rightarrow> fee_of None None ''unknown'' now)
      | None \<Rightarrow> fee_of None None ''unknown'' now)"

definition static_fee :: "cex \<Rightarrow> string \<Rightarrow> int \<Rightarrow> fee_schedule" where
  \<comment> \<open>market metadata, else the documented default, else unknown\<close>
  "static_fee c symbol now =
     (case map_of (cc_markets c) symbol of
        Some m \<Rightarrow> (case mi_taker_fee_pct m of
            Some t \<Rightarrow> fee_of (Some t) (mi_maker_fee_pct m) ''market_metadata'' now
          | None \<Rightarrow> documented_fee c now)
      | None \<Rightarrow> documented_fee c now)"

definition fetch_fees :: "fee_answers \<Rightarrow> int \<Rightarrow> string \<Rightarrow> cex \<Rightarrow> fee_schedule \<times> cex" where
  "fetch_fees fa now symbol c =
     (let old = (case map_of (cc_fee_cache c) symbol of Some f \<Rightarrow> now - fs_fetched_at_ms f < 3600000 | None \<Rightarrow> False);
          c1 = (if \<not> old \<and> cc_has_credentials c \<and> 3600000 < now - cc_fees_fetched_at c then refresh_fees fa now symbol c else c)
      in case map_of (cc_fee_cache c1) symbol of
           Some f \<Rightarrow> (f, c1)
         | None \<Rightarrow> let f = static_fee c1 symbol now in (f, c1\<lparr>cc_fee_cache := AList.update symbol f (cc_fee_cache c1)\<rparr>))"

definition balances_from :: "(string, decimal option) dict \<Rightarrow> (string, decimal option) dict \<Rightarrow> (string, balance) dict" where
  "balances_from free used =
     List.map_filter (\<lambda>(a, f).
       let u = or0 (Option.bind (map_of used a) id) in
       if or0 f \<noteq> 0 \<or> u \<noteq> 0 then Some (a, \<lparr>bal_asset = a, bal_free = or0 f, bal_used = u\<rparr>) else None) free"

definition fetch_balances ::
  "ccxt_error + (string, decimal option) dict \<times> (string, decimal option) dict \<Rightarrow> rat \<Rightarrow> rat \<Rightarrow> int \<Rightarrow> cex \<Rightarrow>
   (conn_error + (string, balance) dict) \<times> cex" where
  "fetch_balances ans lat tick now c =
     (if \<not> cc_has_credentials c then (Inr [], c)
      else case ans of
        Inl e \<Rightarrow> (Inl (map_error e), c\<lparr>cc_tracker := record_latency lat (record_error tick (cc_tracker c))\<rparr>)
      | Inr (free, used) \<Rightarrow> (Inr (balances_from free used),
          c\<lparr>cc_tracker := (record_latency lat (cc_tracker c))\<lparr>ht_last_balance_ms := now\<rparr>\<rparr>))"

subsection \<open>Rounding an order\<close>

definition quantize_order :: "cex \<Rightarrow> string \<Rightarrow> decimal \<Rightarrow> decimal option \<Rightarrow> order_side \<Rightarrow> conn_error + decimal \<times> decimal option" where
  \<comment> \<open>\<open>_quantize\<close>\<close>
  "quantize_order c symbol amount price side =
     (case map_of (cc_markets c) symbol of
        None \<Rightarrow> Inr (amount, price)
      | Some m \<Rightarrow>
          let amt = floor_to_step amount (mi_amount_step m) in
          if amt < mi_min_amount m
          then Inl (Order_Rejected (Msg ''amount below minimum'' [ADec amt, ADec (mi_min_amount m), AStr (cc_name c)]))
          else
            let px = map_option (\<lambda>p. if side = BUY then floor_to_step p (mi_price_step m) else ceil_to_step p (mi_price_step m)) price
            in case px of
                 None \<Rightarrow> Inr (amt, None)
               | Some p \<Rightarrow>
                   if mi_min_cost m \<noteq> 0 \<and> dmul amt p < mi_min_cost m
                   then Inl (Order_Rejected (Msg ''order cost below minimum'' [ADec (dmul amt p), ADec (mi_min_cost m), AStr (cc_name c)]))
                   else Inr (amt, Some p))"

subsection \<open>What the exchange says of an order\<close>

record raw_trade =
  rx_order :: string
  rx_amount :: "decimal option"
  rx_price :: "decimal option"
  rx_fee_cost :: "decimal option"
  rx_fee_currency :: "string option"
  rx_timestamp :: "int option"
  rx_id :: "string option"

record raw_order =
  ro_id :: "string option"
  ro_status :: "string option"
  ro_filled :: "decimal option"
  ro_average :: "decimal option"
  ro_remaining :: "decimal option"
  ro_trades :: "raw_trade list"
  ro_fee :: "(decimal option \<times> string option) option"
  ro_side :: "order_side option"
  ro_amount :: "decimal option"
  ro_price :: "decimal option"

record create_call =
  cl_symbol :: string
  cl_side :: order_side
  cl_amount :: rat
  cl_price :: rat
  cl_client_id :: string
  cl_tif :: "string option"

datatype exchange_call = Create create_call | Fetch_Order string | Cancel_Order string | Fetch_Trades

record order_run =
  run_res :: order_result
  run_fee :: "(decimal option \<times> string option) option"
  run_unconverted :: "string option"
  run_fallback :: bool
  run_tracker :: health_tracker
  run_calls :: "exchange_call list"

definition lower_char :: "char \<Rightarrow> char" where
  "lower_char ch = (let n = (of_char ch :: nat) in if 65 \<le> n \<and> n \<le> 90 then char_of (n + 32) else ch)"

definition lower :: "string \<Rightarrow> string" where
  "lower s = map lower_char s"

definition STATUS_MAP :: "(string, order_status) dict" where
  "STATUS_MAP = [(''open'', OPEN), (''closed'', FILLED), (''canceled'', CANCELLED), (''cancelled'', CANCELLED),
     (''expired'', EXPIRED), (''rejected'', REJECTED)]"

definition status_of :: "raw_order \<Rightarrow> order_status option" where
  "status_of raw = map_of STATUS_MAP (lower (case ro_status raw of None \<Rightarrow> [] | Some s \<Rightarrow> s))"

definition str0 :: "string option \<Rightarrow> string" where
  "str0 x = (case x of None \<Rightarrow> [] | Some s \<Rightarrow> s)"

definition first_nonzero :: "decimal option list \<Rightarrow> decimal" where
  \<comment> \<open>\<open>a or b or c or ZERO\<close>\<close>
  "first_nonzero xs = (case filter (\<lambda>x. or0 x \<noteq> 0) xs of [] \<Rightarrow> 0 | x # _ \<Rightarrow> or0 x)"

definition schedule_rate :: "cex \<Rightarrow> string \<Rightarrow> market_info \<Rightarrow> decimal option" where
  "schedule_rate c symbol m =
     (let rate = (case map_of (cc_fee_cache c) symbol of
                    Some f \<Rightarrow> (case fs_taker_pct f of Some t \<Rightarrow> Some t | None \<Rightarrow> mi_taker_fee_pct m)
                  | None \<Rightarrow> mi_taker_fee_pct m)
      in case rate of Some x \<Rightarrow> Some x | None \<Rightarrow> Option.bind (cc_spec c) xs_fallback_taker_pct)"

definition fee_to_quote :: "cex \<Rightarrow> decimal \<Rightarrow> string \<Rightarrow> decimal option \<Rightarrow> order_run \<Rightarrow> decimal \<times> order_run" where
  "fee_to_quote c amount asset price r =
     (let req = res_request (run_res r) in
      case map_of (cc_markets c) (or_symbol req) of
        None \<Rightarrow> (amount, r)
      | Some m \<Rightarrow>
          if amount = 0 \<or> asset = mi_quote m then (amount, r)
          else if asset = mi_base m
          then (dmul amount (first_nonzero [price, res_avg_price (run_res r), or_limit_price req]), r)
          else (case schedule_rate c (or_symbol req) m of
                  None \<Rightarrow> 0 | Some rate \<Rightarrow> ddiv (dmul (res_quote_amount (run_res r)) rate) 100,
                r\<lparr>run_unconverted := Some asset\<rparr>))"

definition fees_in_quote :: "cex \<Rightarrow> order_run \<Rightarrow> decimal \<times> order_run" where
  "fees_in_quote c r =
     foldl (\<lambda>(t, r1) f. case fee_to_quote c (fl_fee_amount f) (fl_fee_asset f) (Some (fl_price f)) r1 of
              (x, r2) \<Rightarrow> (dadd t x, r2)) (0, r) (res_fills (run_res r))"

definition set_res :: "(order_result \<Rightarrow> order_result) \<Rightarrow> order_run \<Rightarrow> order_run" where
  "set_res f r = r\<lparr>run_res := f (run_res r)\<rparr>"

definition fill_from_trade :: "cex \<Rightarrow> int \<Rightarrow> order_result \<Rightarrow> raw_trade \<Rightarrow> fill" where
  "fill_from_trade c now r t =
     \<lparr>fl_order_id = res_order_id r, fl_venue = cc_name c, fl_symbol = or_symbol (res_request r),
      fl_side = or_side (res_request r), fl_amount = or0 (rx_amount t), fl_price = or0 (rx_price t),
      fl_fee_amount = or0 (rx_fee_cost t), fl_fee_asset = str0 (rx_fee_currency t),
      fl_ts_ms = (case rx_timestamp t of None \<Rightarrow> now | Some x \<Rightarrow> if x = 0 then now else x),
      fl_trade_id = Some (str0 (rx_id t)), fl_tx_hash = None, fl_gas_used = None, fl_gas_cost_usd = None\<rparr>"

definition price_fees :: "cex \<Rightarrow> order_run \<Rightarrow> order_run" where
  \<comment> \<open>\<open>result.fee_quote = self._fees_in_quote(result)\<close>\<close>
  "price_fees c r = (case fees_in_quote c r of (x, r1) \<Rightarrow> set_res (\<lambda>o1. o1\<lparr>res_fee_quote := x\<rparr>) r1)"

definition status_after :: "raw_order \<Rightarrow> decimal \<Rightarrow> order_status \<Rightarrow> order_status" where
  \<comment> \<open>of the answer, the filled amount of the result and its status before\<close>
  "status_after raw filled old =
     (case status_of raw of
        Some FILLED \<Rightarrow> FILLED
      | st \<Rightarrow>
          if ro_remaining raw = Some 0 \<and> 0 < or0 (ro_filled raw) then FILLED
          else (case st of
              Some CANCELLED \<Rightarrow> if 0 < filled then PARTIALLY_FILLED else CANCELLED
            | Some EXPIRED \<Rightarrow> if 0 < filled then PARTIALLY_FILLED else EXPIRED
            | Some REJECTED \<Rightarrow> REJECTED
            | Some OPEN \<Rightarrow> if 0 < filled then PARTIALLY_FILLED else OPEN
            | _ \<Rightarrow> old))"

definition apply_order :: "cex \<Rightarrow> int \<Rightarrow> raw_order \<Rightarrow> order_run \<Rightarrow> order_run" where
  "apply_order c now raw r =
     (let filled = max (res_filled (run_res r)) (or0 (ro_filled raw));
          r1 = set_res (\<lambda>o1. o1\<lparr>res_filled := filled,
                 res_avg_price := (if or0 (ro_average raw) = 0 then res_avg_price o1 else ro_average raw),
                 res_status := status_after raw filled (res_status o1)\<rparr>) r
      in if ro_trades raw \<noteq> [] \<and> res_fills (run_res r1) = []
         then price_fees c (set_res (\<lambda>o1. o1\<lparr>res_fills := map (fill_from_trade c now o1) (ro_trades raw)\<rparr>) r1)
         else (case ro_fee raw of
                 Some (Some cost, cur) \<Rightarrow> if res_fills (run_res r1) = [] then r1\<lparr>run_fee := Some (Some cost, cur)\<rparr> else r1
               | _ \<Rightarrow> r1))"

subsection \<open>Placing an order\<close>

record cex_env =
  ce_create :: "nat \<Rightarrow> ccxt_error + raw_order"
  ce_fetch :: "nat \<Rightarrow> nat \<Rightarrow> ccxt_error + raw_order"
  ce_trades :: "ccxt_error + raw_trade list"
  ce_mentions_tif :: "string \<Rightarrow> bool"
  ce_monotonic :: "nat \<Rightarrow> rat"
  ce_start :: rat
  ce_latency :: rat
  ce_tick :: rat
  ce_now_ms :: int

text \<open>
  \<open>ce_create k\<close> answers the k-th attempt to create the order, \<open>ce_fetch k a\<close> attempt \<open>a\<close> of the
  k-th question for it, \<open>ce_monotonic k\<close> is the clock when the loop is entered for the k-th time.
  \<open>ce_mentions_tif\<close> is the search for the time in force in the text of a rejection. Sleeping
  shows in the clock only.
\<close>

definition call :: "exchange_call \<Rightarrow> order_run \<Rightarrow> order_run" where
  "call x r = r\<lparr>run_calls := run_calls r @ [x]\<rparr>"

definition count_error :: "cex_env \<Rightarrow> order_run \<Rightarrow> order_run" where
  "count_error env r = r\<lparr>run_tracker := record_error (ce_tick env) (run_tracker r)\<rparr>"

fun ask_order :: "cex_env \<Rightarrow> nat \<Rightarrow> nat list \<Rightarrow> order_run \<Rightarrow> raw_order option \<times> order_run" where
  \<comment> \<open>the attempts of \<open>_fetch_raw_order\<close>\<close>
  "ask_order env k [] r = (None, r)"
| "ask_order env k (a # as) r =
     (let r1 = call (Fetch_Order (res_order_id (run_res r))) r in
      case ce_fetch env k a of
        Inr raw \<Rightarrow> (Some raw, r1)
      | Inl e \<Rightarrow> ask_order env k as (if fst e = OrderNotFound then r1 else count_error env r1))"

definition fetch_raw_order :: "cex_env \<Rightarrow> nat \<Rightarrow> order_run \<Rightarrow> raw_order option \<times> order_run" where
  "fetch_raw_order env k r = ask_order env k [0, 1, 2] r"

definition refresh_order :: "cex_env \<Rightarrow> cex \<Rightarrow> nat \<Rightarrow> order_run \<Rightarrow> order_run" where
  "refresh_order env c k r =
     (case fetch_raw_order env k r of (None, r1) \<Rightarrow> r1 | (Some raw, r1) \<Rightarrow> apply_order c (ce_now_ms env) raw r1)"

partial_function (option) poll_order :: "cex_env \<Rightarrow> cex \<Rightarrow> rat \<Rightarrow> nat \<Rightarrow> order_run \<Rightarrow> (nat \<times> order_run) option" where
  \<comment> \<open>the loop of \<open>place_order\<close>; None when it does not end\<close>
  "poll_order env c deadline k r =
     (if res_is_terminal (run_res r) \<or> deadline \<le> ce_monotonic env k then Some (k, r)
      else poll_order env c deadline (Suc k) (refresh_order env c k r))"

definition order_deadline :: "cex_env \<Rightarrow> order_request \<Rightarrow> rat" where
  "order_deadline env req =
     fround (ce_start env + fround (of_int (case or_deadline_ms req of Some d \<Rightarrow> if d = 0 then 8000 else d | None \<Rightarrow> 8000) / 1000))"

definition cancel_open :: "cex_env \<Rightarrow> cex \<Rightarrow> nat \<Rightarrow> order_run \<Rightarrow> order_run" where
  \<comment> \<open>what follows the loop; the answer to the cancellation changes nothing\<close>
  "cancel_open env c k r =
     (if res_is_terminal (run_res r) then r
      else let r1 = refresh_order env c k (call (Cancel_Order (res_order_id (run_res r))) r) in
           if res_is_terminal (run_res r1) then r1
           else set_res (\<lambda>o1. o1\<lparr>res_status := (if res_filled o1 = 0 then CANCELLED else PARTIALLY_FILLED)\<rparr>) r1)"

definition average_of :: "fill list \<Rightarrow> decimal" where
  "average_of fs = ddiv (dsum (map (\<lambda>f. dmul (fl_amount f) (fl_price f)) fs)) (dsum (map fl_amount fs))"

definition load_fills :: "cex_env \<Rightarrow> cex \<Rightarrow> order_run \<Rightarrow> order_run" where
  "load_fills env c r =
     (let r0 = call Fetch_Trades r in
      case ce_trades env of
        Inl _ \<Rightarrow> r0
      | Inr ts \<Rightarrow>
          let r1 = set_res (\<lambda>o1. o1\<lparr>res_fills := res_fills o1 @ map (fill_from_trade c (ce_now_ms env) o1)
                     (filter (\<lambda>t. rx_order t = res_order_id o1) ts)\<rparr>) r0 in
          if res_fills (run_res r1) \<noteq> [] then
            let r2 = price_fees c r1; fs = res_fills (run_res r2) in
            if 0 < dsum (map fl_amount fs) then set_res (\<lambda>o1. o1\<lparr>res_avg_price := Some (average_of fs)\<rparr>) r2 else r2
          else (case run_fee r1 of
                  None \<Rightarrow> r1
                | Some (cost, cur) \<Rightarrow>
                    (case fee_to_quote c (or0 cost) (str0 cur) None r1 of
                       (x, r2) \<Rightarrow> set_res (\<lambda>o1. o1\<lparr>res_fee_quote := x\<rparr>) r2)))"

definition settle_order :: "cex_env \<Rightarrow> cex \<Rightarrow> nat \<Rightarrow> order_run \<Rightarrow> order_run" where
  \<comment> \<open>from the end of the loop to the returned result\<close>
  "settle_order env c k r =
     (let r1 = cancel_open env c k r;
          r2 = (if 0 < res_filled (run_res r1) \<and> res_fills (run_res r1) = [] then load_fills env c r1 else r1);
          r3 = set_res (\<lambda>o1. o1\<lparr>res_completed_at_ms := Some (ce_now_ms env)\<rparr>) r2
      in r3\<lparr>run_tracker := record_order (res_status (run_res r3) \<in> {FILLED, PARTIALLY_FILLED, CANCELLED}) (ce_tick env)
              (run_tracker r3)\<rparr>)"

definition create_failed :: "cex_env \<Rightarrow> ccxt_error \<Rightarrow> order_run \<Rightarrow> conn_error option \<times> order_run" where
  \<comment> \<open>an unavailable venue is raised, every other refusal is a rejected result\<close>
  "create_failed env e r =
     (let t = record_latency (ce_latency env) (record_order False (ce_tick env) (record_error (ce_tick env) (run_tracker r)));
          r1 = set_res (\<lambda>o1. o1\<lparr>res_status := REJECTED, res_error := Some (Msg [] [AStr (snd e)]),
                 res_completed_at_ms := Some (ce_now_ms env)\<rparr>) (r\<lparr>run_tracker := t\<rparr>)
      in (if is_unavailable (map_error e) then Some (map_error e) else None, r1))"

definition create_order :: "cex_env \<Rightarrow> order_request \<Rightarrow> decimal \<Rightarrow> decimal \<Rightarrow> order_run \<Rightarrow> (ccxt_error + raw_order) \<times> order_run" where
  "create_order env req amount price r =
     (let tif = (if or_time_in_force req \<in> {''IOC'', ''FOK''} then Some (or_time_in_force req) else None);
          cl = \<lparr>cl_symbol = or_symbol req, cl_side = or_side req, cl_amount = fround amount, cl_price = fround price,
                cl_client_id = or_client_order_id req, cl_tif = tif\<rparr>;
          r1 = call (Create cl) r
      in case ce_create env 0 of
           Inr raw \<Rightarrow> (Inr raw, r1)
         | Inl e \<Rightarrow>
             if is_invalid_order e \<and> ce_mentions_tif env (snd e)
             then (case ce_create env 1 of
                     Inr raw \<Rightarrow> (Inr raw, (call (Create (cl\<lparr>cl_tif := None\<rparr>)) r1)\<lparr>run_fallback := True\<rparr>)
                   | Inl e1 \<Rightarrow> (Inl e1, call (Create (cl\<lparr>cl_tif := None\<rparr>)) r1))
             else (Inl e, r1))"

definition new_run :: "cex_env \<Rightarrow> cex \<Rightarrow> order_request \<Rightarrow> order_run" where
  "new_run env c req = \<lparr>run_res = new_result req [] NEW (ce_now_ms env), run_fee = None, run_unconverted = None,
     run_fallback = False, run_tracker = cc_tracker c, run_calls = []\<rparr>"

definition learn :: "cex \<Rightarrow> order_run \<Rightarrow> cex" where
  \<comment> \<open>what an order leaves on the connector\<close>
  "learn c r = c\<lparr>cc_tracker := run_tracker r, cc_perm_trade :=
     (if res_status (run_res r) \<in> {FILLED, PARTIALLY_FILLED} then Some True else cc_perm_trade c)\<rparr>"

definition opened_run :: "cex_env \<Rightarrow> cex \<Rightarrow> order_request \<Rightarrow> raw_order \<Rightarrow> order_run \<Rightarrow> order_run" where
  "opened_run env c req raw r =
     apply_order c (ce_now_ms env) raw
       (set_res (\<lambda>o1. o1\<lparr>res_order_id := (if str0 (ro_id raw) = [] then or_client_order_id req else str0 (ro_id raw))\<rparr>)
         (r\<lparr>run_tracker := record_latency (ce_latency env) (run_tracker r)\<rparr>))"

definition place_order :: "cex_env \<Rightarrow> cex \<Rightarrow> order_request \<Rightarrow> ((conn_error + order_run) \<times> cex) option" where
  "place_order env c req =
     (if \<not> cc_has_credentials c
      then Some (Inl (Connector_Error (Msg ''no credentials - cannot place orders'' [AStr (cc_name c)])), c)
      else case quantize_order c (or_symbol req) (or_amount req) (or_limit_price req) (or_side req) of
        Inl e \<Rightarrow> Some (Inl e, c)
      | Inr (amount, None) \<Rightarrow>
          Some (Inl (Order_Rejected (Msg ''market orders without a limit price are not allowed'' [])), c)
      | Inr (amount, Some price) \<Rightarrow>
          (case create_order env req amount price (new_run env c req) of
             (Inl e, r) \<Rightarrow>
               (case create_failed env e r of
                  (Some ce, r1) \<Rightarrow> Some (Inl ce, c\<lparr>cc_tracker := run_tracker r1\<rparr>)
                | (None, r1) \<Rightarrow> Some (Inr r1, c\<lparr>cc_tracker := run_tracker r1\<rparr>))
           | (Inr raw, r) \<Rightarrow>
               (case poll_order env c (order_deadline env req) 0 (opened_run env c req raw r) of
                  None \<Rightarrow> None
                | Some (k, r1) \<Rightarrow> let r2 = settle_order env c k r1 in Some (Inr r2, learn c r2))))"

subsection \<open>Other calls\<close>

definition cancel_order :: "ccxt_error option \<Rightarrow> rat \<Rightarrow> cex \<Rightarrow> (conn_error + bool) \<times> cex" where
  "cancel_order ans tick c =
     (case ans of
        None \<Rightarrow> (Inr True, c)
      | Some e \<Rightarrow> if fst e = OrderNotFound then (Inr True, c)
                  else (Inl (map_error e), c\<lparr>cc_tracker := record_error tick (cc_tracker c)\<rparr>))"

definition fetch_order :: "cex_env \<Rightarrow> cex \<Rightarrow> string \<Rightarrow> string \<Rightarrow> order_run option" where
  "fetch_order env c oid symbol =
     (let req = \<lparr>or_venue = cc_name c, or_symbol = symbol, or_side = BUY, or_amount = 0, or_limit_price = None,
            or_time_in_force = ''IOC'', or_client_order_id = [], or_min_received = None, or_max_gas_usd = None,
            or_quote_id = None, or_deadline_ms = None, or_reduce_only = False, or_extra_quoted_price = None\<rparr>;
          r = \<lparr>run_res = new_result req oid OPEN (ce_now_ms env), run_fee = None, run_unconverted = None,
            run_fallback = False, run_tracker = cc_tracker c, run_calls = []\<rparr>
      in case fetch_raw_order env 0 r of
           (None, _) \<Rightarrow> None
         | (Some raw, r1) \<Rightarrow>
             Some (apply_order c (ce_now_ms env) raw
               (set_res (\<lambda>o1. o1\<lparr>res_request := req\<lparr>or_side := (case ro_side raw of None \<Rightarrow> BUY | Some sd \<Rightarrow> sd),
                  or_amount := or0 (ro_amount raw),
                  or_limit_price := (if or0 (ro_price raw) = 0 then None else ro_price raw)\<rparr>\<rparr>) r1)))"

record status_answers =
  sa_has_status :: bool
  sa_has_time :: bool
  sa_status :: "ccxt_error + string"
  sa_time :: "ccxt_error option"

definition connector_health :: "(rat list \<Rightarrow> rat) \<Rightarrow> status_answers \<Rightarrow> rat \<Rightarrow> rat \<Rightarrow> int \<Rightarrow> cex \<Rightarrow> health_report \<times> cex" where
  \<comment> \<open>\<open>health_check\<close> of a connected exchange\<close>
  "connector_health fsum sa lat tick now c =
     (let t = cc_tracker c;
          failed = (\<lambda>e. note_rate_limit e tick (record_error tick t));
          t1 = (if sa_has_status sa
                then (case sa_status sa of Inr st \<Rightarrow> t\<lparr>ht_maintenance := (st \<in> {''maintenance'', ''shutdown''})\<rparr> | Inl e \<Rightarrow> failed e)
                else if sa_has_time sa then (case sa_time sa of None \<Rightarrow> t | Some e \<Rightarrow> failed e) else t);
          c1 = c\<lparr>cc_tracker := record_latency lat t1\<rparr>
      in (classify fsum (cc_tracker c1) (cc_name c1) 15000 (cc_ws c1) now tick, c1))"

subsection \<open>What the steps of an order leave alone\<close>

lemma set_res_simps [simp]:
  "run_res (set_res f r) = f (run_res r)" "run_calls (set_res f r) = run_calls r" "run_tracker (set_res f r) = run_tracker r"
  "run_fee (set_res f r) = run_fee r" "run_fallback (set_res f r) = run_fallback r"
  by (simp_all add: set_res_def)

lemma call_simps [simp]: "run_res (call x r) = run_res r" "run_calls (call x r) = run_calls r @ [x]"
  by (simp_all add: call_def)

lemma count_error_simps [simp]: "run_res (count_error env r) = run_res r" "run_calls (count_error env r) = run_calls r"
  by (simp_all add: count_error_def)

lemma fee_to_quote_keeps [simp]:
  "run_res (snd (fee_to_quote c x a p r)) = run_res r" "run_calls (snd (fee_to_quote c x a p r)) = run_calls r"
  by (simp_all add: fee_to_quote_def Let_def split: option.split)

lemma fees_in_quote_keeps [simp]:
  "run_res (snd (fees_in_quote c r)) = run_res r" "run_calls (snd (fees_in_quote c r)) = run_calls r"
proof -
  let ?f = "\<lambda>(t, r1) f. case fee_to_quote c (fl_fee_amount f) (fl_fee_asset f) (Some (fl_price f)) r1 of (x, r2) \<Rightarrow> (dadd t x, r2)"
  have "run_res (snd (foldl ?f (t, r) fs)) = run_res r \<and> run_calls (snd (foldl ?f (t, r) fs)) = run_calls r" for t r fs
    by (induction fs arbitrary: t r) (simp_all add: split_def)
  then show "run_res (snd (fees_in_quote c r)) = run_res r" "run_calls (snd (fees_in_quote c r)) = run_calls r"
    unfolding fees_in_quote_def by blast+
qed

lemma price_fees_simps [simp]:
  "run_res (price_fees c r) = (run_res r)\<lparr>res_fee_quote := fst (fees_in_quote c r)\<rparr>" "run_calls (price_fees c r) = run_calls r"
  by (simp_all add: price_fees_def split_def)

lemma apply_order_simps:
  "res_filled (run_res (apply_order c now raw r)) = max (res_filled (run_res r)) (or0 (ro_filled raw))"
  "res_status (run_res (apply_order c now raw r)) =
     status_after raw (max (res_filled (run_res r)) (or0 (ro_filled raw))) (res_status (run_res r))"
  "res_order_id (run_res (apply_order c now raw r)) = res_order_id (run_res r)"
  "res_request (run_res (apply_order c now raw r)) = res_request (run_res r)"
  "run_calls (apply_order c now raw r) = run_calls r"
  by (auto simp: apply_order_def Let_def split: option.split)

definition same_order :: "order_run \<Rightarrow> order_run \<Rightarrow> bool" where
  \<comment> \<open>the later run is about the same order, has filled no less and only made more calls\<close>
  "same_order r r' \<longleftrightarrow> res_filled (run_res r) \<le> res_filled (run_res r') \<and>
     res_order_id (run_res r') = res_order_id (run_res r) \<and> res_request (run_res r') = res_request (run_res r) \<and>
     (\<exists>xs. run_calls r' = run_calls r @ xs \<and> set xs \<subseteq> {Fetch_Order (res_order_id (run_res r)), Cancel_Order (res_order_id (run_res r)), Fetch_Trades})"

lemma same_order_refl [simp]: "same_order r r"
  by (simp add: same_order_def)

lemma same_order_trans: "same_order r1 r2 \<Longrightarrow> same_order r2 r3 \<Longrightarrow> same_order r1 r3"
  unfolding same_order_def by auto

lemma ask_order_same: "same_order r (snd (ask_order env k as r))"
proof (induction "as" arbitrary: r)
  case (Cons a as)
  have "same_order r (call (Fetch_Order (res_order_id (run_res r))) r)"
      "same_order r (count_error env (call (Fetch_Order (res_order_id (run_res r))) r))"
    by (simp_all add: same_order_def)
  then show ?case
    by (auto simp: Let_def split: sum.split intro: same_order_trans [OF _ Cons.IH])
qed simp

lemma ask_order_res: "run_res (snd (ask_order env k as r)) = run_res r"
  by (induction "as" arbitrary: r) (simp_all add: Let_def split: sum.split)

lemma apply_order_same: "same_order r (apply_order c now raw r)"
  by (simp add: same_order_def apply_order_simps)

lemma refresh_order_same: "same_order r (refresh_order env c k r)"
  using ask_order_same [of r env k "[0, 1, 2]"] apply_order_same same_order_trans
  by (fastforce simp: refresh_order_def fetch_raw_order_def split: prod.split option.split)

lemma cancel_open_same: "same_order r (cancel_open env c k r)"
proof -
  have "same_order r (call (Cancel_Order (res_order_id (run_res r))) r)" by (simp add: same_order_def)
  then have s: "same_order r (refresh_order env c k (call (Cancel_Order (res_order_id (run_res r))) r))"
    using refresh_order_same same_order_trans by blast
  moreover have "same_order r1 (set_res (\<lambda>o1. o1\<lparr>res_status := f o1\<rparr>) r1)" for r1 f by (simp add: same_order_def)
  ultimately show ?thesis unfolding cancel_open_def Let_def using same_order_trans by (auto split: if_splits)
qed

lemma load_fills_keeps:
  "same_order r (load_fills env c r)" "res_status (run_res (load_fills env c r)) = res_status (run_res r)"
  "res_filled (run_res (load_fills env c r)) = res_filled (run_res r)"
  by (auto simp: load_fills_def Let_def same_order_def split_def split: sum.split option.split)

lemma settle_order_same: "same_order r (settle_order env c k r)"
proof -
  have "same_order r (if P then load_fills env c (cancel_open env c k r) else cancel_open env c k r)" for P
    using same_order_trans [OF cancel_open_same load_fills_keeps(1)] cancel_open_same by simp
  then show ?thesis by (simp add: settle_order_def Let_def same_order_def split del: if_split)
qed

lemma cancel_open_final: "res_status (run_res (cancel_open env c k r)) \<in> {FILLED, PARTIALLY_FILLED, CANCELLED, REJECTED, EXPIRED, FAILED}"
  by (auto simp: cancel_open_def Let_def res_is_terminal_def)

lemma settle_order_final:
  "res_status (run_res (settle_order env c k r)) \<in> {FILLED, PARTIALLY_FILLED, CANCELLED, REJECTED, EXPIRED, FAILED} \<and>
   res_completed_at_ms (run_res (settle_order env c k r)) = Some (ce_now_ms env)"
  using cancel_open_final [of env c k r] by (simp add: settle_order_def Let_def load_fills_keeps(2))

subsection \<open>The polling loop\<close>

lemma poll_order_ends:
  assumes "\<And>k. ce_monotonic env k + 1 / 4 \<le> ce_monotonic env (Suc k)"
  shows "\<exists>j r'. poll_order env c dl k r = Some (j, r') \<and> k \<le> j \<and> j \<le> k + nat \<lceil>4 * (dl - ce_monotonic env k)\<rceil>"
proof (induction "nat \<lceil>4 * (dl - ce_monotonic env k)\<rceil>" arbitrary: k r rule: less_induct)
  case less
  show ?case
  proof (cases "res_is_terminal (run_res r) \<or> dl \<le> ce_monotonic env k")
    case True
    then show ?thesis by (subst poll_order.simps) simp
  next
    case False
    let ?n = "\<lambda>k. nat \<lceil>4 * (dl - ce_monotonic env k)\<rceil>"
    have "4 * (dl - ce_monotonic env (Suc k)) \<le> 4 * (dl - ce_monotonic env k) - 1" using assms [of k] by simp
    then have "\<lceil>4 * (dl - ce_monotonic env (Suc k))\<rceil> \<le> \<lceil>4 * (dl - ce_monotonic env k)\<rceil> - 1" by linarith
    moreover have "0 < \<lceil>4 * (dl - ce_monotonic env k)\<rceil>" using False by simp
    ultimately have n: "?n (Suc k) < ?n k" "Suc (?n (Suc k)) \<le> ?n k" by linarith+
    obtain j r' where "poll_order env c dl (Suc k) (refresh_order env c k r) = Some (j, r')" "Suc k \<le> j" "j \<le> Suc k + ?n (Suc k)"
      using less [OF n(1)] by blast
    moreover have "poll_order env c dl k r = poll_order env c dl (Suc k) (refresh_order env c k r)"
      using False by (subst poll_order.simps) simp
    ultimately show ?thesis using n(2) by auto
  qed
qed

lemma poll_order_same:
  assumes "poll_order env c dl k r = Some (j, r')"
  shows "same_order r r' \<and> (res_is_terminal (run_res r') \<or> dl \<le> ce_monotonic env j)"
proof -
  have "\<forall>j r'. x = (j, r') \<longrightarrow> same_order r r' \<and> (res_is_terminal (run_res r') \<or> dl \<le> ce_monotonic env j)"
    if "poll_order env c dl k r = Some x" for x
  proof (rule poll_order.raw_induct [where P = "\<lambda>env c dl k r x. \<forall>j r'. x = (j, r') \<longrightarrow>
      same_order r r' \<and> (res_is_terminal (run_res r') \<or> dl \<le> ce_monotonic env j)", OF _ that])
    fix f env c dl k r x
    assume IH: "\<And>env c dl k r x. f env c dl k r = Some x \<Longrightarrow> \<forall>j r'. x = (j, r') \<longrightarrow>
        same_order r r' \<and> (res_is_terminal (run_res r') \<or> dl \<le> ce_monotonic env j)"
      and eq: "(if res_is_terminal (run_res r) \<or> dl \<le> ce_monotonic env k then Some (k, r)
        else f env c dl (Suc k) (refresh_order env c k r)) = Some x"
    show "\<forall>j r'. x = (j, r') \<longrightarrow> same_order r r' \<and> (res_is_terminal (run_res r') \<or> dl \<le> ce_monotonic env j)"
    proof (cases "res_is_terminal (run_res r) \<or> dl \<le> ce_monotonic env k")
      case True
      with eq show ?thesis by auto
    next
      case False
      with eq have "f env c dl (Suc k) (refresh_order env c k r) = Some x" by simp
      from IH [OF this] show ?thesis using refresh_order_same same_order_trans by blast
    qed
  qed
  with assms show ?thesis by blast
qed

subsection \<open>The shape of a placed order\<close>

lemma create_order_calls:
  assumes "create_order env req amount price r = (ans, r1)"
  shows "run_res r1 = run_res r \<and> (\<exists>xs. run_calls r1 = run_calls r @ xs \<and> xs \<noteq> [] \<and>
    (\<forall>x \<in> set xs. \<exists>cl. x = Create cl \<and> cl_amount cl = fround amount \<and> cl_price cl = fround price \<and> cl_side cl = or_side req))"
  using assms by (auto simp: create_order_def Let_def split: sum.splits if_splits)

lemma place_order_cases:
  assumes "place_order env c req = Some (Inr r, c')"
  obtains (rejected) amount price r1 e where
      "quantize_order c (or_symbol req) (or_amount req) (or_limit_price req) (or_side req) = Inr (amount, Some price)"
      "create_order env req amount price (new_run env c req) = (Inl e, r1)" "create_failed env e r1 = (None, r)"
  | (opened) amount price raw r1 k r2 where
      "quantize_order c (or_symbol req) (or_amount req) (or_limit_price req) (or_side req) = Inr (amount, Some price)"
      "create_order env req amount price (new_run env c req) = (Inr raw, r1)"
      "poll_order env c (order_deadline env req) 0 (opened_run env c req raw r1) = Some (k, r2)"
      "r = settle_order env c k r2"
  using assms
  by (auto simp: place_order_def Let_def split: if_splits sum.splits prod.splits option.splits)

lemma opened_run_simps:
  "run_calls (opened_run env c req raw r) = run_calls r"
  "res_filled (run_res (opened_run env c req raw r)) = max (res_filled (run_res r)) (or0 (ro_filled raw))"
  "res_request (run_res (opened_run env c req raw r)) = res_request (run_res r)"
  by (simp_all add: opened_run_def apply_order_simps)

lemma create_failed_simps:
  "create_failed env e r = (None, r') \<Longrightarrow> res_status (run_res r') = REJECTED \<and> res_filled (run_res r') = res_filled (run_res r) \<and>
     res_completed_at_ms (run_res r') = Some (ce_now_ms env) \<and> run_calls r' = run_calls r \<and> res_request (run_res r') = res_request (run_res r)"
  by (auto simp: create_failed_def Let_def split: if_splits)

lemma new_run_simps [simp]:
  "run_calls (new_run env c req) = []" "res_filled (run_res (new_run env c req)) = 0" "res_request (run_res (new_run env c req)) = req"
  by (simp_all add: new_run_def new_result_def)

subsection \<open>Properties\<close>

text \<open>C22. Placing an order returns: when the clock advances by the quarter of a second each round of the
  polling loop sleeps, \<open>place_order\<close> ends with a result or an error whatever the exchange answers, and
  the loop itself ends after at most four rounds per second of the deadline.\<close>

theorem place_order_returns:
  assumes "\<And>k. ce_monotonic env k + 1 / 4 \<le> ce_monotonic env (Suc k)"
  shows "(\<exists>ans. place_order env c req = Some ans) \<and>
    (\<exists>k r'. poll_order env c (order_deadline env req) 0 r = Some (k, r') \<and>
       k \<le> nat \<lceil>4 * (order_deadline env req - ce_monotonic env 0)\<rceil>)"
proof -
  have "\<exists>k r'. poll_order env c (order_deadline env req) 0 r = Some (k, r') \<and>
      k \<le> nat \<lceil>4 * (order_deadline env req - ce_monotonic env 0)\<rceil>" for r
    using poll_order_ends [OF assms, of c "order_deadline env req" 0 r] by auto
  then show ?thesis
    by (auto simp: place_order_def Let_def split: sum.splits prod.splits option.splits) (metis option.distinct(1))
qed


subsection \<open>The rounding never loosens an order\<close>

text \<open>Rounding an order never loosens it: on a market whose steps are powers of ten, what is sent buys
  no more than asked at no higher a limit, or sells no more at no lower a limit, is not below the minimum
  amount, costs no less than the minimum cost, and lies on the steps of the market.\<close>

theorem quantized_order_tight:
  assumes "quantize_order c symbol amount (Some price) side = Inr (amt, Some px)"
    and "map_of (cc_markets c) symbol = Some m" and "mi_amount_step m = 10 powi i" and "mi_price_step m = 10 powi j"
    and "drepr amount" and "0 \<le> amount" and "drepr price" and "0 \<le> price"
  shows "amt \<le> amount \<and> mi_min_amount m \<le> amt \<and> (side = BUY \<longrightarrow> px \<le> price) \<and> (side = SELL \<longrightarrow> price \<le> px) \<and>
    (mi_min_cost m = 0 \<or> mi_min_cost m \<le> dmul amt px) \<and>
    (\<exists>a b. amt = of_int a * 10 powi i \<and> px = of_int b * 10 powi j)"
proof -
  have amt: "amt = floor_to_step amount (10 powi i)" "mi_min_amount m \<le> amt"
      "mi_min_cost m = 0 \<or> mi_min_cost m \<le> dmul amt px"
      and px: "px = (if side = BUY then floor_to_step price (10 powi j) else ceil_to_step price (10 powi j))"
    using assms(1) by (auto simp: quantize_order_def assms(2-4) Let_def not_less split: if_splits)
  have fl: "floor_to_step v (10 powi k) = of_int \<lfloor>v / 10 powi k\<rfloor> * 10 powi k \<and> of_int \<lfloor>v / 10 powi k\<rfloor> * 10 powi k \<le> v"
    if "drepr v" "0 \<le> v" for v k
  proof -
    have "0 < (10 :: rat) powi k" by simp
    then have "of_int \<lfloor>v / 10 powi k\<rfloor> * 10 powi k \<le> v"
      using of_int_floor_le [of "v / 10 powi k"] by (simp only: pos_le_divide_eq)
    then show ?thesis using floor_to_step_power10 [OF that] by simp
  qed
  have ce: "ceil_to_step v (10 powi k) = of_int \<lceil>v / 10 powi k\<rceil> * 10 powi k \<and> v \<le> of_int \<lceil>v / 10 powi k\<rceil> * 10 powi k"
    if "drepr v" "0 \<le> v" for v k
  proof -
    have "0 < (10 :: rat) powi k" by simp
    then have "v \<le> of_int \<lceil>v / 10 powi k\<rceil> * 10 powi k"
      using le_of_int_ceiling [of "v / 10 powi k"] by (simp only: pos_divide_le_eq)
    then show ?thesis using ceil_to_step_power10 [OF that] by simp
  qed
  show ?thesis
    using amt px fl [OF assms(5,6), of i] fl [OF assms(7,8), of j] ce [OF assms(7,8), of j] by (cases side) auto
qed

subsection \<open>Where the life of an order goes wrong\<close>

lemma ask_order_answers:
  "ce_fetch env k a = Inr raw \<Longrightarrow> ask_order env k (a # as) r = (Some raw, call (Fetch_Order (res_order_id (run_res r))) r)"
  by (simp add: Let_def)

lemma ask_order_fails:
  "(\<And>a. \<exists>e. ce_fetch env k a = Inl e) \<Longrightarrow> fst (ask_order env k as r) = None"
proof (induction "as" arbitrary: r)
  case (Cons a as)
  obtain e where "ce_fetch env k a = Inl e" using Cons.prems by blast
  then show ?case using Cons.IH [OF Cons.prems] by (simp add: Let_def)
qed simp

lemma refresh_order_fails:
  assumes "\<And>k a. \<exists>e. ce_fetch env k a = Inl e"
  shows "run_res (refresh_order env c k r) = run_res r"
  using ask_order_fails [of env k "[0, 1, 2]" r, OF assms] ask_order_res [of env k "[0, 1, 2]" r]
  by (simp add: refresh_order_def fetch_raw_order_def split_def)

lemma poll_order_fails:
  assumes "\<And>k a. \<exists>e. ce_fetch env k a = Inl e" and "poll_order env c dl k r = Some (j, r')"
  shows "run_res r' = run_res r"
proof -
  have "(\<forall>k a. \<exists>e. ce_fetch env k a = Inl e) \<longrightarrow> run_res (snd x) = run_res r"
    if "poll_order env c dl k r = Some x" for x
  proof (rule poll_order.raw_induct [where P = "\<lambda>env c dl k r x.
      (\<forall>k a. \<exists>e. ce_fetch env k a = Inl e) \<longrightarrow> run_res (snd x) = run_res r", OF _ that], intro impI)
    fix f env c dl k r x
    assume IH: "\<And>env c dl k r x. f env c dl k r = Some x \<Longrightarrow>
        (\<forall>k a. \<exists>e. ce_fetch env k a = Inl e) \<longrightarrow> run_res (snd x) = run_res r"
      and eq: "(if res_is_terminal (run_res r) \<or> dl \<le> ce_monotonic env k then Some (k, r)
        else f env c dl (Suc k) (refresh_order env c k r)) = Some x"
      and no: "\<forall>k a. \<exists>e. ce_fetch env k a = Inl e"
    show "run_res (snd x) = run_res r"
      using eq IH [of env c dl "Suc k" "refresh_order env c k r" x] no refresh_order_fails [of env c k r]
      by (auto split: if_splits)
  qed
  with assms show ?thesis by fastforce
qed

lemma create_order_first:
  "ce_create env 0 = Inr raw \<Longrightarrow> \<exists>x. create_order env req amount price r = (Inr raw, call x r)"
  by (auto simp: create_order_def Let_def)

lemma place_order_opened:
  assumes "place_order env c req = Some (Inr r, c')" and "ce_create env 0 = Inr raw"
  obtains x k r2 where "poll_order env c (order_deadline env req) 0 (opened_run env c req raw (call x (new_run env c req))) = Some (k, r2)"
    and "r = settle_order env c k r2" and "\<And>oid. x \<noteq> Fetch_Order oid"
  using assms(1)
proof (cases rule: place_order_cases)
  case (rejected amount price r1 e)
  then show ?thesis using create_order_first [OF assms(2), of req amount price "new_run env c req"] by auto
next
  case (opened amount price raw1 r1 k r2)
  obtain x where x: "create_order env req amount price (new_run env c req) = (Inr raw, call x (new_run env c req))"
    using create_order_first [OF assms(2)] by blast
  with create_order_calls [OF x] have "\<And>oid. x \<noteq> Fetch_Order oid" by auto
  with that opened x show ?thesis by auto
qed

definition partly_done :: "string \<Rightarrow> nat \<Rightarrow> order_run \<Rightarrow> bool" where
  \<comment> \<open>the order has a partial fill and was asked for so many times\<close>
  "partly_done oid n r \<longleftrightarrow> res_status (run_res r) = PARTIALLY_FILLED \<and> 0 < res_filled (run_res r) \<and>
     res_order_id (run_res r) = oid \<and> length (filter (\<lambda>x. x = Fetch_Order oid) (run_calls r)) = n"

definition cut_short :: "raw_order \<Rightarrow> bool" where
  "cut_short raw \<longleftrightarrow> status_of raw = Some CANCELLED \<and> 0 < or0 (ro_filled raw) \<and> ro_remaining raw \<noteq> Some 0"

lemma cut_short_status: "cut_short raw \<Longrightarrow> 0 < filled \<Longrightarrow> status_after raw filled old = PARTIALLY_FILLED"
  by (simp add: cut_short_def status_after_def)

lemma refresh_partly_done:
  assumes "partly_done oid n r" and "cut_short raw" and "\<And>k a. ce_fetch env k a = Inr raw"
  shows "partly_done oid (Suc n) (refresh_order env c k r)"
proof -
  have "refresh_order env c k r = apply_order c (ce_now_ms env) raw (call (Fetch_Order (res_order_id (run_res r))) r)"
    by (simp add: refresh_order_def fetch_raw_order_def assms(3) Let_def)
  then show ?thesis
    using assms(1,2) by (simp add: partly_done_def apply_order_simps cut_short_status less_max_iff_disj)
qed

lemma poll_partly_done:
  assumes "poll_order env c dl k r = Some (j, r')" and "partly_done oid k r" and "cut_short raw"
    and "\<And>k a. ce_fetch env k a = Inr raw"
  shows "partly_done oid j r' \<and> dl \<le> ce_monotonic env j"
proof -
  have "partly_done oid k r \<and> (\<forall>k a. ce_fetch env k a = Inr raw) \<longrightarrow> partly_done oid (fst x) (snd x) \<and> dl \<le> ce_monotonic env (fst x)"
    if "poll_order env c dl k r = Some x" for x
  proof (rule poll_order.raw_induct [where P = "\<lambda>env c dl k r x. partly_done oid k r \<and> (\<forall>k a. ce_fetch env k a = Inr raw) \<longrightarrow>
      partly_done oid (fst x) (snd x) \<and> dl \<le> ce_monotonic env (fst x)", OF _ that], intro impI)
    fix f env c dl k r x
    assume IH: "\<And>env c dl k r x. f env c dl k r = Some x \<Longrightarrow> partly_done oid k r \<and> (\<forall>k a. ce_fetch env k a = Inr raw) \<longrightarrow>
        partly_done oid (fst x) (snd x) \<and> dl \<le> ce_monotonic env (fst x)"
      and eq: "(if res_is_terminal (run_res r) \<or> dl \<le> ce_monotonic env k then Some (k, r)
        else f env c dl (Suc k) (refresh_order env c k r)) = Some x"
      and pre: "partly_done oid k r \<and> (\<forall>k a. ce_fetch env k a = Inr raw)"
    have t: "\<not> res_is_terminal (run_res r)" using pre by (simp add: partly_done_def res_is_terminal_def)
    show "partly_done oid (fst x) (snd x) \<and> dl \<le> ce_monotonic env (fst x)"
    proof (cases "dl \<le> ce_monotonic env k")
      case True
      with eq pre show ?thesis by auto
    next
      case False
      with eq t have "f env c dl (Suc k) (refresh_order env c k r) = Some x" by simp
      from IH [OF this] show ?thesis using pre refresh_partly_done [OF _ assms(3), of oid k r env c k] by blast
    qed
  qed
  with assms show ?thesis by fastforce
qed

text \<open>An order that may still be open is reported as cancelled: when the exchange accepts an order as
  open and then answers no further question about it, the result says CANCELLED with nothing filled
  and counts as a good order, whatever became of the cancellation.\<close>

theorem unconfirmed_cancel_reported:
  assumes "place_order env c req = Some (Inr r, c')" and "ce_create env 0 = Inr raw"
    and "status_of raw = Some OPEN" and "or0 (ro_filled raw) = 0"
    and "\<And>k a. \<exists>e. ce_fetch env k a = Inl e"
  shows "res_status (run_res r) = CANCELLED \<and> res_filled (run_res r) = 0 \<and>
    Cancel_Order (res_order_id (run_res r)) \<in> set (run_calls r)"
proof -
  obtain x k r2 where p: "poll_order env c (order_deadline env req) 0 (opened_run env c req raw (call x (new_run env c req))) = Some (k, r2)"
      and r: "r = settle_order env c k r2" by (rule place_order_opened [OF assms(1,2)])
  have r2: "run_res r2 = run_res (opened_run env c req raw (call x (new_run env c req)))"
    by (rule poll_order_fails [OF assms(5) p])
  have st: "res_status (run_res r2) = OPEN" "res_filled (run_res r2) = 0"
    unfolding r2 by (simp_all add: opened_run_def apply_order_simps assms(3,4) status_after_def)
  define r3 where "r3 = call (Cancel_Order (res_order_id (run_res r2))) r2"
  have "run_res (refresh_order env c k r3) = run_res r2"
    using refresh_order_fails [OF assms(5), of c k r3] by (simp add: r3_def)
  moreover have "Cancel_Order (res_order_id (run_res r2)) \<in> set (run_calls (refresh_order env c k r3))"
    using refresh_order_same [of r3 env c k] by (auto simp: same_order_def r3_def)
  ultimately show ?thesis
    unfolding r using st by (simp add: settle_order_def cancel_open_def res_is_terminal_def Let_def r3_def [symmetric])
qed

text \<open>A partial fill is not recognised as the end of an order: when an order is cancelled by the exchange
  at once with part of it filled, as an immediate-or-cancel order is, the result is PARTIALLY_FILLED, which
  is no final status, so the connector asks again until the deadline and then cancels what is gone.\<close>

theorem partial_fill_waits_for_deadline:
  assumes "place_order env c req = Some (Inr r, c')" and "ce_create env 0 = Inr raw"
    and "status_of raw = Some CANCELLED" and "0 < or0 (ro_filled raw)" and "ro_remaining raw \<noteq> Some 0"
    and "\<And>k a. ce_fetch env k a = Inr raw"
  shows "res_status (run_res r) = PARTIALLY_FILLED \<and>
    (\<exists>k oid. order_deadline env req \<le> ce_monotonic env k \<and> Cancel_Order oid \<in> set (run_calls r) \<and>
       length (filter (\<lambda>x. x = Fetch_Order oid) (run_calls r)) = Suc k)"
proof -
  have cut: "cut_short raw" using assms(3-5) by (simp add: cut_short_def)
  obtain x k r2 where p: "poll_order env c (order_deadline env req) 0 (opened_run env c req raw (call x (new_run env c req))) = Some (k, r2)"
      and r: "r = settle_order env c k r2" and x: "\<And>oid. x \<noteq> Fetch_Order oid"
    by (rule place_order_opened [OF assms(1,2)]) (rule that)
  define oid where "oid = res_order_id (run_res (opened_run env c req raw (call x (new_run env c req))))"
  have "partly_done oid 0 (opened_run env c req raw (call x (new_run env c req)))"
    using assms(4) x cut by (simp add: partly_done_def oid_def opened_run_def apply_order_simps cut_short_status less_max_iff_disj)
  from poll_partly_done [OF p this cut assms(6)] have d: "partly_done oid k r2" "order_deadline env req \<le> ce_monotonic env k"
    by simp_all
  define r3 where "r3 = call (Cancel_Order oid) r2"
  have "partly_done oid k r3" using d(1) by (simp add: partly_done_def r3_def)
  from refresh_partly_done [OF this cut assms(6)] have r4: "partly_done oid (Suc k) (refresh_order env c k r3)" .
  have c4: "Cancel_Order oid \<in> set (run_calls (refresh_order env c k r3))"
    using refresh_order_same [of r3 env c k] by (auto simp: same_order_def r3_def)
  have co: "cancel_open env c k r2 = set_res (\<lambda>o1. o1\<lparr>res_status := PARTIALLY_FILLED\<rparr>) (refresh_order env c k r3)"
    using d(1) r4 by (auto simp: cancel_open_def Let_def partly_done_def res_is_terminal_def r3_def set_res_def)
  let ?n = "\<lambda>r. length (filter (\<lambda>x. x = Fetch_Order oid) (run_calls r))"
  have lf: "?n (load_fills env c r1) = ?n r1" and lm: "y \<in> set (run_calls r1) \<Longrightarrow> y \<in> set (run_calls (load_fills env c r1))" for r1 y
    by (auto simp: load_fills_def Let_def split_def split: sum.split option.split)
  have "res_status (run_res r) = PARTIALLY_FILLED" "?n r = Suc k" "Cancel_Order oid \<in> set (run_calls r)"
    unfolding r using r4 c4 lf
    by (auto simp: settle_order_def Let_def co partly_done_def load_fills_keeps intro!: lm)
  with d(2) show ?thesis by blast
qed

text \<open>Fees in a third asset are counted once per fill: such a fee is estimated from the whole traded
  amount and the fee schedule, and the estimate is added for every fill, so an order of several fills is
  charged a multiple of its fee.\<close>

theorem third_asset_fee_per_fill:
  assumes "map_of (cc_markets c) (or_symbol (res_request (run_res r))) = Some m"
    and "\<And>f. f \<in> set (res_fills (run_res r)) \<Longrightarrow> fl_fee_amount f \<noteq> 0 \<and> fl_fee_asset f \<notin> {mi_base m, mi_quote m}"
    and "schedule_rate c (or_symbol (res_request (run_res r))) m = Some rate"
  shows "res_fee_quote (run_res (price_fees c r)) =
    dsum (replicate (length (res_fills (run_res r))) (ddiv (dmul (res_quote_amount (run_res r)) rate) 100))"
proof -
  let ?f = "\<lambda>(t, r1) f. case fee_to_quote c (fl_fee_amount f) (fl_fee_asset f) (Some (fl_price f)) r1 of (x, r2) \<Rightarrow> (dadd t x, r2)"
  let ?e = "ddiv (dmul (res_quote_amount (run_res r)) rate) 100"
  have "fst (foldl ?f (t, r1) fs) = foldl dadd t (replicate (length fs) ?e)"
    if "run_res r1 = run_res r" "set fs \<subseteq> set (res_fills (run_res r))" for t r1 fs
    using that
  proof (induction fs arbitrary: t r1)
    case (Cons f fs)
    have "fl_fee_amount f \<noteq> 0 \<and> fl_fee_asset f \<notin> {mi_base m, mi_quote m}" using Cons.prems(2) assms(2) by simp
    then obtain r2 where "fee_to_quote c (fl_fee_amount f) (fl_fee_asset f) (Some (fl_price f)) r1 = (?e, r2)" "run_res r2 = run_res r"
      using Cons.prems(1) by (simp add: fee_to_quote_def Let_def assms(1,3))
    then show ?case using Cons.IH [of r2] Cons.prems(2) by simp
  qed simp
  from this [OF refl order.refl] show ?thesis by (simp add: fees_in_quote_def dsum_def)
qed

subsection \<open>Fees and health\<close>

text \<open>Fees are known or say so: a fee looked up without a cached one comes from the exchange when the
  account may ask and the exchange answers for the symbol, else from the market, else from the documented
  default, and only without any of these is it unknown; it is then the cached fee of the symbol.\<close>

theorem fetch_fees_source:
  assumes "fetch_fees fa now symbol c = (f, c')" and "map_of (cc_fee_cache c) symbol = None"
  shows "map_of (cc_fee_cache c') symbol = Some f \<and>
    fs_source f \<in> {''exchange_api'', ''market_metadata'', ''documented_fallback'', ''unknown''} \<and>
    (fs_source f = ''exchange_api'' \<longrightarrow> cc_has_credentials c) \<and>
    (fee_known f = (fs_source f \<noteq> ''unknown'')) \<and>
    (fs_source f = ''unknown'' \<longrightarrow> (\<forall>m. map_of (cc_markets c) symbol = Some m \<longrightarrow> mi_taker_fee_pct m = None) \<and>
       (\<forall>s. cc_spec c = Some s \<longrightarrow> xs_fallback_taker_pct s = None))"
proof -
  have api: "fs_source g = ''exchange_api'' \<and> fee_known g"
    if "map_of (fold (put_fee now) fs d) symbol = Some g"
       "\<And>g. map_of d symbol = Some g \<Longrightarrow> fs_source g = ''exchange_api'' \<and> fee_known g" for fs d g
    using that
  proof (induction fs arbitrary: d)
    case (Cons x fs)
    obtain s t m where x: "x = (s, t, m)" by (metis prod.exhaust)
    show ?case
    proof (rule Cons.IH)
      show "map_of (fold (put_fee now) fs (put_fee now x d)) symbol = Some g" using Cons.prems(1) by simp
      fix g' assume "map_of (put_fee now x d) symbol = Some g'"
      then show "fs_source g' = ''exchange_api'' \<and> fee_known g'"
        using Cons.prems(2) by (auto simp: x put_fee_def api_fee_def fee_of_def fee_known_def update_conv' split: option.splits if_splits)
    qed
  qed simp
  define c1 where "c1 = (if cc_has_credentials c \<and> 3600000 < now - cc_fees_fetched_at c then refresh_fees fa now symbol c else c)"
  have same: "cc_markets c1 = cc_markets c" "cc_spec c1 = cc_spec c"
    by (simp_all add: c1_def refresh_fees_def Let_def split: sum.split)
  have e: "fetch_fees fa now symbol c = (case map_of (cc_fee_cache c1) symbol of Some f \<Rightarrow> (f, c1)
      | None \<Rightarrow> let f = static_fee c1 symbol now in (f, c1\<lparr>cc_fee_cache := AList.update symbol f (cc_fee_cache c1)\<rparr>))"
    by (simp only: fetch_fees_def assms(2) option.case not_False_eq_True simp_thms Let_def c1_def)
  show ?thesis
  proof (cases "map_of (cc_fee_cache c1) symbol")
    case (Some g)
    have "\<exists>fs. cc_fee_cache c1 = fold (put_fee now) fs (cc_fee_cache c)"
      unfolding c1_def refresh_fees_def Let_def
      by (auto split: sum.split intro: exI [of _ "[]"] exI [of _ "[(symbol, _)]"])
    then have src: "fs_source g = ''exchange_api'' \<and> fee_known g"
      using api Some assms(2) by (metis option.distinct(1))
    have cred: "cc_has_credentials c"
      using Some assms(2) by (auto simp: c1_def split: if_splits)
    have "f = g" "c' = c1" using assms(1) Some by (simp_all add: e)
    then show ?thesis using src cred Some by simp
  next
    case None
    then show ?thesis using assms(1)
      by (auto simp: e Let_def static_fee_def documented_fee_def fee_of_def fee_known_def same split: option.splits)
  qed
qed

subsection \<open>Witnesses\<close>

lemma place_order_accepted:
  assumes "cc_has_credentials c" and "quantize_order c (or_symbol req) (or_amount req) (or_limit_price req) (or_side req) = Inr (a, Some p)"
    and "ce_create env 0 = Inr raw" and "\<And>k. ce_monotonic env k + 1 / 4 \<le> ce_monotonic env (Suc k)"
  shows "\<exists>r c'. place_order env c req = Some (Inr r, c')"
proof -
  obtain x where x: "create_order env req a p (new_run env c req) = (Inr raw, call x (new_run env c req))"
    using create_order_first [OF assms(3)] by blast
  obtain j r' where "poll_order env c (order_deadline env req) 0 (opened_run env c req raw (call x (new_run env c req))) = Some (j, r')"
    using poll_order_ends [OF assms(4)] by blast
  then show ?thesis by (simp add: place_order_def assms(1,2) x Let_def)
qed

definition demo_cex :: cex where
  "demo_cex = \<lparr>cc_name = ''kraken'', cc_kind = CEX, cc_display = ''Kraken'', cc_spec = None, cc_market_type = ''spot'',
     cc_has_credentials = True, cc_ws = False, cc_markets = [], cc_fee_cache = [], cc_fees_fetched_at = 0,
     cc_perm_trade = None, cc_tracker = new_tracker\<rparr>"

definition demo_raw :: "string \<Rightarrow> decimal \<Rightarrow> raw_order" where
  "demo_raw st n = \<lparr>ro_id = Some ''o1'', ro_status = Some st, ro_filled = Some n, ro_average = None, ro_remaining = None,
     ro_trades = [], ro_fee = None, ro_side = None, ro_amount = None, ro_price = None\<rparr>"

definition demo_cex_env :: "raw_order \<Rightarrow> (ccxt_error + raw_order) \<Rightarrow> cex_env" where
  "demo_cex_env raw later = \<lparr>ce_create = \<lambda>_. Inr raw, ce_fetch = \<lambda>_ _. later, ce_trades = Inr [],
     ce_mentions_tif = \<lambda>_. False, ce_monotonic = (\<lambda>k. of_nat k / 4), ce_start = 0, ce_latency = 1, ce_tick = 1, ce_now_ms = 5\<rparr>"

definition demo_req :: order_request where
  "demo_req = \<lparr>or_venue = ''kraken'', or_symbol = ''BTC/USDC'', or_side = BUY, or_amount = 5, or_limit_price = Some 7,
     or_time_in_force = ''IOC'', or_client_order_id = ''c1'', or_min_received = None, or_max_gas_usd = None,
     or_quote_id = None, or_deadline_ms = None, or_reduce_only = False, or_extra_quoted_price = None\<rparr>"

lemma demo_clock: "ce_monotonic (demo_cex_env raw later) k + 1 / 4 \<le> ce_monotonic (demo_cex_env raw later) (Suc k)"
  by (simp add: demo_cex_env_def add_divide_distrib)

lemma demo_placed: "\<exists>r c'. place_order (demo_cex_env raw later) demo_cex demo_req = Some (Inr r, c')"
  by (rule place_order_accepted [of _ _ 5 7 _ raw, OF _ _ _ demo_clock])
    (simp_all add: demo_cex_def demo_req_def quantize_order_def demo_cex_env_def)

lemma lower_demo: "lower ''open'' = ''open''" "lower ''Canceled'' = ''canceled''"
  by code_simp+

lemma demo_status:
  "status_of (demo_raw ''open'' n) = Some OPEN" "status_of (demo_raw ''Canceled'' n) = Some CANCELLED"
  by (simp_all add: status_of_def demo_raw_def STATUS_MAP_def lower_demo)

theorem place_order_returns_witness:
  "\<exists>ans. place_order (demo_cex_env (demo_raw ''open'' 0) (Inl (RequestTimeout, ''t''))) demo_cex demo_req = Some ans"
  using place_order_returns [OF demo_clock] by blast


theorem quantized_order_tight_witness:
  "\<exists>amt px. quantize_order (demo_cex\<lparr>cc_markets := [(''BTC/USDC'', market_from demo_cex True ''BTC/USDC''
      \<lparr>rm_active = None, rm_type = None, rm_swap = False, rm_linear = False, rm_base = ''BTC'', rm_quote = ''USDC'',
       rm_prec_amount = Some 1, rm_prec_price = Some 1, rm_min_amount = None, rm_max_amount = None, rm_min_cost = None,
       rm_taker = None, rm_maker = None, rm_contract_size = None, rm_settle = None\<rparr>)]\<rparr>) ''BTC/USDC'' 5 (Some 7) BUY = Inr (amt, Some px) \<and>
     amt \<le> 5 \<and> px \<le> 7"
proof -
  let ?m = "market_from demo_cex True ''BTC/USDC''
      \<lparr>rm_active = None, rm_type = None, rm_swap = False, rm_linear = False, rm_base = ''BTC'', rm_quote = ''USDC'',
       rm_prec_amount = Some 1, rm_prec_price = Some 1, rm_min_amount = None, rm_max_amount = None, rm_min_cost = None,
       rm_taker = None, rm_maker = None, rm_contract_size = None, rm_settle = None\<rparr>"
  let ?c = "demo_cex\<lparr>cc_markets := [(''BTC/USDC'', ?m)]\<rparr>"
  have m: "map_of (cc_markets ?c) ''BTC/USDC'' = Some ?m" by simp
  have s: "mi_amount_step ?m = 10 powi 0" "mi_price_step ?m = 10 powi 0" "mi_min_amount ?m = 0" "mi_min_cost ?m = 0"
    by (simp_all add: market_from_def step_of_def or0_def)
  have d: "drepr 5" "drepr 7" unfolding drepr_def fits_def
    by (intro exI [of _ 5] exI [of _ 0], simp) (intro exI [of _ 7] exI [of _ 0], simp)
  have q: "quantize_order ?c ''BTC/USDC'' 5 (Some 7) BUY = Inr (floor_to_step 5 (10 powi 0), Some (floor_to_step 7 (10 powi 0)))"
    using floor_to_step_power10 [OF d(1), of 0] by (simp add: quantize_order_def m s Let_def)
  from quantized_order_tight [OF q m s(1,2) d(1) _ d(2)] q show ?thesis by auto
qed

theorem unconfirmed_cancel_reported_witness:
  "\<exists>r c'. place_order (demo_cex_env (demo_raw ''open'' 0) (Inl (RequestTimeout, ''t''))) demo_cex demo_req = Some (Inr r, c') \<and>
     res_status (run_res r) = CANCELLED"
proof -
  let ?env = "demo_cex_env (demo_raw ''open'' 0) (Inl (RequestTimeout, ''t''))"
  obtain r c' where p: "place_order ?env demo_cex demo_req = Some (Inr r, c')" using demo_placed by blast
  have "res_status (run_res r) = CANCELLED \<and> res_filled (run_res r) = 0 \<and> Cancel_Order (res_order_id (run_res r)) \<in> set (run_calls r)"
    by (rule unconfirmed_cancel_reported [OF p, of "demo_raw ''open'' 0"])
      (simp add: demo_cex_env_def, rule demo_status, simp add: demo_raw_def or0_def, simp add: demo_cex_env_def)
  with p show ?thesis by blast
qed

theorem partial_fill_waits_for_deadline_witness:
  "\<exists>r c'. place_order (demo_cex_env (demo_raw ''Canceled'' 2) (Inr (demo_raw ''Canceled'' 2))) demo_cex demo_req = Some (Inr r, c') \<and>
     res_status (run_res r) = PARTIALLY_FILLED"
proof -
  let ?env = "demo_cex_env (demo_raw ''Canceled'' 2) (Inr (demo_raw ''Canceled'' 2))"
  obtain r c' where p: "place_order ?env demo_cex demo_req = Some (Inr r, c')" using demo_placed by blast
  have "res_status (run_res r) = PARTIALLY_FILLED \<and>
    (\<exists>k oid. order_deadline ?env demo_req \<le> ce_monotonic ?env k \<and> Cancel_Order oid \<in> set (run_calls r) \<and>
       length (filter (\<lambda>x. x = Fetch_Order oid) (run_calls r)) = Suc k)"
    by (rule partial_fill_waits_for_deadline [OF p, of "demo_raw ''Canceled'' 2"])
      (simp add: demo_cex_env_def, rule demo_status, simp_all add: demo_raw_def or0_def demo_cex_env_def)
  with p show ?thesis by blast
qed

definition demo_fill :: fill where
  "demo_fill = \<lparr>fl_order_id = ''o1'', fl_venue = ''kraken'', fl_symbol = ''BTC/USDC'', fl_side = BUY, fl_amount = 1, fl_price = 100,
     fl_fee_amount = 1, fl_fee_asset = ''BNB'', fl_ts_ms = 5, fl_trade_id = None, fl_tx_hash = None, fl_gas_used = None, fl_gas_cost_usd = None\<rparr>"

definition bnb_market :: market_info where
  "bnb_market = \<lparr>mi_venue = ''kraken'', mi_symbol = ''BTC/USDC'', mi_base = ''BTC'', mi_quote = ''USDC'', mi_kind = CEX, mi_active = True,
     mi_amount_step = 1, mi_price_step = 1, mi_min_amount = 0, mi_max_amount = None, mi_min_cost = 0, mi_taker_fee_pct = Some 1,
     mi_maker_fee_pct = None, mi_contract_size = 1, mi_settle = None, mi_chain = None\<rparr>"

theorem third_asset_fee_per_fill_witness:
  "\<exists>r. res_fills (run_res r) = [demo_fill, demo_fill] \<and> res_quote_amount (run_res r) = 200 \<and>
     res_fee_quote (run_res (price_fees (demo_cex\<lparr>cc_markets := [(''BTC/USDC'', bnb_market)]\<rparr>) r)) = 4"
proof -
  let ?c = "demo_cex\<lparr>cc_markets := [(''BTC/USDC'', bnb_market)]\<rparr>"
  let ?r = "set_res (\<lambda>o1. o1\<lparr>res_fills := [demo_fill, demo_fill]\<rparr>) (new_run (demo_cex_env (demo_raw ''open'' 0) (Inl (OtherError, []))) ?c demo_req)"
  have q: "res_quote_amount (run_res ?r) = 200"
    by (simp add: res_quote_amount_def demo_fill_def dsum_def dec_defs dround_eval)
  have "res_fee_quote (run_res (price_fees ?c ?r)) =
    dsum (replicate (length (res_fills (run_res ?r))) (ddiv (dmul (res_quote_amount (run_res ?r)) 1) 100))"
    by (rule third_asset_fee_per_fill [of _ _ bnb_market])
      (simp_all add: new_run_def new_result_def demo_req_def demo_fill_def bnb_market_def schedule_rate_def demo_cex_def)
  also have "\<dots> = 4" unfolding q by (simp add: dsum_def dec_defs dround_eval numeral_2_eq_2)
  finally show ?thesis using q by (intro exI [of _ ?r]) simp
qed

theorem fetch_fees_source_witness:
  "\<exists>f c'. fetch_fees \<lparr>fa_has_fees = False, fa_has_fee = False, fa_fees = Inr [], fa_fee = Inr (None, None)\<rparr> 7 ''BTC/USDC'' demo_cex = (f, c') \<and>
     map_of (cc_fee_cache c') ''BTC/USDC'' = Some f"
proof -
  obtain f c' where f: "fetch_fees \<lparr>fa_has_fees = False, fa_has_fee = False, fa_fees = Inr [], fa_fee = Inr (None, None)\<rparr> 7 ''BTC/USDC'' demo_cex = (f, c')"
    by force
  have "map_of (cc_fee_cache demo_cex) ''BTC/USDC'' = None" by (simp add: demo_cex_def)
  from fetch_fees_source [OF f this] f show ?thesis by blast
qed

end
