(* ===== verification/Gateway_Client.thy ===== *)
theory Gateway_Client
  imports Strategies
begin

text \<open>
  Model of the client of the DEX gateway (\<^verbatim>\<open>backend/fedr/connectors/dex/gateway_client.py\<close>): the rate
  limit, the retries of a request and the reading of quotes. The HTTP exchange is not under the
  repository: the answer to the k-th attempt of a request is an argument.
\<close>

subsection \<open>Errors and quotes\<close>

record gateway_error =
  ge_text :: string
  ge_status :: int
  ge_code :: "string option"

definition gateway_retryable :: "gateway_error \<Rightarrow> bool" where
  "gateway_retryable e \<longleftrightarrow> ge_code e = Some ''TRANSACTION_TIMEOUT'' \<or> ge_status e \<in> {502, 503}"

record gateway_quote =
  gq_connector :: string
  gq_network :: string
  gq_base :: string
  gq_quote :: string
  gq_side :: order_side
  gq_amount :: decimal
  gq_quote_id :: "string option"
  gq_token_in :: string
  gq_token_out :: string
  gq_amount_in :: decimal
  gq_amount_out :: decimal
  gq_price :: decimal
  gq_price_impact_pct :: decimal
  gq_min_amount_out :: "decimal option"
  gq_max_amount_in :: "decimal option"
  gq_gas_estimate :: "int option"
  gq_approximation :: bool
  gq_fetched_at_ms :: int

record quote_answer =
  qa_quote_id :: "string option"
  qa_token_in :: "string option"
  qa_token_out :: "string option"
  qa_amount_in :: "decimal option"
  qa_amount_out :: "decimal option"
  qa_price :: "decimal option"
  qa_price_impact_pct :: "decimal option"
  qa_min_amount_out :: "decimal option"
  qa_max_amount_in :: "decimal option"
  qa_gas_estimate :: "decimal option"
  qa_approximation :: bool

definition num0 :: "decimal option \<Rightarrow> decimal" where
  \<comment> \<open>\<open>D(d.get(key) or 0)\<close>\<close>
  "num0 x = (case x of None \<Rightarrow> 0 | Some d \<Rightarrow> d)"

definition text0 :: "string option \<Rightarrow> string" where
  "text0 x = (case x of None \<Rightarrow> [] | Some s \<Rightarrow> s)"

definition read_quote ::
  "string \<Rightarrow> string \<Rightarrow> string \<Rightarrow> string \<Rightarrow> decimal \<Rightarrow> order_side \<Rightarrow> int \<Rightarrow> quote_answer \<Rightarrow> gateway_quote" where
  "read_quote connector network base quote amount side now d =
     \<lparr>gq_connector = connector, gq_network = network, gq_base = base, gq_quote = quote, gq_side = side, gq_amount = amount,
      gq_quote_id = qa_quote_id d, gq_token_in = text0 (qa_token_in d), gq_token_out = text0 (qa_token_out d),
      gq_amount_in = num0 (qa_amount_in d), gq_amount_out = num0 (qa_amount_out d), gq_price = num0 (qa_price d),
      gq_price_impact_pct = num0 (qa_price_impact_pct d), gq_min_amount_out = qa_min_amount_out d,
      gq_max_amount_in = qa_max_amount_in d, gq_gas_estimate = map_option trunc_int (qa_gas_estimate d),
      gq_approximation = qa_approximation d, gq_fetched_at_ms = now\<rparr>"

subsection \<open>Rate limit\<close>

record bucket =
  bu_tokens :: rat
  bu_ts :: rat

definition RATE_PER_SECOND :: rat where
  "RATE_PER_SECOND = 20"

definition BURST :: rat where
  "BURST = 20"

definition throttle :: "rat \<Rightarrow> bucket option \<Rightarrow> rat \<times> bucket" where
  \<comment> \<open>the time slept and the bucket afterwards; no bucket before the first request\<close>
  "throttle now b =
     (let b0 = (case b of None \<Rightarrow> \<lparr>bu_tokens = BURST, bu_ts = now\<rparr> | Some b \<Rightarrow> b);
          tokens = min BURST (fround (bu_tokens b0 + fround (fround (now - bu_ts b0) * RATE_PER_SECOND)))
      in if tokens < 1 then (fround (fround (1 - tokens) / RATE_PER_SECOND), \<lparr>bu_tokens = 0, bu_ts = now\<rparr>)
         else (0, \<lparr>bu_tokens = fround (tokens - 1), bu_ts = now\<rparr>))"

subsection \<open>Requests\<close>

datatype http_method = GET | POST | DELETE

definition RETRY_STATUSES :: "int list" where
  "RETRY_STATUSES = [429, 502, 503, 504]"

definition MAX_RETRIES :: nat where
  "MAX_RETRIES = 3"

definition attempts_for :: "http_method \<Rightarrow> nat" where
  "attempts_for m = (if m = GET then MAX_RETRIES else 1)"

fun try_request :: "(nat \<Rightarrow> gateway_error + 'a) \<Rightarrow> nat \<Rightarrow> nat \<Rightarrow> (gateway_error + 'a) \<times> nat" where
  \<comment> \<open>of the answers, the attempts made so far and those left; with the number of requests sent\<close>
  "try_request ans k 0 = (ans k, k)"
| "try_request ans k (Suc n) =
     (case ans k of
        Inr x \<Rightarrow> (Inr x, Suc k)
      | Inl e \<Rightarrow> if n = 0 \<or> ge_status e \<notin> set RETRY_STATUSES then (Inl e, Suc k) else try_request ans (Suc k) n)"

definition request :: "http_method \<Rightarrow> (nat \<Rightarrow> gateway_error + 'a) \<Rightarrow> (gateway_error + 'a) \<times> nat" where
  "request m ans = try_request ans 0 (attempts_for m)"

definition backoff :: "nat \<Rightarrow> rat" where
  \<comment> \<open>the pause after the k-th failure: it doubles from a quarter of a second up to two\<close>
  "backoff k = min (1 / 4 * 2 ^ k) 2"

definition gateway_ping :: "(nat \<Rightarrow> gateway_error + string option) \<Rightarrow> bool" where
  "gateway_ping ans = (case fst (request GET ans) of Inr st \<Rightarrow> st = Some ''ok'' | Inl _ \<Rightarrow> False)"

subsection \<open>Properties\<close>

lemma throttle_bucket:
  assumes "throttle now b = (w, b')" and "case b of None \<Rightarrow> True | Some b0 \<Rightarrow> 0 \<le> bu_tokens b0 \<and> bu_ts b0 \<le> now"
  shows "0 \<le> w \<and> 0 \<le> bu_tokens b' \<and> bu_tokens b' \<le> BURST \<and> bu_ts b' = now"
proof -
  define b0 where "b0 = (case b of None \<Rightarrow> \<lparr>bu_tokens = BURST, bu_ts = now\<rparr> | Some b \<Rightarrow> b)"
  define x where "x = min BURST (fround (bu_tokens b0 + fround (fround (now - bu_ts b0) * RATE_PER_SECOND)))"
  have t: "throttle now b = (if x < 1 then (fround (fround (1 - x) / RATE_PER_SECOND), \<lparr>bu_tokens = 0, bu_ts = now\<rparr>)
      else (0, \<lparr>bu_tokens = fround (x - 1), bu_ts = now\<rparr>))"
    by (simp add: throttle_def Let_def b0_def [symmetric] x_def)
  have "x \<le> 20" by (simp add: x_def BURST_def)
  have r: "frepr 19" unfolding frepr_def fits_def by (intro exI [of _ 19] exI [of _ 0]) simp
  have "fround (x - 1) \<le> 19" using \<open>x \<le> 20\<close> by (intro flt.rnd_le r) simp
  moreover have "0 \<le> fround (fround (1 - x) / RATE_PER_SECOND)" if "x < 1"
    using that by (intro flt.rnd_nonneg divide_nonneg_pos) (simp_all add: flt.rnd_nonneg RATE_PER_SECOND_def)
  ultimately show ?thesis
    using assms(1) unfolding t by (auto simp: BURST_def flt.rnd_nonneg split: if_splits)
qed

text \<open>The pause of the rate limiter is counted twice: a request that finds the bucket empty sleeps the
  twentieth of a second its token takes, but the clock of the bucket stays at the moment before, so a
  request that follows right after it finds the same token again and does not wait at all.\<close>

theorem throttle_counts_pause_twice:
  assumes "throttle t (Some \<lparr>bu_tokens = 0, bu_ts = t\<rparr>) = (w, b1)" and "t + w \<le> t'"
    and "throttle t' (Some b1) = (w', b2)"
  shows "w = fround (1 / 20) \<and> w' = 0"
proof -
  have e: "fround (1 / 20) = 3602879701896397 / 72057594037927936" unfolding fround_def by code_simp
  have r1: "frepr 1" unfolding frepr_def fits_def by (intro exI [of _ 1] exI [of _ 0]) simp
  note one = flt.rnd_exact [OF r1] r1 flt.rnd_0
  have w: "w = fround (1 / 20)" "b1 = \<lparr>bu_tokens = 0, bu_ts = t\<rparr>"
    using assms(1) by (simp_all add: throttle_def Let_def BURST_def RATE_PER_SECOND_def one)
  have fr: "frepr (fround (1 / 20))" by (rule flt.rnd_repr)
  have "fround (1 / 20) \<le> fround (t' - t)"
    using assms(2) w(1) by (intro flt.rnd_ge fr) simp
  then have "1 \<le> fround (t' - t) * 20" unfolding e by simp
  then have "1 \<le> fround (fround (t' - t) * 20)" by (rule flt.rnd_ge [OF r1])
  then have "1 \<le> fround (0 + fround (fround (t' - t) * 20))" by (auto intro: flt.rnd_ge [OF r1])
  then have "w' = 0"
    using assms(3) unfolding w(2) by (auto simp: throttle_def Let_def BURST_def RATE_PER_SECOND_def split: if_splits)
  with w(1) show ?thesis ..
qed

lemma try_request_spec:
  assumes "try_request ans k (Suc n) = (r, sent)"
  shows "k < sent \<and> sent \<le> k + Suc n \<and> r = ans (sent - 1) \<and>
    (\<forall>i. k \<le> i \<and> Suc i < sent \<longrightarrow> (\<exists>e. ans i = Inl e \<and> ge_status e \<in> set RETRY_STATUSES)) \<and>
    (case r of Inl e \<Rightarrow> sent = k + Suc n \<or> ge_status e \<notin> set RETRY_STATUSES | Inr _ \<Rightarrow> True)"
  using assms
proof (induction n arbitrary: k)
  case 0
  then show ?case by (auto split: sum.splits)
next
  case (Suc n)
  show ?case
  proof (cases "\<exists>e. ans k = Inl e \<and> ge_status e \<in> set RETRY_STATUSES")
    case True
    then have "try_request ans (Suc k) (Suc n) = (r, sent)" using Suc.prems by auto
    from Suc.IH [OF this] True show ?thesis by (auto simp: not_less_eq_eq le_less_Suc_eq less_Suc_eq_le elim: le_SucE dest: le_neq_implies_less split: sum.splits)
  next
    case False
    then show ?thesis using Suc.prems by (auto split: sum.splits)
  qed
qed

text \<open>A swap is never sent twice: whatever the gateway answers, a request that changes something goes out
  exactly once and its answer is returned, while a reading request is tried at most three times, again
  only after an answer that is transient, and returns the answer to its last attempt.\<close>

theorem request_retries_reads_only:
  assumes "request m ans = (r, sent)"
  shows "1 \<le> sent \<and> sent \<le> MAX_RETRIES \<and> r = ans (sent - 1) \<and> (m \<noteq> GET \<longrightarrow> sent = 1) \<and>
    (\<forall>i. Suc i < sent \<longrightarrow> (\<exists>e. ans i = Inl e \<and> ge_status e \<in> {429, 502, 503, 504})) \<and>
    (\<forall>e. r = Inl e \<and> m = GET \<and> ge_status e \<in> {429, 502, 503, 504} \<longrightarrow> sent = MAX_RETRIES)"
proof (cases "m = GET")
  case True
  then have "try_request ans 0 (Suc 2) = (r, sent)"
    using assms by (simp add: request_def attempts_for_def MAX_RETRIES_def numeral_3_eq_3 numeral_2_eq_2)
  from try_request_spec [OF this] True show ?thesis
    by (auto simp: MAX_RETRIES_def RETRY_STATUSES_def)
next
  case False
  then have "try_request ans 0 (Suc 0) = (r, sent)" using assms by (simp add: request_def attempts_for_def)
  from try_request_spec [OF this] False show ?thesis by (auto simp: MAX_RETRIES_def RETRY_STATUSES_def)
qed

subsection \<open>Witnesses\<close>

theorem throttle_counts_pause_twice_witness:
  "\<exists>b1 b2. throttle 0 (Some \<lparr>bu_tokens = 0, bu_ts = 0\<rparr>) = (fround (1 / 20), b1) \<and>
     throttle (fround (1 / 20)) (Some b1) = (0, b2)"
proof -
  obtain w b1 where 1: "throttle 0 (Some \<lparr>bu_tokens = 0, bu_ts = 0\<rparr>) = (w, b1)" by force
  obtain w' b2 where 2: "throttle w (Some b1) = (w', b2)" by force
  from throttle_counts_pause_twice [OF 1 _ 2] 1 2 show ?thesis by auto
qed

theorem request_retries_reads_only_witness:
  "\<exists>r. request POST (\<lambda>k. Inl \<lparr>ge_text = [], ge_status = 503, ge_code = None\<rparr> :: gateway_error + unit) = (r, 1)"
proof -
  obtain r sent where q: "request POST (\<lambda>k. Inl \<lparr>ge_text = [], ge_status = 503, ge_code = None\<rparr> :: gateway_error + unit) = (r, sent)"
    by force
  from request_retries_reads_only [OF q] q show ?thesis by auto
qed

end
