(* ===== verification/Dex_Connector.thy ===== *)
theory Dex_Connector
  imports Gateway_Client Cex_Connector
begin

text \<open>
  Model of the DEX connector (\<^verbatim>\<open>backend/fedr/connectors/dex/gateway_connector.py\<close>): its markets, quotes,
  swaps and their confirmation. The gateway's answers, the price of a native token and the clocks are
  the record \<open>dex_env\<close>; the signature search in an error text is the regular expression of the code,
  read as the first word of the text that is a signature.
\<close>

subsection \<open>The connector\<close>

record dex_spec =
  ds_id :: string
  ds_connector :: string
  ds_trading_type :: string
  ds_chain :: chain
  ds_display :: string
  ds_typical_fee_pct :: "decimal option"
  ds_gas_limit :: int

record dex =
  dx_spec :: dex_spec
  dx_network :: string
  dx_wallet :: string
  dx_pairs :: "string list"
  dx_connected :: bool
  dx_trading_enabled :: bool
  dx_tokens :: "(string, int option) dict"
  dx_token_ttl_ms :: int
  dx_quotes :: "(string, gateway_quote) dict"
  dx_markets :: "(string, market_info) dict"
  dx_tracker :: health_tracker

definition QUOTE_MAX_AGE_MS :: int where
  "QUOTE_MAX_AGE_MS = 8000"

definition error_args :: "gateway_error \<Rightarrow> arg list" where
  "error_args e = [AStr (ge_text e)]"

subsection \<open>Markets\<close>

definition token_table :: "(string option \<times> int option) list \<Rightarrow> (string, int option) dict" where
  "token_table ts = fold (\<lambda>(sym, dec) d. case sym of
      None \<Rightarrow> d | Some s \<Rightarrow> if s = [] then d else AList.update (map upper_char s) dec d) ts []"

definition token_decimals :: "int option \<Rightarrow> int" where
  "token_decimals x = (case x of None \<Rightarrow> 8 | Some n \<Rightarrow> if n = 0 then 8 else n)"

definition dex_market :: "dex \<Rightarrow> string \<Rightarrow> string \<Rightarrow> string \<Rightarrow> int option \<Rightarrow> market_info" where
  "dex_market c pair base quote dec =
     \<lparr>mi_venue = ds_id (dx_spec c), mi_symbol = pair, mi_base = base, mi_quote = quote, mi_kind = DEX, mi_active = True,
      mi_amount_step = 10 powi (- min (token_decimals dec) 9), mi_price_step = 1 / 10 ^ 8, mi_min_amount = 0,
      mi_max_amount = None, mi_min_cost = 0, mi_taker_fee_pct = ds_typical_fee_pct (dx_spec c), mi_maker_fee_pct = None,
      mi_contract_size = 1, mi_settle = None, mi_chain = Some (ds_chain (dx_spec c))\<rparr>"

fun dex_markets_for :: "dex \<Rightarrow> string list \<Rightarrow> (string, market_info) dict result" where
  "dex_markets_for c [] = Inr []"
| "dex_markets_for c (p # ps) =
     bind_result (split_pair p) (\<lambda>(b, q). bind_result (dex_markets_for c ps) (\<lambda>ms.
       case (map_of (dx_tokens c) b, map_of (dx_tokens c) q) of
         (Some dec, Some _) \<Rightarrow> Inr ((p, dex_market c p b q dec) # ms)
       | _ \<Rightarrow> Inr ms))"

definition dex_load_markets ::
  "gateway_error + (string option \<times> int option) list \<Rightarrow> rat \<Rightarrow> int \<Rightarrow> dex \<Rightarrow> (conn_error + unit result) \<times> dex" where
  "dex_load_markets ans tick now c =
     (let go = (\<lambda>c1. case dex_markets_for c1 (dx_pairs c1) of
                  Inl e \<Rightarrow> (Inr (Inl e), c1) | Inr ms \<Rightarrow> (Inr (Inr ()), c1\<lparr>dx_markets := ms\<rparr>))
      in if dx_token_ttl_ms c < now
         then (case ans of
                 Inl e \<Rightarrow> (Inl (Venue_Unavailable (Msg ''token list failed'' (error_args e))),
                           c\<lparr>dx_tracker := record_error tick (dx_tracker c)\<rparr>)
               | Inr ts \<Rightarrow> go (c\<lparr>dx_tokens := token_table ts, dx_token_ttl_ms := now + 3600000\<rparr>))
         else go c)"

definition dex_connect ::
  "bool \<Rightarrow> gateway_error option \<Rightarrow> gateway_error + (string option \<times> int option) list \<Rightarrow> rat \<Rightarrow> rat \<Rightarrow> int \<Rightarrow> dex \<Rightarrow>
   (conn_error + unit result) \<times> dex" where
  "dex_connect ping status tokens lat tick now c =
     (if \<not> ping then (Inl (Venue_Unavailable (Msg ''gateway not reachable'' [])), c)
      else let c1 = c\<lparr>dx_tracker := record_latency lat (dx_tracker c)\<rparr> in
        case status of
          Some e \<Rightarrow> (Inl (Venue_Unavailable (Msg ''gateway chain status failed'' (error_args e))), c1)
        | None \<Rightarrow> (case dex_load_markets tokens tick now c1 of
              (Inr (Inr u), c2) \<Rightarrow> (Inr (Inr u), c2\<lparr>dx_connected := True, dx_trading_enabled := (dx_wallet c \<noteq> [])\<rparr>)
            | other \<Rightarrow> other))"

subsection \<open>Quotes\<close>

definition prune_quotes :: "int \<Rightarrow> (string, gateway_quote) dict \<Rightarrow> (string, gateway_quote) dict" where
  "prune_quotes now d = filter (\<lambda>(k, v). now - 60000 \<le> gq_fetched_at_ms v) d"

definition keep_quote :: "int \<Rightarrow> gateway_quote \<Rightarrow> dex \<Rightarrow> dex" where
  "keep_quote now gq c =
     (case gq_quote_id gq of
        None \<Rightarrow> c
      | Some i \<Rightarrow> if i = [] then c else c\<lparr>dx_quotes := prune_quotes now (AList.update i gq (dx_quotes c))\<rparr>)"

definition swap_quote :: "dex \<Rightarrow> string \<Rightarrow> order_side \<Rightarrow> decimal \<Rightarrow> gateway_quote \<Rightarrow> execution_quote" where
  "swap_quote c symbol side amount gq =
     (let sp = dx_spec c;
          impact = max 0 (gq_price_impact_pct gq);
          (quote_amount, filled) =
            (case side of
               BUY \<Rightarrow> (gq_amount_in gq, if 0 < gq_amount_out gq then gq_amount_out gq else amount)
             | SELL \<Rightarrow> (gq_amount_out gq, if 0 < gq_amount_in gq then gq_amount_in gq else amount));
          avg = (if 0 < filled then ddiv quote_amount filled else 0);
          reference =
            (case side of
               BUY \<Rightarrow> if 0 < avg then ddiv avg (dadd 1 (ddiv impact 100)) else 0
             | SELL \<Rightarrow> if 0 < avg \<and> impact < 100 then ddiv avg (dsub 1 (ddiv impact 100)) else avg);
          fully = (dabs (dsub filled amount) \<le> dmul amount (1 / 1000) \<and> 0 < avg)
      in \<lparr>eq_venue = ds_id sp, eq_kind = DEX, eq_symbol = symbol, eq_side = side, eq_base_amount = amount,
          eq_quote_amount = quote_amount, eq_avg_price = avg, eq_reference_price = reference, eq_slippage_pct = 0,
          eq_price_impact_pct = impact, eq_fully_fillable = fully, eq_market_ts_ms = gq_fetched_at_ms gq,
          eq_quote_ts_ms = gq_fetched_at_ms gq, eq_fee_pct = ds_typical_fee_pct sp, eq_fee_source = ''embedded_in_quote'',
          eq_fee_in_quote = None, eq_gas_cost_usd = None,
          eq_gas_limit = Some (case gq_gas_estimate gq of None \<Rightarrow> ds_gas_limit sp | Some g \<Rightarrow> if g = 0 then ds_gas_limit sp else g),
          eq_gas_price_native = None, eq_priority_fee_usd = 0,
          eq_min_received = (case side of BUY \<Rightarrow> None | SELL \<Rightarrow> gq_min_amount_out gq),
          eq_route = ds_display sp, eq_quote_id = gq_quote_id gq, eq_chain = Some (ds_chain sp),
          eq_levels_consumed = 0, eq_depth_available_base = 0, eq_is_maker = False, eq_extra_taker_fee_pct = None\<rparr>)"

definition dex_get_quote ::
  "gateway_error + gateway_quote \<Rightarrow> rat \<Rightarrow> rat \<Rightarrow> int \<Rightarrow> string \<Rightarrow> order_side \<Rightarrow> decimal \<Rightarrow> dex \<Rightarrow>
   (conn_error + execution_quote) \<times> dex" where
  "dex_get_quote ans lat tick now symbol side amount c =
     (case ans of
        Inl e \<Rightarrow>
          let t = record_error tick (dx_tracker c);
              t1 = (if ge_code e \<noteq> Some ''NO_ROUTE_FOUND'' \<and> (ge_code e = Some ''RATE_LIMITED'' \<or> ge_status e = 429)
                    then t\<lparr>ht_rate_limited_until := fround (tick + 30)\<rparr> else t)
          in (Inl (if ge_code e = Some ''NO_ROUTE_FOUND'' then Order_Rejected (Msg ''no route'' [AStr symbol])
                   else Venue_Unavailable (Msg ''quote failed'' (error_args e))),
              c\<lparr>dx_tracker := record_latency lat t1\<rparr>)
      | Inr gq \<Rightarrow>
          let c1 = keep_quote now gq (c\<lparr>dx_tracker := (record_latency lat (dx_tracker c))\<lparr>ht_last_market_data_ms := now\<rparr>\<rparr>)
          in (Inr (swap_quote c1 symbol side amount gq), c1))"

subsection \<open>Signatures in an error text\<close>

definition is_word :: "char \<Rightarrow> bool" where
  "is_word ch = (let n = (of_char ch :: nat) in (48 \<le> n \<and> n \<le> 57) \<or> (65 \<le> n \<and> n \<le> 90) \<or> (97 \<le> n \<and> n \<le> 122) \<or> n = 95)"

definition is_base58 :: "char \<Rightarrow> bool" where
  "is_base58 ch = (let n = (of_char ch :: nat) in
     (49 \<le> n \<and> n \<le> 57) \<or> (65 \<le> n \<and> n \<le> 72) \<or> (74 \<le> n \<and> n \<le> 78) \<or> (80 \<le> n \<and> n \<le> 90) \<or>
     (97 \<le> n \<and> n \<le> 107) \<or> (109 \<le> n \<and> n \<le> 122))"

definition is_hex :: "char \<Rightarrow> bool" where
  "is_hex ch = (let n = (of_char ch :: nat) in (48 \<le> n \<and> n \<le> 57) \<or> (97 \<le> n \<and> n \<le> 102) \<or> (65 \<le> n \<and> n \<le> 70))"

definition is_signature :: "string \<Rightarrow> bool" where
  "is_signature w \<longleftrightarrow> (80 \<le> length w \<and> length w \<le> 90 \<and> list_all is_base58 w) \<or>
     (take 2 w = ''0x'' \<and> length w = 66 \<and> list_all is_hex (drop 2 w))"

function words_of :: "string \<Rightarrow> string list" where
  \<comment> \<open>the maximal runs of word characters\<close>
  "words_of [] = []"
| "words_of (ch # cs) =
     (if is_word ch then takeWhile is_word (ch # cs) # words_of (dropWhile is_word cs) else words_of cs)"
  by pat_completeness auto
termination
  by (relation "measure length") (auto simp: less_Suc_eq_le length_dropWhile_le)

definition extract_signature :: "string \<Rightarrow> string option" where
  "extract_signature text = find is_signature (words_of text)"

subsection \<open>Swaps\<close>

record tx_data =
  td_base_change :: "decimal option"
  td_quote_change :: "decimal option"
  td_amount_in :: "decimal option"
  td_amount_out :: "decimal option"
  td_fee :: "decimal option"

definition no_data :: tx_data where
  "no_data = \<lparr>td_base_change = None, td_quote_change = None, td_amount_in = None, td_amount_out = None, td_fee = None\<rparr>"

record swap_answer =
  sw_signature :: "string option"
  sw_status :: "int option"
  sw_data :: "tx_data option"

record poll_answer =
  pq_status :: "int option"
  pq_fee :: "decimal option"
  pq_tx_data :: "tx_data option"
  pq_error :: "string option"

datatype swap_call = Execute_Quote string | Execute_Swap order_side decimal | Poll string

record dex_env =
  dv_swap :: "gateway_error + swap_answer"
  dv_poll :: "nat \<Rightarrow> gateway_error + poll_answer"
  dv_native_usd :: "string \<Rightarrow> decimal option"
  dv_monotonic :: "nat \<Rightarrow> rat"
  dv_start :: rat
  dv_latency :: rat
  dv_tick :: rat
  dv_now_ms :: int

record swap_run =
  sr_res :: order_result
  sr_tracker :: health_tracker
  sr_calls :: "swap_call list"

definition on_res :: "(order_result \<Rightarrow> order_result) \<Rightarrow> swap_run \<Rightarrow> swap_run" where
  "on_res f r = r\<lparr>sr_res := f (sr_res r)\<rparr>"

definition changes_of :: "order_side \<Rightarrow> tx_data \<Rightarrow> decimal \<times> decimal" where
  "changes_of side d =
     (let bc = num0 (td_base_change d); qc = num0 (td_quote_change d) in
      if bc = 0 \<and> qc = 0
      then (case side of BUY \<Rightarrow> (num0 (td_amount_out d), dneg (num0 (td_amount_in d)))
                       | SELL \<Rightarrow> (dneg (num0 (td_amount_in d)), num0 (td_amount_out d)))
      else (bc, qc))"

definition apply_confirmed :: "dex_env \<Rightarrow> dex \<Rightarrow> tx_data \<Rightarrow> order_request \<Rightarrow> swap_run \<Rightarrow> swap_run" where
  "apply_confirmed env c d req r =
     (let (bc, qc) = changes_of (or_side req) d;
          filled = (if bc \<noteq> 0 then dabs bc else or_amount req);
          quote_amt = dabs qc;
          price = (if 0 < filled \<and> 0 < quote_amt then ddiv quote_amt filled else 0);
          fee = num0 (td_fee d);
          gas = (case dv_native_usd env (native_token (ds_chain (dx_spec c))) of
                   None \<Rightarrow> 0 | Some px \<Rightarrow> if fee = 0 then 0 else dmul fee px);
          f = \<lparr>fl_order_id = res_order_id (sr_res r), fl_venue = ds_id (dx_spec c), fl_symbol = or_symbol req, fl_side = or_side req,
               fl_amount = filled, fl_price = price, fl_fee_amount = 0, fl_fee_asset = [], fl_ts_ms = dv_now_ms env,
               fl_trade_id = None, fl_tx_hash = res_tx_hash (sr_res r), fl_gas_used = None, fl_gas_cost_usd = Some gas\<rparr>
      in (on_res (\<lambda>o1. o1\<lparr>res_filled := filled, res_avg_price := Some price, res_gas_cost_usd := gas,
             res_fills := res_fills o1 @ [f], res_status := FILLED\<rparr>) r)
           \<lparr>sr_tracker := record_order True (dv_tick env) (sr_tracker r)\<rparr>)"

definition completed :: "dex_env \<Rightarrow> swap_run \<Rightarrow> swap_run" where
  "completed env r = on_res (\<lambda>o1. o1\<lparr>res_completed_at_ms := Some (dv_now_ms env)\<rparr>) r"

definition swap_failed :: "dex_env \<Rightarrow> string \<Rightarrow> swap_run \<Rightarrow> swap_run" where
  "swap_failed env why r =
     (on_res (\<lambda>o1. o1\<lparr>res_status := FAILED, res_error := Some (Msg [] [AStr why])\<rparr>) r)
       \<lparr>sr_tracker := record_order False (dv_tick env) (sr_tracker r)\<rparr>"

definition polled :: "dex_env \<Rightarrow> dex \<Rightarrow> order_request \<Rightarrow> poll_answer \<Rightarrow> swap_run \<Rightarrow> swap_run option" where
  \<comment> \<open>what an answer to a poll ends the waiting with; the data of the transaction are not looked at\<close>
  "polled env c req p r =
     (case pq_status p of
        Some st \<Rightarrow>
          if st = 1 then Some (completed env (apply_confirmed env c (no_data\<lparr>td_fee := pq_fee p\<rparr>) req r))
          else if st = - 1
          then Some (completed env (swap_failed env (case pq_error p of None \<Rightarrow> ''transaction failed''
                 | Some e \<Rightarrow> if e = [] then ''transaction failed'' else e) r))
          else None
      | None \<Rightarrow> None)"

definition poll_deadline :: "dex_env \<Rightarrow> order_request \<Rightarrow> rat" where
  "poll_deadline env req =
     fround (dv_start env + max 15 (fround (of_int (case or_deadline_ms req of None \<Rightarrow> 30000 | Some d \<Rightarrow> if d = 0 then 30000 else d) / 1000)))"

partial_function (option) await_confirmation :: "dex_env \<Rightarrow> dex \<Rightarrow> order_request \<Rightarrow> string \<Rightarrow> nat \<Rightarrow> swap_run \<Rightarrow> swap_run option" where
  "await_confirmation env c req sig k r =
     (if poll_deadline env req \<le> dv_monotonic env k
      then Some (on_res (\<lambda>o1. o1\<lparr>res_status := OPEN,
             res_error := Some (Msg ''confirmation timeout - transaction still pending'' [])\<rparr>) r)
      else case dv_poll env k of
             Inl e \<Rightarrow> await_confirmation env c req sig (Suc k) (r\<lparr>sr_calls := sr_calls r @ [Poll sig]\<rparr>)
           | Inr p \<Rightarrow>
               (case polled env c req p (r\<lparr>sr_calls := sr_calls r @ [Poll sig]\<rparr>) of
                  Some r' \<Rightarrow> Some r'
                | None \<Rightarrow> await_confirmation env c req sig (Suc k) (r\<lparr>sr_calls := sr_calls r @ [Poll sig]\<rparr>)))"

definition submit_swap :: "dex_env \<Rightarrow> dex \<Rightarrow> order_request \<Rightarrow> conn_error + swap_call" where
  \<comment> \<open>which call is made, unless the quote has become too old\<close>
  "submit_swap env c req =
     (case or_quote_id req of
        Some i \<Rightarrow>
          if i \<noteq> [] \<and> ds_trading_type (dx_spec c) = ''router''
          then (case map_of (dx_quotes c) i of
                  None \<Rightarrow> Inl (Quote_Expired (Msg ''quote is stale or unknown'' [AStr i]))
                | Some gq \<Rightarrow>
                    if QUOTE_MAX_AGE_MS < dv_now_ms env - gq_fetched_at_ms gq
                    then Inl (Quote_Expired (Msg ''quote is stale or unknown'' [AStr i]))
                    else Inr (Execute_Quote i))
          else Inr (Execute_Swap (or_side req) (or_amount req))
      | None \<Rightarrow> Inr (Execute_Swap (or_side req) (or_amount req)))"

definition swap_refused ::
  "dex_env \<Rightarrow> dex \<Rightarrow> order_request \<Rightarrow> gateway_error \<Rightarrow> swap_run \<Rightarrow> ((conn_error + swap_run) \<times> health_tracker) option" where
  "swap_refused env c req e r0 =
     (let r = (completed env (on_res (\<lambda>o1. o1\<lparr>res_error := Some (Msg (text0 (ge_code e)) (error_args e))\<rparr>) r0))
            \<lparr>sr_tracker := record_order False (dv_tick env) (record_error (dv_tick env) (sr_tracker r0))\<rparr>
      in if ge_code e = Some ''TRANSACTION_TIMEOUT''
         then (case extract_signature (ge_text e) of
                 None \<Rightarrow> Some (Inl (Venue_Unavailable (Msg [] (error_args e))), sr_tracker r)
               | Some sig \<Rightarrow> map_option (\<lambda>r1. (Inr r1, sr_tracker r1)) (await_confirmation env c req sig 0
                   (on_res (\<lambda>o1. o1\<lparr>res_status := OPEN, res_tx_hash := Some sig\<rparr>) r)))
         else Some (Inr (on_res (\<lambda>o1. o1\<lparr>res_status :=
                (if ge_code e \<in> {Some ''SIMULATION_FAILED'', Some ''SLIPPAGE_EXCEEDED'', Some ''INSUFFICIENT_BALANCE''}
                 then FAILED else REJECTED)\<rparr>) r), sr_tracker r))"

definition swap_answered :: "dex_env \<Rightarrow> dex \<Rightarrow> order_request \<Rightarrow> swap_answer \<Rightarrow> swap_run \<Rightarrow> swap_run option" where
  "swap_answered env c req a r0 =
     (let sig = text0 (sw_signature a);
          st = (case sw_status a of None \<Rightarrow> 0 | Some n \<Rightarrow> n);
          r = on_res (\<lambda>o1. o1\<lparr>res_tx_hash := Some sig\<rparr>) r0
      in if st = 1 then Some (completed env (apply_confirmed env c (case sw_data a of None \<Rightarrow> no_data | Some d \<Rightarrow> d) req r))
         else if st = - 1 then Some (completed env (swap_failed env ''transaction failed on-chain'' r))
         else await_confirmation env c req sig 0 r)"

definition dex_place_order :: "dex_env \<Rightarrow> dex \<Rightarrow> order_request \<Rightarrow> ((conn_error + swap_run) \<times> health_tracker) option result" where
  \<comment> \<open>None inside when the waiting does not end\<close>
  "dex_place_order env c req =
     (if dx_wallet c = [] then Inr (Some (Inl (Connector_Error (Msg ''no bot wallet configured'' [AStr (ds_id (dx_spec c))])), dx_tracker c))
      else case split_pair (or_symbol req) of
        Inl e \<Rightarrow> Inl e
      | Inr _ \<Rightarrow>
        (let r = \<lparr>sr_res = new_result req (or_client_order_id req) NEW (dv_now_ms env), sr_tracker = dx_tracker c, sr_calls = []\<rparr>;
             late = record_latency (dv_latency env)
         in case submit_swap env c req of
              Inl e \<Rightarrow> Inr (Some (Inl e, late (dx_tracker c)))
            | Inr sent \<Rightarrow>
                let r1 = r\<lparr>sr_calls := [sent]\<rparr> in
                (case dv_swap env of
                   Inl e \<Rightarrow> Inr (map_option (\<lambda>(out, t). (out, late t)) (swap_refused env c req e r1))
                 | Inr a \<Rightarrow> Inr (map_option (\<lambda>r2. (Inr r2, sr_tracker r2))
                     (swap_answered env c req a (r1\<lparr>sr_tracker := late (sr_tracker r1)\<rparr>))))))"

subsection \<open>Balances and health\<close>

definition dex_balances :: "(string, decimal) dict \<Rightarrow> (string, balance) dict" where
  "dex_balances bal = List.map_filter (\<lambda>(k, v). if 0 < v then Some (k, \<lparr>bal_asset = k, bal_free = v, bal_used = 0\<rparr>) else None) bal"

definition dex_fetch_balances ::
  "gateway_error + (string, decimal) dict \<Rightarrow> rat \<Rightarrow> rat \<Rightarrow> int \<Rightarrow> dex \<Rightarrow> (conn_error + (string, balance) dict) \<times> dex" where
  "dex_fetch_balances ans lat tick now c =
     (if dx_wallet c = [] then (Inr [], c)
      else case ans of
        Inl e \<Rightarrow> (Inl (Venue_Unavailable (Msg ''balances failed'' (error_args e))),
                  c\<lparr>dx_tracker := record_latency lat (record_error tick (dx_tracker c))\<rparr>)
      | Inr bal \<Rightarrow> (Inr (dex_balances bal), c\<lparr>dx_tracker := (record_latency lat (dx_tracker c))\<lparr>ht_last_balance_ms := now\<rparr>\<rparr>))"

definition dex_health :: "(rat list \<Rightarrow> rat) \<Rightarrow> gateway_error option \<Rightarrow> rat \<Rightarrow> rat \<Rightarrow> int \<Rightarrow> dex \<Rightarrow> health_report \<times> dex" where
  \<comment> \<open>after a failure the latency of the call is recorded when the report is made already\<close>
  "dex_health fsum ans lat tick now c =
     (case ans of
        None \<Rightarrow>
          let t = (dx_tracker c)\<lparr>ht_last_market_data_ms := max (ht_last_market_data_ms (dx_tracker c)) (now - 5000)\<rparr>;
              t1 = record_latency lat t
          in (classify fsum t1 (ds_id (dx_spec c)) 60000 False now tick, c\<lparr>dx_tracker := t1\<rparr>)
      | Some e \<Rightarrow>
          let t = record_error tick (dx_tracker c);
              rep = classify fsum t (ds_id (dx_spec c)) 15000 False now tick
          in (rep\<lparr>hr_health := UNHEALTHY, hr_reasons := hr_reasons rep @ [Msg ''gateway/RPC error'' (error_args e)]\<rparr>,
              c\<lparr>dx_tracker := record_latency lat t\<rparr>))"

subsection \<open>The waiting for a confirmation\<close>

lemma on_res_simps [simp]:
  "sr_res (on_res f r) = f (sr_res r)" "sr_calls (on_res f r) = sr_calls r" "sr_tracker (on_res f r) = sr_tracker r"
  by (simp_all add: on_res_def)

definition asked :: "nat \<Rightarrow> string \<Rightarrow> swap_run \<Rightarrow> swap_run" where
  "asked n sig r = r\<lparr>sr_calls := sr_calls r @ replicate n (Poll sig)\<rparr>"

lemma asked_simps [simp]:
  "sr_res (asked n sig r) = sr_res r" "sr_calls (asked n sig r) = sr_calls r @ replicate n (Poll sig)" "asked 0 sig r = r"
  by (simp_all add: asked_def)

lemma asked_step: "asked n sig (r\<lparr>sr_calls := sr_calls r @ [Poll sig]\<rparr>) = asked (Suc n) sig r"
  by (simp add: asked_def)

lemma await_ends:
  assumes "\<And>k. dv_monotonic env k + 3 / 2 \<le> dv_monotonic env (Suc k)"
  shows "\<exists>r'. await_confirmation env c req sig k r = Some r'"
proof (induction "nat \<lceil>poll_deadline env req - dv_monotonic env k\<rceil>" arbitrary: k r rule: less_induct)
  case less
  show ?case
  proof (cases "poll_deadline env req \<le> dv_monotonic env k")
    case True
    then show ?thesis by (subst await_confirmation.simps) simp
  next
    case False
    let ?n = "\<lambda>k. nat \<lceil>poll_deadline env req - dv_monotonic env k\<rceil>"
    have "poll_deadline env req - dv_monotonic env (Suc k) \<le> poll_deadline env req - dv_monotonic env k - 1"
      using assms [of k] by simp
    then have "\<lceil>poll_deadline env req - dv_monotonic env (Suc k)\<rceil> \<le> \<lceil>poll_deadline env req - dv_monotonic env k\<rceil> - 1" by linarith
    moreover have "0 < \<lceil>poll_deadline env req - dv_monotonic env k\<rceil>" using False by simp
    ultimately have "?n (Suc k) < ?n k" by linarith
    from less [OF this] have "\<exists>r'. await_confirmation env c req sig (Suc k) r1 = Some r'" for r1 .
    then show ?thesis using False by (subst await_confirmation.simps) (simp split: sum.split option.split)
  qed
qed

definition timed_out :: "swap_run \<Rightarrow> swap_run" where
  "timed_out r = on_res (\<lambda>o1. o1\<lparr>res_status := OPEN, res_error := Some (Msg ''confirmation timeout - transaction still pending'' [])\<rparr>) r"

lemma await_cases:
  assumes "await_confirmation env c req sig k r = Some r'"
  shows "\<exists>n. r' = timed_out (asked n sig r) \<or> (\<exists>j p. dv_poll env j = Inr p \<and> polled env c req p (asked n sig r) = Some r')"
proof (rule await_confirmation.raw_induct [where P = "\<lambda>env c req sig k r r'. \<exists>n. r' = timed_out (asked n sig r) \<or>
    (\<exists>j p. dv_poll env j = Inr p \<and> polled env c req p (asked n sig r) = Some r')", OF _ assms])
  fix f env c req sig k r r'
  let ?G = "\<lambda>r. \<exists>n. r' = timed_out (asked n sig r) \<or> (\<exists>j p. dv_poll env j = Inr p \<and> polled env c req p (asked n sig r) = Some r')"
  assume IH: "\<And>env c req sig k r r'. f env c req sig k r = Some r' \<Longrightarrow> \<exists>n. r' = timed_out (asked n sig r) \<or>
      (\<exists>j p. dv_poll env j = Inr p \<and> polled env c req p (asked n sig r) = Some r')"
    and eq: "(if poll_deadline env req \<le> dv_monotonic env k
      then Some (on_res (\<lambda>o1. o1\<lparr>res_status := OPEN,
             res_error := Some (Msg ''confirmation timeout - transaction still pending'' [])\<rparr>) r)
      else case dv_poll env k of
             Inl e \<Rightarrow> f env c req sig (Suc k) (r\<lparr>sr_calls := sr_calls r @ [Poll sig]\<rparr>)
           | Inr p \<Rightarrow>
               (case polled env c req p (r\<lparr>sr_calls := sr_calls r @ [Poll sig]\<rparr>) of
                  Some r' \<Rightarrow> Some r'
                | None \<Rightarrow> f env c req sig (Suc k) (r\<lparr>sr_calls := sr_calls r @ [Poll sig]\<rparr>))) = Some r'"
  have one: "r\<lparr>sr_calls := sr_calls r @ [Poll sig]\<rparr> = asked 1 sig r" by (simp add: asked_def)
  have again: "?G r" if "f env c req sig (Suc k) (asked 1 sig r) = Some r'"
  proof -
    have "asked n sig (asked 1 sig r) = asked (Suc n) sig r" for n by (simp add: asked_def)
    with IH [OF that] show ?thesis by metis
  qed
  show "?G r"
  proof (cases "poll_deadline env req \<le> dv_monotonic env k")
    case True
    with eq have "r' = timed_out (asked 0 sig r)" by (simp add: timed_out_def)
    then show ?thesis by blast
  next
    case False
    show ?thesis
    proof (cases "dv_poll env k")
      case (Inl e)
      with eq False show ?thesis unfolding one by (intro again) simp
    next
      case (Inr p)
      show ?thesis
      proof (cases "polled env c req p (asked 1 sig r)")
        case None
        with eq False Inr show ?thesis unfolding one by (intro again) simp
      next
        case (Some r1)
        with eq False Inr have "polled env c req p (asked 1 sig r) = Some r'" unfolding one by simp
        with Inr show ?thesis by blast
      qed
    qed
  qed
qed

lemma apply_confirmed_simps [simp]:
  "sr_calls (apply_confirmed env c d req r) = sr_calls r"
  "res_status (sr_res (apply_confirmed env c d req r)) = FILLED"
  "res_request (sr_res (apply_confirmed env c d req r)) = res_request (sr_res r)"
  by (simp_all add: apply_confirmed_def Let_def split_def)

lemma completed_simps [simp]:
  "sr_calls (completed env r) = sr_calls r" "res_status (sr_res (completed env r)) = res_status (sr_res r)"
  "res_filled (sr_res (completed env r)) = res_filled (sr_res r)" "res_avg_price (sr_res (completed env r)) = res_avg_price (sr_res r)"
  "res_fills (sr_res (completed env r)) = res_fills (sr_res r)"
  by (simp_all add: completed_def)

lemma swap_failed_simps [simp]:
  "sr_calls (swap_failed env why r) = sr_calls r" "res_status (sr_res (swap_failed env why r)) = FAILED"
  by (simp_all add: swap_failed_def)

lemma polled_some:
  assumes "polled env c req p r = Some r'"
  shows "sr_calls r' = sr_calls r \<and> (pq_status p = Some 1 \<and> res_status (sr_res r') = FILLED \<or> res_status (sr_res r') = FAILED)"
  using assms by (auto simp: polled_def split: option.splits if_splits)

lemma await_result:
  assumes "await_confirmation env c req sig k r = Some r'"
  shows "(\<exists>n. sr_calls r' = sr_calls r @ replicate n (Poll sig)) \<and> res_status (sr_res r') \<in> {OPEN, FAILED, FILLED} \<and>
    (res_status (sr_res r') = FILLED \<longrightarrow> (\<exists>j p. dv_poll env j = Inr p \<and> pq_status p = Some 1))"
proof -
  from await_cases [OF assms] obtain n where
    "r' = timed_out (asked n sig r) \<or> (\<exists>j p. dv_poll env j = Inr p \<and> polled env c req p (asked n sig r) = Some r')" by blast
  then show ?thesis
  proof
    assume "r' = timed_out (asked n sig r)"
    then show ?thesis by (auto simp: timed_out_def)
  next
    assume "\<exists>j p. dv_poll env j = Inr p \<and> polled env c req p (asked n sig r) = Some r'"
    then obtain j p where "dv_poll env j = Inr p" "polled env c req p (asked n sig r) = Some r'" by blast
    with polled_some [OF this(2)] show ?thesis by auto
  qed
qed

lemma refused_result:
  assumes "swap_refused env c req e r0 = Some (Inr r, t)"
  shows "(\<exists>n sig. sr_calls r = sr_calls r0 @ replicate n (Poll sig)) \<and>
    (res_status (sr_res r) = FILLED \<longrightarrow> (\<exists>j p. dv_poll env j = Inr p \<and> pq_status p = Some 1))"
proof (cases "ge_code e = Some ''TRANSACTION_TIMEOUT''")
  case True
  with assms obtain sig r1 where
    "await_confirmation env c req sig 0 r1 = Some r" "sr_calls r1 = sr_calls r0"
    by (auto simp: swap_refused_def Let_def split: option.splits)
  from await_result [OF this(1)] this(2) show ?thesis by auto
next
  case False
  have "sr_calls r = sr_calls r0 @ replicate 0 x" for x using assms False by (auto simp: swap_refused_def Let_def)
  moreover have "res_status (sr_res r) \<noteq> FILLED" using assms False by (auto simp: swap_refused_def Let_def split: if_splits)
  ultimately show ?thesis by blast
qed

lemma answered_result:
  assumes "swap_answered env c req a r0 = Some r"
  shows "(\<exists>n sig. sr_calls r = sr_calls r0 @ replicate n (Poll sig)) \<and>
    (res_status (sr_res r) = FILLED \<longrightarrow> sw_status a = Some 1 \<or> (\<exists>j p. dv_poll env j = Inr p \<and> pq_status p = Some 1))"
proof (cases "sw_status a = Some 1 \<or> sw_status a = Some (- 1)")
  case True
  then have "sr_calls r = sr_calls r0 @ replicate 0 x" for x using assms by (auto simp: swap_answered_def Let_def)
  moreover have "res_status (sr_res r) = FILLED \<longrightarrow> sw_status a = Some 1" using True assms by (auto simp: swap_answered_def Let_def)
  ultimately show ?thesis by blast
next
  case False
  with assms obtain sig r1 where "await_confirmation env c req sig 0 r1 = Some r" "sr_calls r1 = sr_calls r0"
    by (auto simp: swap_answered_def Let_def split: option.splits if_splits)
  from await_result [OF this(1)] this(2) show ?thesis by auto
qed

lemma dex_order_run:
  assumes "dex_place_order env c req = Inr (Some (Inr r, t))"
  obtains sent r0 where "submit_swap env c req = Inr sent" "sr_calls r0 = [sent]"
    "res_fills (sr_res r0) = []" "res_avg_price (sr_res r0) = None"
    "(\<exists>e t'. dv_swap env = Inl e \<and> swap_refused env c req e r0 = Some (Inr r, t')) \<or>
     (\<exists>a. dv_swap env = Inr a \<and> swap_answered env c req a r0 = Some r)"
proof -
  have w: "dx_wallet c \<noteq> []" using assms by (auto simp: dex_place_order_def)
  obtain b q where s: "split_pair (or_symbol req) = Inr (b, q)"
    using assms w by (auto simp: dex_place_order_def split: sum.splits)
  obtain sent where f: "submit_swap env c req = Inr sent"
    using assms w s by (auto simp: dex_place_order_def Let_def split: sum.splits)
  let ?r = "\<lparr>sr_res = new_result req (or_client_order_id req) NEW (dv_now_ms env), sr_tracker = dx_tracker c, sr_calls = []\<rparr>"
  let ?r1 = "?r\<lparr>sr_calls := [sent]\<rparr>"
  let ?r2 = "?r1\<lparr>sr_tracker := record_latency (dv_latency env) (sr_tracker ?r1)\<rparr>"
  show thesis
  proof (cases "dv_swap env")
    case (Inl e)
    then have "\<exists>t'. swap_refused env c req e ?r1 = Some (Inr r, t')"
      using assms w s f by (auto simp: dex_place_order_def Let_def)
    then show thesis using that [OF f, of ?r1] Inl by (auto simp: new_result_def)
  next
    case (Inr a)
    then have "swap_answered env c req a ?r2 = Some r" using assms w s f by (auto simp: dex_place_order_def Let_def)
    then show thesis using that [OF f, of ?r2] Inr by (auto simp: new_result_def)
  qed
qed

subsection \<open>Properties\<close>

text \<open>C23. A swap order comes to an end: when every poll takes at least the pause of one and a half seconds,
  placing an order returns, with a result or an error, whatever the gateway answers.\<close>

theorem dex_place_order_returns:
  assumes "\<And>k. dv_monotonic env k + 3 / 2 \<le> dv_monotonic env (Suc k)"
  shows "dex_place_order env c req \<noteq> Inr None"
proof -
  have aw: "\<exists>r'. await_confirmation env c req sig 0 r = Some r'" for sig r by (rule await_ends [OF assms])
  have "\<exists>x. swap_refused env c req e r = Some x" for e r
    using aw by (auto simp: swap_refused_def Let_def split: option.split)
  moreover have "\<exists>x. swap_answered env c req a r = Some x" for a r
    using aw by (auto simp: swap_answered_def Let_def)
  ultimately show ?thesis
    unfolding dex_place_order_def Let_def by (auto split: sum.splits)
qed


lemma changes_of_no_data: "changes_of side (no_data\<lparr>td_fee := x\<rparr>) = (0, 0)"
  by (cases side) (simp_all add: changes_of_def no_data_def num0_def Let_def dneg_def)

lemma apply_no_data:
  "res_filled (sr_res (apply_confirmed env c (no_data\<lparr>td_fee := x\<rparr>) req r)) = or_amount req"
  "res_avg_price (sr_res (apply_confirmed env c (no_data\<lparr>td_fee := x\<rparr>) req r)) = Some 0"
  "\<exists>f. res_fills (sr_res (apply_confirmed env c (no_data\<lparr>td_fee := x\<rparr>) req r)) = res_fills (sr_res r) @ [f] \<and>
     fl_price f = 0 \<and> fl_amount f = or_amount req"
  unfolding apply_confirmed_def changes_of_no_data by (simp_all add: Let_def dabs_def)

definition unpriced :: "order_request \<Rightarrow> order_result \<Rightarrow> bool" where
  "unpriced req o1 \<longleftrightarrow> res_filled o1 = or_amount req \<and> res_avg_price o1 = Some 0 \<and>
     (\<exists>f. res_fills o1 = [f] \<and> fl_price f = 0 \<and> fl_amount f = or_amount req)"

lemma await_filled:
  assumes "await_confirmation env c req sig k r = Some r'" "res_status (sr_res r') = FILLED" "res_fills (sr_res r) = []"
  shows "unpriced req (sr_res r')"
proof -
  obtain n j p where p: "polled env c req p (asked n sig r) = Some r'"
    using await_cases [OF assms(1)] assms(2) by (auto simp: timed_out_def)
  then have "r' = completed env (apply_confirmed env c (no_data\<lparr>td_fee := pq_fee p\<rparr>) req (asked n sig r))"
    using assms(2) by (auto simp: polled_def split: option.splits if_splits)
  then show ?thesis
    using apply_no_data [of env c "pq_fee p" req "asked n sig r"] assms(3) by (simp add: unpriced_def)
qed

text \<open>A swap that is confirmed by polling is booked without its execution: unless the submission itself
  was answered as confirmed, a FILLED order has exactly the requested amount at the price zero, in a
  single fill, whatever balance changes the data of the transaction report.\<close>

theorem polled_fill_unpriced:
  assumes "dex_place_order env c req = Inr (Some (Inr r, t))" and "res_status (sr_res r) = FILLED"
    and "\<forall>a. dv_swap env = Inr a \<longrightarrow> sw_status a \<noteq> Some 1"
  shows "unpriced req (sr_res r)"
proof -
  obtain sent r0 where c0: "res_fills (sr_res r0) = []"
    and k: "(\<exists>e t'. dv_swap env = Inl e \<and> swap_refused env c req e r0 = Some (Inr r, t')) \<or>
     (\<exists>a. dv_swap env = Inr a \<and> swap_answered env c req a r0 = Some r)"
    by (rule dex_order_run [OF assms(1)])
  have "\<exists>sig r1. await_confirmation env c req sig 0 r1 = Some r \<and> res_fills (sr_res r1) = []"
    using k
  proof (elim disjE exE conjE)
    fix e t'
    assume "swap_refused env c req e r0 = Some (Inr r, t')"
    then obtain sig r1 where "await_confirmation env c req sig 0 r1 = Some r" "res_fills (sr_res r1) = res_fills (sr_res r0)"
      using assms(2) by (auto simp: swap_refused_def Let_def split: option.splits if_splits)
    then show ?thesis using c0 by auto
  next
    fix a
    assume a: "dv_swap env = Inr a" "swap_answered env c req a r0 = Some r"
    then have "sw_status a \<noteq> Some 1" using assms(3) by blast
    moreover have "sw_status a \<noteq> Some (- 1)" using a(2) assms(2) by (auto simp: swap_answered_def Let_def)
    ultimately obtain sig r1 where "await_confirmation env c req sig 0 r1 = Some r" "res_fills (sr_res r1) = res_fills (sr_res r0)"
      using a(2) by (auto simp: swap_answered_def Let_def split: option.splits if_splits)
    then show ?thesis using c0 by auto
  qed
  then show ?thesis using await_filled assms(2) by blast
qed

text \<open>A quote never hides its impact: it carries the amounts the gateway reports with a price impact that
  is not negative, and it counts as fully fillable only when the price is positive and the amount the
  gateway fills is within a tenth of a percent of the amount asked for.\<close>

theorem swap_quote_sound:
  assumes "dex_get_quote (Inr gq) lat tick now symbol side amount c = (Inr eqt, c')"
  shows "0 \<le> eq_price_impact_pct eqt \<and> gq_price_impact_pct gq \<le> eq_price_impact_pct eqt \<and>
    eq_quote_amount eqt = (case side of BUY \<Rightarrow> gq_amount_in gq | SELL \<Rightarrow> gq_amount_out gq) \<and>
    eq_quote_ts_ms eqt = gq_fetched_at_ms gq \<and> ht_last_market_data_ms (dx_tracker c') = now \<and>
    (eq_fully_fillable eqt \<longrightarrow> 0 < eq_avg_price eqt \<and>
      (let filled = (case side of BUY \<Rightarrow> gq_amount_out gq | SELL \<Rightarrow> gq_amount_in gq) in
       filled \<le> 0 \<or> dabs (dsub filled amount) \<le> dmul amount (1 / 1000)))"
proof -
  have e: "eqt = swap_quote (keep_quote now gq (c\<lparr>dx_tracker := (record_latency lat (dx_tracker c))\<lparr>ht_last_market_data_ms := now\<rparr>\<rparr>)) symbol side amount gq"
    and c': "c' = keep_quote now gq (c\<lparr>dx_tracker := (record_latency lat (dx_tracker c))\<lparr>ht_last_market_data_ms := now\<rparr>\<rparr>)"
    using assms by (auto simp: dex_get_quote_def Let_def)
  have "dx_tracker (keep_quote now gq c1) = dx_tracker c1" for c1
    by (simp add: keep_quote_def split: option.split)
  then have "ht_last_market_data_ms (dx_tracker c') = now" by (simp add: c')
  moreover have "eq_fully_fillable eqt \<longrightarrow> 0 < eq_avg_price eqt \<and>
      (let filled = (case side of BUY \<Rightarrow> gq_amount_out gq | SELL \<Rightarrow> gq_amount_in gq) in
       filled \<le> 0 \<or> dabs (dsub filled amount) \<le> dmul amount (1 / 1000))"
    by (cases side) (simp_all add: e swap_quote_def Let_def)
  ultimately show ?thesis by (cases side) (simp_all add: e swap_quote_def Let_def)
qed

subsection \<open>Witnesses\<close>

definition demo_quote :: gateway_quote where
  "demo_quote = \<lparr>gq_connector = ''jupiter'', gq_network = ''mainnet-beta'', gq_base = ''BTC'', gq_quote = ''USDC'', gq_side = BUY,
     gq_amount = 5, gq_quote_id = Some ''q1'', gq_token_in = ''USDC'', gq_token_out = ''BTC'', gq_amount_in = 35,
     gq_amount_out = 5, gq_price = 7, gq_price_impact_pct = 0, gq_min_amount_out = None, gq_max_amount_in = None,
     gq_gas_estimate = None, gq_approximation = False, gq_fetched_at_ms = 2000\<rparr>"

definition demo_dex :: dex where
  "demo_dex = \<lparr>dx_spec = \<lparr>ds_id = ''jupiter'', ds_connector = ''jupiter'', ds_trading_type = ''router'', ds_chain = SOLANA,
       ds_display = ''Jupiter'', ds_typical_fee_pct = None, ds_gas_limit = 5\<rparr>, dx_network = ''mainnet-beta'',
     dx_wallet = ''w'', dx_pairs = [''BTC/USDC''], dx_connected = True, dx_trading_enabled = True, dx_tokens = [],
     dx_token_ttl_ms = 0, dx_quotes = [(''q1'', demo_quote)], dx_markets = [], dx_tracker = new_tracker\<rparr>"

definition demo_swap_req :: order_request where
  "demo_swap_req = demo_req\<lparr>or_venue := ''jupiter'', or_quote_id := Some ''q1''\<rparr>"

definition demo_dex_env :: dex_env where
  \<comment> \<open>the submission is answered as pending, the second poll confirms a purchase of 4 for 28\<close>
  "demo_dex_env = \<lparr>dv_swap = Inr \<lparr>sw_signature = Some ''s1'', sw_status = Some 0, sw_data = None\<rparr>,
     dv_poll = (\<lambda>k. Inr \<lparr>pq_status = Some (if k = 0 then 0 else 1), pq_fee = None,
        pq_tx_data = Some (no_data\<lparr>td_base_change := Some 4, td_quote_change := Some (- 28)\<rparr>), pq_error = None\<rparr>),
     dv_native_usd = (\<lambda>_. None), dv_monotonic = (\<lambda>k. of_nat k * (3 / 2)), dv_start = 0, dv_latency = 1, dv_tick = 1,
     dv_now_ms = 9000\<rparr>"

lemma demo_pair: "split_pair ''BTC/USDC'' = Inr (''BTC'', ''USDC'')"
  by code_simp

lemma demo_poll_deadline: "poll_deadline demo_dex_env demo_swap_req = 30"
proof -
  have "fround 30 = 30" unfolding fround_def by code_simp
  then show ?thesis by (simp add: poll_deadline_def demo_dex_env_def demo_swap_req_def demo_req_def)
qed

lemma demo_dex_env_simps:
  "dv_monotonic demo_dex_env k = of_nat k * (3 / 2)"
  "dv_swap demo_dex_env = Inr \<lparr>sw_signature = Some ''s1'', sw_status = Some 0, sw_data = None\<rparr>"
  "dv_poll demo_dex_env 0 = Inr \<lparr>pq_status = Some 0, pq_fee = None,
     pq_tx_data = Some (no_data\<lparr>td_base_change := Some 4, td_quote_change := Some (- 28)\<rparr>), pq_error = None\<rparr>"
  "dv_poll demo_dex_env (Suc 0) = Inr \<lparr>pq_status = Some 1, pq_fee = None,
     pq_tx_data = Some (no_data\<lparr>td_base_change := Some 4, td_quote_change := Some (- 28)\<rparr>), pq_error = None\<rparr>"
  "dv_now_ms demo_dex_env = 9000"
  by (simp_all add: demo_dex_env_def)

lemma demo_await:
  "\<exists>r'. await_confirmation demo_dex_env demo_dex demo_swap_req sig 0 r = Some r' \<and> res_status (sr_res r') = FILLED \<and>
     length (sr_calls r') = length (sr_calls r) + 2"
  by (subst await_confirmation.simps, simp add: demo_poll_deadline demo_dex_env_simps polled_def,
      subst await_confirmation.simps, simp add: demo_poll_deadline demo_dex_env_simps polled_def)

lemma demo_swap_filled:
  "\<exists>r t. dex_place_order demo_dex_env demo_dex demo_swap_req = Inr (Some (Inr r, t)) \<and> res_status (sr_res r) = FILLED"
proof -
  have "submit_swap demo_dex_env demo_dex demo_swap_req = Inr (Execute_Quote ''q1'')"
    by (simp add: submit_swap_def demo_swap_req_def demo_dex_def QUOTE_MAX_AGE_MS_def demo_dex_env_simps demo_quote_def)
  moreover have "\<exists>r'. swap_answered demo_dex_env demo_dex demo_swap_req
      \<lparr>sw_signature = Some ''s1'', sw_status = Some 0, sw_data = None\<rparr> r = Some r' \<and> res_status (sr_res r') = FILLED" for r
    using demo_await [of "''s1''"] by (simp add: swap_answered_def text0_def Let_def) blast
  moreover have "split_pair (or_symbol demo_swap_req) = Inr (''BTC'', ''USDC'')" "dx_wallet demo_dex \<noteq> []"
    by (simp_all add: demo_swap_req_def demo_req_def demo_pair demo_dex_def)
  ultimately show ?thesis by (simp add: dex_place_order_def demo_dex_env_simps(2) Let_def)
qed

theorem dex_place_order_returns_witness:
  "dex_place_order demo_dex_env demo_dex demo_swap_req \<noteq> Inr None"
  by (rule dex_place_order_returns) (simp add: demo_dex_env_def algebra_simps)


theorem polled_fill_unpriced_witness:
  "\<exists>r t. dex_place_order demo_dex_env demo_dex demo_swap_req = Inr (Some (Inr r, t)) \<and> res_filled (sr_res r) = 5 \<and>
     res_avg_price (sr_res r) = Some 0"
proof -
  obtain r t where r: "dex_place_order demo_dex_env demo_dex demo_swap_req = Inr (Some (Inr r, t))" "res_status (sr_res r) = FILLED"
    using demo_swap_filled by blast
  have "\<forall>a. dv_swap demo_dex_env = Inr a \<longrightarrow> sw_status a \<noteq> Some 1" by (simp add: demo_dex_env_def)
  from polled_fill_unpriced [OF r this] r show ?thesis by (auto simp: unpriced_def demo_swap_req_def demo_req_def)
qed

theorem swap_quote_sound_witness:
  "\<exists>eqt c'. dex_get_quote (Inr demo_quote) 1 1 2000 ''BTC/USDC'' BUY 5 demo_dex = (Inr eqt, c') \<and>
     eq_quote_amount eqt = 35 \<and> 0 \<le> eq_price_impact_pct eqt"
proof -
  obtain eqt c' where e: "dex_get_quote (Inr demo_quote) 1 1 2000 ''BTC/USDC'' BUY 5 demo_dex = (Inr eqt, c')"
    by (simp add: dex_get_quote_def Let_def)
  from swap_quote_sound [OF e] e show ?thesis by (auto simp: demo_quote_def)
qed

end

