(* ===== verification/Positions.thy ===== *)
theory Positions
  imports Execution Breaker_Spec Market_Hub Strategies
begin

text \<open>
  Model of the carry positions (\<^verbatim>\<open>backend/fedr/engine/positions.py\<close>): a long spot leg against a short
  perpetual, opened through the execution engine, marked, accrued with funding, closed by rules or by
  hand, and compared with what the venues report (\<^verbatim>\<open>app.py\<close>, \<open>_venue_perp_shorts\<close>). Prices, sizes and
  dollars are stored by the code as the text of a decimal, which reads back as the same decimal, so they
  are decimals here. Quotes, the answers to the two closing legs, the clock and fresh identifiers are
  the record \<open>carry_env\<close>; an exception is \<open>Inl\<close>, and what was stored before it stays.
\<close>

subsection \<open>State\<close>

record carry_policy =
  ca_exit_basis_pct :: decimal
  ca_funding_flip_periods :: int
  ca_max_hold_hours :: int
  ca_min_liquidation_distance_pct :: decimal
  ca_max_basis_widening_pct :: decimal
  ca_funding_interval_hours :: decimal
  ca_flatten_on_emergency_stop :: bool
  ca_max_abs_funding_rate :: decimal

definition carry_defaults :: carry_policy where
  "carry_defaults = \<lparr>ca_exit_basis_pct = 5 / 100, ca_funding_flip_periods = 2, ca_max_hold_hours = 72,
     ca_min_liquidation_distance_pct = 25, ca_max_basis_widening_pct = 3 / 2, ca_funding_interval_hours = 8,
     ca_flatten_on_emergency_stop = False, ca_max_abs_funding_rate = 3 / 1000\<rparr>"

datatype position_status = Pos_Open | Pos_Closing | Pos_Closed

record funding_period =
  fp_ts_ms :: int
  fp_rate :: decimal
  fp_payment_usd :: decimal

record position =
  cp_id :: string
  cp_mode :: trading_mode
  cp_strategy :: strategy
  cp_pair :: string
  cp_spot_venue :: string
  cp_perp_venue :: string
  cp_perp_symbol :: string
  cp_size_base :: decimal
  cp_status :: position_status
  cp_entry_spot_price :: decimal
  cp_entry_perp_price :: decimal
  cp_entry_basis_pct :: decimal
  cp_funding_usd :: decimal
  cp_fees_usd :: decimal
  cp_opened_at_ms :: "int option"
  cp_exit_spot_price :: "decimal option"
  cp_exit_perp_price :: "decimal option"
  cp_realized_net_usd :: "decimal option"
  cp_exit_reason :: "message option"
  cp_closed_at_ms :: "int option"
  cp_trade_id :: string
  cp_rate_at_entry :: "decimal option"
  cp_periods :: "funding_period list"
  cp_negative_streak :: int
  cp_last_funding_ms :: "int option"

type_synonym carry_book = "(string, position) dict"

type_synonym carry_state = "engine_ctx \<times> carry_book"

record carry_env =
  pn_now_ms :: int
  pn_id :: string
  pn_trade_id :: string
  pn_quote :: "venue_ref \<Rightarrow> string \<Rightarrow> order_side \<Rightarrow> decimal \<Rightarrow> order_book option \<Rightarrow> message + execution_quote"
  pn_leg :: "paper_ledger option \<Rightarrow> leg \<Rightarrow> paper_ledger option \<times> leg_answer"

definition put_pos :: "position \<Rightarrow> carry_book \<Rightarrow> carry_book" where
  "put_pos p ps = AList.update (cp_id p) p ps"

definition load_positions :: "position list \<Rightarrow> carry_book \<Rightarrow> carry_book" where
  "load_positions stored ps = foldl (\<lambda>ps p. put_pos p ps) ps stored"

subsection \<open>Opening\<close>

definition rate_abnormal :: "carry_policy \<Rightarrow> decimal option \<Rightarrow> bool" where
  "rate_abnormal pol rate = (case rate of None \<Rightarrow> False | Some r \<Rightarrow> ca_max_abs_funding_rate pol < dabs r)"

definition funding_anomaly :: "carry_policy \<Rightarrow> int \<Rightarrow> decimal option \<Rightarrow> string \<Rightarrow> engine_ctx \<Rightarrow> engine_ctx \<times> bool" where
  "funding_anomaly pol now rate place cx =
     (if rate_abnormal pol rate
      then (cx\<lparr>cx_breakers := fst (trip (cx_breakers cx) FUNDING_ANOMALY
              (Msg ''funding rate per interval exceeds the limit''
                [ADec (case rate of None \<Rightarrow> 0 | Some r \<Rightarrow> r), AStr place, ADec (ca_max_abs_funding_rate pol)])
              ''strategy:carry'' True now)\<rparr>, True)
      else (cx, False))"

definition anomaly_trade :: "carry_env \<Rightarrow> engine_ctx \<Rightarrow> opportunity \<Rightarrow> trade_record" where
  "anomaly_trade env cx opp =
     \<lparr>tr_id = pn_trade_id env, tr_mode = cx_mode cx, tr_strategy = op_strategy opp,
      tr_opportunity_id = op_id opp, tr_pair = op_pair opp,
      tr_route = eq_venue (op_buy opp) @ '' -> '' @ eq_venue (op_sell opp), tr_size_base = op_size_base opp,
      tr_status = ABORTED, tr_estimated_gross = pa_gross_profit (op_profit opp),
      tr_estimated_net = pa_expected_net_profit (op_profit opp),
      tr_estimated_worst_case = pa_worst_case_profit (op_profit opp),
      tr_estimated_costs = Some (pa_expected_costs (op_profit opp)),
      tr_buy = None, tr_sell = None, tr_hedge = None, tr_actual_gross = None, tr_actual_fees = None,
      tr_actual_gas = None, tr_actual_net = None, tr_prediction_error = None,
      tr_explanation = Msg ''Aborted: funding rate anomaly'' [], tr_started_at_ms = pn_now_ms env,
      tr_completed_at_ms = None, tr_events = []\<rparr>"

definition entry_basis :: "order_result \<Rightarrow> order_result \<Rightarrow> (decimal \<times> decimal \<times> decimal) result" where
  \<comment> \<open>the average prices of both legs and the basis in percent; a missing price is no number\<close>
  "entry_basis b s =
     (case (res_avg_price b, res_avg_price s) of
        (Some bp, Some sp) \<Rightarrow> bind_result (ddiv_r (dsub sp bp) bp) (\<lambda>x. Inr (bp, sp, dmul x 100))
      | _ \<Rightarrow> Inl TypeError)"

definition new_position ::
  "carry_env \<Rightarrow> engine_ctx \<Rightarrow> opportunity \<Rightarrow> trade_record \<Rightarrow> order_result \<Rightarrow> order_result \<Rightarrow> decimal \<times> decimal \<times> decimal \<Rightarrow> position" where
  "new_position env cx opp tr b s = (\<lambda>(bp, sp, basis).
     \<lparr>cp_id = pn_id env, cp_mode = cx_mode cx, cp_strategy = op_strategy opp, cp_pair = op_pair opp,
      cp_spot_venue = eq_venue (op_buy opp), cp_perp_venue = eq_venue (op_sell opp),
      cp_perp_symbol = eq_symbol (op_sell opp), cp_size_base = res_filled b, cp_status = Pos_Open,
      cp_entry_spot_price = bp, cp_entry_perp_price = sp, cp_entry_basis_pct = basis, cp_funding_usd = 0,
      cp_fees_usd = dadd (res_fee_quote b) (res_fee_quote s), cp_opened_at_ms = Some (pn_now_ms env),
      cp_exit_spot_price = None, cp_exit_perp_price = None, cp_realized_net_usd = None, cp_exit_reason = None,
      cp_closed_at_ms = None, cp_trade_id = tr_id tr, cp_rate_at_entry = op_extra_funding_rate opp,
      cp_periods = [], cp_negative_streak = 0, cp_last_funding_ms = None\<rparr>)"

definition open_from_opportunity ::
  "exec_env \<Rightarrow> carry_env \<Rightarrow> carry_policy \<Rightarrow> opportunity \<Rightarrow> carry_state \<Rightarrow> carry_state \<times> (trade_record \<times> position option) result" where
  "open_from_opportunity xenv env pol opp = (\<lambda>(cx, ps).
     let (cx0, odd) = funding_anomaly pol (pn_now_ms env) (op_extra_funding_rate opp)
           (eq_venue (op_sell opp) @ '' '' @ eq_symbol (op_sell opp)) cx
     in if odd then ((cx0, ps), Inr (anomaly_trade env cx opp, None))
        else (case execute (xenv\<lparr>xe_allow_carry := True\<rparr>) cx0 opp of
                Inl e \<Rightarrow> ((cx0, ps), Inl e)
              | Inr (cx1, tr) \<Rightarrow>
                  (case (tr_status tr = T_FILLED, tr_buy tr, tr_sell tr) of
                     (True, Some b, Some s) \<Rightarrow>
                       (case entry_basis b s of
                          Inl e \<Rightarrow> ((cx1, ps), Inl e)
                        | Inr x \<Rightarrow> let p = new_position env cx opp tr b s x in ((cx1, put_pos p ps), Inr (tr, Some p)))
                   | _ \<Rightarrow> ((cx1, ps), Inr (tr, None)))))"

subsection \<open>Marks and exit rules\<close>

record position_mark =
  mk_spot_price :: decimal
  mk_perp_price :: decimal
  mk_basis_pct :: decimal
  mk_unrealized_usd :: decimal
  mk_funding_usd :: decimal
  mk_liquidation_distance_pct :: decimal
  mk_hours_open :: rat

definition price_or :: "decimal option \<Rightarrow> decimal \<Rightarrow> decimal" where
  \<comment> \<open>the price of a book, or the entry price when the book, its side or a price other than zero is missing\<close>
  "price_or p entry = (case p of None \<Rightarrow> entry | Some x \<Rightarrow> if x = 0 then entry else x)"

definition mark :: "int \<Rightarrow> market_hub \<Rightarrow> position \<Rightarrow> position_mark" where
  "mark now h p =
     (let amt = cp_size_base p;
          spot = price_or (Option.bind (get_book h (cp_spot_venue p) (cp_pair p)) best_bid) (cp_entry_spot_price p);
          perp = price_or (Option.bind (get_book h (cp_perp_venue p) (cp_perp_symbol p)) best_ask) (cp_entry_perp_price p);
          spot_pnl = dmul (dsub spot (cp_entry_spot_price p)) amt;
          perp_pnl = dmul (dsub (cp_entry_perp_price p) perp) amt
      in \<lparr>mk_spot_price = spot, mk_perp_price = perp,
          mk_basis_pct = (if 0 < spot then dmul (ddiv (dsub perp spot) spot) 100 else 0),
          mk_unrealized_usd = dsub (dadd (dadd spot_pnl perp_pnl) (cp_funding_usd p)) (cp_fees_usd p),
          mk_funding_usd = cp_funding_usd p,
          mk_liquidation_distance_pct =
            (if 0 < perp then dmul (ddiv (dsub (dmul (dmul 2 (cp_entry_perp_price p)) (95 / 100)) perp) perp) 100 else 0),
          mk_hours_open = (case cp_opened_at_ms p of None \<Rightarrow> 0 | Some t \<Rightarrow> fround (of_int (now - t) / 3600000))\<rparr>)"

definition exit_reason :: "carry_policy \<Rightarrow> position \<Rightarrow> position_mark \<Rightarrow> message option" where
  "exit_reason pol p m =
     (if mk_basis_pct m \<le> ca_exit_basis_pct pol
      then Some (Msg ''basis converged'' [ADec (mk_basis_pct m), ADec (ca_exit_basis_pct pol)])
      else if ca_funding_flip_periods pol \<le> cp_negative_streak p
      then Some (Msg ''funding negative for periods'' [AInt (cp_negative_streak p)])
      else if of_int (ca_max_hold_hours pol) \<le> mk_hours_open m
      then Some (Msg ''max hold time reached'' [AInt (ca_max_hold_hours pol)])
      else if mk_liquidation_distance_pct m < ca_min_liquidation_distance_pct pol
      then Some (Msg ''liquidation distance below minimum''
             [ADec (mk_liquidation_distance_pct m), ADec (ca_min_liquidation_distance_pct pol)])
      else if ca_max_basis_widening_pct pol < dsub (mk_basis_pct m) (cp_entry_basis_pct p)
      then Some (Msg ''basis widened (stop)'' [ADec (dsub (mk_basis_pct m) (cp_entry_basis_pct p))])
      else None)"

subsection \<open>Funding\<close>

definition last_kept :: "nat \<Rightarrow> 'a list \<Rightarrow> 'a list" where
  \<comment> \<open>\<open>xs[-n:]\<close> for a positive n\<close>
  "last_kept n xs = drop (length xs - n) xs"

definition settle_funding :: "int \<Rightarrow> decimal \<Rightarrow> decimal \<Rightarrow> position \<Rightarrow> position" where
  \<comment> \<open>of the clock, the price of the perpetual and the settled rate\<close>
  "settle_funding now px rate p =
     (let payment = dmul (dmul rate px) (cp_size_base p) in
      p\<lparr>cp_funding_usd := dadd (cp_funding_usd p) payment,
        cp_periods := last_kept 200 (cp_periods p @ [\<lparr>fp_ts_ms = now, fp_rate = rate, fp_payment_usd = payment\<rparr>]),
        cp_negative_streak := (if rate < 0 then cp_negative_streak p + 1 else 0)\<rparr>)"

definition accrue_funding :: "carry_policy \<Rightarrow> int \<Rightarrow> market_hub \<Rightarrow> decimal option \<Rightarrow> position \<Rightarrow> carry_state \<Rightarrow> carry_state" where
  "accrue_funding pol now h rate p = (\<lambda>(cx, ps).
     case rate of
       None \<Rightarrow> (cx, ps)
     | Some r \<Rightarrow>
         (fst (funding_anomaly pol now (Some r) (cp_perp_venue p @ '' '' @ cp_perp_symbol p) cx),
          put_pos (settle_funding now (mk_perp_price (mark now h p)) r p) ps))"

definition funding_due :: "carry_policy \<Rightarrow> int \<Rightarrow> position \<Rightarrow> bool" where
  "funding_due pol now p \<longleftrightarrow>
     (let opened = (case cp_opened_at_ms p of None \<Rightarrow> 0 | Some t \<Rightarrow> t);
          since = (case cp_last_funding_ms p of None \<Rightarrow> opened | Some t \<Rightarrow> if t = 0 then opened else t)
      in \<not> now - since < trunc_int (dmul (ca_funding_interval_hours pol) 3600000))"

definition accrue_one ::
  "carry_policy \<Rightarrow> int \<Rightarrow> market_hub \<Rightarrow> (string \<Rightarrow> string \<Rightarrow> message + decimal option) \<Rightarrow> position \<Rightarrow> carry_state \<times> nat \<Rightarrow> carry_state \<times> nat" where
  "accrue_one pol now h rates p = (\<lambda>(st, n).
     if cp_status p \<noteq> Pos_Open \<or> \<not> funding_due pol now p then (st, n)
     else (case rates (cp_perp_venue p) (cp_perp_symbol p) of
             Inl _ \<Rightarrow> (st, n)
           | Inr rate \<Rightarrow>
               let p1 = p\<lparr>cp_last_funding_ms := Some now\<rparr> in
               (accrue_funding pol now h rate p1 (fst st, put_pos p1 (snd st)), n + 1)))"

definition accrue_due_funding ::
  "carry_policy \<Rightarrow> int \<Rightarrow> market_hub \<Rightarrow> (string \<Rightarrow> string \<Rightarrow> message + decimal option) \<Rightarrow> carry_state \<Rightarrow> carry_state \<times> nat" where
  "accrue_due_funding pol now h rates st = fold (accrue_one pol now h rates) (vals (snd st)) (st, 0)"

definition funding_rate_answer ::
  "bool \<Rightarrow> (message + (decimal option) option) \<Rightarrow> message + decimal option" where
  \<comment> \<open>\<open>_funding_rate\<close> of the application: whether the venue is there and can say, and what it answers\<close>
  "funding_rate_answer known ans =
     (if \<not> known then Inr None
      else case ans of Inl e \<Rightarrow> Inl e | Inr None \<Rightarrow> Inr None | Inr (Some r) \<Rightarrow> Inr r)"

subsection \<open>Closing\<close>

definition close_key :: "position \<Rightarrow> string" where
  "close_key p = ''close:'' @ cp_id p"

definition reserve_close :: "string \<Rightarrow> string \<Rightarrow> string \<Rightarrow> decimal \<Rightarrow> engine_ctx \<Rightarrow> engine_ctx \<times> bool" where
  \<comment> \<open>the inventory may refuse, the paper ledger of a simulated execution may not\<close>
  "reserve_close key lv base amt cx =
     (let cx1 = cx\<lparr>cx_inventory := fst (inv_reserve (cx_inventory cx) key [(lv, base, amt)])\<rparr> in
      case cx_ledger cx of
        None \<Rightarrow> (cx1, True)
      | Some l \<Rightarrow>
          if \<not> is_simulated_execution cx then (cx1, True)
          else (case ledger_reserve l lv base amt of
                  (l1, Inl _) \<Rightarrow> (cx1\<lparr>cx_inventory := inv_release (cx_inventory cx1) key, cx_ledger := Some l1\<rparr>, False)
                | (l1, Inr _) \<Rightarrow> (cx1\<lparr>cx_ledger := Some l1\<rparr>, True)))"

definition release_close :: "string \<Rightarrow> string \<Rightarrow> string \<Rightarrow> decimal \<Rightarrow> decimal \<Rightarrow> engine_ctx \<Rightarrow> engine_ctx" where
  "release_close key lv base amt sold cx =
     (let cx1 = cx\<lparr>cx_inventory := inv_release (cx_inventory cx) key\<rparr> in
      if is_simulated_execution cx
      then cx1\<lparr>cx_ledger := map_option (\<lambda>l. ledger_release l lv base (max 0 (dsub amt sold))) (cx_ledger cx1)\<rparr>
      else cx1)"

definition close_tolerance :: "engine_ctx \<Rightarrow> decimal" where
  "close_tolerance cx = dmul (ddiv (ts_leg_price_tolerance_pct (s_trading (cx_settings cx))) 100) 3"

definition close_request :: "engine_ctx \<Rightarrow> venue_ref \<Rightarrow> string \<Rightarrow> order_side \<Rightarrow> decimal \<Rightarrow> execution_quote \<Rightarrow> order_request" where
  "close_request cx v symbol side amt q =
     \<lparr>or_venue = vr_name v, or_symbol = symbol, or_side = side, or_amount = amt,
      or_limit_price = Some (dmul (eq_avg_price q)
        (if side = SELL then dsub 1 (close_tolerance cx) else dadd 1 (close_tolerance cx))),
      or_time_in_force = ''IOC'', or_client_order_id = (if side = SELL then ''sell'' else ''buy''),
      or_min_received = None, or_max_gas_usd = None, or_quote_id = None, or_deadline_ms = None,
      or_reduce_only = (side = BUY), or_extra_quoted_price = Some (eq_avg_price q)\<rparr>"

definition close_trade :: "carry_env \<Rightarrow> engine_ctx \<Rightarrow> position \<Rightarrow> venue_ref \<Rightarrow> venue_ref \<Rightarrow> message \<Rightarrow> trade_record" where
  "close_trade env cx p spot perp reason =
     tr_log (pn_now_ms env) ''close_start'' [AMsg reason]
       \<lparr>tr_id = pn_trade_id env, tr_mode = cx_mode cx, tr_strategy = cp_strategy p, tr_opportunity_id = cp_id p,
        tr_pair = cp_pair p, tr_route = vr_name spot @ '' -> '' @ vr_name perp @ '' (close)'', tr_size_base = cp_size_base p,
        tr_status = EXECUTING, tr_estimated_gross = 0, tr_estimated_net = 0, tr_estimated_worst_case = 0,
        tr_estimated_costs = None, tr_buy = None, tr_sell = None, tr_hedge = None, tr_actual_gross = None,
        tr_actual_fees = None, tr_actual_gas = None, tr_actual_net = None, tr_prediction_error = None,
        tr_explanation = Msg [] [], tr_started_at_ms = pn_now_ms env, tr_completed_at_ms = None, tr_events = []\<rparr>"

definition leg_closed :: "decimal \<Rightarrow> order_result \<Rightarrow> bool" where
  "leg_closed amt r \<longleftrightarrow> res_status r = FILLED \<and> dmul amt (999 / 1000) \<le> res_filled r"

definition settle_closed ::
  "carry_env \<Rightarrow> message \<Rightarrow> position \<Rightarrow> order_result \<Rightarrow> order_result \<Rightarrow> trade_record \<Rightarrow> (position \<times> trade_record) result" where
  \<comment> \<open>both legs are closed; the sale of the spot leg first\<close>
  "settle_closed env reason p s b tr =
     (case (res_avg_price s, res_avg_price b) of
        (Some exit_spot, Some exit_perp) \<Rightarrow>
          let amt = cp_size_base p;
              spot_pnl = dmul (dsub exit_spot (cp_entry_spot_price p)) amt;
              perp_pnl = dmul (dsub (cp_entry_perp_price p) exit_perp) amt;
              fees = dadd (dadd (cp_fees_usd p) (res_fee_quote s)) (res_fee_quote b);
              gross = dadd (dadd spot_pnl perp_pnl) (cp_funding_usd p);
              net = dsub gross fees
          in Inr (p\<lparr>cp_status := Pos_Closed, cp_exit_reason := Some reason, cp_exit_spot_price := Some exit_spot,
                    cp_exit_perp_price := Some exit_perp, cp_realized_net_usd := Some net, cp_fees_usd := fees,
                    cp_closed_at_ms := Some (pn_now_ms env)\<rparr>,
                  tr\<lparr>tr_status := T_FILLED, tr_actual_gross := Some gross, tr_actual_fees := Some fees,
                     tr_actual_gas := Some 0, tr_actual_net := Some net,
                     tr_explanation := Msg ''Carry position closed'' [AMsg reason, ADec spot_pnl, ADec perp_pnl,
                       ADec (cp_funding_usd p), ADec fees, ADec net]\<rparr>)
      | _ \<Rightarrow> Inl TypeError)"

fun status_text :: "order_status \<Rightarrow> string" where
  "status_text NEW = ''new''"
| "status_text OPEN = ''open''"
| "status_text PARTIALLY_FILLED = ''partially_filled''"
| "status_text FILLED = ''filled''"
| "status_text CANCELLED = ''cancelled''"
| "status_text REJECTED = ''rejected''"
| "status_text EXPIRED = ''expired''"
| "status_text FAILED = ''failed''"

definition close_incomplete ::
  "carry_env \<Rightarrow> position \<Rightarrow> order_result \<Rightarrow> order_result \<Rightarrow> bool \<Rightarrow> bool \<Rightarrow> trade_record \<Rightarrow> carry_state \<Rightarrow> carry_state \<times> trade_record" where
  "close_incomplete env p s b spot_ok perp_ok tr = (\<lambda>(cx, ps).
     let why = Msg ''Close attempt incomplete'' [AStr (status_text (res_status s)), AStr (status_text (res_status b))];
         p1 = p\<lparr>cp_status := (if spot_ok \<or> perp_ok then Pos_Closing else Pos_Open)\<rparr>;
         tr1 = tr\<lparr>tr_status := (if spot_ok \<noteq> perp_ok then RECOVERING else T_FAILED), tr_explanation := why\<rparr>
     in ((cx\<lparr>cx_breakers := fst (trip (cx_breakers cx) POSITION_DISCREPANCY
              (Msg ''carry close incomplete'' [AStr (cp_pair p), AMsg why]) ''strategy:carry'' True (pn_now_ms env))\<rparr>,
          put_pos p1 ps), tr1))"

definition close_legs ::
  "carry_env \<Rightarrow> leg \<Rightarrow> leg \<Rightarrow> engine_ctx \<Rightarrow> engine_ctx \<times> (message + order_result \<times> order_result)" where
  \<comment> \<open>the spot leg is sold first, then the perpetual is bought back\<close>
  "close_legs env spot_leg perp_leg cx =
     (case pn_leg env (cx_ledger cx) spot_leg of
        (l1, Inl e) \<Rightarrow> (cx\<lparr>cx_ledger := l1\<rparr>, Inl e)
      | (l1, Inr s) \<Rightarrow>
          (case pn_leg env l1 perp_leg of
             (l2, Inl e) \<Rightarrow> (cx\<lparr>cx_ledger := l2\<rparr>, Inl e)
           | (l2, Inr b) \<Rightarrow> (cx\<lparr>cx_ledger := l2\<rparr>, Inr (s, b))))"

definition finish_close ::
  "carry_env \<Rightarrow> message \<Rightarrow> position \<Rightarrow> order_result \<Rightarrow> order_result \<Rightarrow> trade_record \<Rightarrow> carry_state \<Rightarrow>
   carry_state \<times> (message + trade_record option)" where
  \<comment> \<open>what follows the release of the reservation\<close>
  "finish_close env reason p s b tr = (\<lambda>(cx, ps).
     let amt = cp_size_base p; spot_ok = leg_closed amt s; perp_ok = leg_closed amt b;
         stamp = (\<lambda>tr1. tr1\<lparr>tr_completed_at_ms := Some (pn_now_ms env)\<rparr>)
     in if spot_ok \<and> perp_ok
        then (case settle_closed env reason p s b tr of
                Inl e \<Rightarrow> ((cx, ps), Inl (py_msg e))
              | Inr (p1, tr1) \<Rightarrow> ((cx, AList.delete (cp_id p1) ps), Inr (Some (stamp tr1))))
        else (case close_incomplete env p s b spot_ok perp_ok tr (cx, ps) of
                (st, tr1) \<Rightarrow> (st, Inr (Some (stamp tr1)))))"

definition submit_close ::
  "carry_env \<Rightarrow> message \<Rightarrow> position \<Rightarrow> venue_ref \<Rightarrow> venue_ref \<Rightarrow> string \<Rightarrow> execution_quote \<Rightarrow> execution_quote \<Rightarrow>
   carry_state \<Rightarrow> carry_state \<times> (message + trade_record option)" where
  \<comment> \<open>both legs, once their quotes are there\<close>
  "submit_close env reason p spot perp base sq bq = (\<lambda>(cx, ps).
     let amt = cp_size_base p; lv = ledger_venue_for spot; tr = close_trade env cx p spot perp reason in
     case close_legs env (spot, close_request cx spot (cp_pair p) SELL amt sq, sq)
            (perp, close_request cx perp (cp_perp_symbol p) BUY amt bq, bq) cx of
       (cx1, Inl e) \<Rightarrow> ((cx1, ps), Inl e)
     | (cx1, Inr (s, b)) \<Rightarrow>
         finish_close env reason p s b (tr\<lparr>tr_sell := Some s, tr_buy := Some b\<rparr>)
           (release_close (close_key p) lv base amt (res_filled s) cx1, ps))"

definition close_position ::
  "carry_env \<Rightarrow> market_hub \<Rightarrow> message \<Rightarrow> position \<Rightarrow> carry_state \<Rightarrow> carry_state \<times> (message + trade_record option)" where
  \<comment> \<open>\<open>Inr None\<close> when nothing could be submitted\<close>
  "close_position env h reason p = (\<lambda>(cx, ps).
     let p1 = p\<lparr>cp_status := Pos_Closing\<rparr>; reopened = put_pos (p\<lparr>cp_status := Pos_Open\<rparr>) ps; ps1 = put_pos p1 ps in
     case (map_of (cx_connectors cx) (cp_spot_venue p), map_of (cx_connectors cx) (cp_perp_venue p)) of
       (Some spot, Some perp) \<Rightarrow>
         (case split_pair (cp_pair p) of
            Inl e \<Rightarrow> ((cx, ps1), Inl (py_msg e))
          | Inr (base, _) \<Rightarrow>
              let amt = cp_size_base p; lv = ledger_venue_for spot; key = close_key p in
              (case reserve_close key lv base amt cx of
                 (cx1, False) \<Rightarrow> ((cx1, reopened), Inr None)
               | (cx1, True) \<Rightarrow>
                   (case pn_quote env spot (cp_pair p) SELL amt (get_book h (vr_name spot) (cp_pair p)) of
                      Inl _ \<Rightarrow> ((release_close key lv base amt 0 cx1, reopened), Inr None)
                    | Inr sq \<Rightarrow>
                        (case pn_quote env perp (cp_perp_symbol p) BUY amt (get_book h (vr_name perp) (cp_perp_symbol p)) of
                           Inl _ \<Rightarrow> ((release_close key lv base amt 0 cx1, reopened), Inr None)
                         | Inr bq \<Rightarrow> submit_close env reason p1 spot perp base sq bq (cx1, ps1)))))
     | _ \<Rightarrow> ((cx, reopened), Inr None))"

subsection \<open>Monitoring\<close>

record monitor_row =
  mr_id :: string
  mr_mark :: position_mark
  mr_exit_reason :: "message option"
  mr_suspended :: "message option"

definition monitor_row_of :: "carry_policy \<Rightarrow> int \<Rightarrow> market_hub \<Rightarrow> engine_ctx \<Rightarrow> position \<Rightarrow> monitor_row" where
  "monitor_row_of pol now h cx p =
     (let m = mark now h p;
          (reason, suspended) =
            (if cx_emergency_stop cx
             then (if ca_flatten_on_emergency_stop pol then (Some (Msg ''emergency stop (flatten)'' []), None)
                   else (None, Some (Msg ''emergency stop: automatic exits suspended'' [])))
             else if is_tripped (cx_breakers cx) ''global''
             then (None, Some (Msg ''circuit breaker active: automatic exits suspended'' []))
             else (exit_reason pol p m, None))
      in \<lparr>mr_id = cp_id p, mr_mark = m, mr_exit_reason = reason, mr_suspended = suspended\<rparr>)"

fun monitor_loop ::
  "(position \<Rightarrow> carry_env) \<Rightarrow> carry_policy \<Rightarrow> int \<Rightarrow> market_hub \<Rightarrow> position list \<Rightarrow> carry_state \<Rightarrow> carry_state \<times> (message + monitor_row list)" where
  \<comment> \<open>the environment of a close is one of its own; an exception ends the pass\<close>
  "monitor_loop env pol now h [] st = (st, Inr [])"
| "monitor_loop env pol now h (p # ps) st =
     (if cp_status p \<noteq> Pos_Open then monitor_loop env pol now h ps st
      else let row = monitor_row_of pol now h (fst st) p in
        case mr_exit_reason row of
          None \<Rightarrow> (case monitor_loop env pol now h ps st of (st1, r) \<Rightarrow> (st1, map_sum id ((#) row) r))
        | Some why \<Rightarrow>
            (case close_position (env p) h why p st of
               (st1, Inl e) \<Rightarrow> (st1, Inl e)
             | (st1, Inr _) \<Rightarrow> (case monitor_loop env pol now h ps st1 of (st2, r) \<Rightarrow> (st2, map_sum id ((#) row) r))))"

definition monitor ::
  "(position \<Rightarrow> carry_env) \<Rightarrow> carry_policy \<Rightarrow> int \<Rightarrow> market_hub \<Rightarrow> carry_state \<Rightarrow> carry_state \<times> (message + monitor_row list)" where
  "monitor env pol now h st = monitor_loop env pol now h (vals (snd st)) st"

fun close_loop ::
  "(position \<Rightarrow> carry_env) \<Rightarrow> market_hub \<Rightarrow> message \<Rightarrow> position list \<Rightarrow> carry_state \<Rightarrow> carry_state \<times> (message + trade_record list)" where
  "close_loop env h reason [] st = (st, Inr [])"
| "close_loop env h reason (p # ps) st =
     (if cp_status p \<noteq> Pos_Open then close_loop env h reason ps st
      else case close_position (env p) h reason p st of
        (st1, Inl e) \<Rightarrow> (st1, Inl e)
      | (st1, Inr out) \<Rightarrow>
          (case close_loop env h reason ps st1 of
             (st2, r) \<Rightarrow> (st2, map_sum id (\<lambda>trs. (case out of None \<Rightarrow> trs | Some tr \<Rightarrow> tr # trs)) r)))"

definition close_all ::
  "(position \<Rightarrow> carry_env) \<Rightarrow> market_hub \<Rightarrow> message \<Rightarrow> carry_state \<Rightarrow> carry_state \<times> (message + trade_record list)" where
  "close_all env h reason st = close_loop env h reason (vals (snd st)) st"

definition close_by_hand ::
  "carry_env \<Rightarrow> market_hub \<Rightarrow> message \<Rightarrow> string \<Rightarrow> carry_state \<Rightarrow> carry_state \<times> (int + trade_record)" where
  \<comment> \<open>\<open>close_position\<close> of the HTTP interface; on the left the status code of a refusal\<close>
  "close_by_hand env h reason i st =
     (case map_of (snd st) i of
        None \<Rightarrow> (st, Inl 404)
      | Some p \<Rightarrow>
          if cp_status p \<noteq> Pos_Open then (st, Inl 409)
          else (case close_position env h reason p st of
                  (st1, Inl e) \<Rightarrow> (st1, Inl 500)
                | (st1, Inr None) \<Rightarrow> (st1, Inl 503)
                | (st1, Inr (Some tr)) \<Rightarrow> (st1, Inr tr)))"

subsection \<open>Comparison with the venues\<close>

definition expected_shorts :: "carry_book \<Rightarrow> (string, decimal) dict" where
  "expected_shorts ps = foldl (\<lambda>d p. AList.update (cp_perp_symbol p) (dadd (dget d (cp_perp_symbol p) 0) (cp_size_base p)) d) []
     (vals ps)"

definition position_problems :: "(string, decimal) dict \<Rightarrow> (string, decimal) dict \<Rightarrow> message list" where
  "position_problems expected actual =
     List.map_filter (\<lambda>(sym, ex). let act = dget actual sym 0 in
        if dmul ex (1 / 100) < dabs (dsub act ex)
        then Some (Msg ''expected short differs from what the venue reports'' [AStr sym, ADec ex, ADec act]) else None) expected
     @ List.map_filter (\<lambda>(sym, act).
        if sym \<notin> set (keys expected) \<and> act \<noteq> 0 then Some (Msg ''untracked position'' [AStr sym, ADec act]) else None) actual"

definition reconcile_positions :: "int \<Rightarrow> (string, decimal) dict \<Rightarrow> carry_state \<Rightarrow> carry_state \<times> message list" where
  "reconcile_positions now actual = (\<lambda>(cx, ps).
     let problems = position_problems (expected_shorts ps) actual in
     ((if problems = [] then cx else trip_global POSITION_DISCREPANCY (Msg ''positions differ'' (map AMsg problems)) now cx, ps),
      problems))"

record venue_position =
  vp_symbol :: "string option"
  vp_contracts :: "decimal option"
  vp_contract_size :: "decimal option"
  vp_short :: bool

definition position_contracts :: "venue_position \<Rightarrow> decimal" where
  \<comment> \<open>\<open>pos.get("contracts") or pos.get("contractSize") or 0\<close>\<close>
  "position_contracts v =
     (case vp_contracts v of
        Some x \<Rightarrow> if x \<noteq> 0 then x else (case vp_contract_size v of Some y \<Rightarrow> y | None \<Rightarrow> 0)
      | None \<Rightarrow> (case vp_contract_size v of Some y \<Rightarrow> y | None \<Rightarrow> 0))"

definition add_short :: "(string, decimal) dict \<Rightarrow> venue_position \<Rightarrow> (string, decimal) dict" where
  "add_short d v =
     (let sym = (case vp_symbol v of None \<Rightarrow> [] | Some s \<Rightarrow> s); amt = position_contracts v in
      if vp_short v \<and> amt \<noteq> 0 then AList.update sym (dadd (dget d sym 0) (dabs amt)) d else d)"

definition venue_perp_shorts :: "(string \<Rightarrow> message + venue_position list) \<Rightarrow> engine_ctx \<Rightarrow> (string, decimal) dict" where
  "venue_perp_shorts ask cx =
     foldl (\<lambda>d c. if vr_kind c \<noteq> PERP \<or> \<not> vr_connected c then d
                  else (case ask (vr_name c) of Inl _ \<Rightarrow> d | Inr vs \<Rightarrow> foldl add_short d vs)) [] (vals (cx_connectors cx))"

subsection \<open>The book of positions\<close>

definition book_wf :: "carry_book \<Rightarrow> bool" where
  \<comment> \<open>every position stands under its own identifier\<close>
  "book_wf ps \<longleftrightarrow> wf_dict ps \<and> (\<forall>(k, p) \<in> set ps. k = cp_id p)"

lemma book_wf_Nil [simp]: "book_wf []"
  by (simp add: book_wf_def)

lemma set_update_sub: "set (AList.update k v d) \<subseteq> insert (k, v) (set d)"
  by (induction d) auto

lemma set_delete_sub: "set (AList.delete k d) \<subseteq> set d"
  by (induction d) auto

lemma book_wf_put [simp]: "book_wf ps \<Longrightarrow> book_wf (put_pos p ps)"
  using set_update_sub [of "cp_id p" p ps] unfolding book_wf_def put_pos_def by fastforce

lemma book_wf_delete [simp]: "book_wf ps \<Longrightarrow> book_wf (AList.delete k ps)"
  using set_delete_sub [of k ps] unfolding book_wf_def by fastforce

lemma book_wf_mem: "book_wf ps \<Longrightarrow> p \<in> set (vals ps) \<Longrightarrow> map_of ps (cp_id p) = Some p"
  by (fastforce simp: book_wf_def wf_dict_def vals_def)

lemma put_pos_lookup [simp]: "map_of (put_pos p ps) i = (if i = cp_id p then Some p else map_of ps i)"
  by (simp add: put_pos_def update_conv')

definition only :: "string \<Rightarrow> carry_book \<Rightarrow> carry_book \<Rightarrow> bool" where
  \<comment> \<open>at most the position under that identifier changed, and the book stays well formed\<close>
  "only i ps ps' \<longleftrightarrow> (book_wf ps \<longrightarrow> book_wf ps') \<and> (\<forall>j. j \<noteq> i \<longrightarrow> map_of ps' j = map_of ps j)"

lemma only_refl [simp]: "only i ps ps"
  by (simp add: only_def)

lemma only_trans: "only i ps ps1 \<Longrightarrow> only i ps1 ps2 \<Longrightarrow> only i ps ps2"
  by (auto simp: only_def)

lemma only_put [simp]: "only i ps ps1 \<Longrightarrow> cp_id p = i \<Longrightarrow> only i ps (put_pos p ps1)"
  by (auto simp: only_def)

lemma only_delete [simp]: "only i ps ps1 \<Longrightarrow> only i ps (AList.delete i ps1)"
  by (auto simp: only_def)

lemma settle_closed_id: "settle_closed env why p s b tr = Inr (p1, tr1) \<Longrightarrow> cp_id p1 = cp_id p"
  by (auto simp: settle_closed_def Let_def split: option.splits)

lemma finish_close_only: "finish_close env why p s b tr (cx, ps) = ((cx', ps'), r) \<Longrightarrow> only (cp_id p) ps ps'"
  by (auto simp: finish_close_def close_incomplete_def Let_def dest: settle_closed_id split: if_splits sum.splits)

lemma submit_close_only:
  "submit_close env why p spot perp base sq bq (cx, ps) = ((cx', ps'), r) \<Longrightarrow> only (cp_id p) ps ps'"
  by (auto simp: submit_close_def Let_def split: prod.splits sum.splits dest: finish_close_only)

lemma close_position_only:
  assumes "close_position env h why p (cx, ps) = ((cx', ps'), r)"
  shows "only (cp_id p) ps ps'"
proof -
  let ?ps1 = "put_pos (p\<lparr>cp_status := Pos_Closing\<rparr>) ps"
  have "only (cp_id p) ps ?ps1" by simp
  then have "only (cp_id p) ps ps'" if "submit_close env why (p\<lparr>cp_status := Pos_Closing\<rparr>) spot perp base sq bq (cx1, ?ps1) = ((cx', ps'), r)"
    for spot perp base sq bq cx1
    using only_trans [of "cp_id p" ps ?ps1 ps'] submit_close_only [OF that] by simp
  with assms show ?thesis
    by (auto simp: close_position_def Let_def split: prod.splits sum.splits option.splits bool.splits)
qed

lemma monitor_loop_frame:
  assumes "monitor_loop env pol now h qs (cx, ps) = ((cx', ps'), r)" and "\<forall>q \<in> set qs. cp_status q = Pos_Open \<longrightarrow> cp_id q \<noteq> i"
  shows "map_of ps' i = map_of ps i \<and> (book_wf ps \<longrightarrow> book_wf ps')"
  using assms
proof (induction qs arbitrary: cx ps r)
  case (Cons q qs)
  have IH: "monitor_loop env pol now h qs (cx, ps) = ((cx', ps'), r) \<Longrightarrow> map_of ps' i = map_of ps i \<and> (book_wf ps \<longrightarrow> book_wf ps')" for cx ps r
    using Cons.IH Cons.prems(2) by auto
  show ?case
  proof (cases "cp_status q \<noteq> Pos_Open \<or> mr_exit_reason (monitor_row_of pol now h cx q) = None")
    case True
    then show ?thesis using Cons.prems(1) IH by (auto simp: Let_def split: if_splits prod.splits)
  next
    case False
    then obtain why where why: "cp_status q = Pos_Open" "mr_exit_reason (monitor_row_of pol now h cx q) = Some why" by auto
    obtain cx1 ps1 out where c: "close_position (env q) h why q (cx, ps) = ((cx1, ps1), out)" by (metis prod.exhaust)
    have "cp_id q \<noteq> i" using Cons.prems(2) why(1) by simp
    then have o1: "map_of ps1 i = map_of ps i" "book_wf ps \<longrightarrow> book_wf ps1"
      using close_position_only [OF c] by (auto simp: only_def)
    show ?thesis
    proof (cases out)
      case (Inl e)
      then show ?thesis using Cons.prems(1) why c o1 by (simp add: Let_def)
    next
      case (Inr x)
      then obtain r' where "monitor_loop env pol now h qs (cx1, ps1) = ((cx', ps'), r')"
        using Cons.prems(1) why c by (auto simp: Let_def split: prod.splits)
      then show ?thesis using IH o1 by auto
    qed
  qed
qed simp

lemma close_loop_frame:
  assumes "close_loop env h why qs (cx, ps) = ((cx', ps'), r)" and "\<forall>q \<in> set qs. cp_status q = Pos_Open \<longrightarrow> cp_id q \<noteq> i"
  shows "map_of ps' i = map_of ps i \<and> (book_wf ps \<longrightarrow> book_wf ps')"
  using assms
proof (induction qs arbitrary: cx ps r)
  case (Cons q qs)
  have IH: "close_loop env h why qs (cx, ps) = ((cx', ps'), r) \<Longrightarrow> map_of ps' i = map_of ps i \<and> (book_wf ps \<longrightarrow> book_wf ps')" for cx ps r
    using Cons.IH Cons.prems(2) by auto
  show ?case
  proof (cases "cp_status q = Pos_Open")
    case False
    then show ?thesis using Cons.prems(1) IH by auto
  next
    case True
    obtain cx1 ps1 out where c: "close_position (env q) h why q (cx, ps) = ((cx1, ps1), out)" by (metis prod.exhaust)
    have "cp_id q \<noteq> i" using Cons.prems(2) True by simp
    then have o1: "map_of ps1 i = map_of ps i" "book_wf ps \<longrightarrow> book_wf ps1"
      using close_position_only [OF c] by (auto simp: only_def)
    show ?thesis
    proof (cases out)
      case (Inl e)
      then show ?thesis using Cons.prems(1) True c o1 by simp
    next
      case (Inr x)
      then obtain r' where "close_loop env h why qs (cx1, ps1) = ((cx', ps'), r')"
        using Cons.prems(1) True c by (auto split: prod.splits)
      then show ?thesis using IH o1 by auto
    qed
  qed
qed simp

lemma accrue_fold_frame:
  assumes "fold (accrue_one pol now h rates) qs ((cx, ps), n) = ((cx', ps'), n')" and "\<forall>q \<in> set qs. cp_status q = Pos_Open \<longrightarrow> cp_id q \<noteq> i"
  shows "map_of ps' i = map_of ps i \<and> (book_wf ps \<longrightarrow> book_wf ps')"
  using assms
proof (induction qs arbitrary: cx ps n)
  case (Cons q qs)
  obtain cx1 ps1 n1 where s: "accrue_one pol now h rates q ((cx, ps), n) = ((cx1, ps1), n1)" by (metis prod.exhaust)
  have "map_of ps1 i = map_of ps i \<and> (book_wf ps \<longrightarrow> book_wf ps1)"
    using s Cons.prems(2)
    by (auto simp: accrue_one_def accrue_funding_def settle_funding_def Let_def split: if_splits sum.splits option.splits)
  moreover have "map_of ps' i = map_of ps1 i \<and> (book_wf ps1 \<longrightarrow> book_wf ps')"
    using Cons.IH [of cx1 ps1 n1] Cons.prems s by auto
  ultimately show ?case by auto
qed simp

subsection \<open>The life of a position\<close>

inductive carry_step :: "carry_policy \<Rightarrow> carry_state \<Rightarrow> carry_state \<Rightarrow> bool" for pol where
  Monitor: "monitor env pol now h st = (st', r) \<Longrightarrow> carry_step pol st st'"
| Accrue: "accrue_due_funding pol now h rates st = (st', n) \<Longrightarrow> carry_step pol st st'"
| Close_All: "close_all env h why st = (st', r') \<Longrightarrow> carry_step pol st st'"
| Close_By_Hand: "close_by_hand env1 h why i st = (st', r'') \<Longrightarrow> carry_step pol st st'"
| Open_Position: "open_from_opportunity xenv env1 pol opp st = (st', r3) \<Longrightarrow> pn_id env1 \<notin> set (keys (snd st)) \<Longrightarrow> carry_step pol st st'"
| Reconcile: "reconcile_positions now actual st = (st', ms) \<Longrightarrow> carry_step pol st st'"
| Elsewhere: "carry_step pol (cx, ps) (cx', ps)"

lemma not_open_here:
  assumes "book_wf ps" and "map_of ps i = Some q" and "cp_status q \<noteq> Pos_Open"
  shows "\<forall>p \<in> set (vals ps). cp_status p = Pos_Open \<longrightarrow> cp_id p \<noteq> i"
  using book_wf_mem [OF assms(1)] assms(2,3) by force

lemma frame_all:
  assumes "\<And>i. \<forall>q \<in> set (vals ps). cp_status q = Pos_Open \<longrightarrow> cp_id q \<noteq> i \<Longrightarrow>
      map_of ps' i = map_of ps i \<and> (book_wf ps \<longrightarrow> book_wf ps')"
    and "book_wf ps"
  shows "book_wf ps' \<and> (\<forall>i q. map_of ps i = Some q \<and> cp_status q \<noteq> Pos_Open \<longrightarrow> map_of ps' i = Some q)"
proof -
  obtain i0 where "i0 \<notin> cp_id ` set (vals ps)"
    using ex_new_if_finite [of "cp_id ` set (vals ps)"] infinite_UNIV_listI by blast
  then have "book_wf ps'" using assms(1) [of i0] assms(2) by blast
  then show ?thesis using assms(1) not_open_here [OF assms(2)] by metis
qed

lemma close_by_hand_only:
  assumes "close_by_hand env h why j (cx, ps) = ((cx', ps'), r)" and "book_wf ps"
  shows "only j ps ps' \<and> (\<forall>q. map_of ps j = Some q \<and> cp_status q \<noteq> Pos_Open \<longrightarrow> ps' = ps)"
proof (cases "map_of ps j")
  case None
  with assms show ?thesis by (simp add: close_by_hand_def)
next
  case (Some p)
  then have "(j, p) \<in> set ps" by (rule map_of_SomeD)
  then have i: "cp_id p = j" using assms(2) by (auto simp: book_wf_def)
  show ?thesis
  proof (cases "cp_status p = Pos_Open")
    case False
    with assms(1) Some show ?thesis by (simp add: close_by_hand_def)
  next
    case True
    with assms(1) Some obtain out where "close_position env h why p (cx, ps) = ((cx', ps'), out)"
      by (auto simp: close_by_hand_def split: prod.splits sum.splits option.splits)
    from close_position_only [OF this] i True Some show ?thesis by simp
  qed
qed

lemma open_only:
  assumes "open_from_opportunity xenv env pol opp (cx, ps) = ((cx', ps'), r)"
  shows "only (pn_id env) ps ps'"
  using assms
  by (auto simp: open_from_opportunity_def Let_def new_position_def split: prod.splits sum.splits option.splits bool.splits if_splits)

lemma carry_step_frame:
  assumes "carry_step pol st st'" and "book_wf (snd st)"
  shows "book_wf (snd st') \<and> (\<forall>i q. map_of (snd st) i = Some q \<and> cp_status q \<noteq> Pos_Open \<longrightarrow> map_of (snd st') i = Some q)"
  using assms
proof (induction rule: carry_step.induct)
  case (Monitor env now h st st' r)
  obtain cx ps cx' ps' where s: "st = (cx, ps)" "st' = (cx', ps')" by (metis prod.exhaust)
  have "monitor_loop env pol now h (vals ps) (cx, ps) = ((cx', ps'), r)" using Monitor(1) by (simp add: monitor_def s)
  from frame_all [OF monitor_loop_frame [OF this]] Monitor(2) show ?case by (simp add: s)
next
  case (Accrue now h rates st st' n)
  obtain cx ps cx' ps' where s: "st = (cx, ps)" "st' = (cx', ps')" by (metis prod.exhaust)
  have "fold (accrue_one pol now h rates) (vals ps) ((cx, ps), 0) = ((cx', ps'), n)" using Accrue(1) by (simp add: accrue_due_funding_def s)
  from frame_all [OF accrue_fold_frame [OF this]] Accrue(2) show ?case by (simp add: s)
next
  case (Close_All env h why st st' r')
  obtain cx ps cx' ps' where s: "st = (cx, ps)" "st' = (cx', ps')" by (metis prod.exhaust)
  have "close_loop env h why (vals ps) (cx, ps) = ((cx', ps'), r')" using Close_All(1) by (simp add: close_all_def s)
  from frame_all [OF close_loop_frame [OF this]] Close_All(2) show ?case by (simp add: s)
next
  case (Close_By_Hand env1 h why i st st' r'')
  obtain cx ps cx' ps' where s: "st = (cx, ps)" "st' = (cx', ps')" by (metis prod.exhaust)
  from close_by_hand_only [OF Close_By_Hand(1) [unfolded s]] Close_By_Hand(2) show ?case
    unfolding s only_def snd_conv by metis
next
  case (Open_Position xenv env1 opp st st' r3)
  obtain cx ps cx' ps' where s: "st = (cx, ps)" "st' = (cx', ps')" by (metis prod.exhaust)
  have "map_of ps (pn_id env1) = None" using Open_Position(2) by (simp add: s keys_def map_of_eq_None_iff)
  with open_only [OF Open_Position(1) [unfolded s]] Open_Position(3) show ?case
    unfolding s only_def snd_conv by (metis option.distinct(1))
next
  case (Reconcile now actual st st' ms)
  then show ?case by (auto simp: reconcile_positions_def Let_def split_def)
qed simp

lemma carry_run_frame:
  assumes "(carry_step pol)\<^sup>*\<^sup>* st st'" and "book_wf (snd st)"
  shows "book_wf (snd st') \<and> (\<forall>i q. map_of (snd st) i = Some q \<and> cp_status q \<noteq> Pos_Open \<longrightarrow> map_of (snd st') i = Some q)"
  using assms(1)
proof (induction rule: rtranclp_induct)
  case base
  then show ?case using assms(2) by simp
next
  case (step st1 st2)
  then show ?case using carry_step_frame [OF step(2)] by blast
qed

lemma submit_close_raises:
  assumes "submit_close env why p spot perp base sq bq (cx, ps) = ((cx', ps'), Inl e)"
  shows "ps' = ps"
  using assms
  by (auto simp: submit_close_def finish_close_def close_incomplete_def Let_def split: prod.splits sum.splits if_splits)

lemma close_position_raises:
  assumes "close_position env h why p (cx, ps) = ((cx', ps'), Inl e)"
  shows "ps' = put_pos (p\<lparr>cp_status := Pos_Closing\<rparr>) ps"
  using assms
  by (auto simp: close_position_def Let_def split: prod.splits sum.splits option.splits bool.splits dest!: submit_close_raises)

subsection \<open>Properties\<close>

text \<open>A close that is interrupted is never resumed: when closing a position ends in an exception of a
  venue (or of its answer), the position is left behind as closing, and from then on no run of
  monitoring, funding, closing everything, closing by hand, opening, reconciling or anything the other
  engines do changes it again; a request to close it by hand is refused.\<close>

theorem interrupted_close_never_resumed:
  assumes "book_wf ps" and "close_position env h why p (cx, ps) = ((cx1, ps1), Inl e)"
    and "(carry_step pol)\<^sup>*\<^sup>* (cx1, ps1) (cx2, ps2)"
  shows "map_of ps2 (cp_id p) = Some (p\<lparr>cp_status := Pos_Closing\<rparr>) \<and>
    close_by_hand env' h' why' (cp_id p) (cx2, ps2) = ((cx2, ps2), Inl 409)"
proof -
  have 1: "ps1 = put_pos (p\<lparr>cp_status := Pos_Closing\<rparr>) ps" by (rule close_position_raises [OF assms(2)])
  have wf: "book_wf (snd (cx1, ps1))" using assms(1) by (simp add: 1)
  have "map_of ps1 (cp_id p) = Some (p\<lparr>cp_status := Pos_Closing\<rparr>)" by (simp add: 1)
  then have "map_of ps2 (cp_id p) = Some (p\<lparr>cp_status := Pos_Closing\<rparr>)"
    using carry_run_frame [OF assms(3) wf] by simp
  then show ?thesis by (simp add: close_by_hand_def)
qed

lemma monitor_suspended:
  assumes "cx_emergency_stop cx \<and> \<not> ca_flatten_on_emergency_stop pol \<or>
    \<not> cx_emergency_stop cx \<and> is_tripped (cx_breakers cx) ''global''"
  shows "\<exists>rows. monitor_loop env pol now h qs (cx, ps) = ((cx, ps), Inr rows) \<and>
    map mr_id rows = map cp_id (filter (\<lambda>q. cp_status q = Pos_Open) qs) \<and>
    (\<forall>r \<in> set rows. mr_exit_reason r = None \<and> mr_suspended r \<noteq> None)"
proof (induction qs)
  case (Cons q qs)
  then obtain rows where rows: "monitor_loop env pol now h qs (cx, ps) = ((cx, ps), Inr rows)"
    "map mr_id rows = map cp_id (filter (\<lambda>q. cp_status q = Pos_Open) qs)"
    "\<forall>r \<in> set rows. mr_exit_reason r = None \<and> mr_suspended r \<noteq> None" by blast
  have "mr_exit_reason (monitor_row_of pol now h cx q) = None" "mr_suspended (monitor_row_of pol now h cx q) \<noteq> None"
    "mr_id (monitor_row_of pol now h cx q) = cp_id q"
    using assms by (auto simp: monitor_row_of_def Let_def split_def)
  with rows show ?case by (cases "cp_status q = Pos_Open") (simp_all add: Let_def)
qed simp

text \<open>A stop suspends automatic exits: under an emergency stop (unless the policy flattens) and under a
  global circuit breaker a monitoring pass submits nothing and changes nothing, and reports every open
  position as suspended.\<close>

theorem stop_suspends_exits:
  assumes "cx_emergency_stop cx \<and> \<not> ca_flatten_on_emergency_stop pol \<or>
    \<not> cx_emergency_stop cx \<and> is_tripped (cx_breakers cx) ''global''"
  shows "\<exists>rows. monitor env pol now h (cx, ps) = ((cx, ps), Inr rows) \<and>
    map mr_id rows = map cp_id (filter (\<lambda>q. cp_status q = Pos_Open) (vals ps)) \<and>
    (\<forall>r \<in> set rows. mr_exit_reason r = None \<and> mr_suspended r \<noteq> None)"
  using monitor_suspended [OF assms] by (simp add: monitor_def)

definition close_result :: "carry_env \<Rightarrow> position \<Rightarrow> carry_state \<Rightarrow> trade_record \<Rightarrow> bool" where
  \<comment> \<open>what a close that submitted its legs leaves behind\<close>
  "close_result env p = (\<lambda>(cx, ps) tr. \<exists>s b. tr_sell tr = Some s \<and> tr_buy tr = Some b \<and>
     (let spot_ok = leg_closed (cp_size_base p) s; perp_ok = leg_closed (cp_size_base p) b in
      if spot_ok \<and> perp_ok
      then tr_status tr = T_FILLED \<and> map_of ps (cp_id p) = None \<and>
        (\<exists>es eb. res_avg_price s = Some es \<and> res_avg_price b = Some eb \<and>
          tr_actual_net tr = Some (dsub (dadd (dadd (dmul (dsub es (cp_entry_spot_price p)) (cp_size_base p))
              (dmul (dsub (cp_entry_perp_price p) eb) (cp_size_base p))) (cp_funding_usd p))
            (dadd (dadd (cp_fees_usd p) (res_fee_quote s)) (res_fee_quote b))))
      else tr_status tr = (if spot_ok \<or> perp_ok then RECOVERING else T_FAILED) \<and>
        map_of ps (cp_id p) = Some (p\<lparr>cp_status := (if spot_ok \<or> perp_ok then Pos_Closing else Pos_Open)\<rparr>) \<and>
        (''strategy:carry'', POSITION_DISCREPANCY) \<in> alarms (cx_breakers cx)))"

lemma close_result_status: "close_result env (p\<lparr>cp_status := st\<rparr>) = close_result env p"
  unfolding close_result_def by simp

lemma finish_close_result:
  assumes "finish_close env why p s b tr (cx, ps) = ((cx', ps'), Inr (Some tr'))"
    and "tr_sell tr = Some s" and "tr_buy tr = Some b" and "manager_wf (cx_breakers cx)"
  shows "close_result env p (cx', ps') tr' \<and> cx_inventory cx' = cx_inventory cx"
proof (cases "leg_closed (cp_size_base p) s \<and> leg_closed (cp_size_base p) b")
  case True
  then obtain p1 tr1 where f: "settle_closed env why p s b tr = Inr (p1, tr1)" "cx' = cx" "ps' = AList.delete (cp_id p1) ps"
    "tr' = tr1\<lparr>tr_completed_at_ms := Some (pn_now_ms env)\<rparr>"
    using assms(1) by (auto simp: finish_close_def Let_def split: sum.splits)
  then have "cp_id p1 = cp_id p" by (simp add: settle_closed_id)
  moreover obtain es eb where "res_avg_price s = Some es" "res_avg_price b = Some eb"
    using f(1) by (auto simp: settle_closed_def split: option.splits)
  moreover have "tr_sell tr' = Some s" "tr_buy tr' = Some b" "tr_status tr' = T_FILLED"
    using f(1,4) assms(2,3) by (auto simp: settle_closed_def Let_def split: option.splits)
  moreover have "tr_actual_net tr' = Some (dsub (dadd (dadd (dmul (dsub es (cp_entry_spot_price p)) (cp_size_base p))
              (dmul (dsub (cp_entry_perp_price p) eb) (cp_size_base p))) (cp_funding_usd p))
            (dadd (dadd (cp_fees_usd p) (res_fee_quote s)) (res_fee_quote b)))"
    using f(1,4) calculation(2,3) by (auto simp: settle_closed_def Let_def)
  ultimately show ?thesis
    using True unfolding close_result_def by (simp add: f(2,3) Let_def)
next
  case False
  then have "\<not> (leg_closed (cp_size_base p) s \<and> leg_closed (cp_size_base p) b)" .
  with assms have "tr_sell tr' = Some s \<and> tr_buy tr' = Some b \<and> cx_inventory cx' = cx_inventory cx \<and>
    tr_status tr' = (if leg_closed (cp_size_base p) s \<or> leg_closed (cp_size_base p) b then RECOVERING else T_FAILED) \<and>
    map_of ps' (cp_id p) = Some (p\<lparr>cp_status := (if leg_closed (cp_size_base p) s \<or> leg_closed (cp_size_base p) b then Pos_Closing else Pos_Open)\<rparr>) \<and>
    (''strategy:carry'', POSITION_DISCREPANCY) \<in> alarms (cx_breakers cx')"
    unfolding finish_close_def close_incomplete_def by (auto simp: Let_def alarms_trip)
  with False show ?thesis unfolding close_result_def by (simp add: Let_def)
qed

lemma inv_release_none: "map_of (im_reservations (inv_release m k)) k = None"
  by (simp add: inv_release_def)

lemma release_close_simps [simp]:
  "cx_breakers (release_close key lv base amt sold cx) = cx_breakers cx"
  "cx_inventory (release_close key lv base amt sold cx) = inv_release (cx_inventory cx) key"
  by (simp_all add: release_close_def Let_def)

lemma reserve_close_breakers: "reserve_close key lv base amt cx = (cx1, ok) \<Longrightarrow> cx_breakers cx1 = cx_breakers cx"
  by (auto simp: reserve_close_def Let_def split: option.splits if_splits prod.splits sum.splits)

lemma close_legs_breakers: "close_legs env a b cx = (cx1, r) \<Longrightarrow> cx_breakers cx1 = cx_breakers cx"
  by (auto simp: close_legs_def split: prod.splits sum.splits)

lemma submit_close_result:
  assumes "submit_close env why p spot perp base sq bq (cx, ps) = ((cx', ps'), Inr (Some tr))" and "manager_wf (cx_breakers cx)"
  shows "close_result env p (cx', ps') tr \<and> map_of (im_reservations (cx_inventory cx')) (close_key p) = None"
proof -
  let ?sl = "(spot, close_request cx spot (cp_pair p) SELL (cp_size_base p) sq, sq)"
  let ?pl = "(perp, close_request cx perp (cp_perp_symbol p) BUY (cp_size_base p) bq, bq)"
  obtain cx1 s b where l: "close_legs env ?sl ?pl cx = (cx1, Inr (s, b))"
    using assms(1) by (auto simp: submit_close_def Let_def split: prod.splits sum.splits)
  let ?cx2 = "release_close (close_key p) (ledger_venue_for spot) base (cp_size_base p) (res_filled s) cx1"
  let ?tr = "(close_trade env cx p spot perp why)\<lparr>tr_sell := Some s, tr_buy := Some b\<rparr>"
  have f: "finish_close env why p s b ?tr (?cx2, ps) = ((cx', ps'), Inr (Some tr))"
    using assms(1) l by (simp add: submit_close_def Let_def)
  have "manager_wf (cx_breakers ?cx2)" using assms(2) close_legs_breakers [OF l] by simp
  from finish_close_result [OF f _ _ this] show ?thesis by (simp add: inv_release_none)
qed


text \<open>Only a priced pair becomes a position: when the execution engine fills both legs of a carry trade,
  a position is tracked for exactly the filled amount, with the entry prices of the two legs, if both
  legs report an average price and the spot price is not zero; otherwise the manager raises after the
  trade, and the two legs stand at the venues without a position in the book.\<close>

theorem filled_pair_tracked_if_priced:
  assumes "\<not> rate_abnormal pol (op_extra_funding_rate opp)"
    and "execute (xenv\<lparr>xe_allow_carry := True\<rparr>) cx opp = Inr (cx1, tr)"
    and "tr_status tr = T_FILLED" and "tr_buy tr = Some b" and "tr_sell tr = Some s"
  shows "if res_avg_price b \<in> {None, Some 0} \<or> res_avg_price s = None
    then \<exists>e. open_from_opportunity xenv env pol opp (cx, ps) = ((cx1, ps), Inl e)
    else \<exists>p. open_from_opportunity xenv env pol opp (cx, ps) = ((cx1, put_pos p ps), Inr (tr, Some p)) \<and>
      cp_id p = pn_id env \<and> cp_status p = Pos_Open \<and> cp_size_base p = res_filled b \<and> cp_trade_id p = tr_id tr \<and>
      Some (cp_entry_spot_price p) = res_avg_price b \<and> Some (cp_entry_perp_price p) = res_avg_price s"
proof -
  have o: "open_from_opportunity xenv env pol opp (cx, ps) =
     (case entry_basis b s of
        Inl e \<Rightarrow> ((cx1, ps), Inl e)
      | Inr x \<Rightarrow> ((cx1, put_pos (new_position env cx opp tr b s x) ps), Inr (tr, Some (new_position env cx opp tr b s x))))"
    using assms by (simp add: open_from_opportunity_def funding_anomaly_def Let_def split: sum.split)
  show ?thesis
  proof (cases "res_avg_price b \<in> {None, Some 0} \<or> res_avg_price s = None")
    case True
    then have "\<exists>e. entry_basis b s = Inl e"
      by (cases "res_avg_price b"; cases "res_avg_price s") (auto simp: entry_basis_def ddiv_r_def)
    then obtain e where "entry_basis b s = Inl e" by blast
    with True show ?thesis by (simp add: o)
  next
    case False
    then obtain bp sp where p: "res_avg_price b = Some bp" "bp \<noteq> 0" "res_avg_price s = Some sp" by auto
    then obtain x where "entry_basis b s = Inr (bp, sp, x)" by (simp add: entry_basis_def ddiv_r_def)
    with p show ?thesis by (simp add: o new_position_def)
  qed
qed

text \<open>An abnormal funding rate opens nothing: when the funding rate of the opportunity exceeds the limit of
  the policy, the trade is aborted before the execution engine is asked, no position is opened, and
  nothing changes but the breakers, where the funding alarm of the carry strategies is up.\<close>

theorem abnormal_funding_opens_nothing:
  assumes "op_extra_funding_rate opp = Some r" and "ca_max_abs_funding_rate pol < dabs r" and "manager_wf (cx_breakers cx)"
  shows "\<exists>m tr. open_from_opportunity xenv env pol opp (cx, ps) = ((cx\<lparr>cx_breakers := m\<rparr>, ps), Inr (tr, None)) \<and>
    tr_status tr = ABORTED \<and> alarms m = insert (''strategy:carry'', FUNDING_ANOMALY) (alarms (cx_breakers cx))"
proof -
  define m where "m = cx_breakers (fst (funding_anomaly pol (pn_now_ms env) (Some r) (eq_venue (op_sell opp) @ '' '' @ eq_symbol (op_sell opp)) cx))"
  have "funding_anomaly pol (pn_now_ms env) (Some r) (eq_venue (op_sell opp) @ '' '' @ eq_symbol (op_sell opp)) cx = (cx\<lparr>cx_breakers := m\<rparr>, True)"
      "alarms m = insert (''strategy:carry'', FUNDING_ANOMALY) (alarms (cx_breakers cx))"
    using assms(2,3) by (simp_all add: m_def funding_anomaly_def rate_abnormal_def alarms_trip)
  then show ?thesis using assms(1)
    by (intro exI [of _ m] exI [of _ "anomaly_trade env cx opp"]) (simp add: open_from_opportunity_def Let_def anomaly_trade_def)
qed

definition settlements :: "(int \<times> decimal \<times> decimal) list \<Rightarrow> position \<Rightarrow> position" where
  \<comment> \<open>the position after settled periods, each with the clock, the price of the perpetual and the rate\<close>
  "settlements xs p = foldl (\<lambda>p (now, px, r). settle_funding now px r p) p xs"

lemma settlements_append: "settlements (xs @ ys) p = settlements ys (settlements xs p)"
  by (simp add: settlements_def)

lemma settlements_negative:
  assumes "\<forall>(now, px, r) \<in> set xs. r < 0"
  shows "cp_negative_streak (settlements xs p) = cp_negative_streak p + int (length xs)"
  using assms
proof (induction xs arbitrary: p)
  case (Cons x xs)
  obtain now px r where x: "x = (now, px, r)" by (cases x)
  have "cp_negative_streak (settlements (x # xs) p) = cp_negative_streak (settlements xs (settle_funding now px r p))"
    by (simp add: settlements_def x)
  also have "\<dots> = cp_negative_streak (settle_funding now px r p) + int (length xs)" using Cons by simp
  also have "cp_negative_streak (settle_funding now px r p) = cp_negative_streak p + 1"
    using Cons.prems by (simp add: settle_funding_def Let_def x)
  finally show ?case by simp
qed (simp add: settlements_def)

lemma settlements_streak_nonneg: "0 \<le> cp_negative_streak p \<Longrightarrow> 0 \<le> cp_negative_streak (settlements xs p)"
proof (induction xs arbitrary: p)
  case (Cons x xs)
  have "settlements (x # xs) p = settlements xs (settle_funding (fst x) (fst (snd x)) (snd (snd x)) p)"
    by (simp add: settlements_def split_def)
  moreover have "0 \<le> cp_negative_streak (settle_funding now px r p)" for now px r
    using Cons.prems by (simp add: settle_funding_def Let_def)
  ultimately show ?case using Cons.IH by simp
qed (simp add: settlements_def)

lemma settle_keeps_history: "length (cp_periods (settle_funding now px r p)) \<le> 200"
  by (simp add: settle_funding_def Let_def last_kept_def)

text \<open>Funding that turns against a position ends it: after any history of settled periods whose last ones,
  at least as many as the policy tolerates, were all negative, every mark of the position gives a
  reason to exit; and a position that is held has a basis above the target, within the widening the
  policy allows, and enough distance to liquidation.\<close>

theorem funding_flip_exits:
  assumes "0 \<le> cp_negative_streak p" and "\<forall>(now, px, r) \<in> set late. r < 0"
    and "ca_funding_flip_periods pol \<le> int (length late)"
  shows "exit_reason pol (settlements (early @ late) p) m \<noteq> None \<and>
    (exit_reason pol q m = None \<longrightarrow> ca_exit_basis_pct pol < mk_basis_pct m \<and>
       dsub (mk_basis_pct m) (cp_entry_basis_pct q) \<le> ca_max_basis_widening_pct pol \<and>
       ca_min_liquidation_distance_pct pol \<le> mk_liquidation_distance_pct m)"
proof -
  have "int (length late) \<le> cp_negative_streak (settlements (early @ late) p)"
    using settlements_negative [OF assms(2)] settlements_streak_nonneg [OF assms(1)]
    by (simp add: settlements_append)
  then show ?thesis using assms(3) by (auto simp: exit_reason_def split: if_splits)
qed

subsection \<open>Witnesses\<close>

definition demo_position :: position where
  "demo_position = \<lparr>cp_id = ''p1'', cp_mode = PAPER, cp_strategy = SPOT_PERP, cp_pair = ''BTC/USDC'', cp_spot_venue = ''kraken'',
     cp_perp_venue = ''coinbase'', cp_perp_symbol = ''BTC/USDC'', cp_size_base = 1, cp_status = Pos_Open,
     cp_entry_spot_price = 100, cp_entry_perp_price = 102, cp_entry_basis_pct = 2, cp_funding_usd = 0, cp_fees_usd = 0,
     cp_opened_at_ms = Some 0, cp_exit_spot_price = None, cp_exit_perp_price = None, cp_realized_net_usd = None,
     cp_exit_reason = None, cp_closed_at_ms = None, cp_trade_id = ''trd1'', cp_rate_at_entry = None, cp_periods = [],
     cp_negative_streak = 0, cp_last_funding_ms = None\<rparr>"

definition demo_carry_env :: "(order_request \<Rightarrow> leg_answer) \<Rightarrow> carry_env" where
  "demo_carry_env ans = \<lparr>pn_now_ms = 1000, pn_id = ''p1'', pn_trade_id = ''cls1'',
     pn_quote = (\<lambda>v sym side n ob. Inr (demo_leg (vr_name v) side 100 None)),
     pn_leg = (\<lambda>l (v, req, q). (l, ans req))\<rparr>"

definition demo_filled :: "order_request \<Rightarrow> leg_answer" where
  "demo_filled req = Inr ((new_result req ''o1'' FILLED 1000)\<lparr>res_filled := or_amount req, res_avg_price := Some 101\<rparr>)"

lemma demo_reserve_close:
  "\<exists>cx1. reserve_close ''close:p1'' ''kraken'' ''BTC'' 1 demo_ctx = (cx1, True) \<and> cx_settings cx1 = cx_settings demo_ctx"
proof -
  have "snd (ledger_reserve demo_ledger ''kraken'' ''BTC'' 1) = Inr ()"
    by (simp add: ledger_reserve_result demo_accts)
  then obtain l1 where "ledger_reserve demo_ledger ''kraken'' ''BTC'' 1 = (l1, Inr ())" by (metis prod.collapse)
  then show ?thesis by (simp add: reserve_close_def Let_def is_simulated_execution_def cx_mode_def demo_settings)
qed

lemma demo_close_submits:
  obtains cx1 sq bq where "cx_breakers cx1 = new_manager"
    "close_position (demo_carry_env ans) new_hub why demo_position (demo_ctx, [(''p1'', demo_position)]) =
       submit_close (demo_carry_env ans) why (demo_position\<lparr>cp_status := Pos_Closing\<rparr>) (demo_venue ''kraken'') (demo_venue ''coinbase'')
         ''BTC'' sq bq (cx1, put_pos (demo_position\<lparr>cp_status := Pos_Closing\<rparr>) [(''p1'', demo_position)])"
proof -
  have sp: "split_pair ''BTC/USDC'' = Inr (''BTC'', ''USDC'')" by (simp add: split_pair_def)
  have p: "cp_spot_venue demo_position = ''kraken''" "cp_perp_venue demo_position = ''coinbase''" "cp_pair demo_position = ''BTC/USDC''"
    "close_key demo_position = ''close:p1''" "cp_size_base demo_position = 1"
    by (simp_all add: demo_position_def close_key_def)
  have q: "pn_quote (demo_carry_env ans) v sym side n ob = Inr (demo_leg (vr_name v) side 100 None)" for v sym side n ob
    by (simp add: demo_carry_env_def)
  obtain cx1 where r: "reserve_close ''close:p1'' ''kraken'' ''BTC'' 1 demo_ctx = (cx1, True)" using demo_reserve_close by blast
  have "cx_breakers cx1 = new_manager" using reserve_close_breakers [OF r] by simp
  moreover have "close_position (demo_carry_env ans) new_hub why demo_position (demo_ctx, [(''p1'', demo_position)]) =
       submit_close (demo_carry_env ans) why (demo_position\<lparr>cp_status := Pos_Closing\<rparr>) (demo_venue ''kraken'') (demo_venue ''coinbase'')
         ''BTC'' (demo_leg ''kraken'' SELL 100 None) (demo_leg ''coinbase'' BUY 100 None)
         (cx1, put_pos (demo_position\<lparr>cp_status := Pos_Closing\<rparr>) [(''p1'', demo_position)])"
    by (simp add: close_position_def p sp q r Let_def)
  ultimately show thesis using that by blast
qed

lemma demo_book_wf: "book_wf [(''p1'', demo_position)]"
  by (simp add: book_wf_def wf_dict_def demo_position_def)

theorem interrupted_close_never_resumed_witness:
  "\<exists>cx1 ps1 e. close_position (demo_carry_env (\<lambda>_. Inl (Msg ''timeout'' []))) new_hub (Msg [] []) demo_position
     (demo_ctx, [(''p1'', demo_position)]) = ((cx1, ps1), Inl e) \<and>
     map_of ps1 ''p1'' = Some (demo_position\<lparr>cp_status := Pos_Closing\<rparr>)"
proof -
  let ?env = "demo_carry_env (\<lambda>_. Inl (Msg ''timeout'' []))"
  obtain cx0 sq bq where s: "close_position ?env new_hub (Msg [] []) demo_position (demo_ctx, [(''p1'', demo_position)]) =
       submit_close ?env (Msg [] []) (demo_position\<lparr>cp_status := Pos_Closing\<rparr>) (demo_venue ''kraken'') (demo_venue ''coinbase'')
         ''BTC'' sq bq (cx0, put_pos (demo_position\<lparr>cp_status := Pos_Closing\<rparr>) [(''p1'', demo_position)])"
    by (rule demo_close_submits)
  then obtain cx1 ps1 e where c: "close_position ?env new_hub (Msg [] []) demo_position (demo_ctx, [(''p1'', demo_position)]) = ((cx1, ps1), Inl e)"
    by (simp add: submit_close_def close_legs_def demo_carry_env_def Let_def)
  have "cp_id demo_position = ''p1''" by (simp add: demo_position_def)
  with interrupted_close_never_resumed [OF demo_book_wf c rtranclp.rtrancl_refl [of "carry_step carry_defaults"]] c show ?thesis by auto
qed


theorem stop_suspends_exits_witness:
  "\<exists>rows. monitor (\<lambda>_. demo_carry_env demo_filled) carry_defaults 5 new_hub
     (demo_ctx\<lparr>cx_emergency_stop := True\<rparr>, [(''p1'', demo_position)]) =
     ((demo_ctx\<lparr>cx_emergency_stop := True\<rparr>, [(''p1'', demo_position)]), Inr rows) \<and> map mr_id rows = [''p1'']"
proof -
  have "cx_emergency_stop (demo_ctx\<lparr>cx_emergency_stop := True\<rparr>) \<and> \<not> ca_flatten_on_emergency_stop carry_defaults \<or>
    \<not> cx_emergency_stop (demo_ctx\<lparr>cx_emergency_stop := True\<rparr>) \<and> is_tripped (cx_breakers (demo_ctx\<lparr>cx_emergency_stop := True\<rparr>)) ''global''"
    by (simp add: carry_defaults_def)
  from stop_suspends_exits [OF this, where env = "\<lambda>_. demo_carry_env demo_filled" and now = 5 and h = new_hub and
      ps = "[(''p1'', demo_position)]"] show ?thesis
    by (auto simp: vals_def demo_position_def)
qed

theorem abnormal_funding_opens_nothing_witness:
  "\<exists>m tr. open_from_opportunity demo_env (demo_carry_env demo_filled) carry_defaults
     ((demo_opportunity 1)\<lparr>op_extra_funding_rate := Some 1\<rparr>) (demo_ctx, []) = ((demo_ctx\<lparr>cx_breakers := m\<rparr>, []), Inr (tr, None))"
proof -
  have "ca_max_abs_funding_rate carry_defaults < dabs 1" by (simp add: carry_defaults_def dabs_def dround_eval)
  moreover have "manager_wf (cx_breakers demo_ctx)" by (simp add: manager_wf_new)
  ultimately show ?thesis
    using abnormal_funding_opens_nothing [of "(demo_opportunity 1)\<lparr>op_extra_funding_rate := Some 1\<rparr>" 1 carry_defaults demo_ctx
        demo_env "demo_carry_env demo_filled" "[]"] by auto
qed

theorem funding_flip_exits_witness:
  "exit_reason carry_defaults (settlements ([(1, 100, 1 / 1000)] @ [(2, 100, - 1 / 1000), (3, 100, - 1 / 1000)]) demo_position)
     (mark 5 new_hub demo_position) \<noteq> None"
  by (rule funding_flip_exits [THEN conjunct1])
    (simp_all add: demo_position_def carry_defaults_def)

definition demo_pair_env :: exec_env where
  \<comment> \<open>both legs fill one unit and report no average price\<close>
  "demo_pair_env = demo_env\<lparr>xe_legs := (\<lambda>l (v, b, q) (v', s, q').
     (l, Inr ((new_result b ''buy'' FILLED 1005)\<lparr>res_filled := 1\<rparr>), Inr ((new_result s ''sell'' FILLED 1005)\<lparr>res_filled := 1\<rparr>))),
     xe_allow_carry := True\<rparr>"

lemma demo_pair_filled:
  "\<exists>cx' tr b s. execute demo_pair_env demo_ctx (demo_opportunity 1) = Inr (cx', tr) \<and> tr_status tr = T_FILLED \<and>
     tr_buy tr = Some b \<and> tr_sell tr = Some s \<and> res_avg_price b = None"
proof -
  let ?o = "demo_opportunity 1" and ?k = "demo_venue ''kraken''" and ?c = "demo_venue ''coinbase''" and ?e = demo_pair_env
  obtain cx1 where r: "reserve_legs demo_ctx ''trd1'' ''kraken'' ''USDC'' (dmul (dmul 100 (1001/1000)) (101/100)) ''coinbase'' ''BTC'' 1
    = (cx1, Inr ())" by (rule demo_reserve)
  have o: "op_decision ?o = SAFE_TO_EXECUTE" "eq_venue (op_buy ?o) = ''kraken''" "eq_venue (op_sell ?o) = ''coinbase''"
      "op_quote ?o = ''USDC''" "sell_asset ?o ?o = ''BTC''" "sell_needed ?o = 1"
    by (simp_all add: demo_opportunity_def demo_leg_def sell_asset_def sell_needed_def)
  have e: "xe_fresh ?e = Some ?o" "xe_trade_id ?e = ''trd1''" by (simp_all add: demo_pair_env_def demo_env_def)
  have pre: "precheck ?e demo_ctx ?o = None"
    by (simp add: precheck_def Let_def cx_mode_def demo_settings is_tripped_def active_breakers_def
      new_manager_def vals_def demo_opportunity_def)
  obtain cx2 tr1 where x: "tr_hedge tr1 = None" "execute ?e demo_ctx ?o = Inr (finish_trade ?e (account_trade ?e ?o
      (xe_fill_ms ?e - xe_submit_ms ?e) (settle_status ?e ?o (note_dex_failures ?e ?k ?c (run_legs ?e ?o ?o ?k ?c (cx2, tr1))))))"
    by (rule execute_submits [of ?e demo_ctx ?o ?o ?k ?c ?k ?c cx1])
      (use pre o e r in \<open>simp_all add: demo_needed\<close>)
  obtain cx3 tr2 where s1: "run_legs ?e ?o ?o ?k ?c (cx2, tr1) = (cx3, tr2)" by force
  obtain b s where l2: "tr_buy tr2 = Some b" "tr_sell tr2 = Some s" "res_filled b = 1" "res_filled s = 1" "res_avg_price b = None"
      "tr_events tr2 \<noteq> []" "tr_hedge tr2 = None"
    using s1 x(1) by (auto simp: run_legs_def Let_def demo_pair_env_def as_result_def new_result_def tr_log_def)
  have s2: "note_dex_failures ?e ?k ?c (cx3, tr2) = (cx3, tr2)"
    by (simp add: note_dex_failures_def note_dex_failure_def split: option.split)
  have s3: "settle_status ?e ?o (cx3, tr2) = (cx3, tr2\<lparr>tr_status := T_FILLED\<rparr>)"
    using l2 by (simp add: settle_status_def filled_of_def Let_def dsub_def)
  obtain cx5 tr4 where s4: "account_trade ?e ?o (xe_fill_ms ?e - xe_submit_ms ?e) (cx3, tr2\<lparr>tr_status := T_FILLED\<rparr>) = (cx5, tr4)"
    by force
  have f4: "tr_status tr4 = T_FILLED \<and> tr_buy tr4 = Some b \<and> tr_sell tr4 = Some s"
    using s4 l2 by (auto simp: account_trade_def compute_outcome_def leg_value_def hedge_sells_def Let_def apply_outcome_def tr_log_def
        dadd_def dsub_def dabs_def)
  obtain cx6 tr5 where s5: "finish_trade ?e (cx5, tr4) = (cx6, tr5)" by force
  then have "tr_status tr5 = T_FILLED \<and> tr_buy tr5 = Some b \<and> tr_sell tr5 = Some s"
    using f4 by (auto simp: finish_trade_def Let_def)
  moreover have "execute ?e demo_ctx ?o = Inr (cx6, tr5)" using x(2) s1 s2 s3 s4 s5 by simp
  ultimately show ?thesis using l2(5) by blast
qed

theorem filled_pair_tracked_if_priced_witness:
  "\<exists>cx1 e. open_from_opportunity demo_pair_env (demo_carry_env demo_filled) carry_defaults (demo_opportunity 1) (demo_ctx, []) =
     ((cx1, []), Inl e)"
proof -
  obtain cx' tr b s where x: "execute demo_pair_env demo_ctx (demo_opportunity 1) = Inr (cx', tr)" "tr_status tr = T_FILLED"
     "tr_buy tr = Some b" "tr_sell tr = Some s" "res_avg_price b = None" using demo_pair_filled by blast
  have "\<not> rate_abnormal carry_defaults (op_extra_funding_rate (demo_opportunity 1))"
    by (simp add: rate_abnormal_def demo_opportunity_def)
  moreover have "execute (demo_pair_env\<lparr>xe_allow_carry := True\<rparr>) demo_ctx (demo_opportunity 1) = Inr (cx', tr)"
    using x(1) by (simp add: demo_pair_env_def)
  ultimately show ?thesis
    using filled_pair_tracked_if_priced [of carry_defaults "demo_opportunity 1" demo_pair_env demo_ctx cx' tr b s "demo_carry_env demo_filled" "[]"] x
    by auto
qed

end

