(* ===== verification/Flash_Loan.thy ===== *)
theory Flash_Loan
  imports Opportunity_Engine
begin

text \<open>
  Model of the flash-loan engine (\<^verbatim>\<open>backend/fedr/engine/flashloan.py\<close>): where it is available, the
  simulation of a route, the encoding of the contract call, and the execution with its paper settlement
  or its broadcast. The chain is outside: the answers of the node to the call, the fee history, the
  transaction and its receipt are the record \<open>flash_env\<close>; what is submitted is kept in a list. The fresh
  quotes of an execution come from \<open>evaluate\<close>, the evaluation of the opportunity engine.
\<close>

subsection \<open>The engine and the chain\<close>

record loan_meta =
  \<comment> \<open>what the connectors' markets and specifications say of a route, where they say it\<close>
  lm_base_address :: "string option"
  lm_quote_address :: "string option"
  lm_router_buy :: "string option"
  lm_router_sell :: "string option"
  lm_quote_decimals :: "int option"
  lm_base_decimals :: "int option"
  lm_fee_buy :: "int option"
  lm_fee_sell :: "int option"

record swap_leg =
  sl_router :: string
  sl_kind :: int
  sl_fee :: int
  sl_min_out :: int

record loan_call =
  lc_asset :: string
  lc_amount :: int
  lc_intermediate :: string
  lc_leg_a :: swap_leg
  lc_leg_b :: swap_leg
  lc_min_profit :: int
  lc_deadline :: int

record loan_tx =
  lt_call :: loan_call
  lt_gas :: int
  lt_max_fee :: int
  lt_priority :: int
  lt_private :: bool

record receipt =
  rc_status :: int
  rc_gas_used :: int
  rc_gas_price :: "int option"

record flash_env =
  fe_contract :: "chain \<Rightarrow> bool"
  fe_rpc :: "chain \<Rightarrow> bool"
  fe_private_rpc :: bool
  fe_wallet :: bool
  fe_meta :: "route_candidate \<Rightarrow> loan_meta"
  fe_simulate :: "loan_call \<Rightarrow> message + int"
  fe_call :: "loan_call \<Rightarrow> message + int"
  fe_fees :: "message + int \<times> int option"
  fe_send :: "loan_tx \<Rightarrow> message option"
  fe_receipt :: "message + receipt"
  fe_hash :: string
  fe_price_usd :: "string \<Rightarrow> decimal option"
  fe_now_ms :: int
  fe_trade_id :: string
  fe_order_id :: string
  fe_trigger :: string

record simulation =
  si_ok :: bool
  si_reason :: message
  si_gas :: "int option"
  si_profit :: "decimal option"

definition AAVE_V3_POOLS :: "chain list" where
  \<comment> \<open>the chains with a known pool\<close>
  "AAVE_V3_POOLS = [ETHEREUM, ARBITRUM, OPTIMISM, POLYGON, AVALANCHE, BASE, BSC]"

definition available_on :: "flash_env \<Rightarrow> engine_ctx \<Rightarrow> chain \<Rightarrow> bool \<times> message" where
  "available_on env cx ch =
     (let s = s_flash_loan (cx_settings cx) in
      if \<not> fls_enabled s then (False, Msg ''flash loans disabled'' [])
      else if chain_value ch \<notin> set (fls_chains s) then (False, Msg ''chain not enabled for flash loans'' [AStr (chain_value ch)])
      else if cx_mode cx \<in> {SIMULATION, PAPER} then (True, Msg ''simulated atomic execution'' [])
      else if \<not> fe_contract env ch then (False, Msg ''no FlashLoanArbitrage contract configured'' [AStr (chain_value ch)])
      else if \<not> fe_rpc env ch then (False, Msg ''no RPC configured'' [AStr (chain_value ch)])
      else if ch \<notin> set AAVE_V3_POOLS then (False, Msg ''no Aave V3 pool known'' [AStr (chain_value ch)])
      else (True, Msg ''contract + RPC configured'' []))"

subsection \<open>Encoding\<close>

definition present :: "string option \<Rightarrow> bool" where
  "present x \<longleftrightarrow> x \<notin> {None, Some []}"

definition in_units :: "decimal \<Rightarrow> int \<Rightarrow> int" where
  \<comment> \<open>\<open>int(x * Decimal(10 ** decimals))\<close>\<close>
  "in_units x decimals = trunc_int (dmul x (10 powi decimals))"

definition loan_deadline :: "int \<Rightarrow> int" where
  "loan_deadline now = trunc_int (fround (of_int now / 1000)) + 90"

definition build_params ::
  "flash_env \<Rightarrow> engine_ctx \<Rightarrow> route_candidate \<Rightarrow> execution_quote \<Rightarrow> execution_quote \<Rightarrow> loan_call option" where
  "build_params env cx c bq sq =
     (let m = fe_meta env c; s = s_flash_loan (cx_settings cx);
          quote_dec = (case lm_quote_decimals m of None \<Rightarrow> 6 | Some n \<Rightarrow> n);
          base_dec = (case lm_base_decimals m of None \<Rightarrow> 18 | Some n \<Rightarrow> n);
          slip = ddiv (of_int (fls_max_slippage_bps s)) 10000;
          fee = (\<lambda>x. case x of None \<Rightarrow> 3000 | Some n \<Rightarrow> n)
      in if market_of (rt_buy c) (rt_pair c) = None \<or> market_of (rt_sell c) (rt_pair c) = None then None
         else if \<not> (present (lm_base_address m) \<and> present (lm_quote_address m) \<and> present (lm_router_buy m) \<and> present (lm_router_sell m))
         then None
         else Some \<lparr>lc_asset = the (lm_quote_address m), lc_amount = in_units (eq_quote_amount bq) quote_dec,
                lc_intermediate = the (lm_quote_address m),
                lc_leg_a = \<lparr>sl_router = the (lm_router_buy m), sl_kind = 0, sl_fee = fee (lm_fee_buy m),
                  sl_min_out = in_units (dmul (eq_base_amount bq) (dsub 1 slip)) base_dec\<rparr>,
                lc_leg_b = \<lparr>sl_router = the (lm_router_sell m), sl_kind = 0, sl_fee = fee (lm_fee_sell m),
                  sl_min_out = in_units (dmul (eq_quote_amount sq) (dsub 1 slip)) quote_dec\<rparr>,
                lc_min_profit = in_units (fls_min_net_profit_usd s) quote_dec,
                lc_deadline = loan_deadline (fe_now_ms env)\<rparr>)"

subsection \<open>Simulation\<close>

definition loan_fee :: "decimal \<Rightarrow> decimal" where
  "loan_fee loan = dmul loan (5 / 10000)"

definition loan_profit :: "execution_quote \<Rightarrow> execution_quote \<Rightarrow> decimal" where
  "loan_profit bq sq = dsub (dsub (eq_quote_amount sq) (eq_quote_amount bq)) (loan_fee (eq_quote_amount bq))"

definition simulate_paper :: "engine_ctx \<Rightarrow> execution_quote \<Rightarrow> execution_quote \<Rightarrow> simulation" where
  "simulate_paper cx bq sq =
     (let least = fls_min_net_profit_usd (s_flash_loan (cx_settings cx)); profit = loan_profit bq sq; ok = (least \<le> profit)
      in \<lparr>si_ok = ok, si_reason = (if ok then Msg [] [] else Msg ''would revert'' [ADec profit, ADec least]),
          si_gas = Some 420000, si_profit = Some profit\<rparr>)"

definition simulate_onchain ::
  "flash_env \<Rightarrow> engine_ctx \<Rightarrow> route_candidate \<Rightarrow> execution_quote \<Rightarrow> execution_quote \<Rightarrow> simulation" where
  "simulate_onchain env cx c bq sq =
     (let no = (\<lambda>why. \<lparr>si_ok = False, si_reason = why, si_gas = None, si_profit = None\<rparr>) in
      if \<not> fe_wallet env then no (Msg ''no EVM bot wallet'' [])
      else case build_params env cx c bq sq of
        None \<Rightarrow> no (Msg ''route cannot be encoded'' [])
      | Some call \<Rightarrow>
          (case fe_simulate env call of
             Inl e \<Rightarrow> no (Msg ''eth_call reverted'' [AMsg e])
           | Inr gas \<Rightarrow> \<lparr>si_ok = True, si_reason = Msg ''eth_call ok'' [], si_gas = Some gas, si_profit = None\<rparr>))"

definition sim_key :: "route_candidate \<Rightarrow> string" where
  "sim_key c = rt_pair c @ ''|'' @ vr_name (rt_buy c) @ ''->'' @ vr_name (rt_sell c)"

definition simulate_loan ::
  "flash_env \<Rightarrow> engine_ctx \<Rightarrow> route_candidate \<Rightarrow> execution_quote \<Rightarrow> execution_quote \<Rightarrow> (string, simulation) dict \<Rightarrow>
   bool \<times> (string, simulation) dict" where
  "simulate_loan env cx c bq sq sims =
     (let (ok, why) = (case eq_chain bq of None \<Rightarrow> (False, Msg ''no chain'' []) | Some ch \<Rightarrow> available_on env cx ch);
          r = (if \<not> ok then \<lparr>si_ok = False, si_reason = why, si_gas = None, si_profit = None\<rparr>
               else if cx_mode cx \<in> {SIMULATION, PAPER} then simulate_paper cx bq sq
               else simulate_onchain env cx c bq sq)
      in (si_ok r, AList.update (sim_key c) r sims))"

subsection \<open>The trade\<close>

definition loan_trade :: "flash_env \<Rightarrow> engine_ctx \<Rightarrow> opportunity \<Rightarrow> trade_record" where
  "loan_trade env cx opp =
     tr_log (fe_now_ms env) ''start'' [AStr (fe_trigger env)]
       \<lparr>tr_id = fe_trade_id env, tr_mode = cx_mode cx, tr_strategy = FLASH_LOAN,
        tr_opportunity_id = op_id opp, tr_pair = op_pair opp,
        tr_route = eq_venue (op_buy opp) @ '' -> '' @ eq_venue (op_sell opp), tr_size_base = op_size_base opp,
        tr_status = PENDING, tr_estimated_gross = pa_gross_profit (op_profit opp),
        tr_estimated_net = pa_expected_net_profit (op_profit opp),
        tr_estimated_worst_case = pa_worst_case_profit (op_profit opp),
        tr_estimated_costs = Some (pa_expected_costs (op_profit opp)),
        tr_buy = None, tr_sell = None, tr_hedge = None, tr_actual_gross = None, tr_actual_fees = None,
        tr_actual_gas = None, tr_actual_net = None, tr_prediction_error = None,
        tr_explanation = Msg [] [], tr_started_at_ms = fe_now_ms env, tr_completed_at_ms = None, tr_events = []\<rparr>"

definition loan_abort :: "flash_env \<Rightarrow> message \<Rightarrow> trade_record \<Rightarrow> trade_record" where
  "loan_abort env why tr =
     tr_log (fe_now_ms env) ''abort'' [AMsg why]
       (tr\<lparr>tr_status := ABORTED, tr_explanation := Msg ''Aborted before broadcast because'' [AMsg why],
           tr_completed_at_ms := Some (fe_now_ms env)\<rparr>)"

definition loan_request :: "opportunity \<Rightarrow> order_side \<Rightarrow> order_request" where
  "loan_request fresh side =
     (let q = (if side = BUY then op_buy fresh else op_sell fresh) in
      \<lparr>or_venue = eq_venue q, or_symbol = op_pair fresh, or_side = side, or_amount = op_size_base fresh,
       or_limit_price = Some (eq_avg_price q), or_time_in_force = ''IOC'',
       or_client_order_id = (if side = BUY then ''buy'' else ''sell''), or_min_received = None, or_max_gas_usd = None,
       or_quote_id = None, or_deadline_ms = None, or_reduce_only = False, or_extra_quoted_price = Some (eq_avg_price q)\<rparr>)"

definition loan_leg :: "flash_env \<Rightarrow> opportunity \<Rightarrow> order_side \<Rightarrow> order_status \<Rightarrow> string \<Rightarrow> order_result" where
  "loan_leg env fresh side st hash = (new_result (loan_request fresh side) (fe_order_id env) st (fe_now_ms env))\<lparr>res_tx_hash := Some hash\<rparr>"

definition filled_loan_leg :: "flash_env \<Rightarrow> opportunity \<Rightarrow> order_side \<Rightarrow> string \<Rightarrow> order_result" where
  "filled_loan_leg env fresh side hash =
     (loan_leg env fresh side FILLED hash)\<lparr>res_filled := op_size_base fresh,
       res_avg_price := Some (eq_avg_price (if side = BUY then op_buy fresh else op_sell fresh))\<rparr>"

definition paper_leg_fill :: "flash_env \<Rightarrow> opportunity \<Rightarrow> order_side \<Rightarrow> string \<Rightarrow> decimal \<Rightarrow> decimal option \<Rightarrow> fill" where
  "paper_leg_fill env fresh side quote fee gas =
     (let q = (if side = BUY then op_buy fresh else op_sell fresh) in
      \<lparr>fl_order_id = fe_order_id env, fl_venue = eq_venue q, fl_symbol = op_pair fresh, fl_side = side,
       fl_amount = op_size_base fresh, fl_price = eq_avg_price q, fl_fee_amount = fee, fl_fee_asset = quote,
       fl_ts_ms = fe_now_ms env, fl_trade_id = None, fl_tx_hash = None, fl_gas_used = None, fl_gas_cost_usd = gas\<rparr>)"

definition settle_ledger :: "flash_env \<Rightarrow> opportunity \<Rightarrow> string \<Rightarrow> decimal \<Rightarrow> decimal \<Rightarrow> engine_ctx \<Rightarrow> engine_ctx" where
  \<comment> \<open>the profit to the chain's account, the gas out of its native token when that has a price\<close>
  "settle_ledger env fresh quote profit gas_usd cx =
     (case (cx_ledger cx, eq_chain (op_buy fresh)) of
        (Some l, Some ch) \<Rightarrow>
          let l1 = fst (ledger_adjust l (chain_value ch) quote profit True) in
          cx\<lparr>cx_ledger := Some (case fe_price_usd env (native_token ch) of
               None \<Rightarrow> l1
             | Some px \<Rightarrow> if px = 0 then l1 else charge_gas l1 (chain_value ch) (native_token ch) (ddiv gas_usd px))\<rparr>
      | _ \<Rightarrow> cx)"

definition settle_paper :: "flash_env \<Rightarrow> opportunity \<Rightarrow> engine_ctx \<times> trade_record \<Rightarrow> (engine_ctx \<times> trade_record) result" where
  "settle_paper env fresh = (\<lambda>(cx, tr).
     bind_result (split_pair (op_pair fresh)) (\<lambda>(base, quote).
       let loan = eq_quote_amount (op_buy fresh); fee = loan_fee loan; profit = loan_profit (op_buy fresh) (op_sell fresh);
           gas_usd = (case op_gas fresh of None \<Rightarrow> 0 | Some g \<Rightarrow> ga_expected_gas_cost_usd g);
           hash = ''paper-flash-'' @ tr_id tr;
           b = (filled_loan_leg env fresh BUY hash)\<lparr>res_fee_quote := fee, res_gas_cost_usd := gas_usd,
                  res_fills := [paper_leg_fill env fresh BUY quote fee (Some gas_usd)]\<rparr>;
           s = (filled_loan_leg env fresh SELL hash)\<lparr>res_fills := [paper_leg_fill env fresh SELL quote 0 None]\<rparr>
       in Inr (settle_ledger env fresh quote profit gas_usd cx,
               tr_log (fe_now_ms env) ''paper_atomic_settled'' [ADec loan, ADec fee, ADec profit, ADec gas_usd]
                 (tr\<lparr>tr_buy := Some b, tr_sell := Some s, tr_status := T_FILLED\<rparr>))))"

subsection \<open>Broadcast\<close>

definition loan_fees :: "gas_settings \<Rightarrow> int \<Rightarrow> int option \<Rightarrow> int \<times> int" where
  \<comment> \<open>the maximal fee and the priority fee in wei\<close>
  "loan_fees g base reward =
     (let priority = min (trunc_int (dmul (gas_max_priority_fee_gwei g) (10 ^ 9))) (case reward of None \<Rightarrow> 10 ^ 9 | Some r \<Rightarrow> r)
      in (base * 2 + priority, priority))"

definition loan_gas_limit :: "int \<Rightarrow> int" where
  "loan_gas_limit gas = trunc_int (fround (of_int gas * fround (115 / 100)))"

definition book_receipt :: "flash_env \<Rightarrow> opportunity \<Rightarrow> chain \<Rightarrow> int \<Rightarrow> receipt \<Rightarrow> engine_ctx \<times> trade_record \<Rightarrow> engine_ctx \<times> trade_record" where
  \<comment> \<open>what a mined transaction is booked as\<close>
  "book_receipt env fresh ch max_fee rc = (\<lambda>(cx, tr).
     let price = (case rc_gas_price rc of None \<Rightarrow> max_fee | Some p \<Rightarrow> p);
         px = (case fe_price_usd env (native_token ch) of None \<Rightarrow> 0 | Some p \<Rightarrow> p);
         gas_usd = dmul (ddiv (of_int (rc_gas_used rc * price)) (10 ^ 18)) px
     in if rc_status rc \<noteq> 1
        then (cx\<lparr>cx_breakers := fst (trip (cx_breakers cx) FLASH_LOAN_FAILURE
                   (Msg ''flash-loan tx reverted'' [AStr (chain_value ch), AStr (fe_hash env), ADec gas_usd])
                   ''strategy:flash_loan'' True (fe_now_ms env)),
                 cx_failed_trades_last_hour := cx_failed_trades_last_hour cx + 1\<rparr>,
              tr\<lparr>tr_status := T_FAILED, tr_explanation := Msg ''Transaction reverted on-chain'' [ADec gas_usd],
                 tr_buy := Some ((loan_leg env fresh BUY FAILED (fe_hash env))\<lparr>res_gas_cost_usd := gas_usd, res_error := Some (Msg ''reverted'' [])\<rparr>),
                 tr_sell := Some ((loan_leg env fresh SELL FAILED (fe_hash env))\<lparr>res_error := Some (Msg ''reverted'' [])\<rparr>)\<rparr>)
        else (cx, tr\<lparr>tr_buy := Some ((filled_loan_leg env fresh BUY (fe_hash env))
                       \<lparr>res_fee_quote := loan_fee (eq_quote_amount (op_buy fresh)), res_gas_cost_usd := gas_usd\<rparr>),
                     tr_sell := Some (filled_loan_leg env fresh SELL (fe_hash env)), tr_status := T_FILLED\<rparr>))"

type_synonym loan_state = "engine_ctx \<times> loan_tx list"

definition broadcast ::
  "flash_env \<Rightarrow> opportunity \<Rightarrow> route_candidate \<Rightarrow> loan_state \<times> trade_record \<Rightarrow> loan_state \<times> (message + trade_record)" where
  "broadcast env fresh c = (\<lambda>((cx, sent), tr).
     let s = cx_settings cx;
         drop = (\<lambda>why. ((cx, sent), Inr (tr\<lparr>tr_status := ABORTED, tr_explanation := why\<rparr>)))
     in case eq_chain (op_buy fresh) of
          None \<Rightarrow> ((cx, sent), Inl (Msg ''AttributeError'' []))
        | Some ch \<Rightarrow>
     if \<not> fe_wallet env then drop (Msg ''Aborted: no EVM bot wallet'' [])
     else if \<not> fe_contract env ch then ((cx, sent), Inl (py_msg TypeError))
     else case build_params env cx c (op_buy fresh) (op_sell fresh) of
          None \<Rightarrow> drop (Msg ''Aborted: route cannot be encoded for the contract'' [])
        | Some call \<Rightarrow>
            (case fe_call env call of
               Inl e \<Rightarrow> ((cx, sent), Inr (tr_log (fe_now_ms env) ''abort_pre_broadcast'' [AMsg e]
                   (tr\<lparr>tr_status := ABORTED, tr_explanation := Msg ''Aborted before broadcast: final simulation reverted'' [AMsg e]\<rparr>)))
             | Inr gas \<Rightarrow>
                 (case fe_fees env of
                    Inl e \<Rightarrow> ((cx, sent), Inl e)
                  | Inr (base, reward) \<Rightarrow>
                      let (max_fee, priority) = loan_fees (s_gas s) base reward in
                      if gas_max_gas_price_gwei (s_gas s) < ddiv (of_int max_fee) (10 ^ 9)
                      then drop (Msg ''Aborted before broadcast: gas price above the configured maximum'' [])
                      else
                        let private = (fe_private_rpc env \<and> mev_enabled (s_mev s) \<and> mev_evm_private_submission (s_mev s) \<and> ch = ETHEREUM);
                            tx = \<lparr>lt_call = call, lt_gas = loan_gas_limit gas, lt_max_fee = max_fee, lt_priority = priority,
                                  lt_private = private\<rparr>;
                            st = (cx, sent @ [tx])
                        in (case fe_send env tx of
                              Some e \<Rightarrow> (st, Inl e)
                            | None \<Rightarrow>
                                (case fe_receipt env of
                                   Inl e \<Rightarrow> (st, Inl e)
                                 | Inr rc \<Rightarrow>
                                     (case book_receipt env fresh ch max_fee rc
                                        (cx, tr_log (fe_now_ms env) ''broadcast'' [AStr (fe_hash env)] tr) of
                                        (cx1, tr1) \<Rightarrow> ((cx1, sent @ [tx]), Inr tr1)))))))"

subsection \<open>Execution\<close>

definition account_loan :: "flash_env \<Rightarrow> opportunity \<Rightarrow> engine_ctx \<times> trade_record \<Rightarrow> engine_ctx \<times> (message + trade_record)" where
  "account_loan env fresh = (\<lambda>(cx, tr).
     let px = (case fe_price_usd env (op_quote fresh) of None \<Rightarrow> 1 | Some p \<Rightarrow> if p = 0 then 1 else p) in
     case compute_outcome tr px (tr_estimated_costs tr) of
       Inl e \<Rightarrow> (cx, Inl (py_msg e))
     | Inr out \<Rightarrow>
         let tr1 = apply_outcome out tr;
             tr2 = (if tr_status tr1 = T_FILLED then tr1\<lparr>tr_explanation := Msg ''Atomic flash-loan arbitrage executed''
                       [ADec (tr_estimated_net tr1), ADec (to_actual_net out), ADec (to_gas out)]\<rparr> else tr1)
         in (cx\<lparr>cx_daily_pnl_usd := dadd (cx_daily_pnl_usd cx) (to_actual_net out)\<rparr>, Inr tr2))"

definition close_loan :: "flash_env \<Rightarrow> loan_state \<times> (message + trade_record) \<Rightarrow> loan_state \<times> (message + trade_record)" where
  \<comment> \<open>the \<open>finally\<close> block\<close>
  "close_loan env = (\<lambda>((cx, sent), r).
     ((cx\<lparr>cx_open_trade_ids := id_discard (fe_trade_id env) (cx_open_trade_ids cx)\<rparr>, sent),
      map_sum id (\<lambda>tr. tr\<lparr>tr_completed_at_ms := Some (fe_now_ms env)\<rparr>) r))"

definition run_loan ::
  "flash_env \<Rightarrow> opportunity \<Rightarrow> route_candidate \<Rightarrow> loan_state \<times> trade_record \<Rightarrow> loan_state \<times> (message + trade_record)" where
  \<comment> \<open>the body of the \<open>try\<close>\<close>
  "run_loan env fresh c = (\<lambda>((cx, sent), tr).
     let (st, r) =
       (if cx_mode cx \<in> {SIMULATION, PAPER}
        then (case settle_paper env fresh (cx, tr) of
                Inl e \<Rightarrow> ((cx, sent), Inl (py_msg e))
              | Inr (cx1, tr1) \<Rightarrow> ((cx1, sent), Inr tr1))
        else broadcast env fresh c ((cx, sent), tr))
     in case r of
          Inl e \<Rightarrow> (st, Inl e)
        | Inr tr1 \<Rightarrow> (case account_loan env fresh (fst st, tr1) of (cx2, r2) \<Rightarrow> ((cx2, snd st), r2)))"

definition execute_loan ::
  "flash_env \<Rightarrow> market_view \<Rightarrow> opportunity \<Rightarrow> loan_state \<Rightarrow> loan_state \<times> (message + trade_record)" where
  "execute_loan env mv opp = (\<lambda>(cx, sent).
     let tr = loan_trade env cx opp; abort = (\<lambda>why. ((cx, sent), Inr (loan_abort env why tr))) in
     if cx_emergency_stop cx then abort (Msg ''EMERGENCY STOP is active'' [])
     else if \<not> fls_enabled (s_flash_loan (cx_settings cx)) then abort (Msg ''flash loans are disabled'' [])
     else case candidate_for cx opp of
       None \<Rightarrow> abort (Msg ''venue no longer available'' [])
     | Some c \<Rightarrow>
         (case evaluate mv cx c (Some (op_size_base opp)) of
            Inl e \<Rightarrow> ((cx, sent), Inl (py_msg e))
          | Inr (None, _) \<Rightarrow> abort (Msg ''route no longer profitable after quote refresh'' [AMsg (Msg ''could not re-quote'' [])])
          | Inr (Some fresh, _) \<Rightarrow>
              if op_decision fresh \<noteq> SAFE_TO_EXECUTE
              then abort (Msg ''route no longer profitable after quote refresh'' (map AMsg (take 3 (op_block_reasons fresh))))
              else
                let tr1 = tr\<lparr>tr_estimated_gross := pa_gross_profit (op_profit fresh),
                      tr_estimated_net := pa_expected_net_profit (op_profit fresh),
                      tr_estimated_worst_case := pa_worst_case_profit (op_profit fresh),
                      tr_estimated_costs := Some (pa_expected_costs (op_profit fresh)), tr_status := EXECUTING\<rparr>;
                    cx1 = cx\<lparr>cx_open_trade_ids := id_add (fe_trade_id env) (cx_open_trade_ids cx)\<rparr>
                in close_loan env (run_loan env fresh c ((cx1, sent), tr1))))"

subsection \<open>What a broadcast sends\<close>

definition sendable :: "flash_env \<Rightarrow> engine_ctx \<Rightarrow> route_candidate \<Rightarrow> opportunity \<Rightarrow> loan_tx \<Rightarrow> bool" where
  \<comment> \<open>the transaction carries the encoded route, whose last simulation passed, within the gas price limit\<close>
  "sendable env cx c fresh tx \<longleftrightarrow> fe_wallet env \<and> build_params env cx c (op_buy fresh) (op_sell fresh) = Some (lt_call tx) \<and>
     (\<exists>gas. fe_call env (lt_call tx) = Inr gas \<and> lt_gas tx = loan_gas_limit gas) \<and>
     ddiv (of_int (lt_max_fee tx)) (10 ^ 9) \<le> gas_max_gas_price_gwei (s_gas (cx_settings cx)) \<and>
     in_units (gas_max_priority_fee_gwei (s_gas (cx_settings cx))) 9 \<ge> lt_priority tx"

lemma sendable_open_ids [simp]: "sendable env (cx\<lparr>cx_open_trade_ids := x\<rparr>) = sendable env cx"
  by (intro ext) (simp add: sendable_def build_params_def)

lemma loan_fees_priority: "loan_fees g base reward = (m, p) \<Longrightarrow> p \<le> in_units (gas_max_priority_fee_gwei g) 9"
  by (auto simp: loan_fees_def in_units_def Let_def)

lemma broadcast_cases:
  assumes "broadcast env fresh c ((cx, sent), tr) = ((cx', sent'), r)"
  shows "(sent' = sent \<and> cx' = cx \<and> (\<forall>tr'. r = Inr tr' \<longrightarrow> tr_status tr' = ABORTED \<and> tr_buy tr' = tr_buy tr \<and> tr_sell tr' = tr_sell tr)) \<or>
    (\<exists>tx. sendable env cx c fresh tx \<and> sent' = sent @ [tx] \<and> (cx' = cx \<and> (\<exists>e. r = Inl e) \<or>
      (\<exists>rc ch tr'. fe_receipt env = Inr rc \<and> r = Inr tr' \<and>
        book_receipt env fresh ch (lt_max_fee tx) rc (cx, tr_log (fe_now_ms env) ''broadcast'' [AStr (fe_hash env)] tr) = (cx', tr'))))"
proof (cases "fe_wallet env \<and> (\<exists>ch call gas base reward. eq_chain (op_buy fresh) = Some ch \<and> fe_contract env ch \<and> build_params env cx c (op_buy fresh) (op_sell fresh) = Some call \<and>
      fe_call env call = Inr gas \<and> fe_fees env = Inr (base, reward) \<and>
      \<not> gas_max_gas_price_gwei (s_gas (cx_settings cx)) < ddiv (of_int (fst (loan_fees (s_gas (cx_settings cx)) base reward))) (10 ^ 9))")
  case False
  then have "sent' = sent \<and> cx' = cx \<and> (\<forall>tr'. r = Inr tr' \<longrightarrow> tr_status tr' = ABORTED \<and> tr_buy tr' = tr_buy tr \<and> tr_sell tr' = tr_sell tr)"
    using assms by (auto simp: broadcast_def Let_def tr_log_def split: option.splits sum.splits prod.splits if_splits)
  then show ?thesis by blast
next
  case True
  then obtain ch call gas base reward mf pr where b: "fe_wallet env" "eq_chain (op_buy fresh) = Some ch" "fe_contract env ch" "build_params env cx c (op_buy fresh) (op_sell fresh) = Some call"
    "fe_call env call = Inr gas" "fe_fees env = Inr (base, reward)" "loan_fees (s_gas (cx_settings cx)) base reward = (mf, pr)"
    "\<not> gas_max_gas_price_gwei (s_gas (cx_settings cx)) < ddiv (of_int mf) (10 ^ 9)" by (metis fst_conv prod.exhaust)
  define tx where "tx = \<lparr>lt_call = call, lt_gas = loan_gas_limit gas, lt_max_fee = mf, lt_priority = pr,
    lt_private = (fe_private_rpc env \<and> mev_enabled (s_mev (cx_settings cx)) \<and> mev_evm_private_submission (s_mev (cx_settings cx))
      \<and> ch = ETHEREUM)\<rparr>"
  have s: "sendable env cx c fresh tx"
    using b loan_fees_priority [OF b(7)] by (simp add: sendable_def tx_def not_less)
  have l: "lt_max_fee tx = mf" by (simp add: tx_def)
  have "sent' = sent @ [tx] \<and> (cx' = cx \<and> (\<exists>e. r = Inl e) \<or>
    (\<exists>rc ch tr'. fe_receipt env = Inr rc \<and> r = Inr tr' \<and>
      book_receipt env fresh ch mf rc (cx, tr_log (fe_now_ms env) ''broadcast'' [AStr (fe_hash env)] tr) = (cx', tr')))"
    using assms b unfolding tx_def
    by (auto simp: broadcast_def Let_def split: option.splits sum.splits prod.splits)
  with s l show ?thesis by metis
qed

lemma account_loan_cases:
  assumes "account_loan env fresh (cx, tr) = (cx', r)"
  shows "\<exists>d. cx' = cx\<lparr>cx_daily_pnl_usd := d\<rparr>"
proof (cases "compute_outcome tr (case fe_price_usd env (op_quote fresh) of None \<Rightarrow> 1 | Some p \<Rightarrow> if p = 0 then 1 else p)
    (tr_estimated_costs tr)")
  case (Inl e)
  then have "cx' = cx\<lparr>cx_daily_pnl_usd := cx_daily_pnl_usd cx\<rparr>" using assms by (simp add: account_loan_def Let_def)
  then show ?thesis ..
next
  case (Inr out)
  then show ?thesis using assms by (auto simp: account_loan_def Let_def)
qed

lemma run_loan_sends:
  assumes "run_loan env fresh c ((cx, sent), tr) = ((cx', sent'), r)"
  shows "sent' = sent \<or> (\<exists>tx. sent' = sent @ [tx] \<and> sendable env cx c fresh tx \<and> cx_mode cx \<notin> {SIMULATION, PAPER})"
proof (cases "cx_mode cx \<in> {SIMULATION, PAPER}")
  case True
  then show ?thesis using assms by (auto simp: run_loan_def Let_def split: sum.splits prod.splits)
next
  case False
  obtain cx1 sent1 r1 where b: "broadcast env fresh c ((cx, sent), tr) = ((cx1, sent1), r1)" by (metis prod.exhaust)
  then have "sent' = sent1" using assms False by (auto simp: run_loan_def Let_def split: sum.splits prod.splits)
  then show ?thesis using False broadcast_cases [OF b] by blast
qed

lemma close_loan_sends: "close_loan env ((cx, sent), r) = ((cx', sent'), r') \<Longrightarrow> sent' = sent"
  by (auto simp: close_loan_def)

lemma execute_loan_runs:
  assumes "execute_loan env mv opp (cx, sent) = ((cx', sent'), r)"
  obtains (stopped) "cx' = cx" "sent' = sent"
  | (ran) c fresh bl tr1 where "\<not> cx_emergency_stop cx" "fls_enabled (s_flash_loan (cx_settings cx))" "candidate_for cx opp = Some c"
      "evaluate mv cx c (Some (op_size_base opp)) = Inr (Some fresh, bl)" "op_decision fresh = SAFE_TO_EXECUTE"
      "tr_buy tr1 = None" "tr_sell tr1 = None" "tr_hedge tr1 = None" "tr_events tr1 \<noteq> []" "tr_status tr1 = EXECUTING" "tr_id tr1 = fe_trade_id env"
      "close_loan env (run_loan env fresh c ((cx\<lparr>cx_open_trade_ids := id_add (fe_trade_id env) (cx_open_trade_ids cx)\<rparr>, sent), tr1))
         = ((cx', sent'), r)"
proof -
  let ?tr = "loan_trade env cx opp"
  have abort: thesis if "((cx, sent), Inr (loan_abort env why ?tr)) = ((cx', sent'), r)" for why
    using that stopped by simp
  show thesis
  proof (cases "cx_emergency_stop cx \<or> \<not> fls_enabled (s_flash_loan (cx_settings cx)) \<or> candidate_for cx opp = None")
    case True
    then show thesis using assms abort by (auto simp: execute_loan_def Let_def split: if_splits)
  next
    case False
    then obtain c where c: "\<not> cx_emergency_stop cx" "fls_enabled (s_flash_loan (cx_settings cx))" "candidate_for cx opp = Some c" by auto
    show thesis
    proof (cases "\<exists>fresh bl. evaluate mv cx c (Some (op_size_base opp)) = Inr (Some fresh, bl) \<and> op_decision fresh = SAFE_TO_EXECUTE")
      case False
      then have "cx' = cx \<and> sent' = sent"
        using assms c by (auto simp: execute_loan_def Let_def split: if_splits option.splits sum.splits prod.splits)
      with stopped show thesis by blast
    next
      case True
      then obtain fresh bl where e: "evaluate mv cx c (Some (op_size_base opp)) = Inr (Some fresh, bl)" "op_decision fresh = SAFE_TO_EXECUTE"
        by blast
      define tr1 where "tr1 = ?tr\<lparr>tr_estimated_gross := pa_gross_profit (op_profit fresh),
        tr_estimated_net := pa_expected_net_profit (op_profit fresh),
        tr_estimated_worst_case := pa_worst_case_profit (op_profit fresh),
        tr_estimated_costs := Some (pa_expected_costs (op_profit fresh)), tr_status := EXECUTING\<rparr>"
      have t: "tr_buy tr1 = None" "tr_sell tr1 = None" "tr_hedge tr1 = None" "tr_events tr1 \<noteq> []" "tr_status tr1 = EXECUTING"
          "tr_id tr1 = fe_trade_id env"
        by (simp_all add: tr1_def loan_trade_def tr_log_def)
      have "close_loan env (run_loan env fresh c ((cx\<lparr>cx_open_trade_ids := id_add (fe_trade_id env) (cx_open_trade_ids cx)\<rparr>, sent), tr1))
         = ((cx', sent'), r)"
        using assms c e by (simp add: execute_loan_def Let_def tr1_def)
      from ran [OF c e t this] show thesis .
    qed
  qed
qed


lemma run_loan_booked:
  assumes "run_loan env fresh c ((cx, sent), tr) = ((cx', sent @ [tx]), r)"
  shows "(cx' = cx \<and> (\<exists>e. r = Inl e)) \<or> (\<exists>rc ch cx1 tr1. fe_receipt env = Inr rc \<and>
    book_receipt env fresh ch (lt_max_fee tx) rc (cx, tr_log (fe_now_ms env) ''broadcast'' [AStr (fe_hash env)] tr) = (cx1, tr1) \<and>
    account_loan env fresh (cx1, tr1) = (cx', r))"
proof (cases "cx_mode cx \<in> {SIMULATION, PAPER}")
  case True
  then show ?thesis using assms by (auto simp: run_loan_def Let_def split: sum.splits prod.splits)
next
  case False
  obtain cx1 sent1 r1 where b: "broadcast env fresh c ((cx, sent), tr) = ((cx1, sent1), r1)" by (metis prod.exhaust)
  then have s: "sent1 = sent @ [tx]" using assms False by (auto simp: run_loan_def Let_def split: sum.splits prod.splits)
  from broadcast_cases [OF b] s show ?thesis
  proof (elim disjE exE conjE)
    fix tx0 e
    assume "cx1 = cx" "r1 = Inl e"
    then show ?thesis using assms False b by (auto simp: run_loan_def Let_def)
  next
    fix tx0 rc ch tr'
    assume "sent1 = sent @ [tx0]" "fe_receipt env = Inr rc" "r1 = Inr tr'"
      "book_receipt env fresh ch (lt_max_fee tx0) rc (cx, tr_log (fe_now_ms env) ''broadcast'' [AStr (fe_hash env)] tr) = (cx1, tr')"
    moreover from this(3) have "account_loan env fresh (cx1, tr') = (cx', r)"
      using assms False b by (auto simp: run_loan_def Let_def split: prod.splits)
    ultimately show ?thesis using s by auto
  qed simp
qed

lemma unfilled_legs_outcome:
  assumes "tr_buy tr = Some b" "tr_sell tr = Some s" "tr_hedge tr = None" "tr_events tr \<noteq> []" "tr_status tr = T_FILLED"
    and "res_fills b = []" "res_fills s = []" "res_filled b = res_filled s" "res_fee_quote s = 0" "res_gas_cost_usd s = 0"
    and "account_loan env fresh (cx, tr) = (cx', r)"
  obtains tr' fees gas net where "r = Inr tr'" "tr_status tr' = T_FILLED" "tr_actual_gross tr' = Some 0" "tr_actual_fees tr' = Some fees"
    "tr_actual_gas tr' = Some gas" "tr_actual_net tr' = Some net" "net = dsub (dsub (dsub 0 fees) gas) 0"
    "cx_daily_pnl_usd cx' = dadd (cx_daily_pnl_usd cx) net"
proof -
  define px where "px = (case fe_price_usd env (op_quote fresh) of None \<Rightarrow> 1 | Some p \<Rightarrow> if p = 0 then 1 else p)"
  obtain out where o: "compute_outcome tr px (tr_estimated_costs tr) = Inr out" and
    v: "to_actual_gross out = 0" "to_actual_net out = dsub (dsub (dsub 0 (to_trading_fees out)) (to_gas out)) 0" "to_unmatched_base out = 0"
    using assms(1-10)
    by (auto simp: compute_outcome_def leg_value_def hedge_sells_def Let_def res_quote_amount_def dsum_def dsub_def dmul_def dabs_def)
  have "r = Inr ((apply_outcome out tr)\<lparr>tr_explanation := Msg ''Atomic flash-loan arbitrage executed''
      [ADec (tr_estimated_net tr), ADec (to_actual_net out), ADec (to_gas out)]\<rparr>)"
    "cx' = cx\<lparr>cx_daily_pnl_usd := dadd (cx_daily_pnl_usd cx) (to_actual_net out)\<rparr>"
    using assms(5,11) o v(3) by (auto simp: account_loan_def Let_def px_def [symmetric] apply_outcome_def)
  then show thesis using that assms(5) v by (simp add: apply_outcome_def)
qed

text \<open>A flash loan that succeeds on the chain is booked as a loss: when the transaction is mined and did not
  revert, the trade is filled with a gross result of exactly zero, whatever the route earned, so the
  net result that is added to the result of the day is minus the fee and the gas.\<close>

theorem mined_loan_booked_as_loss:
  assumes "run_loan env fresh c ((cx, sent), tr0) = ((cx', sent @ [tx]), Inr tr)" and "tr_hedge tr0 = None"
    and "fe_receipt env = Inr rc" and "rc_status rc = 1"
  shows "tr_status tr = T_FILLED \<and> tr_actual_gross tr = Some 0 \<and>
    (\<exists>fees gas net. tr_actual_fees tr = Some fees \<and> tr_actual_gas tr = Some gas \<and> tr_actual_net tr = Some net \<and>
      net = dsub (dsub (dsub 0 fees) gas) 0 \<and> cx_daily_pnl_usd cx' = dadd (cx_daily_pnl_usd cx) net)"
proof -
  from run_loan_booked [OF assms(1)] obtain rc' ch cx4 tr4 where b: "fe_receipt env = Inr rc'"
    "book_receipt env fresh ch (lt_max_fee tx) rc' (cx, tr_log (fe_now_ms env) ''broadcast'' [AStr (fe_hash env)] tr0) = (cx4, tr4)"
    "account_loan env fresh (cx4, tr4) = (cx', Inr tr)" by auto
  have rc: "rc' = rc" using b(1) assms(3) by simp
  obtain bl0 sl0 where l: "tr_buy tr4 = Some bl0" "tr_sell tr4 = Some sl0" "tr_hedge tr4 = None" "tr_events tr4 \<noteq> []" "tr_status tr4 = T_FILLED"
    "res_fills bl0 = []" "res_fills sl0 = []" "res_filled bl0 = res_filled sl0" "res_fee_quote sl0 = 0" "res_gas_cost_usd sl0 = 0"
    and c4: "cx4 = cx"
    using b(2) assms(2,4) by (auto simp: book_receipt_def Let_def rc tr_log_def filled_loan_leg_def loan_leg_def new_result_def)
  show ?thesis
    by (rule unfilled_legs_outcome [OF l b(3)]) (use c4 in auto)
qed

text \<open>A transaction whose receipt does not arrive is forgotten: when the transaction was sent but waiting for
  its receipt fails, the execution ends in an exception and the context is as it was before (no trade
  is recorded, no breaker trips, the identifier of the trade is no longer open).\<close>

theorem lost_receipt_forgotten:
  assumes "close_loan env (run_loan env fresh c ((cx\<lparr>cx_open_trade_ids := id_add (fe_trade_id env) (cx_open_trade_ids cx)\<rparr>, sent), tr))
      = ((cx', sent @ [tx]), r)"
    and "fe_receipt env = Inl e" and "fe_trade_id env \<notin> set (cx_open_trade_ids cx)"
  shows "(\<exists>e'. r = Inl e') \<and> cx' = cx"
proof -
  let ?cx1 = "cx\<lparr>cx_open_trade_ids := id_add (fe_trade_id env) (cx_open_trade_ids cx)\<rparr>"
  obtain cx2 sent2 r2 where run: "run_loan env fresh c ((?cx1, sent), tr) = ((cx2, sent2), r2)" by (metis prod.exhaust)
  with assms(1) have s2: "sent2 = sent @ [tx]" and r: "r = map_sum id (\<lambda>tr. tr\<lparr>tr_completed_at_ms := Some (fe_now_ms env)\<rparr>) r2"
    and c': "cx' = cx2\<lparr>cx_open_trade_ids := id_discard (fe_trade_id env) (cx_open_trade_ids cx2)\<rparr>"
    by (auto simp: close_loan_def)
  from run_loan_booked [OF run [unfolded s2]] assms(2) have "cx2 = ?cx1" "\<exists>e. r2 = Inl e" by auto
  then show ?thesis using r c' assms(3) by auto
qed

text \<open>A simulated loan settles exactly the margin of the quotes: the free quote currency on the chain changes
  by the proceeds minus the loan minus the premium of 0.05%, reserved amounts and every account but this one and
  that of the native token (which pays the gas) stay as they are, and both legs are filled with the full size.\<close>

theorem paper_loan_settles:
  assumes "settle_paper env fresh (cx, tr) = Inr (cx', tr')" and "cx_ledger cx = Some l"
    and "eq_chain (op_buy fresh) = Some ch" and "split_pair (op_pair fresh) = Inr (b, q)" and "q \<noteq> native_token ch"
  shows "\<exists>l'. cx_ledger cx' = Some l' \<and>
    acct l' (chain_value ch) q = (acct l (chain_value ch) q)
      \<lparr>bal_free := dadd (bal_free (acct l (chain_value ch) q)) (loan_profit (op_buy fresh) (op_sell fresh))\<rparr> \<and>
    (\<forall>v a. (v, a) \<notin> {(chain_value ch, q), (chain_value ch, native_token ch)} \<longrightarrow> acct l' v a = acct l v a) \<and>
    tr_status tr' = T_FILLED \<and> map_option res_filled (tr_buy tr') = Some (op_size_base fresh) \<and>
    map_option res_filled (tr_sell tr') = Some (op_size_base fresh)"
proof -
  let ?l1 = "fst (ledger_adjust l (chain_value ch) q (loan_profit (op_buy fresh) (op_sell fresh)) True)"
  have a1: "acct ?l1 v a = (if v = chain_value ch \<and> a = q then (acct l v a)
      \<lparr>bal_free := dadd (bal_free (acct l v a)) (loan_profit (op_buy fresh) (op_sell fresh))\<rparr> else acct l v a)" for v a
    by (simp add: ledger_adjust_def Let_def)
  have ac: "acct (charge_gas k v' n x) v a = (if v = v' \<and> a = n then (acct k v a)\<lparr>bal_free := dsub (bal_free (acct k v a)) x\<rparr> else acct k v a)"
    for k v' n x v a by (simp add: charge_gas_def)
  have "tr_status tr' = T_FILLED" "map_option res_filled (tr_buy tr') = Some (op_size_base fresh)"
    "map_option res_filled (tr_sell tr') = Some (op_size_base fresh)"
    and "\<exists>g. cx' = settle_ledger env fresh q (loan_profit (op_buy fresh) (op_sell fresh)) g cx"
    using assms(1,4) by (auto simp: settle_paper_def bind_result_def Let_def tr_log_def filled_loan_leg_def)
  then show ?thesis
    using assms(2,3,5) a1 ac by (auto simp: settle_ledger_def Let_def split: option.splits)
qed

text \<open>The encoded route swaps the borrowed asset for itself: in every call the engine builds, the token bought
  in the first leg and sold in the second is the asset of the loan.\<close>

theorem loan_route_has_no_intermediate:
  assumes "build_params env cx c bq sq = Some call"
  shows "lc_intermediate call = lc_asset call \<and> Some (lc_asset call) = lm_quote_address (fe_meta env c)"
  using assms by (auto simp: build_params_def present_def Let_def split: if_splits)

subsection \<open>Witnesses\<close>

definition demo_meta :: loan_meta where
  "demo_meta = \<lparr>lm_base_address = Some ''0xbase'', lm_quote_address = Some ''0xquote'', lm_router_buy = Some ''0xa'',
     lm_router_sell = Some ''0xb'', lm_quote_decimals = None, lm_base_decimals = None, lm_fee_buy = None, lm_fee_sell = None\<rparr>"

definition demo_chain :: "message + receipt \<Rightarrow> flash_env" where
  "demo_chain r = \<lparr>fe_contract = (\<lambda>_. True), fe_rpc = (\<lambda>_. True), fe_private_rpc = False, fe_wallet = True,
     fe_meta = (\<lambda>_. demo_meta), fe_simulate = (\<lambda>_. Inr 400000), fe_call = (\<lambda>_. Inr 400000), fe_fees = Inr (10 ^ 9, None),
     fe_send = (\<lambda>_. None), fe_receipt = r, fe_hash = ''0xhash'', fe_price_usd = (\<lambda>_. Some 2000), fe_now_ms = 1600,
     fe_trade_id = ''fl1'', fe_order_id = ''ord1'', fe_trigger = ''auto''\<rparr>"

definition testnet_ctx :: engine_ctx where
  "testnet_ctx = demo_ctx\<lparr>cx_settings := app_defaults\<lparr>s_general := general_defaults\<lparr>gs_mode := TESTNET\<rparr>\<rparr>\<rparr>"

definition loan_opp :: opportunity where
  "loan_opp = wit_opp\<lparr>op_buy := wit_buy\<lparr>eq_chain := Some BASE\<rparr>\<rparr>"

definition mined_ok :: receipt where
  "mined_ok = \<lparr>rc_status = 1, rc_gas_used = 300000, rc_gas_price = None\<rparr>"

lemma demo_chain_simps [simp]:
  "fe_contract (demo_chain r) ch" "fe_wallet (demo_chain r)" "fe_meta (demo_chain r) c = demo_meta"
  "fe_call (demo_chain r) k = Inr 400000" "fe_fees (demo_chain r) = Inr (10 ^ 9, None)" "fe_send (demo_chain r) tx = None"
  "fe_receipt (demo_chain r) = r" "fe_trade_id (demo_chain r) = ''fl1''" "eq_chain (op_buy loan_opp) = Some BASE"
  "cx_settings testnet_ctx = app_defaults\<lparr>s_general := general_defaults\<lparr>gs_mode := TESTNET\<rparr>\<rparr>"
  "cx_open_trade_ids testnet_ctx = []" "cx_mode testnet_ctx = TESTNET"
  by (simp_all add: demo_chain_def loan_opp_def testnet_ctx_def cx_mode_def)

lemma demo_encoded: "\<exists>call. build_params (demo_chain r) cx wit_route bq sq = Some call"
  by (simp add: build_params_def demo_meta_def present_def market_of_def demo_venue_def Let_def)

lemma demo_fees: "loan_fees gas_defaults (10 ^ 9) None = (3 * 10 ^ 9, 10 ^ 9)"
  by (simp add: loan_fees_def gas_defaults_def dec_defs dround_eval trunc_int_def)

lemma demo_broadcast:
  assumes "cx_settings cx = cx_settings testnet_ctx"
  shows "\<exists>tx. broadcast (demo_chain r) loan_opp wit_route ((cx, []), tr) =
    (case r of Inl e \<Rightarrow> ((cx, [tx]), Inl e)
     | Inr rc \<Rightarrow> (case book_receipt (demo_chain r) loan_opp BASE (3 * 10 ^ 9) rc
           (cx, tr_log (fe_now_ms (demo_chain r)) ''broadcast'' [AStr (fe_hash (demo_chain r))] tr) of
         (cx1, tr1) \<Rightarrow> ((cx1, [tx]), Inr tr1)))"
proof -
  obtain call where k: "build_params (demo_chain r) cx wit_route (op_buy loan_opp) (op_sell loan_opp) = Some call"
    using demo_encoded by blast
  have g: "s_gas (cx_settings cx) = gas_defaults" using assms by (simp add: app_defaults_def)
  have "ddiv (3 * 10 ^ 9) (10 ^ 9) = (3::decimal)" by (simp add: dec_defs dround_eval)
  then have "\<not> gas_max_gas_price_gwei gas_defaults < ddiv (of_int (3 * 10 ^ 9)) (10 ^ 9)" by (simp add: gas_defaults_def)
  then show ?thesis
    using k g demo_fees by (cases r) (auto simp: broadcast_def Let_def split: prod.splits)
qed

theorem loan_route_has_no_intermediate_witness:
  "\<exists>call. build_params (demo_chain (Inl (Msg [] []))) wit_ctx wit_route wit_buy wit_sell = Some call \<and>
     lc_intermediate call = lc_asset call \<and> lc_asset call = ''0xquote''"
proof -
  obtain call where k: "build_params (demo_chain (Inl (Msg [] []))) wit_ctx wit_route wit_buy wit_sell = Some call"
    using demo_encoded by blast
  from loan_route_has_no_intermediate [OF k] k show ?thesis by (simp add: demo_meta_def)
qed

theorem lost_receipt_forgotten_witness:
  "\<exists>tx e. close_loan (demo_chain (Inl (Msg ''timeout'' []))) (run_loan (demo_chain (Inl (Msg ''timeout'' []))) loan_opp wit_route
      ((testnet_ctx\<lparr>cx_open_trade_ids := [''fl1'']\<rparr>, []), loan_trade (demo_chain (Inl (Msg ''timeout'' []))) testnet_ctx wit_opp)) =
    ((testnet_ctx, [tx]), Inl e)"
proof -
  let ?e = "demo_chain (Inl (Msg ''timeout'' []))" and ?cx = "testnet_ctx\<lparr>cx_open_trade_ids := [''fl1'']\<rparr>"
  let ?tr = "loan_trade ?e testnet_ctx wit_opp"
  obtain tx where "broadcast ?e loan_opp wit_route ((?cx, []), ?tr) = ((?cx, [tx]), Inl (Msg ''timeout'' []))"
    using demo_broadcast [of ?cx "Inl (Msg ''timeout'' [])" ?tr] by auto
  then have run: "run_loan ?e loan_opp wit_route ((?cx, []), ?tr) = ((?cx, [tx]), Inl (Msg ''timeout'' []))"
    by (simp add: run_loan_def cx_mode_def)
  obtain cx' r where c: "close_loan ?e (run_loan ?e loan_opp wit_route ((?cx, []), ?tr)) = ((cx', [tx]), r)"
    unfolding run by (simp add: close_loan_def)
  have "id_add (fe_trade_id ?e) (cx_open_trade_ids testnet_ctx) = [''fl1'']" by (simp add: id_add_def)
  with lost_receipt_forgotten [of ?e loan_opp wit_route testnet_ctx "[]" ?tr cx' tx r] c show ?thesis by auto
qed

lemma account_loan_returns:
  assumes "tr_events tr \<noteq> []"
  shows "\<exists>cx' tr'. account_loan env fresh (cx, tr) = (cx', Inr tr')"
proof -
  have "\<exists>out. compute_outcome tr px est = Inr out" for px est
    using assms by (simp add: compute_outcome_def Let_def split_beta)
  then obtain out where "compute_outcome tr (case fe_price_usd env (op_quote fresh) of None \<Rightarrow> 1 | Some p \<Rightarrow> if p = 0 then 1 else p)
    (tr_estimated_costs tr) = Inr out" by blast
  then show ?thesis by (simp add: account_loan_def Let_def)
qed

theorem mined_loan_booked_as_loss_witness:
  "\<exists>cx' tx tr. run_loan (demo_chain (Inr mined_ok)) loan_opp wit_route
      ((testnet_ctx, []), loan_trade (demo_chain (Inr mined_ok)) testnet_ctx wit_opp) = ((cx', [tx]), Inr tr) \<and>
    tr_status tr = T_FILLED \<and> tr_actual_gross tr = Some 0"
proof -
  let ?e = "demo_chain (Inr mined_ok)" and ?tr = "loan_trade (demo_chain (Inr mined_ok)) testnet_ctx wit_opp"
  have h: "tr_hedge ?tr = None" by (simp add: loan_trade_def tr_log_def)
  define b where "b = book_receipt ?e loan_opp BASE (3 * 10 ^ 9) mined_ok
    (testnet_ctx, tr_log (fe_now_ms ?e) ''broadcast'' [AStr (fe_hash ?e)] ?tr)"
  have b1: "fst b = testnet_ctx" "tr_events (snd b) \<noteq> []"
    by (simp_all add: b_def book_receipt_def mined_ok_def Let_def tr_log_def)
  obtain tx where tx: "broadcast ?e loan_opp wit_route ((testnet_ctx, []), ?tr) = ((testnet_ctx, [tx]), Inr (snd b))"
    using demo_broadcast [of testnet_ctx "Inr mined_ok" ?tr] b1(1) by (cases b) (auto simp: b_def)
  obtain cx' tr where "account_loan ?e loan_opp (testnet_ctx, snd b) = (cx', Inr tr)"
    using account_loan_returns [OF b1(2)] by metis
  with tx have run: "run_loan ?e loan_opp wit_route ((testnet_ctx, []), ?tr) = ((cx', [] @ [tx]), Inr tr)"
    by (simp add: run_loan_def)
  from mined_loan_booked_as_loss [OF run h, of mined_ok] run show ?thesis by (auto simp: mined_ok_def)
qed

theorem paper_loan_settles_witness:
  "\<exists>cx' tr' l'. settle_paper (demo_chain (Inr mined_ok)) loan_opp (demo_ctx, loan_trade (demo_chain (Inr mined_ok)) demo_ctx wit_opp) =
      Inr (cx', tr') \<and> cx_ledger cx' = Some l' \<and> acct l' ''kraken'' ''USDC'' = acct demo_ledger ''kraken'' ''USDC''"
proof -
  let ?e = "demo_chain (Inr mined_ok)" and ?tr = "loan_trade (demo_chain (Inr mined_ok)) demo_ctx wit_opp"
  have s: "split_pair (op_pair loan_opp) = Inr (''BTC'', ''USDC'')"
    by (simp add: loan_opp_def op_pair_def wit_opp_def assess_route_def Let_def split_pair_def)
  then obtain cx' tr' where r: "settle_paper ?e loan_opp (demo_ctx, ?tr) = Inr (cx', tr')"
    by (simp add: settle_paper_def bind_result_def Let_def)
  from paper_loan_settles [OF r _ _ s, of demo_ledger BASE] obtain l' where
    "cx_ledger cx' = Some l'" "\<forall>v a. (v, a) \<notin> {(chain_value BASE, ''USDC''), (chain_value BASE, native_token BASE)} \<longrightarrow> acct l' v a = acct demo_ledger v a"
    by auto
  with r show ?thesis by auto
qed


end
