(* ===== verification/Wallets.thy ===== *)
theory Wallets
  imports Domain
begin

text \<open>
  Model of the wallet manager (\<^verbatim>\<open>backend/fedr/wallets/manager.py\<close>): the table of bot and external wallets,
  the choice of a signer and the access to key material. Key generation, key parsing and the encryption box
  (\<^verbatim>\<open>eth_account\<close>, \<^verbatim>\<open>solders\<close>, AES-GCM) are arguments.
\<close>

subsection \<open>The table\<close>

record wallet =
  wa_id :: string
  wa_family :: string
  wa_address :: string
  wa_label :: string
  wa_kind :: string
  wa_provider :: "string option"
  wa_key_enc :: "string option"
  wa_backed_up :: bool
  wa_mode :: string

record wallet_info =
  wi_id :: string
  wi_family :: string
  wi_address :: string
  wi_label :: string
  wi_kind :: string
  wi_provider :: "string option"
  wi_backed_up :: bool
  wi_mode :: string

type_synonym wallets = "(string, wallet) dict"

record key_box =
  \<comment> \<open>\<open>SecretBox\<close>: a text and its associated data\<close>
  kb_encrypt :: "string \<Rightarrow> string \<Rightarrow> string"
  kb_decrypt :: "string \<Rightarrow> string \<Rightarrow> string result"

definition box_law :: "key_box \<Rightarrow> bool" where
  \<comment> \<open>what is encrypted with some associated data decrypts with the same\<close>
  "box_law b \<longleftrightarrow> (\<forall>s aad. kb_decrypt b (kb_encrypt b s aad) aad = Inr s \<and> kb_encrypt b s aad \<noteq> [])"

definition load_wallets :: "wallet list \<Rightarrow> wallets \<Rightarrow> wallets" where
  "load_wallets rows ws = foldl (\<lambda>d w. AList.update (wa_id w) w d) ws rows"

definition wallet_info_of :: "wallet \<Rightarrow> wallet_info" where
  "wallet_info_of w = \<lparr>wi_id = wa_id w, wi_family = wa_family w, wi_address = wa_address w, wi_label = wa_label w,
     wi_kind = wa_kind w, wi_provider = wa_provider w, wi_backed_up = wa_backed_up w, wi_mode = wa_mode w\<rparr>"

definition list_wallets :: "wallets \<Rightarrow> wallet_info list" where
  "list_wallets ws = map wallet_info_of (vals ws)"

definition bot_wallet :: "wallets \<Rightarrow> string \<Rightarrow> string \<Rightarrow> wallet_info option" where
  "bot_wallet ws family mode =
     (case find (\<lambda>w. wa_kind w = ''bot'' \<and> wa_family w = family \<and> wa_mode w = mode) (vals ws) of
        Some w \<Rightarrow> Some (wallet_info_of w)
      | None \<Rightarrow> map_option wallet_info_of (find (\<lambda>w. wa_kind w = ''bot'' \<and> wa_family w = family) (vals ws)))"

definition family_of :: "chain \<Rightarrow> string" where
  "family_of ch = (if ch = SOLANA then ''solana'' else ''evm'')"

definition address_for_chain :: "wallets \<Rightarrow> chain \<Rightarrow> string \<Rightarrow> string option" where
  "address_for_chain ws ch mode = map_option wi_address (bot_wallet ws (family_of ch) mode)"

subsection \<open>Creation and removal\<close>

definition store_wallet ::
  "key_box \<Rightarrow> string \<Rightarrow> string \<Rightarrow> string \<times> string \<Rightarrow> string \<Rightarrow> string \<Rightarrow> wallets \<Rightarrow> wallets \<times> wallet_info" where
  \<comment> \<open>the identifier, the family, the address with its secret, the label and the key scope\<close>
  "store_wallet b wid family = (\<lambda>(address, secret) label mode ws.
     let w = \<lparr>wa_id = wid, wa_family = family, wa_address = address, wa_label = label, wa_kind = ''bot'', wa_provider = None,
              wa_key_enc = Some (kb_encrypt b secret wid), wa_backed_up = False, wa_mode = mode\<rparr>
     in (AList.update wid w ws, wallet_info_of w))"

definition or_label :: "string option \<Rightarrow> string \<Rightarrow> string" where
  \<comment> \<open>\<open>label or default\<close>\<close>
  "or_label l d = (case l of None \<Rightarrow> d | Some x \<Rightarrow> if x = [] then d else x)"

definition create_bot_wallet ::
  "key_box \<Rightarrow> (string \<Rightarrow> string \<times> string) \<Rightarrow> string \<Rightarrow> string \<Rightarrow> string option \<Rightarrow> string \<Rightarrow> wallets \<Rightarrow>
   wallets \<times> wallet_info result" where
  "create_bot_wallet b fresh wid family label mode ws =
     (if family \<notin> {''evm'', ''solana''} then (ws, Inl ValueError)
      else case store_wallet b wid family (fresh family)
             (or_label label (if family = ''evm'' then ''Bot EVM wallet'' else ''Bot SOLANA wallet'')) mode ws of
        (ws', i) \<Rightarrow> (ws', Inr i))"

definition import_bot_wallet ::
  "key_box \<Rightarrow> (string \<Rightarrow> string \<Rightarrow> (string \<times> string) result) \<Rightarrow> string \<Rightarrow> string \<Rightarrow> string \<Rightarrow> string option \<Rightarrow> string \<Rightarrow> wallets \<Rightarrow>
   wallets \<times> wallet_info result" where
  "import_bot_wallet b parse wid family private_key label mode ws =
     (if family \<notin> {''evm'', ''solana''} then (ws, Inl ValueError)
      else case parse family (strip private_key) of
        Inl e \<Rightarrow> (ws, Inl e)
      | Inr k \<Rightarrow>
          (case store_wallet b wid family k
             (or_label label (if family = ''evm'' then ''Imported EVM wallet'' else ''Imported SOLANA wallet'')) mode ws of
             (ws', i) \<Rightarrow> (ws', Inr i)))"

definition add_external_wallet ::
  "(string \<Rightarrow> string) \<Rightarrow> string \<Rightarrow> string \<Rightarrow> string \<Rightarrow> string \<Rightarrow> string option \<Rightarrow> wallets \<Rightarrow> wallets \<times> wallet_info" where
  "add_external_wallet lower wid family address provider label ws =
     (case find (\<lambda>w. wa_kind w = ''external'' \<and> lower (wa_address w) = lower address) (vals ws) of
        Some w \<Rightarrow> (ws, wallet_info_of w)
      | None \<Rightarrow>
          let w = \<lparr>wa_id = wid, wa_family = family, wa_address = address, wa_label = or_label label (provider @ '' wallet''),
                   wa_kind = ''external'', wa_provider = Some provider, wa_key_enc = None, wa_backed_up = True, wa_mode = ''live''\<rparr>
          in (AList.update wid w ws, wallet_info_of w))"

definition remove_wallet :: "string \<Rightarrow> wallets \<Rightarrow> wallets" where
  "remove_wallet i ws = AList.delete i ws"

definition remove_by_hand :: "trading_mode \<Rightarrow> string \<Rightarrow> wallets \<Rightarrow> wallets \<times> message option" where
  \<comment> \<open>the route of the API: an answer other than success as a message\<close>
  "remove_by_hand mode i ws =
     (case find (\<lambda>w. wi_id w = i) (list_wallets ws) of
        None \<Rightarrow> (ws, Some (Msg ''unknown wallet'' []))
      | Some w \<Rightarrow>
          if wi_kind w = ''bot'' \<and> mode \<in> {LIVE, TESTNET}
          then (ws, Some (Msg ''leave live/testnet mode before removing a bot wallet'' []))
          else (remove_wallet i ws, None))"

definition confirm_backup :: "string \<Rightarrow> wallets \<Rightarrow> wallets result" where
  "confirm_backup i ws =
     (case map_of ws i of
        None \<Rightarrow> Inl KeyError
      | Some w \<Rightarrow> Inr (AList.update i (w\<lparr>wa_backed_up := True\<rparr>) ws))"

definition wallet_secret :: "key_box \<Rightarrow> wallets \<Rightarrow> string \<Rightarrow> string result" where
  "wallet_secret b ws i =
     (case map_of ws i of
        None \<Rightarrow> Inl KeyError
      | Some w \<Rightarrow> if wa_key_enc w \<in> {None, Some []} then Inl ValueError else kb_decrypt b (the (wa_key_enc w)) i)"

subsection \<open>Properties\<close>

text \<open>A stored key comes back: what is stored for a bot wallet is the secret that signs for it later, whatever wallets with
  other identifiers are created, imported, added or removed in between, and the wallet starts without a confirmed backup.\<close>

datatype wallet_op = Create string string "string option" string | Import string string string "string option" string
  | External string string string string "string option" | Remove string | Confirm string

definition op_id :: "wallet_op \<Rightarrow> string" where
  "op_id op = (case op of Create i _ _ _ \<Rightarrow> i | Import i _ _ _ _ \<Rightarrow> i | External i _ _ _ _ \<Rightarrow> i | Remove i \<Rightarrow> i | Confirm i \<Rightarrow> i)"

definition do_op ::
  "key_box \<Rightarrow> (string \<Rightarrow> string \<times> string) \<Rightarrow> (string \<Rightarrow> string \<Rightarrow> (string \<times> string) result) \<Rightarrow> (string \<Rightarrow> string) \<Rightarrow>
   wallets \<Rightarrow> wallet_op \<Rightarrow> wallets" where
  "do_op b fresh parse lower ws op =
     (case op of
        Create i f l m \<Rightarrow> fst (create_bot_wallet b fresh i f l m ws)
      | Import i f k l m \<Rightarrow> fst (import_bot_wallet b parse i f k l m ws)
      | External i f a p l \<Rightarrow> fst (add_external_wallet lower i f a p l ws)
      | Remove i \<Rightarrow> remove_wallet i ws
      | Confirm i \<Rightarrow> (case confirm_backup i ws of Inl _ \<Rightarrow> ws | Inr ws' \<Rightarrow> ws'))"

lemma do_op_other: "i \<noteq> op_id op \<Longrightarrow> map_of (do_op b fresh parse lower ws op) i = map_of ws i"
  by (auto simp: op_id_def do_op_def create_bot_wallet_def import_bot_wallet_def store_wallet_def add_external_wallet_def
      remove_wallet_def confirm_backup_def Let_def split: wallet_op.splits sum.splits option.splits prod.splits)

lemma do_ops_other: "\<forall>op \<in> set ops. op_id op \<noteq> i \<Longrightarrow> map_of (foldl (do_op b fresh parse lower) ws ops) i = map_of ws i"
  by (induction ops arbitrary: ws) (auto simp: do_op_other)

theorem stored_key_returns:
  assumes "box_law b" and "store_wallet b i family (address, secret) label mode ws = (ws', info)"
    and "\<forall>op \<in> set ops. op_id op \<noteq> i"
  shows "wallet_secret b (foldl (do_op b fresh parse lower) ws' ops) i = Inr secret \<and> \<not> wi_backed_up info"
  using assms do_ops_other [OF assms(3), of b fresh parse lower ws']
  by (auto simp: store_wallet_def wallet_secret_def Let_def wallet_info_of_def box_law_def)

text \<open>The choice of a signer crosses the key scopes: when no bot wallet of the family has the scope that is asked for,
  a wallet of another scope signs, so a testnet session without a testnet wallet uses the live key.\<close>

theorem signer_crosses_scope:
  assumes "\<forall>w \<in> set (vals ws). \<not> (wa_kind w = ''bot'' \<and> wa_family w = family \<and> wa_mode w = ''testnet'')"
    and "w \<in> set (vals ws)" and "wa_kind w = ''bot''" and "wa_family w = family"
  shows "\<exists>i. bot_wallet ws family ''testnet'' = Some i \<and> wi_kind i = ''bot'' \<and> wi_family i = family \<and> wi_mode i \<noteq> ''testnet''"
proof -
  have none: "find (\<lambda>w. wa_kind w = ''bot'' \<and> wa_family w = family \<and> wa_mode w = ''testnet'') (vals ws) = None"
    using assms(1) unfolding find_None_iff by blast
  have "find (\<lambda>w. wa_kind w = ''bot'' \<and> wa_family w = family) (vals ws) \<noteq> None"
    using assms(2-4) unfolding find_None_iff by blast
  then obtain w' where w': "find (\<lambda>w. wa_kind w = ''bot'' \<and> wa_family w = family) (vals ws) = Some w'" by blast
  then have m: "w' \<in> set (vals ws)" "wa_kind w' = ''bot''" "wa_family w' = family"
    unfolding find_Some_iff by (metis nth_mem)+
  with assms(1) have "wa_mode w' \<noteq> ''testnet''" by blast
  with m none w' show ?thesis by (simp add: bot_wallet_def wallet_info_of_def)
qed

end
