(* ===== verification/Readiness.thy ===== *)
theory Readiness
  imports Wallets Market_Hub Controls
begin

text \<open>
  Model of the checklists (\<^verbatim>\<open>backend/fedr/engine/readiness.py\<close>) and of what the one for live trading looks at: the exchange
  accts with their credentials and the connectors built from them for a mode (\<^verbatim>\<open>backend/fedr/app.py\<close>). The decryption
  of credentials and the connection of a venue are arguments.
\<close>

subsection \<open>Exchange accounts and the connectors built from them\<close>

record account_spec =
  \<comment> \<open>the fields of \<open>ExchangeSpec\<close> the application reads\<close>
  xa_id :: string
  xa_display :: string
  xa_sandbox :: bool
  xa_perps :: bool
  xa_perp_id :: "string option"

type_synonym exchange_registry = "string \<Rightarrow> account_spec option"

type_synonym credentials = "(string, string) dict"

record exchange_account =
  ea_id :: string
  ea_exchange_id :: string
  ea_label :: string
  ea_mode :: string
  ea_enabled :: bool
  ea_sandbox :: bool
  ea_credentials_enc :: string
  ea_withdraw :: "bool option"
  ea_status :: string
  ea_last_error :: "message option"

definition decrypt_credentials :: "(string \<Rightarrow> string \<Rightarrow> credentials option) \<Rightarrow> exchange_account \<Rightarrow> credentials option" where
  "decrypt_credentials dec a = (if ea_credentials_enc a = [] then None else dec (ea_credentials_enc a) (ea_id a))"

record built_connector =
  bc_name :: string
  bc_exchange :: string
  bc_kind :: venue_kind
  bc_mode :: trading_mode
  bc_credentials :: credentials
  bc_sandbox :: bool
  bc_trading_enabled :: bool

definition no_credentials :: "credentials option \<Rightarrow> bool" where
  \<comment> \<open>\<open>not creds\<close>\<close>
  "no_credentials c \<longleftrightarrow> c \<in> {None, Some []}"

definition wanted_exchanges ::
  "exchange_registry \<Rightarrow> (string \<Rightarrow> string \<Rightarrow> credentials option) \<Rightarrow> app_settings \<Rightarrow> exchange_account list \<Rightarrow>
   trading_mode \<Rightarrow> (string, credentials option) dict" where
  "wanted_exchanges reg dec s accts mode =
     (let public = (if mode = PAPER
            then foldl (\<lambda>d v. if reg v = None then d else AList.update v None d) [] (keys (ps_starting_balances (s_paper s)))
            else [])
      in foldl (\<lambda>d a. AList.update (ea_exchange_id a) (decrypt_credentials dec a) d) public
           (filter (\<lambda>a. ea_enabled a \<and> ea_mode a = mode_value mode) accts))"

definition build_one ::
  "app_settings \<Rightarrow> trading_mode \<Rightarrow> account_spec \<Rightarrow> string \<Rightarrow> credentials option \<Rightarrow> built_connector list" where
  "build_one s mode spec exchange creds =
     (let given = (case creds of None \<Rightarrow> [] | Some c \<Rightarrow> c);
          enabled = (\<not> no_credentials creds \<and> mode \<in> {TESTNET, LIVE});
          spot = \<lparr>bc_name = exchange, bc_exchange = exchange, bc_kind = CEX, bc_mode = mode, bc_credentials = given,
                  bc_sandbox = (mode = TESTNET), bc_trading_enabled = enabled\<rparr>
      in if xa_perps spec \<and> (ss_spot_perp (s_strategies s) \<or> ss_funding (s_strategies s) \<or> ss_basis (s_strategies s))
         then [spot, spot\<lparr>bc_name := exchange @ ''-perp'', bc_kind := PERP,
                 bc_exchange := (case xa_perp_id spec of None \<Rightarrow> exchange | Some p \<Rightarrow> if p = [] then exchange else p)\<rparr>]
         else [spot])"

definition build_cex_connectors ::
  "exchange_registry \<Rightarrow> (string \<Rightarrow> string \<Rightarrow> credentials option) \<Rightarrow> app_settings \<Rightarrow> exchange_account list \<Rightarrow>
   trading_mode \<Rightarrow> (string, built_connector) dict" where
  "build_cex_connectors reg dec s accts mode =
     foldl (\<lambda>d (exchange, creds).
         case reg exchange of
           None \<Rightarrow> d
         | Some spec \<Rightarrow> if mode = TESTNET \<and> \<not> xa_sandbox spec then d
             else foldl (\<lambda>d c. AList.update (bc_name c) c d) d (build_one s mode spec exchange creds))
       [] (wanted_exchanges reg dec s accts mode)"

record account_answer =
  \<comment> \<open>what testing the credentials answers: the withdrawal permission, or the error\<close>
  aa_result :: "message + bool option"
  aa_id :: string
  aa_encrypt :: "credentials \<Rightarrow> string \<Rightarrow> string"

definition add_exchange_account ::
  "exchange_registry \<Rightarrow> account_answer \<Rightarrow> string \<Rightarrow> string \<Rightarrow> credentials \<Rightarrow> string \<Rightarrow> bool option \<Rightarrow> exchange_account list \<Rightarrow>
   exchange_account list \<times> (message + bool)" where
  \<comment> \<open>the answer says whether the credentials were verified\<close>
  "add_exchange_account reg ans exchange label given mode sandbox accts =
     (case reg exchange of
        None \<Rightarrow> (accts, Inl (Msg ''unsupported exchange'' [AStr exchange]))
      | Some spec \<Rightarrow>
          if mode \<notin> {''testnet'', ''live''} then (accts, Inl (Msg ''credential scope must be testnet or live'' []))
          else let creds = filter (\<lambda>(k, v). v \<noteq> []) given;
                   sb = (case sandbox of None \<Rightarrow> mode = ''testnet'' | Some b \<Rightarrow> b) in
               if sb \<and> \<not> xa_sandbox spec then (accts, Inl (Msg ''no sandbox'' [AStr (xa_display spec)]))
               else let ok = (case aa_result ans of Inl _ \<Rightarrow> False | Inr _ \<Rightarrow> True);
                        a = \<lparr>ea_id = aa_id ans, ea_exchange_id = exchange, ea_label = (if label = [] then xa_display spec else label),
                             ea_mode = mode, ea_enabled = True, ea_sandbox = sb, ea_credentials_enc = aa_encrypt ans creds (aa_id ans),
                             ea_withdraw = (case aa_result ans of Inl _ \<Rightarrow> None | Inr w \<Rightarrow> w),
                             ea_status = (if ok then ''connected'' else ''supported''),
                             ea_last_error = (case aa_result ans of Inl e \<Rightarrow> Some e | Inr _ \<Rightarrow> None)\<rparr>
                    in (filter (\<lambda>x. ea_id x \<noteq> aa_id ans) accts @ [a], Inr ok))"

definition accounts_scoped :: "exchange_account list \<Rightarrow> bool" where
  \<comment> \<open>every account has one of the two scopes\<close>
  "accounts_scoped accts \<longleftrightarrow> (\<forall>a \<in> set accts. ea_mode a \<in> {''testnet'', ''live''})"

subsection \<open>Checklists\<close>

record check_item =
  ci_key :: string
  ci_ok :: bool
  ci_required :: bool

definition check :: "string \<Rightarrow> bool \<Rightarrow> check_item" where
  "check k ok = \<lparr>ci_key = k, ci_ok = ok, ci_required = True\<rparr>"

definition optional_check :: "string \<Rightarrow> bool \<Rightarrow> check_item" where
  "optional_check k ok = \<lparr>ci_key = k, ci_ok = ok, ci_required = False\<rparr>"

definition ready :: "check_item list \<Rightarrow> bool" where
  "ready items \<longleftrightarrow> (\<forall>i \<in> set (filter ci_required items). ci_ok i)"

record ready_venue =
  \<comment> \<open>a connector as the checklists see it: whether it holds credentials, and the withdrawal permission of the key\<close>
  rv_name :: string
  rv_kind :: venue_kind
  rv_connected :: bool
  rv_credentials :: bool
  rv_withdraw :: "bool option"

record ready_env =
  re_database :: bool
  re_wallets :: "wallets option"
  re_venues :: "ready_venue list"
  re_health :: "string \<Rightarrow> venue_health"
  re_books :: nat
  re_last_reconciliation :: "bool option option"
  re_live_allowed :: bool
  re_auth_token :: "string option"
  re_gateway_ok :: bool
  re_contracts :: "string \<Rightarrow> bool"
  re_has_engine :: bool

definition startup_health :: "ready_env \<Rightarrow> check_item list" where
  "startup_health env =
     (let dex = filter (\<lambda>v. rv_kind v = DEX) (re_venues env); cex = filter (\<lambda>v. rv_kind v \<noteq> DEX) (re_venues env) in
      [check ''database'' (re_database env), check ''wallets'' (re_wallets env \<noteq> None),
       optional_check ''exchanges'' (list_ex rv_connected cex), optional_check ''gateway'' (re_gateway_ok env),
       optional_check ''rpc'' (list_ex rv_connected dex), check ''market_data'' (0 < re_books env),
       check ''strategy_engine'' (re_has_engine env), check ''profit_guard'' True, check ''gas_guard'' True,
       check ''risk_engine'' True])"

definition authenticated :: "ready_env \<Rightarrow> ready_venue list" where
  "authenticated env = filter (\<lambda>v. rv_kind v \<in> {CEX, PERP} \<and> rv_credentials v \<and> rv_connected v) (re_venues env)"

definition funded_line :: "inventory_line \<Rightarrow> bool" where
  "funded_line l \<longleftrightarrow> il_kind l \<in> {''chain'', ''cex''} \<and> 0 < (case il_usd_value l of None \<Rightarrow> 0 | Some v \<Rightarrow> v)"

definition live_readiness :: "ready_env \<Rightarrow> engine_ctx \<Rightarrow> check_item list" where
  "live_readiness env cx =
     (let bots = filter (\<lambda>w. wi_kind w = ''bot'') (case re_wallets env of None \<Rightarrow> [] | Some ws \<Rightarrow> list_wallets ws);
          live = s_live (cx_settings cx)
      in [check ''wallet_backup'' (bots \<noteq> [] \<and> list_all wi_backed_up bots),
          check ''funded'' (list_ex funded_line (vals (im_lines (cx_inventory cx)))),
          check ''exchange_api'' (authenticated env \<noteq> []),
          check ''withdraw_disabled'' (authenticated env \<noteq> [] \<and> list_all (\<lambda>v. rv_withdraw v \<noteq> Some True) (authenticated env)),
          check ''market_data'' (list_ex (\<lambda>v. re_health env (rv_name v) = HEALTHY) (re_venues env) \<and> 0 < re_books env),
          check ''profit_guard'' True, check ''gas_guard'' True, check ''risk_guard'' True,
          check ''circuit_breaker'' (active_breakers (cx_breakers cx) = []),
          check ''reconciliation'' (case re_last_reconciliation env of None \<Rightarrow> False | Some None \<Rightarrow> True | Some (Some ok) \<Rightarrow> ok),
          check ''paper_completed'' (la_paper_completed live), check ''shadow_reviewed'' (la_shadow_reviewed live),
          check ''env_gate'' (re_live_allowed env), check ''auth'' (re_auth_token env \<notin> {None, Some []}),
          check ''no_estop'' (\<not> cx_emergency_stop cx)])"

record strategy_entry =
  se_key :: string
  se_enabled :: bool
  se_ready :: bool
  se_blockers :: "message list"
  se_live_verified :: bool

definition strategy_entry_of :: "string \<Rightarrow> bool \<Rightarrow> (bool \<times> message) list \<Rightarrow> strategy_entry" where
  "strategy_entry_of key enabled checks =
     (let failed = map snd (filter (\<lambda>(ok, d). \<not> ok) checks) in
      \<lparr>se_key = key, se_enabled = enabled, se_ready = (enabled \<and> failed = []),
       se_blockers = reason_if (\<not> enabled) (Msg ''strategy disabled'' []) @ failed, se_live_verified = False\<rparr>)"

definition strategy_readiness :: "ready_env \<Rightarrow> engine_ctx \<Rightarrow> (string, strategy_entry) dict" where
  "strategy_readiness env cx =
     (let s = cx_settings cx; st = s_strategies s;
          up = (\<lambda>k. filter (\<lambda>v. rv_kind v = k \<and> rv_connected v) (re_venues env));
          cex = up CEX; perp = up PERP; dex = up DEX; n = (\<lambda>vs. AInt (int (length vs)));
          healthy = filter (\<lambda>v. re_health env (rv_name v) = HEALTHY) cex;
          books = (0 < re_books env, Msg ''no live order books'' []);
          gw = (re_gateway_ok env \<or> cx_mode cx = SIMULATION, Msg ''Gateway unreachable'' []);
          contracts = filter (re_contracts env) [''ethereum'', ''arbitrum'', ''base'', ''optimism'', ''polygon'']
      in [(''CEX_ARBITRAGE_READY'', strategy_entry_of ''cex_cex'' (ss_cex_cex st)
             [(2 \<le> length cex, Msg ''needs two connected CEX venues'' [n cex]),
              (2 \<le> length healthy, Msg ''needs two healthy CEX venues'' []), books]),
          (''CEX_DEX_READY'', strategy_entry_of ''cex_dex'' (ss_cex_dex st)
             [(1 \<le> length cex, Msg ''needs a connected CEX venue'' []), (1 \<le> length dex, Msg ''needs a connected DEX venue'' []),
              gw, books]),
          (''DEX_ARB_READY'', strategy_entry_of ''dex_dex'' (ss_dex_dex st)
             [(2 \<le> length dex, Msg ''needs two connected DEX venues'' [n dex]), gw, books]),
          (''FUNDING_READY'', strategy_entry_of ''funding'' (ss_funding st \<or> ss_spot_perp st)
             [(1 \<le> length perp, Msg ''needs a connected perp venue'' []),
              (1 \<le> length cex \<or> 1 \<le> length dex, Msg ''needs a spot venue for the hedge leg'' []), books]),
          (''BASIS_READY'', strategy_entry_of ''basis'' (ss_basis st \<or> ss_spot_perp st)
             [(1 \<le> length perp, Msg ''needs a connected perp venue'' []), (1 \<le> length cex, Msg ''needs a spot venue'' []), books]),
          (''FLASH_LOAN_READY'', strategy_entry_of ''flash_loan'' (ss_flash_loan st \<and> fls_enabled (s_flash_loan s))
             [(contracts \<noteq> [], Msg ''no flash-loan contract address configured'' []),
              (2 \<le> length dex, Msg ''needs two DEX venues on one chain'' []), gw])])"

definition venue_of :: "(string \<Rightarrow> bool) \<Rightarrow> (string \<Rightarrow> bool option) \<Rightarrow> built_connector \<Rightarrow> ready_venue" where
  \<comment> \<open>a built connector once connecting was tried: which venues answered and what they say of the withdrawal permission\<close>
  "venue_of up withdraw c = \<lparr>rv_name = bc_name c, rv_kind = bc_kind c, rv_connected = up (bc_name c),
     rv_credentials = (bc_credentials c \<noteq> []), rv_withdraw = withdraw (bc_name c)\<rparr>"

subsection \<open>Properties\<close>

lemma foldl_inv: "P a \<Longrightarrow> (\<And>a x. P a \<Longrightarrow> x \<in> set xs \<Longrightarrow> P (f a x)) \<Longrightarrow> P (foldl f a xs)"
  by (induction xs arbitrary: a) auto

lemma set_update_vals: "set (vals (AList.update k v d)) \<subseteq> insert v (set (vals d))"
  unfolding vals_def by (induction d) (auto split: if_splits)

lemma update_pairs: "(k, v) \<in> set (AList.update k' v' d) \<Longrightarrow> (k, v) = (k', v') \<or> (k, v) \<in> set d"
  by (induction d) (auto split: if_splits)

lemma wanted_from_accounts:
  assumes "(x, Some c) \<in> set (wanted_exchanges reg dec s accts mode)"
  shows "\<exists>a \<in> set accts. ea_enabled a \<and> ea_mode a = mode_value mode \<and> ea_exchange_id a = x \<and> decrypt_credentials dec a = Some c"
proof -
  define Q where "Q d \<longleftrightarrow> (\<forall>x c. (x, Some c) \<in> set d \<longrightarrow> (\<exists>a \<in> set accts. ea_enabled a \<and> ea_mode a = mode_value mode \<and>
      ea_exchange_id a = x \<and> decrypt_credentials dec a = Some c))" for d
  define public where "public = (if mode = PAPER
      then foldl (\<lambda>d v. if reg v = None then d else AList.update v None d) ([] :: (string, credentials option) dict)
        (keys (ps_starting_balances (s_paper s))) else [])"
  have "Q (foldl (\<lambda>d v. if reg v = None then d else AList.update v None d) [] xs)" for xs
    by (rule foldl_inv) (auto simp: Q_def dest: update_pairs)
  moreover have "Q []" by (simp add: Q_def)
  ultimately have "Q public" unfolding public_def by (cases "mode = PAPER") simp_all
  then have "Q (foldl (\<lambda>d a. AList.update (ea_exchange_id a) (decrypt_credentials dec a) d) public
      (filter (\<lambda>a. ea_enabled a \<and> ea_mode a = mode_value mode) accts))"
  proof (rule foldl_inv)
    fix d a
    assume d: "Q d" and a: "a \<in> set (filter (\<lambda>a. ea_enabled a \<and> ea_mode a = mode_value mode) accts)"
    show "Q (AList.update (ea_exchange_id a) (decrypt_credentials dec a) d)"
      unfolding Q_def
    proof (intro allI impI)
      fix x c
      assume "(x, Some c) \<in> set (AList.update (ea_exchange_id a) (decrypt_credentials dec a) d)"
      from update_pairs [OF this] d a show "\<exists>a \<in> set accts. ea_enabled a \<and> ea_mode a = mode_value mode \<and>
          ea_exchange_id a = x \<and> decrypt_credentials dec a = Some c"
        unfolding Q_def by auto
    qed
  qed
  with assms show ?thesis by (auto simp: wanted_exchanges_def Let_def public_def Q_def)
qed

lemma built_credentials:
  assumes "c \<in> set (vals (build_cex_connectors reg dec s accts mode))" and "bc_credentials c \<noteq> []"
  shows "\<exists>a \<in> set accts. ea_enabled a \<and> ea_mode a = mode_value mode \<and> decrypt_credentials dec a = Some (bc_credentials c)"
    and "bc_sandbox c \<longleftrightarrow> mode = TESTNET"
proof -
  define R where "R c \<longleftrightarrow> (bc_sandbox c \<longleftrightarrow> mode = TESTNET) \<and> (bc_credentials c \<noteq> [] \<longrightarrow>
      (\<exists>x. (x, Some (bc_credentials c)) \<in> set (wanted_exchanges reg dec s accts mode)))" for c :: built_connector
  have one: "R c" if "c \<in> set (build_one s mode spec x creds)" "(x, creds) \<in> set (wanted_exchanges reg dec s accts mode)" for c spec x creds
    using that by (auto simp: build_one_def Let_def R_def split: if_splits option.splits)
  have "\<forall>c \<in> set (vals (build_cex_connectors reg dec s accts mode)). R c"
    unfolding build_cex_connectors_def
  proof (rule foldl_inv)
    fix d :: "(string, built_connector) dict" and p :: "string \<times> credentials option"
    assume d: "\<forall>c \<in> set (vals d). R c" and p: "p \<in> set (wanted_exchanges reg dec s accts mode)"
    obtain x creds where px: "p = (x, creds)" by (cases p)
    have "\<forall>c \<in> set (vals (foldl (\<lambda>d c. AList.update (bc_name c) c d) d (build_one s mode spec x creds))). R c" for spec
    proof (rule foldl_inv [where P = "\<lambda>d :: (string, built_connector) dict. \<forall>c \<in> set (vals d). R c"])
      show "\<forall>c \<in> set (vals d). R c" by (rule d)
    next
      fix d' :: "(string, built_connector) dict" and c'
      assume "\<forall>c \<in> set (vals d'). R c" and "c' \<in> set (build_one s mode spec x creds)"
      with one [of c' spec x creds] p px show "\<forall>c \<in> set (vals (AList.update (bc_name c') c' d')). R c"
        using set_update_vals [of "bc_name c'" c' d'] by blast
    qed
    then show "\<forall>c \<in> set (vals (case p of (exchange, creds) \<Rightarrow> case reg exchange of None \<Rightarrow> d
        | Some spec \<Rightarrow> if mode = TESTNET \<and> \<not> xa_sandbox spec then d
            else foldl (\<lambda>d c. AList.update (bc_name c) c d) d (build_one s mode spec exchange creds))). R c"
      using d px by (auto split: option.split)
  qed (simp add: vals_def)
  then have "R c" using assms(1) by blast
  with assms(2) wanted_from_accounts show "\<exists>a \<in> set accts. ea_enabled a \<and> ea_mode a = mode_value mode \<and>
      decrypt_credentials dec a = Some (bc_credentials c)" and "bc_sandbox c \<longleftrightarrow> mode = TESTNET"
    unfolding R_def by blast+
qed

lemma add_exchange_account_scoped:
  "accounts_scoped accts \<Longrightarrow> accounts_scoped (fst (add_exchange_account reg ans exchange label given mode sandbox accts))"
  by (auto simp: add_exchange_account_def accounts_scoped_def Let_def split: option.splits)

lemma ready_item: "ready items \<Longrightarrow> check k ok \<in> set items \<Longrightarrow> ok"
  by (auto simp: ready_def check_def)

lemma ready_authenticated: "ready (live_readiness env cx) \<Longrightarrow> authenticated env \<noteq> []"
  by (erule ready_item [of _ "''exchange_api''"]) (simp add: live_readiness_def Let_def)

text \<open>C32. Outside live mode the checklist for live trading can only pass on testnet keys: with the connectors
  built for another mode, it is ready only in testnet mode, and every connector whose credentials and
  withdrawal permission it looked at is a sandbox connector with the credentials of a testnet account. So live
  trading cannot be activated from paper mode, and the permissions of the live keys are not looked at.\<close>

theorem readiness_sees_testnet_keys:
  assumes "accounts_scoped accts" and "mode \<noteq> LIVE" and "ready (live_readiness env cx)"
    and "\<forall>v \<in> set (re_venues env). rv_credentials v \<longrightarrow>
      v \<in> venue_of up withdraw ` set (vals (build_cex_connectors reg dec s accts mode))"
  shows "mode = TESTNET \<and> authenticated env \<noteq> [] \<and> (\<forall>v \<in> set (authenticated env). \<exists>(c :: built_connector) a. rv_name v = bc_name c \<and> bc_sandbox c \<and>
    a \<in> set accts \<and> ea_mode a = ''testnet'' \<and> decrypt_credentials dec a = Some (bc_credentials c))"
proof -
  have src: "\<exists>(c :: built_connector) a. rv_name v = bc_name c \<and> (bc_sandbox c \<longleftrightarrow> mode = TESTNET) \<and> a \<in> set accts \<and>
      ea_mode a = mode_value mode \<and> decrypt_credentials dec a = Some (bc_credentials c)"
    if "v \<in> set (authenticated env)" for v
  proof -
    from that have "v \<in> set (re_venues env)" and cr: "rv_credentials v" by (simp_all add: authenticated_def)
    with assms(4) obtain c where c: "c \<in> set (vals (build_cex_connectors reg dec s accts mode))" "v = venue_of up withdraw c" by blast
    with cr have "bc_credentials c \<noteq> []" by (simp add: venue_of_def)
    moreover have "rv_name v = bc_name c" using c(2) by (simp add: venue_of_def)
    ultimately show ?thesis using built_credentials [OF c(1)] by blast
  qed
  have ne: "authenticated env \<noteq> []" by (rule ready_authenticated [OF assms(3)])
  then obtain v where "v \<in> set (authenticated env)" by fastforce
  from src [OF this] obtain a where "a \<in> set accts" "ea_mode a = mode_value mode" by blast
  with assms(1,2) have "mode = TESTNET" by (cases mode) (auto simp: accounts_scoped_def)
  with ne src show ?thesis by fastforce
qed

subsection \<open>Witnesses\<close>

definition demo_wallet :: wallet where
  "demo_wallet = \<lparr>wa_id = ''w1'', wa_family = ''evm'', wa_address = ''0xaa'', wa_label = ''bot'', wa_kind = ''bot'', wa_provider = None,
     wa_key_enc = Some ''k'', wa_backed_up = True, wa_mode = ''testnet''\<rparr>"

definition demo_ready :: ready_env where
  "demo_ready = \<lparr>re_database = True, re_wallets = Some [(''w1'', demo_wallet)],
     re_venues = [\<lparr>rv_name = ''kraken'', rv_kind = CEX, rv_connected = True, rv_credentials = True, rv_withdraw = Some False\<rparr>],
     re_health = (\<lambda>_. HEALTHY), re_books = 3, re_last_reconciliation = Some None, re_live_allowed = True,
     re_auth_token = Some ''token'', re_gateway_ok = True, re_contracts = (\<lambda>_. False), re_has_engine = True\<rparr>"

definition before_live :: engine_ctx where
  "before_live = demo_ctx\<lparr>cx_settings := app_defaults\<lparr>s_general := general_defaults\<lparr>gs_mode := TESTNET\<rparr>,
       s_live := live_defaults\<lparr>la_paper_completed := True, la_shadow_reviewed := True\<rparr>\<rparr>,
     cx_inventory := new_inventory\<lparr>im_lines := [((''kraken'', ''USDC''), (new_line ''kraken'' ''USDC'' ''cex'')\<lparr>il_usd_value := Some 7000\<rparr>)]\<rparr>\<rparr>"

lemma demo_readiness: "ready (live_readiness demo_ready before_live)"
  by (simp add: live_readiness_def ready_def check_def Let_def demo_ready_def list_wallets_def wallet_info_of_def demo_wallet_def
      authenticated_def before_live_def live_defaults_def funded_line_def new_inventory_def new_line_def active_breakers_def
      new_manager_def vals_def keys_def demo_ctx_def)

definition demo_registry :: exchange_registry where
  "demo_registry x = Some \<lparr>xa_id = x, xa_display = x, xa_sandbox = True, xa_perps = False, xa_perp_id = None\<rparr>"

definition demo_account :: exchange_account where
  "demo_account = \<lparr>ea_id = ''a1'', ea_exchange_id = ''kraken'', ea_label = ''k'', ea_mode = ''testnet'', ea_enabled = True,
     ea_sandbox = True, ea_credentials_enc = ''c'', ea_withdraw = Some False, ea_status = ''connected'', ea_last_error = None\<rparr>"

theorem readiness_sees_testnet_keys_witness:
  "\<exists>(c :: built_connector) a. ''kraken'' = bc_name c \<and> bc_sandbox c \<and> a \<in> {demo_account} \<and> ea_mode a = ''testnet'' \<and>
     decrypt_credentials (\<lambda>_ _. Some [(''apiKey'', ''k'')]) a = Some (bc_credentials c)"
proof -
  have "\<forall>v \<in> set (re_venues demo_ready). rv_credentials v \<longrightarrow> v \<in> venue_of (\<lambda>_. True) (\<lambda>_. Some False) `
      set (vals (build_cex_connectors demo_registry (\<lambda>_ _. Some [(''apiKey'', ''k'')]) (cx_settings before_live) [demo_account] TESTNET))"
    by (simp add: demo_ready_def venue_of_def build_cex_connectors_def wanted_exchanges_def demo_account_def demo_registry_def
        decrypt_credentials_def build_one_def vals_def Let_def)
  from readiness_sees_testnet_keys [OF _ _ demo_readiness this]
  have k: "\<forall>v \<in> set (authenticated demo_ready). \<exists>(c :: built_connector) a. rv_name v = bc_name c \<and> bc_sandbox c \<and> a \<in> set [demo_account] \<and>
      ea_mode a = ''testnet'' \<and> decrypt_credentials (\<lambda>_ _. Some [(''apiKey'', ''k'')]) a = Some (bc_credentials c)"
    by (simp add: accounts_scoped_def demo_account_def)
  have "\<lparr>rv_name = ''kraken'', rv_kind = CEX, rv_connected = True, rv_credentials = True, rv_withdraw = Some False\<rparr> \<in> set (authenticated demo_ready)"
    by (simp add: authenticated_def demo_ready_def)
  from k [rule_format, OF this] show ?thesis by simp
qed

end
