(* ===== verification/Live_Mode.thy ===== *)
theory Live_Mode
  imports Readiness Supervision Risk_Engine
begin

text \<open>
  Model of the settings updates and of the workflow that enters and leaves live trading
  (\<^verbatim>\<open>backend/fedr/app.py\<close>: \<open>start\<close>, \<open>update_settings\<close>, \<open>activate_live\<close>, \<open>activate_full_live\<close>, \<open>deactivate_live\<close>,
  the paper account; \<^verbatim>\<open>backend/fedr/app_utils.py\<close>; the routes of \<^verbatim>\<open>backend/fedr/api/routes\<close> that lead there). The
  settings document is a JSON object; printing and validating it (pydantic) is the argument \<open>codec\<close>, what the
  connectors answer when they are rebuilt is outside.
\<close>

subsection \<open>Documents\<close>

datatype json = JNull | JBool bool | JNum decimal | JStr string | JList "json list" | JObj "(string \<times> json) list"

type_synonym jobject = "(string, json) dict"

function (sequential) deep_merge :: "jobject \<Rightarrow> jobject \<Rightarrow> jobject" where
  "deep_merge out [] = out"
| "deep_merge out ((k, JObj p) # rest) =
     deep_merge (AList.update k (case map_of out k of Some (JObj b) \<Rightarrow> JObj (deep_merge b p) | _ \<Rightarrow> JObj p) out) rest"
| "deep_merge out ((k, v) # rest) = deep_merge (AList.update k v out) rest"
  by pat_completeness auto
termination
  by (relation "measure (\<lambda>(out, p). size (JObj p))") simp_all

definition json_at :: "jobject \<Rightarrow> string \<Rightarrow> string \<Rightarrow> json option" where
  "json_at d section key = (case map_of d section of Some (JObj b) \<Rightarrow> map_of b key | _ \<Rightarrow> None)"

record codec =
  cd_dump :: "app_settings \<Rightarrow> jobject"
  cd_validate :: "jobject \<Rightarrow> message + app_settings"

definition codec_law :: "codec \<Rightarrow> bool" where
  \<comment> \<open>a document has its sections as objects, a field whose text was not changed keeps its value, and the
      mode and the activation flag are read from their texts\<close>
  "codec_law c \<longleftrightarrow>
     (\<forall>s. (\<exists>b. map_of (cd_dump c s) ''live'' = Some (JObj b)) \<and> (\<exists>b. map_of (cd_dump c s) ''general'' = Some (JObj b)) \<and>
        json_at (cd_dump c s) ''general'' ''mode'' = Some (JStr (mode_value (gs_mode (s_general s))))) \<and>
     (\<forall>d s. cd_validate c d = Inr s \<longrightarrow>
        (\<forall>v. map_of d ''live'' = Some v \<longrightarrow> (\<exists>b. v = JObj b)) \<and>
        (\<forall>b. json_at d ''live'' ''activated'' = Some (JBool b) \<longrightarrow> la_activated (s_live s) = b) \<and>
        (\<forall>m. json_at d ''general'' ''mode'' = Some (JStr m) \<longrightarrow> mode_value (gs_mode (s_general s)) = m) \<and>
        (\<forall>s0. (json_at d ''live'' ''activated'' = json_at (cd_dump c s0) ''live'' ''activated'' \<longrightarrow>
                 la_activated (s_live s) = la_activated (s_live s0)) \<and>
              (json_at d ''live'' ''stage'' = json_at (cd_dump c s0) ''live'' ''stage'' \<longrightarrow>
                 la_stage (s_live s) = la_stage (s_live s0)) \<and>
              (json_at d ''live'' ''small_test_route'' = json_at (cd_dump c s0) ''live'' ''small_test_route'' \<longrightarrow>
                 la_small_test_route (s_live s) = la_small_test_route (s_live s0))))"

subsection \<open>The application\<close>

type_synonym saved_balances = "(string, (string, decimal \<times> decimal) dict) dict"

record live_state =
  ls_cx :: engine_ctx
  ls_saved :: "trading_mode \<Rightarrow> saved_balances"

record live_env =
  le_codec :: codec
  le_hash :: "string \<Rightarrow> string"
  le_now_text :: string
  le_actor :: string
  le_ready :: ready_env
  le_filled :: nat
  le_connect :: "trading_mode \<Rightarrow> app_settings \<Rightarrow> (string, venue_ref) dict"
  le_balances :: "engine_ctx \<Rightarrow> inventory"
  le_price :: "string \<Rightarrow> decimal option"
  le_context :: engine_ctx

definition live_mode_of :: "live_state \<Rightarrow> trading_mode" where
  "live_mode_of st = cx_mode (ls_cx st)"

definition refresh_inventory :: "live_env \<Rightarrow> engine_ctx \<Rightarrow> engine_ctx" where
  "refresh_inventory env cx = cx\<lparr>cx_inventory := (case cx_ledger cx of
     Some l \<Rightarrow> refresh_paper_balances (le_price env) l (cx_inventory cx)
   | None \<Rightarrow> le_balances env cx)\<rparr>"

definition paper_account :: "live_env \<Rightarrow> app_settings \<Rightarrow> saved_balances \<Rightarrow> paper_ledger" where
  "paper_account env s saved =
     (if saved = [] then ledger_seed (ps_starting_balances (s_paper s)) new_ledger else ledger_load saved new_ledger)"

definition rebuild_connectors :: "live_env \<Rightarrow> live_state \<Rightarrow> live_state" where
  "rebuild_connectors env st =
     (let cx = ls_cx st; mode = cx_mode cx; s = cx_settings cx; simulated = (mode \<in> {SIMULATION, PAPER});
          l = paper_account env s (ls_saved st mode);
          cx1 = cx\<lparr>cx_connectors := le_connect env mode s, cx_ledger := (if simulated then Some l else None),
                   cx_paper_executor := simulated\<rparr>
      in st\<lparr>ls_cx := refresh_inventory env cx1,
            ls_saved := (if simulated \<and> ls_saved st mode = [] then (ls_saved st)(mode := ledger_dump l) else ls_saved st)\<rparr>)"

definition profile_touched :: "jobject \<Rightarrow> bool" where
  "profile_touched patch \<longleftrightarrow> json_at patch ''general'' ''risk_profile'' \<noteq> None"

definition with_profile :: "jobject \<Rightarrow> app_settings \<Rightarrow> app_settings" where
  \<comment> \<open>a chosen profile is applied, and a change of the numbers it governs makes it a custom one\<close>
  "with_profile patch s =
     (if profile_touched patch \<and> gs_risk_profile (s_general s) \<noteq> CUSTOM then apply_risk_profile s (gs_risk_profile (s_general s))
      else if \<exists>k \<in> {''trading'', ''risk'', ''gas''}. map_of patch k \<noteq> None
      then s\<lparr>s_general := (s_general s)\<lparr>gs_risk_profile := CUSTOM\<rparr>\<rparr> else s)"

definition structural_change :: "live_state \<Rightarrow> app_settings \<Rightarrow> bool" where
  "structural_change st new =
     (let old = cx_settings (ls_cx st) in
      gs_mode (s_general new) \<noteq> gs_mode (s_general old) \<or> gs_pairs (s_general new) \<noteq> gs_pairs (s_general old) \<or>
      gs_dexes (s_general new) \<noteq> gs_dexes (s_general old) \<or> s_strategies new \<noteq> s_strategies old \<or>
      (ps_starting_balances (s_paper new) \<noteq> ps_starting_balances (s_paper old) \<and>
       live_mode_of st \<in> {SIMULATION, PAPER} \<and> ls_saved st (gs_mode (s_general new)) = []))"

definition save_paper :: "live_state \<Rightarrow> live_state" where
  "save_paper st =
     (case cx_ledger (ls_cx st) of
        Some l \<Rightarrow> if live_mode_of st \<in> {SIMULATION, PAPER} then st\<lparr>ls_saved := (ls_saved st)(live_mode_of st := ledger_dump l)\<rparr> else st
      | None \<Rightarrow> st)"

definition adopt_settings :: "app_settings \<Rightarrow> engine_ctx \<Rightarrow> engine_ctx" where
  "adopt_settings s cx = cx\<lparr>cx_settings := s, cx_experience := (cx_experience cx)
     \<lparr>ee_max_extra := as_experience_max_extra_buffer_pct (s_advanced s), ee_enabled := as_experience_learning_enabled (s_advanced s)\<rparr>\<rparr>"

definition update_settings :: "live_env \<Rightarrow> jobject \<Rightarrow> live_state \<Rightarrow> live_state \<times> (message + app_settings)" where
  "update_settings env patch st =
     (let old = cx_settings (ls_cx st) in
      case cd_validate (le_codec env) (deep_merge (cd_dump (le_codec env) old) patch) of
        Inl e \<Rightarrow> (st, Inl e)
      | Inr valid \<Rightarrow>
          let new = with_profile patch valid in
          if gs_mode (s_general new) = LIVE \<and> \<not> (la_activated (s_live old) \<and> re_live_allowed (le_ready env))
          then (st, Inl (Msg ''LIVE mode can only be entered through the live activation workflow'' []))
          else
            let new1 = (if gs_mode (s_general new) \<noteq> gs_mode (s_general old) \<and> gs_mode (s_general old) = LIVE
                        then new\<lparr>s_live := (s_live new)\<lparr>la_activated := False\<rparr>\<rparr> else new);
                structural = structural_change st new1;
                st1 = save_paper st;
                st2 = st1\<lparr>ls_cx := adopt_settings new1 (ls_cx st1)\<rparr>
            in (if structural then rebuild_connectors env st2 else st2, Inr new1))"

subsection \<open>Entering and leaving live trading\<close>

definition LIVE_CONFIRMATION_PHRASE :: string where
  "LIVE_CONFIRMATION_PHRASE = ''ACTIVATE LIVE TRADING''"

definition FULL_LIVE_CONFIRMATION_PHRASE :: string where
  "FULL_LIVE_CONFIRMATION_PHRASE = ''ACTIVATE FULL LIVE TRADING''"

definition activated_settings :: "live_env \<Rightarrow> string \<Rightarrow> app_settings \<Rightarrow> app_settings" where
  \<comment> \<open>live trading starts as the small test, in shadow mode and without automatic execution\<close>
  "activated_settings env confirmation s = s\<lparr>
     s_live := (s_live s)\<lparr>la_activated := True, la_activated_at := Some (le_now_text env), la_activated_by := Some (le_actor env),
       la_confirmation_phrase_hash := Some (le_hash env confirmation), la_stage := ''small_test'', la_full_activated_at := None\<rparr>,
     s_general := (s_general s)\<lparr>gs_mode := LIVE, gs_shadow_mode := True\<rparr>,
     s_trading := (s_trading s)\<lparr>ts_auto_execute := False\<rparr>\<rparr>"

definition activate_live :: "live_env \<Rightarrow> string \<Rightarrow> live_state \<Rightarrow> live_state \<times> (message + check_item list)" where
  "activate_live env confirmation st =
     (let items = live_readiness (le_ready env) (ls_cx st) in
      if strip confirmation \<noteq> LIVE_CONFIRMATION_PHRASE then (st, Inl (Msg ''type the exact confirmation phrase'' []))
      else if \<not> ready items
      then (st, Inl (Msg ''readiness checklist not satisfied'' [AStrs (map ci_key (filter (\<lambda>i. ci_required i \<and> \<not> ci_ok i) items))]))
      else (rebuild_connectors env (st\<lparr>ls_cx := (ls_cx st)
              \<lparr>cx_settings := activated_settings env confirmation (cx_settings (ls_cx st))\<rparr>\<rparr>), Inr items))"

definition activate_full_live :: "live_env \<Rightarrow> string \<Rightarrow> bool \<Rightarrow> live_state \<Rightarrow> live_state \<times> (message + unit)" where
  "activate_full_live env confirmation acknowledge st =
     (let s = cx_settings (ls_cx st) in
      if strip confirmation \<noteq> FULL_LIVE_CONFIRMATION_PHRASE then (st, Inl (Msg ''type the exact confirmation phrase'' []))
      else if live_mode_of st \<noteq> LIVE \<or> \<not> la_activated (s_live s)
      then (st, Inl (Msg ''live is not active; activate the small live test first'' []))
      else if la_stage (s_live s) = ''full'' then (st, Inr ())
      else if le_filled env = 0 \<and> \<not> acknowledge then (st, Inl (Msg ''no filled small-live-test trade on record'' []))
      else (st\<lparr>ls_cx := (ls_cx st)\<lparr>cx_settings := s\<lparr>s_live := (s_live s)\<lparr>la_stage := ''full'',
              la_full_activated_at := Some (le_now_text env)\<rparr>\<rparr>\<rparr>\<rparr>, Inr ()))"

definition deactivate_live :: "live_env \<Rightarrow> live_state \<Rightarrow> live_state \<times> (message + app_settings)" where
  "deactivate_live env st =
     update_settings env [(''general'', JObj [(''mode'', JStr (mode_value PAPER))]), (''live'', JObj [(''activated'', JBool False)])] st"

definition start_settings :: "live_env \<Rightarrow> string \<Rightarrow> jobject option \<Rightarrow> app_settings" where
  \<comment> \<open>the settings a process starts with: the stored document if it is valid, never live without a valid activation\<close>
  "start_settings env default_mode doc =
     (let s = (case doc of None \<Rightarrow> default_settings default_mode
               | Some d \<Rightarrow> (case cd_validate (le_codec env) d of Inl _ \<Rightarrow> default_settings default_mode | Inr s \<Rightarrow> s))
      in if gs_mode (s_general s) = LIVE \<and> \<not> (la_activated (s_live s) \<and> re_live_allowed (le_ready env))
         then s\<lparr>s_general := (s_general s)\<lparr>gs_mode := PAPER\<rparr>, s_live := (s_live s)\<lparr>la_activated := False\<rparr>\<rparr>
         else s)"

definition restart :: "live_env \<Rightarrow> string \<Rightarrow> live_state \<Rightarrow> live_state" where
  \<comment> \<open>the stored document is the one of the last change\<close>
  "restart env default_mode st =
     (let s = start_settings env default_mode (Some (cd_dump (le_codec env) (cx_settings (ls_cx st)))) in
      rebuild_connectors env (st\<lparr>ls_cx := (le_context env)\<lparr>cx_settings := s\<rparr>\<rparr>))"

subsection \<open>The requests\<close>

definition live_patch_allowed :: "json \<Rightarrow> bool" where
  \<comment> \<open>what the route for settings accepts under \<open>live\<close>: iterating a value without elements is an error\<close>
  "live_patch_allowed v =
     (case v of
        JObj d \<Rightarrow> list_all (\<lambda>(k, x). k \<in> {''paper_completed'', ''shadow_reviewed''}) d
      | JList xs \<Rightarrow> list_all (\<lambda>x. x \<in> {JStr ''paper_completed'', JStr ''shadow_reviewed''}) xs
      | JStr s \<Rightarrow> s = []
      | _ \<Rightarrow> False)"

definition put_settings :: "live_env \<Rightarrow> jobject \<Rightarrow> live_state \<Rightarrow> live_state \<times> (message + app_settings)" where
  "put_settings env patch st =
     (if list_all (\<lambda>(k, v). k = ''live'' \<longrightarrow> live_patch_allowed v) patch then update_settings env patch st
      else (st, Inl (Msg ''live activation state can only be changed through the activation workflow'' [])))"

definition set_mode :: "live_env \<Rightarrow> string \<Rightarrow> live_state \<Rightarrow> live_state \<times> (message + app_settings)" where
  "set_mode env m st =
     (case parse_mode m of
        None \<Rightarrow> (st, Inl (Msg ''unknown mode'' []))
      | Some mode \<Rightarrow> if mode = LIVE then (st, Inl (Msg ''use the live activation workflow to enter LIVE mode'' []))
          else update_settings env [(''general'', JObj [(''mode'', JStr (mode_value mode))])] st)"

definition set_risk_profile :: "live_env \<Rightarrow> string \<Rightarrow> live_state \<Rightarrow> live_state \<times> (message + app_settings)" where
  "set_risk_profile env p st =
     (if p \<notin> {''conservative'', ''balanced'', ''custom''} then (st, Inl (Msg ''unknown profile'' []))
      else update_settings env [(''general'', JObj [(''risk_profile'', JStr p)])] st)"

definition toggle :: "string \<Rightarrow> string \<Rightarrow> live_env \<Rightarrow> bool \<Rightarrow> live_state \<Rightarrow> live_state \<times> (message + app_settings)" where
  \<comment> \<open>the switches for the bot, automatic execution and shadow mode\<close>
  "toggle section key env on st = update_settings env [(section, JObj [(key, JBool on)])] st"

datatype api_request =
    Put_Settings jobject
  | Set_Mode string
  | Set_Risk_Profile string
  | Toggle_Bot bool
  | Toggle_Auto bool
  | Toggle_Shadow bool
  | Set_Allowlist "json list"
  | Activate_Live string
  | Activate_Full_Live string bool
  | Deactivate_Live
  | Restart string

definition as_unit :: "live_state \<times> (message + 'a) \<Rightarrow> live_state \<times> (message + unit)" where
  "as_unit p = (fst p, map_sum id (\<lambda>_. ()) (snd p))"

definition serve :: "live_env \<Rightarrow> api_request \<Rightarrow> live_state \<Rightarrow> live_state \<times> (message + unit)" where
  "serve env req st =
     (case req of
        Put_Settings patch \<Rightarrow> as_unit (put_settings env patch st)
      | Set_Mode m \<Rightarrow> as_unit (set_mode env m st)
      | Set_Risk_Profile p \<Rightarrow> as_unit (set_risk_profile env p st)
      | Toggle_Bot b \<Rightarrow> as_unit (toggle ''general'' ''bot_enabled'' env b st)
      | Toggle_Auto b \<Rightarrow> as_unit (toggle ''trading'' ''auto_execute'' env b st)
      | Toggle_Shadow b \<Rightarrow> as_unit (toggle ''general'' ''shadow_mode'' env b st)
      | Set_Allowlist es \<Rightarrow> as_unit (update_settings env [(''security'', JObj [(''withdrawal_allowlist'', JList es)])] st)
      | Activate_Live c \<Rightarrow> if \<not> re_live_allowed (le_ready env) then (st, Inl (Msg ''live trading is not allowed by the environment'' []))
          else as_unit (activate_live env c st)
      | Activate_Full_Live c ack \<Rightarrow> if \<not> re_live_allowed (le_ready env) then (st, Inl (Msg ''live trading is not allowed by the environment'' []))
          else activate_full_live env c ack st
      | Deactivate_Live \<Rightarrow> as_unit (deactivate_live env st)
      | Restart m \<Rightarrow> (restart env m st, Inr ()))"

definition serve_all :: "(live_env \<times> api_request) list \<Rightarrow> live_state \<Rightarrow> live_state" where
  "serve_all reqs st = foldl (\<lambda>st (env, req). fst (serve env req st)) st reqs"

subsection \<open>Merging and updating\<close>

lemma mode_value_inj: "mode_value a = mode_value b \<longleftrightarrow> a = b"
  by (cases a; cases b) simp_all

lemma deep_merge_other: "\<forall>(k, v) \<in> set p. k \<noteq> k1 \<Longrightarrow> map_of (deep_merge out p) k1 = map_of out k1"
  by (induction out p rule: deep_merge.induct) auto

lemma deep_merge_section:
  assumes "map_of out k1 = Some (JObj b)" and "\<forall>(k, v) \<in> set p. k = k1 \<longrightarrow> (\<exists>d. v = JObj d \<and> k2 \<notin> fst ` set d)"
  shows "\<exists>b'. map_of (deep_merge out p) k1 = Some (JObj b') \<and> map_of b' k2 = map_of b k2"
  using assms
proof (induction out p arbitrary: b rule: deep_merge.induct)
  case (2 out k p rest)
  show ?case
  proof (cases "k = k1")
    case True
    then have "k2 \<notin> fst ` set p" using "2.prems"(2) by auto
    then have "map_of (deep_merge b p) k2 = map_of b k2" by (intro deep_merge_other) force
    then show ?thesis using 2 True by fastforce
  qed (use 2 in auto)
qed auto

lemma deep_merge_keeps:
  assumes "map_of out k1 = Some (JObj b)" and "\<forall>(k, v) \<in> set p. k = k1 \<longrightarrow> (\<exists>d. v = JObj d \<and> k2 \<notin> fst ` set d)"
  shows "json_at (deep_merge out p) k1 k2 = json_at out k1 k2"
  using deep_merge_section [OF assms] assms(1) by (auto simp: json_at_def)

definition cx_live :: "live_state \<Rightarrow> live_activation" where
  "cx_live st = s_live (cx_settings (ls_cx st))"

definition live_inv :: "live_state \<Rightarrow> bool" where
  \<comment> \<open>live trading is activated exactly in live mode\<close>
  "live_inv st \<longleftrightarrow> (live_mode_of st = LIVE \<longleftrightarrow> la_activated (cx_live st))"

definition small_inv :: "live_state \<Rightarrow> bool" where
  "small_inv st \<longleftrightarrow> live_inv st \<and> la_small_test_route (cx_live st) = None \<and> (live_mode_of st = LIVE \<longrightarrow> la_stage (cx_live st) = ''small_test'')"

lemma with_profile_simps [simp]:
  "gs_mode (s_general (with_profile p s)) = gs_mode (s_general s)" "s_live (with_profile p s) = s_live s"
  by (cases "gs_risk_profile (s_general s)";
      simp add: with_profile_def conservative_profile_def balanced_profile_def)+

lemma save_paper_cx [simp]: "ls_cx (save_paper st) = ls_cx st"
  by (simp add: save_paper_def split: option.split)

lemma rebuild_settings [simp]: "cx_settings (ls_cx (rebuild_connectors env st)) = cx_settings (ls_cx st)"
  by (simp add: rebuild_connectors_def refresh_inventory_def Let_def)

lemma rebuild_simps [simp]:
  "live_mode_of (rebuild_connectors env st) = live_mode_of st" "cx_live (rebuild_connectors env st) = cx_live st"
  by (simp_all add: live_mode_of_def cx_live_def cx_mode_def)

lemma update_settings_result:
  assumes "update_settings env patch st = (st', r)"
  shows "st' = st \<or> (\<exists>valid. cd_validate (le_codec env) (deep_merge (cd_dump (le_codec env) (cx_settings (ls_cx st))) patch) = Inr valid \<and>
    live_mode_of st' = gs_mode (s_general valid) \<and>
    (live_mode_of st' = LIVE \<longrightarrow> la_activated (cx_live st) \<and> re_live_allowed (le_ready env)) \<and>
    cx_live st' = (if live_mode_of st' \<noteq> live_mode_of st \<and> live_mode_of st = LIVE then (s_live valid)\<lparr>la_activated := False\<rparr> else s_live valid))"
  using assms
  by (auto simp: update_settings_def Let_def live_mode_of_def cx_live_def cx_mode_def adopt_settings_def split: sum.splits if_splits)

definition live_untouched :: "jobject \<Rightarrow> bool" where
  \<comment> \<open>the patch names no field of the live state but the two reviews\<close>
  "live_untouched patch \<longleftrightarrow> (\<forall>(k, v) \<in> set patch. k = ''live'' \<longrightarrow>
     (\<exists>d. v = JObj d \<and> fst ` set d \<subseteq> {''paper_completed'', ''shadow_reviewed''}))"

lemma live_untouched_key:
  assumes "live_untouched patch" and "k \<in> {''activated'', ''stage'', ''small_test_route''}"
  shows "\<forall>(k', v) \<in> set patch. k' = ''live'' \<longrightarrow> (\<exists>d. v = JObj d \<and> k \<notin> fst ` set d)"
proof (clarify)
  fix v
  assume "(''live'', v) \<in> set patch"
  with assms(1) obtain d where d: "v = JObj d" "fst ` set d \<subseteq> {''paper_completed'', ''shadow_reviewed''}"
    unfolding live_untouched_def by blast
  have "k \<notin> {''paper_completed'', ''shadow_reviewed''}" using assms(2) by auto
  with d show "\<exists>d. v = JObj d \<and> k \<notin> fst ` set d" by blast
qed

lemma update_settings_keeps:
  assumes c: "codec_law (le_codec env)" and "live_untouched patch" and u: "update_settings env patch st = (st', r)"
    and i: "live_inv st"
  shows "live_inv st' \<and> (live_mode_of st' = LIVE \<longrightarrow> live_mode_of st = LIVE) \<and>
    la_small_test_route (cx_live st') = la_small_test_route (cx_live st) \<and>
    (live_mode_of st' = LIVE \<longrightarrow> la_stage (cx_live st') = la_stage (cx_live st))"
proof -
  let ?d = "cd_dump (le_codec env) (cx_settings (ls_cx st))"
  from c obtain b where b: "map_of ?d ''live'' = Some (JObj b)" unfolding codec_law_def by blast
  have keep: "json_at (deep_merge ?d patch) ''live'' k = json_at ?d ''live'' k" if "k \<in> {''activated'', ''stage'', ''small_test_route''}" for k
    by (rule deep_merge_keeps [OF b live_untouched_key [OF assms(2) that]])
  from update_settings_result [OF u] show ?thesis
  proof (elim disjE exE conjE)
    assume "st' = st"
    then show ?thesis using i by simp
  next
    fix valid
    assume v: "cd_validate (le_codec env) (deep_merge ?d patch) = Inr valid" "live_mode_of st' = gs_mode (s_general valid)"
      "live_mode_of st' = LIVE \<longrightarrow> la_activated (cx_live st) \<and> re_live_allowed (le_ready env)"
      "cx_live st' = (if live_mode_of st' \<noteq> live_mode_of st \<and> live_mode_of st = LIVE then (s_live valid)\<lparr>la_activated := False\<rparr> else s_live valid)"
    have k: "la_activated (s_live valid) = la_activated (cx_live st)" "la_stage (s_live valid) = la_stage (cx_live st)"
      "la_small_test_route (s_live valid) = la_small_test_route (cx_live st)"
      using c v(1) keep unfolding codec_law_def cx_live_def by blast+
    show ?thesis using v(2-4) k i unfolding live_inv_def by auto
  qed
qed

lemma update_to_paper:
  assumes c: "codec_law (le_codec env)" and d: "deactivate_live env st = (st', r)" and i: "live_inv st"
  shows "live_inv st' \<and> (live_mode_of st' = LIVE \<longrightarrow> live_mode_of st = LIVE) \<and>
    la_small_test_route (cx_live st') = la_small_test_route (cx_live st) \<and>
    (live_mode_of st' = LIVE \<longrightarrow> la_stage (cx_live st') = la_stage (cx_live st))"
proof -
  let ?d = "cd_dump (le_codec env) (cx_settings (ls_cx st))"
  let ?p = "[(''general'', JObj [(''mode'', JStr (mode_value PAPER))]), (''live'', JObj [(''activated'', JBool False)])]"
  from c obtain b g where b: "map_of ?d ''live'' = Some (JObj b)" and g: "map_of ?d ''general'' = Some (JObj g)"
    unfolding codec_law_def by blast
  have m: "json_at (deep_merge ?d ?p) ''general'' ''mode'' = Some (JStr (mode_value PAPER))"
    "json_at (deep_merge ?d ?p) ''live'' ''activated'' = Some (JBool False)"
    "json_at (deep_merge ?d ?p) ''live'' ''small_test_route'' = json_at ?d ''live'' ''small_test_route''"
    using b g by (simp_all add: json_at_def)
  from update_settings_result [OF d [unfolded deactivate_live_def]] show ?thesis
  proof (elim disjE exE conjE)
    assume "st' = st"
    then show ?thesis using i by simp
  next
    fix valid
    assume v: "cd_validate (le_codec env) (deep_merge ?d ?p) = Inr valid" "live_mode_of st' = gs_mode (s_general valid)"
      "cx_live st' = (if live_mode_of st' \<noteq> live_mode_of st \<and> live_mode_of st = LIVE then (s_live valid)\<lparr>la_activated := False\<rparr> else s_live valid)"
    have "mode_value (gs_mode (s_general valid)) = mode_value PAPER" "\<not> la_activated (s_live valid)"
      "la_small_test_route (s_live valid) = la_small_test_route (cx_live st)"
      using c v(1) m unfolding codec_law_def cx_live_def by blast+
    with v(2,3) show ?thesis by (simp add: live_inv_def mode_value_inj del: mode_value.simps)
  qed
qed

subsection \<open>The workflow\<close>

lemma deep_merge_last:
  "distinct (map fst p) \<Longrightarrow> (k, v) \<in> set p \<Longrightarrow> \<forall>d. v \<noteq> JObj d \<Longrightarrow> map_of (deep_merge out p) k = Some v"
proof (induction p arbitrary: out)
  case (Cons a p)
  obtain k' v' where a: "a = (k', v')" by (cases a)
  show ?case
  proof (cases "k' = k")
    case True
    then have "v' = v" using Cons.prems a by (force simp: image_iff)
    moreover have "map_of (deep_merge o' p) k = map_of o' k" for o'
      using Cons.prems(1) a True by (intro deep_merge_other) (force simp: image_iff)
    ultimately show ?thesis using a True Cons.prems(3) by (cases v) simp_all
  next
    case False
    then show ?thesis using Cons a by (cases v') auto
  qed
qed simp

definition wf_request :: "api_request \<Rightarrow> bool" where
  \<comment> \<open>the keys of a document are distinct\<close>
  "wf_request req \<longleftrightarrow> (case req of Put_Settings p \<Rightarrow> distinct (map fst p) | _ \<Rightarrow> True)"

definition step_facts :: "live_state \<Rightarrow> live_state \<Rightarrow> bool" where
  \<comment> \<open>what an update that leaves the live state alone guarantees\<close>
  "step_facts st st' \<longleftrightarrow> live_inv st' \<and> (live_mode_of st' = LIVE \<longrightarrow> live_mode_of st = LIVE) \<and>
    la_small_test_route (cx_live st') = la_small_test_route (cx_live st) \<and>
    (live_mode_of st' = LIVE \<longrightarrow> la_stage (cx_live st') = la_stage (cx_live st))"

lemma step_facts_refl: "live_inv st \<Longrightarrow> step_facts st st"
  by (simp add: step_facts_def)

lemma update_step: "codec_law (le_codec env) \<Longrightarrow> live_untouched patch \<Longrightarrow> live_inv st \<Longrightarrow> step_facts st (fst (update_settings env patch st))"
  using update_settings_keeps [of env patch st "fst (update_settings env patch st)" "snd (update_settings env patch st)"]
  by (simp add: step_facts_def)

lemma put_settings_step:
  assumes c: "codec_law (le_codec env)" and w: "distinct (map fst patch)" and i: "live_inv st"
  shows "step_facts st (fst (put_settings env patch st))"
proof (cases "list_all (\<lambda>(k, v). k = ''live'' \<longrightarrow> live_patch_allowed v) patch")
  case False
  then show ?thesis using i by (simp add: put_settings_def step_facts_refl)
next
  case True
  then have p: "put_settings env patch st = update_settings env patch st" by (simp add: put_settings_def)
  show ?thesis
  proof (cases "live_untouched patch")
    case True
    then show ?thesis using update_step [OF c _ i] p by simp
  next
    case False
    then obtain v where v: "(''live'', v) \<in> set patch" "\<not> (\<exists>d. v = JObj d \<and> fst ` set d \<subseteq> {''paper_completed'', ''shadow_reviewed''})"
      by (auto simp: live_untouched_def)
    have "live_patch_allowed v" using True v(1) by (auto simp: list_all_iff)
    with v(2) have "\<forall>d. v \<noteq> JObj d" by (auto simp: live_patch_allowed_def list_all_iff split: json.splits)
    then have "map_of (deep_merge (cd_dump (le_codec env) (cx_settings (ls_cx st))) patch) ''live'' = Some v"
      by (rule deep_merge_last [OF w v(1)])
    then have "\<nexists>s. cd_validate (le_codec env) (deep_merge (cd_dump (le_codec env) (cx_settings (ls_cx st))) patch) = Inr s"
      using c \<open>\<forall>d. v \<noteq> JObj d\<close> unfolding codec_law_def by blast
    then have "fst (update_settings env patch st) = st"
      by (auto simp: update_settings_def Let_def split: sum.splits)
    then show ?thesis using p i by (simp add: step_facts_refl)
  qed
qed

lemma start_settings_live:
  fixes m :: string
  assumes c: "codec_law (le_codec env)" and i: "live_inv st"
  defines "s \<equiv> start_settings env m (Some (cd_dump (le_codec env) (cx_settings (ls_cx st))))"
  shows "(gs_mode (s_general s) = LIVE \<longleftrightarrow> la_activated (s_live s)) \<and> (gs_mode (s_general s) = LIVE \<longrightarrow> live_mode_of st = LIVE) \<and>
    la_small_test_route (s_live s) \<in> {None, la_small_test_route (cx_live st)} \<and>
    (gs_mode (s_general s) = LIVE \<longrightarrow> la_stage (s_live s) = la_stage (cx_live st))"
proof (cases "cd_validate (le_codec env) (cd_dump (le_codec env) (cx_settings (ls_cx st)))")
  case (Inl e)
  have "la_small_test_route (s_live (default_settings m)) = None" "gs_mode (s_general (default_settings m)) \<noteq> LIVE"
    "\<not> la_activated (s_live (default_settings m))"
    by (simp_all add: default_settings_def conservative_profile_def app_defaults_def live_defaults_def Let_def)
  then show ?thesis using Inl by (simp add: s_def start_settings_def Let_def)
next
  case (Inr v)
  have "json_at (cd_dump (le_codec env) (cx_settings (ls_cx st))) ''general'' ''mode'' = Some (JStr (mode_value (live_mode_of st)))"
    using c unfolding codec_law_def live_mode_of_def cx_mode_def by blast
  then have "mode_value (gs_mode (s_general v)) = mode_value (live_mode_of st)" using c Inr unfolding codec_law_def by blast
  moreover have "la_activated (s_live v) = la_activated (cx_live st)" "la_stage (s_live v) = la_stage (cx_live st)"
    "la_small_test_route (s_live v) = la_small_test_route (cx_live st)"
    using c Inr unfolding codec_law_def cx_live_def by blast+
  ultimately show ?thesis using Inr i by (auto simp: s_def start_settings_def Let_def mode_value_inj live_inv_def)
qed

lemma serve_step:
  assumes c: "codec_law (le_codec env)" and w: "wf_request req" and i: "live_inv st"
  defines "st' \<equiv> fst (serve env req st)"
  shows "live_inv st'"
    and "live_mode_of st' = LIVE \<Longrightarrow> live_mode_of st \<noteq> LIVE \<Longrightarrow> \<exists>p. req = Activate_Live p \<and> strip p = LIVE_CONFIRMATION_PHRASE \<and>
      ready (live_readiness (le_ready env) (ls_cx st)) \<and> re_live_allowed (le_ready env)"
    and "small_inv st \<Longrightarrow> \<forall>p a. req = Activate_Full_Live p a \<longrightarrow> strip p \<noteq> FULL_LIVE_CONFIRMATION_PHRASE \<Longrightarrow> small_inv st'"
proof -
  note u = update_step [OF c _ i]
  have "step_facts st st' \<or> (\<exists>m. req = Restart m) \<or> (\<exists>p. req = Activate_Live p) \<or> (\<exists>p a. req = Activate_Full_Live p a)"
  proof (cases req)
    case (Put_Settings p)
    with put_settings_step [OF c _ i, of p] w show ?thesis by (simp add: st'_def serve_def as_unit_def wf_request_def)
  next
    case (Set_Mode m)
    then show ?thesis using u by (auto simp: st'_def serve_def as_unit_def set_mode_def step_facts_refl i live_untouched_def split: option.split)
  next
    case (Set_Risk_Profile m)
    then show ?thesis using u by (auto simp: st'_def serve_def as_unit_def set_risk_profile_def step_facts_refl i live_untouched_def)
  next
    case Deactivate_Live
    then show ?thesis using update_to_paper [OF c _ i, of "fst (deactivate_live env st)" "snd (deactivate_live env st)"]
      by (simp add: st'_def serve_def as_unit_def step_facts_def)
  qed (use u in \<open>simp_all add: st'_def serve_def as_unit_def toggle_def live_untouched_def\<close>)
  moreover have thesis_of: "live_inv st' \<and> (live_mode_of st' = LIVE \<longrightarrow> live_mode_of st = LIVE) \<and> (small_inv st \<longrightarrow> small_inv st')"
    if "step_facts st st'"
    using that by (auto simp: step_facts_def small_inv_def)
  moreover have "live_inv st' \<and> (live_mode_of st' = LIVE \<longrightarrow> live_mode_of st = LIVE) \<and> (small_inv st \<longrightarrow> small_inv st')"
    if "req = Restart m" for m
    using start_settings_live [OF c i, of m] that
    by (auto simp: st'_def serve_def restart_def Let_def live_inv_def small_inv_def live_mode_of_def cx_live_def cx_mode_def)
  moreover have "live_inv st' \<and> (live_mode_of st' = LIVE \<longrightarrow> live_mode_of st \<noteq> LIVE \<longrightarrow> strip p = LIVE_CONFIRMATION_PHRASE \<and>
      ready (live_readiness (le_ready env) (ls_cx st)) \<and> re_live_allowed (le_ready env)) \<and> (small_inv st \<longrightarrow> small_inv st')"
    if "req = Activate_Live p" for p
    using that i by (auto simp: st'_def serve_def as_unit_def activate_live_def Let_def live_inv_def small_inv_def live_mode_of_def
        cx_live_def cx_mode_def activated_settings_def)
  moreover have "live_inv st' \<and> (live_mode_of st' = LIVE \<longrightarrow> live_mode_of st = LIVE) \<and>
      (small_inv st \<longrightarrow> strip p \<noteq> FULL_LIVE_CONFIRMATION_PHRASE \<longrightarrow> small_inv st')"
    if "req = Activate_Full_Live p a" for p a
    using that i by (auto simp: st'_def serve_def activate_full_live_def Let_def live_inv_def small_inv_def live_mode_of_def
        cx_live_def cx_mode_def)
  ultimately have all: "live_inv st' \<and> (live_mode_of st' = LIVE \<longrightarrow> live_mode_of st \<noteq> LIVE \<longrightarrow> (\<exists>p. req = Activate_Live p \<and>
      strip p = LIVE_CONFIRMATION_PHRASE \<and> ready (live_readiness (le_ready env) (ls_cx st)) \<and> re_live_allowed (le_ready env))) \<and>
    (small_inv st \<longrightarrow> (\<forall>p a. req = Activate_Full_Live p a \<longrightarrow> strip p \<noteq> FULL_LIVE_CONFIRMATION_PHRASE) \<longrightarrow> small_inv st')"
    by blast
  show "live_inv st'" using all by blast
  show "\<exists>p. req = Activate_Live p \<and> strip p = LIVE_CONFIRMATION_PHRASE \<and> ready (live_readiness (le_ready env) (ls_cx st)) \<and>
      re_live_allowed (le_ready env)" if "live_mode_of st' = LIVE" "live_mode_of st \<noteq> LIVE"
    using all that by blast
  show "small_inv st'" if "small_inv st" "\<forall>p a. req = Activate_Full_Live p a \<longrightarrow> strip p \<noteq> FULL_LIVE_CONFIRMATION_PHRASE"
    using all that by blast
qed

text \<open>Live trading is activated exactly in live mode: any sequence of requests (settings documents, switches, modes,
  profiles, activations, deactivations, restarts) keeps it so, for every document the API can be sent.\<close>

theorem live_iff_activated:
  assumes "\<forall>(env, req) \<in> set reqs. codec_law (le_codec env) \<and> wf_request req" and "live_inv st"
  shows "live_inv (serve_all reqs st)"
  using assms
proof (induction reqs arbitrary: st)
  case (Cons a reqs)
  obtain env req where a: "a = (env, req)" by (cases a)
  have "live_inv (fst (serve env req st))" using Cons.prems a by (intro serve_step(1)) auto
  with Cons a show ?case by (simp add: serve_all_def)
qed (simp add: serve_all_def)

lemma serve_all_inv: "\<forall>(env, req) \<in> set reqs. codec_law (le_codec env) \<and> wf_request req \<Longrightarrow> live_inv st \<Longrightarrow> live_inv (serve_all reqs st)"
proof (induction reqs rule: rev_induct)
  case (snoc a reqs)
  obtain env req where a: "a = (env, req)" by (cases a)
  have "live_inv (fst (serve env req (serve_all reqs st)))" using snoc a by (intro serve_step(1)) auto
  with a show ?case by (simp add: serve_all_def)
qed (simp add: serve_all_def)

text \<open>C6. Live mode is entered through the workflow only: whenever a sequence of requests leads from another mode into live
  mode, it contains an activation with the exact phrase at a moment when the environment allows live trading
  and every required item of the readiness checklist is met, and live mode has lasted since.\<close>

theorem live_only_by_activation:
  assumes "\<forall>(env, req) \<in> set reqs. codec_law (le_codec env) \<and> wf_request req" and "live_inv st"
    and "live_mode_of st \<noteq> LIVE" and "live_mode_of (serve_all reqs st) = LIVE"
  shows "\<exists>pre env p post. reqs = pre @ (env, Activate_Live p) # post \<and> strip p = LIVE_CONFIRMATION_PHRASE \<and>
    ready (live_readiness (le_ready env) (ls_cx (serve_all pre st))) \<and> re_live_allowed (le_ready env) \<and>
    (\<forall>k \<le> length post. live_mode_of (serve_all (take k post) (fst (serve env (Activate_Live p) (serve_all pre st)))) = LIVE)"
  using assms(1,4)
proof (induction reqs rule: rev_induct)
  case Nil
  then show ?case using assms(3) by (simp add: serve_all_def)
next
  case (snoc a reqs)
  obtain env req where a: "a = (env, req)" by (cases a)
  have last: "serve_all (reqs @ [a]) st = fst (serve env req (serve_all reqs st))" by (simp add: serve_all_def a)
  have laws: "codec_law (le_codec env)" "wf_request req" using snoc.prems(1) a by auto
  have inv: "live_inv (serve_all reqs st)" using snoc.prems(1) assms(2) by (intro serve_all_inv) auto
  show ?case
  proof (cases "live_mode_of (serve_all reqs st) = LIVE")
    case True
    have "\<forall>(env, req) \<in> set reqs. codec_law (le_codec env) \<and> wf_request req" using snoc.prems(1) by simp
    from snoc.IH [OF this True] obtain pre env' p post where r: "reqs = pre @ (env', Activate_Live p) # post"
      "strip p = LIVE_CONFIRMATION_PHRASE" "ready (live_readiness (le_ready env') (ls_cx (serve_all pre st)))" "re_live_allowed (le_ready env')"
      "\<forall>k \<le> length post. live_mode_of (serve_all (take k post) (fst (serve env' (Activate_Live p) (serve_all pre st)))) = LIVE" by blast
    let ?st1 = "fst (serve env' (Activate_Live p) (serve_all pre st))"
    have whole: "serve_all (reqs @ [a]) st = serve_all (post @ [a]) ?st1" by (simp add: serve_all_def r(1))
    have "live_mode_of (serve_all (take k (post @ [a])) ?st1) = LIVE" if "k \<le> length (post @ [a])" for k
    proof (cases "k \<le> length post")
      case True
      then show ?thesis using r(5) by simp
    next
      case False
      then have "take k (post @ [a]) = post @ [a]" using that by simp
      then show ?thesis using snoc.prems(2) whole by simp
    qed
    with r show ?thesis by (intro exI [of _ pre] exI [of _ env'] exI [of _ p] exI [of _ "post @ [a]"]) simp
  next
    case False
    from serve_step(2) [OF laws inv] False snoc.prems(2) last obtain p where p: "req = Activate_Live p" "strip p = LIVE_CONFIRMATION_PHRASE"
      "ready (live_readiness (le_ready env) (ls_cx (serve_all reqs st)))" "re_live_allowed (le_ready env)" by auto
    have "live_mode_of (fst (serve env (Activate_Live p) (serve_all reqs st))) = LIVE"
      using snoc.prems(2) last p(1) by simp
    with p a show ?thesis
      by (intro exI [of _ reqs] exI [of _ env] exI [of _ p] exI [of _ "[]"]) (simp add: serve_all_def)
  qed
qed

lemma no_route_blocks:
  assumes "gs_mode (s_general s) = LIVE" and "la_stage (s_live s) \<noteq> ''full''" and "la_small_test_route (s_live s) = None"
  shows "\<not> ra_passed (risk_assess s q p now)"
proof
  assume "ra_passed (risk_assess s q p now)"
  from risk_passed_groups(1) [OF this] assms show False by (simp add: small_test_reasons_def Let_def)
qed

text \<open>C25. The small live test cannot trade: no request of the API sets the route of the small test, so after any sequence of
  requests without the phrase for full live trading, starting where no route was chosen (as in a new
  installation), every risk assessment in live mode fails, whatever the trade and the portfolio are. Before the
  promotion to full live trading nothing is executed.\<close>

theorem small_test_never_trades:
  assumes "\<forall>(env, req) \<in> set reqs. codec_law (le_codec env) \<and> wf_request req \<and>
      (\<forall>p a. req = Activate_Full_Live p a \<longrightarrow> strip p \<noteq> FULL_LIVE_CONFIRMATION_PHRASE)"
    and "small_inv st" and "live_mode_of (serve_all reqs st) = LIVE"
  shows "la_stage (cx_live (serve_all reqs st)) = ''small_test'' \<and>
    \<not> ra_passed (risk_assess (cx_settings (ls_cx (serve_all reqs st))) q p now)"
proof -
  have "small_inv (serve_all reqs st)"
    using assms(1)
  proof (induction reqs rule: rev_induct)
    case (snoc a reqs)
    obtain env req where a: "a = (env, req)" by (cases a)
    have l: "codec_law (le_codec env)" "wf_request req" "\<forall>p a. req = Activate_Full_Live p a \<longrightarrow> strip p \<noteq> FULL_LIVE_CONFIRMATION_PHRASE"
      using snoc.prems a by auto
    have s: "small_inv (serve_all reqs st)" using snoc by simp
    then have "live_inv (serve_all reqs st)" by (simp add: small_inv_def)
    from serve_step(3) [OF l(1,2) this s l(3)] a show ?case by (simp add: serve_all_def)
  qed (use assms(2) in \<open>simp add: serve_all_def\<close>)
  with assms(3) show ?thesis
    using no_route_blocks [of "cx_settings (ls_cx (serve_all reqs st))" q p now]
    by (simp add: small_inv_def cx_live_def live_mode_of_def cx_mode_def)
qed

text \<open>An activation is the first of three steps: after it succeeds the application is in live mode, activated, in the
  small test, in shadow mode and without automatic execution, so that the scan loop hands nothing to an engine.\<close>

theorem activation_starts_shadowed:
  assumes "activate_live env p st = (st', Inr items)"
  shows "live_mode_of st' = LIVE \<and> la_activated (cx_live st') \<and> la_stage (cx_live st') = ''small_test'' \<and>
    gs_shadow_mode (s_general (cx_settings (ls_cx st'))) \<and> \<not> ts_auto_execute (s_trading (cx_settings (ls_cx st'))) \<and>
    (\<forall>os. auto_execute (ls_cx st') os = None)"
proof -
  let ?s = "activated_settings env p (cx_settings (ls_cx st))"
  have s: "cx_settings (ls_cx st') = ?s"
    using assms by (auto simp: activate_live_def Let_def split: if_splits)
  then show ?thesis
    by (auto simp: live_mode_of_def cx_live_def cx_mode_def activated_settings_def auto_execute_def)
qed

subsection \<open>The paper account\<close>

definition reset_paper :: "live_env \<Rightarrow> live_state \<Rightarrow> live_state \<times> message option" where
  "reset_paper env st =
     (let cx = ls_cx st; s = cx_settings cx in
      case cx_ledger cx of
        None \<Rightarrow> (st, Some (Msg ''reset is only available in paper/simulation mode'' []))
      | Some l \<Rightarrow>
          if live_mode_of st \<notin> {SIMULATION, PAPER} then (st, Some (Msg ''reset is only available in paper/simulation mode'' []))
          else let l1 = ledger_seed (ps_starting_balances (s_paper s)) l in
            (st\<lparr>ls_saved := (ls_saved st)(live_mode_of st := ledger_dump l1),
                ls_cx := refresh_inventory env (cx\<lparr>cx_ledger := Some l1, cx_daily_pnl_usd := 0, cx_failed_trades_last_hour := 0,
                  cx_recent := [], cx_breakers := fst (reset (cx_breakers cx) None None)\<rparr>)\<rparr>, None))"

definition adjust_paper_funds :: "live_env \<Rightarrow> string \<Rightarrow> string \<Rightarrow> decimal \<Rightarrow> live_state \<Rightarrow> live_state \<times> message option" where
  "adjust_paper_funds env v a amount st =
     (let cx = ls_cx st in
      case cx_ledger cx of
        None \<Rightarrow> (st, Some (Msg ''paper ledger not active'' []))
      | Some l \<Rightarrow>
          (case ledger_adjust l v a amount False of
             (l1, Inl e) \<Rightarrow> (st\<lparr>ls_cx := cx\<lparr>cx_ledger := Some l1\<rparr>\<rparr>, Some e)
           | (l1, Inr _) \<Rightarrow> (st\<lparr>ls_saved := (ls_saved st)(live_mode_of st := ledger_dump l1),
               ls_cx := refresh_inventory env (cx\<lparr>cx_ledger := Some l1\<rparr>)\<rparr>, None)))"

lemma update_to_other_mode:
  assumes "update_settings env patch st = (st', Inr s)" and "gs_mode (s_general s) \<noteq> live_mode_of st"
  shows "cx_settings (ls_cx st') = s \<and> live_mode_of st' = gs_mode (s_general s) \<and>
    cx_ledger (ls_cx st') = (if gs_mode (s_general s) \<in> {SIMULATION, PAPER}
      then Some (paper_account env s (ls_saved (save_paper st) (gs_mode (s_general s)))) else None) \<and>
    (\<forall>m. ls_saved (save_paper st) m \<noteq> [] \<longrightarrow> ls_saved st' m = ls_saved (save_paper st) m)"
proof -
  let ?st2 = "(save_paper st)\<lparr>ls_cx := adopt_settings s (ls_cx st)\<rparr>"
  have "structural_change st s" using assms(2) by (simp add: structural_change_def live_mode_of_def cx_mode_def Let_def)
  with assms have "st' = rebuild_connectors env ?st2"
    by (auto simp: update_settings_def Let_def split: sum.splits if_splits)
  moreover have "cx_settings (ls_cx ?st2) = s" by (simp add: adopt_settings_def)
  ultimately show ?thesis
    by (auto simp: rebuild_connectors_def Let_def refresh_inventory_def live_mode_of_def cx_mode_def)
qed


text \<open>Resetting the paper account drops every alarm, also the manual ones and those of an emergency stop that is still on.\<close>

theorem paper_reset_drops_alarms:
  assumes "reset_paper env st = (st', None)"
  shows "active_breakers (cx_breakers (ls_cx st')) = [] \<and> cx_emergency_stop (ls_cx st') = cx_emergency_stop (ls_cx st)"
  using assms
  by (auto simp: reset_paper_def Let_def refresh_inventory_def active_breakers_def reset_def reset_matches_def vals_def
      split: option.splits if_splits)

subsection \<open>Witnesses\<close>

definition demo_codec :: codec where
  \<comment> \<open>a printer and a reader of the fields the laws name; the rest of the document has its default\<close>
  "demo_codec = \<lparr>
     cd_dump = (\<lambda>s. [(''general'', JObj [(''mode'', JStr (mode_value (gs_mode (s_general s))))]),
       (''live'', JObj [(''activated'', JBool (la_activated (s_live s))), (''stage'', JStr (la_stage (s_live s))),
          (''small_test_route'', case la_small_test_route (s_live s) of None \<Rightarrow> JNull | Some r \<Rightarrow> JStr r)])]),
     cd_validate = (\<lambda>d. case (json_at d ''general'' ''mode'', json_at d ''live'' ''activated'', json_at d ''live'' ''stage'',
         json_at d ''live'' ''small_test_route'') of
       (Some (JStr m), Some (JBool b), Some (JStr g), Some r) \<Rightarrow>
         (case (parse_mode m, case r of JNull \<Rightarrow> Some None | JStr x \<Rightarrow> Some (Some x) | _ \<Rightarrow> None) of
            (Some mode, Some route) \<Rightarrow> Inr (app_defaults\<lparr>s_general := general_defaults\<lparr>gs_mode := mode\<rparr>,
              s_live := live_defaults\<lparr>la_activated := b, la_stage := g, la_small_test_route := route\<rparr>\<rparr>)
          | _ \<Rightarrow> Inl (Msg ''invalid'' []))
     | _ \<Rightarrow> Inl (Msg ''invalid'' []))\<rparr>"

lemma parse_mode_value: "parse_mode m = Some mode \<Longrightarrow> mode_value mode = m"
  by (auto simp: parse_mode_def split: if_splits)

lemma demo_codec_law: "codec_law demo_codec"
proof -
  have dump: "json_at (cd_dump demo_codec s) ''general'' ''mode'' = Some (JStr (mode_value (gs_mode (s_general s))))"
    "json_at (cd_dump demo_codec s) ''live'' ''activated'' = Some (JBool (la_activated (s_live s)))"
    "json_at (cd_dump demo_codec s) ''live'' ''stage'' = Some (JStr (la_stage (s_live s)))"
    "json_at (cd_dump demo_codec s) ''live'' ''small_test_route'' =
       Some (case la_small_test_route (s_live s) of None \<Rightarrow> JNull | Some r \<Rightarrow> JStr r)"
    "\<exists>b. map_of (cd_dump demo_codec s) ''live'' = Some (JObj b)" "\<exists>b. map_of (cd_dump demo_codec s) ''general'' = Some (JObj b)" for s
    by (simp_all add: demo_codec_def json_at_def)
  have read: "\<exists>m mode. json_at d ''general'' ''mode'' = Some (JStr m) \<and> parse_mode m = Some mode \<and>
      json_at d ''live'' ''activated'' = Some (JBool (la_activated (s_live s))) \<and> json_at d ''live'' ''stage'' = Some (JStr (la_stage (s_live s))) \<and>
      gs_mode (s_general s) = mode \<and> json_at d ''live'' ''small_test_route'' =
       Some (case la_small_test_route (s_live s) of None \<Rightarrow> JNull | Some r \<Rightarrow> JStr r)"
    if "cd_validate demo_codec d = Inr s" for d s
    using that by (auto simp: demo_codec_def split: option.splits json.splits)
  have obj: "\<exists>b. v = JObj b" if "json_at d ''live'' k = Some x" "map_of d ''live'' = Some v" for d k x v
    using that by (auto simp: json_at_def split: json.splits)
  have route: "(case a of None \<Rightarrow> JNull | Some r \<Rightarrow> JStr r) = (case b of None \<Rightarrow> JNull | Some r \<Rightarrow> JStr r) \<longleftrightarrow> a = b" for a b
    by (auto split: option.splits)
  show ?thesis
    unfolding codec_law_def
  proof (intro conjI allI impI)
    fix d s
    assume "cd_validate demo_codec d = Inr s"
    from read [OF this] obtain m mode where r0: "json_at d ''general'' ''mode'' = Some (JStr m) \<and> parse_mode m = Some mode \<and>
      json_at d ''live'' ''activated'' = Some (JBool (la_activated (s_live s))) \<and> json_at d ''live'' ''stage'' = Some (JStr (la_stage (s_live s))) \<and>
      gs_mode (s_general s) = mode \<and> json_at d ''live'' ''small_test_route'' =
       Some (case la_small_test_route (s_live s) of None \<Rightarrow> JNull | Some r \<Rightarrow> JStr r)" by (elim exE) (rule that)
    note r = r0 [THEN conjunct1] r0 [THEN conjunct2, THEN conjunct1] r0 [THEN conjunct2, THEN conjunct2, THEN conjunct1]
      r0 [THEN conjunct2, THEN conjunct2, THEN conjunct2, THEN conjunct1]
      r0 [THEN conjunct2, THEN conjunct2, THEN conjunct2, THEN conjunct2, THEN conjunct1]
      r0 [THEN conjunct2, THEN conjunct2, THEN conjunct2, THEN conjunct2, THEN conjunct2]
    show "\<exists>b. v = JObj b" if "map_of d ''live'' = Some v" for v using obj [OF r(3) that] .
    show "la_activated (s_live s) = b" if "json_at d ''live'' ''activated'' = Some (JBool b)" for b using r(3) that by simp
    show "mode_value (gs_mode (s_general s)) = m'" if "json_at d ''general'' ''mode'' = Some (JStr m')" for m'
      using r(1,5) parse_mode_value [OF r(2)] that by simp
    fix s0
    show "la_activated (s_live s) = la_activated (s_live s0)" if "json_at d ''live'' ''activated'' = json_at (cd_dump demo_codec s0) ''live'' ''activated''"
      using r(3) dump(2) [of s0] that by simp
    show "la_stage (s_live s) = la_stage (s_live s0)" if "json_at d ''live'' ''stage'' = json_at (cd_dump demo_codec s0) ''live'' ''stage''"
      using r(4) dump(3) [of s0] that by simp
    show "la_small_test_route (s_live s) = la_small_test_route (s_live s0)"
      if "json_at d ''live'' ''small_test_route'' = json_at (cd_dump demo_codec s0) ''live'' ''small_test_route''"
      using r(6) dump(4) [of s0] that by (simp add: route)
  qed (use dump in auto)
qed

definition demo_live_env :: live_env where
  "demo_live_env = \<lparr>le_codec = demo_codec, le_hash = id, le_now_text = ''now'', le_actor = ''user'', le_ready = demo_ready, le_filled = 0,
     le_connect = (\<lambda>_ _. []), le_balances = (\<lambda>_. new_inventory), le_price = (\<lambda>_. None), le_context = before_live\<rparr>"

definition demo_live_state :: live_state where
  "demo_live_state = \<lparr>ls_cx = before_live, ls_saved = (\<lambda>_. [])\<rparr>"

lemma live_demo_simps [simp]:
  "le_codec demo_live_env = demo_codec" "le_ready demo_live_env = demo_ready" "re_live_allowed demo_ready"
  "live_mode_of demo_live_state = TESTNET" "ls_cx demo_live_state = before_live"
  by (simp_all add: demo_live_env_def demo_ready_def demo_live_state_def live_mode_of_def cx_mode_def before_live_def)

lemma demo_small_inv: "small_inv demo_live_state"
  by (simp add: small_inv_def live_inv_def cx_live_def before_live_def live_defaults_def)

lemma demo_phrase: "strip LIVE_CONFIRMATION_PHRASE = LIVE_CONFIRMATION_PHRASE"
  by code_simp

lemma demo_activation:
  "\<exists>st' items. activate_live demo_live_env LIVE_CONFIRMATION_PHRASE demo_live_state = (st', Inr items) \<and>
     serve_all [(demo_live_env, Activate_Live LIVE_CONFIRMATION_PHRASE)] demo_live_state = st' \<and> live_mode_of st' = LIVE"
  using demo_readiness
  by (simp add: activate_live_def serve_all_def serve_def as_unit_def demo_phrase Let_def)
    (simp add: live_mode_of_def cx_mode_def activated_settings_def)

theorem live_iff_activated_witness:
  "live_inv (serve_all [(demo_live_env, Put_Settings [(''live'', JObj [(''activated'', JBool True)])]), (demo_live_env, Set_Mode ''live'')]
     demo_live_state)"
  using live_iff_activated [of "[(demo_live_env, Put_Settings [(''live'', JObj [(''activated'', JBool True)])]), (demo_live_env, Set_Mode ''live'')]"
      demo_live_state] demo_small_inv
  by (simp add: demo_codec_law wf_request_def small_inv_def)

theorem live_only_by_activation_witness:
  "\<exists>pre env p post. [(demo_live_env, Activate_Live LIVE_CONFIRMATION_PHRASE)] = pre @ (env, Activate_Live p) # post \<and>
     strip p = LIVE_CONFIRMATION_PHRASE \<and> re_live_allowed (le_ready env)"
proof -
  have "\<forall>(env, req) \<in> set [(demo_live_env, Activate_Live LIVE_CONFIRMATION_PHRASE)]. codec_law (le_codec env) \<and> wf_request req"
    by (simp add: demo_codec_law wf_request_def)
  moreover have "live_inv demo_live_state" using demo_small_inv by (simp add: small_inv_def)
  moreover have "live_mode_of demo_live_state \<noteq> LIVE" by simp
  moreover have "live_mode_of (serve_all [(demo_live_env, Activate_Live LIVE_CONFIRMATION_PHRASE)] demo_live_state) = LIVE"
    using demo_activation by metis
  ultimately show ?thesis using live_only_by_activation by meson
qed

theorem small_test_never_trades_witness:
  "\<forall>q p now. \<not> ra_passed (risk_assess (cx_settings (ls_cx (serve_all [(demo_live_env, Activate_Live LIVE_CONFIRMATION_PHRASE)]
     demo_live_state))) q p now)"
proof -
  have "\<forall>(env, req) \<in> set [(demo_live_env, Activate_Live LIVE_CONFIRMATION_PHRASE)]. codec_law (le_codec env) \<and> wf_request req \<and>
      (\<forall>p a. req = Activate_Full_Live p a \<longrightarrow> strip p \<noteq> FULL_LIVE_CONFIRMATION_PHRASE)"
    by (simp add: demo_codec_law wf_request_def)
  moreover have "live_mode_of (serve_all [(demo_live_env, Activate_Live LIVE_CONFIRMATION_PHRASE)] demo_live_state) = LIVE"
    using demo_activation by metis
  ultimately show ?thesis using small_test_never_trades [OF _ demo_small_inv] by blast
qed

theorem activation_starts_shadowed_witness:
  "\<exists>st' items. activate_live demo_live_env LIVE_CONFIRMATION_PHRASE demo_live_state = (st', Inr items) \<and>
     gs_shadow_mode (s_general (cx_settings (ls_cx st')))"
  using demo_activation activation_starts_shadowed by meson

definition demo_paper_state :: live_state where
  "demo_paper_state = \<lparr>ls_cx = demo_ctx\<lparr>cx_settings := app_defaults\<rparr>, ls_saved = (\<lambda>_. [])\<rparr>"

definition demo_reader :: "trading_mode \<Rightarrow> live_env" where
  \<comment> \<open>an environment whose documents all read as the default settings in one mode\<close>
  "demo_reader m = demo_live_env\<lparr>le_codec := \<lparr>cd_dump = (\<lambda>_. []), cd_validate = (\<lambda>_. Inr (app_defaults\<lparr>s_general := general_defaults\<lparr>gs_mode := m\<rparr>\<rparr>))\<rparr>\<rparr>"

lemma demo_reads: "m \<noteq> LIVE \<Longrightarrow> \<exists>st'. update_settings (demo_reader m) [] st = (st', Inr (app_defaults\<lparr>s_general := general_defaults\<lparr>gs_mode := m\<rparr>\<rparr>)) \<or>
    live_mode_of st = LIVE"
  by (auto simp: update_settings_def demo_reader_def Let_def with_profile_def profile_touched_def json_at_def live_mode_of_def cx_mode_def)


end
