(* ===== verification/Transfers.thy ===== *)
theory Transfers
  imports Live_Mode Cex_Connector Opportunity_Engine
begin

text \<open>
  Model of deposits and withdrawals (\<^verbatim>\<open>backend/fedr/wallets/transfers.py\<close>, the withdrawal and allowlist routes of
  \<^verbatim>\<open>backend/fedr/api/routes/wallets.py\<close>, the table of withdrawals of \<^verbatim>\<open>backend/fedr/db/repo.py\<close>): the monitor that finds
  deposits in balances, the checks of a destination, the quote, the construction of transactions and the request
  with its idempotency key. The nodes, the address libraries and the digest are arguments.
\<close>

subsection \<open>Deposits\<close>

record deposit_event =
  de_chain :: string
  de_asset :: string
  de_amount :: decimal
  de_at_ms :: int
  de_address :: string
  de_key :: string

record deposit_monitor =
  dm_last :: "(string \<times> string, decimal) dict"
  dm_events :: "deposit_event list"
  dm_seen :: "string list"

definition new_deposit_monitor :: deposit_monitor where
  "new_deposit_monitor = \<lparr>dm_last = [], dm_events = [], dm_seen = []\<rparr>"

type_synonym digest = "string \<Rightarrow> string \<Rightarrow> string \<Rightarrow> decimal \<Rightarrow> string"

record observation =
  \<comment> \<open>one refresh of the balances of a chain\<close>
  ob_chain :: string
  ob_address :: string
  ob_now_ms :: int
  ob_expected :: "(string, decimal) dict"
  ob_balances :: "(string \<times> decimal) list"

definition observe_one :: "digest \<Rightarrow> observation \<Rightarrow> deposit_monitor \<times> deposit_event list \<Rightarrow> string \<times> decimal \<Rightarrow>
    deposit_monitor \<times> deposit_event list" where
  "observe_one h ob = (\<lambda>(m, out) (asset, amount).
     let key = (ob_chain ob, asset); m1 = m\<lparr>dm_last := AList.update key amount (dm_last m)\<rparr> in
     case map_of (dm_last m) key of
       None \<Rightarrow> (m1, out)
     | Some prev \<Rightarrow>
         let delta = dsub (dsub amount prev) (dget (ob_expected ob) asset 0); dk = h (ob_chain ob) asset (ob_address ob) amount in
         if delta \<le> 1 / 10 ^ 6 \<or> dk \<in> set (dm_seen m) then (m1, out)
         else let ev = \<lparr>de_chain = ob_chain ob, de_asset = asset, de_amount = delta, de_at_ms = ob_now_ms ob,
                        de_address = ob_address ob, de_key = dk\<rparr>
              in (m1\<lparr>dm_seen := dm_seen m @ [dk], dm_events := dm_events m @ [ev]\<rparr>, out @ [ev]))"

definition observe :: "digest \<Rightarrow> observation \<Rightarrow> deposit_monitor \<Rightarrow> deposit_monitor \<times> deposit_event list" where
  "observe h ob m =
     (case foldl (observe_one h ob) (m, []) (ob_balances ob) of
        (m1, out) \<Rightarrow> (m1\<lparr>dm_events := last_n 200 (dm_events m1)\<rparr>, out))"

subsection \<open>Destinations\<close>

record chain_env =
  tv_rpc :: "chain \<Rightarrow> bool"
  tv_tokens :: "chain \<Rightarrow> string \<Rightarrow> (string \<times> int) option"
  tv_gas_price :: "message + int"
  tv_chain_id :: "message + int"
  tv_nonce :: "message + int"
  tv_estimate :: "message + int"
  tv_send :: "message + string"
  tv_box :: key_box
  tv_account :: "string \<Rightarrow> message + string"
  tv_account_exists :: "message + bool"
  tv_simulate :: "message option"
  tv_pubkey_ok :: "string \<Rightarrow> bool"
  tv_is_checksum :: "string \<Rightarrow> bool"
  tv_checksum :: "string \<Rightarrow> message + string"
  tv_price :: "string \<Rightarrow> decimal option"
  tv_now_ms :: int
  tv_digest :: "string \<Rightarrow> string \<Rightarrow> decimal \<Rightarrow> string \<Rightarrow> string \<Rightarrow> string"
  tv_minute :: string
  tv_row_id :: string

definition end_anchor :: "string \<Rightarrow> string" where
  \<comment> \<open>the dollar sign of a pattern also matches before a final newline\<close>
  "end_anchor a = (if a \<noteq> [] \<and> last a = CHR 0x0A then butlast a else a)"

definition hex_char :: "char \<Rightarrow> bool" where
  "hex_char c \<longleftrightarrow> is_digit c \<or> lower_char c \<in> {CHR ''a'', CHR ''b'', CHR ''c'', CHR ''d'', CHR ''e'', CHR ''f''}"

definition evm_shape :: "string \<Rightarrow> bool" where
  "evm_shape a = (let b = end_anchor a in take 2 b = ''0x'' \<and> length b = 42 \<and> list_all hex_char (drop 2 b))"

definition base58_chars :: string where
  "base58_chars = ''123456789ABCDEFGHJKLMNPQRSTUVWXYZabcdefghijkmnopqrstuvwxyz''"

definition solana_shape :: "string \<Rightarrow> bool" where
  "solana_shape a = (let b = end_anchor a in 32 \<le> length b \<and> length b \<le> 44 \<and> list_all (\<lambda>c. c \<in> set base58_chars) b)"

definition validate_destination :: "chain_env \<Rightarrow> chain \<Rightarrow> string \<Rightarrow> message option" where
  "validate_destination env ch a =
     (if ch = SOLANA
      then (if \<not> solana_shape a then Some (Msg ''destination is not a valid Solana address'' [])
            else if \<not> tv_pubkey_ok env a then Some (Msg ''destination is not a valid Solana public key'' [])
            else None)
      else if \<not> evm_shape a then Some (Msg ''destination is not a valid EVM address'' [])
      else if a \<noteq> lower a \<and> a \<noteq> map upper_char a \<and> \<not> tv_is_checksum env a
      then Some (Msg ''destination has an invalid EIP-55 checksum'' [])
      else None)"

subsection \<open>Quotes and transactions\<close>

fun CHAIN_IDS :: "chain \<Rightarrow> int option" where
  "CHAIN_IDS ETHEREUM = Some 1"
| "CHAIN_IDS BASE = Some 8453"
| "CHAIN_IDS ARBITRUM = Some 42161"
| "CHAIN_IDS OPTIMISM = Some 10"
| "CHAIN_IDS POLYGON = Some 137"
| "CHAIN_IDS BSC = Some 56"
| "CHAIN_IDS AVALANCHE = Some 43114"
| "CHAIN_IDS SOLANA = None"

record withdrawal_quote =
  wq_fee_native :: decimal
  wq_fee_usd :: "decimal option"
  wq_received :: decimal
  wq_available :: bool
  wq_reason :: "message option"
  wq_is_token :: bool

definition refused_quote :: "decimal \<Rightarrow> message \<Rightarrow> bool \<Rightarrow> withdrawal_quote" where
  "refused_quote amount why token = \<lparr>wq_fee_native = 0, wq_fee_usd = None, wq_received = amount, wq_available = False,
     wq_reason = Some why, wq_is_token = token\<rparr>"

definition token_info :: "chain_env \<Rightarrow> chain \<Rightarrow> string \<Rightarrow> (string \<times> int) option" where
  "token_info env ch asset = tv_tokens env ch (map upper_char asset)"

definition is_token_of :: "chain \<Rightarrow> string \<Rightarrow> bool" where
  "is_token_of ch asset \<longleftrightarrow> map upper_char asset \<noteq> native_token ch"

definition network_fee :: "chain_env \<Rightarrow> chain \<Rightarrow> bool \<Rightarrow> message + decimal" where
  "network_fee env ch token =
     (if ch = SOLANA then Inr (dadd (5 / 10 ^ 6) (if token then 203928 / 10 ^ 8 else 0))
      else map_sum id (\<lambda>price. ddiv (dmul (of_int price) (if token then 65000 else 21000)) (10 ^ 18)) (tv_gas_price env))"

definition withdrawal_quote_of :: "chain_env \<Rightarrow> chain \<Rightarrow> string \<Rightarrow> decimal \<Rightarrow> string \<Rightarrow> withdrawal_quote" where
  "withdrawal_quote_of env ch asset amount dest =
     (let token = is_token_of ch asset in
      case validate_destination env ch dest of
        Some e \<Rightarrow> refused_quote amount e False
      | None \<Rightarrow>
          if amount \<le> 0 then refused_quote amount (Msg ''amount must be positive'' []) False
          else if \<not> tv_rpc env ch then refused_quote amount (Msg ''no RPC configured'' [AStr (chain_value ch)]) False
          else if token \<and> token_info env ch asset = None
          then refused_quote amount (Msg ''not a known token'' [AStr asset, AStr (chain_value ch)]) True
          else (case network_fee env ch token of
                  Inl e \<Rightarrow> refused_quote amount (Msg ''RPC error'' [AMsg e]) token
                | Inr fee \<Rightarrow> \<lparr>wq_fee_native = fee,
                    wq_fee_usd = (case tv_price env (native_token ch) of None \<Rightarrow> None | Some px \<Rightarrow> if px = 0 then None else Some (dmul fee px)),
                    wq_received = amount, wq_available = True, wq_reason = None, wq_is_token = token\<rparr>))"

record evm_tx =
  et_to :: string
  et_value :: int
  et_transfer :: "(string \<times> int) option"
  et_gas :: int
  et_gas_price :: int
  et_nonce :: int
  et_chain_id :: int

definition build_evm_tx :: "chain_env \<Rightarrow> chain \<Rightarrow> string \<Rightarrow> decimal \<Rightarrow> string \<Rightarrow> int \<Rightarrow> int \<Rightarrow> bool \<Rightarrow> message + evm_tx" where
  "build_evm_tx env ch asset amount dest nonce price token =
     (case tv_checksum env dest of
        Inl e \<Rightarrow> Inl e
      | Inr to \<Rightarrow>
          (case CHAIN_IDS ch of
             None \<Rightarrow> Inl (Msg ''KeyError'' [AStr (chain_value ch)])
           | Some cid \<Rightarrow>
               if \<not> token
               then Inr \<lparr>et_to = to, et_value = trunc_int (dmul amount (10 ^ 18)), et_transfer = None, et_gas = 21000,
                      et_gas_price = price, et_nonce = nonce, et_chain_id = cid\<rparr>
               else (case token_info env ch asset of
                       None \<Rightarrow> Inl (Msg ''unknown token'' [AStr asset, AStr (chain_value ch)])
                     | Some (contract, decimals) \<Rightarrow>
                         (case tv_checksum env contract of
                            Inl e \<Rightarrow> Inl e
                          | Inr c \<Rightarrow> Inr \<lparr>et_to = c, et_value = 0,
                              et_transfer = Some (to, trunc_int (dmul amount (10 powi decimals))), et_gas = 90000,
                              et_gas_price = price, et_nonce = nonce, et_chain_id = cid\<rparr>))))"

record solana_tx =
  st_to :: string
  st_units :: int
  st_mint :: "string option"
  st_opens_account :: bool

datatype outgoing =
    \<comment> \<open>the account that signs, and the transfer\<close>
    Evm_Transfer string evm_tx
  | Solana_Transfer string solana_tx

type_synonym receipt_text = "string \<times> decimal"

definition padded_gas :: "int \<Rightarrow> int" where
  "padded_gas gas = trunc_int (fround (of_int gas * fround (12 / 10)))"

definition signer_of :: "chain_env \<Rightarrow> wallets \<Rightarrow> string \<Rightarrow> message + string" where
  \<comment> \<open>the account of the decrypted key of a wallet\<close>
  "signer_of env ws wid = (case wallet_secret (tv_box env) ws wid of Inl e \<Rightarrow> Inl (py_msg e) | Inr key \<Rightarrow> tv_account env key)"

definition send_evm ::
  "chain_env \<Rightarrow> wallets \<Rightarrow> string \<Rightarrow> chain \<Rightarrow> string \<Rightarrow> decimal \<Rightarrow> string \<Rightarrow> bool \<Rightarrow> outgoing option \<times> (message + receipt_text)" where
  \<comment> \<open>what was handed to the network, and the hash with the fee or the exception\<close>
  "send_evm env ws wid ch asset amount dest token =
     (case (signer_of env ws wid, tv_chain_id env, CHAIN_IDS ch) of
        (Inl e, _) \<Rightarrow> (None, Inl e)
      | (_, Inl e, _) \<Rightarrow> (None, Inl e)
      | (_, _, None) \<Rightarrow> (None, Inl (Msg ''KeyError'' [AStr (chain_value ch)]))
      | (Inr who, Inr cid, Some want) \<Rightarrow>
          if cid \<noteq> want then (None, Inl (Msg ''refusing to send on the wrong network'' [AInt cid, AInt want]))
          else (case (tv_nonce env, tv_gas_price env) of
                  (Inr nonce, Inr price) \<Rightarrow>
                    (case build_evm_tx env ch asset amount dest nonce price token of
                       Inl e \<Rightarrow> (None, Inl e)
                     | Inr tx \<Rightarrow>
                         (case (if token then map_sum id padded_gas (tv_estimate env) else Inr (et_gas tx)) of
                            Inl e \<Rightarrow> (None, Inl e)
                          | Inr gas \<Rightarrow>
                              let tx1 = tx\<lparr>et_gas := gas\<rparr> in
                              (Some (Evm_Transfer who tx1), map_sum id (\<lambda>h. (h, ddiv (dmul (of_int price) (of_int gas)) (10 ^ 18))) (tv_send env))))
                | (Inl e, _) \<Rightarrow> (None, Inl e)
                | (_, Inl e) \<Rightarrow> (None, Inl e)))"

definition send_solana ::
  "chain_env \<Rightarrow> wallets \<Rightarrow> string \<Rightarrow> string \<Rightarrow> decimal \<Rightarrow> string \<Rightarrow> bool \<Rightarrow> outgoing option \<times> (message + receipt_text)" where
  "send_solana env ws wid asset amount dest token =
     (case signer_of env ws wid of Inl e \<Rightarrow> (None, Inl e) | Inr who \<Rightarrow>
      case (if \<not> token then Inr \<lparr>st_to = dest, st_units = trunc_int (dmul amount (10 ^ 9)), st_mint = None, st_opens_account = False\<rparr>
            else case token_info env SOLANA asset of
                   None \<Rightarrow> Inl (Msg ''unknown SPL token'' [AStr asset])
                 | Some (mint, decimals) \<Rightarrow>
                     map_sum id (\<lambda>there. \<lparr>st_to = dest, st_units = trunc_int (dmul amount (10 powi decimals)), st_mint = Some mint,
                       st_opens_account = (\<not> there)\<rparr>) (tv_account_exists env)) of
        Inl e \<Rightarrow> (None, Inl e)
      | Inr tx \<Rightarrow>
          (case tv_simulate env of
             Some e \<Rightarrow> (None, Inl (Msg ''simulation failed'' [AMsg e]))
           | None \<Rightarrow> (Some (Solana_Transfer who tx), map_sum id (\<lambda>h. (h, 5 / 10 ^ 6)) (tv_send env))))"

definition execute_withdrawal ::
  "chain_env \<Rightarrow> wallets \<Rightarrow> chain \<Rightarrow> string \<Rightarrow> string \<Rightarrow> decimal \<Rightarrow> string \<Rightarrow> outgoing option \<times> (message + receipt_text)" where
  "execute_withdrawal env ws ch wid asset amount dest =
     (case validate_destination env ch dest of
        Some e \<Rightarrow> (None, Inl e)
      | None \<Rightarrow>
          if \<not> tv_rpc env ch then (None, Inl (Msg ''no RPC configured'' [AStr (chain_value ch)]))
          else if ch = SOLANA then send_solana env ws wid asset amount dest (is_token_of ch asset)
          else send_evm env ws wid ch asset amount dest (is_token_of ch asset))"

subsection \<open>The allowlist\<close>

definition parse_int :: "string \<Rightarrow> int option" where
  \<comment> \<open>\<open>int\<close> of a text (without the underscores Python also accepts)\<close>
  "parse_int t = (case take_sign (strip t) of (neg, ds) \<Rightarrow>
     if ds \<noteq> [] \<and> list_all is_digit ds then Some ((if neg then -1 else 1) * int (digits_value ds)) else None)"

definition allowlist_entry :: "security_settings \<Rightarrow> string \<Rightarrow> string \<Rightarrow> (string, string) dict option" where
  "allowlist_entry sec ch dest =
     find (\<lambda>a. lower (dget a ''address'' []) = lower dest \<and> dget a ''chain'' [] \<in> {[], ch}) (sec_withdrawal_allowlist sec)"

definition allowlist_reason :: "chain_env \<Rightarrow> security_settings \<Rightarrow> string \<Rightarrow> string \<Rightarrow> (message option) result" where
  "allowlist_reason env sec ch dest =
     (case allowlist_entry sec ch dest of
        None \<Rightarrow> Inr (if sec_require_allowlist_for_withdrawals sec then Some (Msg ''destination is not on the withdrawal allowlist'' []) else None)
      | Some a \<Rightarrow>
          if dget a ''added_at_ms'' [] = [] \<or> sec_new_address_delay_minutes sec \<le> 0 then Inr None
          else (case parse_int (dget a ''added_at_ms'' []) of
                  None \<Rightarrow> Inl ValueError
                | Some t \<Rightarrow>
                    let age = fround (of_int (tv_now_ms env - t) / 60000) in
                    Inr (if age < of_int (sec_new_address_delay_minutes sec)
                         then Some (Msg ''destination was added recently'' [AInt (trunc_int age)]) else None)))"

definition add_allowlist :: "chain_env \<Rightarrow> live_env \<Rightarrow> string \<Rightarrow> string \<Rightarrow> string \<Rightarrow> live_state \<Rightarrow> live_state \<times> (message + unit)" where
  "add_allowlist env lenv chn address label st =
     (case chain_named chn of
        None \<Rightarrow> (st, Inl (Msg ''unknown chain'' []))
      | Some ch \<Rightarrow>
          (case validate_destination env ch address of
             Some e \<Rightarrow> (st, Inl e)
           | None \<Rightarrow>
               let lst = sec_withdrawal_allowlist (s_security (cx_settings (ls_cx st))) in
               if list_ex (\<lambda>a. lower (dget a ''address'' []) = lower address \<and> map_of a ''chain'' = Some chn) lst then (st, Inr ())
               else serve lenv (Set_Allowlist (map (\<lambda>a. JObj (map (\<lambda>(k, v). (k, JStr v)) a)) lst
                      @ [JObj [(''chain'', JStr chn), (''address'', JStr address), (''label'', JStr label),
                               (''added_at_ms'', JNum (of_int (tv_now_ms env)))]])) st))"

definition remove_allowlist :: "live_env \<Rightarrow> string \<Rightarrow> live_state \<Rightarrow> live_state \<times> (message + unit)" where
  "remove_allowlist lenv address st =
     serve lenv (Set_Allowlist (map (\<lambda>a. JObj (map (\<lambda>(k, v). (k, JStr v)) a))
       (filter (\<lambda>a. lower (dget a ''address'' []) \<noteq> lower address) (sec_withdrawal_allowlist (s_security (cx_settings (ls_cx st))))))) st"

subsection \<open>The request\<close>

record withdrawal_body =
  wb_chain :: string
  wb_asset :: string
  wb_amount :: decimal
  wb_destination :: string
  wb_confirm :: bool
  wb_request_key :: "string option"

record withdrawal_row =
  wr_id :: string
  wr_mode :: trading_mode
  wr_chain :: string
  wr_asset :: string
  wr_amount :: decimal
  wr_destination :: string
  wr_key :: string
  wr_status :: string
  wr_tx_hash :: "string option"
  wr_fee_native :: "decimal option"
  wr_error :: "message option"

type_synonym withdrawal_state = "withdrawal_row list \<times> (string \<times> outgoing) list"

definition create_withdrawal :: "withdrawal_row \<Rightarrow> withdrawal_row list \<Rightarrow> withdrawal_row list option" where
  "create_withdrawal w rows = (if list_ex (\<lambda>r. wr_key r = wr_key w) rows then None else Some (rows @ [w]))"

definition update_withdrawal :: "string \<Rightarrow> (withdrawal_row \<Rightarrow> withdrawal_row) \<Rightarrow> withdrawal_row list \<Rightarrow> withdrawal_row list" where
  "update_withdrawal i f rows = map (\<lambda>r. if wr_id r = i then f r else r) rows"

definition withdrawal_key :: "chain_env \<Rightarrow> chain \<Rightarrow> withdrawal_body \<Rightarrow> string" where
  "withdrawal_key env ch b =
     (if wb_request_key b \<in> {None, Some []}
      then tv_digest env (chain_value ch) (map upper_char (wb_asset b)) (wb_amount b) (wb_destination b) (tv_minute env)
      else the (wb_request_key b))"

definition quote_withdrawal :: "chain_env \<Rightarrow> engine_ctx \<Rightarrow> withdrawal_body \<Rightarrow> (withdrawal_quote \<times> message option) option result" where
  \<comment> \<open>the route for a quote: no chain of that name, or the quote with the reason it would be refused\<close>
  "quote_withdrawal env cx b =
     (case chain_named (wb_chain b) of
        None \<Rightarrow> Inr None
      | Some ch \<Rightarrow>
          let q = withdrawal_quote_of env ch (map upper_char (wb_asset b)) (wb_amount b) (wb_destination b) in
          (case wq_reason q of
             Some e \<Rightarrow> Inr (Some (q, Some e))
           | None \<Rightarrow> bind_result (allowlist_reason env (s_security (cx_settings cx)) (chain_value ch) (wb_destination b))
               (\<lambda>why. Inr (Some (q, why)))))"

definition withdrawal_checks :: "chain_env \<Rightarrow> engine_ctx \<Rightarrow> wallets \<Rightarrow> withdrawal_body \<Rightarrow> message + (chain \<times> wallet_info)" where
  \<comment> \<open>everything the route asks before it records the request\<close>
  "withdrawal_checks env cx ws b =
     (if \<not> wb_confirm b then Inl (Msg ''explicit confirmation required'' [])
      else if cx_ledger cx \<noteq> None then Inl (Msg ''withdrawals are not available in paper/simulation mode'' [])
      else case chain_named (wb_chain b) of
        None \<Rightarrow> Inl (Msg ''unknown chain'' [])
      | Some ch \<Rightarrow>
          (case validate_destination env ch (wb_destination b) of
             Some e \<Rightarrow> Inl e
           | None \<Rightarrow>
               (case allowlist_reason env (s_security (cx_settings cx)) (chain_value ch) (wb_destination b) of
                  Inl e \<Rightarrow> Inl (py_msg e)
                | Inr (Some e) \<Rightarrow> Inl e
                | Inr None \<Rightarrow>
                    let q = withdrawal_quote_of env ch (map upper_char (wb_asset b)) (wb_amount b) (wb_destination b) in
                    if \<not> wq_available q then Inl (case wq_reason q of Some e \<Rightarrow> e | None \<Rightarrow> Msg ''withdrawal unavailable'' [])
                    else (case bot_wallet ws (family_of ch) (if cx_mode cx = TESTNET then ''testnet'' else ''live'') of
                            None \<Rightarrow> Inl (Msg ''no bot wallet'' [])
                          | Some w \<Rightarrow> Inr (ch, w)))))"

definition withdraw :: "chain_env \<Rightarrow> engine_ctx \<Rightarrow> wallets \<Rightarrow> withdrawal_body \<Rightarrow> withdrawal_state \<Rightarrow> withdrawal_state \<times> (message + receipt_text)" where
  "withdraw env cx ws b = (\<lambda>(rows, sent).
     case withdrawal_checks env cx ws b of
       Inl e \<Rightarrow> ((rows, sent), Inl e)
     | Inr (ch, w) \<Rightarrow>
         let asset = map upper_char (wb_asset b);
             row = \<lparr>wr_id = tv_row_id env, wr_mode = cx_mode cx, wr_chain = chain_value ch, wr_asset = asset,
               wr_amount = wb_amount b, wr_destination = wb_destination b, wr_key = withdrawal_key env ch b,
               wr_status = ''requested'', wr_tx_hash = None, wr_fee_native = None, wr_error = None\<rparr>
         in (case create_withdrawal row rows of
               None \<Rightarrow> ((rows, sent), Inl (Msg ''an identical withdrawal was already submitted'' []))
             | Some rows1 \<Rightarrow>
                 (case execute_withdrawal env ws ch (wi_id w) asset (wb_amount b) (wb_destination b) of
                    (out, res) \<Rightarrow>
                      let sent1 = (case out of None \<Rightarrow> sent | Some tx \<Rightarrow> sent @ [(wr_key row, tx)]) in
                      (case res of
                         Inl e \<Rightarrow> ((update_withdrawal (wr_id row) (\<lambda>r. r\<lparr>wr_status := ''failed'', wr_error := Some e\<rparr>) rows1, sent1), Inl e)
                       | Inr (h, fee) \<Rightarrow> ((update_withdrawal (wr_id row) (\<lambda>r. r\<lparr>wr_status := ''broadcast'',
                           wr_tx_hash := Some h, wr_fee_native := Some fee\<rparr>) rows1, sent1), Inr (h, fee))))))"

subsection \<open>What reaches the network\<close>

definition pays_evm :: "chain_env \<Rightarrow> chain \<Rightarrow> string \<Rightarrow> decimal \<Rightarrow> string \<Rightarrow> evm_tx \<Rightarrow> bool" where
  \<comment> \<open>the amount goes to the destination, as value of the transaction or as argument of the call of a known token\<close>
  "pays_evm env ch asset amount dest t \<longleftrightarrow> (\<exists>to. tv_checksum env dest = Inr to \<and>
     (if is_token_of ch asset
      then \<exists>c d. token_info env ch asset = Some (c, d) \<and> tv_checksum env c = Inr (et_to t) \<and> et_value t = 0 \<and>
             et_transfer t = Some (to, trunc_int (dmul amount (10 powi d)))
      else et_to t = to \<and> et_value t = trunc_int (dmul amount (10 ^ 18)) \<and> et_transfer t = None))"

definition sent_properly :: "chain_env \<Rightarrow> wallets \<Rightarrow> string \<Rightarrow> chain \<Rightarrow> string \<Rightarrow> decimal \<Rightarrow> string \<Rightarrow> outgoing \<Rightarrow> bool" where
  \<comment> \<open>a payment on the main network of its chain, or a Solana transfer whose simulation passed, signed by the wallet\<close>
  "sent_properly env ws wid ch asset amount dest tx =
     (case tx of
        Evm_Transfer who t \<Rightarrow> signer_of env ws wid = Inr who \<and> ch \<noteq> SOLANA \<and> CHAIN_IDS ch = Some (et_chain_id t) \<and>
          tv_chain_id env = Inr (et_chain_id t) \<and> pays_evm env ch asset amount dest t
      | Solana_Transfer who t \<Rightarrow> signer_of env ws wid = Inr who \<and> ch = SOLANA \<and> tv_simulate env = None \<and> st_to t = dest)"

lemma build_evm_tx_chain:
  "build_evm_tx env ch a x d n p (is_token_of ch a) = Inr tx \<Longrightarrow> CHAIN_IDS ch = Some (et_chain_id tx) \<and> pays_evm env ch a x d tx"
  by (auto simp: build_evm_tx_def pays_evm_def split: sum.splits option.splits if_splits prod.splits)

lemma send_evm_sends:
  assumes "send_evm env ws wid ch a x d (is_token_of ch a) = (Some tx, res)"
  shows "\<exists>who t. tx = Evm_Transfer who t \<and> signer_of env ws wid = Inr who \<and> CHAIN_IDS ch = Some (et_chain_id t) \<and>
    tv_chain_id env = Inr (et_chain_id t) \<and> pays_evm env ch a x d t"
proof -
  obtain who cid where c: "signer_of env ws wid = Inr who" "tv_chain_id env = Inr cid" "CHAIN_IDS ch = Some cid"
    using assms by (auto simp: send_evm_def split: sum.splits option.splits if_splits)
  with assms obtain nonce price t gas where
    b: "build_evm_tx env ch a x d nonce price (is_token_of ch a) = Inr t" "tx = Evm_Transfer who (t\<lparr>et_gas := gas\<rparr>)"
    by (auto simp: send_evm_def Let_def split: sum.splits)
  have "pays_evm env ch a x d (t\<lparr>et_gas := gas\<rparr>) = pays_evm env ch a x d t" unfolding pays_evm_def by simp
  with build_evm_tx_chain [OF b(1)] c b(2) show ?thesis by simp
qed

lemma map_sum_eq_Inr: "map_sum f g x = Inr y \<longleftrightarrow> (\<exists>z. x = Inr z \<and> y = g z)"
  by (cases x) auto

lemma send_solana_sends:
  "send_solana env ws wid a x d tok = (Some tx, res) \<Longrightarrow>
    \<exists>who t. tx = Solana_Transfer who t \<and> signer_of env ws wid = Inr who \<and> tv_simulate env = None \<and> st_to t = d"
  by (auto simp: send_solana_def map_sum_eq_Inr split: option.splits if_splits sum.splits)

lemma execute_withdrawal_sends:
  assumes "execute_withdrawal env ws ch wid a x d = (Some tx, res)"
  shows "sent_properly env ws wid ch a x d tx"
proof (cases "ch = SOLANA")
  case True
  then have "send_solana env ws wid a x d (is_token_of ch a) = (Some tx, res)"
    using assms by (auto simp: execute_withdrawal_def split: option.splits if_splits)
  from send_solana_sends [OF this] True show ?thesis by (auto simp: sent_properly_def)
next
  case False
  then have "send_evm env ws wid ch a x d (is_token_of ch a) = (Some tx, res)"
    using assms by (auto simp: execute_withdrawal_def split: option.splits if_splits)
  from send_evm_sends [OF this] False show ?thesis by (auto simp: sent_properly_def)
qed

definition allowed_now :: "chain_env \<Rightarrow> security_settings \<Rightarrow> string \<Rightarrow> string \<Rightarrow> bool" where
  \<comment> \<open>on the list when it is required, and any dated entry old enough\<close>
  "allowed_now env sec ch dest \<longleftrightarrow>
     (sec_require_allowlist_for_withdrawals sec \<longrightarrow> allowlist_entry sec ch dest \<noteq> None) \<and>
     (\<forall>a t. allowlist_entry sec ch dest = Some a \<and> 0 < sec_new_address_delay_minutes sec \<and> dget a ''added_at_ms'' [] \<noteq> [] \<and>
        parse_int (dget a ''added_at_ms'' []) = Some t \<longrightarrow>
        of_int (sec_new_address_delay_minutes sec) \<le> fround (of_int (tv_now_ms env - t) / 60000))"

lemma allowlist_reason_none: "allowlist_reason env sec ch dest = Inr None \<Longrightarrow> allowed_now env sec ch dest"
  by (auto simp: allowlist_reason_def allowed_now_def Let_def split: option.splits if_splits)

lemma quote_available: "wq_available (withdrawal_quote_of env ch a x d) \<Longrightarrow> 0 < x"
  by (auto simp: withdrawal_quote_of_def refused_quote_def Let_def not_le split: option.splits if_splits sum.splits)

lemma withdrawal_checks_passed:
  assumes "withdrawal_checks env cx ws b = Inr (ch, w)"
  shows "bot_wallet ws (family_of ch) (if cx_mode cx = TESTNET then ''testnet'' else ''live'') = Some w \<and> wb_confirm b \<and> cx_ledger cx = None \<and> chain_named (wb_chain b) = Some ch \<and> validate_destination env ch (wb_destination b) = None \<and>
    allowed_now env (s_security (cx_settings cx)) (chain_value ch) (wb_destination b) \<and> 0 < wb_amount b"
proof -
  have g: "wb_confirm b" "cx_ledger cx = None" "chain_named (wb_chain b) = Some ch" "validate_destination env ch (wb_destination b) = None"
    using assms by (auto simp: withdrawal_checks_def Let_def split: if_splits option.splits sum.splits)
  have r: "allowlist_reason env (s_security (cx_settings cx)) (chain_value ch) (wb_destination b) = Inr None"
    using assms g by (auto simp: withdrawal_checks_def Let_def split: option.splits sum.splits)
  have "wq_available (withdrawal_quote_of env ch (map upper_char (wb_asset b)) (wb_amount b) (wb_destination b))"
    using assms g r by (auto simp: withdrawal_checks_def Let_def split: if_splits)
  moreover from this have "bot_wallet ws (family_of ch) (if cx_mode cx = TESTNET then ''testnet'' else ''live'') = Some w"
    using assms g r by (simp add: withdrawal_checks_def Let_def split: option.splits) (auto split: if_splits)
  ultimately show ?thesis using g allowlist_reason_none [OF r] quote_available by blast
qed

lemma withdraw_cases:
  assumes "withdraw env cx ws b (rows, sent) = ((rows', sent'), r)"
  shows "(rows' = rows \<and> sent' = sent) \<or> (\<exists>ch w out res. withdrawal_checks env cx ws b = Inr (ch, w) \<and>
    withdrawal_key env ch b \<notin> wr_key ` set rows \<and> map wr_key rows' = map wr_key rows @ [withdrawal_key env ch b] \<and>
    execute_withdrawal env ws ch (wi_id w) (map upper_char (wb_asset b)) (wb_amount b) (wb_destination b) = (out, res) \<and>
    sent' = (case out of None \<Rightarrow> sent | Some tx \<Rightarrow> sent @ [(withdrawal_key env ch b, tx)]))"
proof (cases "withdrawal_checks env cx ws b")
  case (Inl e)
  then show ?thesis using assms by (simp add: withdraw_def)
next
  case (Inr cw)
  obtain ch w where cw: "cw = (ch, w)" by (cases cw)
  note Inr = Inr [unfolded cw]
  define row where "row = \<lparr>wr_id = tv_row_id env, wr_mode = cx_mode cx, wr_chain = chain_value ch, wr_asset = map upper_char (wb_asset b),
      wr_amount = wb_amount b, wr_destination = wb_destination b, wr_key = withdrawal_key env ch b,
      wr_status = ''requested'', wr_tx_hash = None, wr_fee_native = None, wr_error = None\<rparr>"
  have rk: "wr_key row = withdrawal_key env ch b" by (simp add: row_def)
  obtain out res where x: "execute_withdrawal env ws ch (wi_id w) (map upper_char (wb_asset b)) (wb_amount b) (wb_destination b) = (out, res)" by force
  have k: "map wr_key (update_withdrawal i f xs) = map wr_key xs" if "\<And>y. wr_key (f y) = wr_key y" for i f xs
    using that by (simp add: update_withdrawal_def)
  show ?thesis
  proof (cases "create_withdrawal row rows")
    case None
    then show ?thesis using assms Inr by (simp add: withdraw_def Let_def row_def)
  next
    case (Some rows1)
    then have "map wr_key rows' = map wr_key rows1 \<and> sent' = (case out of None \<Rightarrow> sent | Some tx \<Rightarrow> sent @ [(wr_key row, tx)])"
      using assms Inr x by (cases out) (auto simp: withdraw_def Let_def row_def k split: sum.splits)
    moreover have "rows1 = rows @ [row]" "wr_key row \<notin> wr_key ` set rows"
      using Some by (auto simp: create_withdrawal_def list_ex_iff split: if_splits)
    ultimately show ?thesis using Inr x unfolding rk by (simp add: rk)
  qed
qed


definition withdraw_all :: "(chain_env \<times> engine_ctx \<times> wallets \<times> withdrawal_body) list \<Rightarrow> withdrawal_state \<Rightarrow> withdrawal_state" where
  "withdraw_all reqs st = foldl (\<lambda>st (env, cx, ws, b). fst (withdraw env cx ws b st)) st reqs"

definition sent_inv :: "withdrawal_state \<Rightarrow> bool" where
  "sent_inv st \<longleftrightarrow> distinct (map wr_key (fst st)) \<and> distinct (map fst (snd st)) \<and> fst ` set (snd st) \<subseteq> wr_key ` set (fst st)"

lemma withdraw_sent_inv:
  assumes "sent_inv st"
  shows "sent_inv (fst (withdraw env cx ws b st))"
proof -
  obtain rows sent rows' sent' r where w: "st = (rows, sent)" "withdraw env cx ws b (rows, sent) = ((rows', sent'), r)"
    by (metis prod.exhaust)
  have "sent_inv (rows', sent')"
    using withdraw_cases [OF w(2)]
  proof (elim disjE exE conjE)
    assume "rows' = rows" "sent' = sent"
    then show ?thesis using assms w(1) by simp
  next
    fix ch w out res
    assume t: "withdrawal_key env ch b \<notin> wr_key ` set rows" "map wr_key rows' = map wr_key rows @ [withdrawal_key env ch b]"
      "sent' = (case out of None \<Rightarrow> sent | Some tx \<Rightarrow> sent @ [(withdrawal_key env ch b, tx)])"
    have k: "wr_key ` set rows' = insert (withdrawal_key env ch b) (wr_key ` set rows)"
      using arg_cong [OF t(2), of set] by auto
    have "withdrawal_key env ch b \<notin> fst ` set sent" using assms w(1) t(1) by (auto simp: sent_inv_def)
    then show ?thesis using assms w(1) t k by (cases out) (auto simp: sent_inv_def)
  qed
  with w show ?thesis by simp
qed

text \<open>C14. A key is sent at most once: over any sequence of requests, whatever they ask, whatever fails in between and whichever
  settings, wallets and answers of the network each one meets, no two transactions carry the same request key,
  and every transaction has its row in the table.\<close>

theorem one_broadcast_per_key:
  "case withdraw_all reqs ([], []) of (rows, sent) \<Rightarrow> distinct (map fst sent) \<and> fst ` set sent \<subseteq> wr_key ` set rows"
proof -
  have "sent_inv (withdraw_all reqs st)" if "sent_inv st" for st
    using that unfolding withdraw_all_def
  proof (induction reqs arbitrary: st)
    case (Cons a reqs)
    obtain env cx ws b where a: "a = (env, cx, ws, b)" by (cases a)
    from Cons.IH [OF withdraw_sent_inv [OF Cons.prems, of env cx ws b]] show ?case by (simp add: a)
  qed simp
  from this [of "([], [])"] show ?thesis by (simp add: sent_inv_def split_beta)
qed

subsection \<open>The allowlist and the monitor\<close>

definition allowlist_law :: "codec \<Rightarrow> bool" where
  \<comment> \<open>the document has its section, and an entry of the list with a value that is no text is refused (the field is a list
      of dictionaries from texts to texts, and numbers are not converted to texts)\<close>
  "allowlist_law c \<longleftrightarrow> (\<forall>s. \<exists>b. map_of (cd_dump c s) ''security'' = Some (JObj b)) \<and>
     (\<forall>d s es. cd_validate c d = Inr s \<longrightarrow> json_at d ''security'' ''withdrawal_allowlist'' = Some (JList es) \<longrightarrow>
        (\<forall>kv k v. JObj kv \<in> set es \<longrightarrow> (k, v) \<in> set kv \<longrightarrow> (\<exists>t. v = JStr t)))"

text \<open>The route for new addresses adds none: the time of the addition is put into the entry as a number, and the
  document accepts texts only, so the route answers success only for an address that is on the list already, and
  never changes the settings.\<close>

theorem allowlisting_always_fails:
  assumes "allowlist_law (le_codec lenv)" and "add_allowlist env lenv chn address label st = (st', r)"
  shows "st' = st \<and> (r = Inr () \<longrightarrow>
    (\<exists>a \<in> set (sec_withdrawal_allowlist (s_security (cx_settings (ls_cx st)))). lower (dget a ''address'' []) = lower address \<and>
       map_of a ''chain'' = Some chn))"
proof -
  let ?lst = "sec_withdrawal_allowlist (s_security (cx_settings (ls_cx st)))"
  define es where "es = map (\<lambda>a. JObj (map (\<lambda>(k, v). (k, JStr v)) a)) ?lst
      @ [JObj [(''chain'', JStr chn), (''address'', JStr address), (''label'', JStr label), (''added_at_ms'', JNum (of_int (tv_now_ms env)))]]"
  let ?d = "deep_merge (cd_dump (le_codec lenv) (cx_settings (ls_cx st))) [(''security'', JObj [(''withdrawal_allowlist'', JList es)])]"
  from assms(1) obtain b where b: "map_of (cd_dump (le_codec lenv) (cx_settings (ls_cx st))) ''security'' = Some (JObj b)"
    unfolding allowlist_law_def by blast
  have j: "json_at ?d ''security'' ''withdrawal_allowlist'' = Some (JList es)" using b by (simp add: json_at_def)
  have new: "JObj [(''chain'', JStr chn), (''address'', JStr address), (''label'', JStr label),
      (''added_at_ms'', JNum (of_int (tv_now_ms env)))] \<in> set es" by (simp add: es_def)
  have in_last: "(''added_at_ms'', JNum (of_int (tv_now_ms env))) \<in> set [(''chain'', JStr chn), (''address'', JStr address),
      (''label'', JStr label), (''added_at_ms'', JNum (of_int (tv_now_ms env)))]" by simp
  have no: "cd_validate (le_codec lenv) ?d \<noteq> Inr s" for s
  proof
    assume "cd_validate (le_codec lenv) ?d = Inr s"
    with assms(1) j new have "\<exists>t. JNum (of_int (tv_now_ms env)) = JStr t"
      unfolding allowlist_law_def by (metis in_last)
    then show False by simp
  qed
  then obtain e where "cd_validate (le_codec lenv) ?d = Inl e" by (cases "cd_validate (le_codec lenv) ?d") auto
  then have "serve lenv (Set_Allowlist es) st = (st, Inl e)"
    by (simp add: serve_def as_unit_def update_settings_def Let_def)
  then show ?thesis
    using assms(2) unfolding add_allowlist_def es_def [symmetric] Let_def
    by (auto simp: list_ex_iff split: option.splits if_splits)
qed

lemma observe_one_facts:
  assumes "observe_one h ob (m, out) (asset, amount) = (m', out')"
  shows "set (dm_seen m) \<subseteq> set (dm_seen m') \<and>
    (out' = out \<or> (\<exists>ev. out' = out @ [ev] \<and> de_asset ev = asset \<and> h (ob_chain ob) asset (ob_address ob) amount \<notin> set (dm_seen m) \<and>
       h (ob_chain ob) asset (ob_address ob) amount \<in> set (dm_seen m')))"
  using assms by (auto simp: observe_one_def Let_def split: option.splits if_splits)

lemma observe_fold_seen: "set (dm_seen (fst st)) \<subseteq> set (dm_seen (fst (foldl (observe_one h ob) st xs)))"
proof (induction xs arbitrary: st)
  case (Cons x xs)
  obtain m out m' out' where st: "st = (m, out)" "observe_one h ob (m, out) (fst x, snd x) = (m', out')" by (metis prod.exhaust)
  then have "observe_one h ob st x = (m', out')" by simp
  with Cons.IH [of "(m', out')"] observe_one_facts [OF st(2)] st(1) show ?case by auto
qed simp

lemma observe_fold_new:
  "ev \<in> set (snd (foldl (observe_one h ob) st xs)) \<Longrightarrow> ev \<in> set (snd st) \<or>
    (\<exists>amount. (de_asset ev, amount) \<in> set xs \<and> h (ob_chain ob) (de_asset ev) (ob_address ob) amount \<notin> set (dm_seen (fst st)) \<and>
      h (ob_chain ob) (de_asset ev) (ob_address ob) amount \<in> set (dm_seen (fst (foldl (observe_one h ob) st xs))))"
proof (induction xs arbitrary: st)
  case (Cons x xs)
  obtain m out m' out' where st: "st = (m, out)" "observe_one h ob (m, out) (fst x, snd x) = (m', out')" by (metis prod.exhaust)
  then have s: "observe_one h ob st x = (m', out')" by simp
  note f = observe_one_facts [OF st(2)]
  from Cons.prems have "ev \<in> set (snd (foldl (observe_one h ob) (m', out') xs))" using s by simp
  from Cons.IH [OF this] show ?case
  proof
    assume "ev \<in> set (snd (m', out'))"
    then show ?thesis using f st(1) s observe_fold_seen [of "(m', out')" h ob xs] by (cases x) fastforce
  next
    assume "\<exists>amount. (de_asset ev, amount) \<in> set xs \<and> h (ob_chain ob) (de_asset ev) (ob_address ob) amount \<notin> set (dm_seen (fst (m', out'))) \<and>
      h (ob_chain ob) (de_asset ev) (ob_address ob) amount \<in> set (dm_seen (fst (foldl (observe_one h ob) (m', out') xs)))"
    then show ?thesis using f st(1) s by auto
  qed
qed simp

lemma observe_new: "ev \<in> set (snd (observe h ob m)) \<Longrightarrow>
    \<exists>amount. (de_asset ev, amount) \<in> set (ob_balances ob) \<and> h (ob_chain ob) (de_asset ev) (ob_address ob) amount \<notin> set (dm_seen m) \<and>
      h (ob_chain ob) (de_asset ev) (ob_address ob) amount \<in> set (dm_seen (fst (observe h ob m)))"
  using observe_fold_new [of ev h ob "(m, [])" "ob_balances ob"] by (auto simp: observe_def split: prod.splits)

lemma observe_seen: "set (dm_seen m) \<subseteq> set (dm_seen (fst (observe h ob m)))"
  using observe_fold_seen [of "(m, [])" h ob "ob_balances ob"] by (auto simp: observe_def split: prod.splits)

lemma observe_all_seen: "set (dm_seen m) \<subseteq> set (dm_seen (foldl (\<lambda>m ob. fst (observe h ob m)) m obs))"
proof (induction obs arbitrary: m)
  case (Cons ob obs)
  show ?case using observe_seen [of m h ob] Cons.IH [of "fst (observe h ob m)"] by auto
qed simp

text \<open>A deposit that restores an earlier balance is never seen: once a deposit of an asset was reported at some balance, no
  later refresh that finds the same balance of the asset on the chain reports a deposit of it, whatever
  balances were observed in between, so a deposit after a withdrawal of the same amount goes unnoticed.\<close>

theorem restored_balance_missed:
  assumes "ev \<in> set (snd (observe h ob m))" and "\<forall>x. (de_asset ev, x) \<in> set (ob_balances ob) \<longrightarrow> x = b"
    and "ob_chain ob2 = ob_chain ob" and "ob_address ob2 = ob_address ob" and "\<forall>x. (de_asset ev, x) \<in> set (ob_balances ob2) \<longrightarrow> x = b"
  shows "de_asset ev \<notin> de_asset ` set (snd (observe h ob2 (foldl (\<lambda>m ob. fst (observe h ob m)) (fst (observe h ob m)) later)))"
proof
  let ?m = "foldl (\<lambda>m ob. fst (observe h ob m)) (fst (observe h ob m)) later"
  assume "de_asset ev \<in> de_asset ` set (snd (observe h ob2 ?m))"
  then obtain ev2 where ev2: "ev2 \<in> set (snd (observe h ob2 ?m))" "de_asset ev2 = de_asset ev" by auto
  from observe_new [OF ev2(1)] ev2(2) assms(3-5) have "h (ob_chain ob) (de_asset ev) (ob_address ob) b \<notin> set (dm_seen ?m)" by auto
  moreover from observe_new [OF assms(1)] assms(2)
  have "h (ob_chain ob) (de_asset ev) (ob_address ob) b \<in> set (dm_seen (fst (observe h ob m)))" by auto
  ultimately show False using observe_all_seen [of "fst (observe h ob m)" h later] by blast
qed

subsection \<open>Witnesses\<close>

definition demo_seen :: "decimal \<Rightarrow> observation" where
  "demo_seen x = \<lparr>ob_chain = ''base'', ob_address = [], ob_now_ms = 5, ob_expected = [], ob_balances = [(''ETH'', x)]\<rparr>"

definition demo_digest :: digest where
  "demo_digest ch asset addr x = (if x = 10 then ''ten'' else ''other'')"

theorem restored_balance_missed_witness:
  "snd (observe demo_digest (demo_seen 10) (fst (observe demo_digest (demo_seen 1) \<lparr>dm_last = [((''base'', ''ETH''), 0)], dm_events = [], dm_seen = []\<rparr>)))
     \<noteq> [] \<and>
   snd (observe demo_digest (demo_seen 10) (foldl (\<lambda>m ob. fst (observe demo_digest ob m)) (fst (observe demo_digest (demo_seen 10)
     \<lparr>dm_last = [((''base'', ''ETH''), 0)], dm_events = [], dm_seen = []\<rparr>)) [demo_seen 4])) = []"
proof -
  define m where "m = \<lparr>dm_last = [((''base'', ''ETH''), 0 :: decimal)], dm_events = [], dm_seen = []\<rparr>"
  have "map de_asset (snd (observe demo_digest (demo_seen 10) m)) = [''ETH'']"
    by (simp add: observe_def demo_seen_def observe_one_def m_def Let_def dget_def demo_digest_def dec_defs dround_eval)
  then obtain ev where ev: "snd (observe demo_digest (demo_seen 10) m) = [ev]" "de_asset ev = ''ETH''"
    by (auto simp: map_eq_Cons_conv)
  have first: "snd (observe demo_digest (demo_seen 10) (fst (observe demo_digest (demo_seen 1) m))) \<noteq> []"
    by (simp add: observe_def demo_seen_def observe_one_def m_def Let_def dget_def demo_digest_def dec_defs dround_eval last_n_def)
  let ?m2 = "foldl (\<lambda>m ob. fst (observe demo_digest ob m)) (fst (observe demo_digest (demo_seen 10) m)) [demo_seen 4]"
  from restored_balance_missed [of ev demo_digest "demo_seen 10" m 10 "demo_seen 10" "[demo_seen 4]"] ev
  have no: "''ETH'' \<notin> de_asset ` set (snd (observe demo_digest (demo_seen 10) ?m2))" by (simp add: demo_seen_def)
  have "snd (observe demo_digest (demo_seen 10) ?m2) = []"
  proof (rule ccontr)
    assume "snd (observe demo_digest (demo_seen 10) ?m2) \<noteq> []"
    then obtain ev' where e: "ev' \<in> set (snd (observe demo_digest (demo_seen 10) ?m2))" by (meson ex_in_conv set_empty)
    have "ob_balances (demo_seen 10) = [(''ETH'', 10)]" by (simp add: demo_seen_def)
    with observe_new [OF e] have eth: "de_asset ev' = ''ETH''" by auto
    show False using no imageI [OF e, of de_asset] unfolding eth by (rule notE)
  qed
  with first show ?thesis by (simp add: m_def)
qed

definition demo_destination :: string where
  "demo_destination = ''0x1111111111111111111111111111111111111111''"

definition demo_chain_env :: chain_env where
  "demo_chain_env = \<lparr>tv_rpc = (\<lambda>_. True), tv_tokens = (\<lambda>_ _. None), tv_gas_price = Inr (10 ^ 9), tv_chain_id = Inr 8453, tv_nonce = Inr 7,
     tv_estimate = Inr 21000, tv_send = Inr ''0xhash'', tv_box = \<lparr>kb_encrypt = (\<lambda>s aad. s), kb_decrypt = (\<lambda>s aad. Inr s)\<rparr>, tv_account = Inr, tv_account_exists = Inr True, tv_simulate = None, tv_pubkey_ok = (\<lambda>_. True),
     tv_is_checksum = (\<lambda>_. True), tv_checksum = Inr, tv_price = (\<lambda>_. None), tv_now_ms = 10 ^ 12,
     tv_digest = (\<lambda>_ _ _ _ _. ''key''), tv_minute = ''202601010000'', tv_row_id = ''wd1''\<rparr>"

definition demo_live_ctx :: engine_ctx where
  "demo_live_ctx = demo_ctx\<lparr>cx_ledger := None, cx_settings := app_defaults\<lparr>s_security := security_defaults
     \<lparr>sec_withdrawal_allowlist := [[(''chain'', ''base''), (''address'', demo_destination)]]\<rparr>\<rparr>\<rparr>"

definition demo_body :: withdrawal_body where
  "demo_body = \<lparr>wb_chain = ''base'', wb_asset = ''eth'', wb_amount = 1, wb_destination = demo_destination, wb_confirm = True, wb_request_key = None\<rparr>"

lemma demo_destination_ok: "validate_destination demo_chain_env BASE demo_destination = None"
proof -
  have "evm_shape demo_destination" "lower demo_destination = demo_destination" unfolding demo_destination_def by code_simp+
  then show ?thesis by (simp add: validate_destination_def)
qed

lemma demo_withdrawal: "\<exists>rows sent h. withdraw demo_chain_env demo_live_ctx [(''w1'', demo_wallet)] demo_body ([], []) = ((rows, sent), h) \<and> sent \<noteq> []"
proof -
  have ch: "chain_named ''base'' = Some BASE" by code_simp
  have up: "upper_char CHR ''e'' = CHR ''E''" "upper_char CHR ''t'' = CHR ''T''" "upper_char CHR ''h'' = CHR ''H''"
    "upper_char CHR ''E'' = CHR ''E''" "upper_char CHR ''T'' = CHR ''T''" "upper_char CHR ''H'' = CHR ''H''" by code_simp+
  have tok: "\<not> is_token_of BASE ''ETH''" "is_token_of BASE ''ETH'' = False" by (simp_all add: is_token_of_def up)
  have al: "allowlist_reason demo_chain_env (s_security (cx_settings demo_live_ctx)) ''base'' demo_destination = Inr None"
    by (simp add: allowlist_reason_def allowlist_entry_def demo_live_ctx_def dget_def security_defaults_def)
  have q: "wq_available (withdrawal_quote_of demo_chain_env BASE ''ETH'' 1 demo_destination)"
    by (simp add: withdrawal_quote_of_def demo_destination_ok tok network_fee_def Let_def)
      (simp add: demo_chain_env_def)
  have w: "bot_wallet [(''w1'', demo_wallet)] ''evm'' m = Some (wallet_info_of demo_wallet)" for m
    by (simp add: bot_wallet_def demo_wallet_def vals_def)
  have led: "cx_ledger demo_live_ctx = None" by (simp add: demo_live_ctx_def)
  have ok: "withdrawal_checks demo_chain_env demo_live_ctx [(''w1'', demo_wallet)] demo_body =
      Inr (BASE, wallet_info_of demo_wallet)"
    using w ch q al led by (simp add: withdrawal_checks_def demo_body_def up demo_destination_ok Let_def family_of_def)
  have sg: "signer_of demo_chain_env [(''w1'', demo_wallet)] (wi_id (wallet_info_of demo_wallet)) = Inr ''k''"
    by (simp add: signer_of_def wallet_secret_def wallet_info_of_def demo_wallet_def) (simp add: demo_chain_env_def)
  have x: "\<exists>tx res. execute_withdrawal demo_chain_env [(''w1'', demo_wallet)] BASE (wi_id (wallet_info_of demo_wallet)) ''ETH'' 1
      demo_destination = (Some tx, res)"
    by (simp add: execute_withdrawal_def demo_destination_ok tok send_evm_def sg)
      (simp add: build_evm_tx_def demo_chain_env_def)
  obtain tx res where x: "execute_withdrawal demo_chain_env [(''w1'', demo_wallet)] BASE (wi_id (wallet_info_of demo_wallet)) ''ETH'' 1
      demo_destination = (Some tx, res)" using x by blast
  have eth: "map upper_char (wb_asset demo_body) = ''ETH''" "wb_amount demo_body = 1" "wb_destination demo_body = demo_destination"
    by (simp_all add: demo_body_def up)
  show ?thesis
    unfolding withdraw_def prod.case ok sum.case prod.case Let_def eth create_withdrawal_def list.simps x
    by (cases res) auto
qed


definition strict_codec :: codec where
  \<comment> \<open>a reader that looks at the allowlist only\<close>
  "strict_codec = \<lparr>cd_dump = (\<lambda>s. [(''security'', JObj [(''withdrawal_allowlist'', JList [])])]),
     cd_validate = (\<lambda>d. case json_at d ''security'' ''withdrawal_allowlist'' of
       Some (JList es) \<Rightarrow> if list_all (\<lambda>e. case e of JObj kv \<Rightarrow> list_all (\<lambda>(k, v). case v of JStr t \<Rightarrow> True | _ \<Rightarrow> False) kv | _ \<Rightarrow> False) es
         then Inr app_defaults else Inl (Msg ''invalid'' [])
     | _ \<Rightarrow> Inl (Msg ''invalid'' []))\<rparr>"

lemma strict_codec_law: "allowlist_law strict_codec"
proof -
  have "\<exists>t. v = JStr t" if "cd_validate strict_codec d = Inr s" "json_at d ''security'' ''withdrawal_allowlist'' = Some (JList es)"
    "JObj kv \<in> set es" "(k, v) \<in> set kv" for d s es kv k v
  proof -
    have "list_all (\<lambda>e. case e of JObj kv \<Rightarrow> list_all (\<lambda>(k, v). case v of JStr t \<Rightarrow> True | _ \<Rightarrow> False) kv | _ \<Rightarrow> False) es"
      using that(1,2) by (simp add: strict_codec_def split: if_splits)
    then have "case JObj kv of JObj kv \<Rightarrow> list_all (\<lambda>(k, v). case v of JStr t \<Rightarrow> True | _ \<Rightarrow> False) kv | _ \<Rightarrow> False"
      using that(3) unfolding list_all_iff by (rule bspec)
    then have "\<forall>x \<in> set kv. case x of (k, v) \<Rightarrow> (case v of JStr t \<Rightarrow> True | _ \<Rightarrow> False)" by (simp add: list_all_iff)
    from bspec [OF this that(4)] have "case v of JStr t \<Rightarrow> True | _ \<Rightarrow> False" by simp
    then show ?thesis by (cases v) simp_all
  qed
  then show ?thesis unfolding allowlist_law_def by (auto simp: strict_codec_def)
qed

theorem allowlisting_always_fails_witness:
  "fst (add_allowlist demo_chain_env (demo_live_env\<lparr>le_codec := strict_codec\<rparr>) ''base'' demo_destination ''x'' demo_live_state) = demo_live_state"
proof -
  obtain st' r where a: "add_allowlist demo_chain_env (demo_live_env\<lparr>le_codec := strict_codec\<rparr>) ''base'' demo_destination ''x'' demo_live_state = (st', r)"
    by force
  from allowlisting_always_fails [OF _ a] a show ?thesis by (simp add: strict_codec_law)
qed

end
