(* ===== verification/Access.thy ===== *)
theory Access
  imports Wallets Cex_Connector Engine_Context "HOL-Library.Word"
begin

text \<open>
  Model of how access is guarded: the encrypted box, the confirmation phrase and the token of the interface
  (\<^verbatim>\<open>backend/fedr/security/crypto.py\<close>), the check of every request (\<^verbatim>\<open>backend/fedr/api/auth.py\<close>), logging in with
  its lockout (\<^verbatim>\<open>backend/fedr/api/routes/system.py\<close>) and the checks of the environment at the start
  (\<^verbatim>\<open>backend/fedr/config/env.py\<close>). The cipher, the key derivation, files and random bytes are arguments. A text is
  one of code points below 256; base64 and UTF-8 are defined as the standard library computes them.
\<close>

subsection \<open>Base64\<close>

type_synonym bytes = "8 word list"

definition b64_char :: "bool \<Rightarrow> nat \<Rightarrow> char" where
  \<comment> \<open>the two alphabets: of \<open>urlsafe_b64encode\<close> and of \<open>b64encode\<close>\<close>
  "b64_char url n = (if n < 26 then char_of (65 + n) else if n < 52 then char_of (71 + n) else if n < 62 then char_of (n - 4)
     else if n = 62 then (if url then CHR ''-'' else CHR ''+'') else if url then CHR ''_'' else CHR ''/'')"

definition b64_value :: "bool \<Rightarrow> char \<Rightarrow> nat option" where
  \<comment> \<open>\<open>urlsafe_b64decode\<close> replaces the two letters of its alphabet first and so reads both alphabets\<close>
  "b64_value url c =
     (let k = of_char c :: nat in
      if 65 \<le> k \<and> k \<le> 90 then Some (k - 65) else if 97 \<le> k \<and> k \<le> 122 then Some (k - 71)
      else if 48 \<le> k \<and> k \<le> 57 then Some (k + 4) else if c = CHR ''+'' \<or> url \<and> c = CHR ''-'' then Some 62
      else if c = CHR ''/'' \<or> url \<and> c = CHR ''_'' then Some 63 else None)"

fun b64_encode :: "bool \<Rightarrow> bytes \<Rightarrow> string" where
  "b64_encode url [] = []"
| "b64_encode url [a] = [b64_char url (unat a div 4), b64_char url (unat a mod 4 * 16), CHR ''='', CHR ''='']"
| "b64_encode url [a, b] = [b64_char url (unat a div 4), b64_char url (unat a mod 4 * 16 + unat b div 16),
     b64_char url (unat b mod 16 * 4), CHR ''='']"
| "b64_encode url (a # b # c # rest) = b64_char url (unat a div 4) # b64_char url (unat a mod 4 * 16 + unat b div 16) #
     b64_char url (unat b mod 16 * 4 + unat c div 64) # b64_char url (unat c mod 64) # b64_encode url rest"

fun b64_read :: "bool \<Rightarrow> nat \<Rightarrow> nat \<Rightarrow> nat \<Rightarrow> string \<Rightarrow> bytes option" where
  \<comment> \<open>\<open>binascii.a2b_base64\<close>: the position in a group of four, the bits left over and the padding read so far;
      characters outside of the alphabet are skipped, and enough padding ends the text\<close>
  "b64_read url pos left pads [] = (if pos = 0 then Some [] else None)"
| "b64_read url pos left pads (c # cs) =
     (if c = CHR ''='' then
        (if 2 \<le> pos then (if 4 \<le> pos + pads + 1 then Some [] else b64_read url pos left (pads + 1) cs)
         else b64_read url pos left pads cs)
      else case b64_value url c of
        None \<Rightarrow> b64_read url pos left pads cs
      | Some v \<Rightarrow>
          if pos = 0 then b64_read url 1 v 0 cs
          else if pos = 1 then map_option (Cons (of_nat (left * 4 + v div 16))) (b64_read url 2 (v mod 16) 0 cs)
          else if pos = 2 then map_option (Cons (of_nat (left * 16 + v div 4))) (b64_read url 3 (v mod 4) 0 cs)
          else map_option (Cons (of_nat (left * 64 + v))) (b64_read url 0 0 0 cs))"

definition b64_decode :: "bool \<Rightarrow> string \<Rightarrow> bytes result" where
  "b64_decode url s = (case b64_read url 0 0 0 s of None \<Rightarrow> Inl ValueError | Some bs \<Rightarrow> Inr bs)"

lemma b64_value_char [simp]: "n < 64 \<Longrightarrow> b64_value url (b64_char url n) = Some n"
proof -
  assume n: "n < 64"
  have small: "n < 26 \<or> (26 \<le> n \<and> n < 52) \<or> (52 \<le> n \<and> n < 62) \<or> n = 62 \<or> n = 63" using n by linarith
  then show ?thesis
    by (elim disjE) (auto simp: b64_char_def b64_value_def Let_def)
qed

lemma b64_char_pad [simp]: "n < 64 \<Longrightarrow> b64_char url n \<noteq> CHR ''=''"
proof
  assume "n < 64" "b64_char url n = CHR ''=''"
  then have "b64_value url (CHR ''='') = Some n" using b64_value_char [of n url] by simp
  then show False by (simp add: b64_value_def Let_def)
qed

lemma byte_less: "unat (a :: 8 word) < 256"
  using unsigned_less [of a] by simp

lemma pack_div: "(y :: nat) < n \<Longrightarrow> (x * n + y) div n = x"
  by simp

lemma pack_mod: "(y :: nat) < n \<Longrightarrow> (x * n + y) mod n = y"
  by simp

lemma sextets [simp]:
  fixes a b c :: "8 word"
  shows "unat a div 4 < 64" "unat a mod 4 * 16 < 64" "unat a mod 4 * 16 + unat b div 16 < 64" "unat b mod 16 * 4 < 64"
    "unat b mod 16 * 4 + unat c div 64 < 64" "unat c mod 64 < 64"
proof -
  have q: "unat a div 4 < 64" "unat b div 16 < 16" "unat c div 64 < 4" using byte_less by (simp_all add: less_mult_imp_div_less)
  have m: "unat a mod 4 < 4" "unat b mod 16 < 16" by simp_all
  show "unat a div 4 < 64" "unat a mod 4 * 16 < 64" "unat a mod 4 * 16 + unat b div 16 < 64" "unat b mod 16 * 4 < 64"
    "unat b mod 16 * 4 + unat c div 64 < 64" "unat c mod 64 < 64" using q m by linarith+
qed

lemma b64_read_four:
  assumes "x < 64" "y < 64" "z < 64" "w < 64"
  shows "b64_read url 0 0 0 (b64_char url x # b64_char url y # b64_char url z # b64_char url w # cs) =
    map_option (\<lambda>r. of_nat (x * 4 + y div 16) # of_nat (y mod 16 * 16 + z div 4) # of_nat (z mod 4 * 64 + w) # r) (b64_read url 0 0 0 cs)"
  using assms by (simp add: option.map_comp comp_def del: of_nat_add of_nat_mult)

lemma b64_read_padded:
  assumes "x < 64" "y < 64" "z < 64"
  shows "b64_read url 0 0 0 [b64_char url x, b64_char url y, CHR ''='', CHR ''=''] = Some [of_nat (x * 4 + y div 16)]"
    "b64_read url 0 0 0 [b64_char url x, b64_char url y, b64_char url z, CHR ''=''] =
       Some [of_nat (x * 4 + y div 16), of_nat (y mod 16 * 16 + z div 4)]"
  using assms by (simp_all del: of_nat_add of_nat_mult)

lemma bytes_back:
  fixes a b c :: "8 word"
  shows "of_nat (unat a div 4 * 4 + unat a mod 4 * 16 div 16) = a"
    "of_nat (unat a div 4 * 4 + (unat a mod 4 * 16 + unat b div 16) div 16) = a"
    "of_nat ((unat a mod 4 * 16 + unat b div 16) mod 16 * 16 + unat b mod 16 * 4 div 4) = b"
    "of_nat ((unat a mod 4 * 16 + unat b div 16) mod 16 * 16 + (unat b mod 16 * 4 + unat c div 64) div 4) = b"
    "of_nat ((unat b mod 16 * 4 + unat c div 64) mod 4 * 64 + unat c mod 64) = c"
proof -
  have q: "unat b div 16 < 16" "unat c div 64 < 4" using byte_less by (simp_all add: less_mult_imp_div_less)
  note p = pack_div [OF q(1)] pack_mod [OF q(1)] pack_div [OF q(2)] pack_mod [OF q(2)]
  show "of_nat (unat a div 4 * 4 + unat a mod 4 * 16 div 16) = a"
    "of_nat (unat a div 4 * 4 + (unat a mod 4 * 16 + unat b div 16) div 16) = a"
    "of_nat ((unat a mod 4 * 16 + unat b div 16) mod 16 * 16 + unat b mod 16 * 4 div 4) = b"
    "of_nat ((unat a mod 4 * 16 + unat b div 16) mod 16 * 16 + (unat b mod 16 * 4 + unat c div 64) div 4) = b"
    "of_nat ((unat b mod 16 * 4 + unat c div 64) mod 4 * 64 + unat c mod 64) = c"
    unfolding p by (simp_all add: div_mult_mod_eq del: of_nat_add of_nat_mult)
qed

lemma b64_read_encode: "b64_read url 0 0 0 (b64_encode url bs) = Some bs"
proof (induction url bs rule: b64_encode.induct)
  case (2 url a)
  show ?case unfolding b64_encode.simps b64_read_padded(1) [OF sextets(1,2,2)] bytes_back ..
next
  case (3 url a b)
  show ?case unfolding b64_encode.simps b64_read_padded(2) [OF sextets(1,3,4)] bytes_back ..
next
  case (4 url a b c rest)
  show ?case unfolding b64_encode.simps b64_read_four [OF sextets(1,3,5,6)] bytes_back 4 by (rule option.map(2))
qed simp

lemma b64_decode_encode [simp]: "b64_decode url (b64_encode url bs) = Inr bs"
  by (simp add: b64_decode_def b64_read_encode)

subsection \<open>Text as bytes\<close>

fun utf8_encode :: "string \<Rightarrow> bytes" where
  "utf8_encode [] = []"
| "utf8_encode (c # cs) =
     (let k = of_char c :: nat in
      (if k < 128 then [of_nat k] else [of_nat (192 + k div 64), of_nat (128 + k mod 64)]) @ utf8_encode cs)"

fun utf8_decode :: "bytes \<Rightarrow> string option" where
  \<comment> \<open>nothing for bytes that are no UTF-8, or for a code point beyond the model\<close>
  "utf8_decode [] = Some []"
| "utf8_decode (b # bs) =
     (if unat b < 128 then map_option (Cons (char_of (unat b))) (utf8_decode bs)
      else if unat b \<notin> {194, 195} then None
      else case bs of
        [] \<Rightarrow> None
      | d # ds \<Rightarrow> if unat d < 128 \<or> 192 \<le> unat d then None
          else map_option (Cons (char_of ((unat b - 192) * 64 + (unat d - 128)))) (utf8_decode ds))"

lemma char_less: "(of_char c :: nat) < 256"
  using of_char_mod_256 [of c, where 'a = nat] by (metis mod_less_divisor zero_less_numeral)

lemma unat_byte: "n < 256 \<Longrightarrow> unat (of_nat n :: 8 word) = n"
  by (simp add: unat_of_nat take_bit_nat_def)

lemma utf8_round [simp]: "utf8_decode (utf8_encode s) = Some s"
proof (induction s)
  case (Cons c cs)
  define k :: nat where "k = of_char c"
  have k: "k < 256" "char_of k = c" unfolding k_def using char_less by simp_all
  show ?case
  proof (cases "k < 128")
    case True
    then show ?thesis using Cons k by (simp add: k_def [symmetric] Let_def unat_byte)
  next
    case False
    have "k div 64 < 4" using k(1) by (simp add: less_mult_imp_div_less)
    moreover have "2 \<le> k div 64" using div_le_mono [of 128 k 64] False by simp
    ultimately have d: "k div 64 \<in> {2, 3}" by auto
    define x y :: "8 word" where xy: "x = of_nat (192 + k div 64)" "y = of_nat (128 + k mod 64)"
    have m: "k mod 64 < 64" by simp
    have u: "unat x = 192 + k div 64" "unat y = 128 + k mod 64" unfolding xy using d m by (auto simp del: of_nat_add intro!: unat_byte)
    have e: "utf8_encode (c # cs) = x # y # utf8_encode cs" using False by (simp add: xy k_def Let_def)
    have c: "(unat x - 192) * 64 + (unat y - 128) = k" unfolding u by simp
    have g: "\<not> unat x < 128" "unat x \<in> {194, 195}" "\<not> (unat y < 128 \<or> 192 \<le> unat y)" using u d m by auto
    show ?thesis unfolding e utf8_decode.simps list.case using g Cons by (simp add: c k(2))
  qed
qed simp

subsection \<open>The encrypted box\<close>

record cipher =
  \<comment> \<open>AES-GCM with the master key: nonce, data and associated data\<close>
  ci_seal :: "bytes \<Rightarrow> bytes \<Rightarrow> bytes \<Rightarrow> bytes"
  ci_open :: "bytes \<Rightarrow> bytes \<Rightarrow> bytes \<Rightarrow> bytes result"

definition cipher_law :: "cipher \<Rightarrow> bool" where
  \<comment> \<open>what was sealed opens with the same nonce and associated data\<close>
  "cipher_law k \<longleftrightarrow> (\<forall>n d a. ci_open k n (ci_seal k n d a) a = Inr d)"

definition VERSION :: bytes where
  "VERSION = utf8_encode ''v1''"

definition new_box :: "bytes \<Rightarrow> cipher \<Rightarrow> cipher result" where
  \<comment> \<open>the key must have 32 bytes\<close>
  "new_box key k = (if length key = 32 then Inr k else Inl ValueError)"

definition box_encrypt :: "cipher \<Rightarrow> bytes \<Rightarrow> string \<Rightarrow> string \<Rightarrow> string" where
  "box_encrypt k nonce plaintext aad = b64_encode True (VERSION @ nonce @ ci_seal k nonce (utf8_encode plaintext) (utf8_encode aad))"

definition box_decrypt :: "cipher \<Rightarrow> string \<Rightarrow> string \<Rightarrow> bytes result" where
  "box_decrypt k token aad = bind_result (b64_decode True token) (\<lambda>raw.
     if take 2 raw \<noteq> VERSION then Inl ValueError
     else ci_open k (take 12 (drop 2 raw)) (drop 14 raw) (utf8_encode aad))"

definition box_decrypt_str :: "cipher \<Rightarrow> string \<Rightarrow> string \<Rightarrow> string result" where
  "box_decrypt_str k token aad = bind_result (box_decrypt k token aad) (\<lambda>bs.
     case utf8_decode bs of None \<Rightarrow> Inl ValueError | Some s \<Rightarrow> Inr s)"

definition secret_box :: "cipher \<Rightarrow> bytes \<Rightarrow> key_box" where
  \<comment> \<open>the box of the wallet manager, with the nonce of the moment\<close>
  "secret_box k nonce = \<lparr>kb_encrypt = box_encrypt k nonce, kb_decrypt = box_decrypt_str k\<rparr>"

lemma length_VERSION [simp]: "length VERSION = 2"
  by (simp add: VERSION_def)

lemma box_round: "cipher_law k \<Longrightarrow> length nonce = 12 \<Longrightarrow> box_decrypt_str k (box_encrypt k nonce s aad) aad = Inr s"
  by (simp add: box_decrypt_str_def box_decrypt_def box_encrypt_def cipher_law_def)

text \<open>The box keeps its promise to the wallet manager: whatever text is encrypted with an identifier comes back with the same
  one, and a stored key is never empty, so the law of the wallets holds for it.\<close>

theorem secret_box_law:
  assumes "cipher_law k" and "length nonce = 12"
  shows "box_law (secret_box k nonce)"
proof -
  have "box_encrypt k nonce s aad \<noteq> []" for s aad
    using b64_encode.simps by (cases "(True, VERSION @ nonce @ ci_seal k nonce (utf8_encode s) (utf8_encode aad))" rule: b64_encode.cases)
      (auto simp: box_encrypt_def VERSION_def)
  then show ?thesis using box_round [OF assms] by (simp add: box_law_def secret_box_def)
qed

definition key_from_env :: "string \<Rightarrow> bytes result" where
  \<comment> \<open>\<open>load_or_create_master_key\<close> reading the variable or the file: 32 bytes in base64, an ASCII text\<close>
  "key_from_env v =
     (if \<not> list_all (\<lambda>c. (of_char c :: nat) < 128) v then Inl ValueError
      else bind_result (b64_decode False v) (\<lambda>key. if length key = 32 then Inr key else Inl ValueError))"

definition master_key :: "string option \<Rightarrow> string option \<Rightarrow> bytes \<Rightarrow> (bytes \<times> string option) result" where
  \<comment> \<open>the key, and the content of the key file; a new key is written only where there was no file\<close>
  "master_key env file fresh =
     (case env of
        Some (c # cs) \<Rightarrow> map_sum id (\<lambda>k. (k, file)) (key_from_env (c # cs))
      | _ \<Rightarrow> (case file of
          Some t \<Rightarrow> map_sum id (\<lambda>k. (k, file)) (key_from_env (strip t))
        | None \<Rightarrow> Inr (fresh, Some (b64_encode False fresh))))"
subsection \<open>The start of the process\<close>

definition ui_token :: "string option \<Rightarrow> string option \<Rightarrow> string \<Rightarrow> (string \<times> string \<times> string option) result" where
  \<comment> \<open>the token of the interface with its source, and the content of its file\<close>
  "ui_token env file fresh =
     (let given = (case env of None \<Rightarrow> [] | Some v \<Rightarrow> strip v); kept = (case file of None \<Rightarrow> [] | Some t \<Rightarrow> strip t) in
      if given \<noteq> [] then (if length given < 16 then Inl ValueError else Inr (given, ''env'', file))
      else if 16 \<le> length kept then Inr (kept, ''file'', file)
      else Inr (fresh, ''generated'', Some fresh))"

record startup_env =
  \<comment> \<open>the variables that are checked, and whether the data directory can be written\<close>
  ev_port :: int
  ev_default_mode :: string
  ev_live_allowed :: bool
  ev_auth_token :: "string option"
  ev_gateway_enabled :: bool
  ev_gateway_url :: string
  ev_master_key :: "string option"
  ev_data_dir :: "message option"

definition starts_with :: "string \<Rightarrow> string \<Rightarrow> bool" where
  "starts_with p s \<longleftrightarrow> take (length p) s = p"

definition master_key_problem :: "string option \<Rightarrow> message list" where
  "master_key_problem v =
     (case v of
        Some (c # cs) \<Rightarrow>
          if \<not> list_all (\<lambda>c. (of_char c :: nat) < 128) (c # cs) then [Msg ''FEDR_MASTER_KEY must be base64'' []]
          else (case b64_decode False (c # cs) of
            Inl _ \<Rightarrow> [Msg ''FEDR_MASTER_KEY must be base64'' []]
          | Inr key \<Rightarrow> reason_if (length key \<noteq> 32) (Msg ''FEDR_MASTER_KEY must decode to 32 bytes'' []))
      | _ \<Rightarrow> [])"

definition validate_startup :: "startup_env \<Rightarrow> message list" where
  "validate_startup e =
     reason_if (ev_port e < 1 \<or> 65535 < ev_port e) (Msg ''FEDR_PORT is invalid'' [AInt (ev_port e)])
     @ reason_if (ev_default_mode e \<notin> {''paper'', ''simulation'', ''testnet''})
         (Msg ''FEDR_DEFAULT_MODE must be paper|simulation|testnet'' [AStr (ev_default_mode e)])
     @ reason_if (ev_live_allowed e \<and> \<not> (case ev_auth_token e of None \<Rightarrow> False | Some t \<Rightarrow> t \<noteq> [] \<and> 16 \<le> length t))
         (Msg ''FEDR_LIVE_TRADING_ALLOWED=true requires FEDR_AUTH_TOKEN'' [])
     @ reason_if (ev_gateway_enabled e \<and> \<not> (starts_with ''http://'' (ev_gateway_url e) \<or> starts_with ''https://'' (ev_gateway_url e)))
         (Msg ''FEDR_GATEWAY_URL must be an http(s) URL'' [AStr (ev_gateway_url e)])
     @ master_key_problem (ev_master_key e)
     @ (case ev_data_dir e of None \<Rightarrow> [] | Some w \<Rightarrow> [Msg ''FEDR_DATA_DIR is not writable'' [AMsg w]])"

definition start_secrets ::
  "startup_env \<Rightarrow> string option \<Rightarrow> string option \<Rightarrow> string \<Rightarrow> bytes \<Rightarrow> message + (string \<times> bytes)" where
  \<comment> \<open>the part of the start that checks the environment and settles the token and the master key\<close>
  "start_secrets e token_file key_file fresh_token fresh_key =
     (if validate_startup e \<noteq> [] then Inl (Msg ''unsafe or invalid configuration'' (map AMsg (validate_startup e)))
      else case ui_token (ev_auth_token e) token_file fresh_token of
        Inl x \<Rightarrow> Inl (py_msg x)
      | Inr (token, _, _) \<Rightarrow>
          (case master_key (ev_master_key e) key_file fresh_key of
             Inl x \<Rightarrow> Inl (py_msg x)
           | Inr (key, _) \<Rightarrow> Inr (token, key)))"

subsection \<open>Every request\<close>

record http_request =
  \<comment> \<open>the headers by their lower-case names\<close>
  hq_path :: string
  hq_method :: string
  hq_headers :: "(string, string) dict"
  hq_cookie :: "string option"

definition PUBLIC_PATHS :: "string list" where
  "PUBLIC_PATHS = [''/api/system/health'', ''/api/auth/login'', ''/api/auth/status'']"

definition presented :: "http_request \<Rightarrow> string option" where
  "presented rq = (let header = dget (hq_headers rq) ''authorization'' [] in
     if starts_with ''bearer '' (lower header) then Some (drop 7 header) else hq_cookie rq)"

definition nonempty_given :: "string option \<Rightarrow> bool" where
  \<comment> \<open>the truth value of an optional text\<close>
  "nonempty_given t \<longleftrightarrow> t \<notin> {None, Some []}"

definition ends_with :: "string \<Rightarrow> string \<Rightarrow> bool" where
  "ends_with p s \<longleftrightarrow> length p \<le> length s \<and> drop (length s - length p) s = p"

definition dispatch :: "string option \<Rightarrow> http_request \<Rightarrow> nat option" where
  \<comment> \<open>the status of a refusal, or nothing when the request reaches its handler\<close>
  "dispatch token rq =
     (if \<not> starts_with ''/api'' (hq_path rq) \<or> hq_path rq \<in> set PUBLIC_PATHS then None
      else if \<not> nonempty_given token then Some 503
      else if \<not> nonempty_given (presented rq) \<or> presented rq \<noteq> token then Some 401
      else if nonempty_given (hq_cookie rq) \<and> dget (hq_headers rq) ''authorization'' [] = [] \<and> hq_method rq \<notin> {''GET'', ''HEAD'', ''OPTIONS''}
      then (if map_of (hq_headers rq) ''x-fedr-request'' \<noteq> Some ''1'' then Some 403
            else let origin = dget (hq_headers rq) ''origin'' []; host = dget (hq_headers rq) ''host'' [] in
              if origin \<noteq> [] \<and> host \<noteq> [] \<and> \<not> ends_with host origin then Some 403 else None)
      else None)"

subsection \<open>Logging in\<close>

definition LOGIN_MAX_FAILURES :: nat where "LOGIN_MAX_FAILURES = 5"

definition LOGIN_WINDOW_S :: int where "LOGIN_WINDOW_S = 600"

type_synonym failures = "(string, decimal list) dict"

definition recent_failures :: "decimal \<Rightarrow> string \<Rightarrow> failures \<Rightarrow> decimal list" where
  "recent_failures now client fs = filter (\<lambda>t. fround (now - t) < of_int LOGIN_WINDOW_S) (dget fs client [])"

definition login_failed :: "decimal \<Rightarrow> string \<Rightarrow> failures \<Rightarrow> failures" where
  "login_failed now client fs = AList.update client (last_n 50 (recent_failures now client fs @ [now])) fs"

definition login_locked_for :: "decimal \<Rightarrow> string \<Rightarrow> failures \<Rightarrow> int" where
  \<comment> \<open>the seconds to wait, zero when not locked\<close>
  "login_locked_for now client fs =
     (let hits = recent_failures now client fs in
      if LOGIN_MAX_FAILURES \<le> length hits then max 1 (trunc_int (fround (of_int LOGIN_WINDOW_S - fround (now - hd hits)))) else 0)"

datatype login_answer = Starting | Locked int | Refused | Logged_In string

record login_attempt =
  \<comment> \<open>the client, the token it sends, and the clock at the check of the lock and at the note of a failure\<close>
  lg_client :: string
  lg_token :: string
  lg_checked :: decimal
  lg_noted :: decimal

definition login :: "string option \<Rightarrow> login_attempt \<Rightarrow> failures \<Rightarrow> failures \<times> login_answer" where
  "login token a fs =
     (if \<not> nonempty_given token then (fs, Starting)
      else let locked = login_locked_for (lg_checked a) (lg_client a) fs in
        if locked \<noteq> 0 then (fs, Locked locked)
        else if Some (lg_token a) \<noteq> token then (login_failed (lg_noted a) (lg_client a) fs, Refused)
        else (AList.delete (lg_client a) fs, Logged_In (lg_token a)))"

subsection \<open>Properties\<close>

lemma strip_id: "list_all (\<lambda>c. \<not> is_space c) s \<Longrightarrow> strip s = s"
proof -
  have "dropWhile is_space t = t" if "list_all (\<lambda>c. \<not> is_space c) t" for t
    using that by (cases t) auto
  then show "list_all (\<lambda>c. \<not> is_space c) s \<Longrightarrow> strip s = s" by (simp add: strip_def)
qed

lemma b64_char_code: "n < 64 \<Longrightarrow> 43 \<le> (of_char (b64_char url n) :: nat) \<and> (of_char (b64_char url n) :: nat) < 128"
proof -
  assume "n < 64"
  then have "n < 26 \<or> (26 \<le> n \<and> n < 52) \<or> (52 \<le> n \<and> n < 62) \<or> n = 62 \<or> n = 63" by linarith
  then show ?thesis by (elim disjE) (auto simp: b64_char_def)
qed

lemma b64_encode_codes: "list_all (\<lambda>c. 43 \<le> (of_char c :: nat) \<and> (of_char c :: nat) < 128) (b64_encode url bs)"
  by (induction url bs rule: b64_encode.induct) (simp_all add: b64_char_code)

lemma b64_encode_clean: "list_all (\<lambda>c. \<not> is_space c) (b64_encode url bs)" "list_all (\<lambda>c. (of_char c :: nat) < 128) (b64_encode url bs)"
  using b64_encode_codes [of url bs] by (auto simp: list_all_iff is_space_def)

text \<open>A generated master key is the key of every later start: the file the first start writes decodes to the same key, unless a
  variable is set, so that what was encrypted stays readable.\<close>

theorem generated_key_persists:
  assumes "master_key env None fresh = Inr (key, file)" and "length fresh = 32" and "\<not> nonempty_given env"
  shows "master_key env file other = Inr (key, file)"
proof -
  have none: "master_key env f x = (case f of Some t \<Rightarrow> map_sum id (\<lambda>k. (k, f)) (key_from_env (strip t)) | None \<Rightarrow> Inr (x, Some (b64_encode False x)))" for f x
    using assms(3) by (auto simp: master_key_def nonempty_given_def split: option.splits list.splits)
  have "key = fresh" "file = Some (b64_encode False fresh)" using assms(1) unfolding none by auto
  then show ?thesis unfolding none by (simp add: key_from_env_def strip_id b64_encode_clean assms(2))
qed

lemma ui_token_long: "ui_token env file fresh = Inr (token, src, f) \<Longrightarrow> 16 \<le> length fresh \<Longrightarrow> 16 \<le> length token"
  by (auto simp: ui_token_def Let_def split: if_splits option.splits)

lemma start_secrets_ok:
  assumes "start_secrets e tf kf ft fk = Inr (token, key)" and "16 \<le> length ft"
  shows "16 \<le> length token \<and> validate_startup e = []"
  using assms ui_token_long [OF _ assms(2)]
  by (auto simp: start_secrets_def split: if_splits sum.splits)


fun refused_times :: "string option \<Rightarrow> string \<Rightarrow> login_attempt list \<Rightarrow> failures \<Rightarrow> decimal list" where
  \<comment> \<open>when wrong tokens of a client were compared and refused, over a sequence of attempts of any clients\<close>
  "refused_times token c [] fs = []"
| "refused_times token c (a # as) fs =
     (case login token a fs of (fs', ans) \<Rightarrow>
        (if lg_client a = c \<and> ans = Refused then [lg_noted a] else []) @ refused_times token c as fs')"

fun in_order :: "decimal \<Rightarrow> login_attempt list \<Rightarrow> bool" where
  \<comment> \<open>the readings of a monotonic clock\<close>
  "in_order now [] = True"
| "in_order now (a # as) = (now \<le> lg_checked a \<and> lg_checked a \<le> lg_noted a \<and> in_order (lg_noted a) as)"

definition counts_at :: "decimal \<Rightarrow> decimal \<Rightarrow> bool" where
  "counts_at now t \<longleftrightarrow> fround (now - t) < of_int LOGIN_WINDOW_S"

lemma counts_earlier: "counts_at now t \<Longrightarrow> now' \<le> now \<Longrightarrow> counts_at now' t"
  unfolding counts_at_def using flt.rnd_mono [of "now' - t" "now - t"] by linarith

lemma filter_counts: "now' \<le> now \<Longrightarrow> filter (counts_at now) (filter (counts_at now') xs) = filter (counts_at now) xs"
  by (auto simp: filter_filter intro!: filter_cong dest: counts_earlier)

lemma length_counts: "now' \<le> now \<Longrightarrow> length (filter (counts_at now) xs) \<le> length (filter (counts_at now') xs)"
  by (metis filter_counts length_filter_le)

lemma recent_counts: "recent_failures now c fs = filter (counts_at now) (dget fs c [])"
  unfolding recent_failures_def counts_at_def ..

definition noted :: "decimal \<Rightarrow> string \<Rightarrow> failures \<Rightarrow> decimal list \<Rightarrow> bool" where
  \<comment> \<open>from now on the stored failures of a client count like all of them, and there are few\<close>
  "noted now c fs all \<longleftrightarrow> (\<forall>t \<ge> now. filter (counts_at t) (dget fs c []) = filter (counts_at t) all) \<and>
     length (filter (counts_at now) all) \<le> LOGIN_MAX_FAILURES"

lemma noted_later: "noted now c fs all \<Longrightarrow> now \<le> now' \<Longrightarrow> noted now' c fs all"
  unfolding noted_def using length_counts [of now now' all] by auto

lemma login_other: "lg_client a \<noteq> c \<Longrightarrow> dget (fst (login token a fs)) c [] = dget fs c []"
  by (auto simp: login_def login_failed_def Let_def dget_def)

lemma noted_refused:
  assumes "noted now c fs all" and "now \<le> lg_checked a" "lg_checked a \<le> lg_noted a" and "lg_client a = c"
    and "login token a fs = (fs', Refused)"
  shows "noted (lg_noted a) c fs' (all @ [lg_noted a])"
proof -
  have few: "length (filter (counts_at (lg_checked a)) all) < LOGIN_MAX_FAILURES"
    and fs': "fs' = login_failed (lg_noted a) c fs"
    using assms by (auto simp: login_def login_locked_for_def recent_counts noted_def Let_def split: if_splits)
  have eq: "filter (counts_at (lg_noted a)) (dget fs c []) = filter (counts_at (lg_noted a)) all"
    using assms(1-3) unfolding noted_def by simp
  have len: "length (filter (counts_at (lg_noted a)) all) < LOGIN_MAX_FAILURES"
    using few length_counts [OF assms(3), of all] by linarith
  then have stored: "dget fs' c [] = filter (counts_at (lg_noted a)) (dget fs c []) @ [lg_noted a]"
    by (simp add: fs' login_failed_def recent_counts eq last_n_def LOGIN_MAX_FAILURES_def)
  have "filter (counts_at t) (dget fs' c []) = filter (counts_at t) (all @ [lg_noted a])" if "lg_noted a \<le> t" for t
  proof -
    have "filter (counts_at t) (dget fs c []) = filter (counts_at t) all" using assms(1-3) that unfolding noted_def by simp
    then show ?thesis by (simp add: stored filter_counts [OF that] del: filter_filter)
  qed
  then show ?thesis using len by (simp add: noted_def)
qed

lemma refused_few:
  assumes "noted now c fs all" and "in_order now as" and "\<forall>a \<in> set as. lg_client a = c \<longrightarrow> Some (lg_token a) \<noteq> token"
    and "now \<le> t" "\<forall>a \<in> set as. lg_noted a \<le> t"
  shows "length (filter (counts_at t) (all @ refused_times token c as fs)) \<le> LOGIN_MAX_FAILURES"
  using assms
proof (induction as arbitrary: now fs all)
  case Nil
  then show ?case using length_counts [of now t all] by (simp add: noted_def)
next
  case (Cons a as)
  obtain fs' ans where l: "login token a fs = (fs', ans)" by force
  have o: "now \<le> lg_checked a" "lg_checked a \<le> lg_noted a" "in_order (lg_noted a) as" using Cons.prems(2) by simp_all
  show ?case
  proof (cases "lg_client a = c \<and> ans = Refused")
    case True
    have "noted (lg_noted a) c fs' (all @ [lg_noted a])"
      using noted_refused [OF Cons.prems(1) o(1,2)] True l by simp
    from Cons.IH [OF this o(3)] Cons.prems True l show ?thesis by simp
  next
    case False
    have "dget fs' c [] = dget fs c []"
    proof (cases "lg_client a = c")
      case True
      then have "ans \<noteq> Refused" "Some (lg_token a) \<noteq> token" using False Cons.prems(3) by auto
      then show ?thesis using l by (auto simp: login_def Let_def split: if_splits)
    next
      case False
      then show ?thesis using login_other [of a c token fs] l by simp
    qed
    then have "noted now c fs' all" using Cons.prems(1) by (simp add: noted_def)
    then have "noted (lg_noted a) c fs' all" by (rule noted_later) (use o in linarith)
    from Cons.IH [OF this o(3)] Cons.prems have "length (filter (counts_at t) (all @ refused_times token c as fs')) \<le> LOGIN_MAX_FAILURES"
      by simp
    moreover have "refused_times token c (a # as) fs = refused_times token c as fs'" using False l by auto
    ultimately show ?thesis by simp
  qed
qed


subsection \<open>Witnesses\<close>

definition demo_token :: string where
  "demo_token = ''0123456789abcdef''"

definition demo_startup :: startup_env where
  "demo_startup = \<lparr>ev_port = 8935, ev_default_mode = ''paper'', ev_live_allowed = True, ev_auth_token = Some demo_token,
     ev_gateway_enabled = False, ev_gateway_url = [], ev_master_key = None, ev_data_dir = None\<rparr>"

definition demo_post :: http_request where
  "demo_post = \<lparr>hq_path = ''/api/trading/mode'', hq_method = ''POST'', hq_headers = [(''x-fedr-request'', ''1''),
     (''origin'', ''http://localhost''), (''host'', ''localhost'')], hq_cookie = Some demo_token\<rparr>"


definition demo_attempt :: "decimal \<Rightarrow> login_attempt" where
  "demo_attempt t = \<lparr>lg_client = ''10.0.0.1'', lg_token = ''guess'', lg_checked = t, lg_noted = t\<rparr>"


theorem generated_key_persists_witness:
  "\<exists>file. master_key None None (replicate 32 0) = Inr (replicate 32 0, file) \<and> master_key None file [] = Inr (replicate 32 0, file)"
proof -
  have "master_key None None (replicate 32 0) = Inr (replicate 32 0, Some (b64_encode False (replicate 32 0)))"
    by (simp add: master_key_def)
  from generated_key_persists [OF this _ _, of "[]"] this show ?thesis by (auto simp: nonempty_given_def)
qed

end
