(* ===== verification/Records.thy ===== *)
theory Records
  imports Supervision Execution Breaker_Spec Transfers "HOL-Library.List_Lexorder" "HOL-Library.Char_ord"
begin

text \<open>
  Model of what the program keeps in its database and reads back (\<^verbatim>\<open>backend/fedr/db/repo.py\<close>, tables of
  \<^verbatim>\<open>backend/fedr/db/models.py\<close>): trades with their orders and fills, the result per day, the paper accounts, the
  circuit breakers, the deposits; and the places of \<^verbatim>\<open>backend/fedr/app.py\<close> and
  \<^verbatim>\<open>backend/fedr/engine/execution/executor.py\<close> that use them. A table is the list of its rows in order of insertion, a
  session is one step (it commits or rolls back as a whole), and a decimal is stored as its text, which reads back
  as the same decimal. Unbounded queries only; times are microseconds.
\<close>

subsection \<open>Times\<close>

definition stored_time :: "int \<Rightarrow> int" where
  \<comment> \<open>\<open>datetime.fromtimestamp(ms / 1000)\<close>: whole seconds, and the rest rounded to microseconds\<close>
  "stored_time ms = (let t = fround (of_int ms / 1000); s = trunc_int t in s * 10 ^ 6 + round_half_even (fround ((t - of_int s) * 10 ^ 6)))"

definition read_time :: "int \<Rightarrow> int" where
  \<comment> \<open>\<open>int(x.timestamp() * 1000)\<close>\<close>
  "read_time us = trunc_int (fround (fround (of_int us / 10 ^ 6) * 1000))"

subsection \<open>Trades, orders and fills\<close>

record trade_row =
  tw_id :: string
  tw_mode :: trading_mode
  tw_strategy :: strategy
  tw_opportunity_id :: string
  tw_pair :: string
  tw_route :: string
  tw_status :: trade_status
  tw_size_base :: decimal
  tw_estimates :: "decimal \<times> decimal \<times> decimal"
  tw_actuals :: "decimal option \<times> decimal option \<times> decimal option \<times> decimal option"
  tw_prediction_error :: "decimal option"
  tw_explanation :: message
  tw_started_at :: int
  tw_completed_at :: "int option"

record order_row =
  ow_id :: string
  ow_trade_id :: string
  ow_mode :: trading_mode
  ow_venue :: string
  ow_symbol :: string
  ow_side :: order_side
  ow_amount :: decimal
  ow_limit_price :: "decimal option"
  ow_status :: order_status
  ow_filled :: decimal
  ow_avg_price :: "decimal option"
  ow_fee_quote :: decimal
  ow_gas_cost_usd :: decimal
  ow_tx_hash :: "string option"
  ow_error :: "message option"

record fill_row =
  fw_order_id :: string
  fw_trade_id :: string
  fw_mode :: trading_mode
  fw_venue :: string
  fw_symbol :: string
  fw_side :: order_side
  fw_amount :: decimal
  fw_price :: decimal
  fw_fee_amount :: decimal
  fw_fee_asset :: string
  fw_tx_hash :: "string option"
  fw_ts :: int

definition merge_row :: "('r \<Rightarrow> 'k) \<Rightarrow> 'r \<Rightarrow> 'r list \<Rightarrow> 'r list" where
  \<comment> \<open>\<open>session.merge\<close>: the row with the same key is replaced\<close>
  "merge_row key r rows = (if list_ex (\<lambda>x. key x = key r) rows then map (\<lambda>x. if key x = key r then r else x) rows else rows @ [r])"

definition trade_row_of :: "trade_record \<Rightarrow> trade_row" where
  "trade_row_of tr = \<lparr>tw_id = tr_id tr, tw_mode = tr_mode tr, tw_strategy = tr_strategy tr, tw_opportunity_id = tr_opportunity_id tr,
     tw_pair = tr_pair tr, tw_route = tr_route tr, tw_status = tr_status tr, tw_size_base = tr_size_base tr,
     tw_estimates = (tr_estimated_gross tr, tr_estimated_net tr, tr_estimated_worst_case tr),
     tw_actuals = (tr_actual_gross tr, tr_actual_fees tr, tr_actual_gas tr, tr_actual_net tr),
     tw_prediction_error = tr_prediction_error tr, tw_explanation = tr_explanation tr,
     tw_started_at = stored_time (tr_started_at_ms tr),
     tw_completed_at = (case tr_completed_at_ms tr of None \<Rightarrow> None | Some t \<Rightarrow> if t = 0 then None else Some (stored_time t))\<rparr>"

definition leg_key :: "trade_record \<Rightarrow> order_result \<Rightarrow> string" where
  "leg_key tr leg = tr_id tr @ '':'' @ res_order_id leg"

definition order_row_of :: "trade_record \<Rightarrow> order_result \<Rightarrow> order_row" where
  "order_row_of tr leg = (let q = res_request leg in
     \<lparr>ow_id = leg_key tr leg, ow_trade_id = tr_id tr, ow_mode = tr_mode tr, ow_venue = or_venue q, ow_symbol = or_symbol q,
      ow_side = or_side q, ow_amount = or_amount q, ow_limit_price = or_limit_price q, ow_status = res_status leg,
      ow_filled = res_filled leg, ow_avg_price = res_avg_price leg, ow_fee_quote = res_fee_quote leg,
      ow_gas_cost_usd = res_gas_cost_usd leg, ow_tx_hash = res_tx_hash leg, ow_error = res_error leg\<rparr>)"

definition fill_row_of :: "trade_record \<Rightarrow> order_result \<Rightarrow> fill \<Rightarrow> fill_row" where
  "fill_row_of tr leg f =
     \<lparr>fw_order_id = leg_key tr leg, fw_trade_id = tr_id tr, fw_mode = tr_mode tr, fw_venue = fl_venue f, fw_symbol = fl_symbol f,
      fw_side = fl_side f, fw_amount = fl_amount f, fw_price = fl_price f, fw_fee_amount = fl_fee_amount f,
      fw_fee_asset = fl_fee_asset f, fw_tx_hash = fl_tx_hash f, fw_ts = stored_time (fl_ts_ms f)\<rparr>"

subsection \<open>The result per day\<close>

record pnl_amounts =
  pl_gross :: decimal
  pl_trading_fees :: decimal
  pl_gas :: decimal
  pl_funding :: decimal
  pl_slippage :: decimal
  pl_rebalancing :: decimal
  pl_other :: decimal
  pl_net :: decimal

definition no_pnl :: pnl_amounts where
  "no_pnl = \<lparr>pl_gross = 0, pl_trading_fees = 0, pl_gas = 0, pl_funding = 0, pl_slippage = 0, pl_rebalancing = 0, pl_other = 0, pl_net = 0\<rparr>"

definition add_amounts :: "pnl_amounts \<Rightarrow> pnl_amounts \<Rightarrow> pnl_amounts" where
  "add_amounts a b = \<lparr>pl_gross = dadd (pl_gross a) (pl_gross b), pl_trading_fees = dadd (pl_trading_fees a) (pl_trading_fees b),
     pl_gas = dadd (pl_gas a) (pl_gas b), pl_funding = dadd (pl_funding a) (pl_funding b), pl_slippage = dadd (pl_slippage a) (pl_slippage b),
     pl_rebalancing = dadd (pl_rebalancing a) (pl_rebalancing b), pl_other = dadd (pl_other a) (pl_other b), pl_net = dadd (pl_net a) (pl_net b)\<rparr>"

record pnl_row =
  pw_mode :: trading_mode
  pw_day :: string
  pw_amounts :: pnl_amounts
  pw_trades :: int
  pw_wins :: int

definition add_pnl :: "trading_mode \<Rightarrow> string \<Rightarrow> pnl_amounts \<Rightarrow> bool \<Rightarrow> pnl_row list \<Rightarrow> pnl_row list" where
  "add_pnl mode day a win rows =
     (let rows1 = (if list_ex (\<lambda>r. pw_mode r = mode \<and> pw_day r = day) rows then rows
                   else rows @ [\<lparr>pw_mode = mode, pw_day = day, pw_amounts = no_pnl, pw_trades = 0, pw_wins = 0\<rparr>])
      in map (\<lambda>r. if pw_mode r = mode \<and> pw_day r = day
                  then r\<lparr>pw_amounts := add_amounts (pw_amounts r) a, pw_trades := pw_trades r + 1,
                        pw_wins := pw_wins r + (if win then 1 else 0)\<rparr> else r) rows1)"

record pnl_total =
  pt_today_net :: decimal
  pt_total :: pnl_amounts
  pt_trades :: int
  pt_wins :: int
  pt_days :: "pnl_row list"

definition pnl_summary :: "trading_mode \<Rightarrow> string \<Rightarrow> pnl_row list \<Rightarrow> pnl_total" where
  "pnl_summary mode today rows =
     (let mine = filter (\<lambda>r. pw_mode r = mode) rows in
      \<lparr>pt_today_net = foldl (\<lambda>n r. if pw_day r = today then pl_net (pw_amounts r) else n) 0 mine,
       pt_total = foldl (\<lambda>t r. add_amounts t (pw_amounts r)) no_pnl mine,
       pt_trades = sum_list (map pw_trades mine), pt_wins = sum_list (map pw_wins mine),
       pt_days = last_n 30 (sort_key pw_day mine)\<rparr>)"

subsection \<open>The tables together\<close>

record tables =
  tb_trades :: "trade_row list"
  tb_orders :: "order_row list"
  tb_fills :: "fill_row list"
  tb_pnl :: "pnl_row list"
  tb_deposits :: "(trading_mode \<times> deposit_event) list"

definition no_tables :: tables where
  "no_tables = \<lparr>tb_trades = [], tb_orders = [], tb_fills = [], tb_pnl = [], tb_deposits = []\<rparr>"

definition save_leg :: "trade_record \<Rightarrow> tables \<Rightarrow> order_result option \<Rightarrow> tables" where
  \<comment> \<open>the fills of an order are stored when none of it is stored yet\<close>
  "save_leg tr db leg =
     (case leg of
        None \<Rightarrow> db
      | Some l \<Rightarrow>
          let db1 = db\<lparr>tb_orders := merge_row ow_id (order_row_of tr l) (tb_orders db)\<rparr> in
          if list_ex (\<lambda>f. fw_order_id f = leg_key tr l) (tb_fills db1) then db1
          else db1\<lparr>tb_fills := tb_fills db1 @ map (fill_row_of tr l) (res_fills l)\<rparr>)"

definition save_trade :: "trade_record \<Rightarrow> tables \<Rightarrow> tables" where
  "save_trade tr db =
     foldl (save_leg tr) (db\<lparr>tb_trades := merge_row tw_id (trade_row_of tr) (tb_trades db)\<rparr>) [tr_buy tr, tr_sell tr, tr_hedge tr]"

definition open_trades :: "trading_mode \<Rightarrow> tables \<Rightarrow> trade_row list" where
  "open_trades mode db = filter (\<lambda>t. tw_mode t = mode \<and> tw_status t \<in> {PENDING, EXECUTING, RECOVERING, PARTIAL}) (tb_trades db)"

definition count_failed_trades_since :: "trading_mode \<Rightarrow> int \<Rightarrow> tables \<Rightarrow> int" where
  "count_failed_trades_since mode since db =
     int (length (filter (\<lambda>t. tw_mode t = mode \<and> tw_status t \<in> {T_FAILED, RECOVERING, HEDGED} \<and> since \<le> tw_started_at t) (tb_trades db)))"

definition record_deposit :: "trading_mode \<Rightarrow> deposit_event \<Rightarrow> tables \<Rightarrow> tables \<times> bool" where
  "record_deposit mode dep db =
     (if list_ex (\<lambda>(m, d). de_key d = de_key dep) (tb_deposits db) then (db, False)
      else (db\<lparr>tb_deposits := tb_deposits db @ [(mode, dep)]\<rparr>, True))"

definition purge_mode_results :: "trading_mode \<Rightarrow> tables \<Rightarrow> tables" where
  \<comment> \<open>the tables of results the model has; the deposits are kept\<close>
  "purge_mode_results mode db =
     db\<lparr>tb_trades := filter (\<lambda>t. tw_mode t \<noteq> mode) (tb_trades db), tb_orders := filter (\<lambda>t. ow_mode t \<noteq> mode) (tb_orders db),
        tb_fills := filter (\<lambda>t. fw_mode t \<noteq> mode) (tb_fills db), tb_pnl := filter (\<lambda>t. pw_mode t \<noteq> mode) (tb_pnl db)\<rparr>"

definition booked_status :: "trade_status \<Rightarrow> bool" where
  "booked_status st \<longleftrightarrow> st \<in> {T_FILLED, PARTIAL, HEDGED}"

definition outcome_amounts :: "trade_outcome \<Rightarrow> pnl_amounts" where
  "outcome_amounts out = \<lparr>pl_gross = to_actual_gross out, pl_trading_fees = to_trading_fees out, pl_gas = to_gas out,
     pl_funding = to_funding out, pl_slippage = max 0 (to_slippage_variance out), pl_rebalancing = 0, pl_other = 0,
     pl_net = to_actual_net out\<rparr>"

definition store_outcome :: "trading_mode \<Rightarrow> string \<Rightarrow> trade_record \<Rightarrow> trade_outcome \<Rightarrow> tables \<Rightarrow> tables" where
  \<comment> \<open>the database side of \<open>_post_trade\<close>\<close>
  "store_outcome mode day tr out db =
     (let db1 = save_trade tr db in
      if tr_actual_net tr \<noteq> None \<and> booked_status (tr_status tr)
      then db1\<lparr>tb_pnl := add_pnl mode day (outcome_amounts out) (0 < to_actual_net out) (tb_pnl db1)\<rparr> else db1)"

definition load_daily_stats :: "string \<Rightarrow> int \<Rightarrow> tables \<Rightarrow> engine_ctx \<Rightarrow> engine_ctx" where
  \<comment> \<open>the day and the moment an hour ago come from the clock\<close>
  "load_daily_stats today hour_ago db cx =
     cx\<lparr>cx_daily_pnl_usd := pt_today_net (pnl_summary (cx_mode cx) today (tb_pnl db)),
        cx_failed_trades_last_hour := count_failed_trades_since (cx_mode cx) hour_ago db\<rparr>"

subsection \<open>The paper accounts\<close>

record paper_row =
  pb_mode :: trading_mode
  pb_venue :: string
  pb_asset :: string
  pb_free :: decimal
  pb_used :: decimal

definition paper_rows :: "trading_mode \<Rightarrow> saved_balances \<Rightarrow> paper_row list" where
  "paper_rows mode b = concat (map (\<lambda>(v, as). map (\<lambda>(a, free, used).
     \<lparr>pb_mode = mode, pb_venue = v, pb_asset = a, pb_free = free, pb_used = used\<rparr>) as) b)"

definition save_paper_balances :: "trading_mode \<Rightarrow> saved_balances \<Rightarrow> paper_row list \<Rightarrow> paper_row list" where
  "save_paper_balances mode b rows = filter (\<lambda>r. pb_mode r \<noteq> mode) rows @ paper_rows mode b"

definition set_balance :: "saved_balances \<Rightarrow> paper_row \<Rightarrow> saved_balances" where
  \<comment> \<open>\<open>out.setdefault(venue, {})[asset] = ...\<close>\<close>
  "set_balance d r = AList.update (pb_venue r) (AList.update (pb_asset r) (pb_free r, pb_used r) (dget d (pb_venue r) [])) d"

definition load_paper_balances :: "trading_mode \<Rightarrow> paper_row list \<Rightarrow> saved_balances" where
  "load_paper_balances mode rows = foldl set_balance [] (filter (\<lambda>r. pb_mode r = mode) rows)"

subsection \<open>The circuit breakers\<close>

record breaker_row =
  bw_reason :: breaker_reason
  bw_scope :: string
  bw_detail :: message
  bw_auto :: bool
  bw_active :: bool
  bw_tripped_at :: int
  bw_reset_at :: "int option"

definition save_breakers :: "int \<Rightarrow> breaker list \<Rightarrow> breaker_row list \<Rightarrow> breaker_row list" where
  "save_breakers now bs rows =
     map (\<lambda>r. if bw_active r then r\<lparr>bw_active := False, bw_reset_at := Some now\<rparr> else r) rows
     @ map (\<lambda>b. \<lparr>bw_reason = bk_reason b, bw_scope = bk_scope b, bw_detail = bk_detail b, bw_auto = bk_auto b, bw_active = True,
          bw_tripped_at = stored_time (bk_tripped_at_ms b), bw_reset_at = None\<rparr>) bs"

definition load_active_breakers :: "breaker_row list \<Rightarrow> breaker_row list" where
  "load_active_breakers rows = filter bw_active rows"

definition restored_breaker :: "breaker_row \<Rightarrow> breaker" where
  \<comment> \<open>what the start makes of a row\<close>
  "restored_breaker r = \<lparr>bk_reason = bw_reason r, bk_detail = bw_detail r, bk_tripped_at_ms = read_time (bw_tripped_at r),
     bk_scope = bw_scope r, bk_auto = bw_auto r\<rparr>"

definition saved_when :: "bool \<Rightarrow> int \<Rightarrow> breaker_manager \<Rightarrow> breaker_row list \<Rightarrow> breaker_row list" where
  \<comment> \<open>what the callback of the manager does to the table when it was called\<close>
  "saved_when called now m rows = (if called then save_breakers now (active_breakers m) rows else rows)"

definition watch_saved ::
  "watch_env \<Rightarrow> app_settings \<Rightarrow> quality_policy \<Rightarrow> quality_state \<Rightarrow> venue_ref \<Rightarrow> health_tracker \<Rightarrow>
   breaker_manager \<times> breaker_row list \<Rightarrow> breaker_manager \<times> breaker_row list" where
  \<comment> \<open>\<open>watch_venue\<close> with the saves that its trips and resets cause\<close>
  "watch_saved env s p qs v t0 = (\<lambda>(m, rows).
     if \<not> vr_connected v then (m, rows)
     else
       let n = vr_name v; t = check_clock env v t0; now = we_now_ms env;
           m1 = watch_rate_limit env n t m;
           rows1 = saved_when (rate_limited t (we_tick env) \<longrightarrow> 3 \<le> snd (record_event m (''rate_limit:'' @ n) 300 (we_tick env))) now m1 rows;
           (m2, t2) = watch_market_data p qs n (m1, t);
           rows2 = saved_when (ht_data_unhealthy t \<and> \<not> is_unhealthy p qs n) now m2 rows1;
           m3 = keep_in_step (ht_maintenance t2) EXCHANGE_MAINTENANCE (Msg ''reports maintenance'' [AStr n]) (venue_scope n) now m2;
           rows3 = saved_when True now m3 rows2;
           m4 = keep_in_step (ws_down env s) WEBSOCKET_FAILURE (Msg ''websocket down'' [AStr n]) (venue_scope n @ '':ws'') now m3
       in (m4, saved_when True now m4 rows3))"

type_synonym first_watch = "(watch_env \<times> venue_ref \<times> health_tracker) list"

definition watched_all ::
  "app_settings \<Rightarrow> quality_policy \<Rightarrow> quality_state \<Rightarrow> first_watch \<Rightarrow> breaker_manager \<times> breaker_row list \<Rightarrow> breaker_manager \<times> breaker_row list" where
  "watched_all s p qs ws st = foldl (\<lambda>st (env, v, t). watch_saved env s p qs v t st) st ws"

definition start_breakers ::
  "app_settings \<Rightarrow> quality_policy \<Rightarrow> quality_state \<Rightarrow> first_watch \<Rightarrow> breaker_row list \<Rightarrow> breaker_manager \<times> breaker_row list" where
  \<comment> \<open>the start builds a fresh manager, builds the connectors, which ends with a check of their health, and only then reads the
      stored breakers\<close>
  "start_breakers s p qs ws rows =
     (let (m, rows') = watched_all s p qs ws (new_manager, rows) in
      (restore m (map restored_breaker (load_active_breakers rows')), rows'))"

inductive persisted :: "breaker_manager \<Rightarrow> breaker_row list \<Rightarrow> bool" where
  \<comment> \<open>the manager with its table over the life of the installation: every trip and reset ends with a save, counting does not
      touch the table, and a start begins with a fresh manager\<close>
  Install: "persisted new_manager []"
| Trip: "persisted m rows \<Longrightarrow> m' = fst (trip m r d sc auto now) \<Longrightarrow> persisted m' (save_breakers t (active_breakers m') rows)"
| Reset: "persisted m rows \<Longrightarrow> m' = fst (reset m r sc) \<Longrightarrow> persisted m' (save_breakers t (active_breakers m') rows)"
| Record: "persisted m rows \<Longrightarrow> persisted (fst (record_event m c w tick)) rows"
| Count: "persisted m rows \<Longrightarrow> persisted (fst (count_events m c w tick)) rows"
| Restart: "persisted m rows \<Longrightarrow> start_breakers s p qs ws rows = (m', rows') \<Longrightarrow> persisted m' rows'"

subsection \<open>What the tables keep\<close>

definition row_alarm :: "breaker_row \<Rightarrow> string \<times> breaker_reason" where
  "row_alarm r = (bw_scope r, bw_reason r)"

lemma load_save_breakers: "row_alarm ` set (load_active_breakers (save_breakers t bs rows)) = (\<lambda>b. (bk_scope b, bk_reason b)) ` set bs"
  by (force simp: load_active_breakers_def save_breakers_def row_alarm_def image_iff)

lemma alarms_restored:
  "alarms (restore new_manager (map restored_breaker (load_active_breakers rows))) = row_alarm ` set (load_active_breakers rows)"
  by (simp add: alarms_restore manager_wf_new image_image restored_breaker_def row_alarm_def)

lemma wf_count: "manager_wf m \<Longrightarrow> manager_wf (fst (count_events m c w tick))"
  by (simp add: count_events_def Let_def manager_wf_counters)

lemma alarms_of_save: "row_alarm ` set (load_active_breakers (save_breakers t (active_breakers m) rows)) = alarms m"
  by (simp add: load_save_breakers alarms_def)

lemma wf_watch_rate_limit: "manager_wf m \<Longrightarrow> manager_wf (watch_rate_limit env n t m)"
  by (auto simp: watch_rate_limit_def split: prod.split dest: wf_record [of m "''rate_limit:'' @ n" 300 "we_tick env"])

lemma watch_saved_wf: "manager_wf m \<Longrightarrow> manager_wf (fst (watch_saved env s p qs v t (m, rows)))"
  by (auto simp: watch_saved_def Let_def watch_market_data_def wf_watch_rate_limit)

lemma watch_saved_rows:
  assumes "vr_connected v"
  shows "row_alarm ` set (load_active_breakers (snd (watch_saved env s p qs v t (m, rows)))) = alarms (fst (watch_saved env s p qs v t (m, rows)))"
  using assms by (simp add: watch_saved_def Let_def saved_when_def alarms_of_save split: prod.split)

lemma watch_saved_off: "\<not> vr_connected v \<Longrightarrow> watch_saved env s p qs v t st = st"
  by (cases st) (simp add: watch_saved_def)

lemma watch_saved_manager: "fst (watch_saved env s p qs v t (m, rows)) = fst (watch_venue env s p qs v (m, t))"
  by (simp add: watch_saved_def watch_venue_def Let_def split: prod.split)

lemma watched_all_snoc: "watched_all s p qs (ws @ [(env, v, t)]) st = watch_saved env s p qs v t (watched_all s p qs ws st)"
  by (simp add: watched_all_def)

lemma watched_all_inv:
  assumes "manager_wf m"
  shows "manager_wf (fst (watched_all s p qs ws (m, rows))) \<and>
    (if \<exists>(env, v, t) \<in> set ws. vr_connected v
     then row_alarm ` set (load_active_breakers (snd (watched_all s p qs ws (m, rows)))) = alarms (fst (watched_all s p qs ws (m, rows)))
     else watched_all s p qs ws (m, rows) = (m, rows))"
proof (induction ws rule: rev_induct)
  case Nil
  then show ?case using assms by (simp add: watched_all_def)
next
  case (snoc w ws)
  obtain env v t where w: "w = (env, v, t)" by (cases w)
  obtain m1 rows1 where s1: "watched_all s p qs ws (m, rows) = (m1, rows1)" by force
  show ?case
  proof (cases "vr_connected v")
    case True
    then show ?thesis using snoc.IH watch_saved_wf [of m1 env s p qs v t rows1] watch_saved_rows [OF True, of env s p qs t m1 rows1]
      by (simp add: w watched_all_snoc s1)
  next
    case False
    then show ?thesis using snoc.IH by (simp add: w watched_all_snoc watch_saved_off)
  qed
qed

lemma start_breakers_alarms:
  assumes "start_breakers s p qs ws rows = (m', rows')"
  shows "manager_wf m' \<and> row_alarm ` set (load_active_breakers rows') = alarms m' \<and>
    alarms m' = (if \<exists>(env, v, t) \<in> set ws. vr_connected v then alarms (fst (watched_all s p qs ws (new_manager, rows)))
                 else row_alarm ` set (load_active_breakers rows))"
proof -
  obtain m rows1 where w: "watched_all s p qs ws (new_manager, rows) = (m, rows1)" by force
  note W = watched_all_inv [OF manager_wf_new, of s p qs ws rows, unfolded w fst_conv snd_conv]
  have m': "m' = restore m (map restored_breaker (load_active_breakers rows'))" "rows' = rows1"
    using assms by (auto simp: start_breakers_def w)
  have a: "alarms m' = alarms m \<union> row_alarm ` set (load_active_breakers rows')"
    using W by (simp add: m' alarms_restore image_image restored_breaker_def row_alarm_def)
  show ?thesis
  proof (cases "\<exists>(env, v, t) \<in> set ws. vr_connected v")
    case True
    then show ?thesis using W a by (simp add: w m' manager_wf_restore)
  next
    case False
    then show ?thesis using W a by (auto simp: m' manager_wf_restore manager_wf_new)
  qed
qed

lemma persisted_inv: "persisted m rows \<Longrightarrow> manager_wf m \<and> row_alarm ` set (load_active_breakers rows) = alarms m"
proof (induction rule: persisted.induct)
  case Install
  then show ?case by (simp add: manager_wf_new load_active_breakers_def)
next
  case (Trip m rows m' r d sc auto now t)
  then show ?case by (simp add: alarms_of_save manager_wf_trip)
next
  case (Reset m rows m' r sc t)
  then show ?case by (simp add: alarms_of_save manager_wf_reset)
next
  case (Record m rows c w tick)
  then show ?case by (simp add: wf_record)
next
  case (Count m rows c w tick)
  then show ?case by (simp add: wf_count)
next
  case (Restart m rows s p qs ws m' rows')
  from start_breakers_alarms [OF Restart.hyps(2)] show ?case by simp
qed

text \<open>The table always holds exactly the alarms of the process: at every moment of the life of the installation, whatever was tripped,
  reset and counted and however often it was restarted, a manager restored from the table has exactly the alarms of
  the running one, so a scope is tripped in it exactly when it is in the running one.\<close>

theorem stored_alarms_exact:
  assumes "persisted m rows"
  shows "alarms (restore new_manager (map restored_breaker (load_active_breakers rows))) = alarms m \<and>
    is_tripped (restore new_manager (map restored_breaker (load_active_breakers rows))) sc = is_tripped m sc"
  using persisted_inv [OF assms] by (simp add: alarms_restored is_tripped_alarms)

lemma watched_scopes:
  "alarms (fst (watched_all s p qs ws (new_manager, rows))) \<subseteq>
     {x. \<exists>(env, v, t) \<in> set ws. vr_connected v \<and> fst x \<in> {venue_scope (vr_name v), venue_scope (vr_name v) @ '':ws''}}"
proof (induction ws rule: rev_induct)
  case Nil
  then show ?case by (simp add: watched_all_def)
next
  case (snoc w ws)
  obtain env v t where w: "w = (env, v, t)" by (cases w)
  obtain m1 rows1 where s1: "watched_all s p qs ws (new_manager, rows) = (m1, rows1)" by force
  have wf: "manager_wf m1" using watched_all_inv [OF manager_wf_new, of s p qs ws rows] by (simp add: s1)
  show ?case
  proof (cases "vr_connected v")
    case True
    obtain m2 t2 where v2: "watch_venue env s p qs v (m1, t) = (m2, t2)" by force
    then have "fst (watch_saved env s p qs v t (m1, rows1)) = m2" by (simp add: watch_saved_manager)
    moreover have "{x \<in> alarms m2. fst x \<noteq> venue_scope (vr_name v) \<and> fst x \<noteq> venue_scope (vr_name v) @ '':ws''} \<subseteq> alarms m1"
      using watch_venue_facts [OF v2 True wf] by blast
    ultimately show ?thesis using snoc.IH True by (fastforce simp: w watched_all_snoc s1)
  next
    case False
    then show ?thesis using snoc.IH by (force simp: w watched_all_snoc watch_saved_off)
  qed
qed

text \<open>C15. A restart forgets the stored alarms: once a single venue connects during the start, the first check of its health resets what
  is not wrong with it on the still empty manager, each reset saves the empty list over the table, and what is
  read back afterwards are only the alarms of that check: none of a venue that is not connected, of a chain, a strategy or
  a symbol, and in particular no global one, so an exposure that stopped all trading does not stop it any more.
  Only when no venue connects does every alarm come back.\<close>

theorem restart_forgets_alarms:
  assumes "persisted m rows" and "start_breakers s p qs ws rows = (m', rows')"
  shows "if \<exists>(env, v, t) \<in> set ws. vr_connected v
    then alarms m' \<subseteq> {x. \<exists>(env, v, t) \<in> set ws. vr_connected v \<and> fst x \<in> {venue_scope (vr_name v), venue_scope (vr_name v) @ '':ws''}} \<and>
      \<not> is_tripped m' ''global''
    else alarms m' = alarms m"
proof -
  note A = start_breakers_alarms [OF assms(2)] and I = persisted_inv [OF assms(1)]
  have g: "''global'' \<noteq> venue_scope n" "''global'' \<noteq> venue_scope n @ '':ws''" for n by (simp_all add: venue_scope_def)
  show ?thesis
  proof (cases "\<exists>(env, v, t) \<in> set ws. vr_connected v")
    case True
    then have sub: "alarms m' \<subseteq> {x. \<exists>(env, v, t) \<in> set ws. vr_connected v \<and> fst x \<in> {venue_scope (vr_name v), venue_scope (vr_name v) @ '':ws''}}"
      using A watched_scopes [of s p qs ws rows] by simp
    then have "\<not> is_tripped m' ''global''" using g by (fastforce simp: is_tripped_alarms alarm_on_def)
    with sub True show ?thesis by simp
  next
    case False
    then show ?thesis using A I by simp
  qed
qed

lemma set_last:
  assumes "v \<notin> fst ` set d"
  shows "AList.update v x (d @ [(v, y)]) = d @ [(v, x)]" "AList.update v x d = d @ [(v, x)]" "dget (d @ [(v, y)]) v z = y" "dget d v z = z"
  using assms by (induction d) (auto simp: dget_def)

lemma set_balances:
  assumes "v \<notin> fst ` set d" and "distinct (map fst (bs @ as))"
  shows "foldl set_balance (d @ [(v, bs)]) (map (\<lambda>(a, f, u). \<lparr>pb_mode = m, pb_venue = v, pb_asset = a, pb_free = f, pb_used = u\<rparr>) as) = d @ [(v, bs @ as)]"
  using assms(2)
proof (induction as arbitrary: bs)
  case (Cons x as)
  obtain a f u where x: "x = (a, f, u)" by (cases x)
  have "a \<notin> fst ` set bs" using Cons.prems x by auto
  then have "set_balance (d @ [(v, bs)]) \<lparr>pb_mode = m, pb_venue = v, pb_asset = a, pb_free = f, pb_used = u\<rparr> = d @ [(v, bs @ [(a, f, u)])]"
    using assms(1) by (simp add: set_balance_def set_last)
  with Cons.IH [of "bs @ [x]"] Cons.prems x show ?case by simp
qed simp

lemma set_first: "v \<notin> fst ` set d \<Longrightarrow> set_balance d \<lparr>pb_mode = m, pb_venue = v, pb_asset = a, pb_free = f, pb_used = u\<rparr> = d @ [(v, [(a, f, u)])]"
  by (simp add: set_balance_def set_last)

definition saved_wf :: "saved_balances \<Rightarrow> bool" where
  \<comment> \<open>a nested dictionary without empty parts\<close>
  "saved_wf b \<longleftrightarrow> distinct (map fst b) \<and> (\<forall>(v, as) \<in> set b. as \<noteq> [] \<and> distinct (map fst as))"

lemma load_rows: "saved_wf (d @ b) \<Longrightarrow> foldl set_balance d (paper_rows m b) = d @ b"
proof (induction b arbitrary: d)
  case (Cons x b)
  obtain v as where x: "x = (v, as)" by (cases x)
  have w: "v \<notin> fst ` set d" "as \<noteq> []" "distinct (map fst as)" using Cons.prems x by (auto simp: saved_wf_def)
  then obtain a f u rest where as: "as = (a, f, u) # rest" by (cases as) auto
  have "foldl set_balance d (map (\<lambda>(a, f, u). \<lparr>pb_mode = m, pb_venue = v, pb_asset = a, pb_free = f, pb_used = u\<rparr>) as) = d @ [(v, as)]"
    using set_balances [OF w(1), of "[(a, f, u)]" rest m] w(3) by (simp add: as set_first [OF w(1)])
  with Cons.IH [of "d @ [x]"] Cons.prems x show ?case by (simp add: paper_rows_def)
qed (simp add: paper_rows_def)

lemma paper_rows_mode: "r \<in> set (paper_rows m b) \<Longrightarrow> pb_mode r = m"
  by (auto simp: paper_rows_def)

text \<open>A saved paper account is read back as it was, and saving one mode leaves the accounts of every other mode alone.\<close>

theorem paper_balances_return:
  assumes "saved_wf b"
  shows "load_paper_balances mode (save_paper_balances mode b rows) = b \<and>
    (other \<noteq> mode \<longrightarrow> load_paper_balances other (save_paper_balances mode b rows) = load_paper_balances other rows)"
proof -
  have mine: "filter (\<lambda>r. pb_mode r = mode) (save_paper_balances mode b rows) = paper_rows mode b"
    using paper_rows_mode by (force simp: save_paper_balances_def filter_empty_conv filter_id_conv)
  have theirs: "filter (\<lambda>r. pb_mode r = other) (save_paper_balances mode b rows) = filter (\<lambda>r. pb_mode r = other) rows" if "other \<noteq> mode"
    using that paper_rows_mode [of _ mode b] by (auto simp: save_paper_balances_def filter_empty_conv intro!: filter_cong)
  show ?thesis using load_rows [of "[]" b mode] assms theirs by (simp add: load_paper_balances_def mine)
qed

subsection \<open>The daily result\<close>

definition rows_wf :: "pnl_row list \<Rightarrow> bool" where
  \<comment> \<open>the unique index: one row for a mode and a day\<close>
  "rows_wf rows \<longleftrightarrow> distinct (map (\<lambda>r. (pw_mode r, pw_day r)) rows)"

definition day_net :: "trading_mode \<Rightarrow> string \<Rightarrow> pnl_row list \<Rightarrow> decimal" where
  "day_net mode day rows = (case find (\<lambda>r. pw_mode r = mode \<and> pw_day r = day) rows of None \<Rightarrow> 0 | Some r \<Rightarrow> pl_net (pw_amounts r))"

lemma today_net_fold:
  assumes "rows_wf rows"
  shows "foldl (\<lambda>n r. if pw_day r = day then pl_net (pw_amounts r) else n) z (filter (\<lambda>r. pw_mode r = mode) rows) =
    (case find (\<lambda>r. pw_mode r = mode \<and> pw_day r = day) rows of None \<Rightarrow> z | Some r \<Rightarrow> pl_net (pw_amounts r))"
  using assms
proof (induction rows arbitrary: z)
  case (Cons r rows)
  have wf: "rows_wf rows" using Cons.prems by (simp add: rows_wf_def)
  show ?case
  proof (cases "pw_mode r = mode \<and> pw_day r = day")
    case True
    then have "find (\<lambda>r. pw_mode r = mode \<and> pw_day r = day) rows = None"
      using Cons.prems unfolding find_None_iff rows_wf_def by (auto simp: image_iff)
    with Cons.IH [OF wf, of "pl_net (pw_amounts r)"] True show ?thesis by simp
  next
    case False
    with Cons.IH [OF wf, of z] show ?thesis by auto
  qed
qed simp

lemma today_net: "rows_wf rows \<Longrightarrow> pt_today_net (pnl_summary mode day rows) = day_net mode day rows"
  by (simp add: pnl_summary_def Let_def today_net_fold day_net_def)

lemma rows_wf_add: "rows_wf rows \<Longrightarrow> rows_wf (add_pnl mode day a win rows)"
proof -
  have k: "map (\<lambda>r. (pw_mode r, pw_day r)) (map (\<lambda>r. if pw_mode r = mode \<and> pw_day r = day
      then r\<lparr>pw_amounts := add_amounts (pw_amounts r) a, pw_trades := pw_trades r + 1, pw_wins := pw_wins r + (if win then 1 else 0)\<rparr> else r) rs)
    = map (\<lambda>r. (pw_mode r, pw_day r)) rs" for rs by simp
  assume "rows_wf rows"
  then show ?thesis unfolding rows_wf_def add_pnl_def Let_def k by (auto simp: list_ex_iff)
qed

lemma find_map_same: "(\<And>x. P (f x) = P x) \<Longrightarrow> find P (map f xs) = map_option f (find P xs)"
  by (induction xs) auto

lemma find_append: "find P (xs @ ys) = (case find P xs of None \<Rightarrow> find P ys | Some x \<Rightarrow> Some x)"
  by (induction xs) auto

lemma day_net_add: "day_net mode day (add_pnl mode day a win rows) = dadd (day_net mode day rows) (pl_net a)"
proof -
  define P where "P r \<longleftrightarrow> pw_mode r = mode \<and> pw_day r = day" for r :: pnl_row
  define f where "f r = (if P r then r\<lparr>pw_amounts := add_amounts (pw_amounts r) a, pw_trades := pw_trades r + 1,
    pw_wins := pw_wins r + (if win then 1 else 0)\<rparr> else r)" for r
  define new where "new = \<lparr>pw_mode = mode, pw_day = day, pw_amounts = no_pnl, pw_trades = 0, pw_wins = 0\<rparr>"
  have add: "add_pnl mode day a win rows = map f (if list_ex P rows then rows else rows @ [new])"
    unfolding add_pnl_def Let_def f_def P_def new_def ..
  have net: "day_net mode day rs = (case find P rs of None \<Rightarrow> 0 | Some r \<Rightarrow> pl_net (pw_amounts r))" for rs
    by (simp add: day_net_def P_def [abs_def])
  have same: "P (f r) = P r" for r by (simp add: f_def P_def)
  have fnd: "find P rows = None \<longleftrightarrow> \<not> list_ex P rows" by (auto simp: find_None_iff list_ex_iff)
  have new: "P new" "pl_net (pw_amounts new) = 0" by (simp_all add: P_def new_def no_pnl_def)
  have f: "pl_net (pw_amounts (f r)) = dadd (pl_net (pw_amounts r)) (pl_net a)" if "P r" for r
    using that by (simp add: f_def add_amounts_def)
  have found: "find P (map f rs) = map_option f (find P rs)" for rs by (rule find_map_same) (rule same)
  show ?thesis
  proof (cases "find P rows")
    case None
    then have "find P (map f (rows @ [new])) = Some (f new)" using new(1) unfolding found by (simp add: find_append)
    then show ?thesis using None fnd f [OF new(1)] new(2) unfolding net add by simp
  next
    case (Some r)
    then have "P r" by (auto simp: find_Some_iff)
    then show ?thesis using Some fnd f [of r] unfolding net add by (simp add: found)
  qed
qed

lemma trip_global_daily [simp]: "cx_daily_pnl_usd (trip_global r d now cx) = cx_daily_pnl_usd cx" "cx_settings (trip_global r d now cx) = cx_settings cx"
  by (simp_all add: trip_global_def)

lemma post_breakers_daily [simp]: "cx_daily_pnl_usd (post_trade_breakers env fresh tr out cx) = cx_daily_pnl_usd cx"
  unfolding post_trade_breakers_def Let_def
  by (simp only: if_distrib [of cx_daily_pnl_usd] trip_global_daily if_cancel)

lemma post_trade_daily: "cx_daily_pnl_usd (post_trade env fresh latency tr out cx) = dadd (cx_daily_pnl_usd cx) (to_actual_net out)"
  "cx_settings (post_trade env fresh latency tr out cx) = cx_settings cx"
  using post_trade_frame [of cx env fresh latency tr out]
  by (simp_all add: post_trade_def Let_def frame_def split: option.split)

lemma save_trade_pnl [simp]: "tb_pnl (save_trade tr db) = tb_pnl db"
proof -
  have leg: "tb_pnl (save_leg tr d l) = tb_pnl d" for d l by (simp add: save_leg_def Let_def split: option.split)
  show ?thesis by (simp add: save_trade_def leg)
qed

definition in_step :: "string \<Rightarrow> engine_ctx \<times> tables \<Rightarrow> bool" where
  \<comment> \<open>the daily result in memory is the one of the table\<close>
  "in_step day = (\<lambda>(cx, db). rows_wf (tb_pnl db) \<and> cx_daily_pnl_usd cx = pt_today_net (pnl_summary (cx_mode cx) day (tb_pnl db)))"

definition book_trade :: "string \<Rightarrow> engine_ctx \<times> tables \<Rightarrow> exec_env \<times> opportunity \<times> int \<times> trade_record \<times> trade_outcome \<Rightarrow> engine_ctx \<times> tables" where
  \<comment> \<open>\<open>_post_trade\<close> with both of its sides\<close>
  "book_trade day = (\<lambda>(cx, db) (env, fresh, latency, tr, out).
     (post_trade env fresh latency tr out cx, store_outcome (cx_mode cx) day tr out db))"

lemma book_trade_in_step:
  assumes "in_step day s" and "booked_status (tr_status tr)" and "tr_actual_net tr \<noteq> None"
  shows "in_step day (book_trade day s (env, fresh, latency, tr, out))"
proof -
  obtain cx db where s: "s = (cx, db)" by (cases s)
  have m: "cx_mode (post_trade env fresh latency tr out cx) = cx_mode cx" by (simp add: cx_mode_def post_trade_daily(2))
  show ?thesis using assms rows_wf_add
    by (simp add: s in_step_def book_trade_def store_outcome_def Let_def m post_trade_daily(1) today_net rows_wf_add day_net_add outcome_amounts_def)
qed

text \<open>The daily loss limit survives housekeeping and restarts for booked trades: as long as every trade of the day ends filled,
  partly filled or hedged, the daily result the risk engine compares with the limit is the one of the table, so
  reloading it changes nothing.\<close>

theorem daily_pnl_in_step:
  assumes "in_step day s" and "\<forall>(env, fresh, latency, tr, out) \<in> set ts. booked_status (tr_status tr) \<and> tr_actual_net tr \<noteq> None"
    and "foldl (book_trade day) s ts = (cx, db)"
  shows "cx_daily_pnl_usd (load_daily_stats day hour_ago db cx) = cx_daily_pnl_usd cx"
proof -
  have "in_step day (foldl (book_trade day) s ts)"
    using assms(1,2)
  proof (induction ts arbitrary: s)
    case (Cons t ts)
    obtain env fresh latency tr out where t: "t = (env, fresh, latency, tr, out)" by (cases t)
    have "in_step day (book_trade day s t)" unfolding t using Cons.prems t by (intro book_trade_in_step) auto
    with Cons show ?case by simp
  qed simp
  then show ?thesis using assms(3) by (simp add: in_step_def load_daily_stats_def)
qed

text \<open>C40. The loss of a trade that ends failed or recovering is forgotten: it counts against the daily limit in memory, but it is
  not added to the table, so the next housekeeping pass, a change of mode or a restart takes it out of the daily
  result again.\<close>

theorem unrecorded_loss_forgotten:
  assumes "in_step day (cx, db)" and "\<not> booked_status (tr_status tr)"
    and "book_trade day (cx, db) (env, fresh, latency, tr, out) = (cx', db')"
  shows "cx_daily_pnl_usd cx' = dadd (cx_daily_pnl_usd cx) (to_actual_net out) \<and>
    cx_daily_pnl_usd (load_daily_stats day hour_ago db' cx') = cx_daily_pnl_usd cx"
proof -
  have c: "cx' = post_trade env fresh latency tr out cx" "tb_pnl db' = tb_pnl db"
    using assms(2,3) by (auto simp: book_trade_def store_outcome_def Let_def)
  have "cx_mode cx' = cx_mode cx" unfolding c by (simp add: cx_mode_def post_trade_daily(2))
  then show ?thesis using assms(1) by (simp add: c in_step_def load_daily_stats_def post_trade_daily(1))
qed

subsection \<open>Witnesses\<close>

definition demo_outcome :: "decimal \<Rightarrow> trade_outcome" where
  "demo_outcome net = \<lparr>to_actual_gross = net, to_trading_fees = 0, to_gas = 0, to_funding = 0, to_actual_net = net,
     to_prediction_error = 0, to_slippage_variance = 0, to_fee_variance = 0, to_gas_variance = 0, to_matched_base = 0,
     to_unmatched_base = 0\<rparr>"

definition demo_trade :: "trade_status \<Rightarrow> decimal \<Rightarrow> trade_record" where
  "demo_trade st net = (start_trade demo_env demo_ctx (demo_opportunity 1))\<lparr>tr_status := st, tr_actual_net := Some net\<rparr>"

definition demo_booking :: "trade_status \<Rightarrow> decimal \<Rightarrow> exec_env \<times> opportunity \<times> int \<times> trade_record \<times> trade_outcome" where
  "demo_booking st net = (demo_env, demo_opportunity 1, 5, demo_trade st net, demo_outcome net)"

lemma demo_in_step: "in_step ''2026-01-02'' (demo_ctx, no_tables)"
  by (simp add: in_step_def rows_wf_def no_tables_def pnl_summary_def Let_def demo_ctx_def)

definition demo_alarm :: breaker_manager where
  "demo_alarm = fst (trip new_manager ONE_LEG_FILL (Msg [] []) ''global'' True 1000)"

theorem restart_forgets_alarms_witness:
  "is_tripped demo_alarm ''global'' \<and>
   \<not> is_tripped (fst (start_breakers app_defaults default_policy [] [(quiet_watch, demo_venue ''kraken'', new_tracker)]
       (save_breakers 5 (active_breakers demo_alarm) []))) ''global''"
proof -
  obtain m' rows' where x: "start_breakers app_defaults default_policy [] [(quiet_watch, demo_venue ''kraken'', new_tracker)]
       (save_breakers 5 (active_breakers demo_alarm) []) = (m', rows')" by force
  have "persisted demo_alarm (save_breakers 5 (active_breakers demo_alarm) [])"
    by (rule persisted.Trip [OF persisted.Install demo_alarm_def])
  from restart_forgets_alarms [OF this x] have "\<not> is_tripped m' ''global''" by (simp add: demo_venue_def)
  moreover have "is_tripped demo_alarm ''global''"
    by (simp add: demo_alarm_def is_tripped_alarms alarms_trip manager_wf_new alarm_on_def)
  ultimately show ?thesis unfolding x by simp
qed

theorem paper_balances_return_witness:
  "load_paper_balances PAPER (save_paper_balances PAPER [(''kraken'', [(''USDC'', 100, 5), (''BTC'', 1, 0)])] []) =
     [(''kraken'', [(''USDC'', 100, 5), (''BTC'', 1, 0)])]"
  using paper_balances_return [of "[(''kraken'', [(''USDC'', 100, 5), (''BTC'', 1, 0)])]" PAPER "[]" LIVE] by (simp add: saved_wf_def)

theorem daily_pnl_in_step_witness:
  "cx_daily_pnl_usd (load_daily_stats ''2026-01-02'' 0
      (snd (foldl (book_trade ''2026-01-02'') (demo_ctx, no_tables) [demo_booking T_FILLED 3, demo_booking HEDGED (- 2)]))
      (fst (foldl (book_trade ''2026-01-02'') (demo_ctx, no_tables) [demo_booking T_FILLED 3, demo_booking HEDGED (- 2)]))) =
   cx_daily_pnl_usd (fst (foldl (book_trade ''2026-01-02'') (demo_ctx, no_tables) [demo_booking T_FILLED 3, demo_booking HEDGED (- 2)]))"
proof -
  have b: "\<forall>(env, fresh, latency, tr, out) \<in> set [demo_booking T_FILLED 3, demo_booking HEDGED (- 2)].
      booked_status (tr_status tr) \<and> tr_actual_net tr \<noteq> None"
    by (simp add: demo_booking_def demo_trade_def booked_status_def)
  show ?thesis by (rule daily_pnl_in_step [OF demo_in_step b]) simp
qed

theorem unrecorded_loss_forgotten_witness:
  "cx_daily_pnl_usd (load_daily_stats ''2026-01-02'' 0
      (snd (book_trade ''2026-01-02'' (demo_ctx, no_tables) (demo_booking RECOVERING (- 40))))
      (fst (book_trade ''2026-01-02'' (demo_ctx, no_tables) (demo_booking RECOVERING (- 40))))) = 0"
proof -
  obtain cx db where b: "book_trade ''2026-01-02'' (demo_ctx, no_tables) (demo_booking RECOVERING (- 40)) = (cx, db)" by force
  have st: "\<not> booked_status (tr_status (demo_trade RECOVERING (- 40)))" by (simp add: demo_trade_def booked_status_def)
  have "cx_daily_pnl_usd demo_ctx = 0" by (simp add: demo_ctx_def)
  with unrecorded_loss_forgotten [OF demo_in_step st b [unfolded demo_booking_def]] b show ?thesis by simp
qed

end
