(* ===== verification/Feeds.thy ===== *)
theory Feeds
  imports Market_Hub Strategies Supervision
begin

text \<open>
  Model of the feeds of the market data hub (\<^verbatim>\<open>backend/fedr/marketdata/hub.py\<close>, from \<open>start\<close> on): which tasks are started
  for which markets, and what a websocket task does with the books, errors and reconnections it sees. A task is
  described by its rounds: one attempt to stream ends in some way after some books, and a failed one is followed by REST
  polls until the pause is over. The clock, the books and the errors are arguments.
\<close>

subsection \<open>Starting the feeds\<close>

record feed_source =
  \<comment> \<open>a connector, and whether it can stream: the capability and the method\<close>
  fd_venue :: venue_ref
  fd_streams :: bool

datatype feed = Ws_Feed string string | Rest_Feed string "string list"

definition swap_symbol :: "string \<Rightarrow> string" where
  \<comment> \<open>of a pair \<open>BASE/QUOTE\<close>\<close>
  "swap_symbol p = (let (b, q) = partition_slash p in perp_symbol_of b q)"

definition feed_symbols_of :: "string list \<Rightarrow> venue_ref \<Rightarrow> string list" where
  \<comment> \<open>what \<open>rebuild_connectors\<close> asks of a venue\<close>
  "feed_symbols_of pairs c = filter (supports_symbol c) pairs @ (if vr_kind c = PERP then map swap_symbol pairs else [])"

definition feeds_of :: "bool \<Rightarrow> (venue_ref \<Rightarrow> string list) \<Rightarrow> feed_source \<Rightarrow> feed list" where
  "feeds_of ws_on symbols_for f =
     (let c = fd_venue f in
      if vr_kind c = DEX then []
      else let symbols = filter (supports_symbol c) (symbols_for c) in
           if symbols = [] then []
           else if ws_on \<and> fd_streams f then map (Ws_Feed (vr_name c)) symbols else [Rest_Feed (vr_name c) symbols])"

definition start_feeds :: "bool \<Rightarrow> (venue_ref \<Rightarrow> string list) \<Rightarrow> feed_source list \<Rightarrow> feed list" where
  "start_feeds ws_on symbols_for fs = concat (map (feeds_of ws_on symbols_for) fs)"

fun feed_markets :: "feed \<Rightarrow> (string \<times> string) list" where
  "feed_markets (Ws_Feed v s) = [(v, s)]"
| "feed_markets (Rest_Feed v ss) = map (Pair v) ss"

subsection \<open>The websocket task\<close>

record ws_task =
  wt_hub :: market_hub
  wt_backoff :: decimal
  wt_rest_only :: bool

datatype ws_end =
    Stream_Ended
  | Not_Supported
  | Stream_Failed "(int \<times> (message + order_book)) list"

type_synonym ws_round = "(int \<times> order_book) list \<times> ws_end"

definition set_ws :: "string \<Rightarrow> bool \<Rightarrow> market_hub \<Rightarrow> market_hub" where
  "set_ws v b = upd_stat v (\<lambda>s. s\<lparr>vst_ws := Some b\<rparr>)"

definition poll_all :: "quality_policy \<Rightarrow> string \<Rightarrow> (int \<times> (message + order_book)) list \<Rightarrow> market_hub \<Rightarrow> market_hub" where
  \<comment> \<open>polls of one market, each at its own time: the fallback while a stream is down, and the REST task\<close>
  "poll_all p v polls h = foldl (\<lambda>h (now, answer). fst (poll_once p now v answer h)) h polls"

definition ws_attempt :: "quality_policy \<Rightarrow> string \<Rightarrow> ws_round \<Rightarrow> ws_task \<Rightarrow> ws_task" where
  "ws_attempt p v = (\<lambda>(books, e) t.
     if wt_rest_only t then t
     else let h = ingest_all p books (set_ws v True (wt_hub t)); b = (if books = [] then wt_backoff t else 1) in
          case e of
            Stream_Ended \<Rightarrow> t\<lparr>wt_hub := h, wt_backoff := b\<rparr>
          | Not_Supported \<Rightarrow> t\<lparr>wt_hub := set_ws v False h, wt_backoff := b, wt_rest_only := True\<rparr>
          | Stream_Failed polls \<Rightarrow>
              t\<lparr>wt_hub := poll_all p v polls (set_ws v False (upd_stat v (\<lambda>s. s\<lparr>vst_errors := vst_errors s + 1\<rparr>) h)),
                wt_backoff := min (b * 2) 30\<rparr>)"

definition ws_run :: "quality_policy \<Rightarrow> string \<Rightarrow> ws_round list \<Rightarrow> ws_task \<Rightarrow> ws_task" where
  "ws_run p v rs t = foldl (\<lambda>t r. ws_attempt p v r t) t rs"

definition new_ws_task :: "market_hub \<Rightarrow> ws_task" where
  "new_ws_task h = \<lparr>wt_hub = h, wt_backoff = 1, wt_rest_only = False\<rparr>"

subsection \<open>Every market has one feed\<close>

lemma feeds_of_markets:
  "concat (map feed_markets (feeds_of ws_on symbols_for f)) =
     (if vr_kind (fd_venue f) = DEX then []
      else map (Pair (vr_name (fd_venue f))) (filter (supports_symbol (fd_venue f)) (symbols_for (fd_venue f))))"
proof -
  have "concat (map feed_markets (map (Ws_Feed v) ss)) = map (Pair v) ss" for v ss by (induction ss) auto
  then show ?thesis by (simp add: feeds_of_def Let_def)
qed

lemma start_feeds_markets:
  "set (concat (map feed_markets (start_feeds ws_on symbols_for fs))) =
     {(v, s). \<exists>f \<in> set fs. vr_kind (fd_venue f) \<noteq> DEX \<and> v = vr_name (fd_venue f) \<and>
        supports_symbol (fd_venue f) s \<and> s \<in> set (symbols_for (fd_venue f))}"
proof (induction fs)
  case (Cons f fs)
  have "concat (map feed_markets (start_feeds ws_on symbols_for (f # fs))) =
      concat (map feed_markets (feeds_of ws_on symbols_for f)) @ concat (map feed_markets (start_feeds ws_on symbols_for fs))"
    by (simp add: start_feeds_def)
  then show ?case using Cons.IH unfolding feeds_of_markets by (auto split: if_splits)
qed (simp add: start_feeds_def)

lemma start_feeds_distinct:
  assumes "distinct (map (vr_name \<circ> fd_venue) fs)" and "\<forall>f \<in> set fs. distinct (symbols_for (fd_venue f))"
  shows "distinct (concat (map feed_markets (start_feeds ws_on symbols_for fs)))"
  using assms
proof (induction fs)
  case (Cons f fs)
  have s: "concat (map feed_markets (start_feeds ws_on symbols_for (f # fs))) =
      concat (map feed_markets (feeds_of ws_on symbols_for f)) @ concat (map feed_markets (start_feeds ws_on symbols_for fs))"
    by (simp add: start_feeds_def)
  have d: "distinct (concat (map feed_markets (feeds_of ws_on symbols_for f)))"
    unfolding feeds_of_markets using Cons.prems(2) by (simp add: distinct_map inj_on_def)
  have "set (concat (map feed_markets (feeds_of ws_on symbols_for f))) \<inter>
      set (concat (map feed_markets (start_feeds ws_on symbols_for fs))) = {}"
    unfolding feeds_of_markets start_feeds_markets using Cons.prems(1) by (force split: if_splits)
  then show ?case using Cons d unfolding s by simp
qed (simp add: start_feeds_def)

text \<open>Every market the program trades has exactly one feed: with venues of different names and pairs without repetition, the tasks
  the hub starts read each market of a venue that is not a DEX, that the venue lists and the settings name (the
  perpetual of a pair on a perpetual venue), in one task and no market in two.\<close>

theorem every_market_fed_once:
  assumes "distinct (map (vr_name \<circ> fd_venue) fs)" and "\<forall>f \<in> set fs. distinct (feed_symbols_of pairs (fd_venue f))"
  shows "distinct (concat (map feed_markets (start_feeds ws_on (feed_symbols_of pairs) fs))) \<and>
    ((v, s) \<in> set (concat (map feed_markets (start_feeds ws_on (feed_symbols_of pairs) fs))) \<longleftrightarrow>
      (\<exists>f \<in> set fs. v = vr_name (fd_venue f) \<and> vr_kind (fd_venue f) \<noteq> DEX \<and> supports_symbol (fd_venue f) s \<and>
         (s \<in> set pairs \<or> vr_kind (fd_venue f) = PERP \<and> s \<in> swap_symbol ` set pairs)))"
proof
  show "distinct (concat (map feed_markets (start_feeds ws_on (feed_symbols_of pairs) fs)))" by (rule start_feeds_distinct [OF assms])
qed (auto simp: start_feeds_markets feed_symbols_of_def simp del: set_concat)

subsection \<open>Reconnecting\<close>

fun streak :: "nat \<Rightarrow> ws_round list \<Rightarrow> nat" where
  \<comment> \<open>the failures in a row since the last book\<close>
  "streak n [] = n"
| "streak n ((books, e) # rs) =
     (let k = (if books = [] then n else 0) in streak (case e of Stream_Failed _ \<Rightarrow> k + 1 | _ \<Rightarrow> k) rs)"

lemma min_double: "min (min 30 (2 ^ k) * 2) (30 :: rat) = min 30 (2 ^ (k + 1))"
  by (auto simp: min_def)

lemma ws_attempt_supported:
  "e \<noteq> Not_Supported \<Longrightarrow> wt_rest_only (ws_attempt p v (books, e) t) = wt_rest_only t"
  by (cases e) (auto simp: ws_attempt_def Let_def)

lemma ws_run_backoff:
  assumes "\<forall>(books, e) \<in> set rs. e \<noteq> Not_Supported" and "\<not> wt_rest_only t" and "wt_backoff t = min 30 (2 ^ n)"
  shows "wt_backoff (ws_run p v rs t) = min 30 (2 ^ streak n rs)"
  using assms
proof (induction rs arbitrary: t n)
  case Nil
  then show ?case by (simp add: ws_run_def)
next
  case (Cons r rs)
  obtain books e where r: "r = (books, e)" by (cases r)
  define k where "k = (case e of Stream_Failed _ \<Rightarrow> (if books = [] then n else 0) + 1 | _ \<Rightarrow> (if books = [] then n else 0))"
  have "wt_backoff (ws_attempt p v r t) = min 30 (2 ^ k)"
    using Cons.prems min_double [of n] unfolding r k_def by (cases e) (auto simp: ws_attempt_def Let_def)
  moreover have "\<not> wt_rest_only (ws_attempt p v r t)" using Cons.prems by (simp add: r ws_attempt_supported)
  ultimately have "wt_backoff (ws_run p v rs (ws_attempt p v r t)) = min 30 (2 ^ streak k rs)"
    using Cons.IH Cons.prems(1) by simp
  then show ?case by (simp add: ws_run_def r k_def Let_def)
qed

text \<open>The pause before a reconnection doubles with every failure in a row, from one second up to thirty, and any book resets
  it; so no task waits longer than half a minute for its venue.\<close>

theorem reconnect_backoff:
  assumes "\<forall>(books, e) \<in> set rs. e \<noteq> Not_Supported"
  shows "wt_backoff (ws_run p v rs (new_ws_task h)) = min 30 (2 ^ streak 0 rs)"
    and "1 \<le> wt_backoff (ws_run p v rs (new_ws_task h)) \<and> wt_backoff (ws_run p v rs (new_ws_task h)) \<le> 30"
proof -
  show b: "wt_backoff (ws_run p v rs (new_ws_task h)) = min 30 (2 ^ streak 0 rs)"
    by (rule ws_run_backoff [OF assms]) (simp_all add: new_ws_task_def)
  show "1 \<le> wt_backoff (ws_run p v rs (new_ws_task h)) \<and> wt_backoff (ws_run p v rs (new_ws_task h)) \<le> 30"
    unfolding b by simp
qed

subsection \<open>The cache stays valid\<close>

lemma hub_ok_upd_stat [simp]: "hub_ok (upd_stat v f h) = hub_ok h"
  by (simp add: hub_ok_def)

lemma hub_ok_ingest_all: "hub_ok h \<Longrightarrow> hub_ok (ingest_all p bs h)"
  by (induction p bs h rule: ingest_all.induct) (auto intro: hub_ok_ingest)

lemma hub_ok_poll_all: "hub_ok h \<Longrightarrow> hub_ok (poll_all p v polls h)"
proof (induction polls arbitrary: h)
  case (Cons x polls)
  obtain now answer where x: "x = (now, answer)" by (cases x)
  have "hub_ok (fst (poll_once p now v answer h))"
    using Cons.prems by (auto simp: poll_once_def intro: hub_ok_ingest split: sum.splits)
  from Cons.IH [OF this] show ?case by (simp add: poll_all_def x)
qed (simp add: poll_all_def)

lemma hub_ok_ws_run: "hub_ok (wt_hub t) \<Longrightarrow> hub_ok (wt_hub (ws_run p v rs t))"
proof (induction rs arbitrary: t)
  case (Cons r rs)
  obtain books e where r: "r = (books, e)" by (cases r)
  have "hub_ok (wt_hub (ws_attempt p v r t))" unfolding r ws_attempt_def
    using Cons.prems by (cases e) (auto simp: Let_def set_ws_def intro!: hub_ok_poll_all hub_ok_ingest_all)
  then show ?case using Cons.IH [of "ws_attempt p v r t"] by (simp add: ws_run_def)
qed (simp add: ws_run_def)

subsection \<open>The flag of the venue\<close>

definition ws_flag :: "market_hub \<Rightarrow> string \<Rightarrow> bool option" where
  "ws_flag h v = vst_ws (dget (hub_stats h) v new_venue_stat)"

lemma ws_flag_set [simp]: "ws_flag (set_ws v b h) v = Some b"
  by (simp add: ws_flag_def set_ws_def upd_stat_def dget_def update_conv')

text \<open>The flag that tells whether the websocket of a venue is up belongs to the venue, but each of its markets writes it when its
  own task begins to connect: whatever happened to the other markets, the beginning of one attempt makes the venue look
  up, and the next check of the health loop lifts the alarm, without any book having arrived.\<close>

theorem connecting_lifts_alarm:
  assumes "we_ws_stat env = ws_flag (set_ws (vr_name c) True h) (vr_name c)" and "vr_connected c" and "manager_wf m"
    and "watch_venue env s p qs c (m, t) = (m', t')"
  shows "(venue_scope (vr_name c) @ '':ws'', WEBSOCKET_FAILURE) \<notin> alarms m'"
  using watch_venue_facts [OF assms(4,2,3)] assms(1) by (simp add: ws_down_def)

end
