(* ===== verification/Replay.thy ===== *)
theory Replay
  imports Market_Hub Opportunity_Engine Supervision Execution
begin

text \<open>
  Model of the simulated venues (\<^verbatim>\<open>backend/fedr/sim/venues.py\<close>) and of the replay (\<^verbatim>\<open>backend/fedr/backtest/replay.py\<close>), which
  runs the hub, the opportunity engine and the execution engine over a recorded or generated market, one trade per tick at
  most. The generator of prices itself (random draws, \<open>exp\<close>) is outside: its books and pool quotes are arguments, as are the
  clock and the gas data. The JSON of a recording is its data, and the text of a number is an argument that reads back as
  the number.
\<close>

subsection \<open>Simulated venues\<close>

definition sim_market :: "string \<Rightarrow> venue_kind \<Rightarrow> string \<Rightarrow> string \<Rightarrow> string \<Rightarrow> decimal \<Rightarrow> market_info" where
  \<comment> \<open>of an exchange: the steps and minima all simulated exchanges have\<close>
  "sim_market v k symbol base quote fee =
     \<lparr>mi_venue = v, mi_symbol = symbol, mi_base = base, mi_quote = quote, mi_kind = k, mi_active = True,
      mi_amount_step = 1 / 10 ^ 4, mi_price_step = 1 / 10 ^ 2, mi_min_amount = 1 / 10 ^ 4, mi_max_amount = None, mi_min_cost = 5,
      mi_taker_fee_pct = Some fee, mi_maker_fee_pct = Some (ddiv fee 2), mi_contract_size = 1,
      mi_settle = (if k = PERP then Some quote else None), mi_chain = None\<rparr>"

definition sim_parts :: "string \<Rightarrow> (string \<times> string) result" where
  \<comment> \<open>\<open>p.split("/")[0]\<close> and \<open>p.split("/")[1]\<close>\<close>
  "sim_parts p = (case split_on (CHR ''/'') p of b # q # _ \<Rightarrow> Inr (b, q) | _ \<Rightarrow> Inl IndexError)"

definition sim_cex_markets :: "string \<Rightarrow> decimal \<Rightarrow> string list \<Rightarrow> (string, market_info) dict result" where
  "sim_cex_markets v fee pairs =
     foldl (\<lambda>r p. bind_result r (\<lambda>d. bind_result (sim_parts p) (\<lambda>(b, q). Inr (AList.update p (sim_market v CEX p b q fee) d)))) (Inr []) pairs"

definition sim_perp_markets :: "string \<Rightarrow> decimal \<Rightarrow> string list \<Rightarrow> (string, market_info) dict result" where
  "sim_perp_markets v fee pairs =
     foldl (\<lambda>r p. bind_result r (\<lambda>d. bind_result (split_pair p) (\<lambda>(b, q).
       Inr (AList.update (perp_symbol_of b q) (sim_market v PERP (perp_symbol_of b q) b q fee) d)))) (Inr []) pairs"

definition sim_dex_market :: "string \<Rightarrow> chain \<Rightarrow> decimal \<Rightarrow> string \<Rightarrow> string \<times> string \<Rightarrow> market_info" where
  "sim_dex_market v ch fee p = (\<lambda>(b, q).
     \<lparr>mi_venue = v, mi_symbol = p, mi_base = b, mi_quote = q, mi_kind = DEX, mi_active = True,
      mi_amount_step = 1 / 10 ^ 6, mi_price_step = 1 / 10 ^ 8, mi_min_amount = 0, mi_max_amount = None, mi_min_cost = 0,
      mi_taker_fee_pct = Some fee, mi_maker_fee_pct = None, mi_contract_size = 1, mi_settle = None, mi_chain = Some ch\<rparr>)"

definition sim_book_quote ::
  "string \<Rightarrow> string \<Rightarrow> decimal \<Rightarrow> string \<Rightarrow> order_side \<Rightarrow> decimal \<Rightarrow> order_book \<Rightarrow> int \<Rightarrow> execution_quote result" where
  \<comment> \<open>of a simulated exchange, for the book of the caller or its own; the kind of the quote is an exchange also on the perpetual venue\<close>
  "sim_book_quote v display fee symbol side amount ob now =
     bind_result (walk ob side amount) (\<lambda>w. Inr
       \<lparr>eq_venue = v, eq_kind = CEX, eq_symbol = symbol, eq_side = side, eq_base_amount = amount,
        eq_quote_amount = wr_quote_amount w, eq_avg_price = wr_avg_price w, eq_reference_price = wr_reference_price w,
        eq_slippage_pct = wr_slippage_pct w, eq_price_impact_pct = 0, eq_fully_fillable = wr_fully_filled w,
        eq_market_ts_ms = ob_ts_ms ob, eq_quote_ts_ms = now, eq_fee_pct = Some fee, eq_fee_source = ''simulated_schedule'',
        eq_fee_in_quote = None, eq_gas_cost_usd = None, eq_gas_limit = None, eq_gas_price_native = None,
        eq_priority_fee_usd = 0, eq_min_received = None, eq_route = display, eq_quote_id = None, eq_chain = None,
        eq_levels_consumed = wr_levels_consumed w, eq_depth_available_base = wr_depth_available_base w,
        eq_is_maker = False, eq_extra_taker_fee_pct = Some fee\<rparr>)"

record pool_answer =
  \<comment> \<open>what the generator says of a pool\<close>
  pq_ok :: bool
  pq_reason :: string
  pq_quote_amount :: decimal
  pq_avg_price :: decimal
  pq_reference :: decimal
  pq_impact_pct :: decimal
  pq_fee_pct :: decimal

definition sim_pool_quote ::
  "string \<Rightarrow> chain \<Rightarrow> int \<Rightarrow> string \<Rightarrow> string \<Rightarrow> string \<Rightarrow> order_side \<Rightarrow> decimal \<Rightarrow> pool_answer \<Rightarrow> int \<Rightarrow> execution_quote" where
  "sim_pool_quote v ch gas_limit display quote_id symbol side amount a now =
     (let none = \<lparr>eq_venue = v, eq_kind = DEX, eq_symbol = symbol, eq_side = side, eq_base_amount = amount,
        eq_quote_amount = 0, eq_avg_price = 0, eq_reference_price = 0, eq_slippage_pct = 0, eq_price_impact_pct = 0,
        eq_fully_fillable = False, eq_market_ts_ms = now, eq_quote_ts_ms = now, eq_fee_pct = None, eq_fee_source = ''unknown'',
        eq_fee_in_quote = None, eq_gas_cost_usd = None, eq_gas_limit = Some gas_limit, eq_gas_price_native = None,
        eq_priority_fee_usd = 0, eq_min_received = None, eq_route = pq_reason a, eq_quote_id = None, eq_chain = Some ch,
        eq_levels_consumed = 0, eq_depth_available_base = 0, eq_is_maker = False, eq_extra_taker_fee_pct = None\<rparr>
      in if \<not> pq_ok a then none
         else none\<lparr>eq_quote_amount := pq_quote_amount a, eq_avg_price := pq_avg_price a, eq_reference_price := pq_reference a,
           eq_price_impact_pct := pq_impact_pct a, eq_fully_fillable := True, eq_fee_pct := Some (pq_fee_pct a),
           eq_fee_source := ''simulated_pool'', eq_route := display @ '' pool'', eq_quote_id := Some quote_id,
           eq_min_received := (if side = SELL then Some (dmul (pq_quote_amount a) (995 / 1000)) else None)\<rparr>)"

definition PREMIUM :: decimal where "PREMIUM = 10004 / 10000"

definition sim_perp_levels :: "level list \<Rightarrow> level list result" where
  \<comment> \<open>every price times the premium, to six places\<close>
  "sim_perp_levels ls =
     foldr (\<lambda>lv r. bind_result (quantize (dmul (lv_price lv) PREMIUM) 6) (\<lambda>p. bind_result r (\<lambda>rest. Inr (lv\<lparr>lv_price := p\<rparr> # rest)))) ls (Inr [])"

definition sim_perp_book :: "string \<Rightarrow> string \<Rightarrow> order_book \<Rightarrow> order_book result" where
  \<comment> \<open>of the spot book of the exchange the perpetual follows\<close>
  "sim_perp_book v symbol ob =
     bind_result (sim_perp_levels (ob_bids ob)) (\<lambda>b. bind_result (sim_perp_levels (ob_asks ob)) (\<lambda>a.
       Inr (ob\<lparr>ob_venue := v, ob_symbol := symbol, ob_bids := b, ob_asks := a\<rparr>)))"

subsection \<open>Recordings\<close>

record recorded_book =
  rb_venue :: string
  rb_symbol :: string
  rb_ts_ms :: "int option"
  rb_bids :: "(py_value \<times> py_value) list"
  rb_asks :: "(py_value \<times> py_value) list"

definition recorded_levels :: "(decimal \<Rightarrow> string) \<Rightarrow> level list \<Rightarrow> (py_value \<times> py_value) list" where
  "recorded_levels text ls = map (\<lambda>l. (PyStr (text (lv_price l)), PyStr (text (lv_amount l)))) (take 25 ls)"

definition record_book :: "(decimal \<Rightarrow> string) \<Rightarrow> order_book \<Rightarrow> recorded_book" where
  "record_book text b = \<lparr>rb_venue = ob_venue b, rb_symbol = ob_symbol b, rb_ts_ms = Some (ob_ts_ms b),
     rb_bids = recorded_levels text (ob_bids b), rb_asks = recorded_levels text (ob_asks b)\<rparr>"

definition load_book :: "int \<Rightarrow> recorded_book \<Rightarrow> order_book result" where
  "load_book now r = from_raw (rb_venue r) (rb_symbol r) (rb_bids r) (rb_asks r) (rb_ts_ms r) ''replay'' None now"

fun load_books :: "(int \<times> recorded_book) list \<Rightarrow> order_book list result" where
  \<comment> \<open>one line of the file; the first bad number ends the loading of the file\<close>
  "load_books [] = Inr []"
| "load_books ((now, r) # rs) = bind_result (load_book now r) (\<lambda>b. bind_result (load_books rs) (\<lambda>bs. Inr (b # bs)))"

subsection \<open>The replay\<close>

record replay_stats =
  bt_ticks :: int
  bt_evaluated :: int
  bt_executable :: int
  bt_blocked :: int
  bt_trades :: int
  bt_filled :: int
  bt_failed :: int
  bt_hedged :: int
  bt_aborted :: int
  bt_gross :: decimal
  bt_fees :: decimal
  bt_gas :: decimal
  bt_net :: decimal
  bt_estimated_net :: decimal
  bt_block_reasons :: "(string, int) dict"
  bt_wins :: int

definition new_stats :: replay_stats where
  "new_stats = \<lparr>bt_ticks = 0, bt_evaluated = 0, bt_executable = 0, bt_blocked = 0, bt_trades = 0, bt_filled = 0, bt_failed = 0,
     bt_hedged = 0, bt_aborted = 0, bt_gross = 0, bt_fees = 0, bt_gas = 0, bt_net = 0, bt_estimated_net = 0,
     bt_block_reasons = [], bt_wins = 0\<rparr>"

record replay_tick =
  \<comment> \<open>what a tick sees: the prices of the generator, the books of the recording or of the generator with the time of their arrival, the books the evaluation
      fetches because the hub has none, the market apart from books and prices, the times of the scan, and the environment of a
      trade\<close>
  te_external :: "string \<Rightarrow> decimal option"
  te_books :: "(int \<times> order_book) list"
  te_fetched :: "(int \<times> order_book) list"
  te_view :: "route_candidate \<Rightarrow> market_view"
  te_pairs :: "string list"
  te_start_ms :: int
  te_end_ms :: int
  te_exec :: "opportunity \<Rightarrow> exec_env"

record replay_state =
  ry_hub :: market_hub
  ry_cx :: engine_ctx
  ry_opps :: opp_engine
  ry_stats :: replay_stats

definition hub_view :: "market_hub \<Rightarrow> market_view \<Rightarrow> market_view" where
  "hub_view h mv = mv\<lparr>mv_book := get_book h, mv_price := (\<lambda>a. price_get (hub_prices h) a PRICE_MAX_AGE_MS (mv_now_ms mv))\<rparr>"

definition set_external :: "(string \<Rightarrow> decimal option) \<Rightarrow> market_hub \<Rightarrow> market_hub" where
  "set_external f h = h\<lparr>hub_prices := (hub_prices h)\<lparr>px_external := Some f\<rparr>\<rparr>"

definition count_opportunity :: "(message \<Rightarrow> string) \<Rightarrow> replay_stats \<Rightarrow> opportunity \<Rightarrow> replay_stats" where
  \<comment> \<open>the first reason, shortened to a key\<close>
  "count_opportunity key s o1 =
     (if op_decision o1 = SAFE_TO_EXECUTE then s\<lparr>bt_executable := bt_executable s + 1\<rparr>
      else (s\<lparr>bt_blocked := bt_blocked s + 1\<rparr>)\<lparr>bt_block_reasons := (case op_block_reasons o1 of [] \<Rightarrow> bt_block_reasons s
          | r # _ \<Rightarrow> AList.update (key r) (dget (bt_block_reasons s) (key r) 0 + 1) (bt_block_reasons s))\<rparr>)"

definition or_zero :: "decimal option \<Rightarrow> decimal" where
  "or_zero x = (case x of None \<Rightarrow> 0 | Some d \<Rightarrow> d)"

definition count_status :: "trade_status \<Rightarrow> replay_stats \<Rightarrow> replay_stats" where
  "count_status st s =
     (if st = T_FILLED then s\<lparr>bt_filled := bt_filled s + 1\<rparr>
      else if st = HEDGED then s\<lparr>bt_hedged := bt_hedged s + 1\<rparr>
      else if st = ABORTED then s\<lparr>bt_aborted := bt_aborted s + 1\<rparr>
      else s\<lparr>bt_failed := bt_failed s + 1\<rparr>)"

definition count_trade :: "trade_record \<Rightarrow> replay_stats \<Rightarrow> replay_stats" where
  "count_trade tr s =
     (let s1 = count_status (tr_status tr) (s\<lparr>bt_trades := bt_trades s + 1\<rparr>) in
      case tr_actual_net tr of
        None \<Rightarrow> s1
      | Some net \<Rightarrow>
          s1\<lparr>bt_net := dadd (bt_net s1) net, bt_gross := dadd (bt_gross s1) (or_zero (tr_actual_gross tr)),
             bt_fees := dadd (bt_fees s1) (or_zero (tr_actual_fees tr)), bt_gas := dadd (bt_gas s1) (or_zero (tr_actual_gas tr)),
             bt_estimated_net := dadd (bt_estimated_net s1) (tr_estimated_net tr),
             bt_wins := bt_wins s1 + (if 0 < net then 1 else 0)\<rparr>)"

definition replay_pick :: "opportunity list \<Rightarrow> opportunity option" where
  "replay_pick os = find (\<lambda>o1. op_decision o1 = SAFE_TO_EXECUTE \<and> op_strategy o1 \<noteq> FLASH_LOAN) os"

definition replay_one :: "quality_policy \<Rightarrow> (message \<Rightarrow> string) \<Rightarrow> replay_tick \<Rightarrow> replay_state \<Rightarrow> replay_state result" where
  "replay_one p key te st =
     (let h = ingest_all p (te_books te) (set_external (te_external te) (ry_hub st)); price = (\<lambda>a. price_get (hub_prices h) a PRICE_MAX_AGE_MS (te_start_ms te));
          cx = (ry_cx st)\<lparr>cx_inventory := (case cx_ledger (ry_cx st) of None \<Rightarrow> cx_inventory (ry_cx st)
             | Some l \<Rightarrow> refresh_paper_balances price l (cx_inventory (ry_cx st)))\<rparr>
      in bind_result (scan (\<lambda>c. hub_view h (te_view te c)) cx (ry_opps st) (te_pairs te) (te_start_ms te) (te_end_ms te)) (\<lambda>(cx1, oe, os).
           let h1 = ingest_all p (te_fetched te) h;
               s = foldl (count_opportunity key) ((ry_stats st)\<lparr>bt_ticks := bt_ticks (ry_stats st) + 1,
                     bt_evaluated := bt_evaluated (ry_stats st) + int (length os)\<rparr>) os
           in case replay_pick os of
                None \<Rightarrow> Inr \<lparr>ry_hub = h1, ry_cx = cx1, ry_opps = oe, ry_stats = s\<rparr>
              | Some o1 \<Rightarrow> bind_result (execute (te_exec te o1) cx1 o1) (\<lambda>(cx2, tr).
                  Inr \<lparr>ry_hub = h1, ry_cx = cx2, ry_opps = oe, ry_stats = count_trade tr s\<rparr>)))"

fun replay :: "quality_policy \<Rightarrow> (message \<Rightarrow> string) \<Rightarrow> replay_tick list \<Rightarrow> replay_state \<Rightarrow> replay_state result" where
  "replay p key [] st = Inr st"
| "replay p key (te # ts) st = bind_result (replay_one p key te st) (replay p key ts)"

subsection \<open>The counters\<close>

definition counts_ok :: "replay_stats \<Rightarrow> bool" where
  "counts_ok s \<longleftrightarrow> bt_evaluated s = bt_executable s + bt_blocked s \<and> 0 \<le> bt_blocked s \<and> 0 \<le> bt_wins s \<and>
     bt_trades s = bt_filled s + bt_failed s + bt_hedged s + bt_aborted s \<and>
     bt_wins s \<le> bt_trades s \<and> bt_trades s \<le> bt_ticks s \<and> bt_trades s \<le> bt_executable s"

lemma count_opportunities:
  "bt_executable (foldl (count_opportunity key) s os) = bt_executable s + int (length (filter (\<lambda>o1. op_decision o1 = SAFE_TO_EXECUTE) os)) \<and>
   bt_blocked (foldl (count_opportunity key) s os) = bt_blocked s + int (length (filter (\<lambda>o1. op_decision o1 \<noteq> SAFE_TO_EXECUTE) os))"
  by (induction os arbitrary: s) (auto simp: count_opportunity_def)

lemma count_opportunities_frame:
  "bt_ticks (foldl (count_opportunity key) s os) = bt_ticks s" "bt_evaluated (foldl (count_opportunity key) s os) = bt_evaluated s"
  "bt_trades (foldl (count_opportunity key) s os) = bt_trades s" "bt_filled (foldl (count_opportunity key) s os) = bt_filled s"
  "bt_failed (foldl (count_opportunity key) s os) = bt_failed s" "bt_hedged (foldl (count_opportunity key) s os) = bt_hedged s"
  "bt_aborted (foldl (count_opportunity key) s os) = bt_aborted s" "bt_wins (foldl (count_opportunity key) s os) = bt_wins s"
  by (induction os arbitrary: s) (simp_all add: count_opportunity_def)

lemma replay_one_cases:
  assumes "replay_one p key te st = Inr st'"
  obtains (rest) s os where "ry_stats st' = s"
      "s = foldl (count_opportunity key) ((ry_stats st)\<lparr>bt_ticks := bt_ticks (ry_stats st) + 1,
                     bt_evaluated := bt_evaluated (ry_stats st) + int (length os)\<rparr>) os"
  | (trade) s os o1 tr where "ry_stats st' = count_trade tr s" "replay_pick os = Some o1"
      "s = foldl (count_opportunity key) ((ry_stats st)\<lparr>bt_ticks := bt_ticks (ry_stats st) + 1,
                     bt_evaluated := bt_evaluated (ry_stats st) + int (length os)\<rparr>) os"
  using assms unfolding replay_one_def Let_def
  by (auto simp: bind_result_Inr_iff split: option.splits)

lemma count_trade_counts:
  "bt_trades (count_trade tr s) = bt_trades s + 1" "bt_ticks (count_trade tr s) = bt_ticks s"
  "bt_evaluated (count_trade tr s) = bt_evaluated s" "bt_executable (count_trade tr s) = bt_executable s"
  "bt_blocked (count_trade tr s) = bt_blocked s"
  "bt_filled (count_trade tr s) + bt_failed (count_trade tr s) + bt_hedged (count_trade tr s) + bt_aborted (count_trade tr s) =
     bt_filled s + bt_failed s + bt_hedged s + bt_aborted s + 1"
  "bt_wins s \<le> bt_wins (count_trade tr s)" "bt_wins (count_trade tr s) \<le> bt_wins s + 1"
  by (auto simp: count_trade_def count_status_def Let_def split: option.split)

lemma length_split: "int (length os) = int (length (filter P os)) + int (length (filter (\<lambda>x. \<not> P x) os))"
  by (induction os) auto

lemma counts_ok_one: "replay_one p key te st = Inr st' \<Longrightarrow> counts_ok (ry_stats st) \<Longrightarrow> counts_ok (ry_stats st')"
proof (erule replay_one_cases)
  fix s os
  assume "ry_stats st' = s" and s: "s = foldl (count_opportunity key) ((ry_stats st)\<lparr>bt_ticks := bt_ticks (ry_stats st) + 1,
      bt_evaluated := bt_evaluated (ry_stats st) + int (length os)\<rparr>) os" and ok: "counts_ok (ry_stats st)"
  then show "counts_ok (ry_stats st')"
    using count_opportunities [of key "(ry_stats st)\<lparr>bt_ticks := bt_ticks (ry_stats st) + 1, bt_evaluated := bt_evaluated (ry_stats st) + int (length os)\<rparr>" os]
      length_split [of os "\<lambda>o1. op_decision o1 = SAFE_TO_EXECUTE"]
    by (simp add: counts_ok_def count_opportunities_frame)
next
  fix s os o1 tr
  assume st': "ry_stats st' = count_trade tr s" and o1: "replay_pick os = Some o1"
    and s: "s = foldl (count_opportunity key) ((ry_stats st)\<lparr>bt_ticks := bt_ticks (ry_stats st) + 1,
      bt_evaluated := bt_evaluated (ry_stats st) + int (length os)\<rparr>) os" and ok: "counts_ok (ry_stats st)"
  have "o1 \<in> set (filter (\<lambda>o1. op_decision o1 = SAFE_TO_EXECUTE) os)"
    using o1 by (auto simp: replay_pick_def find_Some_iff)
  then have "1 \<le> int (length (filter (\<lambda>o1. op_decision o1 = SAFE_TO_EXECUTE) os))"
    by (cases "filter (\<lambda>o1. op_decision o1 = SAFE_TO_EXECUTE) os") auto
  then show "counts_ok (ry_stats st')"
    using ok s count_opportunities [of key "(ry_stats st)\<lparr>bt_ticks := bt_ticks (ry_stats st) + 1, bt_evaluated := bt_evaluated (ry_stats st) + int (length os)\<rparr>" os]
      length_split [of os "\<lambda>o1. op_decision o1 = SAFE_TO_EXECUTE"] count_trade_counts [where tr = tr and s = s]
    by (simp add: st' counts_ok_def count_opportunities_frame)
qed

lemma counts_ok_replay: "replay p key ts st = Inr st' \<Longrightarrow> counts_ok (ry_stats st) \<Longrightarrow> counts_ok (ry_stats st')"
proof (induction ts arbitrary: st)
  case (Cons te ts)
  then obtain st1 where "replay_one p key te st = Inr st1" "replay p key ts st1 = Inr st'" by (auto simp: bind_result_Inr_iff)
  with Cons counts_ok_one show ?case by blast
qed simp

lemma ticks_one: "replay_one p key te st = Inr st' \<Longrightarrow> bt_ticks (ry_stats st') = bt_ticks (ry_stats st) + 1"
  by (erule replay_one_cases) (simp_all add: count_opportunities_frame count_trade_counts)

lemma ticks_replay: "replay p key ts st = Inr st' \<Longrightarrow> bt_ticks (ry_stats st') = bt_ticks (ry_stats st) + int (length ts)"
proof (induction ts arbitrary: st)
  case (Cons te ts)
  then obtain st1 where "replay_one p key te st = Inr st1" "replay p key ts st1 = Inr st'" by (auto simp: bind_result_Inr_iff)
  with Cons ticks_one show ?case by fastforce
qed simp

text \<open>The statistics of a replay are consistent: every tick is counted, what was evaluated is executable or blocked, there is at most one
  trade per tick and none without an executable opportunity, each trade has one of the four endings, and a win is a trade.\<close>

theorem replay_statistics:
  assumes "replay p key ts st = Inr st'" and "ry_stats st = new_stats" and "s = ry_stats st'"
  shows "bt_ticks s = int (length ts) \<and> bt_evaluated s = bt_executable s + bt_blocked s \<and>
    bt_trades s = bt_filled s + bt_failed s + bt_hedged s + bt_aborted s \<and>
    bt_wins s \<le> bt_trades s \<and> bt_trades s \<le> int (length ts) \<and> bt_trades s \<le> bt_executable s"
proof -
  have "counts_ok (ry_stats st)" by (simp add: assms(2) counts_ok_def new_stats_def)
  from counts_ok_replay [OF assms(1) this] ticks_replay [OF assms(1)] show ?thesis
    by (simp add: assms(2,3) counts_ok_def new_stats_def)
qed
subsection \<open>Old recordings\<close>

definition hub_same :: "market_hub \<Rightarrow> market_hub \<Rightarrow> bool" where
  \<comment> \<open>equal in everything that a later book or an evaluation depends on\<close>
  "hub_same h h' \<longleftrightarrow> hub_books h = hub_books h' \<and> hub_prices h = hub_prices h' \<and>
     (\<forall>v. vq_last_sequence (quality_of (hub_quality h) v) = vq_last_sequence (quality_of (hub_quality h') v) \<and>
          vq_last_ts_ms (quality_of (hub_quality h) v) = vq_last_ts_ms (quality_of (hub_quality h') v))"

lemma hub_same_refl [simp]: "hub_same h h"
  by (simp add: hub_same_def)

lemma hub_same_trans: "hub_same a b \<Longrightarrow> hub_same b c \<Longrightarrow> hub_same a c"
  by (simp add: hub_same_def)

lemma basic_check_same:
  assumes "vq_last_sequence st = vq_last_sequence st'" and "vq_last_ts_ms st = vq_last_ts_ms st'"
  shows "basic_check p b st now = basic_check p b st' now"
  unfolding basic_check_def sequence_check_def assms by (rule refl)

lemma accepted_same: "hub_same h h' \<Longrightarrow> accepted p now b h = accepted p now b h'"
  using basic_check_same [of "quality_of (hub_quality h) (ob_venue b)" "quality_of (hub_quality h') (ob_venue b)" p b now]
  by (simp add: accepted_def fst_validate check_book_accept hub_same_def books_for_def)

lemma validate_last:
  assumes "v = quality_of (snd (validate p qs b peers now)) (ob_venue b)" and "st = quality_of qs (ob_venue b)"
  shows "vq_last_sequence v = (if fst (validate p qs b peers now) = None
      then (case ob_sequence b of Some s \<Rightarrow> Some s | None \<Rightarrow> vq_last_sequence st) else vq_last_sequence st)"
    and "vq_last_ts_ms v = (if fst (validate p qs b peers now) = None then max (vq_last_ts_ms st) (ob_ts_ms b) else vq_last_ts_ms st)"
  unfolding assms by (auto simp: validate_def Let_def split_def check_book_def quality_of_def dget_def update_conv' split: option.splits)

lemma ingest_last:
  "vq_last_sequence (quality_of (hub_quality (fst (ingest p now b h))) v) =
     (if v = ob_venue b \<and> accepted p now b h then (case ob_sequence b of Some s \<Rightarrow> Some s | None \<Rightarrow> vq_last_sequence (quality_of (hub_quality h) v))
      else vq_last_sequence (quality_of (hub_quality h) v))"
  "vq_last_ts_ms (quality_of (hub_quality (fst (ingest p now b h))) v) =
     (if v = ob_venue b \<and> accepted p now b h then max (vq_last_ts_ms (quality_of (hub_quality h) v)) (ob_ts_ms b)
      else vq_last_ts_ms (quality_of (hub_quality h) v))"
  using validate_last [OF refl refl, of p "hub_quality h" b "books_for h (ob_symbol b)" now]
    validate_other [of v b p "hub_quality h" "books_for h (ob_symbol b)" now]
  unfolding ingest_fields(4) accepted_def by (cases "v = ob_venue b"; simp only: simp_thms if_True if_False)+

lemma ingest_same:
  assumes "hub_same h h'"
  shows "hub_same (fst (ingest p now b h)) (fst (ingest p now b h'))"
  using assms accepted_same [OF assms, of p now b] unfolding hub_same_def ingest_fields(1,2) ingest_last by (auto split: option.split)

lemma ingest_all_same: "hub_same h h' \<Longrightarrow> hub_same (ingest_all p bs h) (ingest_all p bs h')"
proof (induction bs arbitrary: h h')
  case (Cons x bs)
  then show ?case using ingest_same by (cases x) simp
qed simp

lemma ingest_stale:
  assumes "qp_max_age_ms p < now - ob_ts_ms b"
  shows "hub_same (fst (ingest p now b h)) h"
proof -
  have "\<not> accepted p now b h"
  proof
    assume "accepted p now b h"
    then have "basic_check p b (quality_of (hub_quality h) (ob_venue b)) now = None"
      by (simp add: accepted_def fst_validate check_book_accept)
    from basic_check_accept(4) [OF this] show False using assms by simp
  qed
  then show ?thesis unfolding hub_same_def ingest_fields(1,2) ingest_last by simp
qed

lemma ingest_all_stale:
  assumes "\<forall>(now, b) \<in> set bs. qp_max_age_ms p < now - ob_ts_ms b"
  shows "hub_same (ingest_all p bs h) h"
  using assms
proof (induction bs arbitrary: h)
  case (Cons x bs)
  obtain now b where x: "x = (now, b)" by (cases x)
  have "hub_same (fst (ingest p now b h)) h" using Cons.prems by (auto simp: x intro: ingest_stale)
  moreover have "hub_same (ingest_all p bs (fst (ingest p now b h))) (fst (ingest p now b h))"
    by (rule Cons.IH) (use Cons.prems in auto)
  ultimately show ?case by (simp add: x) (rule hub_same_trans)
qed simp

definition unrecorded :: "replay_tick \<Rightarrow> replay_tick" where
  "unrecorded te = te\<lparr>te_books := []\<rparr>"

definition state_same :: "replay_state result \<Rightarrow> replay_state result \<Rightarrow> bool" where
  "state_same r r' \<longleftrightarrow> (case (r, r') of
     (Inl e, Inl e') \<Rightarrow> e = e'
   | (Inr st, Inr st') \<Rightarrow> hub_same (ry_hub st) (ry_hub st') \<and> ry_cx st = ry_cx st' \<and> ry_opps st = ry_opps st' \<and> ry_stats st = ry_stats st'
   | _ \<Rightarrow> False)"

lemma hub_view_same: "hub_same h h' \<Longrightarrow> hub_view h mv = hub_view h' mv"
  by (simp add: hub_view_def hub_same_def get_book_def [abs_def])

lemma external_same: "hub_same h h' \<Longrightarrow> hub_same (set_external f h) (set_external f h')"
  by (simp add: hub_same_def set_external_def)

lemma replay_one_same:
  assumes "\<forall>(now, b) \<in> set (te_books te). qp_max_age_ms p < now - ob_ts_ms b" and "state_same (Inr st) (Inr st')"
  shows "state_same (replay_one p key te st) (replay_one p key (unrecorded te) st')"
proof -
  have st: "hub_same (ry_hub st) (ry_hub st')" "ry_cx st' = ry_cx st" "ry_opps st' = ry_opps st" "ry_stats st' = ry_stats st"
    using assms(2) by (simp_all add: state_same_def)
  define h where "h = ingest_all p (te_books te) (set_external (te_external te) (ry_hub st))"
  define h' where "h' = set_external (te_external te) (ry_hub st')"
  have hh: "hub_same h h'"
    unfolding h_def h'_def by (rule hub_same_trans [OF ingest_all_stale [OF assms(1)] external_same [OF st(1)]])
  have pr: "hub_prices h' = hub_prices h" using hh by (simp add: hub_same_def)
  have v: "(\<lambda>c. hub_view h' (te_view te c)) = (\<lambda>c. hub_view h (te_view te c))" by (simp add: hub_view_same [OF hh])
  have f: "hub_same (ingest_all p (te_fetched te) h) (ingest_all p (te_fetched te) h')" by (rule ingest_all_same [OF hh])
  define price where "price = (\<lambda>a. price_get (hub_prices h) a PRICE_MAX_AGE_MS (te_start_ms te))"
  define cx where "cx = (ry_cx st)\<lparr>cx_inventory := (case cx_ledger (ry_cx st) of None \<Rightarrow> cx_inventory (ry_cx st)
     | Some l \<Rightarrow> refresh_paper_balances price l (cx_inventory (ry_cx st)))\<rparr>"
  define sc where "sc = scan (\<lambda>c. hub_view h (te_view te c)) cx (ry_opps st) (te_pairs te) (te_start_ms te) (te_end_ms te)"
  define go where "go h1 = (\<lambda>(cx1, oe, os). let s = foldl (count_opportunity key) ((ry_stats st)\<lparr>bt_ticks := bt_ticks (ry_stats st) + 1,
                     bt_evaluated := bt_evaluated (ry_stats st) + int (length os)\<rparr>) os
           in case replay_pick os of
                None \<Rightarrow> Inr \<lparr>ry_hub = h1, ry_cx = cx1, ry_opps = oe, ry_stats = s\<rparr>
              | Some o1 \<Rightarrow> bind_result (execute (te_exec te o1) cx1 o1) (\<lambda>(cx2, tr).
                  Inr \<lparr>ry_hub = h1, ry_cx = cx2, ry_opps = oe, ry_stats = count_trade tr s\<rparr>))" for h1
  have a: "replay_one p key te st = bind_result sc (go (ingest_all p (te_fetched te) h))"
    unfolding replay_one_def Let_def sc_def cx_def price_def go_def h_def by (rule refl)
  have "unrecorded te = te\<lparr>te_books := []\<rparr>" by (rule unrecorded_def)
  then have b: "replay_one p key (unrecorded te) st' = bind_result sc (go (ingest_all p (te_fetched te) h'))"
    unfolding replay_one_def Let_def sc_def cx_def price_def go_def v [symmetric] pr [symmetric] by (simp add: h'_def st(2-4) cong: option.case_cong)
  have "state_same (go h1 x) (go h2 x)" if "hub_same h1 h2" for h1 h2 x
    by (cases x) (auto simp: go_def Let_def bind_result_def state_same_def that split: option.split sum.split)
  with f show ?thesis unfolding a b by (cases sc) (auto simp: bind_result_def state_same_def)
qed

lemma replay_same:
  assumes "\<forall>te \<in> set ts. \<forall>(now, b) \<in> set (te_books te). qp_max_age_ms p < now - ob_ts_ms b" and "state_same (Inr st) (Inr st')"
  shows "state_same (replay p key ts st) (replay p key (map unrecorded ts) st')"
  using assms
proof (induction ts arbitrary: st st')
  case (Cons te ts)
  have one: "state_same (replay_one p key te st) (replay_one p key (unrecorded te) st')"
    by (rule replay_one_same) (use Cons.prems in auto)
  show ?case
  proof (cases "replay_one p key te st")
    case (Inl e)
    then show ?thesis using one by (auto simp: state_same_def bind_result_def split: sum.splits)
  next
    case (Inr st1)
    then obtain st2 where st2: "replay_one p key (unrecorded te) st' = Inr st2" using one by (auto simp: state_same_def split: sum.splits)
    have "state_same (Inr st1) (Inr st2)" using one by (simp add: Inr st2)
    with Cons have "state_same (replay p key ts st1) (replay p key (map unrecorded ts) st2)" by simp
    then show ?thesis by (simp add: Inr st2)
  qed
qed simp

text \<open>C39. A recording is not replayed: the books keep the time at which they were recorded and pass the same gate as live ones, so when
  each of them is older than the gate allows (a minute) the replay of the recording is the replay of no recording at all. The
  same trades, statistics and accounts come out with every recorded book left away, and what was traded are
  the books the evaluation fetched from the generated market.\<close>

theorem old_recording_ignored:
  assumes "\<forall>te \<in> set ts. \<forall>(now, b) \<in> set (te_books te). qp_max_age_ms p < now - ob_ts_ms b"
    and "replay p key ts st = Inr st1"
  shows "\<exists>st2. replay p key (map unrecorded ts) st = Inr st2 \<and> hub_books (ry_hub st2) = hub_books (ry_hub st1) \<and>
    ry_cx st2 = ry_cx st1 \<and> ry_opps st2 = ry_opps st1 \<and> ry_stats st2 = ry_stats st1"
proof -
  have "state_same (Inr st) (Inr st)" by (simp add: state_same_def)
  from replay_same [OF assms(1) this, of key] show ?thesis
    unfolding assms(2) by (auto simp: state_same_def hub_same_def split: sum.splits)
qed
subsection \<open>Recording and loading\<close>

lemma raw_levels_recorded:
  assumes "\<forall>l \<in> set ls. 0 < lv_amount l \<and> to_decimal (PyStr (text (lv_price l))) None = Inr (lv_price l) \<and>
      to_decimal (PyStr (text (lv_amount l))) None = Inr (lv_amount l)"
  shows "raw_levels (recorded_levels text ls) = Inr (take 25 ls)"
proof -
  have "raw_levels (map (\<lambda>l. (PyStr (text (lv_price l)), PyStr (text (lv_amount l)))) ks) = Inr ks" if "set ks \<subseteq> set ls" for ks
    using that
  proof (induction ks)
    case (Cons k ks)
    then show ?case using assms by simp
  qed simp
  then show ?thesis unfolding recorded_levels_def by (meson set_take_subset)
qed

lemma take_sorted: "sorted xs \<Longrightarrow> sorted (take n xs)"
  by (simp add: sorted_wrt_take)

text \<open>What is recorded is what is loaded: a book with sorted sides and positive amounts comes back from its line with its best
  twenty-five levels on each side, its venue, symbol and time; only the source and the sequence number are lost.\<close>

theorem recording_round_trip:
  assumes "sorted (map (\<lambda>l. - lv_price l) (ob_bids b))" and "sorted (map lv_price (ob_asks b))" and "ob_ts_ms b \<noteq> 0"
    and "\<forall>l \<in> set (ob_bids b @ ob_asks b). 0 < lv_amount l \<and> to_decimal (PyStr (text (lv_price l))) None = Inr (lv_price l) \<and>
      to_decimal (PyStr (text (lv_amount l))) None = Inr (lv_amount l)"
  shows "load_book now (record_book text b) = Inr (b\<lparr>ob_bids := take 25 (ob_bids b), ob_asks := take 25 (ob_asks b),
    ob_received_ms := now, ob_sequence := None, ob_source := ''replay''\<rparr>)"
proof -
  have s: "sort_bids (take 25 (ob_bids b)) = take 25 (ob_bids b)" "sort_asks (take 25 (ob_asks b)) = take 25 (ob_asks b)"
    using take_sorted [OF assms(1), of 25] take_sorted [OF assms(2), of 25]
    by (simp_all add: sort_bids_def sort_asks_def sort_key_id_if_sorted take_map)
  have "raw_levels (recorded_levels text (ob_bids b)) = Inr (take 25 (ob_bids b))"
      "raw_levels (recorded_levels text (ob_asks b)) = Inr (take 25 (ob_asks b))"
    by (rule raw_levels_recorded, use assms(4) in auto)+
  then show ?thesis using assms(3) s by (cases b) (simp add: load_book_def record_book_def from_raw_def)
qed

subsection \<open>The book of a perpetual\<close>

lemma quantize_mono:
  assumes "quantize x k = Inr a" and "quantize y k = Inr b" and "x \<le> y"
  shows "a \<le> b"
proof -
  have "round_half_even (x * 10 ^ k) \<le> round_half_even (y * 10 ^ k)"
    by (rule round_half_even_mono) (use assms(3) in simp)
  then show ?thesis using assms(1,2) by (auto simp: quantize_def Let_def divide_right_mono split: if_splits)
qed

lemma sim_perp_levels_Cons:
  "sim_perp_levels (l # ls) = Inr ks \<longleftrightarrow> (\<exists>p rest. quantize (dmul (lv_price l) PREMIUM) 6 = Inr p \<and> sim_perp_levels ls = Inr rest \<and> ks = l\<lparr>lv_price := p\<rparr> # rest)"
  by (auto simp: sim_perp_levels_def bind_result_Inr_iff)

lemma sim_perp_levels_mem: "sim_perp_levels ls = Inr ks \<Longrightarrow> k \<in> set ks \<Longrightarrow> \<exists>l \<in> set ls. quantize (dmul (lv_price l) PREMIUM) 6 = Inr (lv_price k)"
proof (induction ls arbitrary: ks)
  case (Cons l ls)
  then show ?case by (auto simp: sim_perp_levels_Cons)
qed (simp add: sim_perp_levels_def)

lemma premium_mono: "quantize (dmul x PREMIUM) 6 = Inr a \<Longrightarrow> quantize (dmul y PREMIUM) 6 = Inr b \<Longrightarrow> x \<le> y \<Longrightarrow> a \<le> b"
  by (erule (1) quantize_mono) (simp add: dmul_mono PREMIUM_def)

lemma sim_perp_levels_sorted:
  assumes "sim_perp_levels ls = Inr ks"
  shows "map lv_amount ks = map lv_amount ls \<and> (sorted (map lv_price ls) \<longrightarrow> sorted (map lv_price ks)) \<and>
    (sorted (map (\<lambda>l. - lv_price l) ls) \<longrightarrow> sorted (map (\<lambda>l. - lv_price l) ks))"
  using assms
proof (induction ls arbitrary: ks)
  case (Cons l ls)
  then obtain p rest where p: "quantize (dmul (lv_price l) PREMIUM) 6 = Inr p" "sim_perp_levels ls = Inr rest" "ks = l\<lparr>lv_price := p\<rparr> # rest"
    by (auto simp: sim_perp_levels_Cons)
  note IH = Cons.IH [OF p(2)]
  have up: "p \<le> lv_price k" if k: "k \<in> set rest" and s: "\<forall>x \<in> set ls. lv_price l \<le> lv_price x" for k
    using sim_perp_levels_mem [OF p(2) k] s premium_mono [OF p(1)] by blast
  have down: "lv_price k \<le> p" if k: "k \<in> set rest" and s: "\<forall>x \<in> set ls. lv_price x \<le> lv_price l" for k
    using sim_perp_levels_mem [OF p(2) k] s premium_mono [OF _ p(1)] by blast
  show ?case using IH up down by (auto simp: p(3))
qed (simp add: sim_perp_levels_def)

text \<open>The book of a simulated perpetual is a book: multiplying with the premium and rounding keeps the number of levels, the amounts
  and the order of the prices on both sides.\<close>

theorem perp_book_sorted:
  assumes "sim_perp_book v symbol ob = Inr pb" and "sorted (map (\<lambda>l. - lv_price l) (ob_bids ob))" and "sorted (map lv_price (ob_asks ob))"
  shows "sorted (map (\<lambda>l. - lv_price l) (ob_bids pb)) \<and> sorted (map lv_price (ob_asks pb)) \<and>
    map lv_amount (ob_bids pb) = map lv_amount (ob_bids ob) \<and> map lv_amount (ob_asks pb) = map lv_amount (ob_asks ob)"
proof -
  obtain b a where "sim_perp_levels (ob_bids ob) = Inr b" "sim_perp_levels (ob_asks ob) = Inr a"
      "pb = ob\<lparr>ob_venue := v, ob_symbol := symbol, ob_bids := b, ob_asks := a\<rparr>"
    using assms(1) by (auto simp: sim_perp_book_def bind_result_Inr_iff)
  with sim_perp_levels_sorted assms(2,3) show ?thesis by simp
qed

subsection \<open>Witnesses\<close>

lemma no_venues_no_candidates: "cx_connectors cx = [] \<Longrightarrow> candidates cx ps = Inr []"
proof -
  assume c: "cx_connectors cx = []"
  have none: "candidate_pairs si [] pair = Inr []" for si pair
    by (simp add: candidate_pairs_def sell_venues_def buy_venues_def)
  have all: "\<forall>r \<in> set rs. r = Inr [] \<Longrightarrow> concat_results rs = Inr []" for rs :: "route_candidate list result list"
    by (induction rs) auto
  show ?thesis unfolding candidates_def Let_def by (rule all) (auto simp: c vals_def none)
qed

definition idle_ctx :: engine_ctx where
  "idle_ctx = demo_ctx\<lparr>cx_connectors := [], cx_emergency_stop := True, cx_ledger := None\<rparr>"

definition demo_tick :: replay_tick where
  \<comment> \<open>a book recorded long ago\<close>
  "demo_tick = \<lparr>te_external = (\<lambda>_. None), te_books = [(900000, demo_book)], te_fetched = [], te_view = (\<lambda>_. wit_view),
     te_pairs = [''BTC/USDC''], te_start_ms = 900, te_end_ms = 901, te_exec = (\<lambda>_. demo_env)\<rparr>"

definition demo_replay :: replay_state where
  "demo_replay = \<lparr>ry_hub = new_hub, ry_cx = idle_ctx,
     ry_opps = \<lparr>oe_latest = [(''k'', demo_opportunity 1)], oe_scan_count = 0, oe_last_scan_ms = 0, oe_last_scan_duration_ms = 0\<rparr>,
     ry_stats = new_stats\<rparr>"

lemma demo_ranked: "ranked e 901 = [demo_opportunity 1]" if "oe_latest e = [(''k'', demo_opportunity 1)]"
  using that by (simp add: ranked_def vals_def demo_opportunity_def)

lemma demo_replay_runs: obtains st where "replay default_policy (\<lambda>_. []) [demo_tick] demo_replay = Inr st" "bt_trades (ry_stats st) = 1"
proof -
  have e: "execute demo_env cx (demo_opportunity 1) = Inr (abort_trade demo_env (Msg ''EMERGENCY STOP is active'' []) cx (start_trade demo_env cx (demo_opportunity 1)))"
    if "cx_emergency_stop cx" for cx
    using that by (simp add: execute_def precheck_def Let_def)
  have pick: "replay_pick [demo_opportunity 1] = Some (demo_opportunity 1)"
    by (simp add: replay_pick_def demo_opportunity_def)
  have c: "candidates idle_ctx ps = Inr []" for ps by (rule no_venues_no_candidates) (simp add: idle_ctx_def)
  have a: "annotate [] = []" by (simp add: annotate_def)
  have cx: "idle_ctx\<lparr>cx_inventory := (case cx_ledger idle_ctx of None \<Rightarrow> cx_inventory idle_ctx | Some l \<Rightarrow> f l)\<rparr> = idle_ctx" for f
    by (simp add: idle_ctx_def)
  have sc: "\<exists>cx1 e1. scan V idle_ctx (ry_opps demo_replay) ps 900 901 = Inr (cx1, e1, [demo_opportunity 1]) \<and> cx_emergency_stop cx1" for V ps
    by (simp add: scan_def c a demo_replay_def Let_def demo_ranked) (simp add: idle_ctx_def)
  define te where "te = demo_tick"
  define h where "h = ingest_all default_policy (te_books te) (set_external (te_external te) new_hub)"
  obtain cx1 e1 where s1: "scan (\<lambda>c. hub_view h (te_view te c)) idle_ctx (ry_opps demo_replay) (te_pairs te) 900 901 = Inr (cx1, e1, [demo_opportunity 1])"
      "cx_emergency_stop cx1"
    using sc by blast
  have f: "te_start_ms te = 900" "te_end_ms te = 901" "te_exec te = (\<lambda>_. demo_env)" by (simp_all add: te_def demo_tick_def)
  have d: "ry_cx demo_replay = idle_ctx" "ry_hub demo_replay = new_hub" by (simp_all add: demo_replay_def)
  have z: "bt_trades (foldl (count_opportunity (\<lambda>_. [])) (ry_stats demo_replay\<lparr>bt_ticks := t, bt_evaluated := n\<rparr>) os) = 0" for t n os
    unfolding count_opportunities_frame by (simp add: demo_replay_def new_stats_def)
  have "\<exists>st. replay_one default_policy (\<lambda>_. []) te demo_replay = Inr st \<and> (\<exists>tr s. ry_stats st = count_trade tr s \<and> bt_trades s = 0)"
    unfolding replay_one_def Let_def d f cx
    by (simp add: h_def [symmetric] s1 pick e abort_trade_def Let_def count_opportunities_frame del: foldl_Cons) (use z in blast)
  then obtain st where "replay_one default_policy (\<lambda>_. []) demo_tick demo_replay = Inr st" "bt_trades (ry_stats st) = 1"
    by (auto simp: te_def count_trade_counts)
  with that show thesis by simp
qed

theorem replay_statistics_witness:
  "\<exists>st. replay default_policy (\<lambda>_. []) [demo_tick] demo_replay = Inr st \<and> bt_trades (ry_stats st) = 1 \<and>
     bt_ticks (ry_stats st) = 1 \<and> bt_evaluated (ry_stats st) = bt_executable (ry_stats st) + bt_blocked (ry_stats st)"
proof -
  obtain st where st: "replay default_policy (\<lambda>_. []) [demo_tick] demo_replay = Inr st" "bt_trades (ry_stats st) = 1" by (rule demo_replay_runs)
  have "ry_stats demo_replay = new_stats" by (simp add: demo_replay_def)
  from replay_statistics [OF st(1) this refl] st show ?thesis by simp
qed

theorem old_recording_ignored_witness:
  "\<exists>st1 st2. replay default_policy (\<lambda>_. []) [demo_tick] demo_replay = Inr st1 \<and>
     replay default_policy (\<lambda>_. []) [unrecorded demo_tick] demo_replay = Inr st2 \<and> ry_stats st2 = ry_stats st1"
proof -
  obtain st where st: "replay default_policy (\<lambda>_. []) [demo_tick] demo_replay = Inr st" "bt_trades (ry_stats st) = 1" by (rule demo_replay_runs)
  have "\<forall>te \<in> set [demo_tick]. \<forall>(now, b) \<in> set (te_books te). qp_max_age_ms default_policy < now - ob_ts_ms b"
    by (simp add: demo_tick_def default_policy_def demo_book_def)
  from old_recording_ignored [OF this st(1)] st(1) show ?thesis by auto
qed

theorem recording_round_trip_witness:
  "load_book 5 (record_book (\<lambda>d. if d = 1 then ''1'' else if d = 3 then ''3'' else if d = 98 then ''98'' else if d = 99 then ''99''
      else if d = 100 then ''100'' else ''102'') demo_book) = Inr (demo_book\<lparr>ob_received_ms := 5, ob_source := ''replay''\<rparr>)"
proof -
  let ?t = "\<lambda>d :: decimal. if d = 1 then ''1'' else if d = 3 then ''3'' else if d = 98 then ''98'' else if d = 99 then ''99''
      else if d = 100 then ''100'' else ''102''"
  have p: "to_decimal (PyStr ''1'') None = Inr 1" "to_decimal (PyStr ''3'') None = Inr 3" "to_decimal (PyStr ''98'') None = Inr 98"
      "to_decimal (PyStr ''99'') None = Inr 99" "to_decimal (PyStr ''100'') None = Inr 100" "to_decimal (PyStr ''102'') None = Inr 102"
    by code_simp+
  have "\<forall>l \<in> set (ob_bids demo_book @ ob_asks demo_book). 0 < lv_amount l \<and> to_decimal (PyStr (?t (lv_price l))) None = Inr (lv_price l) \<and>
      to_decimal (PyStr (?t (lv_amount l))) None = Inr (lv_amount l)"
    by (simp add: demo_book_def p)
  from recording_round_trip [OF _ _ _ this, of 5] show ?thesis by (simp add: demo_book_def)
qed

end
