(* ===== verification/Service.thy ===== *)
theory Service
  imports Controls Readiness Transfers Supervision Execution
begin

text \<open>
  Model of the rest of the composition root (\<^verbatim>\<open>backend/fedr/app.py\<close>) and of the shadow recorder
  (\<^verbatim>\<open>backend/fedr/engine/shadow.py\<close>): the refresh of the balances in live mode with what it tells the deposit monitor
  and the reconciler, the requests that change exchange accounts, the bus of events for the user interface, the capital
  shown to the user, and what shadow mode records. Answers of venues, the clock and new identifiers are arguments.
\<close>

subsection \<open>Balances in live mode\<close>

record balance_state =
  bs_inventory :: inventory
  bs_expected :: "(string \<times> string, decimal) dict"
  bs_deposits :: deposit_monitor
  bs_seen :: "string list"
  bs_events :: "deposit_event list"

record balance_env =
  \<comment> \<open>the answer of every venue: a \<open>ConnectorError\<close> or its balances\<close>
  be_balances :: "string \<Rightarrow> message + (string, balance) dict"
  be_price :: "string \<Rightarrow> decimal option"
  be_digest :: digest
  be_now_ms :: int

definition observed :: "balance_env \<Rightarrow> string \<Rightarrow> (string, balance) dict \<Rightarrow> observation" where
  "observed env lv bs = \<lparr>ob_chain = lv, ob_address = [], ob_now_ms = be_now_ms env, ob_expected = [],
     ob_balances = map (\<lambda>(a, b). (a, bal_total b)) bs\<rparr>"

definition expect_all :: "string \<Rightarrow> (string, balance) dict \<Rightarrow> (string \<times> string, decimal) dict \<Rightarrow> (string \<times> string, decimal) dict" where
  "expect_all lv bs ex = foldl (\<lambda>ex (a, b). AList.update (lv, a) (bal_total b) ex) ex bs"

definition refresh_venue :: "balance_env \<Rightarrow> balance_state \<Rightarrow> venue_ref \<Rightarrow> balance_state" where
  \<comment> \<open>venues of one chain share a wallet: only the first of them is asked\<close>
  "refresh_venue env st c =
     (let lv = ledger_venue_for c; dex = (vr_kind c = DEX) in
      if \<not> vr_connected c \<or> dex \<and> lv \<in> set (bs_seen st) then st
      else case be_balances env (vr_name c) of
        Inl _ \<Rightarrow> st
      | Inr bs \<Rightarrow>
          let (dm, evs) = (if dex then observe (be_digest env) (observed env lv bs) (bs_deposits st) else (bs_deposits st, [])) in
          st\<lparr>bs_seen := (if dex then bs_seen st @ [lv] else bs_seen st), bs_deposits := dm, bs_events := bs_events st @ evs,
             bs_inventory := update_balances (be_price env) (bs_inventory st) lv bs (if dex then ''chain'' else ''cex''),
             bs_expected := expect_all lv bs (bs_expected st)\<rparr>)"

definition refresh_live :: "balance_env \<Rightarrow> venue_ref list \<Rightarrow> balance_state \<Rightarrow> balance_state" where
  "refresh_live env cs st = foldl (refresh_venue env) (st\<lparr>bs_seen := []\<rparr>) cs"

subsection \<open>What a refresh does to reconciliation\<close>

lemma expect_all_other: "lv' \<noteq> lv \<Longrightarrow> map_of (expect_all lv bs ex) (lv', a) = map_of ex (lv', a)"
proof (induction bs arbitrary: ex)
  case (Cons x bs)
  obtain a' b where x: "x = (a', b)" by (cases x)
  have "expect_all lv (x # bs) ex = expect_all lv bs (AList.update (lv, a') (bal_total b) ex)" by (simp add: expect_all_def x)
  with Cons show ?case by (simp add: update_conv')
qed (simp add: expect_all_def)

lemma expect_all_same:
  "distinct (map fst bs) \<Longrightarrow> (a, b) \<in> set bs \<Longrightarrow> map_of (expect_all lv bs ex) (lv, a) = Some (bal_total b)"
proof (induction bs arbitrary: ex)
  case (Cons x bs)
  obtain a' b' where x: "x = (a', b')" by (cases x)
  have e: "expect_all lv (x # bs) ex = expect_all lv bs (AList.update (lv, a') (bal_total b') ex)" by (simp add: expect_all_def x)
  show ?case
  proof (cases "(a, b) \<in> set bs")
    case True
    then show ?thesis using Cons e by simp
  next
    case False
    then have ab: "a = a'" "b = b'" using Cons.prems(2) x by auto
    have "map_of (expect_all lv bs ex') (lv, a') = map_of ex' (lv, a')" for ex'
    proof -
      have "a' \<notin> set (map fst bs)" using Cons.prems(1) x by simp
      then show ?thesis
      proof (induction bs arbitrary: ex')
        case (Cons y bs)
        then show ?case by (cases y) (simp add: expect_all_def update_conv')
      qed (simp add: expect_all_def)
    qed
    then show ?thesis by (simp add: e ab update_conv')
  qed
qed simp

definition known_balances :: "balance_env \<Rightarrow> venue_ref \<Rightarrow> (string \<times> string, decimal) dict \<Rightarrow> bool" where
  "known_balances env c ex \<longleftrightarrow> (\<forall>bs. be_balances env (vr_name c) = Inr bs \<longrightarrow>
     (\<forall>(a, b) \<in> set bs. map_of ex (ledger_venue_for c, a) = Some (bal_total b)))"

lemma refresh_venue_known:
  assumes "vr_connected c" and "ledger_venue_for c \<notin> set (bs_seen st)"
    and "\<forall>bs. be_balances env (vr_name c) = Inr bs \<longrightarrow> distinct (map fst bs)"
  shows "known_balances env c (bs_expected (refresh_venue env st c))"
proof (cases "be_balances env (vr_name c)")
  case (Inr bs)
  then have "bs_expected (refresh_venue env st c) = expect_all (ledger_venue_for c) bs (bs_expected st)"
    using assms(1,2) by (simp add: refresh_venue_def Let_def split: prod.split)
  then show ?thesis using Inr assms(3) expect_all_same by (fastforce simp: known_balances_def)
qed (simp add: known_balances_def)

lemma refresh_venue_keeps:
  assumes "known_balances env c ex" and "ex = bs_expected st" and "ledger_venue_for d \<noteq> ledger_venue_for c"
  shows "known_balances env c (bs_expected (refresh_venue env st d))"
proof -
  have "map_of (bs_expected (refresh_venue env st d)) (ledger_venue_for c, a) = map_of ex (ledger_venue_for c, a)" for a
    using assms(2,3) by (auto simp: refresh_venue_def Let_def expect_all_other split: sum.split prod.split)
  then show ?thesis using assms(1) by (simp add: known_balances_def)
qed

lemma refresh_venue_seen: "set (bs_seen (refresh_venue env st c)) \<subseteq> insert (ledger_venue_for c) (set (bs_seen st))"
  by (auto simp: refresh_venue_def Let_def split: sum.split prod.split)

lemma refresh_venues_known:
  assumes "distinct (map ledger_venue_for cs)" and "\<forall>c \<in> set cs. vr_connected c"
    and "\<forall>c \<in> set cs. \<forall>bs. be_balances env (vr_name c) = Inr bs \<longrightarrow> distinct (map fst bs)"
    and "set (bs_seen st) \<inter> ledger_venue_for ` set cs = {}"
  shows "\<forall>c \<in> set cs. known_balances env c (bs_expected (foldl (refresh_venue env) st cs))"
  using assms
proof (induction cs rule: rev_induct)
  case (snoc d cs)
  have seen: "set (bs_seen (foldl (refresh_venue env) st cs)) \<subseteq> set (bs_seen st) \<union> ledger_venue_for ` set cs"
  proof (induction cs rule: rev_induct)
    case (snoc x xs)
    then show ?case using refresh_venue_seen [of env "foldl (refresh_venue env) st xs" x] by auto
  qed simp
  have "ledger_venue_for d \<notin> set (bs_seen (foldl (refresh_venue env) st cs))" using seen snoc.prems by auto
  then have "known_balances env d (bs_expected (foldl (refresh_venue env) st (cs @ [d])))"
    using refresh_venue_known snoc.prems by simp
  moreover have "known_balances env c (bs_expected (foldl (refresh_venue env) st (cs @ [d])))" if c: "c \<in> set cs" for c
  proof -
    have "known_balances env c (bs_expected (foldl (refresh_venue env) st cs))" using snoc c by simp
    moreover have "ledger_venue_for d \<noteq> ledger_venue_for c" using snoc.prems(1) c by auto
    ultimately show ?thesis using refresh_venue_keeps [OF _ refl] by simp
  qed
  ultimately show ?case by auto
qed simp
lemma balance_off_same [simp]: "\<not> balance_off px t t"
  by (simp add: balance_off_def dsub_def dabs_def BALANCE_TOLERANCE_ABS_USD_def)

lemma recon_assets_known:
  assumes "\<forall>(a, b) \<in> set bs. map_of ex (lv, a) = Some (bal_total b)"
  shows "\<exists>ex'. fold (recon_asset va n lv) bs (ex, rep) = (ex', rep) \<and> map_of ex' = map_of ex"
  using assms
proof (induction bs arbitrary: ex)
  case (Cons x bs)
  obtain a b where x: "x = (a, b)" by (cases x)
  have k: "map_of ex (lv, a) = Some (bal_total b)" using Cons.prems by (simp add: x)
  let ?ex = "AList.update (lv, a) (bal_total b) ex"
  have m: "map_of ?ex = map_of ex" using k by (auto simp: update_conv' fun_eq_iff)
  obtain ex' where "fold (recon_asset va n lv) bs (?ex, rep) = (ex', rep)" "map_of ex' = map_of ?ex"
    using Cons.IH [of ?ex] Cons.prems m by auto
  then show ?case using k m by (simp add: x recon_asset_def)
qed simp

lemma recon_venue_known:
  assumes "va_balances va (vr_name c) = be_balances env (vr_name c)" and "known_balances env c ex"
    and "be_balances env (vr_name c) = Inr bs" and "vr_kind c \<in> {CEX, PERP} \<longrightarrow> va_orders va (vr_name c) = Inr []"
  shows "\<exists>ex' rep'. recon_venue va idle c (ex, rep) = (ex', rep') \<and> map_of ex' = map_of ex \<and> rr_discrepancies rep' = rr_discrepancies rep"
proof (cases "vr_connected c")
  case True
  have "\<forall>(a, b) \<in> set bs. map_of ex (ledger_venue_for c, a) = Some (bal_total b)" using assms(2,3) by (simp add: known_balances_def)
  from recon_assets_known [OF this, of va "vr_name c" "rep\<lparr>rr_checked := rr_checked rep @ [vr_name c]\<rparr>"]
  show ?thesis using True assms by (auto simp: recon_venue_def recon_orders_def)
qed (simp add: recon_venue_def)

lemma recon_venues_known:
  assumes "\<forall>c \<in> set cs. va_balances va (vr_name c) = be_balances env (vr_name c) \<and> known_balances env c ex \<and>
      (\<exists>bs. be_balances env (vr_name c) = Inr bs) \<and> (vr_kind c \<in> {CEX, PERP} \<longrightarrow> va_orders va (vr_name c) = Inr [])"
  shows "\<exists>ex' rep'. fold (recon_venue va idle) cs (ex, rep) = (ex', rep') \<and> map_of ex' = map_of ex \<and> rr_discrepancies rep' = rr_discrepancies rep"
  using assms
proof (induction cs arbitrary: ex rep)
  case (Cons c cs)
  then obtain bs where "be_balances env (vr_name c) = Inr bs" by auto
  then obtain ex1 rep1 where s: "recon_venue va idle c (ex, rep) = (ex1, rep1)" "map_of ex1 = map_of ex" "rr_discrepancies rep1 = rr_discrepancies rep"
    using recon_venue_known [of va c env ex bs idle rep] Cons.prems by auto
  have "\<forall>c \<in> set cs. known_balances env c ex1" using Cons.prems s(2) by (simp add: known_balances_def)
  with Cons.IH [of ex1 rep1] Cons.prems s show ?case by auto
qed simp

text \<open>C16. The refresh of the balances blinds reconciliation: it overwrites what every account is expected to hold by what the venue reports,
  without comparing. Whatever was expected before and however much of it is gone, the next reconciliation of the same balances
  finds nothing, trips nothing and trading goes on; and the refresh comes every twenty seconds, reconciliation every
  thirty.\<close>

theorem refresh_adopts_losses:
  assumes "\<not> is_simulated_execution cx" and "cs = vals (cx_connectors cx)" and "\<forall>c \<in> set cs. vr_connected c"
    and "distinct (map ledger_venue_for cs)"
    and "\<forall>c \<in> set cs. \<exists>bs. be_balances env (vr_name c) = Inr bs \<and> distinct (map fst bs) \<and> va_balances va (vr_name c) = Inr bs"
    and "\<forall>c \<in> set cs. vr_kind c \<in> {CEX, PERP} \<longrightarrow> va_orders va (vr_name c) = Inr []" and "va_recent va = []"
    and "run_once va (cx, r\<lparr>rec_expected := bs_expected (refresh_live env cs st)\<rparr>) = (cx', r', rep)"
  shows "rr_ok rep \<and> rr_discrepancies rep = [] \<and> cx' = cx"
proof -
  let ?ex = "bs_expected (refresh_live env cs st)"
  have "\<forall>c \<in> set cs. \<forall>bs. be_balances env (vr_name c) = Inr bs \<longrightarrow> distinct (map fst bs)"
    using assms(5) by fastforce
  from refresh_venues_known [OF assms(4,3) this, of "st\<lparr>bs_seen := []\<rparr>"]
  have known: "\<forall>c \<in> set cs. known_balances env c ?ex" by (simp add: refresh_live_def)
  have "\<forall>c \<in> set cs. va_balances va (vr_name c) = be_balances env (vr_name c) \<and> known_balances env c ?ex \<and>
      (\<exists>bs. be_balances env (vr_name c) = Inr bs) \<and> (vr_kind c \<in> {CEX, PERP} \<longrightarrow> va_orders va (vr_name c) = Inr [])"
    using known assms(5,6) by fastforce
  from recon_venues_known [OF this, of "cx_open_trade_ids cx = []" "new_report (va_now_ms va)"]
  obtain ex' rep' where f: "fold (recon_venue va (cx_open_trade_ids cx = [])) cs (?ex, new_report (va_now_ms va)) = (ex', rep')"
      "rr_discrepancies rep' = []"
    by (auto simp: new_report_def)
  have "recon_trades (va_recent va) rep' = rep'" by (simp add: recon_trades_def assms(7) List.map_filter_def)
  then have "reconcile_real va cx (?ex, new_report (va_now_ms va)) = (ex', rep')"
    using f(1) by (simp add: reconcile_real_def assms(2))
  then show ?thesis using assms(1,8) f(2) by (auto simp: run_once_def Let_def)
qed

subsection \<open>Exchange accounts\<close>

definition update_account :: "string \<Rightarrow> (exchange_account \<Rightarrow> exchange_account) \<Rightarrow> exchange_account list \<Rightarrow> exchange_account list" where
  "update_account i f accts = map (\<lambda>a. if ea_id a = i then f a else a) accts"
definition test_exchange_account :: "(message + bool option) \<Rightarrow> string \<Rightarrow> exchange_account list \<Rightarrow> exchange_account list \<times> (message + bool)" where
  \<comment> \<open>the answer of the test of the stored credentials: the withdrawal permission, or the error\<close>
  "test_exchange_account ans i accts =
     (if list_all (\<lambda>a. ea_id a \<noteq> i) accts then (accts, Inl (Msg ''unknown account'' []))
      else case ans of
        Inl e \<Rightarrow> (update_account i (\<lambda>a. a\<lparr>ea_status := ''supported'', ea_last_error := Some e, ea_withdraw := None\<rparr>) accts, Inr False)
      | Inr w \<Rightarrow> (update_account i (\<lambda>a. a\<lparr>ea_status := ''connected'', ea_last_error := None, ea_withdraw := w\<rparr>) accts, Inr True))"

definition remove_exchange_account :: "string \<Rightarrow> exchange_account list \<Rightarrow> exchange_account list" where
  "remove_exchange_account i accts = filter (\<lambda>a. ea_id a \<noteq> i) accts"

definition set_exchange_enabled :: "string \<Rightarrow> bool \<Rightarrow> exchange_account list \<Rightarrow> exchange_account list" where
  "set_exchange_enabled i on accts = update_account i (\<lambda>a. a\<lparr>ea_enabled := on\<rparr>) accts"

datatype account_request =
    Add_Account account_answer string string credentials string "bool option"
  | Test_Account "message + bool option" string
  | Remove_Account string
  | Enable_Account string bool

definition account_step :: "exchange_registry \<Rightarrow> exchange_account list \<Rightarrow> account_request \<Rightarrow> exchange_account list" where
  "account_step reg accts rq =
     (case rq of
        Add_Account ans exchange label creds mode sandbox \<Rightarrow> fst (add_exchange_account reg ans exchange label creds mode sandbox accts)
      | Test_Account ans i \<Rightarrow> fst (test_exchange_account ans i accts)
      | Remove_Account i \<Rightarrow> remove_exchange_account i accts
      | Enable_Account i on \<Rightarrow> set_exchange_enabled i on accts)"

lemma ball_update_account: "(\<forall>a \<in> set (update_account i f accts). P a) \<longleftrightarrow> (\<forall>b \<in> set accts. P (if ea_id b = i then f b else b))"
  unfolding update_account_def set_map ball_simps(9) by simp

lemma account_step_scoped: "accounts_scoped accts \<Longrightarrow> accounts_scoped (account_step reg accts rq)"
proof (cases rq)
  case (Add_Account ans x l c m s)
  moreover assume "accounts_scoped accts"
  ultimately show ?thesis by (simp add: account_step_def add_exchange_account_scoped)
qed (simp_all add: account_step_def test_exchange_account_def remove_exchange_account_def
      set_exchange_enabled_def accounts_scoped_def ball_update_account split: sum.split)

lemma accounts_scoped_run: "accounts_scoped accts \<Longrightarrow> accounts_scoped (foldl (account_step reg) accts rqs)"
  by (induction rqs arbitrary: accts) (simp_all add: account_step_scoped)

lemma switched_off: "\<forall>a \<in> set (set_exchange_enabled i False accts). ea_id a = i \<longrightarrow> \<not> ea_enabled a"
  by (simp add: set_exchange_enabled_def ball_update_account)

lemma off_stays_off:
  assumes "\<forall>a \<in> set accts. ea_id a = i \<longrightarrow> \<not> ea_enabled a" and "rq \<noteq> Enable_Account i True"
    and "\<forall>ans x l c m s. rq = Add_Account ans x l c m s \<longrightarrow> aa_id ans \<noteq> i"
  shows "\<forall>a \<in> set (account_step reg accts rq). ea_id a = i \<longrightarrow> \<not> ea_enabled a"
proof (cases rq)
  case (Add_Account ans x l c m s)
  then show ?thesis using assms(1,3) by (auto simp: account_step_def add_exchange_account_def Let_def split: option.splits)
next
  case (Test_Account ans j)
  then show ?thesis using assms(1) by (simp add: account_step_def test_exchange_account_def ball_update_account split: sum.split)
next
  case (Remove_Account j)
  then show ?thesis using assms(1) by (simp add: account_step_def remove_exchange_account_def)
next
  case (Enable_Account j on)
  then show ?thesis using assms(1,2) by (auto simp: account_step_def set_exchange_enabled_def ball_update_account)
qed

text \<open>The credentials of an account that was switched off or removed are not used any more: whatever requests follow (short of
  switching it on again), in every mode each connector with credentials got them from an enabled account of that
  mode with another identity, and only testnet connectors talk to a sandbox.\<close>

theorem disabled_account_unused:
  assumes "accts0 = set_exchange_enabled i False accts \<or> accts0 = remove_exchange_account i accts"
    and "\<forall>rq \<in> set rqs. rq \<noteq> Enable_Account i True \<and> (\<forall>ans x l c m s. rq = Add_Account ans x l c m s \<longrightarrow> aa_id ans \<noteq> i)"
    and "c \<in> set (vals (build_cex_connectors reg dec s (foldl (account_step reg) accts0 rqs) mode))" and "bc_credentials c \<noteq> []"
  shows "(bc_sandbox c \<longleftrightarrow> mode = TESTNET) \<and>
    (\<exists>a \<in> set (foldl (account_step reg) accts0 rqs). ea_id a \<noteq> i \<and> ea_enabled a \<and> ea_mode a = mode_value mode \<and>
       decrypt_credentials dec a = Some (bc_credentials c))"
proof -
  have off: "\<forall>a \<in> set accts0. ea_id a = i \<longrightarrow> \<not> ea_enabled a"
    using assms(1) switched_off [of i accts] by (auto simp: remove_exchange_account_def)
  have "\<forall>a \<in> set (foldl (account_step reg) accts0 rqs). ea_id a = i \<longrightarrow> \<not> ea_enabled a"
    using off assms(2)
  proof (induction rqs arbitrary: accts0)
    case (Cons rq rqs)
    have "\<forall>a \<in> set (account_step reg accts0 rq). ea_id a = i \<longrightarrow> \<not> ea_enabled a"
      by (rule off_stays_off) (use Cons.prems in auto)
    from Cons.IH [OF this] Cons.prems(2) show ?case by simp
  qed simp
  with built_credentials [OF assms(3,4)] show ?thesis by blast
qed

subsection \<open>DEX connectors\<close>

record dex_choice =
  dc_chain :: chain
  dc_testnet_network :: "string option"

definition DEFAULT_DEXES :: "string list" where
  "DEFAULT_DEXES = [''jupiter'', ''uniswap-base'', ''uniswap-arbitrum'']"

definition build_dex_connectors ::
  "(string \<Rightarrow> dex_choice option) \<Rightarrow> bool \<Rightarrow> wallets \<Rightarrow> app_settings \<Rightarrow> trading_mode \<Rightarrow> (string, string option) dict" where
  \<comment> \<open>the address of the wallet of each connector\<close>
  "build_dex_connectors reg gateway_ok ws s mode =
     (if \<not> gateway_ok then []
      else foldl (\<lambda>d name. case reg name of
               None \<Rightarrow> d
             | Some spec \<Rightarrow>
                 if mode = TESTNET \<and> dc_testnet_network spec \<in> {None, Some []} then d
                 else AList.update name (if mode \<in> {TESTNET, LIVE}
                        then address_for_chain ws (dc_chain spec) (if mode = TESTNET then ''testnet'' else ''live'') else None) d)
             [] (if gs_dexes (s_general s) = [] then DEFAULT_DEXES else gs_dexes (s_general s)))"

definition register_wallet :: "bool \<Rightarrow> key_box \<Rightarrow> wallets \<Rightarrow> string \<Rightarrow> (string \<Rightarrow> string \<Rightarrow> message + string) \<Rightarrow> (message + string) option result" where
  \<comment> \<open>None: nothing was sent; the Gateway gets the chain and the secret\<close>
  "register_wallet gateway_ok b ws i add =
     (if \<not> gateway_ok then Inr None
      else case find (\<lambda>w. wa_id w = i) (vals ws) of
        None \<Rightarrow> Inr None
      | Some w \<Rightarrow> if wa_kind w \<noteq> ''bot'' then Inr None
          else bind_result (wallet_secret b ws i) (\<lambda>sec. Inr (Some (add (if wa_family w = ''solana'' then ''solana'' else ''ethereum'') sec))))"

subsection \<open>The bus of events\<close>

record ('e) event_bus =
  eb_events :: "'e list"
  eb_queues :: "(string \<times> 'e list) list"

definition QUEUE_SIZE :: nat where "QUEUE_SIZE = 200"

definition push_event :: "'e \<Rightarrow> 'e event_bus \<Rightarrow> 'e event_bus" where
  "push_event ev b = \<lparr>eb_events = last_n 200 (eb_events b @ [ev]),
     eb_queues = map (\<lambda>(q, es). (q, if length es < QUEUE_SIZE then es @ [ev] else es)) (eb_queues b)\<rparr>"

definition subscribe :: "string \<Rightarrow> 'e event_bus \<Rightarrow> 'e event_bus" where
  "subscribe q b = b\<lparr>eb_queues := eb_queues b @ [(q, [])]\<rparr>"

definition unsubscribe :: "string \<Rightarrow> 'e event_bus \<Rightarrow> 'e event_bus" where
  "unsubscribe q b = b\<lparr>eb_queues := filter (\<lambda>(q', _). q' \<noteq> q) (eb_queues b)\<rparr>"

definition push_events :: "'e list \<Rightarrow> 'e event_bus \<Rightarrow> 'e event_bus" where
  "push_events evs b = foldl (\<lambda>b e. push_event e b) b evs"

lemma push_event_queues: "eb_queues (push_event ev b) = map (\<lambda>(q, es). (q, if length es < QUEUE_SIZE then es @ [ev] else es)) (eb_queues b)"
  by (simp add: push_event_def)

lemma push_events_queue:
  assumes "(q, es) \<in> set (eb_queues b)" and "length es \<le> QUEUE_SIZE"
  shows "(q, take QUEUE_SIZE (es @ evs)) \<in> set (eb_queues (push_events evs b))"
  using assms
proof (induction evs arbitrary: b es)
  case Nil
  then show ?case by (simp add: push_events_def)
next
  case (Cons e evs)
  define es' where "es' = (if length es < QUEUE_SIZE then es @ [e] else es)"
  have m: "(q, es') \<in> set (eb_queues (push_event e b))" using Cons.prems(1) by (force simp: push_event_queues es'_def)
  have l: "length es' \<le> QUEUE_SIZE" using Cons.prems(2) by (simp add: es'_def)
  have "take QUEUE_SIZE (es' @ evs) = take QUEUE_SIZE (es @ e # evs)" using Cons.prems(2) by (auto simp: es'_def take_Cons')
  with Cons.IH [OF m l] show ?case by (simp add: push_events_def)
qed

text \<open>A browser that stops reading keeps what it has and misses what is new: a subscriber receives the first two hundred events it has
  not read, in order and without gaps, and every later one is dropped without a sign.\<close>

theorem full_queue_drops_new:
  assumes "(q, es) \<in> set (eb_queues b)" and "length es \<le> QUEUE_SIZE"
  shows "(q, take QUEUE_SIZE (es @ evs)) \<in> set (eb_queues (push_events evs b)) \<and>
    (length es = QUEUE_SIZE \<longrightarrow> (q, es) \<in> set (eb_queues (push_events evs b)))"
  using push_events_queue [OF assms, of evs] by (auto simp: take_all)
subsection \<open>Shadow mode\<close>

record shadow_row =
  sr_id :: string
  sr_ts :: int
  sr_key :: "strategy \<times> string \<times> string \<times> string"
  sr_would :: bool
  sr_size :: decimal
  sr_predicted :: decimal
  sr_worst :: decimal
  sr_costs :: decimal
  sr_hypothetical :: "decimal option"

record shadow =
  sh_seen :: "(strategy \<times> string \<times> string \<times> string, int) dict"
  sh_evaluated :: int
  sh_would :: int
  sh_rows :: "shadow_row list"

definition new_shadow :: shadow where
  "new_shadow = \<lparr>sh_seen = [], sh_evaluated = 0, sh_would = 0, sh_rows = []\<rparr>"

definition shadow_key :: "opportunity \<Rightarrow> strategy \<times> string \<times> string \<times> string" where
  \<comment> \<open>the parts of the text \<open>strategy|pair|route\<close>\<close>
  "shadow_key o1 = (op_strategy o1, op_pair o1, eq_venue (op_buy o1), eq_venue (op_sell o1))"

definition shadow_throttle :: "opportunity \<Rightarrow> int" where
  "shadow_throttle o1 = (if op_decision o1 = SAFE_TO_EXECUTE then 0 else 30000)"

definition shadow_record :: "int \<Rightarrow> string \<Rightarrow> opportunity \<Rightarrow> shadow \<Rightarrow> shadow" where
  "shadow_record now i o1 sh =
     (let k = shadow_key o1; would = (op_decision o1 = SAFE_TO_EXECUTE) in
      if now - dget (sh_seen sh) k 0 < shadow_throttle o1 then sh
      else \<lparr>sh_seen = AList.update k now (sh_seen sh), sh_evaluated = sh_evaluated sh + 1,
             sh_would = sh_would sh + (if would then 1 else 0),
             sh_rows = sh_rows sh @ [\<lparr>sr_id = i, sr_ts = now, sr_key = k, sr_would = would, sr_size = op_size_base o1,
               sr_predicted = pa_expected_net_profit (op_profit o1), sr_worst = pa_worst_case_profit (op_profit o1),
               sr_costs = cost_total (pa_expected_costs (op_profit o1)), sr_hypothetical = None\<rparr>]\<rparr>)"

definition hypothetical_profit :: "cost_breakdown \<Rightarrow> execution_quote \<Rightarrow> execution_quote \<Rightarrow> decimal" where
  \<comment> \<open>of the quotes after the delay\<close>
  "hypothetical_profit c bq sq =
     (let exec = dadd (dadd (dadd (dadd (cb_slippage c) (cb_price_impact c)) (cb_dex_swap_fee c)) (cb_buy_trading_fee c)) (cb_sell_trading_fee c);
          non_exec = dsub (cost_total c) exec;
          buy_cost = dmul (eq_quote_amount bq) (dadd 1 (ddiv (opt_or_zero (eq_fee_pct bq)) 100));
          sell_proceeds = dmul (eq_quote_amount sq) (dsub 1 (ddiv (opt_or_zero (eq_fee_pct sq)) 100))
      in dsub (dsub sell_proceeds buy_cost) non_exec)"

definition shadow_reprice :: "string \<Rightarrow> cost_breakdown \<Rightarrow> (execution_quote \<times> execution_quote) option \<Rightarrow> shadow \<Rightarrow> shadow" where
  \<comment> \<open>None: a venue is gone, or a quote raised\<close>
  "shadow_reprice i c quotes sh =
     (case quotes of None \<Rightarrow> sh
      | Some (bq, sq) \<Rightarrow> sh\<lparr>sh_rows := map (\<lambda>r. if sr_id r = i then r\<lparr>sr_hypothetical := Some (hypothetical_profit c bq sq)\<rparr> else r) (sh_rows sh)\<rparr>)"

definition shadow_all :: "(int \<times> string \<times> opportunity) list \<Rightarrow> shadow \<Rightarrow> shadow" where
  "shadow_all xs sh = foldl (\<lambda>sh (now, i, o1). shadow_record now i o1 sh) sh xs"

definition shadow_ok :: "int \<Rightarrow> shadow \<Rightarrow> bool" where
  "shadow_ok t sh \<longleftrightarrow> (\<forall>r \<in> set (sh_rows sh). sr_ts r \<le> dget (sh_seen sh) (sr_key r) 0) \<and> (\<forall>k. dget (sh_seen sh) k 0 \<le> t) \<and>
     sorted_wrt (\<lambda>r r'. sr_ts r \<le> sr_ts r' \<and> (sr_key r = sr_key r' \<and> \<not> sr_would r' \<longrightarrow> 30000 \<le> sr_ts r' - sr_ts r)) (sh_rows sh) \<and>
     (\<forall>r \<in> set (sh_rows sh). sr_ts r \<le> t) \<and>
     sh_evaluated sh = int (length (sh_rows sh)) \<and> sh_would sh = int (length (filter sr_would (sh_rows sh)))"

lemma shadow_ok_mono: "shadow_ok t sh \<Longrightarrow> t \<le> now \<Longrightarrow> shadow_ok now sh"
  unfolding shadow_ok_def by (meson order_trans)

lemma shadow_ok_record:
  assumes "shadow_ok t sh" and "t \<le> now"
  shows "shadow_ok now (shadow_record now i o1 sh)"
proof (cases "now - dget (sh_seen sh) (shadow_key o1) 0 < shadow_throttle o1")
  case True
  then have "shadow_record now i o1 sh = sh" by (simp add: shadow_record_def Let_def)
  then show ?thesis using shadow_ok_mono [OF assms] by simp
next
  case False
  have d: "dget (AList.update (shadow_key o1) now (sh_seen sh)) k 0 = (if k = shadow_key o1 then now else dget (sh_seen sh) k 0)" for k
    by (simp add: dget_def update_conv')
  have gap: "30000 \<le> now - sr_ts r" if "r \<in> set (sh_rows sh)" "sr_key r = shadow_key o1" "op_decision o1 \<noteq> SAFE_TO_EXECUTE" for r
    using that False assms(1) by (fastforce simp: shadow_ok_def shadow_throttle_def)
  show ?thesis
    using False shadow_ok_mono [OF assms] gap unfolding shadow_ok_def shadow_record_def Let_def
    by (auto simp: d sorted_wrt_append)
qed

lemma shadow_ok_all:
  "shadow_ok t sh \<Longrightarrow> sorted (t # map fst xs) \<Longrightarrow> shadow_ok (last (t # map fst xs)) (shadow_all xs sh)"
proof (induction xs arbitrary: t sh)
  case (Cons x xs)
  obtain now i o1 where x: "x = (now, i, o1)" by (cases x)
  have "shadow_ok now (shadow_record now i o1 sh)" by (rule shadow_ok_record) (use Cons.prems x in auto)
  from Cons.IH [OF this] Cons.prems show ?case by (simp add: shadow_all_def x)
qed (simp add: shadow_all_def)

text \<open>Shadow mode records without flooding: two records of the same route are at least thirty seconds apart when the later one is of
  a blocked opportunity, and the counters count exactly the records and those that would have been trades.\<close>

theorem shadow_records_spaced:
  assumes "sorted (map fst xs)" and "\<forall>x \<in> set xs. 0 \<le> fst x" and "sh = shadow_all xs new_shadow"
  shows "sorted_wrt (\<lambda>r r'. sr_key r = sr_key r' \<and> \<not> sr_would r' \<longrightarrow> 30000 \<le> sr_ts r' - sr_ts r) (sh_rows sh) \<and>
    sh_evaluated sh = int (length (sh_rows sh)) \<and> sh_would sh = int (length (filter sr_would (sh_rows sh)))"
proof -
  have "shadow_ok 0 new_shadow" by (simp add: shadow_ok_def new_shadow_def dget_def)
  from shadow_ok_all [OF this, of xs] assms have "shadow_ok (last (0 # map fst xs)) sh" by auto
  then show ?thesis unfolding shadow_ok_def by (auto elim: sorted_wrt_mono_rel [rotated])
qed

subsection \<open>Health and capital at the moment\<close>

definition context_venue_health ::
  "(rat list \<Rightarrow> rat) \<Rightarrow> venue_ref option \<Rightarrow> health_tracker \<Rightarrow> bool \<Rightarrow> int \<Rightarrow> rat \<Rightarrow> (string, health_report) dict \<Rightarrow> venue_health \<times> (string, health_report) dict" where
  \<comment> \<open>with the reports of the context; maintenance that was reported stays until the next active check\<close>
  "context_venue_health fsum v t expect_ws now tick reports =
     (case v of
        None \<Rightarrow> (UNKNOWN, reports)
      | Some c \<Rightarrow>
          if \<not> vr_connected c then (UNKNOWN, reports)
          else let rep = classify fsum t (vr_name c) (if vr_kind c = DEX then 60000 else 15000) expect_ws now tick;
                   rep' = (case map_of reports (vr_name c) of
                      Some prev \<Rightarrow> if hr_maintenance prev then rep\<lparr>hr_maintenance := True, hr_health := BLOCKED_VENUE,
                            hr_reasons := hr_reasons rep @ [Msg ''exchange maintenance'' []]\<rparr> else rep
                    | None \<Rightarrow> rep)
               in (hr_health rep', AList.update (vr_name c) rep' reports))"

lemma maintenance_stays:
  assumes "vr_connected c" and "map_of reports (vr_name c) = Some prev" and "hr_maintenance prev"
  shows "fst (context_venue_health fsum (Some c) t w now tick reports) = BLOCKED_VENUE \<and>
    (\<exists>r. map_of (snd (context_venue_health fsum (Some c) t w now tick reports)) (vr_name c) = Some r \<and> hr_maintenance r)"
  using assms by (simp add: context_venue_health_def Let_def update_conv')

definition ALL_CHAINS :: "chain list" where
  "ALL_CHAINS = [SOLANA, ETHEREUM, BASE, ARBITRUM, OPTIMISM, POLYGON, BSC, AVALANCHE]"

definition gas_capital :: "(string \<Rightarrow> decimal option) \<Rightarrow> app_settings \<Rightarrow> inventory \<Rightarrow> decimal" where
  "gas_capital price s inven =
     foldl (\<lambda>acc ch. case (map_of (gas_gas_reserve (s_gas s)) (chain_value ch), price (native_token ch)) of
          (Some reserve, Some px) \<Rightarrow> if reserve = 0 \<or> px = 0 then acc
            else dadd acc (dmul (min (inv_available inven (chain_value ch) (native_token ch)) reserve) px)
        | _ \<Rightarrow> acc) 0 ALL_CHAINS"

definition capital_summary ::
  "(string \<Rightarrow> decimal option) \<Rightarrow> app_settings \<Rightarrow> inventory \<Rightarrow> decimal \<Rightarrow> decimal list \<Rightarrow> decimal list result" where
  \<comment> \<open>of the total of the inventory and the estimated costs of the active trades; the fields of the capital split to cents\<close>
  "capital_summary price s inven tot costs =
     (let c = capital_breakdown (s_risk s) tot (gas_capital price s inven) (dsum costs) in
      foldr (\<lambda>v r. bind_result (quantize v 2) (\<lambda>x. bind_result r (\<lambda>xs. Inr (x # xs))))
        [cap_total c, cap_usable c, cap_reserved c, cap_emergency_reserve c, cap_inventory_reserve c, cap_gas_reserve c, cap_at_risk c] (Inr []))"
subsection \<open>Witnesses\<close>

definition half_gone :: "(string, balance) dict" where
  "half_gone = [(''USDC'', \<lparr>bal_asset = ''USDC'', bal_free = 500, bal_used = 0\<rparr>)]"

definition demo_balance_env :: balance_env where
  "demo_balance_env = \<lparr>be_balances = (\<lambda>_. Inr half_gone), be_price = (\<lambda>_. Some 1), be_digest = (\<lambda>a b c d. []), be_now_ms = 4\<rparr>"

definition demo_balance_state :: balance_state where
  \<comment> \<open>a thousand are expected on Kraken\<close>
  "demo_balance_state = \<lparr>bs_inventory = cx_inventory demo_live, bs_expected = rec_expected demo_expected,
     bs_deposits = new_deposit_monitor, bs_seen = [], bs_events = []\<rparr>"

theorem refresh_adopts_losses_witness:
  "\<exists>cx' r' rep. run_once (demo_answers half_gone) (demo_live, demo_expected\<lparr>rec_expected :=
       bs_expected (refresh_live demo_balance_env (vals (cx_connectors demo_live)) demo_balance_state)\<rparr>) = (cx', r', rep) \<and> rr_ok rep"
proof -
  obtain cx' r' rep where run: "run_once (demo_answers half_gone) (demo_live, demo_expected\<lparr>rec_expected :=
       bs_expected (refresh_live demo_balance_env (vals (cx_connectors demo_live)) demo_balance_state)\<rparr>) = (cx', r', rep)"
    by (metis prod.exhaust)
  have "\<forall>c \<in> set (vals (cx_connectors demo_live)). \<exists>bs. be_balances demo_balance_env (vr_name c) = Inr bs \<and> distinct (map fst bs) \<and>
      va_balances (demo_answers half_gone) (vr_name c) = Inr bs"
    by (simp add: demo_balance_env_def demo_answers_def half_gone_def)
  moreover have "\<forall>c \<in> set (vals (cx_connectors demo_live)). vr_connected c" by (simp add: demo_venue_def)
  moreover have "distinct (map ledger_venue_for (vals (cx_connectors demo_live)))" by simp
  ultimately have "rr_ok rep \<and> rr_discrepancies rep = [] \<and> cx' = demo_live"
    by (intro refresh_adopts_losses [OF _ refl _ _ _ _ _ run]) (simp_all add: demo_answers_def)
  with run show ?thesis by blast
qed

definition live_account :: exchange_account where
  "live_account = demo_account\<lparr>ea_id := ''a2'', ea_mode := ''live''\<rparr>"

theorem disabled_account_unused_witness:
  "\<forall>c \<in> set (vals (build_cex_connectors demo_registry (\<lambda>_ i. Some [(''apiKey'', i)]) (cx_settings before_live)
       (foldl (account_step demo_registry) (set_exchange_enabled ''a1'' False [demo_account, live_account]) [Test_Account (Inr (Some True)) ''a1'']) TESTNET)).
     bc_credentials c = []"
proof (rule ballI, rule ccontr)
  fix c
  let ?accts = "foldl (account_step demo_registry) (set_exchange_enabled ''a1'' False [demo_account, live_account]) [Test_Account (Inr (Some True)) ''a1'']"
  assume c: "c \<in> set (vals (build_cex_connectors demo_registry (\<lambda>_ i. Some [(''apiKey'', i)]) (cx_settings before_live) ?accts TESTNET))"
    and "bc_credentials c \<noteq> []"
  from disabled_account_unused [OF _ _ this, where i = "''a1''" and accts = "[demo_account, live_account]"]
  obtain a where "a \<in> set ?accts" "ea_id a \<noteq> ''a1''" "ea_mode a = ''testnet''" by auto
  then show False
    by (auto simp: account_step_def test_exchange_account_def set_exchange_enabled_def update_account_def live_account_def demo_account_def)
qed

theorem shadow_records_spaced_witness:
  "sh_evaluated (shadow_all [(50000, ''s1'', demo_opportunity 1), (50001, ''s2'', (demo_opportunity 1)\<lparr>op_decision := BLOCKED\<rparr>)] new_shadow) = 1"
proof -
  let ?xs = "[(50000, ''s1'', demo_opportunity 1), (50001, ''s2'', (demo_opportunity 1)\<lparr>op_decision := BLOCKED\<rparr>)]"
  have "length (sh_rows (shadow_all ?xs new_shadow)) = 1"
    by (simp add: shadow_all_def shadow_record_def new_shadow_def shadow_key_def shadow_throttle_def demo_opportunity_def dget_def Let_def op_pair_def)
  with shadow_records_spaced [OF _ _ refl, of ?xs] show ?thesis by simp
qed

end
