(* ===== verification/Backup.thy ===== *)
theory Backup
  imports Access Strategies
begin

text \<open>
  Model of the backups: the archive of the data directory (\<^verbatim>\<open>scripts/backup.py\<close>: create, verify and restore) and the keystore
  of a Solana wallet (\<^verbatim>\<open>backend/fedr/wallets/manager.py\<close>). A directory is the dictionary of its files by relative path, an
  archive the list of its members with the manifest as data. The hash, the copy and the contents of the database, the JSON
  parser, the key derivation and the cipher are arguments.
\<close>

subsection \<open>Archives\<close>

type_synonym files = "(string, bytes) dict"

record file_entry =
  fe_sha256 :: string
  fe_bytes :: nat

record manifest =
  mf_includes_secrets :: bool
  mf_files :: "(string, file_entry) dict"

datatype member = File_Member string bytes | Manifest_Member string manifest | Other_Member string

record backup_env =
  \<comment> \<open>the hash, the copy of the database, what its tables say (the key and credential columns, or the error that ends the scan), and whether a
      text is JSON\<close>
  bu_sha256 :: "bytes \<Rightarrow> string"
  bu_snapshot :: "bytes \<Rightarrow> bytes"
  bu_columns :: "bytes \<Rightarrow> message + string list \<times> string list"
  bu_is_json :: "string \<Rightarrow> bool"

definition SECRET_FILES :: "string list" where
  "SECRET_FILES = [''config/master.key'', ''config/ui-token'']"

definition INCLUDE_DIRS :: "string list" where
  "INCLUDE_DIRS = [''config'', ''wallets'', ''strategies'', ''reports'']"

definition DB_REL :: string where "DB_REL = ''database/fedr.db''"

definition MANIFEST :: string where "MANIFEST = ''manifest.json''"

definition in_dir :: "string \<Rightarrow> string \<Rightarrow> bool" where
  "in_dir sub path \<longleftrightarrow> starts_with (sub @ ''/'') path"

definition db_part :: "backup_env \<Rightarrow> files \<Rightarrow> files" where
  "db_part env d = (case map_of d DB_REL of None \<Rightarrow> [] | Some b \<Rightarrow> [(DB_REL, bu_snapshot env b)])"

definition dir_part :: "bool \<Rightarrow> files \<Rightarrow> string \<Rightarrow> files" where
  \<comment> \<open>the directory holds its files sorted by path\<close>
  "dir_part secrets d sub = filter (\<lambda>(p, _). in_dir sub p \<and> (p \<in> set SECRET_FILES \<longrightarrow> secrets)) d"

definition backup_files :: "backup_env \<Rightarrow> bool \<Rightarrow> files \<Rightarrow> files" where
  "backup_files env secrets d = db_part env d @ concat (map (dir_part secrets d) INCLUDE_DIRS)"

definition create_backup :: "backup_env \<Rightarrow> bool \<Rightarrow> files \<Rightarrow> member list" where
  "create_backup env secrets d =
     (let fs = backup_files env secrets d in
      map (\<lambda>(p, b). File_Member p b) fs
      @ [Manifest_Member MANIFEST \<lparr>mf_includes_secrets = secrets,
           mf_files = map (\<lambda>(p, b). (p, \<lparr>fe_sha256 = bu_sha256 env b, fe_bytes = length b\<rparr>)) fs\<rparr>])"

subsection \<open>Reading and verifying\<close>

definition lstrip_dots :: "string \<Rightarrow> string" where
  \<comment> \<open>\<open>name.lstrip("./")\<close>: dots and slashes in any order\<close>
  "lstrip_dots s = dropWhile (\<lambda>c. c = CHR ''.'' \<or> c = CHR ''/'') s"

definition unsafe_path :: "string \<Rightarrow> bool" where
  "unsafe_path s \<longleftrightarrow> starts_with ''/'' s \<or> ''..'' \<in> set (split_on (CHR ''/'') s)"

datatype entry = File_Entry bytes | Manifest_Entry manifest

fun read_members :: "member list \<Rightarrow> (string, entry) dict \<Rightarrow> message + (string, entry) dict" where
  "read_members [] acc = Inr acc"
| "read_members (Other_Member _ # ms) acc = read_members ms acc"
| "read_members (File_Member n b # ms) acc =
     (let p = lstrip_dots n in if unsafe_path p then Inl (Msg ''refusing unsafe path in archive'' [AStr n])
      else read_members ms (AList.update p (File_Entry b) acc))"
| "read_members (Manifest_Member n m # ms) acc =
     (let p = lstrip_dots n in if unsafe_path p then Inl (Msg ''refusing unsafe path in archive'' [AStr n])
      else read_members ms (AList.update p (Manifest_Entry m) acc))"

definition file_entries :: "(string, entry) dict \<Rightarrow> files" where
  \<comment> \<open>without the manifest, which is the only entry that is data\<close>
  "file_entries es = List.map_filter (\<lambda>(p, e). case e of File_Entry b \<Rightarrow> Some (p, b) | Manifest_Entry _ \<Rightarrow> None) es"

definition read_archive :: "member list \<Rightarrow> message + manifest \<times> files" where
  "read_archive ms =
     (case read_members ms [] of
        Inl e \<Rightarrow> Inl e
      | Inr es \<Rightarrow> (case map_of es MANIFEST of
            Some (Manifest_Entry m) \<Rightarrow> Inr (m, file_entries es)
          | _ \<Rightarrow> Inl (Msg ''not a FEDR backup: manifest.json missing'' [])))"

definition hex_digit :: "char \<Rightarrow> bool" where
  "hex_digit c \<longleftrightarrow> c \<in> set ''0123456789abcdefABCDEF''"

definition hex_private_key :: "string \<Rightarrow> bool" where
  \<comment> \<open>of a stripped text\<close>
  "hex_private_key s \<longleftrightarrow> (let d = (if starts_with ''0x'' s then drop 2 s else s) in length d = 64 \<and> list_all hex_digit d)"

definition contains_bytes :: "bytes \<Rightarrow> bytes \<Rightarrow> bool" where
  "contains_bytes pat b \<longleftrightarrow> list_ex (\<lambda>i. take (length pat) (drop i b) = pat) [0..<Suc (length b)]"

definition plaintext_key_file :: "string \<Rightarrow> bytes \<Rightarrow> bool" where
  "plaintext_key_file p b \<longleftrightarrow> starts_with ''wallets/'' p \<and>
     list_ex (\<lambda>w. contains_bytes (utf8_encode w) b) [''private_key'', ''privateKey'', ''mnemonic'']"

definition listed_problems :: "backup_env \<Rightarrow> manifest \<Rightarrow> files \<Rightarrow> message list" where
  "listed_problems env m fs =
     List.map_filter (\<lambda>(p, e). case map_of fs p of
         None \<Rightarrow> Some (Msg ''missing'' [AStr p])
       | Some b \<Rightarrow> if bu_sha256 env b \<noteq> fe_sha256 e then Some (Msg ''hash mismatch'' [AStr p]) else None) (mf_files m)
     @ List.map_filter (\<lambda>(p, _). if map_of (mf_files m) p = None then Some (Msg ''unlisted file'' [AStr p]) else None) fs"

definition secrets_problem :: "manifest \<Rightarrow> files \<Rightarrow> message list" where
  "secrets_problem m fs =
     (if list_ex (\<lambda>(p, _). p \<in> set SECRET_FILES) fs \<noteq> mf_includes_secrets m
      then [Msg ''manifest includes_secrets flag does not match the archive contents'' []] else [])"

definition db_problems :: "backup_env \<Rightarrow> files \<Rightarrow> message list" where
  "db_problems env fs =
     (case map_of fs DB_REL of
        None \<Rightarrow> []
      | Some b \<Rightarrow> (case bu_columns env b of
            Inl e \<Rightarrow> [Msg ''database unreadable'' [AMsg e]]
          | Inr (kcol, creds) \<Rightarrow>
              map (\<lambda>_. Msg ''wallets.key_enc looks like a PLAINTEXT private key'' []) (filter (\<lambda>k. hex_private_key (strip k)) kcol)
              @ map (\<lambda>_. Msg ''exchange_accounts.credentials_enc is PLAINTEXT JSON'' []) (filter (bu_is_json env) creds)))"

definition verify_problems :: "backup_env \<Rightarrow> manifest \<Rightarrow> files \<Rightarrow> message list" where
  "verify_problems env m fs = listed_problems env m fs @ secrets_problem m fs @ db_problems env fs
     @ map (\<lambda>(p, _). Msg ''contains a plaintext key field'' [AStr p]) (filter (\<lambda>(p, b). plaintext_key_file p b) fs)"

definition verify_backup :: "backup_env \<Rightarrow> member list \<Rightarrow> message + message list" where
  "verify_backup env ms = (case read_archive ms of Inl e \<Rightarrow> Inl e | Inr (m, fs) \<Rightarrow> Inr (verify_problems env m fs))"

definition STALE :: "string list" where
  "STALE = [''database/fedr.db-wal'', ''database/fedr.db-shm'']"

definition restore_backup :: "backup_env \<Rightarrow> bool \<Rightarrow> member list \<Rightarrow> files \<Rightarrow> message + files" where
  "restore_backup env force ms d =
     (case read_archive ms of
        Inl e \<Rightarrow> Inl e
      | Inr (m, fs) \<Rightarrow>
          if verify_problems env m fs \<noteq> [] then Inl (Msg ''refusing to restore: archive failed verification'' [])
          else if d \<noteq> [] \<and> \<not> force then Inl (Msg ''data directory is not empty'' [])
          else Inr (filter (\<lambda>(p, _). p \<notin> set STALE) (foldl (\<lambda>d (p, b). AList.update p b d) d fs)))"

subsection \<open>Keystores\<close>

record sol_keystore =
  sk_address :: string
  sk_label :: string
  sk_n :: nat
  sk_r :: nat
  sk_p :: nat
  sk_dklen :: nat
  sk_salt :: string
  sk_nonce :: string
  sk_ciphertext :: string

type_synonym scrypt = "bytes \<Rightarrow> nat \<Rightarrow> nat \<Rightarrow> nat \<Rightarrow> nat \<Rightarrow> bytes \<Rightarrow> bytes"

definition KEYSTORE_AAD :: bytes where "KEYSTORE_AAD = utf8_encode ''fedr-solana-keystore''"

definition export_solana ::
  "scrypt \<Rightarrow> (bytes \<Rightarrow> cipher) \<Rightarrow> bytes \<Rightarrow> bytes \<Rightarrow> string \<Rightarrow> string \<Rightarrow> string \<Rightarrow> string result \<Rightarrow> sol_keystore result" where
  \<comment> \<open>with the secret the wallet manager decrypts\<close>
  "export_solana kdf gcm salt nonce address label passphrase secret =
     (if length passphrase < 12 then Inl ValueError
      else bind_result secret (\<lambda>s.
        let key = kdf salt 32 (2 ^ 17) 8 1 (utf8_encode passphrase) in
        Inr \<lparr>sk_address = address, sk_label = label, sk_n = 2 ^ 17, sk_r = 8, sk_p = 1, sk_dklen = 32,
             sk_salt = b64_encode False salt, sk_nonce = b64_encode False nonce,
             sk_ciphertext = b64_encode False (ci_seal (gcm key) nonce (utf8_encode s) KEYSTORE_AAD)\<rparr>))"

definition decrypt_solana_keystore :: "scrypt \<Rightarrow> (bytes \<Rightarrow> cipher) \<Rightarrow> sol_keystore \<Rightarrow> string \<Rightarrow> string result" where
  "decrypt_solana_keystore kdf gcm ks passphrase =
     bind_result (b64_decode False (sk_salt ks)) (\<lambda>salt.
     bind_result (b64_decode False (sk_nonce ks)) (\<lambda>nonce.
     bind_result (b64_decode False (sk_ciphertext ks)) (\<lambda>ct.
     bind_result (ci_open (gcm (kdf salt (sk_dklen ks) (sk_n ks) (sk_r ks) (sk_p ks) (utf8_encode passphrase))) nonce ct KEYSTORE_AAD) (\<lambda>bs.
       case utf8_decode bs of None \<Rightarrow> Inl ValueError | Some s \<Rightarrow> Inr s))))"

lemma keystore_round_trip:
  assumes "\<forall>k. cipher_law (gcm k)" and "export_solana kdf gcm salt nonce address label passphrase (Inr s) = Inr ks"
  shows "decrypt_solana_keystore kdf gcm ks passphrase = Inr s"
  using assms by (auto simp: export_solana_def decrypt_solana_keystore_def cipher_law_def Let_def split: if_splits)
subsection \<open>What a backup contains\<close>

lemma in_dir_hd: "in_dir (c # cs) p \<Longrightarrow> \<exists>t. p = c # t"
  by (cases p) (auto simp: in_dir_def starts_with_def)

lemma backup_files_dirs:
  "backup_files env secrets d = db_part env d @ dir_part secrets d ''config'' @ dir_part secrets d ''wallets'' @
     dir_part secrets d ''strategies'' @ dir_part secrets d ''reports''"
  by (simp add: backup_files_def INCLUDE_DIRS_def)

lemma dir_part_hd: "p \<in> fst ` set (dir_part secrets d (c # cs)) \<Longrightarrow> \<exists>t. p = c # t"
  by (auto simp: dir_part_def dest: in_dir_hd)

lemma db_part_path: "p \<in> fst ` set (db_part env d) \<Longrightarrow> p = DB_REL"
  by (auto simp: db_part_def split: option.splits)

lemma distinct_dir_part: "distinct (map fst d) \<Longrightarrow> distinct (map fst (dir_part secrets d sub))"
  by (simp add: dir_part_def distinct_map_filter)

lemma backup_files_distinct:
  assumes "distinct (map fst d)"
  shows "distinct (map fst (backup_files env secrets d))"
proof -
  have dp: "distinct (map fst (db_part env d))" by (simp add: db_part_def split: option.split)
  have dis: "fst ` set (dir_part secrets d (a # as)) \<inter> fst ` set (dir_part secrets d (b # bs)) = {}" if "a \<noteq> b" for a as b bs
    using that dir_part_hd [of _ secrets d a as] dir_part_hd [of _ secrets d b bs] by fastforce
  have db: "fst ` set (db_part env d) \<inter> fst ` set (dir_part secrets d (a # as)) = {}" if "a \<noteq> CHR ''d''" for a as
    using that dir_part_hd [of _ secrets d a as] db_part_path [of _ env d] by (fastforce simp: DB_REL_def)
  show ?thesis unfolding backup_files_dirs
    using dp distinct_dir_part [OF assms] by (simp add: dis db Int_Un_distrib)
qed

lemma backup_path:
  assumes "p \<in> fst ` set (backup_files env secrets d)"
  shows "p \<notin> set STALE \<and> p \<noteq> MANIFEST \<and> lstrip_dots p = p \<and> (p \<in> set SECRET_FILES \<longrightarrow> secrets) \<and> \<not> starts_with ''/'' p \<and>
    (p = DB_REL \<or> p \<in> fst ` set d)"
proof -
  from assms consider "p = DB_REL" | sub where "sub \<in> {''config'', ''wallets'', ''strategies'', ''reports''}" "p \<in> fst ` set (dir_part secrets d sub)"
    unfolding backup_files_dirs using db_part_path [of p env d] by auto
  then show ?thesis
  proof cases
    case 1
    then show ?thesis by (simp add: DB_REL_def STALE_def MANIFEST_def lstrip_dots_def SECRET_FILES_def starts_with_def)
  next
    case 2
    then obtain c cs where s: "sub = c # cs" "c \<in> set ''cwsr''" by auto
    then obtain t where p: "p = c # t" using 2(2) dir_part_hd by blast
    have m: "p \<in> fst ` set d" "p \<in> set SECRET_FILES \<longrightarrow> secrets" using 2(2) by (auto simp: dir_part_def)
    show ?thesis using m s(2) by (auto simp: p STALE_def MANIFEST_def lstrip_dots_def starts_with_def)
  qed
qed

subsection \<open>Reading what was written\<close>

lemma update_new: "p \<notin> fst ` set acc \<Longrightarrow> AList.update p e acc = acc @ [(p, e)]"
  by (induction acc) auto

lemma read_files:
  assumes "distinct (map fst acc @ map fst fs)" and "\<forall>p \<in> fst ` set fs. lstrip_dots p = p \<and> \<not> unsafe_path p"
  shows "read_members (map (\<lambda>(p, b). File_Member p b) fs @ ms) acc = read_members ms (acc @ map (\<lambda>(p, b). (p, File_Entry b)) fs)"
  using assms
proof (induction fs arbitrary: acc)
  case (Cons x fs)
  obtain p b where x: "x = (p, b)" by (cases x)
  have p: "lstrip_dots p = p" "\<not> unsafe_path p" "p \<notin> fst ` set acc" using Cons.prems by (auto simp: x)
  have "read_members (map (\<lambda>(p, b). File_Member p b) fs @ ms) (acc @ [(p, File_Entry b)]) =
      read_members ms ((acc @ [(p, File_Entry b)]) @ map (\<lambda>(p, b). (p, File_Entry b)) fs)"
    by (rule Cons.IH) (use Cons.prems x in auto)
  then show ?case by (simp add: x p update_new Let_def)
qed simp

definition paths_ok :: "files \<Rightarrow> bool" where
  \<comment> \<open>what walking a directory yields: every file once, and no step upwards\<close>
  "paths_ok d \<longleftrightarrow> distinct (map fst d) \<and> (\<forall>p \<in> fst ` set d. ''..'' \<notin> set (split_on (CHR ''/'') p))"

lemma db_path_safe: "''..'' \<notin> set (split_on (CHR ''/'') DB_REL)"
  by (simp add: DB_REL_def)

lemma backup_path_safe:
  assumes "paths_ok d" and "p \<in> fst ` set (backup_files env secrets d)"
  shows "\<not> unsafe_path p"
  using backup_path [OF assms(2)] assms(1) db_path_safe by (auto simp: unsafe_path_def paths_ok_def)

lemma file_entries_files: "file_entries (map (\<lambda>(p, b). (p, File_Entry b)) fs @ [(q, Manifest_Entry m)]) = fs"
  by (induction fs) (auto simp: file_entries_def List.map_filter_def)

lemma read_created:
  assumes "paths_ok d" and "fs = backup_files env secrets d"
  shows "read_archive (create_backup env secrets d) = Inr (\<lparr>mf_includes_secrets = secrets,
     mf_files = map (\<lambda>(p, b). (p, \<lparr>fe_sha256 = bu_sha256 env b, fe_bytes = length b\<rparr>)) fs\<rparr>, fs)"
proof -
  have dis: "distinct (map fst fs)" using assms backup_files_distinct by (simp add: paths_ok_def)
  have ok: "\<forall>p \<in> fst ` set fs. lstrip_dots p = p \<and> \<not> unsafe_path p"
    using backup_path backup_path_safe [OF assms(1)] assms(2) by blast
  have nm: "MANIFEST \<notin> fst ` set fs" using backup_path assms(2) by blast
  let ?m = "\<lparr>mf_includes_secrets = secrets, mf_files = map (\<lambda>(p, b). (p, \<lparr>fe_sha256 = bu_sha256 env b, fe_bytes = length b\<rparr>)) fs\<rparr>"
  let ?es = "map (\<lambda>(p, b). (p, File_Entry b)) fs"
  have ne: "MANIFEST \<notin> fst ` set ?es" using nm by force
  have mp: "lstrip_dots MANIFEST = MANIFEST" "\<not> unsafe_path MANIFEST"
    by (simp_all add: MANIFEST_def lstrip_dots_def unsafe_path_def starts_with_def)
  have "read_members (create_backup env secrets d) [] = Inr (?es @ [(MANIFEST, Manifest_Entry ?m)])"
    unfolding create_backup_def Let_def assms(2) [symmetric]
    using read_files [of "[]" fs "[Manifest_Member MANIFEST ?m]"] dis ok by (simp add: mp update_new [OF ne])
  moreover have "map_of (?es @ [(MANIFEST, Manifest_Entry ?m)]) MANIFEST = Some (Manifest_Entry ?m)"
    using ne map_of_eq_None_iff [of ?es MANIFEST] by (simp add: map_add_def del: set_map)
  ultimately show ?thesis by (simp add: read_archive_def file_entries_files)
qed

lemma listed_created:
  assumes "distinct (map fst fs)"
  shows "listed_problems env \<lparr>mf_includes_secrets = s, mf_files = map (\<lambda>(p, b). (p, \<lparr>fe_sha256 = bu_sha256 env b, fe_bytes = length b\<rparr>)) fs\<rparr> fs = []"
proof -
  have "map_of fs p = Some b" if "(p, b) \<in> set fs" for p b using assms that by simp
  moreover have "map_of (map (\<lambda>(p, b). (p, \<lparr>fe_sha256 = bu_sha256 env b, fe_bytes = length b\<rparr>)) fs) p \<noteq> None" if "(p, b) \<in> set fs" for p b
    using that by (induction fs) auto
  ultimately show ?thesis
    unfolding listed_problems_def List.map_filter_def by (auto simp: filter_empty_conv)
qed

lemma foldl_update_map_of:
  "distinct (map fst fs) \<Longrightarrow> map_of (foldl (\<lambda>d (p, b). AList.update p b d) d fs) p =
     (case map_of fs p of Some b \<Rightarrow> Some b | None \<Rightarrow> map_of d p)"
proof (induction fs arbitrary: d)
  case (Cons x fs)
  obtain q b where x: "x = (q, b)" by (cases x)
  have "q \<notin> fst ` set fs" using Cons.prems by (simp add: x)
  then have "map_of fs q = None" by (simp add: map_of_eq_None_iff)
  then show ?case using Cons by (auto simp: x update_conv' split: option.split)
qed simp

lemma map_of_filter_key: "map_of (filter (\<lambda>(p, _). P p) d) q = (if P q then map_of d q else None)"
  by (induction d) auto


text \<open>A backup with secrets of an installation without secret files cannot be restored: when the master key and the token come from
  the environment, as the documents allow, there is no such file, the manifest says that secrets are included, the
  verification finds that they are not, and every restore of this backup is refused.\<close>

theorem secretless_backup_refused:
  assumes "paths_ok d" and "\<forall>p \<in> set SECRET_FILES. p \<notin> fst ` set d"
  shows "\<exists>ps. verify_backup env (create_backup env True d) = Inr ps \<and> ps \<noteq> [] \<and>
    (\<forall>force d'. restore_backup env force (create_backup env True d) d' = Inl (Msg ''refusing to restore: archive failed verification'' []))"
proof -
  define fs where "fs = backup_files env True d"
  have "p \<notin> set SECRET_FILES" if "p \<in> fst ` set fs" for p
  proof -
    have "p = DB_REL \<or> p \<in> fst ` set d" using backup_path [OF that [unfolded fs_def]] by blast
    moreover have "DB_REL \<notin> set SECRET_FILES" by (simp add: DB_REL_def SECRET_FILES_def)
    ultimately show ?thesis using assms(2) by blast
  qed
  then have "\<not> list_ex (\<lambda>(p, _). p \<in> set SECRET_FILES) fs" by (force simp: list_ex_iff)
  then show ?thesis
    by (auto simp: verify_backup_def restore_backup_def read_created [OF assms(1) fs_def] verify_problems_def secrets_problem_def)
qed
subsection \<open>What a restore may change\<close>

lemma read_members_safe:
  assumes "read_members ms acc = Inr es" and "distinct (map fst acc)" and "\<forall>p \<in> fst ` set acc. \<not> unsafe_path p"
  shows "distinct (map fst es) \<and> (\<forall>p \<in> fst ` set es. \<not> unsafe_path p)"
  using assms
proof (induction ms acc rule: read_members.induct)
  case (3 n b ms acc)
  then show ?case by (auto simp: Let_def distinct_update dom_update split: if_splits)
next
  case (4 n m ms acc)
  then show ?case by (auto simp: Let_def distinct_update dom_update split: if_splits)
qed auto

lemma file_entries_Cons: "file_entries ((p, e) # es) = (case e of File_Entry b \<Rightarrow> (p, b) # file_entries es | Manifest_Entry _ \<Rightarrow> file_entries es)"
  by (simp add: file_entries_def map_filter_simps split: entry.split)

lemma file_entries_keys: "fst ` set (file_entries es) \<subseteq> fst ` set es"
proof (induction es)
  case (Cons x es)
  then show ?case by (cases x) (auto simp: file_entries_Cons split: entry.splits)
qed (simp add: file_entries_def map_filter_simps)

lemma file_entries_distinct: "distinct (map fst es) \<Longrightarrow> distinct (map fst (file_entries es))"
proof (induction es)
  case (Cons x es)
  then show ?case using file_entries_keys [of es] by (cases x) (auto simp: file_entries_Cons split: entry.splits)
qed (simp add: file_entries_def map_filter_simps)

lemma read_archive_safe:
  assumes "read_archive ms = Inr (m, fs)"
  shows "distinct (map fst fs) \<and> (\<forall>p \<in> fst ` set fs. \<not> unsafe_path p)"
proof -
  obtain es where es: "read_members ms [] = Inr es" "fs = file_entries es"
    using assms by (auto simp: read_archive_def split: sum.splits option.splits entry.splits)
  from read_members_safe [OF es(1)] have "distinct (map fst es)" "\<forall>p \<in> fst ` set es. \<not> unsafe_path p" by simp_all
  then show ?thesis unfolding es(2) using file_entries_distinct [of es] file_entries_keys [of es] by blast
qed

lemma map_filter_Nil: "List.map_filter f xs = [] \<longleftrightarrow> (\<forall>x \<in> set xs. f x = None)"
  by (induction xs) (auto simp: map_filter_simps split: option.split)

lemma verified_listed:
  assumes "verify_problems env m fs = []" and "map_of fs p = Some b"
  shows "\<exists>e. map_of (mf_files m) p = Some e \<and> bu_sha256 env b = fe_sha256 e"
proof -
  have l: "listed_problems env m fs = []" using assms(1) by (simp add: verify_problems_def)
  note l2 = l [unfolded listed_problems_def append_is_Nil_conv map_filter_Nil]
  from bspec [OF conjunct2 [OF l2] map_of_SomeD [OF assms(2)]] obtain e where e: "map_of (mf_files m) p = Some e"
    by (auto split: if_splits)
  from bspec [OF conjunct1 [OF l2] map_of_SomeD [OF e]] assms(2) have "bu_sha256 env b = fe_sha256 e"
    by (auto split: if_splits)
  with e show ?thesis by blast
qed


subsection \<open>Witnesses\<close>

definition demo_backup_env :: backup_env where
  "demo_backup_env = \<lparr>bu_sha256 = map (\<lambda>b. char_of (unat b)), bu_snapshot = id, bu_columns = (\<lambda>_. Inr ([''x''], [''y''])), bu_is_json = (\<lambda>_. False)\<rparr>"

definition demo_dir :: files where
  "demo_dir = [(''config/master.key'', [1]), (''database/fedr.db'', [2, 3]), (''logs/a'', [9]), (''wallets/w'', [4])]"

lemma demo_paths: "paths_ok demo_dir"
  by (simp add: paths_ok_def demo_dir_def)

lemma demo_backup: "backup_files demo_backup_env False demo_dir = [(''database/fedr.db'', [2, 3]), (''wallets/w'', [4])]"
  by (simp add: backup_files_def db_part_def dir_part_def demo_dir_def INCLUDE_DIRS_def in_dir_def starts_with_def
      DB_REL_def SECRET_FILES_def demo_backup_env_def)

lemma demo_clean: "db_problems demo_backup_env (backup_files demo_backup_env False demo_dir) = []"
    "\<forall>(p, b) \<in> set (backup_files demo_backup_env False demo_dir). \<not> plaintext_key_file p b"
  unfolding demo_backup by (simp_all add: db_problems_def DB_REL_def demo_backup_env_def hex_private_key_def strip_def starts_with_def
      plaintext_key_file_def contains_bytes_def is_space_def)



theorem secretless_backup_refused_witness:
  "restore_backup demo_backup_env False (create_backup demo_backup_env True [(''wallets/w'', [4])]) [] =
     Inl (Msg ''refusing to restore: archive failed verification'' [])"
  using secretless_backup_refused [of "[(''wallets/w'', [4])]" demo_backup_env] by (auto simp: paths_ok_def SECRET_FILES_def)

end
