(* ===== verification/Spec2Isabelle.thy ===== *)
theory Spec2Isabelle
  imports Quality Leg_Guards Profit_Guard Risk_Engine Circuit_Breakers Execution Opportunity_Engine Strategies Rebalancer
    Paper_Executor Breaker_Spec Venue_Health Supervision Market_Hub Controls
    Cex_Connector Gateway_Client Dex_Connector Positions Flash_Loan Wallets Readiness Live_Mode Transfers Access Records
    Feeds Replay Service Backup
begin

text \<open>
  Verification of the arbitrage engine of fedr: the Python program under \<^verbatim>\<open>src/backend/fedr\<close>, which
  watches markets of exchanges and of decentralised venues, looks for price differences that remain after
  all costs, and trades them in paper or live mode. File names below are relative to that directory.

  How the program works, and how the model follows it. Market data arrive in the hub
  (\<^verbatim>\<open>marketdata/hub.py\<close>), which passes every book through the quality gate and caches the accepted
  ones. The opportunity engine (\<^verbatim>\<open>engine/opportunity.py\<close>) scans pairs of venues, sizes and quotes a
  route and asks the profit guard, the risk engine, the slippage and latency guards and the circuit
  breakers; a route nothing objects to is SAFE_TO_EXECUTE. The scan loop (\<^verbatim>\<open>app.py\<close>) hands the best
  one to one of three engines: the execution engine (two legs with reservation, recovery and hedge), the
  manager of carry positions, or the flash-loan engine. The legs go to the paper executor and its ledger,
  or to a connector of an exchange or of a DEX gateway. The health loop, reconciliation and the emergency
  stop watch over all this and act through the circuit breakers, which every guard asks.

  The theories, in the order of what they build on:

    \<^item> Ground. \<open>Prelude\<close> holds the exceptions of the language as values, insertion-ordered dictionaries as
      association lists and the shared list lemmas. \<open>Rounding\<close> defines rounding to a number of significant
      digits, half to even, with its laws in the locale \<open>rounded\<close>, interpreted for the decimal
      context (34 digits) and for binary floats (53 bits). \<open>Money\<close> and \<open>Decimal_Text\<close> model
      \<^verbatim>\<open>core/money.py\<close>; every decimal operation of the program is a rounded one (\<open>dadd\<close>, \<open>dmul\<close>, \<open>ddiv\<close>, ...).
    \<^item> Data. \<open>Domain\<close> models \<^verbatim>\<open>core/enums.py\<close> and \<^verbatim>\<open>core/models.py\<close>, \<open>Settings\<close> models
      \<^verbatim>\<open>config/schema.py\<close> with defaults, validators and profiles, \<open>Engine_Context\<close> the shared state of
      \<^verbatim>\<open>engine/context.py\<close>.
    \<^item> Market data. \<open>Orderbook\<close> (\<^verbatim>\<open>marketdata/orderbook.py\<close>), \<open>Quality\<close> (\<^verbatim>\<open>marketdata/quality.py\<close>),
      \<open>Market_Hub\<close> (\<^verbatim>\<open>marketdata/hub.py\<close>).
    \<^item> Guards. \<open>Leg_Guards\<close> (\<^verbatim>\<open>engine/slippage_guard.py\<close>, \<^verbatim>\<open>engine/latency_guard.py\<close>),
      \<open>Gas_Guard\<close> (\<^verbatim>\<open>engine/gas_guard.py\<close>, \<^verbatim>\<open>marketdata/gas.py\<close>), \<open>Profit_Guard\<close>, \<open>Risk_Engine\<close>,
      \<open>Circuit_Breakers\<close> with its abstract machine in \<open>Breaker_Spec\<close> (the modules of these names in
      \<^verbatim>\<open>engine\<close>).
    \<^item> Money at the venues. \<open>Account_Store\<close> is the interface of a store with reservations (a locale) with the
      two-leg reservation of the execution engine proved over it; \<open>Paper_Ledger\<close>
      (\<^verbatim>\<open>connectors/paper/ledger.py\<close>) provides it; \<open>Inventory\<close> and \<open>Rebalancer\<close> model the modules of
      these names.
    \<^item> Venues. \<open>Venue_Health\<close> (\<^verbatim>\<open>connectors/base.py\<close>, \<^verbatim>\<open>core/clock.py\<close>), \<open>Cex_Connector\<close>
      (\<^verbatim>\<open>connectors/cex/ccxt_connector.py\<close>, \<^verbatim>\<open>connectors/cex/registry.py\<close>), \<open>Gateway_Client\<close> and
      \<open>Dex_Connector\<close> (\<^verbatim>\<open>connectors/dex\<close>).
    \<^item> Engines. \<open>Opportunity_Engine\<close>, \<open>Strategies\<close> (\<^verbatim>\<open>engine/strategies\<close>), \<open>Execution\<close> and
      \<open>Paper_Executor\<close> (\<^verbatim>\<open>engine/execution\<close>), \<open>Accounting\<close> (\<^verbatim>\<open>engine/accounting.py\<close>,
      \<^verbatim>\<open>engine/experience.py\<close>), \<open>Positions\<close> (\<^verbatim>\<open>engine/positions.py\<close> and the closing by hand of
      \<^verbatim>\<open>api/routes/trading.py\<close>), \<open>Flash_Loan\<close> (\<^verbatim>\<open>engine/flashloan.py\<close>).
    \<^item> Control. \<open>Supervision\<close> (the health and gas watch and the decision of the scan loop, \<^verbatim>\<open>app.py\<close>),
      \<open>Controls\<close> (\<^verbatim>\<open>engine/reconciliation.py\<close>, \<^verbatim>\<open>engine/emergency_stop.py\<close>), \<open>Readiness\<close>
      (\<^verbatim>\<open>engine/readiness.py\<close>, and the exchange accounts and connectors of \<^verbatim>\<open>app.py\<close>), \<open>Live_Mode\<close> (updates of the
      settings, live activation, the paper account of \<^verbatim>\<open>app.py\<close>, \<^verbatim>\<open>app_utils.py\<close> and the requests of
      \<^verbatim>\<open>api/routes/settings.py\<close>, \<^verbatim>\<open>api/routes/trading.py\<close> and \<^verbatim>\<open>api/routes/system.py\<close> that change them).
    \<^item> Funds. \<open>Wallets\<close> (\<^verbatim>\<open>wallets/manager.py\<close>), \<open>Transfers\<close> (deposits, withdrawals and the allowlist:
      \<^verbatim>\<open>wallets/transfers.py\<close>, \<^verbatim>\<open>api/routes/wallets.py\<close>, the table of withdrawals of \<^verbatim>\<open>db/repo.py\<close>).
    \<^item> Access. \<open>Access\<close> models who may talk to the program and with what secrets: encoding and the secret box
      (\<^verbatim>\<open>security/crypto.py\<close>), tokens, keys and the checks at the start (\<^verbatim>\<open>config/env.py\<close>), the middleware
      (\<^verbatim>\<open>api/auth.py\<close>) and the login with its lockout (\<^verbatim>\<open>api/routes/system.py\<close>).
    \<^item> Service. \<open>Feeds\<close> models which tasks read which market and how a stream reconnects
      (\<^verbatim>\<open>marketdata/hub.py\<close>), \<open>Service\<close> the rest of \<^verbatim>\<open>app.py\<close>: balances in live mode, exchange accounts, DEX
      connectors, events, capital, and the shadow recorder (\<^verbatim>\<open>engine/shadow.py\<close>); \<open>Replay\<close> the simulated venues
      (\<^verbatim>\<open>sim/venues.py\<close>) and the replay of a market (\<^verbatim>\<open>backtest/replay.py\<close>); \<open>Backup\<close> the archive of the data
      directory (\<^verbatim>\<open>src/scripts/backup.py\<close>) and the Solana keystore of the wallet manager.
    \<^item> Records. \<open>Records\<close> models the tables that outlive a restart (\<^verbatim>\<open>db/repo.py\<close>, \<^verbatim>\<open>db/models.py\<close>): trades
      with orders and fills, the results of the day and what the risk engine reads back of them, paper balances
      and breakers.

  Conventions. A dataclass is a record whose fields carry a short prefix (\<open>tr_\<close> of a trade, \<open>eq_\<close> of an
  execution quote, \<open>cx_\<close> of the context); an enumeration is a datatype with the source's names. A
  number is a rational: a decimal of the program is a rational with at most 34 significant digits, and
  the statements that need this say so (\<open>drepr\<close>). Overflow and underflow of the decimal exponent (beyond
  10 to the power 999999) are not modelled. A dictionary is an association list in insertion order, a set of identifiers a list
  without order. A text that is only displayed or logged is a value \<open>Msg\<close> with its parameters instead of the
  formatted string. An exception is the left side of a sum; where the program catches any exception of an
  outside call, the answer of that call is itself a sum. Functions pass the state explicitly and return it changed.
  What the program reads from outside (the clock, new identifiers, random draws, the answers of an exchange,
  of the gateway or of a node) is the argument of the definition that uses it, mostly a record of the
  answers (\<open>exec_env\<close>, \<open>cex_env\<close>, \<open>dex_env\<close>, \<open>flash_env\<close>, \<open>carry_env\<close>, \<open>market_view\<close>). Between two awaits
  the program runs alone; an operation is one step, and interleavings are sequences of steps
  (\<open>breaker_run\<close>, \<open>carry_step\<close>, \<open>carry_run_frame\<close>).

  What the lemmas show. For the guards: what a positive decision implies (\<open>profit_safe_sound\<close>,
  \<open>risk_passed_sound\<close>, \<open>safe_passes_every_guard\<close>) and how the worst case bounds the expected one. For the
  book: exactness and optimality of walking it. For the breakers: a refinement of an abstract set of
  alarms, proved once in the locale \<open>alarm_board\<close>. For ledger and inventory: conservation and coverage of
  reservations. For execution: every run ends in a final status without left-over reservations, and an
  exposure ends hedged or with trading stopped. For the connectors: orders return, are submitted once and are
  never loosened by rounding. For positions and loans: what a close leaves behind, and what must hold
  before a transaction is sent. For the control loops: what they detect, heal and lift. For live trading: over any
  sequence of requests and restarts, which one can enter it, and what the checklist looked at. For funds: a withdrawal passes every
  check, is signed by the bot wallet and leaves at most once per key. For access: no request passes without the
  token, a client gets few guesses at it, and generated keys and encrypted secrets come back as they were. For the
  records: what the tables keep, and that a start with a connected venue overwrites the stored alarms before it reads them. For
  the service: what a refresh of the balances hides from reconciliation, that disabled accounts are unused, that old recordings are not
  replayed, and that a backup restores and a restore changes only what it should. This theory adds
  the statements that span components: the scan loop hands over only the best safe opportunity, nothing trades
  after an emergency stop, and a venue that is down takes part in no trade. Several theorems state
  behaviour that a reader of the code may not expect, such as alarms that are never lifted or results
  that are booked at zero; their texts say what happens.

  Loops and bounds. Loops over data are structural recursions. The polling loops of the connectors run against a
  deadline on a clock that is outside, so they are partial functions into \<open>option\<close>, where \<open>None\<close> is a loop that does not
  end; \<open>place_order_returns\<close> and \<open>dex_place_order_returns\<close> prove that they return when every round takes at
  least the pause the code sleeps, with the number of rounds bounded by the timeout over the pause. Retries are
  bounded by the attempts the code allows. Nothing else needs fuel.

  Not modelled. The routes of the HTTP API that only read, the listing queries of \<^verbatim>\<open>db\<close>, its sessions and migrations,
  notification, the construction of the service, its tasks and event loop, the cipher and logging, the transport of requests, the
  library objects of exchanges and nodes, the contract of the flash loan (Solidity), the generator of synthetic
  markets, the front end, and the other scripts for audits and user-interface tests: they are input and output,
  third-party code, or do not take part in trading decisions. In modelled files, texts and dictionaries that are only displayed
  are left out.
\<close>

subsection \<open>The engines together\<close>

definition handed_over :: "auto_route \<Rightarrow> opportunity" where
  "handed_over a = (case a of Via_Flash_Loan o1 \<Rightarrow> o1 | Via_Positions o1 \<Rightarrow> o1 | Via_Executor o1 \<Rightarrow> o1)"

lemma auto_execute_some:
  assumes "auto_execute cx os = Some a"
  shows "(\<exists>rest. os = handed_over a # rest) \<and> op_decision (handed_over a) = SAFE_TO_EXECUTE \<and>
    \<not> cx_emergency_stop cx \<and> gs_bot_enabled (s_general (cx_settings cx)) \<and> ts_auto_execute (s_trading (cx_settings cx)) \<and>
    \<not> gs_shadow_mode (s_general (cx_settings cx)) \<and>
    int (length (cx_open_trade_ids cx)) < rs_max_concurrent_trades (s_risk (cx_settings cx))"
  using assms by (auto simp: auto_execute_def auto_choice_def Let_def handed_over_def split: if_splits list.splits)

text \<open>C5. The scan loop runs the best executable trade: what it hands to an engine after a scan is an
  unexpired opportunity that is SAFE_TO_EXECUTE and whose worst-case profit no other unexpired
  executable opportunity exceeds; and it does so only when the bot is on with automatic execution,
  outside shadow mode and emergency stop, and below the limit of concurrent trades.\<close>

theorem scan_executes_best:
  assumes "scan view cx e pairs t0 t1 = Inr (cx', e', os)" and "auto_execute cx' os = Some a"
    and "\<forall>o1 \<in> set (vals (oe_latest e')). drepr (pa_worst_case_profit (op_profit o1))"
  shows "handed_over a \<in> set (vals (oe_latest e')) \<and> t1 < op_expires_at_ms (handed_over a) \<and>
    op_decision (handed_over a) = SAFE_TO_EXECUTE \<and>
    (\<forall>o2 \<in> set (vals (oe_latest e')). t1 < op_expires_at_ms o2 \<and> op_decision o2 = SAFE_TO_EXECUTE \<longrightarrow>
       pa_worst_case_profit (op_profit o2) \<le> pa_worst_case_profit (op_profit (handed_over a))) \<and>
    \<not> cx_emergency_stop cx' \<and> gs_bot_enabled (s_general (cx_settings cx')) \<and>
    ts_auto_execute (s_trading (cx_settings cx')) \<and> \<not> gs_shadow_mode (s_general (cx_settings cx')) \<and>
    int (length (cx_open_trade_ids cx')) < rs_max_concurrent_trades (s_risk (cx_settings cx'))"
proof -
  have os: "os = ranked e' t1"
    using assms(1) by (auto simp: scan_def bind_result_Inr_iff Let_def)
  note A = auto_execute_some [OF assms(2)]
  then obtain rest where r: "ranked e' t1 = handed_over a # rest" unfolding os by blast
  have "handed_over a \<in> set (ranked e' t1)" by (simp add: r)
  then have mem: "handed_over a \<in> set (vals (oe_latest e'))" "t1 < op_expires_at_ms (handed_over a)"
    by (simp_all add: ranked_def)
  have best: "pa_worst_case_profit (op_profit o2) \<le> pa_worst_case_profit (op_profit (handed_over a))"
    if o2: "o2 \<in> set (vals (oe_latest e'))" "t1 < op_expires_at_ms o2" "op_decision o2 = SAFE_TO_EXECUTE" for o2
  proof -
    have "rank_key (handed_over a) \<le> rank_key o2" using ranked_head [OF r o2(1,2)] by blast
    then have "dneg (pa_worst_case_profit (op_profit (handed_over a))) \<le> dneg (pa_worst_case_profit (op_profit o2))"
      using A o2(3) unfolding rank_key_def less_eq_prod_def by auto
    then show ?thesis using assms(3) mem(1) o2(1) by (simp add: dneg_exact)
  qed
  show ?thesis using A mem best by blast
qed

lemma activate_state:
  assumes "activate va why (cx, r, st) = (cx1, r1, st1)" and "manager_wf (cx_breakers cx)"
  shows "cx_emergency_stop cx1 \<and> (''global'', MANUAL) \<in> alarms (cx_breakers cx1)"
proof -
  define cx0 where "cx0 = cx\<lparr>cx_emergency_stop := True,
    cx_breakers := fst (trip (cx_breakers cx) MANUAL (Msg ''emergency stop'' [AMsg why]) ''global'' False (va_now_ms va))\<rparr>"
  obtain cxr rr rep where run: "run_once va (cx0, r) = (cxr, rr, rep)" by (metis prod.exhaust)
  have wf: "manager_wf (cx_breakers cx0)" by (simp add: cx0_def manager_wf_trip assms(2))
  have "cx1 = cxr" using assms(1) run unfolding cx0_def by (auto simp: activate_def Let_def split: prod.splits)
  moreover have "cx_emergency_stop cx0" by (simp add: cx0_def)
  then have "cx_emergency_stop cxr" using run_once_stop [of va cx0 r] by (simp add: run)
  moreover have "(''global'', MANUAL) \<in> alarms (cx_breakers cxr)"
    using run_once_alarms [OF wf run] by (simp add: cx0_def alarms_trip [OF assms(2)])
  ultimately show ?thesis by simp
qed

text \<open>C4. The emergency stop stops everything: once it is activated, a global breaker is up, whatever the
  venues answered to its cancellations; no evaluation is SAFE_TO_EXECUTE any more, the scan loop
  executes nothing and every trade handed to the execution engine is aborted.\<close>

theorem stop_blocks_trading:
  assumes "activate va why (cx, r, st) = (cx1, r1, st1)" and "manager_wf (cx_breakers cx)"
  shows "is_tripped (cx_breakers cx1) ''global'' \<and> auto_execute cx1 os = None \<and>
    (\<forall>o1 bl. evaluate mv cx1 c given = Inr (Some o1, bl) \<longrightarrow> op_decision o1 = BLOCKED) \<and>
    (\<forall>cx2 tr. execute env cx1 opp = Inr (cx2, tr) \<longrightarrow> tr_status tr = ABORTED)"
proof -
  note S = activate_state [OF assms]
  have "is_tripped (cx_breakers cx1) ''global''"
    using S unfolding is_tripped_alarms alarm_on_def by (auto intro: bexI [rotated])
  moreover have "auto_execute cx1 os = None" using S by (simp add: auto_execute_def Let_def)
  moreover have "op_decision o1 = BLOCKED" if "evaluate mv cx1 c given = Inr (Some o1, bl)" for o1 bl
  proof (rule ccontr)
    assume "op_decision o1 \<noteq> BLOCKED"
    then have "op_decision o1 = SAFE_TO_EXECUTE" by (cases "op_decision o1") auto
    from evaluate_clear [OF that this] S show False by (simp add: clear_route_def Let_def)
  qed
  moreover have "tr_status tr = ABORTED" if x: "execute env cx1 opp = Inr (cx2, tr)" for cx2 tr
  proof (rule ccontr)
    assume "tr_status tr \<noteq> ABORTED"
    then have "\<not> aborted_run env cx1 cx2 tr" using aborted_run_status by blast
    from execute_run [OF x this] have "precheck env cx1 opp = None" by metis
    with S show False by (simp add: precheck_def Let_def)
  qed
  ultimately show ?thesis by blast
qed

text \<open>C9. An unhealthy venue does not trade: when the health of the venue of a leg is what its tracker
  classifies, an opportunity that is SAFE_TO_EXECUTE has a venue that is neither in maintenance nor
  failing (market data flagged, missing or far too old, clock off by ten seconds, ten errors in five
  minutes), and without any complaint at all unless degraded venues are allowed.\<close>

theorem unhealthy_venue_never_trades:
  assumes "evaluate mv cx c given = Inr (Some o1, bl)" and "op_decision o1 = SAFE_TO_EXECUTE"
    and "v = eq_venue (op_buy o1) \<or> v = eq_venue (op_sell o1)"
    and "mv_health mv v = hr_health (classify fsum t v ma ws now tick)"
  shows "\<not> ht_maintenance t \<and> \<not> failing t ma now tick \<and>
    (rs_allow_degraded_venues (s_risk (cx_settings cx)) \<or> hr_reasons (classify fsum t v ma ws now tick) = [])"
proof -
  have "venue_cleared mv cx v" using evaluate_clear [OF assms(1,2)] assms(3) by (auto simp: clear_route_def Let_def)
  then show ?thesis
    unfolding venue_cleared_def assms(4) classify_health_cases by (auto split: if_splits)
qed


subsection \<open>Witnesses\<close>

definition lone_ctx :: engine_ctx where
  \<comment> \<open>no venue is connected, so a scan evaluates nothing and ranks what it found before\<close>
  "lone_ctx = wit_ctx\<lparr>cx_connectors := []\<rparr>"

lemma lone_scan:
  "scan (\<lambda>_. wit_view) lone_ctx wit_engine [''BTC/USDC''] 1499 1500 =
     Inr (lone_ctx, wit_engine\<lparr>oe_scan_count := 2, oe_last_scan_ms := 1500, oe_last_scan_duration_ms := 1\<rparr>, ranked wit_engine 1500)"
proof -
  have pairs: "candidate_pairs si [] ''BTC/USDC'' = Inr []" for si
    using wit_split by (simp add: candidate_pairs_def sell_venues_def buy_venues_def bind_result_def Let_def split: if_splits)
  have none: "concat_results rs = Inr []" if "set rs \<subseteq> {Inr []}" for rs :: "route_candidate list result list"
    using that by (induction rs) auto
  have "candidates lone_ctx [''BTC/USDC''] = Inr []"
    unfolding candidates_def Let_def by (rule none) (auto simp: pairs lone_ctx_def vals_def)
  then show ?thesis
    by (simp add: scan_def Let_def annotate_def note_all_def ranked_def wit_engine_def lone_ctx_def)
qed

theorem scan_executes_best_witness:
  "\<exists>a. auto_execute lone_ctx (ranked wit_engine 1500) = Some a \<and>
     pa_worst_case_profit (op_profit (handed_over a)) = 2"
proof -
  let ?e = "wit_engine\<lparr>oe_scan_count := 2, oe_last_scan_ms := 1500, oe_last_scan_duration_ms := 1\<rparr>"
  have l: "oe_latest ?e = [(''weak'', wit_opp\<lparr>op_profit := (op_profit wit_opp)\<lparr>pa_worst_case_profit := 1\<rparr>\<rparr>),
      (''strong'', wit_opp\<lparr>op_profit := (op_profit wit_opp)\<lparr>pa_worst_case_profit := 2\<rparr>\<rparr>)]"
    by (simp add: wit_engine_def wit_opp_def Let_def)
  have d: "drepr 1" "drepr 2" unfolding drepr_def fits_def
    by (intro exI [of _ 1] exI [of _ 0], simp) (intro exI [of _ 2] exI [of _ 0], simp)
  have live: "1500 < op_expires_at_ms wit_opp"
    by (simp add: wit_opp_def wit_expires app_defaults_def advanced_defaults_def)
  have "ranked wit_engine 1500 \<noteq> []"
    using l live by (simp add: ranked_def vals_def)
  then obtain o1 rest where r: "ranked wit_engine 1500 = o1 # rest" by (cases "ranked wit_engine 1500") auto
  then have "op_decision o1 = SAFE_TO_EXECUTE"
    using wit_engine_decision [of o1 1500] wit_assessed by (simp add: wit_opp_def)
  then obtain a where a: "auto_execute lone_ctx (ranked wit_engine 1500) = Some a"
    by (simp add: r auto_execute_def auto_choice_def lone_ctx_def app_defaults_def general_defaults_def
        trading_defaults_def risk_defaults_def Let_def demo_ctx_def wit_ctx_def)
  have all: "\<forall>o1 \<in> set (vals (oe_latest ?e)). drepr (pa_worst_case_profit (op_profit o1))"
    unfolding l using d by (simp add: vals_def)
  note S = scan_executes_best [OF lone_scan a all]
  let ?s = "wit_opp\<lparr>op_profit := (op_profit wit_opp)\<lparr>pa_worst_case_profit := 2\<rparr>\<rparr>"
  have "?s \<in> set (vals (oe_latest ?e))" unfolding l by (simp add: vals_def)
  moreover have "1500 < op_expires_at_ms ?s \<and> op_decision ?s = SAFE_TO_EXECUTE" using live wit_assessed by simp
  ultimately have "pa_worst_case_profit (op_profit ?s) \<le> pa_worst_case_profit (op_profit (handed_over a))"
    using S by blast
  moreover have "handed_over a \<in> set (vals (oe_latest ?e))" using S by blast
  then have "pa_worst_case_profit (op_profit (handed_over a)) \<in> {1, 2}" unfolding l by (auto simp: vals_def)
  ultimately show ?thesis using a by auto
qed

theorem stop_blocks_trading_witness:
  "\<exists>cx1 r1 st1. activate (demo_answers []) (Msg ''drill'' []) (wit_ctx, demo_expected, \<lparr>st_reason = None, st_report = None\<rparr>) =
     (cx1, r1, st1) \<and> is_tripped (cx_breakers cx1) ''global'' \<and> auto_execute cx1 wit_os = None"
proof -
  obtain cx1 r1 st1 where act: "activate (demo_answers []) (Msg ''drill'' [])
      (wit_ctx, demo_expected, \<lparr>st_reason = None, st_report = None\<rparr>) = (cx1, r1, st1)" by (metis prod.exhaust)
  have "manager_wf (cx_breakers wit_ctx)" by (simp add: manager_wf_new)
  from stop_blocks_trading [OF act this, of wit_os] act show ?thesis by blast
qed

theorem unhealthy_venue_never_trades_witness:
  "hr_reasons (classify (\<lambda>_. 0) (new_tracker\<lparr>ht_last_market_data_ms := 1400\<rparr>) ''kraken'' 15000 False 1500 10) = []"
proof -
  let ?t = "new_tracker\<lparr>ht_last_market_data_ms := 1400\<rparr>"
  have h: "hr_health (classify (\<lambda>_. 0) ?t ''kraken'' 15000 False 1500 10) = HEALTHY"
    by (simp add: classify_def health_checks_def new_tracker_def Let_def when_level_def rate_limited_def data_age_level_def
        age_since_def drift_level_def avg_latency_ms_def error_level_def errors_last_def order_failures_last_def events_since_def)
  have v: "eq_venue (op_buy wit_opp) = ''kraken''"
    by (simp add: wit_opp_def assess_route_def Let_def wit_buy_def demo_leg_def)
  have "mv_health wit_view ''kraken'' = hr_health (classify (\<lambda>_. 0) ?t ''kraken'' 15000 False 1500 10)"
    unfolding h by (simp add: wit_view_def)
  from unhealthy_venue_never_trades [OF _ _ _ this, of wit_ctx wit_route "Some 10" wit_opp "[]"] show ?thesis
    by (simp add: wit_assessed v app_defaults_def risk_defaults_def)
qed

end
